(* ===== verification/Iolink_Prelude.thy ===== *)
theory Iolink_Prelude
  imports Main "HOL-Library.AList" "HOL-Library.Word"
begin

text \<open>
  Shared vocabulary of the development: how Go results, instants, durations and maps are
  represented, the collections of facts the component proofs use, and the generic lemmas on
  association lists and result types that several components share.

  \<^item> A Go call \<open>(T, error)\<close> is a \<open>('e, 't) result\<close>: \<open>Inl e\<close> for a non-nil error (the
    zero value returned beside it is dropped), \<open>Inr v\<close> for a nil error. A bare \<open>error\<close>
    is an \<open>'e option\<close>, \<open>None\<close> for nil.
  \<^item> A \<open>time.Time\<close> is the number of nanoseconds since Go's zero time (1 January of year 1,
    UTC), an \<open>int\<close>; \<open>IsZero\<close> is being 0. Monotonic readings and locations are not part of it.
    A \<open>time.Duration\<close> is its number of nanoseconds; \<open>Time.Sub\<close> saturates at 64 bits.
  \<^item> A Go map is an association list with distinct keys. Its order stands for the (unspecified)
    iteration order: a theorem about every list is a theorem about every order.
\<close>

type_synonym ('e, 'a) result = "'e + 'a"
type_synonym time = int
type_synonym duration = int

named_theorems iolink_simps \<open>unfolding rules of the small predicates of the components\<close>
named_theorems iolink_wf \<open>well-formedness preservation, used as introduction rules\<close>

subsection \<open>Instants and durations\<close>

definition time_zero :: time where
  "time_zero = 0"

definition is_zero :: "time \<Rightarrow> bool" where
  "is_zero t \<longleftrightarrow> t = time_zero"

definition second :: duration where
  "second = 1000000000"

definition minute :: duration where
  "minute = 60 * second"

definition hour :: duration where
  "hour = 60 * minute"

definition max_duration :: duration where
  "max_duration = 2 ^ 63 - 1"

definition min_duration :: duration where
  "min_duration = - (2 ^ 63)"

definition time_sub :: "time \<Rightarrow> time \<Rightarrow> duration" where
  "time_sub a b = max min_duration (min max_duration (a - b))"

lemmas duration_defs = second_def minute_def hour_def

lemma is_zero_iff [iolink_simps]: "is_zero t \<longleftrightarrow> t = 0"
  by (simp add: is_zero_def time_zero_def)

lemma time_sub_le_iff:
  "min_duration \<le> d \<Longrightarrow> d < max_duration \<Longrightarrow> time_sub a b \<le> d \<longleftrightarrow> a - b \<le> d"
  by (auto simp: time_sub_def)

lemma time_sub_ge_iff:
  "min_duration < d \<Longrightarrow> d \<le> max_duration \<Longrightarrow> d \<le> time_sub a b \<longleftrightarrow> d \<le> a - b"
  by (auto simp: time_sub_def)

lemma time_sub_gt_iff:
  "min_duration \<le> d \<Longrightarrow> d < max_duration \<Longrightarrow> d < time_sub a b \<longleftrightarrow> d < a - b"
  by (auto simp: time_sub_def min_duration_def max_duration_def)

subsection \<open>Results\<close>

definition is_ok :: "('e, 'a) result \<Rightarrow> bool" where
  "is_ok r \<longleftrightarrow> (case r of Inl _ \<Rightarrow> False | Inr _ \<Rightarrow> True)"

lemma is_ok_simps [simp]: "\<not> is_ok (Inl e)" "is_ok (Inr v)"
  by (simp_all add: is_ok_def)

lemma is_ok_iff: "is_ok r \<longleftrightarrow> (\<exists>v. r = Inr v)"
  by (cases r) simp_all

text \<open>
  Early returns: \<open>require b e k\<close> is \<open>if !b { return e }; k\<close>, and \<open>take_or opt e k\<close> goes on with
  the value of \<open>opt\<close> or returns \<open>e\<close>. \<open>after r k\<close> goes on with the value of a call, or returns its
  error.
\<close>

definition require :: "bool \<Rightarrow> 'e \<Rightarrow> ('e, 'a) result \<Rightarrow> ('e, 'a) result" where
  "require b e k = (if b then k else Inl e)"

definition take_or :: "'b option \<Rightarrow> 'e \<Rightarrow> ('b \<Rightarrow> ('e, 'a) result) \<Rightarrow> ('e, 'a) result" where
  "take_or opt e k = (case opt of None \<Rightarrow> Inl e | Some x \<Rightarrow> k x)"

definition after :: "('e, 'b) result \<Rightarrow> ('b \<Rightarrow> ('e, 'a) result) \<Rightarrow> ('e, 'a) result" where
  "after r k = (case r of Inl e \<Rightarrow> Inl e | Inr x \<Rightarrow> k x)"

text \<open>\<open>after_as e r k\<close> returns \<open>e\<close> whatever the error of \<open>r\<close>.\<close>

definition after_as :: "'e \<Rightarrow> ('f, 'b) result \<Rightarrow> ('b \<Rightarrow> ('e, 'a) result) \<Rightarrow> ('e, 'a) result" where
  "after_as e r k = (case r of Inl _ \<Rightarrow> Inl e | Inr x \<Rightarrow> k x)"

lemma after_as_Inr [iolink_simps]: "after_as e r k = Inr x \<longleftrightarrow> (\<exists>y. r = Inr y \<and> k y = Inr x)"
  by (cases r) (simp_all add: after_as_def)

lemma require_Inr [iolink_simps]: "require b e k = Inr x \<longleftrightarrow> b \<and> k = Inr x"
  by (simp add: require_def)

lemma take_or_Inr [iolink_simps]: "take_or opt e k = Inr x \<longleftrightarrow> (\<exists>y. opt = Some y \<and> k y = Inr x)"
  by (cases opt) (simp_all add: take_or_def)

lemma after_Inr [iolink_simps]: "after r k = Inr x \<longleftrightarrow> (\<exists>y. r = Inr y \<and> k y = Inr x)"
  by (cases r) (simp_all add: after_def)

lemma early_simps [simp]:
  "require True e k = k" "require False e k = Inl e"
  "take_or None e f = Inl e" "take_or (Some y) e f = f y"
  "after (Inl e) g = Inl e" "after (Inr z) g = g z"
  "after_as e (Inl e') g = Inl e" "after_as e (Inr z) g = g z"
  by (simp_all add: require_def take_or_def after_def after_as_def)

text \<open>
  What holds of the value of a call that succeeds, and the rules that take it through a body: an
  operation's effect is shown by \<open>intro ok_rules\<close>, which leaves a goal for each successful return.
\<close>

named_theorems ok_rules \<open>postconditions of results, by the shape of the body\<close>

definition ok :: "('a \<Rightarrow> bool) \<Rightarrow> ('e, 'a) result \<Rightarrow> bool" where
  "ok P r = (case r of Inl _ \<Rightarrow> True | Inr x \<Rightarrow> P x)"

lemma ok_simps [simp]: "ok P (Inl e)" "ok P (Inr x) = P x"
  by (simp_all add: ok_def)

lemma okD: "ok P r \<Longrightarrow> r = Inr x \<Longrightarrow> P x"
  by simp

lemma ok_weaken: "ok P r \<Longrightarrow> (\<And>x. P x \<Longrightarrow> Q x) \<Longrightarrow> ok Q r"
  by (cases r) simp_all

lemma okI: "(\<And>x. r = Inr x \<Longrightarrow> P x) \<Longrightarrow> ok P r"
  by (cases r) simp_all

lemma ok_error [ok_rules]: "ok P (Inl e)"
  by simp

lemma ok_return [ok_rules]: "P x \<Longrightarrow> ok P (Inr x)"
  by simp

lemma ok_require [ok_rules]: "(b \<Longrightarrow> ok P k) \<Longrightarrow> ok P (require b e k)"
  by (cases b) simp_all

lemma ok_take_or [ok_rules]: "(\<And>y. opt = Some y \<Longrightarrow> ok P (k y)) \<Longrightarrow> ok P (take_or opt e k)"
  by (cases opt) simp_all

lemma ok_after [ok_rules]: "(\<And>y. r = Inr y \<Longrightarrow> ok P (k y)) \<Longrightarrow> ok P (after r k)"
  by (cases r) simp_all

lemma ok_after_as [ok_rules]: "(\<And>y. r = Inr y \<Longrightarrow> ok P (k y)) \<Longrightarrow> ok P (after_as e r k)"
  by (cases r) simp_all

lemma ok_if [ok_rules]: "(b \<Longrightarrow> ok P x) \<Longrightarrow> (\<not> b \<Longrightarrow> ok P y) \<Longrightarrow> ok P (if b then x else y)"
  by simp

lemma ok_option [ok_rules]:
  "(opt = None \<Longrightarrow> ok P x) \<Longrightarrow> (\<And>y. opt = Some y \<Longrightarrow> ok P (k y)) \<Longrightarrow>
   ok P (case opt of None \<Rightarrow> x | Some y \<Rightarrow> k y)"
  by (cases opt) simp_all

lemma ok_pair [ok_rules]: "(\<And>a b. p = (a, b) \<Longrightarrow> ok P (k a b)) \<Longrightarrow> ok P (case p of (a, b) \<Rightarrow> k a b)"
  by (cases p) simp

subsection \<open>Maps as association lists\<close>

definition keys :: "('k \<times> 'v) list \<Rightarrow> 'k set" where
  "keys m = fst ` set m"

definition wf_map :: "('k \<times> 'v) list \<Rightarrow> bool" where
  "wf_map m \<longleftrightarrow> distinct (map fst m)"

lemma keys_simps [simp]: "keys [] = {}" "keys (kv # m) = insert (fst kv) (keys m)"
  by (simp_all add: keys_def)

lemma keys_update [simp]: "keys (AList.update k v m) = insert k (keys m)"
  by (simp add: keys_def dom_update image_set [symmetric] update_keys)

lemma keys_delete [simp]: "keys (AList.delete k m) = keys m - {k}"
  by (auto simp: keys_def AList.delete_eq)

lemma keys_filter_subset: "keys (filter P m) \<subseteq> keys m"
  by (auto simp: keys_def)

lemma map_of_None_iff: "map_of m k = None \<longleftrightarrow> k \<notin> keys m"
  by (simp add: keys_def map_of_eq_None_iff)

lemma map_of_Some_keys: "map_of m k = Some v \<Longrightarrow> k \<in> keys m"
  by (metis map_of_None_iff option.distinct(1))

lemma wf_map_nil [simp]: "wf_map []"
  by (simp add: wf_map_def)

lemma wf_map_update [iolink_wf, simp]: "wf_map m \<Longrightarrow> wf_map (AList.update k v m)"
  by (simp add: wf_map_def distinct_update)

lemma wf_map_delete [iolink_wf, simp]: "wf_map m \<Longrightarrow> wf_map (AList.delete k m)"
  by (simp add: wf_map_def distinct_delete)

lemma wf_map_filter [iolink_wf, simp]: "wf_map m \<Longrightarrow> wf_map (filter P m)"
  by (simp add: wf_map_def distinct_map_filter)

lemma wf_map_of_filter:
  "wf_map m \<Longrightarrow> map_of (filter P m) k = Some v \<longleftrightarrow> map_of m k = Some v \<and> P (k, v)"
  by (auto simp: wf_map_def map_of_eq_Some_iff distinct_map_filter)

lemma length_delete_less: "k \<in> keys m \<Longrightarrow> length (AList.delete k m) < length m"
  by (induction m) (auto simp: AList.delete_eq less_Suc_eq_le)

lemma delete_fresh: "k \<notin> keys m \<Longrightarrow> AList.delete k m = m"
  by (induction m) auto

lemma length_update_fresh: "k \<notin> keys m \<Longrightarrow> length (AList.update k v m) = Suc (length m)"
  by (induction m) auto

lemma length_update_le: "length (AList.update k v m) \<le> Suc (length m)"
  by (induction m) auto

lemma map_of_update_fun [simp]: "map_of (AList.update k v m) = (map_of m)(k \<mapsto> v)"
  by (simp add: update_conv')

lemma map_of_delete_fun [simp]: "map_of (AList.delete k m) = (map_of m)(k := None)"
  by (simp add: delete_conv')

end
