(* ===== verification/Go_Strings.thy ===== *)
theory Go_Strings
  imports Iolink_Prelude
begin

text \<open>
  The parts of Go's standard library on strings that the program relies on. A Go string is a
  sequence of bytes, here a \<open>string\<close> (a list of 8-bit characters); \<open>codes\<close> are its bytes as
  numbers. UTF-8 decoding, \<open>unicode.IsControl\<close>, \<open>unicode.IsSpace\<close>, \<open>strings.TrimSpace\<close>,
  \<open>strings.Split\<close>, \<open>strings.Contains\<close> and the percent-encoding functions of \<open>net/url\<close> follow
  the package documentation byte for byte. \<open>ToLower\<close>, \<open>ToUpper\<close> and \<open>EqualFold\<close> are the ASCII
  part of the Go functions; every use in the program compares with an ASCII text that no
  non-ASCII rune folds to.
\<close>

subsection \<open>Bytes and runes\<close>

definition codes :: "string \<Rightarrow> nat list" where
  "codes s = map of_char s"

definition cont_byte :: "nat \<Rightarrow> bool" where
  "cont_byte b \<longleftrightarrow> 128 \<le> b \<and> b \<le> 191"

definition lo3 :: "nat \<Rightarrow> nat" where
  "lo3 a = (if a = 224 then 160 else 128)"

definition hi3 :: "nat \<Rightarrow> nat" where
  "hi3 a = (if a = 237 then 159 else 191)"

definition lo4 :: "nat \<Rightarrow> nat" where
  "lo4 a = (if a = 240 then 144 else 128)"

definition hi4 :: "nat \<Rightarrow> nat" where
  "hi4 a = (if a = 244 then 143 else 191)"

text \<open>The first rune and its width, \<open>None\<close> where \<open>utf8.DecodeRune\<close> returns \<open>(RuneError, 1)\<close>.\<close>

definition decode_rune :: "nat list \<Rightarrow> (nat \<times> nat) option" where
  "decode_rune l =
     (case l of
        [] \<Rightarrow> None
      | a # r \<Rightarrow>
          if a < 128 then Some (a, 1)
          else if 194 \<le> a \<and> a \<le> 223 then
            (case r of
               b # _ \<Rightarrow> if cont_byte b then Some ((a - 192) * 64 + (b - 128), 2) else None
             | [] \<Rightarrow> None)
          else if 224 \<le> a \<and> a \<le> 239 then
            (case r of
               b # c # _ \<Rightarrow>
                 if lo3 a \<le> b \<and> b \<le> hi3 a \<and> cont_byte c
                 then Some ((a - 224) * 4096 + (b - 128) * 64 + (c - 128), 3) else None
             | _ \<Rightarrow> None)
          else if 240 \<le> a \<and> a \<le> 244 then
            (case r of
               b # c # d # _ \<Rightarrow>
                 if lo4 a \<le> b \<and> b \<le> hi4 a \<and> cont_byte c \<and> cont_byte d
                 then Some ((a - 240) * 262144 + (b - 128) * 4096 + (c - 128) * 64 + (d - 128), 4)
                 else None
             | _ \<Rightarrow> None)
          else None)"

function runes :: "nat list \<Rightarrow> nat list" where
  "runes [] = []"
| "runes (a # r) =
     (case decode_rune (a # r) of
        Some (c, w) \<Rightarrow> c # runes (drop (w - 1) r)
      | None \<Rightarrow> 65533 # runes r)"
  by pat_completeness auto
termination
  by (relation "measure length") auto

function valid_utf8 :: "nat list \<Rightarrow> bool" where
  "valid_utf8 [] = True"
| "valid_utf8 (a # r) =
     (case decode_rune (a # r) of
        Some (c, w) \<Rightarrow> valid_utf8 (drop (w - 1) r)
      | None \<Rightarrow> False)"
  by pat_completeness auto
termination
  by (relation "measure length") auto

definition validString :: "string \<Rightarrow> bool" where
  "validString s = valid_utf8 (codes s)"

definition runeCount :: "string \<Rightarrow> nat" where
  "runeCount s = length (runes (codes s))"

definition isControl :: "nat \<Rightarrow> bool" where
  "isControl r \<longleftrightarrow> r < 32 \<or> (127 \<le> r \<and> r \<le> 159)"

definition isSpace :: "nat \<Rightarrow> bool" where
  "isSpace r \<longleftrightarrow> (9 \<le> r \<and> r \<le> 13) \<or> r = 32 \<or> r = 133 \<or> r = 160 \<or> r = 5760
     \<or> (8192 \<le> r \<and> r \<le> 8202) \<or> r = 8232 \<or> r = 8233 \<or> r = 8239 \<or> r = 8287 \<or> r = 12288"

definition containsControl :: "string \<Rightarrow> bool" where
  "containsControl s = list_ex isControl (runes (codes s))"

lemma length_runes_le: "length (runes l) \<le> length l"
proof (induction l rule: runes.induct)
  case 1
  show ?case by simp
next
  case (2 a r)
  show ?case
  proof (cases "decode_rune (a # r)")
    case None
    with 2 show ?thesis by simp
  next
    case (Some cw)
    obtain c w where cw: "cw = (c, w)" by (cases cw)
    have "length (runes (drop (w - 1) r)) \<le> length (drop (w - 1) r)"
      by (rule 2(2)[OF Some cw[symmetric]])
    with Some cw show ?thesis by simp
  qed
qed

lemma runeCount_le_length: "runeCount s \<le> length s"
  using length_runes_le[of "codes s"] by (simp add: runeCount_def codes_def)

lemma decode_rune_ascii: "a < 128 \<Longrightarrow> decode_rune (a # r) = Some (a, 1)"
  by (simp add: decode_rune_def)

lemma runes_ascii: "list_all (\<lambda>b. b < 128) l \<Longrightarrow> runes l = l"
  by (induction l) (simp_all add: decode_rune_ascii)

lemma valid_utf8_ascii: "list_all (\<lambda>b. b < 128) l \<Longrightarrow> valid_utf8 l"
  by (induction l) (simp_all add: decode_rune_ascii)

lemma decode_rune_before_ascii:
  assumes "decode_rune (x # l @ a # r) = Some (c, w)" and "a < 128"
  shows "decode_rune (x # l) = Some (c, w) \<and> w - 1 \<le> length l"
proof -
  have n: "\<not> cont_byte a" "\<not> lo3 x \<le> a" "\<not> lo4 x \<le> a"
    using assms(2) by (auto simp: cont_byte_def lo3_def lo4_def)
  consider "l = []" | b where "l = [b]" | b d where "l = [b, d]" | b d e l' where "l = b # d # e # l'"
    by (metis neq_Nil_conv)
  then show ?thesis
  proof cases
    case 1
    then show ?thesis using assms(1) n
      by (cases r) (auto simp: decode_rune_def split: if_split_asm list.split_asm)
  next
    case 2
    then show ?thesis using assms(1) n
      by (cases r) (auto simp: decode_rune_def split: if_split_asm)
  qed (use assms(1) n in \<open>auto simp: decode_rune_def split: if_split_asm\<close>)
qed

lemma valid_utf8_before_ascii:
  "valid_utf8 (l @ a # r) \<Longrightarrow> a < 128 \<Longrightarrow> valid_utf8 l"
proof (induction l rule: valid_utf8.induct)
  case (2 x l)
  then obtain c w where d: "decode_rune (x # l @ a # r) = Some (c, w)"
    and v: "valid_utf8 (drop (w - 1) (l @ a # r))"
    by (auto split: option.split_asm)
  note d' = decode_rune_before_ascii[OF d 2(3)]
  then have "w - 1 - length l = 0" by (metis diff_is_0_eq)
  then have "drop (w - 1) (l @ a # r) = drop (w - 1) l @ a # r" by (simp only: drop_append drop_0)
  with v have "valid_utf8 (drop (w - 1) l @ a # r)" by simp
  then show ?case using 2(1)[OF conjunct1[OF d'] refl] 2(3) d' by simp
qed simp

lemma valid_utf8_after_ascii:
  "list_all (\<lambda>b. b < 128) p \<Longrightarrow> valid_utf8 (p @ l) = valid_utf8 l"
  by (induction p) (simp_all add: decode_rune_ascii)

lemma validString_between:
  assumes "validString (p @ s @ c # q)" and "list_all (\<lambda>b. (of_char b :: nat) < 128) p" and "(of_char c :: nat) < 128"
  shows "validString s"
  using assms valid_utf8_before_ascii[of "codes s" "of_char c" "codes q"]
    valid_utf8_after_ascii[of "codes p" "codes (s @ c # q)"]
  by (simp add: validString_def codes_def list.pred_map comp_def)
text \<open>
  A loop \<open>for i := range s { \<dots> s[i] \<dots> }\<close> visits the first byte of every rune. A test that treats
  all bytes from 128 on alike gives the same answer on these bytes as on all bytes.
\<close>

function rune_starts :: "nat list \<Rightarrow> nat list" where
  "rune_starts [] = []"
| "rune_starts (a # r) =
     a # rune_starts (case decode_rune (a # r) of Some (c, w) \<Rightarrow> drop (w - 1) r | None \<Rightarrow> r)"
  by pat_completeness auto
termination
  by (relation "measure length") (auto split: option.splits)

definition range_all :: "(nat \<Rightarrow> bool) \<Rightarrow> string \<Rightarrow> bool" where
  "range_all P s = list_all P (rune_starts (codes s))"

lemma decode_rune_rest:
  "decode_rune (a # r) = Some (c, w) \<Longrightarrow>
     list_all (\<lambda>b. 128 \<le> b) (take (w - 1) r) \<and> (w = 1 \<or> 128 \<le> a)"
  by (auto simp: decode_rune_def cont_byte_def lo3_def lo4_def split: if_splits list.splits)

lemma list_all_rune_starts:
  assumes high: "\<And>b c. 128 \<le> b \<Longrightarrow> 128 \<le> c \<Longrightarrow> P b = P c"
  shows "list_all P (rune_starts l) = list_all P l"
proof (induction l rule: rune_starts.induct)
  case 1
  show ?case by simp
next
  case (2 a r)
  show ?case
  proof (cases "decode_rune (a # r)")
    case None
    with 2 show ?thesis by simp
  next
    case (Some cw)
    obtain c w where cw: "cw = (c, w)" by (cases cw)
    note rest = decode_rune_rest[OF Some[unfolded cw]]
    have split: "list_all P r \<longleftrightarrow> list_all P (take (w - 1) r) \<and> list_all P (drop (w - 1) r)"
      by (metis append_take_drop_id list_all_append)
    have "P a \<Longrightarrow> list_all P (take (w - 1) r)"
      using rest high by (cases "w = 1") (auto simp: list_all_iff)
    with 2 Some cw split show ?thesis by auto
  qed
qed

lemma range_all_bytes:
  assumes "\<And>b c. 128 \<le> b \<Longrightarrow> 128 \<le> c \<Longrightarrow> P b = P c"
  shows "range_all P s = list_all (\<lambda>c. P (of_char c)) s"
  by (simp add: range_all_def codes_def list_all_rune_starts[of P, OF assms] list.pred_map comp_def)

subsection \<open>Trimming\<close>

definition space_prefix :: "string \<Rightarrow> nat" where
  "space_prefix s =
     (case decode_rune (codes s) of
        Some (c, w) \<Rightarrow> if isSpace c then w else 0
      | None \<Rightarrow> 0)"

lemma space_prefix_nil [simp]: "space_prefix [] = 0"
  by (simp add: space_prefix_def codes_def decode_rune_def)

function trimLeft :: "string \<Rightarrow> string" where
  "trimLeft s = (if space_prefix s = 0 then s else trimLeft (drop (space_prefix s) s))"
  by pat_completeness auto
termination
proof (relation "measure length")
  fix s :: string
  assume "space_prefix s \<noteq> 0"
  then show "(drop (space_prefix s) s, s) \<in> measure length"
    by (cases s) auto
qed simp

declare trimLeft.simps [simp del]

text \<open>
  The rune that ends the string, as \<open>utf8.DecodeLastRune\<close> finds it: no white space rune is
  longer than three bytes, and the first byte of an encoding is never a continuation byte.
\<close>

definition ends_in_space :: "string \<Rightarrow> nat \<Rightarrow> bool" where
  "ends_in_space s w \<longleftrightarrow> w \<le> length s \<and>
     (case decode_rune (codes (drop (length s - w) s)) of
        Some (c, w') \<Rightarrow> w' = w \<and> isSpace c
      | None \<Rightarrow> False)"

definition space_suffix :: "string \<Rightarrow> nat" where
  "space_suffix s =
     (if ends_in_space s 1 then 1 else if ends_in_space s 2 then 2
      else if ends_in_space s 3 then 3 else 0)"

function trimRight :: "string \<Rightarrow> string" where
  "trimRight s = (if space_suffix s = 0 \<or> s = [] then s
     else trimRight (take (length s - space_suffix s) s))"
  by pat_completeness auto
termination
  by (relation "measure length") auto

declare trimRight.simps [simp del]

definition trimSpace :: "string \<Rightarrow> string" where
  "trimSpace s = trimRight (trimLeft s)"

lemma length_trimLeft: "length (trimLeft s) \<le> length s"
proof (induction s rule: trimLeft.induct)
  case (1 s)
  then show ?case
    by (cases "space_prefix s = 0") (auto simp: trimLeft.simps[of s])
qed

lemma length_trimRight: "length (trimRight s) \<le> length s"
proof (induction s rule: trimRight.induct)
  case (1 s)
  then show ?case
    by (cases "space_suffix s = 0 \<or> s = []") (auto simp: trimRight.simps[of s])
qed

lemma length_trimSpace: "length (trimSpace s) \<le> length s"
  using length_trimRight[of "trimLeft s"] length_trimLeft[of s] by (simp add: trimSpace_def)

lemma trimSpace_nil [simp]: "trimSpace [] = []"
  using length_trimSpace[of "[]"] by simp

subsection \<open>Searching, splitting and joining\<close>

definition hasPrefix :: "string \<Rightarrow> string \<Rightarrow> bool" where
  "hasPrefix p s \<longleftrightarrow> take (length p) s = p"

definition hasSuffix :: "string \<Rightarrow> string \<Rightarrow> bool" where
  "hasSuffix p s \<longleftrightarrow> length p \<le> length s \<and> drop (length s - length p) s = p"

fun strContains :: "string \<Rightarrow> string \<Rightarrow> bool" where
  "strContains sub [] = (sub = [])"
| "strContains sub (c # s) = (hasPrefix sub (c # s) \<or> strContains sub s)"

definition containsAny :: "string \<Rightarrow> string \<Rightarrow> bool" where
  "containsAny chars s \<longleftrightarrow> list_ex (\<lambda>c. c \<in> set chars) s"

fun splitOn :: "char \<Rightarrow> string \<Rightarrow> string list" where
  "splitOn c [] = [[]]"
| "splitOn c (x # xs) =
     (if x = c then [] # splitOn c xs
      else (case splitOn c xs of
              [] \<Rightarrow> [[x]]
            | y # ys \<Rightarrow> (x # y) # ys))"

fun joinWith :: "string \<Rightarrow> string list \<Rightarrow> string" where
  "joinWith sep [] = []"
| "joinWith sep [x] = x"
| "joinWith sep (x # y # zs) = x @ sep @ joinWith sep (y # zs)"

text \<open>\<open>strings.SplitN(s, sep, 2)\<close>: the part before the first separator, and the rest if any.\<close>

fun splitN2 :: "char \<Rightarrow> string \<Rightarrow> string \<times> string option" where
  "splitN2 c [] = ([], None)"
| "splitN2 c (x # xs) =
     (if x = c then ([], Some xs)
      else (case splitN2 c xs of (a, b) \<Rightarrow> (x # a, b)))"

lemma splitOn_not_nil [simp]: "splitOn c s \<noteq> []"
  by (induction s) (auto split: list.splits)

lemma hasPrefix_append [simp]: "hasPrefix p (p @ s)"
  by (simp add: hasPrefix_def)

lemma hasPrefix_iff: "hasPrefix p s \<longleftrightarrow> (\<exists>r. s = p @ r)"
  by (metis hasPrefix_def append_take_drop_id append_eq_conv_conj)

lemma hasSuffix_iff: "hasSuffix p s \<longleftrightarrow> (\<exists>r. s = r @ p)"
proof
  assume "hasSuffix p s"
  then have "s = take (length s - length p) s @ p"
    unfolding hasSuffix_def by (metis append_take_drop_id)
  then show "\<exists>r. s = r @ p" by blast
qed (auto simp: hasSuffix_def)

lemma strContains_iff: "strContains sub s \<longleftrightarrow> (\<exists>a b. s = a @ sub @ b)"
proof (induction s)
  case Nil
  show ?case by auto
next
  case (Cons x s)
  show ?case
  proof
    assume "strContains sub (x # s)"
    then consider "hasPrefix sub (x # s)" | "strContains sub s" by auto
    then show "\<exists>a b. x # s = a @ sub @ b"
    proof cases
      case 1
      then show ?thesis by (metis append_Nil hasPrefix_iff)
    next
      case 2
      with Cons.IH obtain a b where "s = a @ sub @ b" by blast
      then have "x # s = (x # a) @ sub @ b" by simp
      then show ?thesis by blast
    qed
  next
    assume "\<exists>a b. x # s = a @ sub @ b"
    then obtain a b where ab: "x # s = a @ sub @ b" by blast
    show "strContains sub (x # s)"
    proof (cases a)
      case Nil
      with ab have "hasPrefix sub (x # s)" by (simp add: hasPrefix_iff)
      then show ?thesis by simp
    next
      case (Cons y a')
      with ab have "s = a' @ sub @ b" by simp
      with Cons.IH have "strContains sub s" by blast
      then show ?thesis by simp
    qed
  qed
qed

lemma containsAny_iff: "containsAny cs s \<longleftrightarrow> set cs \<inter> set s \<noteq> {}"
  by (auto simp: containsAny_def list_ex_iff)

lemma containsAny_append [simp]:
  "containsAny cs (a @ b) \<longleftrightarrow> containsAny cs a \<or> containsAny cs b"
  by (auto simp: containsAny_def)

lemma joinWith_cons: "xs \<noteq> [] \<Longrightarrow> joinWith sep (x # xs) = x @ sep @ joinWith sep xs"
  by (cases xs) auto

lemma join_split [simp]: "joinWith [c] (splitOn c s) = s"
proof (induction s)
  case Nil
  show ?case by simp
next
  case (Cons x s)
  obtain y ys where ys: "splitOn c s = y # ys"
    by (cases "splitOn c s") auto
  then show ?case
    using Cons by (cases ys) auto
qed

lemma splitOn_plain: "c \<notin> set s \<Longrightarrow> splitOn c s = [s]"
  by (induction s) auto

lemma splitOn_append: "c \<notin> set a \<Longrightarrow> splitOn c (a @ c # b) = a # splitOn c b"
  by (induction a) auto

lemma split_join:
  "xs \<noteq> [] \<Longrightarrow> \<forall>x\<in>set xs. c \<notin> set x \<Longrightarrow> splitOn c (joinWith [c] xs) = xs"
proof (induction xs)
  case Nil
  then show ?case by simp
next
  case (Cons x xs)
  then show ?case
    by (cases "xs = []") (auto simp: splitOn_plain joinWith_cons splitOn_append)
qed

lemma splitOn_parts: "x \<in> set (splitOn c s) \<Longrightarrow> c \<notin> set x"
proof (induction s arbitrary: x)
  case Nil
  then show ?case by simp
next
  case (Cons y s)
  then show ?case
    by (cases "splitOn c s") (auto split: if_splits)
qed

lemma splitN2_None: "splitN2 c s = (a, None) \<Longrightarrow> a = s \<and> c \<notin> set s"
  by (induction s arbitrary: a) (auto split: if_splits prod.splits)

lemma splitN2_Some: "splitN2 c s = (a, Some b) \<Longrightarrow> s = a @ c # b \<and> c \<notin> set a"
  by (induction s arbitrary: a) (auto split: if_splits prod.splits)

lemma splitN2_plain: "c \<notin> set s \<Longrightarrow> splitN2 c s = (s, None)"
  by (induction s) auto

lemma splitN2_append: "c \<notin> set a \<Longrightarrow> splitN2 c (a @ c # b) = (a, Some b)"
  by (induction a) auto

subsection \<open>Character classes and ASCII case\<close>

definition isDigitByte :: "nat \<Rightarrow> bool" where
  "isDigitByte b \<longleftrightarrow> \<not> (b < 48 \<or> b > 57)"

definition isDigit :: "char \<Rightarrow> bool" where
  "isDigit c \<longleftrightarrow> (let b = (of_char c :: nat) in 48 \<le> b \<and> b \<le> 57)"

definition isLowerAZ :: "char \<Rightarrow> bool" where
  "isLowerAZ c \<longleftrightarrow> (let b = (of_char c :: nat) in 97 \<le> b \<and> b \<le> 122)"

definition isUpperAZ :: "char \<Rightarrow> bool" where
  "isUpperAZ c \<longleftrightarrow> (let b = (of_char c :: nat) in 65 \<le> b \<and> b \<le> 90)"

definition lowerChar :: "char \<Rightarrow> char" where
  "lowerChar c = (if isUpperAZ c then char_of (of_char c + 32 :: nat) else c)"

definition upperChar :: "char \<Rightarrow> char" where
  "upperChar c = (if isLowerAZ c then char_of (of_char c - 32 :: nat) else c)"

definition toLower :: "string \<Rightarrow> string" where
  "toLower s = map lowerChar s"

definition toUpper :: "string \<Rightarrow> string" where
  "toUpper s = map upperChar s"

definition equalFold :: "string \<Rightarrow> string \<Rightarrow> bool" where
  "equalFold a b \<longleftrightarrow> toLower a = toLower b"

lemma isDigit_iff: "isDigit c \<longleftrightarrow> 48 \<le> (of_char c :: nat) \<and> (of_char c :: nat) \<le> 57"
  by (simp add: isDigit_def Let_def)

lemma range_all_digits: "range_all isDigitByte s = list_all isDigit s"
  by (subst range_all_bytes) (auto simp: isDigitByte_def isDigit_iff not_less list_all_iff)

lemma length_toLower [simp]: "length (toLower s) = length s"
  by (simp add: toLower_def)

lemma length_toUpper [simp]: "length (toUpper s) = length s"
  by (simp add: toUpper_def)

subsection \<open>Percent-encoding\<close>

definition hexUpper :: "nat \<Rightarrow> char" where
  "hexUpper n = ''0123456789ABCDEF'' ! n"

definition hexVal :: "char \<Rightarrow> nat option" where
  "hexVal c =
     (let b = (of_char c :: nat) in
      if 48 \<le> b \<and> b \<le> 57 then Some (b - 48)
      else if 97 \<le> b \<and> b \<le> 102 then Some (b - 87)
      else if 65 \<le> b \<and> b \<le> 70 then Some (b - 55)
      else None)"

definition percentByte :: "char \<Rightarrow> string" where
  "percentByte c = [CHR ''%'', hexUpper (of_char c div 16), hexUpper (of_char c mod 16)]"

definition escapeWith :: "(char \<Rightarrow> bool) \<Rightarrow> string \<Rightarrow> string" where
  "escapeWith keep s = concat (map (\<lambda>c. if keep c then [c] else percentByte c) s)"

fun pathUnescape :: "string \<Rightarrow> string option" where
  "pathUnescape [] = Some []"
| "pathUnescape (c # r) =
     (if c = CHR ''%'' then
        (case r of
           a # b # t \<Rightarrow>
             (case hexVal a of
                None \<Rightarrow> None
              | Some x \<Rightarrow>
                  (case hexVal b of
                     None \<Rightarrow> None
                   | Some y \<Rightarrow> map_option (Cons (char_of (16 * x + y))) (pathUnescape t)))
         | _ \<Rightarrow> None)
      else map_option (Cons c) (pathUnescape r))"

text \<open>
  \<open>url.PathEscape\<close> keeps the unreserved characters of RFC 3986 and, in a path segment, the
  reserved characters \<open>$ & + = : @\<close>.
\<close>

definition keepPathSegment :: "char \<Rightarrow> bool" where
  "keepPathSegment c \<longleftrightarrow> isDigit c \<or> isLowerAZ c \<or> isUpperAZ c \<or> c \<in> set ''-_.~$&+=:@''"

definition pathEscape :: "string \<Rightarrow> string" where
  "pathEscape s = escapeWith keepPathSegment s"

lemma hexVal_hexUpper: "n < 16 \<Longrightarrow> hexVal (hexUpper n) = Some n"
proof -
  have "\<forall>n \<in> set [0..<16]. hexVal (hexUpper n) = Some n"
    by code_simp
  then show "n < 16 \<Longrightarrow> hexVal (hexUpper n) = Some n" by simp
qed

lemma pathUnescape_percent:
  "pathUnescape (percentByte c @ t) = map_option (Cons c) (pathUnescape t)"
proof -
  have "(of_char c :: nat) div 16 < 16" "(of_char c :: nat) mod 16 < 16"
    using nat_of_char_less_256[of c] by linarith+
  then show ?thesis
    by (simp add: percentByte_def hexVal_hexUpper)
qed

lemma escapeWith_simps [simp]:
  "escapeWith keep [] = []"
  "escapeWith keep (c # s) = (if keep c then [c] else percentByte c) @ escapeWith keep s"
  by (simp_all add: escapeWith_def)

lemma pathUnescape_escapeWith:
  "\<not> keep CHR ''%'' \<Longrightarrow> pathUnescape (escapeWith keep s) = Some s"
proof (induction s)
  case Nil
  show ?case by simp
next
  case (Cons c s)
  show ?case
  proof (cases "keep c")
    case True
    with Cons have "c \<noteq> CHR ''%''" by auto
    with True Cons show ?thesis by simp
  next
    case False
    with Cons show ?thesis by (simp add: pathUnescape_percent)
  qed
qed

lemma escapeWith_id: "list_all keep s \<Longrightarrow> escapeWith keep s = s"
  by (induction s) auto

lemma pathUnescape_pathEscape [simp]: "pathUnescape (pathEscape s) = Some s"
  unfolding pathEscape_def by (rule pathUnescape_escapeWith) (simp add: keepPathSegment_def isDigit_def isLowerAZ_def isUpperAZ_def)

lemma hexUpper_kept: "n < 16 \<Longrightarrow> keepPathSegment (hexUpper n)"
proof -
  have "\<forall>n \<in> set [0..<16]. keepPathSegment (hexUpper n)"
    by code_simp
  then show "n < 16 \<Longrightarrow> keepPathSegment (hexUpper n)" by simp
qed

lemma pathEscape_chars: "c \<in> set (pathEscape s) \<Longrightarrow> keepPathSegment c \<or> c = CHR ''%''"
proof (induction s)
  case (Cons d s)
  have "(of_char d :: nat) div 16 < 16" "(of_char d :: nat) mod 16 < 16"
    using nat_of_char_less_256 [of d] by linarith+
  then show ?case
    using Cons by (auto simp: pathEscape_def percentByte_def hexUpper_kept split: if_splits)
qed (simp add: pathEscape_def)

text \<open>No separator and no line end is in an escaped segment.\<close>

lemma pathEscape_plain:
  "CHR ''/'' \<notin> set (pathEscape s)" "CHR 0x0A \<notin> set (pathEscape s)" "CHR 0x0D \<notin> set (pathEscape s)"
proof -
  have "\<not> keepPathSegment CHR ''/''" "\<not> keepPathSegment CHR 0x0A" "\<not> keepPathSegment CHR 0x0D"
    by code_simp+
  then show "CHR ''/'' \<notin> set (pathEscape s)" "CHR 0x0A \<notin> set (pathEscape s)" "CHR 0x0D \<notin> set (pathEscape s)"
    using pathEscape_chars by fastforce+
qed

lemma pathEscape_id: "list_all keepPathSegment s \<Longrightarrow> pathEscape s = s"
  by (simp add: pathEscape_def escapeWith_id)

lemma length_escapeWith_le: "length (escapeWith keep s) \<le> 3 * length s"
  by (induction s) (auto simp: percentByte_def)

subsection \<open>\<open>base64.RawURLEncoding\<close>\<close>

definition b64Alphabet :: string where
  "b64Alphabet = ''ABCDEFGHIJKLMNOPQRSTUVWXYZabcdefghijklmnopqrstuvwxyz0123456789-_''"

definition b64Char :: "nat \<Rightarrow> char" where
  "b64Char n = b64Alphabet ! n"

fun b64url :: "nat list \<Rightarrow> string" where
  "b64url [] = []"
| "b64url [a] = [b64Char (a div 4), b64Char ((a mod 4) * 16)]"
| "b64url [a, b] =
     [b64Char (a div 4), b64Char ((a mod 4) * 16 + b div 16), b64Char ((b mod 16) * 4)]"
| "b64url (a # b # c # r) =
     [b64Char (a div 4), b64Char ((a mod 4) * 16 + b div 16),
      b64Char ((b mod 16) * 4 + c div 64), b64Char (c mod 64)] @ b64url r"

lemma b64Char_printable: "n < 64 \<Longrightarrow> 32 < (of_char (b64Char n) :: nat) \<and> (of_char (b64Char n) :: nat) < 127"
proof -
  have "list_all (\<lambda>c. 32 < (of_char c :: nat) \<and> (of_char c :: nat) < 127) b64Alphabet"
    by (simp add: b64Alphabet_def)
  moreover have "length b64Alphabet = 64" by (simp add: b64Alphabet_def)
  ultimately show "n < 64 \<Longrightarrow> ?thesis" by (simp add: b64Char_def list_all_length)
qed

lemma b64Char_inj: "m < 64 \<Longrightarrow> n < 64 \<Longrightarrow> b64Char m = b64Char n \<longleftrightarrow> m = n"
proof -
  have "distinct b64Alphabet \<and> length b64Alphabet = 64" by code_simp
  then show "m < 64 \<Longrightarrow> n < 64 \<Longrightarrow> ?thesis"
    by (simp add: b64Char_def nth_eq_iff_index_eq)
qed

lemma b64url_printable:
  "list_all (\<lambda>b. b < 256) l \<Longrightarrow> c \<in> set (b64url l) \<Longrightarrow>
     32 < (of_char c :: nat) \<and> (of_char c :: nat) < 127"
proof (induction l rule: b64url.induct)
  case (2 a)
  then show ?case using b64Char_printable[of "a div 4"] b64Char_printable[of "(a mod 4) * 16"]
    by auto
next
  case (3 a b)
  have "(a mod 4) * 16 + b div 16 < 64" using 3 by simp linarith
  with 3 b64Char_printable[of "a div 4"] b64Char_printable[of "(a mod 4) * 16 + b div 16"]
    b64Char_printable[of "(b mod 16) * 4"]
  show ?case by auto
next
  case (4 a b c r)
  have "a div 4 < 64" "(a mod 4) * 16 + b div 16 < 64" "(b mod 16) * 4 + c div 64 < 64"
    using 4 by simp_all linarith+
  with 4 b64Char_printable[of "a div 4"] b64Char_printable[of "(a mod 4) * 16 + b div 16"]
    b64Char_printable[of "(b mod 16) * 4 + c div 64"] b64Char_printable[of "c mod 64"]
  show ?case by auto
qed simp

lemma b64url_length_mult3: "length l = 3 * k \<Longrightarrow> length (b64url l) = 4 * k"
proof (induction k arbitrary: l)
  case (Suc k)
  then have "length l = Suc (Suc (Suc (3 * k)))" by simp
  then obtain a b c r where "l = a # b # c # r" "length r = 3 * k"
    by (auto simp: length_Suc_conv)
  with Suc show ?case by simp
qed simp

end
