(* ===== verification/Netip.thy ===== *)
theory Netip
  imports Iolink_Prelude
begin

unbundle bit_operations_syntax

text \<open>
  The part of Go's \<open>net/netip\<close> the program uses: addresses (the invalid zero \<open>Addr\<close>, IPv4 as a
  32-bit word, IPv6 as a 128-bit word with a zone), address/port pairs, prefixes and their
  classification predicates. An address is compared with \<open>==\<close> in the code, zone included.
\<close>

datatype addr = NoAddr | V4 "32 word" | V6 "128 word" string

datatype addrport = AddrPort (ap_addr: addr) (ap_port: "16 word")

definition addr_valid :: "addr \<Rightarrow> bool" where
  "addr_valid a \<longleftrightarrow> a \<noteq> NoAddr"

definition is4In6 :: "addr \<Rightarrow> bool" where
  "is4In6 a = (case a of V6 x _ \<Rightarrow> drop_bit 32 x = 65535 | _ \<Rightarrow> False)"

definition unmap :: "addr \<Rightarrow> addr" where
  "unmap a = (case a of V6 x _ \<Rightarrow> if is4In6 a then V4 (ucast x) else a | _ \<Rightarrow> a)"

definition isUnspecified :: "addr \<Rightarrow> bool" where
  "isUnspecified a \<longleftrightarrow> a = V4 0 \<or> a = V6 0 []"

definition isLoopback :: "addr \<Rightarrow> bool" where
  "isLoopback a = (case unmap a of
     NoAddr \<Rightarrow> False
   | V4 x \<Rightarrow> drop_bit 24 x = 127
   | V6 x _ \<Rightarrow> x = 1)"

definition isMulticast :: "addr \<Rightarrow> bool" where
  "isMulticast a = (case unmap a of
     NoAddr \<Rightarrow> False
   | V4 x \<Rightarrow> drop_bit 28 x = 14
   | V6 x _ \<Rightarrow> drop_bit 120 x = 255)"

definition isLinkLocalUnicast :: "addr \<Rightarrow> bool" where
  "isLinkLocalUnicast a = (case unmap a of
     NoAddr \<Rightarrow> False
   | V4 x \<Rightarrow> drop_bit 16 x = 43518
   | V6 x _ \<Rightarrow> drop_bit 112 x AND 65472 = 65152)"

definition isLinkLocalMulticast :: "addr \<Rightarrow> bool" where
  "isLinkLocalMulticast a = (case unmap a of
     NoAddr \<Rightarrow> False
   | V4 x \<Rightarrow> drop_bit 8 x = 14680064
   | V6 x _ \<Rightarrow> drop_bit 112 x AND 65295 = 65282)"

text \<open>A \<open>netip.Prefix\<close>: its address (never with a zone) and its length; \<open>NoPrefix\<close> is invalid.\<close>

datatype prefix = NoPrefix | P4 "32 word" nat | P6 "128 word" nat

definition prefix_valid :: "prefix \<Rightarrow> bool" where
  "prefix_valid p = (case p of NoPrefix \<Rightarrow> False | P4 _ n \<Rightarrow> n \<le> 32 | P6 _ n \<Rightarrow> n \<le> 128)"

definition prefix_contains :: "prefix \<Rightarrow> addr \<Rightarrow> bool" where
  "prefix_contains p a =
     (prefix_valid p \<and>
      (case p of
         NoPrefix \<Rightarrow> False
       | P4 x n \<Rightarrow> (case a of V4 y \<Rightarrow> drop_bit (32 - n) (x XOR y) = 0 | _ \<Rightarrow> False)
       | P6 x n \<Rightarrow> (case a of V6 y z \<Rightarrow> z = [] \<and> drop_bit (128 - n) (x XOR y) = 0 | _ \<Rightarrow> False)))"

definition prefix_masked :: "prefix \<Rightarrow> prefix" where
  "prefix_masked p =
     (case p of
        NoPrefix \<Rightarrow> NoPrefix
      | P4 x n \<Rightarrow> if n \<le> 32 then P4 (push_bit (32 - n) (drop_bit (32 - n) x)) n else NoPrefix
      | P6 x n \<Rightarrow> if n \<le> 128 then P6 (push_bit (128 - n) (drop_bit (128 - n) x)) n else NoPrefix)"

text \<open>\<open>Addr.Compare\<close>: by bit length, then by value, then (IPv6) by zone; as a strict order.\<close>

fun bitLen :: "addr \<Rightarrow> nat" where
  "bitLen NoAddr = 0"
| "bitLen (V4 _) = 32"
| "bitLen (V6 _ _) = 128"

fun zone_less :: "string \<Rightarrow> string \<Rightarrow> bool" where
  "zone_less [] [] = False"
| "zone_less [] (_ # _) = True"
| "zone_less (_ # _) [] = False"
| "zone_less (a # x) (b # y) =
     ((of_char a :: nat) < of_char b \<or> a = b \<and> zone_less x y)"

definition addr_less :: "addr \<Rightarrow> addr \<Rightarrow> bool" where
  "addr_less a b =
     (if bitLen a \<noteq> bitLen b then bitLen a < bitLen b
      else (case (a, b) of
              (V4 x, V4 y) \<Rightarrow> x < y
            | (V6 x z, V6 y w) \<Rightarrow> x < y \<or> x = y \<and> zone_less z w
            | _ \<Rightarrow> False))"

subsection \<open>Facts\<close>

lemma xor_zero_iff: "x XOR y = 0 \<longleftrightarrow> x = (y :: 'a::len word)"
  by (metis xor.assoc xor.left_neutral xor.right_neutral xor_self_eq)

lemma drop_bit_xor_zero_iff:
  "drop_bit n (x XOR y) = 0 \<longleftrightarrow> drop_bit n x = drop_bit n (y :: 'a::len word)"
  by (simp add: xor_zero_iff)

lemma drop_push_drop: "drop_bit n (push_bit n (drop_bit n x)) = drop_bit n (x :: 'a::len word)"
  by (rule bit_word_eqI) (auto simp: bit_simps not_le dest: bit_imp_le_length)

text \<open>Masking a prefix does not change what it contains.\<close>

lemma prefix_contains_masked: "prefix_contains (prefix_masked p) a = prefix_contains p a"
  by (cases p; cases a)
     (auto simp: prefix_contains_def prefix_masked_def prefix_valid_def drop_bit_xor_zero_iff
        drop_push_drop)

lemma unmap_not_4In6: "\<not> is4In6 (unmap a)"
  by (cases a) (auto simp: unmap_def is4In6_def)

lemma unmap_idem [simp]: "unmap (unmap a) = unmap a"
  by (cases a) (auto simp: unmap_def is4In6_def)

lemma zone_less_total: "zone_less z w \<or> z = w \<or> zone_less w z"
proof (induction z w rule: zone_less.induct)
  case (4 a x b y)
  then show ?case by (auto simp: not_less_iff_gr_or_eq)
qed auto

lemma addr_less_total: "addr_less a b \<or> a = b \<or> addr_less b a"
  using zone_less_total by (cases a; cases b) (auto simp: addr_less_def)

lemma zone_less_trans: "zone_less x y \<Longrightarrow> zone_less y z \<Longrightarrow> zone_less x z"
proof (induction x y arbitrary: z rule: zone_less.induct)
  case (2 b y)
  then show ?case by (cases z) auto
next
  case (4 a x b y)
  then show ?case by (cases z) auto
qed auto

lemma addr_less_trans: "addr_less a b \<Longrightarrow> addr_less b c \<Longrightarrow> addr_less a c"
  by (cases a; cases b; cases c)
     (auto simp: addr_less_def split: if_splits dest: zone_less_trans)

lemma zone_less_irrefl [simp]: "\<not> zone_less z z"
  by (induction z) auto

lemma addr_less_irrefl [simp]: "\<not> addr_less a a"
  by (cases a) (auto simp: addr_less_def)

text \<open>\<open>Addr.Compare\<close> is a linear order, so that the library's sorting applies.\<close>

instantiation addr :: linorder
begin

definition less_addr :: "addr \<Rightarrow> addr \<Rightarrow> bool" where
  "less_addr a b = addr_less a b"

definition less_eq_addr :: "addr \<Rightarrow> addr \<Rightarrow> bool" where
  "less_eq_addr a b = (addr_less a b \<or> a = b)"

instance
proof
  fix a b c :: addr
  show "(a < b) = (a \<le> b \<and> \<not> b \<le> a)"
    using addr_less_trans[of a b a] by (auto simp: less_addr_def less_eq_addr_def)
  show "a \<le> a" by (simp add: less_eq_addr_def)
  show "a \<le> b \<Longrightarrow> b \<le> c \<Longrightarrow> a \<le> c"
    using addr_less_trans[of a b c] by (auto simp: less_eq_addr_def)
  show "a \<le> b \<Longrightarrow> b \<le> a \<Longrightarrow> a = b"
    using addr_less_trans[of a b a] by (auto simp: less_eq_addr_def)
  show "a \<le> b \<or> b \<le> a" using addr_less_total[of a b] by (auto simp: less_eq_addr_def)
qed

end

end
