(* ===== verification/GB_Contracts.thy ===== *)
theory GB_Contracts
  imports Go_Strings Netip
begin

text \<open>
  \<open>internal/gb/contracts.go\<close>: the GB28181 data types (peers, devices, registrations, nonces,
  digests, register requests), the constants, the validators and the two store interfaces,
  \<open>DeviceStore\<close> and \<open>NonceStore\<close>, as records of operations over a store state. The contracts
  the service relies on are the locales \<open>device_store\<close> and \<open>nonce_store\<close>.
\<close>

subsection \<open>Errors and constants\<close>

datatype gb_error =
    GbInvalidRequest | GbUnknownDevice | GbPeerNotAllowed | GbPeerConflict | GbPeerNotFound
  | GbDigestRequired | GbDigestInvalid | GbNonceInvalid | GbNonceReplay
  | GbRegistrationConflict | GbXMLInvalid | GbXMLTooLarge | GbXMLDepth
  | GbOther string \<comment> \<open>an error of another package (a store or context error)\<close>

definition MaxSIPMessageSize :: nat where "MaxSIPMessageSize = 64 * 1024"
definition MaxXMLSize :: nat where "MaxXMLSize = 64 * 1024"
definition MaxXMLDepth :: int where "MaxXMLDepth = 16"
definition MaxCatalogItems :: nat where "MaxCatalogItems = 1000"
definition KeepalivePeriod :: duration where "KeepalivePeriod = 60 * second"
definition KeepaliveMissLimit :: int where "KeepaliveMissLimit = 3"
definition MinRegistrationTTL :: duration where "MinRegistrationTTL = 60 * second"
definition MaxRegistrationTTL :: duration where "MaxRegistrationTTL = hour"

subsection \<open>Peers and devices\<close>

type_synonym transport = string

definition TransportUDP :: transport where "TransportUDP = ''udp''"
definition TransportTCP :: transport where "TransportTCP = ''tcp''"

definition transport_valid :: "transport \<Rightarrow> bool" where
  "transport_valid p \<longleftrightarrow> p = TransportUDP \<or> p = TransportTCP"

record PeerIdentity =
  pi_Addr :: addrport
  pi_Transport :: transport

definition peer_valid :: "PeerIdentity \<Rightarrow> bool" where
  "peer_valid p \<longleftrightarrow> addr_valid (ap_addr (pi_Addr p)) \<and> ap_port (pi_Addr p) \<noteq> 0 \<and>
     \<not> isUnspecified (ap_addr (pi_Addr p)) \<and> transport_valid (pi_Transport p)"

definition NewPeerIdentity :: "addrport \<Rightarrow> transport \<Rightarrow> (gb_error, PeerIdentity) result" where
  "NewPeerIdentity addr tr =
     (let identity = \<lparr>pi_Addr = addr, pi_Transport = tr\<rparr>
      in if \<not> peer_valid identity then Inl GbInvalidRequest else Inr identity)"

record RegisteredDevice =
  rd_DeviceID :: string
  rd_Realm :: string
  rd_Password :: string
  rd_AllowedPeers :: "prefix list"

definition AllowsPeer :: "RegisteredDevice \<Rightarrow> addr \<Rightarrow> bool" where
  "AllowsPeer d peer =
     (if \<not> addr_valid peer \<or> rd_AllowedPeers d = [] then False
      else list_ex (\<lambda>p. prefix_contains p peer) (rd_AllowedPeers d))"

datatype RegistrationStatus = RegistrationOnline | RegistrationOffline | OtherStatus string

record Registration =
  rg_DeviceID :: string
  rg_Peer :: PeerIdentity
  rg_RegisteredAt :: time
  rg_LastSeenAt :: time
  rg_ExpiresAt :: time
  rg_Status :: RegistrationStatus

definition StatusAt :: "Registration \<Rightarrow> time \<Rightarrow> RegistrationStatus" where
  "StatusAt r now =
     (if rg_Status r \<noteq> RegistrationOnline \<or> is_zero now \<or> is_zero (rg_ExpiresAt r) \<or>
         \<not> now < rg_ExpiresAt r \<or> is_zero (rg_LastSeenAt r) \<or>
         time_sub now (rg_LastSeenAt r) \<ge> KeepaliveMissLimit * KeepalivePeriod
      then RegistrationOffline else RegistrationOnline)"

subsection \<open>Validators\<close>

definition gb_validDeviceID :: "string \<Rightarrow> bool" where
  "gb_validDeviceID s \<longleftrightarrow> length s = 20 \<and> range_all isDigitByte s"

definition printable_byte :: "nat \<Rightarrow> bool" where
  "printable_byte b \<longleftrightarrow> \<not> (b < 32 \<or> b = 127)"

definition gb_validText :: "string \<Rightarrow> nat \<Rightarrow> bool" where
  "gb_validText s m \<longleftrightarrow> \<not> (s = [] \<or> length s > m) \<and> range_all printable_byte s"

lemma gb_validDeviceID_iff [iolink_simps]:
  "gb_validDeviceID s \<longleftrightarrow> length s = 20 \<and> list_all isDigit s"
  by (simp add: gb_validDeviceID_def range_all_digits)

lemma gb_validText_iff [iolink_simps]:
  "gb_validText s m \<longleftrightarrow> s \<noteq> [] \<and> length s \<le> m \<and> list_all (\<lambda>c. printable_byte (of_char c)) s"
proof -
  have "range_all printable_byte s = list_all (\<lambda>c. printable_byte (of_char c)) s"
    by (rule range_all_bytes) (auto simp: printable_byte_def)
  then show ?thesis by (auto simp: gb_validText_def)
qed

definition registrationTTL :: "int \<Rightarrow> (gb_error, duration) result" where
  "registrationTTL seconds =
     (if seconds = 0 then Inr 0
      else if seconds < 0 \<or> seconds > MaxRegistrationTTL div second then Inl GbInvalidRequest
      else (let ttl = seconds * second in
            if ttl < MinRegistrationTTL \<or> ttl > MaxRegistrationTTL then Inl GbInvalidRequest
            else Inr ttl))"

subsection \<open>Nonces, digests and register requests\<close>

record NonceRecord =
  nr_DeviceID :: string
  nr_Realm :: string
  nr_Peer :: PeerIdentity
  nr_URI :: string
  nr_ExpiresAt :: time

record DigestAuthorization =
  da_Username :: string
  da_Realm :: string
  da_Nonce :: string
  da_URI :: string
  da_Response :: string
  da_Algorithm :: string
  da_QOP :: string
  da_CNonce :: string
  da_NC :: string

record RegisterRequest =
  rq_DeviceID :: string
  rq_Username :: string
  rq_Realm :: string
  rq_Method :: string
  rq_URI :: string
  rq_Source :: PeerIdentity
  rq_Expires :: int
  rq_Authorization :: "DigestAuthorization option"
  rq_TransactionID :: string

record DigestChallenge =
  dc_Realm :: string
  dc_Nonce :: string
  dc_Algorithm :: string

record RegisterResult =
  rr_StatusCode :: int
  rr_Challenge :: "DigestChallenge option"
  rr_Registration :: "Registration option" \<comment> \<open>\<open>None\<close>: the zero \<open>Registration\<close>\<close>

subsection \<open>The store interfaces\<close>

text \<open>
  \<open>NonceStore\<close>: the operations take the store's state and return the new one; \<open>Issue\<close> also
  takes what it reads from the random source (\<open>None\<close> when reading fails).
\<close>

record 'n nonce_ops =
  ns_Issue :: "'n \<Rightarrow> string option \<Rightarrow> NonceRecord \<Rightarrow> (gb_error, string) result \<times> 'n"
  ns_Consume :: "'n \<Rightarrow> string \<Rightarrow> time \<Rightarrow> (gb_error, NonceRecord) result \<times> 'n"

record 'd device_ops =
  ds_LookupDevice :: "'d \<Rightarrow> string \<Rightarrow> (gb_error, RegisteredDevice) result"
  ds_LookupPeer :: "'d \<Rightarrow> PeerIdentity \<Rightarrow> (gb_error, Registration) result"
  ds_ApplyRegistration :: "'d \<Rightarrow> Registration \<Rightarrow> gb_error option \<times> 'd"
  ds_MarkKeepalive ::
    "'d \<Rightarrow> string \<Rightarrow> PeerIdentity \<Rightarrow> time \<Rightarrow> string \<Rightarrow> gb_error option \<times> 'd"

text \<open>
  Runs of a nonce store: any sequence of calls, with what each returned. A nonce is counted as
  issued or accepted every time a call returned it without error.
\<close>

datatype nonce_op = OpIssue "string option" NonceRecord | OpConsume string time

datatype nonce_event =
    Issued "(gb_error, string) result"
  | Consumed string "(gb_error, NonceRecord) result"

fun nonce_step :: "'n nonce_ops \<Rightarrow> 'n \<Rightarrow> nonce_op \<Rightarrow> nonce_event \<times> 'n" where
  "nonce_step ops s (OpIssue r rec) = map_prod Issued id (ns_Issue ops s r rec)"
| "nonce_step ops s (OpConsume n t) = map_prod (Consumed n) id (ns_Consume ops s n t)"

fun nonce_run :: "'n nonce_ops \<Rightarrow> 'n \<Rightarrow> nonce_op list \<Rightarrow> nonce_event list \<times> 'n" where
  "nonce_run ops s [] = ([], s)"
| "nonce_run ops s (x # xs) =
     (let (e, s') = nonce_step ops s x; (es, s'') = nonce_run ops s' xs in (e # es, s''))"

lemma nonce_run_Cons:
  "fst (nonce_run ops s (x # xs)) =
     fst (nonce_step ops s x) # fst (nonce_run ops (snd (nonce_step ops s x)) xs)"
  "snd (nonce_run ops s (x # xs)) = snd (nonce_run ops (snd (nonce_step ops s x)) xs)"
  by (simp_all add: Let_def split: prod.split)

declare nonce_run.simps(2) [simp del]

definition issued_count :: "string \<Rightarrow> nonce_event list \<Rightarrow> nat" where
  "issued_count n es = length (filter (\<lambda>e. e = Issued (Inr n)) es)"

fun accepts :: "string \<Rightarrow> nonce_event \<Rightarrow> bool" where
  "accepts n (Consumed m (Inr _)) = (m = n)"
| "accepts n _ = False"

definition accepted_count :: "string \<Rightarrow> nonce_event list \<Rightarrow> nat" where
  "accepted_count n es = length (filter (accepts n) es)"

fun op_rnd_ok :: "(string option \<Rightarrow> bool) \<Rightarrow> nonce_op \<Rightarrow> bool" where
  "op_rnd_ok P (OpIssue r _) = P r"
| "op_rnd_ok P (OpConsume _ _) = True"

text \<open>
  What the registration service relies on: \<open>live\<close> are the nonces that can still be consumed,
  \<open>rnd_ok\<close> what the random source can give. An issued nonce is live with its record; a nonce
  that is accepted was live and unexpired and is live no more; no operation makes any other
  nonce live.
\<close>

locale nonce_store =
  fixes ops :: "'n nonce_ops"
    and live :: "'n \<Rightarrow> string \<Rightarrow> NonceRecord option"
    and inv :: "'n \<Rightarrow> bool"
    and rnd_ok :: "string option \<Rightarrow> bool"
  assumes issue_inv: "inv s \<Longrightarrow> rnd_ok r \<Longrightarrow> inv (snd (ns_Issue ops s r rec))"
    and consume_inv: "inv s \<Longrightarrow> inv (snd (ns_Consume ops s n t))"
    and issue_live: "inv s \<Longrightarrow> ns_Issue ops s r rec = (Inr n, s') \<Longrightarrow> live s' n = Some rec"
    and issue_frame: "inv s \<Longrightarrow> ns_Issue ops s r rec = (ires, s') \<Longrightarrow> live s' m = Some x \<Longrightarrow>
      ires = Inr m \<and> x = rec \<or> live s m = Some x"
    and consume_live: "inv s \<Longrightarrow> ns_Consume ops s n t = (Inr rec, s') \<Longrightarrow>
      live s n = Some rec \<and> t < nr_ExpiresAt rec"
    and consume_spends: "inv s \<Longrightarrow> ns_Consume ops s n t = (Inr rec, s') \<Longrightarrow> live s' n = None"
    and consume_frame: "inv s \<Longrightarrow> ns_Consume ops s n t = (res, s') \<Longrightarrow> live s' m = Some x \<Longrightarrow>
      live s m = Some x"
begin

text \<open>A nonce that is not live is accepted by no operation, and only \<open>Issue\<close> revives it.\<close>

lemma consume_dead: "inv s \<Longrightarrow> live s n = None \<Longrightarrow> fst (ns_Consume ops s n t) \<noteq> Inr rec"
  using consume_live[of s n t rec] by (metis option.distinct(1) prod.collapse)

lemma dead_stays_dead_consume:
  "inv s \<Longrightarrow> live s m = None \<Longrightarrow> live (snd (ns_Consume ops s n t)) m = None"
  using consume_frame[of s n t] by (metis not_None_eq prod.collapse)

lemma dead_stays_dead_issue:
  "inv s \<Longrightarrow> live s m = None \<Longrightarrow> fst (ns_Issue ops s r rec) \<noteq> Inr m \<Longrightarrow>
     live (snd (ns_Issue ops s r rec)) m = None"
  using issue_frame[of s r rec] by (metis not_None_eq prod.collapse)

lemma consume_once:
  assumes "inv s" and "ns_Consume ops s n t = (Inr rec, s')"
  shows "fst (ns_Consume ops s' n t') \<noteq> Inr rec'"
proof (rule consume_dead)
  show "inv s'" using consume_inv[OF assms(1), of n t] assms(2) by simp
  show "live s' n = None" using assms by (rule consume_spends)
qed

lemma nonce_step_inv: "inv s \<Longrightarrow> op_rnd_ok rnd_ok x \<Longrightarrow> inv (snd (nonce_step ops s x))"
  by (cases x) (auto intro: issue_inv consume_inv)

lemma nonce_run_inv:
  "inv s \<Longrightarrow> list_all (op_rnd_ok rnd_ok) xs \<Longrightarrow> inv (snd (nonce_run ops s xs))"
  by (induction xs arbitrary: s) (auto simp: nonce_run_Cons nonce_step_inv)

text \<open>One step pays for an acceptance with an issue or with the nonce being live.\<close>

lemma nonce_step_budget:
  assumes "inv s" and "nonce_step ops s x = (e, s')"
  shows "(if accepts n e then 1 else 0) + (if live s' n \<noteq> None then 1 else 0)
    \<le> (if e = Issued (Inr n) then 1 else 0) + (if live s n \<noteq> None then 1 else (0::nat))"
proof (cases x)
  case (OpIssue r rec)
  with assms(2) obtain ires where i: "ns_Issue ops s r rec = (ires, s')" "e = Issued ires"
    by (auto simp: map_prod_def split: prod.splits)
  with issue_frame[OF assms(1) i(1), of n] show ?thesis
    by (cases "live s' n") auto
next
  case (OpConsume m t)
  with assms(2) obtain res where c: "ns_Consume ops s m t = (res, s')" "e = Consumed m res"
    by (auto simp: map_prod_def split: prod.splits)
  show ?thesis
  proof (cases "\<exists>rec. res = Inr rec \<and> m = n")
    case True
    with c consume_live[OF assms(1)] consume_spends[OF assms(1)] show ?thesis by auto
  next
    case False
    with c consume_frame[OF assms(1) c(1), of n] show ?thesis
      by (cases res; cases "live s' n") auto
  qed
qed

lemma accepted_le_issued:
  "inv s \<Longrightarrow> list_all (op_rnd_ok rnd_ok) xs \<Longrightarrow>
   accepted_count n (fst (nonce_run ops s xs))
     \<le> issued_count n (fst (nonce_run ops s xs)) + (if live s n \<noteq> None then 1 else 0)"
proof (induction xs arbitrary: s)
  case Nil
  show ?case by (simp add: accepted_count_def)
next
  case (Cons x xs)
  obtain e s' where e: "nonce_step ops s x = (e, s')" by fastforce
  have "inv s'" using nonce_step_inv[OF Cons.prems(1), of x] Cons.prems(2) e by simp
  with Cons nonce_step_budget[OF Cons.prems(1) e, of n] e show ?case
    by (fastforce simp: accepted_count_def issued_count_def nonce_run_Cons split: if_splits)
qed

end

text \<open>
  What the service relies on of a device store: \<open>inv\<close> is the store's invariant, \<open>shown s r\<close> that
  the store reports a registration at all (its own clock has not passed the expiry), and
  \<open>kept\<close> what remains of a registration in the store (instants are stored with less precision).
  A failed \<open>ApplyRegistration\<close> changes nothing; a successful one is what \<open>LookupPeer\<close> then finds at
  the registered peer; \<open>LookupPeer\<close> answers for the peer it was asked about.
\<close>

locale device_store =
  fixes ops :: "'d device_ops"
    and inv :: "'d \<Rightarrow> bool"
    and shown :: "'d \<Rightarrow> Registration \<Rightarrow> bool"
    and kept :: "Registration \<Rightarrow> Registration"
  assumes apply_inv: "inv s \<Longrightarrow> inv (snd (ds_ApplyRegistration ops s r))"
    and mark_inv: "inv s \<Longrightarrow> inv (snd (ds_MarkKeepalive ops s i p t st))"
    and apply_error: "ds_ApplyRegistration ops s r = (Some e, s') \<Longrightarrow> s' = s"
    and mark_error: "ds_MarkKeepalive ops s i p t st = (Some e, s') \<Longrightarrow> s' = s"
    and apply_found: "inv s \<Longrightarrow> ds_ApplyRegistration ops s r = (None, s') \<Longrightarrow>
      rg_Status r = RegistrationOnline \<Longrightarrow> shown s' r \<Longrightarrow> ds_LookupPeer ops s' (rg_Peer r) = Inr (kept r)"
    and apply_devices: "inv s \<Longrightarrow> ds_ApplyRegistration ops s r = (None, s') \<Longrightarrow>
      ds_LookupDevice ops s' i = ds_LookupDevice ops s i"
    and kept_same: "rg_DeviceID (kept r) = rg_DeviceID r" "rg_Peer (kept r) = rg_Peer r"
      "rg_Status (kept r) = rg_Status r"
    and peer_found: "inv s \<Longrightarrow> ds_LookupPeer ops s p = Inr found \<Longrightarrow> rg_Peer found = p"
begin

lemma found_after_apply:
  assumes "inv s" and "ds_ApplyRegistration ops s r = (None, s')"
    and "rg_Status r = RegistrationOnline" and "shown s' r"
  shows "\<exists>reg. ds_LookupPeer ops s' (rg_Peer r) = Inr reg \<and> rg_DeviceID reg = rg_DeviceID r \<and>
    rg_Peer reg = rg_Peer r"
  using apply_found[OF assms] by (simp add: kept_same)

lemma apply_step: "inv s \<Longrightarrow> ds_ApplyRegistration ops s r = (e, s') \<Longrightarrow> inv s'"
  using apply_inv[of s r] by simp

end

end
