(* ===== verification/GB_Nonce.thy ===== *)
theory GB_Nonce
  imports GB_Contracts
begin

text \<open>
  \<open>internal/gb/nonce.go\<close>: \<open>MemoryNonceStore\<close>, the bounded in-memory nonce store. Both maps are
  association lists with distinct keys; the receiver is not nil. The eviction loop of \<open>Issue\<close>
  is \<open>evict\<close>; the store is shown to satisfy the contract \<open>nonce_store\<close>, to stay within
  \<open>MaxMemoryNonces\<close>, and to accept every issued nonce at most once over any run.
\<close>

record nonce_mem =
  nm_entries :: "(string \<times> NonceRecord) list"
  nm_used :: "(string \<times> time) list"

definition MaxMemoryNonces :: nat where
  "MaxMemoryNonces = 4096"

definition NewMemoryNonceStore :: nonce_mem where
  "NewMemoryNonceStore = \<lparr>nm_entries = [], nm_used = []\<rparr>"

definition nm_size :: "nonce_mem \<Rightarrow> nat" where
  "nm_size s = length (nm_entries s) + length (nm_used s)"

text \<open>One round of the two loops that look for the entry with the earliest expiry.\<close>

fun pick_oldest :: "string \<times> time \<Rightarrow> (string \<times> time) list \<Rightarrow> string \<times> time" where
  "pick_oldest acc [] = acc"
| "pick_oldest acc ((value, expiry) # r) =
     pick_oldest (if fst acc = [] \<or> expiry < snd acc then (value, expiry) else acc) r"

definition oldest :: "nonce_mem \<Rightarrow> string" where
  "oldest s =
     fst (pick_oldest
            (pick_oldest ([], time_zero) (map (\<lambda>(v, r). (v, nr_ExpiresAt r)) (nm_entries s)))
            (nm_used s))"

definition nm_drop :: "string \<Rightarrow> nonce_mem \<Rightarrow> nonce_mem" where
  "nm_drop k s = s\<lparr>nm_entries := AList.delete k (nm_entries s),
                   nm_used := AList.delete k (nm_used s)\<rparr>"

lemma pick_oldest_mem:
  "fst (pick_oldest acc l) = fst acc \<or> fst (pick_oldest acc l) \<in> fst ` set l"
  by (induction acc l rule: pick_oldest.induct) (auto split: if_splits)

lemma oldest_mem:
  assumes "oldest s \<noteq> []"
  shows "oldest s \<in> keys (nm_entries s) \<union> keys (nm_used s)"
proof -
  let ?e = "map (\<lambda>(v, r). (v, nr_ExpiresAt r)) (nm_entries s)"
  let ?a = "pick_oldest ([], time_zero) ?e"
  have e: "fst ` set ?e = keys (nm_entries s)"
    by (force simp: keys_def)
  have 1: "fst ?a = [] \<or> fst ?a \<in> keys (nm_entries s)"
    using pick_oldest_mem[of "([], time_zero)" ?e] unfolding e by simp
  have 2: "oldest s = fst ?a \<or> oldest s \<in> keys (nm_used s)"
    using pick_oldest_mem[of ?a "nm_used s"] by (simp add: oldest_def keys_def)
  from 1 2 assms show ?thesis by auto
qed

lemma nm_size_drop:
  assumes "k \<in> keys (nm_entries s) \<union> keys (nm_used s)"
  shows "nm_size (nm_drop k s) < nm_size s"
proof -
  from assms consider "k \<in> keys (nm_entries s)" | "k \<in> keys (nm_used s)" by blast
  then show ?thesis
  proof cases
    case 1
    with AList.length_delete_le[of k "nm_used s"] show ?thesis
      by (auto simp: nm_size_def nm_drop_def dest: length_delete_less)
  next
    case 2
    with AList.length_delete_le[of k "nm_entries s"] show ?thesis
      by (auto simp: nm_size_def nm_drop_def dest: length_delete_less)
  qed
qed

text \<open>
  The \<open>for len(entries)+len(used) >= MaxMemoryNonces\<close> loop; \<open>False\<close> is its error return.
\<close>

function evict :: "nonce_mem \<Rightarrow> bool \<times> nonce_mem" where
  "evict s =
     (if nm_size s \<ge> MaxMemoryNonces then
        (if oldest s = [] then (False, s) else evict (nm_drop (oldest s) s))
      else (True, s))"
  by pat_completeness auto
termination
  by (relation "measure nm_size") (auto intro!: nm_size_drop dest: oldest_mem)

declare evict.simps [simp del]

definition nonce_of_bytes :: "string \<Rightarrow> string" where
  "nonce_of_bytes b = b64url (codes b)"

definition Issue :: "nonce_mem \<Rightarrow> string option \<Rightarrow> NonceRecord \<Rightarrow> (gb_error, string) result \<times> nonce_mem" where
  "Issue s rnd rec =
     (if \<not> peer_valid (nr_Peer rec) \<or> is_zero (nr_ExpiresAt rec) then (Inl GbNonceInvalid, s)
      else (case rnd of
              None \<Rightarrow> (Inl GbNonceInvalid, s)
            | Some b \<Rightarrow>
                (let nonce = nonce_of_bytes b in
                 case evict s of
                   (False, s') \<Rightarrow> (Inl GbNonceInvalid, s')
                 | (True, s') \<Rightarrow>
                     (Inr nonce, s'\<lparr>nm_entries := AList.update nonce rec (nm_entries s')\<rparr>))))"

definition purge :: "time \<Rightarrow> nonce_mem \<Rightarrow> nonce_mem" where
  "purge now s =
     s\<lparr>nm_entries := filter (\<lambda>(_, r). now < nr_ExpiresAt r) (nm_entries s),
       nm_used := filter (\<lambda>(_, expiry). now < expiry) (nm_used s)\<rparr>"

definition Consume :: "nonce_mem \<Rightarrow> string \<Rightarrow> time \<Rightarrow> (gb_error, NonceRecord) result \<times> nonce_mem" where
  "Consume s nonce now =
     (if nonce = [] \<or> is_zero now then (Inl GbNonceInvalid, s)
      else (let s = purge now s in
        if map_of (nm_used s) nonce \<noteq> None then (Inl GbNonceReplay, s)
        else (case map_of (nm_entries s) nonce of
                None \<Rightarrow> (Inl GbNonceInvalid, s)
              | Some rec \<Rightarrow>
                  (let s = s\<lparr>nm_entries := AList.delete nonce (nm_entries s),
                             nm_used := AList.update nonce (nr_ExpiresAt rec) (nm_used s)\<rparr>
                   in if \<not> now < nr_ExpiresAt rec then (Inl GbNonceInvalid, s)
                      else (Inr rec, s)))))"

subsection \<open>Invariant\<close>

text \<open>Distinct keys, no empty key, and never more than the bound.\<close>

definition nm_inv :: "nonce_mem \<Rightarrow> bool" where
  "nm_inv s \<longleftrightarrow> wf_map (nm_entries s) \<and> wf_map (nm_used s) \<and>
     [] \<notin> keys (nm_entries s) \<union> keys (nm_used s) \<and> nm_size s \<le> MaxMemoryNonces"

definition nm_live :: "nonce_mem \<Rightarrow> string \<Rightarrow> NonceRecord option" where
  "nm_live s n = map_of (nm_entries s) n"

definition nm_ops :: "nonce_mem nonce_ops" where
  "nm_ops = \<lparr>ns_Issue = Issue, ns_Consume = Consume\<rparr>"

lemma nm_inv_new: "nm_inv NewMemoryNonceStore"
  by (simp add: nm_inv_def NewMemoryNonceStore_def nm_size_def)

lemma pick_oldest_nonempty:
  "fst acc \<noteq> [] \<Longrightarrow> [] \<notin> fst ` set l \<Longrightarrow> fst (pick_oldest acc l) \<noteq> []"
  by (induction acc l rule: pick_oldest.induct) (auto split: if_splits)

lemma pick_oldest_found:
  "l \<noteq> [] \<Longrightarrow> [] \<notin> fst ` set l \<Longrightarrow> fst (pick_oldest acc l) \<noteq> []"
proof (cases l)
  case (Cons kv r)
  assume "[] \<notin> fst ` set l"
  with Cons have "fst kv \<noteq> []" "[] \<notin> fst ` set r" by auto
  with Cons pick_oldest_nonempty[of kv r] pick_oldest_nonempty[of acc r] show ?thesis
    by (cases kv) auto
qed simp

lemma oldest_found:
  assumes "[] \<notin> keys (nm_entries s) \<union> keys (nm_used s)" and "nm_size s > 0"
  shows "oldest s \<noteq> []"
proof -
  let ?e = "map (\<lambda>(v, r). (v, nr_ExpiresAt r)) (nm_entries s)"
  have e: "[] \<notin> fst ` set ?e"
    using assms(1) by (force simp: keys_def)
  have u: "[] \<notin> fst ` set (nm_used s)"
    using assms(1) by (simp add: keys_def)
  show ?thesis
  proof (cases "nm_used s = []")
    case True
    with assms(2) have "?e \<noteq> []" by (simp add: nm_size_def)
    with e True show ?thesis by (simp add: oldest_def pick_oldest_found)
  next
    case False
    with u show ?thesis by (simp add: oldest_def pick_oldest_found)
  qed
qed

text \<open>The eviction loop always makes room, and keeps a part of the two maps.\<close>

definition nm_sub :: "nonce_mem \<Rightarrow> nonce_mem \<Rightarrow> bool" where
  "nm_sub s' s \<longleftrightarrow> map_of (nm_entries s') \<subseteq>\<^sub>m map_of (nm_entries s) \<and>
     map_of (nm_used s') \<subseteq>\<^sub>m map_of (nm_used s)"

lemma nm_sub_refl [simp]: "nm_sub s s"
  by (simp add: nm_sub_def)

lemma nm_sub_trans: "nm_sub a b \<Longrightarrow> nm_sub b c \<Longrightarrow> nm_sub a c"
  by (auto simp: nm_sub_def intro: map_le_trans)

lemma nm_sub_drop: "nm_sub (nm_drop k s) s"
  by (simp add: nm_sub_def nm_drop_def map_le_def)

lemma nm_inv_drop [iolink_wf]: "nm_inv s \<Longrightarrow> nm_inv (nm_drop k s)"
  using AList.length_delete_le[of k "nm_entries s"] AList.length_delete_le[of k "nm_used s"]
  by (auto simp: nm_inv_def nm_drop_def nm_size_def)

lemma evict_spec:
  "nm_inv s \<Longrightarrow> \<exists>s'. evict s = (True, s') \<and> nm_inv s' \<and> nm_size s' < MaxMemoryNonces \<and> nm_sub s' s"
proof (induction s rule: evict.induct)
  case (1 s)
  show ?case
  proof (cases "nm_size s \<ge> MaxMemoryNonces")
    case False
    with 1 show ?thesis by (simp add: evict.simps)
  next
    case True
    then have "nm_size s > 0" by (simp add: MaxMemoryNonces_def)
    with 1 have o: "oldest s \<noteq> []" by (intro oldest_found) (auto simp: nm_inv_def)
    from 1(1)[OF True o nm_inv_drop[OF 1(2)]] True o show ?thesis
      by (auto simp: evict.simps[of s] intro: nm_sub_trans[OF _ nm_sub_drop])
  qed
qed

lemma nonce_of_bytes_nonempty: "b \<noteq> [] \<Longrightarrow> nonce_of_bytes b \<noteq> []"
  by (cases "codes b" rule: b64url.cases) (auto simp: nonce_of_bytes_def codes_def)

subsection \<open>The operations keep the invariant\<close>

text \<open>\<open>rand.Read\<close> fills all 24 bytes or fails.\<close>

definition rand_ok :: "string option \<Rightarrow> bool" where
  "rand_ok rnd \<longleftrightarrow> (case rnd of None \<Rightarrow> True | Some b \<Rightarrow> length b = 24)"

lemma Issue_inv [iolink_wf]:
  assumes "nm_inv s" and "rand_ok rnd"
  shows "nm_inv (snd (Issue s rnd rec))"
proof -
  obtain s' where s': "evict s = (True, s')" "nm_inv s'" "nm_size s' < MaxMemoryNonces"
    using evict_spec[OF assms(1)] by blast
  have add: "nm_inv (s'\<lparr>nm_entries := AList.update (nonce_of_bytes b) rec (nm_entries s')\<rparr>)"
    if "b \<noteq> []" for b
    using s'(2,3) that nonce_of_bytes_nonempty[OF that]
      length_update_le[of "nonce_of_bytes b" rec "nm_entries s'"]
    by (auto simp: nm_inv_def nm_size_def)
  have "b \<noteq> []" if "rnd = Some b" for b
    using assms(2) that by (auto simp: rand_ok_def)
  with assms(1) s'(1) add show ?thesis
    by (auto simp: Issue_def Let_def split: option.splits)
qed

lemma purge_inv [iolink_wf]: "nm_inv s \<Longrightarrow> nm_inv (purge now s)"
  by (auto simp: nm_inv_def purge_def nm_size_def dest!: subsetD[OF keys_filter_subset]
      intro: order_trans[OF add_mono[OF length_filter_le length_filter_le]])

lemma purge_entries:
  "nm_inv s \<Longrightarrow> map_of (nm_entries (purge now s)) n = Some r \<longleftrightarrow>
     map_of (nm_entries s) n = Some r \<and> now < nr_ExpiresAt r"
  by (simp add: nm_inv_def purge_def wf_map_of_filter)

lemma purge_used:
  "nm_inv s \<Longrightarrow> map_of (nm_used (purge now s)) n = Some e \<longleftrightarrow>
     map_of (nm_used s) n = Some e \<and> now < e"
  by (simp add: nm_inv_def purge_def wf_map_of_filter)

lemma move_inv [iolink_wf]:
  assumes "nm_inv s" and "map_of (nm_entries s) n = Some r"
  shows "nm_inv (s\<lparr>nm_entries := AList.delete n (nm_entries s),
                  nm_used := AList.update n e (nm_used s)\<rparr>)"
proof -
  have n: "n \<in> keys (nm_entries s)" using assms(2) by (rule map_of_Some_keys)
  with assms(1) have "n \<noteq> []" by (auto simp: nm_inv_def)
  with assms(1) length_delete_less[OF n] length_update_le[of n e "nm_used s"]
  show ?thesis by (auto simp: nm_inv_def nm_size_def)
qed

lemma Consume_inv [iolink_wf]: "nm_inv s \<Longrightarrow> nm_inv (snd (Consume s n now))"
  by (auto simp: Consume_def Let_def purge_inv split: option.splits intro!: move_inv)

text \<open>The outcome of \<open>Consume\<close> on an argument it does not refuse.\<close>

lemma Consume_ok_iff:
  assumes "nm_inv s" and "n \<noteq> []" and "\<not> is_zero now"
  shows "fst (Consume s n now) = Inr r \<longleftrightarrow>
    nm_live s n = Some r \<and> now < nr_ExpiresAt r \<and>
    (\<forall>e. map_of (nm_used s) n = Some e \<longrightarrow> \<not> now < e)"
proof (cases "map_of (nm_used (purge now s)) n")
  case None
  then have "\<forall>e. map_of (nm_used s) n = Some e \<longrightarrow> \<not> now < e"
    using purge_used[OF assms(1), of now n] by (metis option.distinct(1))
  with None assms(2,3) show ?thesis
    using purge_entries[OF assms(1), of now n]
    by (auto simp: Consume_def Let_def nm_live_def split: option.splits)
next
  case (Some e)
  with purge_used[OF assms(1), of now n e] assms(2,3) show ?thesis
    by (auto simp: Consume_def Let_def)
qed

lemma Consume_live:
  "nm_inv s \<Longrightarrow> Consume s n now = (res, s') \<Longrightarrow> nm_live s' m = Some x \<Longrightarrow>
     nm_live s m = Some x"
  by (auto simp: Consume_def Let_def nm_live_def purge_entries split: option.splits if_splits)

subsection \<open>The contract\<close>

lemma Issue_evict:
  assumes "nm_inv s" and "Issue s rnd rec = (Inr n, s')"
  shows "\<exists>s0 b. rnd = Some b \<and> n = nonce_of_bytes b \<and> nm_sub s0 s \<and> nm_inv s0 \<and>
     peer_valid (nr_Peer rec) \<and> \<not> is_zero (nr_ExpiresAt rec) \<and>
     s' = s0\<lparr>nm_entries := AList.update n rec (nm_entries s0)\<rparr>"
  using evict_spec[OF assms(1)] assms(2)
  by (auto simp: Issue_def Let_def split: if_splits option.splits)

lemma Issue_error:
  assumes "nm_inv s" and "Issue s rnd rec = (Inl e, s')"
  shows "s' = s \<and> e = GbNonceInvalid"
  using evict_spec[OF assms(1)] assms(2)
  by (auto simp: Issue_def Let_def split: if_splits option.splits)

lemma Issue_live: "nm_inv s \<Longrightarrow> Issue s rnd rec = (Inr n, s') \<Longrightarrow> nm_live s' n = Some rec"
  by (drule (1) Issue_evict) (auto simp: nm_live_def)

lemma Issue_frame:
  assumes "nm_inv s" and "Issue s rnd rec = (res, s')" and "nm_live s' m = Some x"
  shows "res = Inr m \<and> x = rec \<or> nm_live s m = Some x"
proof (cases res)
  case (Inl e)
  with assms Issue_error show ?thesis by blast
next
  case (Inr n)
  with Issue_evict[OF assms(1)] assms(2,3) show ?thesis
    by (fastforce simp: nm_live_def nm_sub_def map_le_def dom_def split: if_splits)
qed

lemma Consume_accepts:
  assumes "nm_inv s" and "Consume s n now = (Inr rec, s')"
  shows "nm_live s n = Some rec \<and> now < nr_ExpiresAt rec \<and> nm_live s' n = None \<and>
    map_of (nm_used s') n = Some (nr_ExpiresAt rec)"
  using assms(2)
  by (auto simp: Consume_def Let_def nm_live_def split: option.splits if_splits
      dest: purge_entries[OF assms(1), THEN iffD1])

interpretation mem: nonce_store nm_ops nm_live nm_inv rand_ok
  by unfold_locales
     (auto simp: nm_ops_def intro: Issue_inv Consume_inv Issue_live dest: Issue_frame
        Consume_accepts Consume_live)

subsection \<open>Properties\<close>

text \<open>C1: over any sequence of \<open>Issue\<close> and \<open>Consume\<close> calls on the in-memory store, whatever the
  eviction order and the clock, a nonce is accepted at most as often as it was issued (plus once
  if it was live at the start): a consumed nonce can not be replayed, evicted or not.\<close>

theorem nonce_accepted_at_most_once:
  assumes "nm_inv s" and "list_all (op_rnd_ok rand_ok) xs"
  shows "accepted_count n (fst (nonce_run nm_ops s xs))
    \<le> issued_count n (fst (nonce_run nm_ops s xs)) + (if nm_live s n \<noteq> None then 1 else 0)"
  using assms by (rule mem.accepted_le_issued)

definition ex_peer :: PeerIdentity where
  "ex_peer = \<lparr>pi_Addr = AddrPort (V4 167772161) 5060, pi_Transport = TransportUDP\<rparr>"

definition ex_record :: NonceRecord where
  "ex_record = \<lparr>nr_DeviceID = ''34020000001320000001'', nr_Realm = ''3402000000'',
     nr_Peer = ex_peer, nr_URI = ''sip:34020000002000000001@3402000000'', nr_ExpiresAt = 100\<rparr>"

definition ex_random :: string where
  "ex_random = replicate 24 CHR ''A''"

definition ex_nonce :: string where
  "ex_nonce = concat (replicate 8 ''QUFB'')"

lemma ex_nonce_eq: "nonce_of_bytes ex_random = ex_nonce"
  by code_simp

lemma ex_peer_valid: "peer_valid ex_peer"
  by code_simp

theorem nonce_accepted_at_most_once_witness:
  "let es = fst (nonce_run nm_ops NewMemoryNonceStore
              [OpIssue (Some ex_random) ex_record, OpConsume ex_nonce 50, OpConsume ex_nonce 60])
   in accepted_count ex_nonce es \<le> 1 \<and> accepted_count ex_nonce es = 1"
proof -
  let ?xs = "[OpIssue (Some ex_random) ex_record, OpConsume ex_nonce 50, OpConsume ex_nonce 60]"
  let ?es = "fst (nonce_run nm_ops NewMemoryNonceStore ?xs)"
  have r: "list_all (op_rnd_ok rand_ok) ?xs"
    by (simp add: rand_ok_def ex_random_def)
  have c: "accepted_count ex_nonce ?es = 1 \<and> issued_count ex_nonce ?es = 1"
    by (simp add: nonce_run_Cons nm_ops_def Issue_def Consume_def ex_peer_valid ex_nonce_eq evict.simps
        nm_size_def MaxMemoryNonces_def NewMemoryNonceStore_def ex_record_def purge_def
        accepted_count_def issued_count_def is_zero_def time_zero_def Let_def)
       (simp add: ex_nonce_def)
  show ?thesis
    using nonce_accepted_at_most_once[OF nm_inv_new r, of ex_nonce] c
    by (simp add: Let_def nm_live_def NewMemoryNonceStore_def)
qed

text \<open>\<open>Issue\<close> for a valid peer and an expiry always succeeds, however full the store is: the
  eviction loop ends and makes room, the nonce is recorded under its encoding, the two maps
  together never exceed \<open>MaxMemoryNonces\<close>, and nothing but the new nonce is added.\<close>

theorem issue_always_makes_room:
  assumes "nm_inv s" and "length b = 24" and "peer_valid (nr_Peer rec)"
    and "\<not> is_zero (nr_ExpiresAt rec)"
  shows "\<exists>s'. Issue s (Some b) rec = (Inr (nonce_of_bytes b), s') \<and> nm_inv s' \<and>
    nm_size s' \<le> MaxMemoryNonces \<and> nm_live s' (nonce_of_bytes b) = Some rec \<and>
    (\<forall>m x. m \<noteq> nonce_of_bytes b \<and> nm_live s' m = Some x \<longrightarrow> nm_live s m = Some x)"
proof -
  have ok: "rand_ok (Some b)" using assms(2) by (simp add: rand_ok_def)
  obtain s' where i: "Issue s (Some b) rec = (Inr (nonce_of_bytes b), s')"
    using evict_spec[OF assms(1)] assms(3,4) by (auto simp: Issue_def Let_def)
  from Issue_inv[OF assms(1) ok, of rec] i have "nm_inv s'" by simp
  with i Issue_live[OF assms(1) i] Issue_frame[OF assms(1) i] show ?thesis
    by (auto simp: nm_inv_def)
qed

theorem issue_always_makes_room_witness:
  "\<exists>s'. Issue NewMemoryNonceStore (Some ex_random) ex_record = (Inr ex_nonce, s') \<and>
     nm_size s' \<le> MaxMemoryNonces \<and> nm_live s' ex_nonce = Some ex_record"
proof -
  have "length ex_random = 24" "peer_valid (nr_Peer ex_record)" "\<not> is_zero (nr_ExpiresAt ex_record)"
    by (simp_all add: ex_random_def ex_record_def ex_peer_valid is_zero_iff)
  from issue_always_makes_room[OF nm_inv_new this] show ?thesis
    by (auto simp: ex_nonce_eq)
qed

end
