(* ===== verification/GB_Register.thy ===== *)
theory GB_Register
  imports GB_Contracts
begin

text \<open>
  \<open>internal/gb/digest.go\<close>: the REGISTER exchange of GB28181, over any device store and nonce
  store. \<open>md5Hex\<close> and \<open>AddrPort.String\<close> are arguments of the model (the record \<open>gb_env\<close>), the
  wired stores, the service pointer and the clock are not nil, and a call runs to its end before
  the next one starts (\<open>registrationMu\<close>, \<open>transactionMu\<close> and the stores' own locks serialise the
  state they guard). Successive readings of the clock within one call are \<open>clk 0\<close>, \<open>clk 1\<close>, ...,
  numbered in the order of the code. \<open>strings.ToLower\<close> and \<open>EqualFold\<close> are the ASCII ones: they
  are compared with ASCII text whose letters no other character folds to.
\<close>

record transactionResult =
  tx_result :: RegisterResult
  tx_expiresAt :: time

record ('d, 'n) gb_service =
  sv_Devices :: 'd
  sv_Nonces :: 'n
  sv_transactions :: "(string \<times> transactionResult) list"

record ('d, 'n) gb_env =
  ge_devices :: "'d device_ops"
  ge_nonces :: "'n nonce_ops"
  ge_md5 :: "string \<Rightarrow> string"
  ge_addr :: "addrport \<Rightarrow> string"

definition NewService :: "'d \<Rightarrow> 'n \<Rightarrow> ('d, 'n) gb_service" where
  "NewService d n = \<lparr>sv_Devices = d, sv_Nonces = n, sv_transactions = []\<rparr>"

subsection \<open>The digest\<close>

definition hex_digit_byte :: "nat \<Rightarrow> bool" where
  "hex_digit_byte b \<longleftrightarrow> b \<in> {48..57} \<union> {97..102} \<union> {65..70}"

definition digestResponse ::
  "(string \<Rightarrow> string) \<Rightarrow> DigestAuthorization \<Rightarrow> string \<Rightarrow> string \<Rightarrow> (gb_error, string) result" where
  "digestResponse md5Hex a meth password =
     (if da_Algorithm a \<noteq> [] \<and> \<not> equalFold (da_Algorithm a) ''MD5'' then Inl GbDigestInvalid
      else if \<not> gb_validText (da_Username a) 128 \<or> \<not> gb_validText (da_Realm a) 128 \<or>
              \<not> gb_validText (da_Nonce a) 256 \<or> \<not> gb_validText (da_URI a) 2048 \<or>
              \<not> gb_validText meth 32 \<or> length password > 128 then Inl GbDigestInvalid
      else if containsAny [CHR 0x0D, CHR 0x0A] (da_URI a) \<or> da_Response a = [] then Inl GbDigestInvalid
      else (let ha1 = md5Hex (da_Username a @ '':'' @ da_Realm a @ '':'' @ password);
                ha2 = md5Hex (meth @ '':'' @ da_URI a)
            in if da_QOP a = [] then Inr (md5Hex (ha1 @ '':'' @ da_Nonce a @ '':'' @ ha2))
               else if \<not> equalFold (da_QOP a) ''auth'' \<or> \<not> gb_validText (da_CNonce a) 128 \<or>
                       length (da_NC a) \<noteq> 8 then Inl GbDigestInvalid
               else if \<not> range_all hex_digit_byte (da_NC a) then Inl GbDigestInvalid
               else Inr (md5Hex (ha1 @ '':'' @ da_Nonce a @ '':'' @ da_NC a @ '':'' @ da_CNonce a @
                                 '':auth:'' @ ha2))))"

subsection \<open>The challenge\<close>

definition zeroResult :: RegisterResult where
  "zeroResult = \<lparr>rr_StatusCode = 0, rr_Challenge = None, rr_Registration = None\<rparr>"

definition request_shape :: "RegisterRequest \<Rightarrow> bool" where
  "request_shape req \<longleftrightarrow> gb_validDeviceID (rq_DeviceID req) \<and> rq_Username req = rq_DeviceID req \<and>
     rq_Method req = ''REGISTER'' \<and> peer_valid (rq_Source req)"

definition device_admits :: "RegisteredDevice \<Rightarrow> RegisterRequest \<Rightarrow> bool" where
  "device_admits device req \<longleftrightarrow> rd_DeviceID device = rq_DeviceID req \<and>
     rq_Realm req = rd_Realm device \<and> AllowsPeer device (ap_addr (pi_Addr (rq_Source req)))"

definition Challenge ::
  "('d, 'n) gb_env \<Rightarrow> ('d, 'n) gb_service \<Rightarrow> string option \<Rightarrow> (nat \<Rightarrow> time) \<Rightarrow> RegisterRequest \<Rightarrow>
   (gb_error, RegisterResult) result \<times> ('d, 'n) gb_service" where
  "Challenge env sv rnd clk req =
     (if \<not> request_shape req \<or> \<not> gb_validText (rq_Method req) 32 then (Inl GbInvalidRequest, sv)
      else (case ds_LookupDevice (ge_devices env) (sv_Devices sv) (rq_DeviceID req) of
        Inl _ \<Rightarrow> (Inl GbUnknownDevice, sv)
      | Inr device \<Rightarrow>
          if \<not> device_admits device req then (Inl GbPeerNotAllowed, sv)
          else if \<not> gb_validText (rd_Realm device) 128 \<or> \<not> gb_validText (rq_URI req) 2048
          then (Inl GbInvalidRequest, sv)
          else (let rec = \<lparr>nr_DeviceID = rq_DeviceID req, nr_Realm = rd_Realm device,
                           nr_Peer = rq_Source req, nr_URI = rq_URI req,
                           nr_ExpiresAt = clk 0 + 60 * second\<rparr>;
                    (res, n) = ns_Issue (ge_nonces env) (sv_Nonces sv) rnd rec;
                    sv = sv\<lparr>sv_Nonces := n\<rparr>
                in (case res of
                      Inl _ \<Rightarrow> (Inl GbNonceInvalid, sv)
                    | Inr nonce \<Rightarrow>
                        if \<not> gb_validText nonce 256 then (Inl GbNonceInvalid, sv)
                        else (Inr \<lparr>rr_StatusCode = 401,
                                   rr_Challenge = Some \<lparr>dc_Realm = rd_Realm device,
                                     dc_Nonce = nonce, dc_Algorithm = ''MD5''\<rparr>,
                                   rr_Registration = None\<rparr>, sv)))))"

subsection \<open>The retransmission cache\<close>

definition transaction_key ::
  "(addrport \<Rightarrow> string) \<Rightarrow> string \<Rightarrow> PeerIdentity \<Rightarrow> string \<Rightarrow> string" where
  "transaction_key addr i source deviceID =
     i @ ''|'' @ addr (pi_Addr source) @ ''|'' @ pi_Transport source @ ''|'' @ deviceID"

definition drop_expired ::
  "time \<Rightarrow> (string \<times> transactionResult) list \<Rightarrow> (string \<times> transactionResult) list" where
  "drop_expired now m = filter (\<lambda>(_, item). now < tx_expiresAt item) m"

definition transaction ::
  "('d, 'n) gb_env \<Rightarrow> ('d, 'n) gb_service \<Rightarrow> time \<Rightarrow> string \<Rightarrow> PeerIdentity \<Rightarrow> string \<Rightarrow>
   RegisterResult option \<times> ('d, 'n) gb_service" where
  "transaction env sv now i source deviceID =
     (let key = transaction_key (ge_addr env) i source deviceID;
          sv = sv\<lparr>sv_transactions := drop_expired now (sv_transactions sv)\<rparr>
      in case map_of (sv_transactions sv) key of
           None \<Rightarrow> (None, sv)
         | Some item \<Rightarrow> (if now < tx_expiresAt item then Some (tx_result item) else None, sv))"

definition MaxTransactions :: nat where "MaxTransactions = 1024"

text \<open>A full cache loses the entry its iteration order gives first.\<close>

definition rememberTransaction ::
  "('d, 'n) gb_env \<Rightarrow> ('d, 'n) gb_service \<Rightarrow> time \<Rightarrow> string \<Rightarrow> PeerIdentity \<Rightarrow> string \<Rightarrow>
   RegisterResult \<Rightarrow> ('d, 'n) gb_service" where
  "rememberTransaction env sv now i source deviceID res =
     (if i = [] then sv
      else (let key = transaction_key (ge_addr env) i source deviceID;
                m = sv_transactions sv;
                m = (if length m \<ge> MaxTransactions then tl m else m)
            in sv\<lparr>sv_transactions :=
                 AList.update key \<lparr>tx_result = res, tx_expiresAt = now + 60 * second\<rparr> m\<rparr>))"

subsection \<open>Applying a registration\<close>

definition applyRegistration ::
  "('d, 'n) gb_env \<Rightarrow> ('d, 'n) gb_service \<Rightarrow> PeerIdentity \<Rightarrow> string \<Rightarrow> Registration \<Rightarrow>
   gb_error option \<times> ('d, 'n) gb_service" where
  "applyRegistration env sv source deviceID reg =
     (if \<not> peer_valid source \<or> \<not> gb_validDeviceID deviceID \<or> rg_DeviceID reg \<noteq> deviceID \<or>
         rg_Peer reg \<noteq> source then (Some GbInvalidRequest, sv)
      else if (case ds_LookupPeer (ge_devices env) (sv_Devices sv) source of
                 Inl lookupErr \<Rightarrow> lookupErr \<noteq> GbPeerNotFound \<and> lookupErr \<noteq> GbUnknownDevice
               | Inr peerReg \<Rightarrow> rg_DeviceID peerReg \<noteq> [] \<and> rg_DeviceID peerReg \<noteq> deviceID)
      then (Some GbRegistrationConflict, sv)
      else (let (err, d) = ds_ApplyRegistration (ge_devices env) (sv_Devices sv) reg;
                sv = sv\<lparr>sv_Devices := d\<rparr>
            in (if err \<noteq> None then Some GbRegistrationConflict else None, sv)))"

subsection \<open>REGISTER\<close>

definition finishRegister ::
  "('d, 'n) gb_env \<Rightarrow> ('d, 'n) gb_service \<Rightarrow> time \<Rightarrow> RegisterRequest \<Rightarrow> Registration \<Rightarrow>
   (gb_error, RegisterResult) result \<times> ('d, 'n) gb_service" where
  "finishRegister env sv now req reg =
     (case applyRegistration env sv (rq_Source req) (rq_DeviceID req) reg of
        (Some _, sv) \<Rightarrow> (Inl GbRegistrationConflict, sv)
      | (None, sv) \<Rightarrow>
          (let res = \<lparr>rr_StatusCode = 200, rr_Challenge = None, rr_Registration = Some reg\<rparr>
           in (Inr res,
               rememberTransaction env sv now (rq_TransactionID req) (rq_Source req)
                 (rq_DeviceID req) res)))"

definition onlineRegistration :: "RegisterRequest \<Rightarrow> time \<Rightarrow> duration \<Rightarrow> Registration" where
  "onlineRegistration req now ttl =
     \<lparr>rg_DeviceID = rq_DeviceID req, rg_Peer = rq_Source req, rg_RegisteredAt = now,
      rg_LastSeenAt = now, rg_ExpiresAt = now + ttl, rg_Status = RegistrationOnline\<rparr>"

definition offlineRegistration :: "RegisterRequest \<Rightarrow> time \<Rightarrow> Registration" where
  "offlineRegistration req now =
     \<lparr>rg_DeviceID = rq_DeviceID req, rg_Peer = rq_Source req, rg_RegisteredAt = now,
      rg_LastSeenAt = now, rg_ExpiresAt = time_zero, rg_Status = RegistrationOffline\<rparr>"

text \<open>The digest comparison: same length, and equal once the answer is in lower case.\<close>

definition response_matches :: "string \<Rightarrow> string \<Rightarrow> bool" where
  "response_matches response expected \<longleftrightarrow>
     length response = length expected \<and> toLower response = expected"

text \<open>What follows the accepted nonce: its binding, the digest, the expiry and the store.\<close>

definition registerWithNonce ::
  "('d, 'n) gb_env \<Rightarrow> ('d, 'n) gb_service \<Rightarrow> (nat \<Rightarrow> time) \<Rightarrow> RegisterRequest \<Rightarrow>
   RegisteredDevice \<Rightarrow> DigestAuthorization \<Rightarrow> NonceRecord \<Rightarrow>
   (gb_error, RegisterResult) result \<times> ('d, 'n) gb_service" where
  "registerWithNonce env sv clk req device a rec =
     (if nr_DeviceID rec \<noteq> rq_DeviceID req \<or> nr_Realm rec \<noteq> rd_Realm device \<or>
         nr_Peer rec \<noteq> rq_Source req \<or> nr_URI rec \<noteq> rq_URI req \<or> \<not> clk 2 < nr_ExpiresAt rec
      then (Inl GbNonceInvalid, sv)
      else (case digestResponse (ge_md5 env) a (rq_Method req) (rd_Password device) of
        Inl _ \<Rightarrow> (Inl GbDigestInvalid, sv)
      | Inr expected \<Rightarrow>
          if \<not> response_matches (da_Response a) expected then (Inl GbDigestInvalid, sv)
          else (case registrationTTL (rq_Expires req) of
            Inl e \<Rightarrow> (Inl e, sv)
          | Inr ttl \<Rightarrow>
              if rq_Expires req \<noteq> 0
              then finishRegister env sv (clk 4) req (onlineRegistration req (clk 3) ttl)
              else finishRegister env sv (clk 4) req (offlineRegistration req (clk 3)))))"

definition registerFresh ::
  "('d, 'n) gb_env \<Rightarrow> ('d, 'n) gb_service \<Rightarrow> (nat \<Rightarrow> time) \<Rightarrow> RegisterRequest \<Rightarrow>
   (gb_error, RegisterResult) result \<times> ('d, 'n) gb_service" where
  "registerFresh env sv clk req =
     (case ds_LookupDevice (ge_devices env) (sv_Devices sv) (rq_DeviceID req) of
        Inl _ \<Rightarrow> (Inl GbUnknownDevice, sv)
      | Inr device \<Rightarrow>
          if \<not> device_admits device req then (Inl GbPeerNotAllowed, sv)
          else (case rq_Authorization req of
            None \<Rightarrow> (Inl GbDigestRequired, sv)
          | Some a \<Rightarrow>
              if da_Username a \<noteq> rq_Username req \<or> da_Realm a \<noteq> rd_Realm device \<or>
                 da_URI a \<noteq> rq_URI req then (Inl GbDigestInvalid, sv)
              else (case ns_Consume (ge_nonces env) (sv_Nonces sv) (da_Nonce a) (clk 1) of
                (Inl e, n) \<Rightarrow>
                  (Inl (if e = GbNonceReplay then e else GbNonceInvalid), sv\<lparr>sv_Nonces := n\<rparr>)
              | (Inr rec, n) \<Rightarrow>
                  registerWithNonce env (sv\<lparr>sv_Nonces := n\<rparr>) clk req device a rec)))"

definition register_args_ok :: "RegisterRequest \<Rightarrow> bool" where
  "register_args_ok req \<longleftrightarrow> request_shape req \<and> gb_validText (rq_URI req) 2048 \<and>
     (rq_TransactionID req = [] \<or> gb_validText (rq_TransactionID req) 128)"

definition HandleRegister ::
  "('d, 'n) gb_env \<Rightarrow> ('d, 'n) gb_service \<Rightarrow> (nat \<Rightarrow> time) \<Rightarrow> RegisterRequest \<Rightarrow>
   (gb_error, RegisterResult) result \<times> ('d, 'n) gb_service" where
  "HandleRegister env sv clk req =
     (if \<not> register_args_ok req then (Inl GbInvalidRequest, sv)
      else if rq_TransactionID req = [] then registerFresh env sv clk req
      else (case transaction env sv (clk 0) (rq_TransactionID req) (rq_Source req) (rq_DeviceID req) of
        (Some res, sv) \<Rightarrow> (Inr res, sv)
      | (None, sv) \<Rightarrow> registerFresh env sv clk req))"

subsection \<open>The cache\<close>

text \<open>Distinct keys and never more than the bound.\<close>

definition tx_inv :: "('d, 'n) gb_service \<Rightarrow> bool" where
  "tx_inv sv \<longleftrightarrow> wf_map (sv_transactions sv) \<and> length (sv_transactions sv) \<le> MaxTransactions"

lemma wf_map_tl [iolink_wf]: "wf_map m \<Longrightarrow> wf_map (tl m)"
  by (cases m) (auto simp: wf_map_def)

lemma remember_inv [iolink_wf]:
  assumes "tx_inv sv"
  shows "tx_inv (rememberTransaction env sv now i p d res)"
proof -
  let ?m = "if length (sv_transactions sv) \<ge> MaxTransactions then tl (sv_transactions sv)
            else sv_transactions sv"
  have m: "wf_map ?m" "Suc (length ?m) \<le> MaxTransactions"
    using assms by (auto simp: tx_inv_def wf_map_tl MaxTransactions_def)
  have "length (AList.update k v ?m) \<le> MaxTransactions" for k v
    by (rule order_trans[OF length_update_le m(2)])
  with m(1) assms show ?thesis
    by (simp add: tx_inv_def rememberTransaction_def Let_def del: if_split)
qed

lemma remember_frame [simp]:
  "sv_Devices (rememberTransaction env sv now i p d res) = sv_Devices sv"
  "sv_Nonces (rememberTransaction env sv now i p d res) = sv_Nonces sv"
  by (simp_all add: rememberTransaction_def Let_def)

lemma transaction_frame:
  "transaction env sv now i p d = (r, sv') \<Longrightarrow>
     sv_Devices sv' = sv_Devices sv \<and> sv_Nonces sv' = sv_Nonces sv"
  by (auto simp: transaction_def Let_def split: option.splits)

lemma transaction_inv [iolink_wf]:
  "tx_inv sv \<Longrightarrow> transaction env sv now i p d = (r, sv') \<Longrightarrow> tx_inv sv'"
  by (auto simp: transaction_def Let_def tx_inv_def drop_expired_def split: option.splits
      intro: order_trans[OF length_filter_le])

lemma transaction_hit:
  "tx_inv sv \<Longrightarrow> fst (transaction env sv now i p d) = Some res \<longleftrightarrow>
     (\<exists>item. map_of (sv_transactions sv) (transaction_key (ge_addr env) i p d) = Some item \<and>
        now < tx_expiresAt item \<and> tx_result item = res)"
  by (auto simp: transaction_def Let_def drop_expired_def tx_inv_def wf_map_of_filter
      split: option.splits) (metis (mono_tags) option.distinct(1) wf_map_of_filter case_prod_conv)+

lemma transaction_of_remembered:
  assumes "tx_inv sv" and "i \<noteq> []" and "later < now + 60 * second"
  shows "fst (transaction env (rememberTransaction env sv now i p d res) later i p d) = Some res"
  using assms remember_inv[OF assms(1), of env now i p d res]
  by (simp add: transaction_hit) (simp add: rememberTransaction_def Let_def)

subsection \<open>What a REGISTER does, path by path\<close>

lemma applyRegistration_None:
  "applyRegistration env sv p d reg = (None, sv') \<Longrightarrow>
     ds_ApplyRegistration (ge_devices env) (sv_Devices sv) reg = (None, sv_Devices sv') \<and>
     sv' = sv\<lparr>sv_Devices := sv_Devices sv'\<rparr> \<and> rg_DeviceID reg = d \<and> rg_Peer reg = p"
  by (auto simp: applyRegistration_def Let_def split: if_splits prod.splits sum.splits)

lemma finishRegister_Inr:
  assumes "finishRegister env sv now req reg = (Inr res, sv')"
  shows "ds_ApplyRegistration (ge_devices env) (sv_Devices sv) reg = (None, sv_Devices sv') \<and>
     sv_Nonces sv' = sv_Nonces sv \<and> rg_DeviceID reg = rq_DeviceID req \<and> rg_Peer reg = rq_Source req \<and>
     res = \<lparr>rr_StatusCode = 200, rr_Challenge = None, rr_Registration = Some reg\<rparr> \<and>
     sv' = rememberTransaction env (sv\<lparr>sv_Devices := sv_Devices sv'\<rparr>) now
             (rq_TransactionID req) (rq_Source req) (rq_DeviceID req) res"
proof -
  from assms obtain x where x: "applyRegistration env sv (rq_Source req) (rq_DeviceID req) reg = (None, x)"
    and r: "res = \<lparr>rr_StatusCode = 200, rr_Challenge = None, rr_Registration = Some reg\<rparr>"
    and s: "sv' = rememberTransaction env x now (rq_TransactionID req) (rq_Source req) (rq_DeviceID req) res"
    by (auto simp: finishRegister_def Let_def split: prod.splits option.splits)
  note a = applyRegistration_None[OF x]
  then have "x = sv\<lparr>sv_Devices := sv_Devices x\<rparr>" by blast
  then have "sv_Nonces x = sv_Nonces sv" by (metis gb_service.select_convs(2) gb_service.surjective gb_service.update_convs(1))
  with a r s show ?thesis by simp
qed

lemma registrationTTL_Inr:
  assumes "registrationTTL n = Inr ttl"
  shows "ttl = n * second \<and> (n = 0 \<or> 60 \<le> n \<and> n \<le> 3600)"
  using assms
  by (auto simp: registrationTTL_def Let_def MinRegistrationTTL_def MaxRegistrationTTL_def
      duration_defs split: if_splits)

definition registration_of :: "RegisterRequest \<Rightarrow> time \<Rightarrow> Registration" where
  "registration_of req now =
     (if rq_Expires req \<noteq> 0 then onlineRegistration req now (rq_Expires req * second)
      else offlineRegistration req now)"

lemma registerWithNonce_Inr:
  assumes "registerWithNonce env sv clk req device a rec = (Inr res, sv')"
  shows "nr_DeviceID rec = rq_DeviceID req \<and> nr_Realm rec = rd_Realm device \<and>
     nr_Peer rec = rq_Source req \<and> nr_URI rec = rq_URI req \<and> clk 2 < nr_ExpiresAt rec \<and>
     digestResponse (ge_md5 env) a (rq_Method req) (rd_Password device) = Inr (toLower (da_Response a)) \<and>
     (rq_Expires req = 0 \<or> 60 \<le> rq_Expires req \<and> rq_Expires req \<le> 3600) \<and>
     finishRegister env sv (clk 4) req (registration_of req (clk 3)) = (Inr res, sv')"
  using assms
  by (auto simp: registerWithNonce_def registration_of_def response_matches_def
      split: if_splits sum.splits dest: registrationTTL_Inr)

lemma registerFresh_Inr:
  assumes "registerFresh env sv clk req = (Inr res, sv')"
  obtains device a rec n where
    "ds_LookupDevice (ge_devices env) (sv_Devices sv) (rq_DeviceID req) = Inr device"
    "device_admits device req" "rq_Authorization req = Some a" "da_Username a = rq_Username req"
    "da_Realm a = rd_Realm device" "da_URI a = rq_URI req"
    "ns_Consume (ge_nonces env) (sv_Nonces sv) (da_Nonce a) (clk 1) = (Inr rec, n)"
    "registerWithNonce env (sv\<lparr>sv_Nonces := n\<rparr>) clk req device a rec = (Inr res, sv')"
  using assms
  by (auto simp: registerFresh_def split: if_splits sum.splits option.splits prod.splits)

lemma HandleRegister_cases [consumes 1, case_names refused cached fresh]:
  assumes "HandleRegister env sv clk req = (r, sv')"
  obtains "\<not> register_args_ok req" "r = Inl GbInvalidRequest" "sv' = sv"
  | res where "register_args_ok req" "rq_TransactionID req \<noteq> []" "r = Inr res"
      "transaction env sv (clk 0) (rq_TransactionID req) (rq_Source req) (rq_DeviceID req) = (Some res, sv')"
  | sv0 where "register_args_ok req"
      "rq_TransactionID req = [] \<and> sv0 = sv \<or> rq_TransactionID req \<noteq> [] \<and>
       transaction env sv (clk 0) (rq_TransactionID req) (rq_Source req) (rq_DeviceID req) = (None, sv0)"
      "registerFresh env sv0 clk req = (r, sv')"
  using assms
  by (auto simp: HandleRegister_def split: if_splits prod.splits option.splits)

text \<open>The result is the requester's own registration.\<close>

definition owns :: "RegisterResult \<Rightarrow> PeerIdentity \<Rightarrow> string \<Rightarrow> bool" where
  "owns res p d \<longleftrightarrow> rr_StatusCode res = 200 \<and> rr_Challenge res = None \<and>
     (case rr_Registration res of None \<Rightarrow> False
      | Some reg \<Rightarrow> rg_Peer reg = p \<and> rg_DeviceID reg = d)"

lemma registerFresh_owns:
  "registerFresh env sv clk req = (Inr res, sv') \<Longrightarrow> owns res (rq_Source req) (rq_DeviceID req)"
  by (erule registerFresh_Inr)
     (auto dest!: registerWithNonce_Inr finishRegister_Inr simp: owns_def)

lemma registerFresh_ok_state:
  assumes "registerFresh env sv clk req = (Inr res, sv')"
  obtains sv0 where "sv_transactions sv0 = sv_transactions sv"
    "sv' = rememberTransaction env sv0 (clk 4) (rq_TransactionID req) (rq_Source req)
             (rq_DeviceID req) res"
proof -
  from assms obtain device a rec n where
    "registerWithNonce env (sv\<lparr>sv_Nonces := n\<rparr>) clk req device a rec = (Inr res, sv')"
    by (rule registerFresh_Inr)
  from registerWithNonce_Inr[OF this] have
    "finishRegister env (sv\<lparr>sv_Nonces := n\<rparr>) (clk 4) req (registration_of req (clk 3)) = (Inr res, sv')"
    by blast
  from finishRegister_Inr[OF this] show ?thesis
    by (intro that[of "sv\<lparr>sv_Nonces := n, sv_Devices := sv_Devices sv'\<rparr>"]) auto
qed

text \<open>A call that fails leaves the cache as it was; it may have spent the nonce.\<close>

lemma applyRegistration_Some:
  "applyRegistration env sv p d reg = (Some e, sv') \<Longrightarrow>
     sv_transactions sv' = sv_transactions sv \<and> sv_Nonces sv' = sv_Nonces sv \<and>
     (sv_Devices sv' = sv_Devices sv \<or>
      (\<exists>e. ds_ApplyRegistration (ge_devices env) (sv_Devices sv) reg = (Some e, sv_Devices sv')))"
  by (auto simp: applyRegistration_def Let_def split: if_splits prod.splits sum.splits)

lemma registerFresh_Inl:
  assumes "registerFresh env sv clk req = (Inl e, sv')"
  shows "sv_transactions sv' = sv_transactions sv \<and>
     (sv_Devices sv' = sv_Devices sv \<or>
      (\<exists>e reg. ds_ApplyRegistration (ge_devices env) (sv_Devices sv) reg = (Some e, sv_Devices sv')))"
  using assms
  by (auto simp: registerFresh_def registerWithNonce_def finishRegister_def Let_def
      split: if_splits sum.splits option.splits prod.splits dest!: applyRegistration_Some)

subsection \<open>Whose result the cache returns\<close>

text \<open>
  What is used of \<open>AddrPort.String\<close>: on addresses without a zone it is injective and has no
  vertical bar (it is made of digits, hexadecimal letters, dots, colons and brackets).
\<close>

definition zone_free :: "addr \<Rightarrow> bool" where
  "zone_free a \<longleftrightarrow> (case a of NoAddr \<Rightarrow> False | V4 _ \<Rightarrow> True | V6 _ z \<Rightarrow> z = [])"

definition addr_text :: "(addrport \<Rightarrow> string) \<Rightarrow> bool" where
  "addr_text addr \<longleftrightarrow>
     (\<forall>a. zone_free (ap_addr a) \<longrightarrow> CHR ''|'' \<notin> set (addr a)) \<and>
     (\<forall>a b. zone_free (ap_addr a) \<longrightarrow> zone_free (ap_addr b) \<longrightarrow> addr a = addr b \<longrightarrow> a = b)"

lemma last_separator:
  assumes "xs @ c # ys = xs' @ c # ys'" and "c \<notin> set ys" and "c \<notin> set ys'"
  shows "xs = xs' \<and> ys = ys'"
proof -
  have t: "takeWhile (\<lambda>x. x \<noteq> c) (rev (us @ c # vs)) = rev vs" if "c \<notin> set vs" for us vs
    using that by (simp add: takeWhile_append2[of "rev vs"] takeWhile_append) 
  have "rev ys = rev ys'" using t[OF assms(2), of xs] t[OF assms(3), of xs'] assms(1) by simp
  with assms(1) show ?thesis by simp
qed

lemma transaction_key_inj:
  assumes addr: "addr_text addr"
    and key: "transaction_key addr i p d = transaction_key addr i' p' d'"
    and "zone_free (ap_addr (pi_Addr p))" "zone_free (ap_addr (pi_Addr p'))"
    and "transport_valid (pi_Transport p)" "transport_valid (pi_Transport p')"
    and "length d = 20" "length d' = 20"
  shows "i = i' \<and> p = p' \<and> d = d'"
proof -
  have tl: "length (pi_Transport p) = 3" "length (pi_Transport p') = 3"
    using assms(5,6) by (auto simp: transport_valid_def TransportUDP_def TransportTCP_def)
  have 1: "i @ CHR ''|'' # addr (pi_Addr p) = i' @ CHR ''|'' # addr (pi_Addr p')"
    and 2: "pi_Transport p = pi_Transport p'" and 3: "d = d'"
    using key assms(7,8) tl append_eq_append_conv[of
        "i @ CHR ''|'' # addr (pi_Addr p)" "i' @ CHR ''|'' # addr (pi_Addr p')"
        "CHR ''|'' # pi_Transport p @ CHR ''|'' # d" "CHR ''|'' # pi_Transport p' @ CHR ''|'' # d'"]
    by (auto simp: transaction_key_def)
  from last_separator[OF 1] addr assms(3,4) have "i = i'" "addr (pi_Addr p) = addr (pi_Addr p')"
    by (auto simp: addr_text_def)
  with addr assms(3,4) have "i = i'" "pi_Addr p = pi_Addr p'" by (auto simp: addr_text_def)
  with 2 3 show ?thesis by simp
qed

definition tx_owned :: "('d, 'n) gb_env \<Rightarrow> ('d, 'n) gb_service \<Rightarrow> bool" where
  "tx_owned env sv \<longleftrightarrow> (\<forall>k item. map_of (sv_transactions sv) k = Some item \<longrightarrow>
     (\<exists>i p d. k = transaction_key (ge_addr env) i p d \<and> zone_free (ap_addr (pi_Addr p)) \<and>
        transport_valid (pi_Transport p) \<and> length d = 20 \<and> owns (tx_result item) p d))"

lemma tx_owned_hit:
  assumes "tx_owned env sv" and "tx_inv sv" and "addr_text (ge_addr env)"
    and "fst (transaction env sv now i p d) = Some res"
    and "zone_free (ap_addr (pi_Addr p))" "transport_valid (pi_Transport p)" "length d = 20"
  shows "owns res p d"
proof -
  from assms(2,4) obtain item
    where "map_of (sv_transactions sv) (transaction_key (ge_addr env) i p d) = Some item"
      and r: "tx_result item = res"
    by (auto simp: transaction_hit)
  with assms(1) obtain i' p' d'
    where "transaction_key (ge_addr env) i p d = transaction_key (ge_addr env) i' p' d'"
      and *: "zone_free (ap_addr (pi_Addr p'))" "transport_valid (pi_Transport p')" "length d' = 20"
      and o: "owns (tx_result item) p' d'"
    unfolding tx_owned_def by blast
  from transaction_key_inj[OF assms(3) this(1) assms(5) *(1) assms(6) *(2) assms(7) *(3)] o r
  show ?thesis by simp
qed

lemma map_of_tl: "wf_map m \<Longrightarrow> map_of (tl m) \<subseteq>\<^sub>m map_of m"
  by (cases m) (force simp: map_le_def wf_map_def dom_map_of_conv_image_fst)+

lemma tx_owned_sub:
  "tx_owned env sv \<Longrightarrow> map_of (sv_transactions sv') \<subseteq>\<^sub>m map_of (sv_transactions sv) \<Longrightarrow> tx_owned env sv'"
  unfolding tx_owned_def by (metis domI map_le_def)

lemma tx_owned_remember [iolink_wf]:
  assumes "tx_owned env sv" and "tx_inv sv" and "owns res p d"
    and "zone_free (ap_addr (pi_Addr p))" "transport_valid (pi_Transport p)" "length d = 20"
  shows "tx_owned env (rememberTransaction env sv now i p d res)"
proof -
  let ?m = "if length (sv_transactions sv) \<ge> MaxTransactions then tl (sv_transactions sv)
            else sv_transactions sv"
  have m: "map_of ?m \<subseteq>\<^sub>m map_of (sv_transactions sv)"
    using assms(2) map_of_tl by (auto simp: tx_inv_def)
  have "tx_owned env (sv\<lparr>sv_transactions := ?m\<rparr>)"
    by (rule tx_owned_sub[OF assms(1)]) (use m in simp)
  with assms(1,3-6) show ?thesis
    by (auto simp: rememberTransaction_def tx_owned_def Let_def)
qed

lemma transaction_sub:
  assumes "tx_inv sv" and "transaction env sv now i p d = (r, sv')"
  shows "map_of (sv_transactions sv') \<subseteq>\<^sub>m map_of (sv_transactions sv)"
proof -
  from assms(2) have "sv_transactions sv' = drop_expired now (sv_transactions sv)"
    by (auto simp: transaction_def Let_def split: option.splits)
  with assms(1) show ?thesis
    by (auto simp: map_le_def drop_expired_def tx_inv_def dom_def wf_map_of_filter)
qed

subsection \<open>Runs of the service\<close>

datatype gb_call =
    CallChallenge "string option" "nat \<Rightarrow> time" RegisterRequest
  | CallRegister "nat \<Rightarrow> time" RegisterRequest

fun gb_step :: "('d, 'n) gb_env \<Rightarrow> gb_call \<Rightarrow> ('d, 'n) gb_service \<Rightarrow> ('d, 'n) gb_service" where
  "gb_step env (CallChallenge rnd clk req) sv = snd (Challenge env sv rnd clk req)"
| "gb_step env (CallRegister clk req) sv = snd (HandleRegister env sv clk req)"

fun call_request :: "gb_call \<Rightarrow> RegisterRequest" where
  "call_request (CallChallenge _ _ req) = req"
| "call_request (CallRegister _ req) = req"

definition zone_free_call :: "gb_call \<Rightarrow> bool" where
  "zone_free_call c \<longleftrightarrow> zone_free (ap_addr (pi_Addr (rq_Source (call_request c))))"

definition service_inv :: "('d, 'n) gb_env \<Rightarrow> ('d, 'n) gb_service \<Rightarrow> bool" where
  "service_inv env sv \<longleftrightarrow> tx_inv sv \<and> tx_owned env sv"

lemma service_inv_transactions:
  "service_inv env sv \<Longrightarrow> sv_transactions sv' = sv_transactions sv \<Longrightarrow> service_inv env sv'"
  by (simp add: service_inv_def tx_inv_def tx_owned_def)

lemma service_inv_new: "service_inv env (NewService d n)"
  by (simp add: service_inv_def tx_inv_def tx_owned_def NewService_def)

lemma Challenge_transactions [simp]:
  "sv_transactions (snd (Challenge env sv rnd clk req)) = sv_transactions sv"
  by (simp add: Challenge_def Let_def split: sum.split prod.split)

lemma Challenge_devices [simp]: "sv_Devices (snd (Challenge env sv rnd clk req)) = sv_Devices sv"
  by (simp add: Challenge_def Let_def split: sum.split prod.split)

lemma request_shape_valid:
  "request_shape req \<Longrightarrow> transport_valid (pi_Transport (rq_Source req)) \<and> length (rq_DeviceID req) = 20"
  by (simp add: request_shape_def peer_valid_def gb_validDeviceID_iff)

lemma registerFresh_inv [iolink_wf]:
  assumes "service_inv env sv" and "request_shape req"
    and "zone_free (ap_addr (pi_Addr (rq_Source req)))"
  shows "service_inv env (snd (registerFresh env sv clk req))"
proof (cases "registerFresh env sv clk req")
  case (Pair r sv')
  show ?thesis
  proof (cases r)
    case (Inl e)
    with Pair registerFresh_Inl[of env sv clk req e sv'] have "sv_transactions sv' = sv_transactions sv"
      by simp
    from service_inv_transactions[OF assms(1) this] Pair show ?thesis by simp
  next
    case (Inr res)
    with Pair have ok: "registerFresh env sv clk req = (Inr res, sv')" by simp
    obtain sv0 where sv0: "sv_transactions sv0 = sv_transactions sv"
      "sv' = rememberTransaction env sv0 (clk 4) (rq_TransactionID req) (rq_Source req)
               (rq_DeviceID req) res"
      using registerFresh_ok_state[OF ok] .
    have "service_inv env sv0" using assms(1) sv0(1) by (rule service_inv_transactions)
    with sv0(2) registerFresh_owns[OF ok] assms(3) request_shape_valid[OF assms(2)] Pair
    show ?thesis by (auto simp: service_inv_def intro: remember_inv tx_owned_remember)
  qed
qed

lemma transaction_service_inv [iolink_wf]:
  "service_inv env sv \<Longrightarrow> transaction env sv now i p d = (r, sv') \<Longrightarrow> service_inv env sv'"
  by (auto simp: service_inv_def intro: transaction_inv tx_owned_sub transaction_sub)

lemma gb_step_inv [iolink_wf]:
  assumes "service_inv env sv" and "zone_free_call c"
  shows "service_inv env (gb_step env c sv)"
proof (cases c)
  case (CallChallenge rnd clk req)
  with service_inv_transactions[OF assms(1)] show ?thesis by simp
next
  case (CallRegister clk req)
  obtain r sv' where h: "HandleRegister env sv clk req = (r, sv')" by fastforce
  then have "service_inv env sv'"
  proof (cases rule: HandleRegister_cases)
    case refused
    with assms(1) show ?thesis by simp
  next
    case (cached res)
    with assms(1) show ?thesis by (auto intro: transaction_service_inv)
  next
    case (fresh sv0)
    have "service_inv env sv0"
      using fresh(2) assms(1) by (auto intro: transaction_service_inv)
    from registerFresh_inv[OF this, of req clk] fresh assms(2) CallRegister show ?thesis
      by (simp add: register_args_ok_def zone_free_call_def)
  qed
  with h CallRegister show ?thesis by simp
qed

lemma gb_run_inv:
  "service_inv env sv \<Longrightarrow> list_all zone_free_call cs \<Longrightarrow> service_inv env (fold (gb_step env) cs sv)"
  by (induction cs arbitrary: sv) (auto intro: gb_step_inv)

subsection \<open>Properties\<close>

text \<open>C2: a REGISTER that is answered 200 and is not a retransmission has passed every check: the
device is known and admits the peer's address, realm and digest header agree with it, the nonce
was accepted by the store, was issued to this device, realm, peer and URI and has not expired,
the answer is the digest over the stored password, the requested lifetime is 0 or between 60 and
3600 seconds, and exactly the registration that is returned was stored.\<close>

theorem register_success_sound:
  assumes ok: "HandleRegister env sv clk req = (Inr res, sv')"
    and miss: "rq_TransactionID req = [] \<or>
      fst (transaction env sv (clk 0) (rq_TransactionID req) (rq_Source req) (rq_DeviceID req)) = None"
  shows "\<exists>device a rec. request_shape req \<and>
    ds_LookupDevice (ge_devices env) (sv_Devices sv) (rq_DeviceID req) = Inr device \<and>
    device_admits device req \<and> rq_Authorization req = Some a \<and>
    da_Username a = rq_DeviceID req \<and> da_Realm a = rd_Realm device \<and> da_URI a = rq_URI req \<and>
    ns_Consume (ge_nonces env) (sv_Nonces sv) (da_Nonce a) (clk 1) = (Inr rec, sv_Nonces sv') \<and>
    rec = \<lparr>nr_DeviceID = rq_DeviceID req, nr_Realm = rd_Realm device, nr_Peer = rq_Source req,
           nr_URI = rq_URI req, nr_ExpiresAt = nr_ExpiresAt rec\<rparr> \<and>
    clk 2 < nr_ExpiresAt rec \<and>
    digestResponse (ge_md5 env) a ''REGISTER'' (rd_Password device) = Inr (toLower (da_Response a)) \<and>
    (rq_Expires req = 0 \<or> 60 \<le> rq_Expires req \<and> rq_Expires req \<le> 3600) \<and>
    res = \<lparr>rr_StatusCode = 200, rr_Challenge = None,
           rr_Registration = Some (registration_of req (clk 3))\<rparr> \<and>
    ds_ApplyRegistration (ge_devices env) (sv_Devices sv) (registration_of req (clk 3))
      = (None, sv_Devices sv')"
proof -
  from ok have shape: "request_shape req"
    by (auto simp: HandleRegister_def register_args_ok_def split: if_splits)
  obtain sv0 where fresh: "registerFresh env sv0 clk req = (Inr res, sv')"
    and frame: "sv_Devices sv0 = sv_Devices sv" "sv_Nonces sv0 = sv_Nonces sv"
    using ok miss by (cases rule: HandleRegister_cases) (auto dest: transaction_frame)
  from fresh show ?thesis
  proof (rule registerFresh_Inr)
    fix device a rec n
    assume dev: "ds_LookupDevice (ge_devices env) (sv_Devices sv0) (rq_DeviceID req) = Inr device"
      "device_admits device req" "rq_Authorization req = Some a" "da_Username a = rq_Username req"
      "da_Realm a = rd_Realm device" "da_URI a = rq_URI req"
      and non: "ns_Consume (ge_nonces env) (sv_Nonces sv0) (da_Nonce a) (clk 1) = (Inr rec, n)"
      and rest: "registerWithNonce env (sv0\<lparr>sv_Nonces := n\<rparr>) clk req device a rec = (Inr res, sv')"
    note w = registerWithNonce_Inr[OF rest]
    then have "finishRegister env (sv0\<lparr>sv_Nonces := n\<rparr>) (clk 4) req (registration_of req (clk 3))
      = (Inr res, sv')" by blast
    note f = finishRegister_Inr[OF this]
    have "sv_Nonces sv' = n" using f by (metis gb_service.select_convs(2) gb_service.surjective gb_service.update_convs(2))
    with w f dev non frame shape show ?thesis
      by (intro exI[of _ device] exI[of _ a] exI[of _ rec]) (auto simp: request_shape_def)
  qed
qed

text \<open>a REGISTER that was answered 200 and is sent again within 60 seconds with the same
transaction id, from the same peer and for the same device, gets the same answer without
touching the device store or the nonce store, although its nonce is spent.\<close>

theorem register_retransmission:
  assumes "tx_inv sv" and "HandleRegister env sv clk req = (Inr res, sv')"
    and "rq_TransactionID req \<noteq> []"
    and "fst (transaction env sv (clk 0) (rq_TransactionID req) (rq_Source req) (rq_DeviceID req)) = None"
    and "clk' 0 < clk 4 + 60 * second"
  shows "\<exists>sv''. HandleRegister env sv' clk' req = (Inr res, sv'') \<and>
    sv_Devices sv'' = sv_Devices sv' \<and> sv_Nonces sv'' = sv_Nonces sv'"
proof -
  let ?t = "\<lambda>sv now. transaction env sv now (rq_TransactionID req) (rq_Source req) (rq_DeviceID req)"
  from assms(2) have args: "register_args_ok req"
    by (auto simp: HandleRegister_def split: if_splits)
  obtain sv0 where t0: "?t sv (clk 0) = (None, sv0)" using assms(4) by (metis prod.collapse)
  with assms(2,3) args have fresh: "registerFresh env sv0 clk req = (Inr res, sv')"
    by (simp add: HandleRegister_def)
  have inv0: "tx_inv sv0" using assms(1) t0 by (rule transaction_inv)
  obtain sv1 where sv1: "sv_transactions sv1 = sv_transactions sv0"
    "sv' = rememberTransaction env sv1 (clk 4) (rq_TransactionID req) (rq_Source req) (rq_DeviceID req) res"
    using registerFresh_ok_state[OF fresh] .
  have "tx_inv sv1" using inv0 sv1(1) by (simp add: tx_inv_def)
  from transaction_of_remembered[OF this assms(3,5)] sv1(2)
  obtain sv'' where t: "?t sv' (clk' 0) = (Some res, sv'')" by (metis prod.collapse)
  with args assms(3) transaction_frame[OF t] show ?thesis
    by (auto simp: HandleRegister_def)
qed

text \<open>whatever calls were made since the service started, from addresses without a zone, a
REGISTER that is answered 200, by the retransmission cache or afresh, is answered with a
registration of the very device and peer that asked: the cache never hands one device's or
peer's result to another.\<close>

theorem register_result_is_own:
  assumes "addr_text (ge_addr env)" and "list_all zone_free_call cs"
    and "zone_free (ap_addr (pi_Addr (rq_Source req)))"
    and "HandleRegister env (fold (gb_step env) cs (NewService d n)) clk req = (Inr res, sv')"
  shows "owns res (rq_Source req) (rq_DeviceID req) \<and>
    length (sv_transactions sv') \<le> MaxTransactions"
proof -
  let ?sv = "fold (gb_step env) cs (NewService d n)"
  have inv: "service_inv env ?sv" using gb_run_inv[OF service_inv_new assms(2)] .
  have "service_inv env (gb_step env (CallRegister clk req) ?sv)"
    using inv assms(3) by (intro gb_step_inv) (simp_all add: zone_free_call_def)
  with assms(4) have "tx_inv sv'" by (simp add: service_inv_def)
  moreover have "owns res (rq_Source req) (rq_DeviceID req)"
    using assms(4)
  proof (cases rule: HandleRegister_cases)
    case (cached res')
    with request_shape_valid have "transport_valid (pi_Transport (rq_Source req))"
      "length (rq_DeviceID req) = 20" by (auto simp: register_args_ok_def)
    with cached inv assms(3) show ?thesis
      by (intro tx_owned_hit[OF _ _ assms(1), of _ "clk 0" "rq_TransactionID req"])
         (auto simp: service_inv_def)
  qed (auto intro: registerFresh_owns)
  ultimately show ?thesis by (simp add: tx_inv_def)
qed

end
