(* ===== verification/GB_Store.thy ===== *)
theory GB_Store
  imports GB_Nonce GB_Register
begin

text \<open>
  \<open>internal/gbpg/store.go\<close>: the device store over the table \<open>video_gb_devices\<close>. The table is an
  association list from \<open>device_id\<close> (unique) to rows; the partial unique index on the peer columns
  of registered rows is the check in \<open>ApplyRegistration\<close> (error 23505). Each call is one
  transaction, so a failing statement leaves the table as it was. Arguments of the model
  (\<open>pg_env\<close>): the credential cipher, \<open>netip.ParsePrefix\<close> (\<open>NoPrefix\<close> for an error) and the
  precision of a stored instant. \<open>pg_fails\<close> says which statement of a call the database refuses,
  \<open>pg_clock\<close> is \<open>clock_timestamp()\<close>. An address with a zone is no \<open>inet\<close>.
\<close>

subsection \<open>Rows, table, environment\<close>

record gb_row =
  gr_id :: int
  gr_tenant :: int
  gr_version :: int
  gr_cipher :: string
  gr_realm :: string
  gr_enabled :: bool
  gr_peers :: "string list"
  gr_registered :: bool
  gr_registered_at :: "time option"
  gr_registered_until :: "time option"
  gr_last_keepalive :: "time option"
  gr_addr :: "addr option"
  gr_port :: "int option"
  gr_transport :: "string option"

record gb_pg =
  pg_rows :: "(string \<times> gb_row) list"
  pg_clock :: time
  pg_fails :: "nat \<Rightarrow> bool"

record pg_env =
  pe_Open :: "int \<Rightarrow> int \<Rightarrow> int \<Rightarrow> string \<Rightarrow> string option"
  pe_ParsePrefix :: "string \<Rightarrow> prefix"
  pe_stored :: "time \<Rightarrow> time"

definition inet :: "addr \<Rightarrow> addr option" where
  "inet a = (if zone_free a then Some a else None)"

subsection \<open>Validators\<close>

definition pg_validText :: "string \<Rightarrow> bool" where
  "pg_validText v \<longleftrightarrow> list_all printable_byte (codes v)"

definition validRealm :: "string \<Rightarrow> bool" where
  "validRealm v \<longleftrightarrow> length v > 0 \<and> length v \<le> 128 \<and> pg_validText v"

definition pg_validDeviceID :: "string \<Rightarrow> bool" where
  "pg_validDeviceID s \<longleftrightarrow> length s = 20 \<and> range_all isDigitByte s"

definition allowedPeerJSON :: "pg_env \<Rightarrow> string list \<Rightarrow> addr \<Rightarrow> bool" where
  "allowedPeerJSON e raw address \<longleftrightarrow> addr_valid address \<and>
     list_ex (\<lambda>v. prefix_contains (pe_ParsePrefix e v) address) raw"

subsection \<open>Lookups\<close>

text \<open>The loop over the allowed peers: \<open>None\<close> as soon as one is not a prefix.\<close>

fun parsePeers :: "pg_env \<Rightarrow> string list \<Rightarrow> prefix list option" where
  "parsePeers e [] = Some []"
| "parsePeers e (raw # r) =
     (let p = pe_ParsePrefix e raw in
      if \<not> prefix_valid p then None
      else map_option ((#) (prefix_masked p)) (parsePeers e r))"

definition binding_ok :: "int \<Rightarrow> int \<Rightarrow> int \<Rightarrow> bool" where
  "binding_ok tenant entity version \<longleftrightarrow> \<not> (tenant \<le> 0 \<or> entity \<le> 0 \<or> version \<le> 0)"

definition pg_LookupDevice :: "pg_env \<Rightarrow> gb_pg \<Rightarrow> string \<Rightarrow> (gb_error, RegisteredDevice) result" where
  "pg_LookupDevice e s deviceID =
     (if \<not> pg_validDeviceID deviceID then Inl GbUnknownDevice
      else if pg_fails s 0 then Inl GbUnknownDevice
      else (case map_of (pg_rows s) deviceID of
        None \<Rightarrow> Inl GbUnknownDevice
      | Some row \<Rightarrow>
          if \<not> gr_enabled row \<or> \<not> validRealm (gr_realm row) then Inl GbUnknownDevice
          else if \<not> binding_ok (gr_tenant row) (gr_id row) (gr_version row) then Inl GbUnknownDevice
          else (case pe_Open e (gr_tenant row) (gr_id row) (gr_version row) (gr_cipher row) of
            None \<Rightarrow> Inl GbUnknownDevice
          | Some password \<Rightarrow>
              if length password = 0 \<or> length password > 128 \<or> \<not> pg_validText password
              then Inl GbUnknownDevice
              else if gr_peers row = [] then Inl GbUnknownDevice
              else (case parsePeers e (gr_peers row) of
                None \<Rightarrow> Inl GbUnknownDevice
              | Some peers \<Rightarrow> Inr \<lparr>rd_DeviceID = deviceID, rd_Realm = gr_realm row,
                                rd_Password = password, rd_AllowedPeers = peers\<rparr>))))"

definition at_peer :: "gb_row \<Rightarrow> PeerIdentity \<Rightarrow> bool" where
  "at_peer row p \<longleftrightarrow> gr_registered row \<and> gr_addr row = Some (ap_addr (pi_Addr p)) \<and>
     gr_port row = Some (uint (ap_port (pi_Addr p))) \<and> gr_transport row = Some (pi_Transport p)"

definition unexpired :: "gb_row \<Rightarrow> time \<Rightarrow> bool" where
  "unexpired row now \<longleftrightarrow> (case gr_registered_until row of None \<Rightarrow> False | Some u \<Rightarrow> now < u)"

definition row_identity :: "gb_row \<Rightarrow> PeerIdentity option" where
  "row_identity row =
     (case (gr_addr row, gr_port row, gr_transport row) of
        (Some a, Some p, Some t) \<Rightarrow>
          (case NewPeerIdentity (AddrPort a (word_of_int p)) t of Inl _ \<Rightarrow> None | Inr i \<Rightarrow> Some i)
      | _ \<Rightarrow> None)"

definition row_registration :: "string \<Rightarrow> gb_row \<Rightarrow> PeerIdentity \<Rightarrow> (gb_error, Registration) result" where
  "row_registration deviceID row peer =
     (case (gr_registered_at row, gr_last_keepalive row, gr_registered_until row) of
        (Some registeredAt, Some lastSeen, Some expires) \<Rightarrow>
          (if row_identity row \<noteq> Some peer \<or> is_zero registeredAt \<or> is_zero lastSeen \<or> is_zero expires
           then Inl GbPeerNotFound
           else Inr \<lparr>rg_DeviceID = deviceID, rg_Peer = peer, rg_RegisteredAt = registeredAt,
                     rg_LastSeenAt = lastSeen, rg_ExpiresAt = expires,
                     rg_Status = RegistrationOnline\<rparr>)
      | _ \<Rightarrow> Inl GbPeerNotFound)"

definition pg_LookupPeer :: "pg_env \<Rightarrow> gb_pg \<Rightarrow> PeerIdentity \<Rightarrow> (gb_error, Registration) result" where
  "pg_LookupPeer e s peer =
     (if \<not> peer_valid peer then Inl GbPeerNotFound
      else if pg_fails s 0 \<or> inet (ap_addr (pi_Addr peer)) = None then Inl GbPeerNotFound
      else (case filter (\<lambda>(_, row). gr_enabled row \<and> at_peer row peer \<and> unexpired row (pg_clock s))
                   (pg_rows s) of
              [] \<Rightarrow> Inl GbPeerNotFound
            | (deviceID, row) # _ \<Rightarrow> row_registration deviceID row peer))"

subsection \<open>Changes\<close>

definition row_offline :: "gb_row \<Rightarrow> gb_row" where
  "row_offline row = row\<lparr>gr_registered := False, gr_registered_until := None,
     gr_last_keepalive := None, gr_addr := None, gr_port := None, gr_transport := None\<rparr>"

definition row_online :: "pg_env \<Rightarrow> Registration \<Rightarrow> gb_row \<Rightarrow> gb_row" where
  "row_online e reg row = row\<lparr>gr_registered := True,
     gr_registered_at := Some (pe_stored e (rg_RegisteredAt reg)),
     gr_registered_until := Some (pe_stored e (rg_ExpiresAt reg)),
     gr_last_keepalive := Some (pe_stored e (rg_LastSeenAt reg)),
     gr_addr := Some (ap_addr (pi_Addr (rg_Peer reg))),
     gr_port := Some (uint (ap_port (pi_Addr (rg_Peer reg)))),
     gr_transport := Some (pi_Transport (rg_Peer reg))\<rparr>"

definition unregisters :: "Registration \<Rightarrow> bool" where
  "unregisters reg \<longleftrightarrow> rg_Status reg = RegistrationOffline \<and> is_zero (rg_ExpiresAt reg)"

definition registration_args_ok :: "Registration \<Rightarrow> bool" where
  "registration_args_ok reg \<longleftrightarrow>
     pg_validDeviceID (rg_DeviceID reg) \<and> peer_valid (rg_Peer reg) \<and> \<not> is_zero (rg_RegisteredAt reg) \<and>
     (unregisters reg \<or>
      rg_Status reg = RegistrationOnline \<and> \<not> is_zero (rg_ExpiresAt reg) \<and>
      rg_RegisteredAt reg < rg_ExpiresAt reg \<and>
      \<not> time_sub (rg_ExpiresAt reg) (rg_RegisteredAt reg) > MaxRegistrationTTL \<and>
      \<not> is_zero (rg_LastSeenAt reg))"

text \<open>
  Statements of \<open>ApplyRegistration\<close>: 0 begin, 1 select for update, 2 exists, 3 update (or 2 and
  3 the two updates), 4 commit.
\<close>

definition pg_ApplyRegistration :: "pg_env \<Rightarrow> gb_pg \<Rightarrow> Registration \<Rightarrow> gb_error option \<times> gb_pg" where
  "pg_ApplyRegistration e s reg =
     (if \<not> registration_args_ok reg then (Some (GbOther ''ErrInvalid''), s)
      else if pg_fails s 0 then (Some (GbOther ''ErrStore''), s)
      else if pg_fails s 1 then (Some (GbOther ''ErrStore''), s)
      else (case map_of (pg_rows s) (rg_DeviceID reg) of
        None \<Rightarrow> (Some GbUnknownDevice, s)
      | Some row \<Rightarrow>
          if \<not> gr_enabled row \<or> \<not> validRealm (gr_realm row) \<or>
             \<not> allowedPeerJSON e (gr_peers row) (ap_addr (pi_Addr (rg_Peer reg)))
          then (Some GbPeerNotAllowed, s)
          else if unregisters reg then
            (if pg_fails s 2 \<or> inet (ap_addr (pi_Addr (rg_Peer reg))) = None \<or>
                \<not> at_peer row (rg_Peer reg) then (Some GbPeerNotFound, s)
             else if pg_fails s 3 \<or> pg_fails s 4 then (Some (GbOther ''ErrStore''), s)
             else (None, s\<lparr>pg_rows := AList.update (rg_DeviceID reg)
                     ((row_offline row)\<lparr>gr_registered_at := Some (pe_stored e (rg_RegisteredAt reg))\<rparr>)
                     (pg_rows s)\<rparr>))
          else if pg_fails s 2 then (Some (GbOther ''ErrStore''), s)
          else (let row = (if gr_registered row then row_offline row else row) in
            if pg_fails s 3 \<or> inet (ap_addr (pi_Addr (rg_Peer reg))) = None
            then (Some (GbOther ''ErrStore''), s)
            else if list_ex (\<lambda>(i, other). i \<noteq> rg_DeviceID reg \<and> at_peer other (rg_Peer reg)) (pg_rows s)
            then (Some GbPeerConflict, s)
            else if pg_fails s 4 then (Some (GbOther ''ErrStore''), s)
            else (None, s\<lparr>pg_rows := AList.update (rg_DeviceID reg) (row_online e reg row)
                    (pg_rows s)\<rparr>))))"

definition pg_MarkKeepalive ::
  "pg_env \<Rightarrow> gb_pg \<Rightarrow> string \<Rightarrow> PeerIdentity \<Rightarrow> time \<Rightarrow> string \<Rightarrow> gb_error option \<times> gb_pg" where
  "pg_MarkKeepalive e s deviceID peer now status =
     (if \<not> pg_validDeviceID deviceID \<or> \<not> peer_valid peer \<or> is_zero now
      then (Some (GbOther ''ErrInvalid''), s)
      else if pg_fails s 0 \<or> pg_fails s 1 \<or> inet (ap_addr (pi_Addr peer)) = None
      then (Some (GbOther ''ErrStore''), s)
      else (case map_of (pg_rows s) deviceID of
        None \<Rightarrow> (Some GbPeerNotFound, s)
      | Some row \<Rightarrow>
          if \<not> (gr_enabled row \<and> at_peer row peer \<and> unexpired row (pg_clock s))
          then (Some GbPeerNotFound, s)
          else if pg_fails s 2 then (Some (GbOther ''ErrStore''), s)
          else (None, s\<lparr>pg_rows := AList.update deviceID
                  (if status \<noteq> ''OK'' then row_offline row
                   else row\<lparr>gr_last_keepalive := Some (pe_stored e now)\<rparr>) (pg_rows s)\<rparr>)))"

subsection \<open>Invariant: one device per registered peer\<close>

definition pg_inv :: "gb_pg \<Rightarrow> bool" where
  "pg_inv s \<longleftrightarrow> wf_map (pg_rows s) \<and>
     (\<forall>i j r r' p. map_of (pg_rows s) i = Some r \<longrightarrow> map_of (pg_rows s) j = Some r' \<longrightarrow>
        at_peer r p \<longrightarrow> at_peer r' p \<longrightarrow> i = j)"

definition pg_ops :: "pg_env \<Rightarrow> gb_pg device_ops" where
  "pg_ops e = \<lparr>ds_LookupDevice = pg_LookupDevice e, ds_LookupPeer = pg_LookupPeer e,
     ds_ApplyRegistration = pg_ApplyRegistration e, ds_MarkKeepalive = pg_MarkKeepalive e\<rparr>"

definition pg_kept :: "pg_env \<Rightarrow> Registration \<Rightarrow> Registration" where
  "pg_kept e r = r\<lparr>rg_RegisteredAt := pe_stored e (rg_RegisteredAt r),
     rg_LastSeenAt := pe_stored e (rg_LastSeenAt r), rg_ExpiresAt := pe_stored e (rg_ExpiresAt r)\<rparr>"

text \<open>A registration the store shows: the lookup succeeds and its clock is before the expiry.\<close>

definition pg_shown :: "pg_env \<Rightarrow> gb_pg \<Rightarrow> Registration \<Rightarrow> bool" where
  "pg_shown e s r \<longleftrightarrow> \<not> pg_fails s 0 \<and> pg_clock s < pe_stored e (rg_ExpiresAt r) \<and>
     pe_stored e (rg_RegisteredAt r) \<noteq> 0 \<and> pe_stored e (rg_LastSeenAt r) \<noteq> 0 \<and>
     pe_stored e (rg_ExpiresAt r) \<noteq> 0"

lemma at_peer_offline [simp]: "\<not> at_peer (row_offline row) p"
  by (simp add: at_peer_def row_offline_def)

lemma row_online_offline [simp]: "row_online e r (row_offline row) = row_online e r row"
  by (simp add: row_online_def row_offline_def)

lemma at_peer_frame [simp]:
  "at_peer (row\<lparr>gr_last_keepalive := x\<rparr>) p = at_peer row p"
  "\<not> at_peer ((row_offline row)\<lparr>gr_registered_at := y\<rparr>) p"
  by (simp_all add: at_peer_def row_offline_def)

lemma at_peer_online: "at_peer (row_online e r row) p \<longleftrightarrow> p = rg_Peer r"
proof -
  have "PeerIdentity.more p = ()" for p :: PeerIdentity by simp
  then show ?thesis
    by (cases p; cases "rg_Peer r"; cases "pi_Addr p"; cases "pi_Addr (rg_Peer r)")
       (auto simp: at_peer_def row_online_def word_uint_eq_iff)
qed

lemma pg_inv_update:
  assumes "pg_inv s" and "map_of (pg_rows s) i = Some row"
    and "\<And>p j r. at_peer row' p \<Longrightarrow> map_of (pg_rows s) j = Some r \<Longrightarrow> at_peer r p \<Longrightarrow> i = j"
  shows "pg_inv (s\<lparr>pg_rows := AList.update i row' (pg_rows s)\<rparr>)"
  using assms unfolding pg_inv_def by (auto split: if_splits)

lemma pg_Mark_inv [iolink_wf]: "pg_inv s \<Longrightarrow> pg_inv (snd (pg_MarkKeepalive e s i p t st))"
proof (cases "map_of (pg_rows s) i")
  case (Some row)
  assume inv: "pg_inv s"
  then have "pg_inv (s\<lparr>pg_rows := AList.update i (row_offline row) (pg_rows s)\<rparr>)"
    using Some by (rule pg_inv_update) simp
  moreover have "pg_inv (s\<lparr>pg_rows := AList.update i (row\<lparr>gr_last_keepalive := x\<rparr>) (pg_rows s)\<rparr>)" for x
    using inv Some
    by (rule pg_inv_update) (use inv Some in \<open>unfold pg_inv_def at_peer_frame, blast\<close>)
  ultimately show ?thesis using inv Some by (simp add: pg_MarkKeepalive_def)
qed (simp add: pg_MarkKeepalive_def)

text \<open>What a successful \<open>ApplyRegistration\<close> has checked and written.\<close>

lemma pg_Apply_ok:
  assumes "pg_ApplyRegistration e s r = (None, s')"
  obtains row where "map_of (pg_rows s) (rg_DeviceID r) = Some row" "gr_enabled row"
    "registration_args_ok r" "unregisters r" "at_peer row (rg_Peer r)"
    "s' = s\<lparr>pg_rows := AList.update (rg_DeviceID r)
       ((row_offline row)\<lparr>gr_registered_at := Some (pe_stored e (rg_RegisteredAt r))\<rparr>) (pg_rows s)\<rparr>"
  | row where "map_of (pg_rows s) (rg_DeviceID r) = Some row" "gr_enabled row"
    "registration_args_ok r" "\<not> unregisters r" "zone_free (ap_addr (pi_Addr (rg_Peer r)))"
    "\<And>i other. (i, other) \<in> set (pg_rows s) \<Longrightarrow> i \<noteq> rg_DeviceID r \<Longrightarrow> \<not> at_peer other (rg_Peer r)"
    "s' = s\<lparr>pg_rows := AList.update (rg_DeviceID r) (row_online e r row) (pg_rows s)\<rparr>"
  using assms
  by (auto simp: pg_ApplyRegistration_def Let_def list_ex_iff inet_def
      split: if_split_asm option.split_asm)

lemma pg_Apply_error: "pg_ApplyRegistration e s r = (Some x, s') \<Longrightarrow> s' = s"
  by (auto simp: pg_ApplyRegistration_def Let_def split: if_split_asm option.split_asm)

lemma pg_Mark_error: "pg_MarkKeepalive e s i p t st = (Some x, s') \<Longrightarrow> s' = s"
  by (auto simp: pg_MarkKeepalive_def split: if_split_asm option.split_asm)

lemma pg_Apply_inv [iolink_wf]:
  assumes "pg_inv s"
  shows "pg_inv (snd (pg_ApplyRegistration e s r))"
proof (cases "pg_ApplyRegistration e s r")
  case (Pair x s')
  show ?thesis
  proof (cases x)
    case None
    with Pair have "pg_ApplyRegistration e s r = (None, s')" by simp
    then have "pg_inv s'"
    proof (cases rule: pg_Apply_ok)
      case (1 row)
      then show ?thesis by (auto intro: pg_inv_update[OF assms 1(1)])
    next
      case (2 row)
      have "pg_inv (s\<lparr>pg_rows := AList.update (rg_DeviceID r) (row_online e r row) (pg_rows s)\<rparr>)"
        using assms 2(1)
        by (rule pg_inv_update) (metis 2(6) at_peer_online map_of_SomeD)
      with 2 show ?thesis by simp
    qed
    with Pair show ?thesis by simp
  next
    case (Some err)
    with Pair assms pg_Apply_error[of e s r err s'] show ?thesis by simp
  qed
qed

subsection \<open>The contract\<close>

lemma pg_LookupPeer_found:
  "pg_LookupPeer e s p = Inr r \<Longrightarrow> rg_Peer r = p"
  by (auto simp: pg_LookupPeer_def row_registration_def split: if_split_asm list.splits option.splits)

lemma distinct_singleton:
  assumes "distinct xs" and "set xs = {x}"
  shows "xs = [x]"
proof -
  have "length xs = 1" using assms distinct_card[of xs] by simp
  then obtain y where "xs = [y]" by (auto simp: length_Suc_conv)
  with assms(2) show ?thesis by simp
qed

lemma filter_unique:
  assumes "distinct (map fst m)" and "(k, v) \<in> set m" and "P (k, v)"
    and uniq: "\<And>k' v'. (k', v') \<in> set m \<Longrightarrow> P (k', v') \<Longrightarrow> k' = k"
  shows "filter P m = [(k, v)]"
proof (rule distinct_singleton)
  show "distinct (filter P m)" using assms(1) by (simp add: distinct_map)
  have "kv = (k, v)" if "kv \<in> set m" "P kv" for kv
  proof (cases kv)
    case (Pair k' v')
    with that uniq have "k' = k" by simp
    with that(1) assms(1,2) Pair show ?thesis by (simp add: eq_key_imp_eq_value)
  qed
  then have "set (filter P m) \<subseteq> {(k, v)}" by (simp add: subset_iff)
  with assms(2,3) show "set (filter P m) = {(k, v)}" by (intro subset_antisym) simp_all
qed

lemma row_identity_online:
  "peer_valid (rg_Peer r) \<Longrightarrow> row_identity (row_online e r row) = Some (rg_Peer r)"
  by (cases "rg_Peer r"; cases "pi_Addr (rg_Peer r)")
     (auto simp: row_identity_def row_online_def NewPeerIdentity_def)

lemma pg_Apply_found:
  assumes inv: "pg_inv s" and ok: "pg_ApplyRegistration e s r = (None, s')"
    and "rg_Status r = RegistrationOnline" and shown: "pg_shown e s' r"
  shows "pg_LookupPeer e s' (rg_Peer r) = Inr (pg_kept e r)"
  using ok
proof (cases rule: pg_Apply_ok)
  case (1 row)
  with assms(3) show ?thesis by (simp add: unregisters_def)
next
  case (2 row)
  let ?row = "row_online e r row" and ?p = "rg_Peer r"
  let ?P = "\<lambda>(_, row). gr_enabled row \<and> at_peer row ?p \<and> unexpired row (pg_clock s')"
  have inv': "pg_inv s'" using pg_Apply_inv[OF inv, of e r] ok by simp
  have new: "map_of (pg_rows s') (rg_DeviceID r) = Some ?row" using 2 by simp
  have at: "at_peer ?row ?p" by (simp add: at_peer_online)
  have "gr_enabled ?row" "unexpired ?row (pg_clock s')"
    using 2(2) shown by (simp_all add: pg_shown_def unexpired_def row_online_def)
  with at have P: "?P (rg_DeviceID r, ?row)" by simp
  have dist: "distinct (map fst (pg_rows s'))" using inv' by (simp add: pg_inv_def wf_map_def)
  have "k' = rg_DeviceID r" if "(k', v') \<in> set (pg_rows s')" "?P (k', v')" for k' v'
  proof -
    have "map_of (pg_rows s') k' = Some v'" using dist that(1) by simp
    with that(2) inv' new at show ?thesis unfolding pg_inv_def by blast
  qed
  then have f: "filter ?P (pg_rows s') = [(rg_DeviceID r, ?row)]"
    by (intro filter_unique[where P = ?P, OF dist map_of_SomeD[OF new] P])
  have "peer_valid ?p" using 2(3) by (simp add: registration_args_ok_def)
  then have "row_identity ?row = Some ?p" by (rule row_identity_online)
  moreover have "gr_registered_at ?row = Some (pe_stored e (rg_RegisteredAt r))"
    "gr_last_keepalive ?row = Some (pe_stored e (rg_LastSeenAt r))"
    "gr_registered_until ?row = Some (pe_stored e (rg_ExpiresAt r))"
    by (simp_all add: row_online_def)
  ultimately have "row_registration (rg_DeviceID r) ?row ?p = Inr (pg_kept e r)"
    using shown assms(3) by (simp add: row_registration_def pg_shown_def is_zero_iff pg_kept_def)
  moreover have "\<not> pg_fails s' 0" using shown by (simp add: pg_shown_def)
  ultimately show ?thesis
    using f 2(5) \<open>peer_valid ?p\<close> by (simp add: pg_LookupPeer_def inet_def)
qed

lemma pg_Lookup_update:
  assumes "map_of (pg_rows s) i = Some row"
    and "gr_id row' = gr_id row" "gr_tenant row' = gr_tenant row" "gr_version row' = gr_version row"
      "gr_cipher row' = gr_cipher row" "gr_realm row' = gr_realm row"
      "gr_enabled row' = gr_enabled row" "gr_peers row' = gr_peers row"
  shows "pg_LookupDevice e (s\<lparr>pg_rows := AList.update i row' (pg_rows s)\<rparr>) j = pg_LookupDevice e s j"
proof (cases "j = i")
  case True
  with assms show ?thesis by (simp add: pg_LookupDevice_def cong: if_cong option.case_cong)
qed (simp add: pg_LookupDevice_def)

lemma pg_Apply_devices:
  assumes "pg_ApplyRegistration e s r = (None, s')"
  shows "pg_LookupDevice e s' i = pg_LookupDevice e s i"
  using assms
proof (cases rule: pg_Apply_ok)
  case (1 row)
  then show ?thesis by (simp add: pg_Lookup_update row_offline_def)
next
  case (2 row)
  then show ?thesis by (simp add: pg_Lookup_update row_online_def)
qed

interpretation pg: device_store "pg_ops e" pg_inv "pg_shown e" "pg_kept e" for e
  by unfold_locales
     (auto simp: pg_ops_def pg_kept_def pg_Apply_found[unfolded pg_kept_def]
        intro: pg_Apply_inv pg_Mark_inv
        dest: pg_Apply_error pg_Mark_error pg_Apply_devices pg_LookupPeer_found)

end
