(* ===== verification/GB_Message.thy ===== *)
theory GB_Message
  imports GB_Register
begin

text \<open>
  \<open>internal/gb/message_xml.go\<close> and the message handlers of \<open>internal/gb/contracts.go\<close>:
  MANSCDP messages. \<open>encoding/xml\<close> is an argument of the model: the token stream of the strict
  decoder (with what ended it) and the decoded wire structure. The bound check over the tokens,
  the decimal parser, the validation of the wire structure and the handlers are the code's.
  \<open>strings.ToUpper\<close> is an argument too (it maps some non-ASCII letters to ASCII ones).
\<close>

record CatalogItem =
  ci_DeviceID :: string
  ci_Name :: string
  ci_Status :: string
  ci_Manufacturer :: string
  ci_Model :: string
  ci_Owner :: string
  ci_CivilCode :: string
  ci_Address :: string

record XMLMessage =
  xm_CmdType :: string
  xm_SN :: string
  xm_DeviceID :: string
  xm_Status :: string
  xm_SumNum :: int
  xm_Items :: "CatalogItem list"

record wireMessage =
  wm_XMLName :: string
  wm_CmdType :: string
  wm_SN :: string
  wm_DeviceID :: string
  wm_Status :: string
  wm_SumNum :: string
  wm_Num :: string
  wm_Items :: "CatalogItem list" \<comment> \<open>\<open>wireItem\<close> has the fields of \<open>CatalogItem\<close>\<close>

datatype xml_token = StartElement | EndElement | CharData string | Directive | OtherToken

record xml_env =
  xe_ToUpper :: "string \<Rightarrow> string"
  xe_tokens :: "string \<Rightarrow> xml_token list \<times> bool" \<comment> \<open>the tokens, and whether \<open>io.EOF\<close> ended them\<close>
  xe_Decode :: "string \<Rightarrow> wireMessage option"

subsection \<open>Decimals\<close>

definition validDecimal :: "string \<Rightarrow> nat \<Rightarrow> bool" where
  "validDecimal s m \<longleftrightarrow> \<not> (s = [] \<or> length s > m) \<and> range_all isDigitByte s"

fun decimal_loop :: "int \<Rightarrow> string \<Rightarrow> int option" where
  "decimal_loop value [] = Some value"
| "decimal_loop value (c # r) =
     (let digit = of_char c - 48 in
      if value > (int MaxCatalogItems - digit) div 10 then None
      else decimal_loop (value * 10 + digit) r)"

definition parseDecimal :: "string \<Rightarrow> int option" where
  "parseDecimal s = (if \<not> validDecimal s 10 then None else decimal_loop 0 s)"

text \<open>The value a string of digits denotes.\<close>

fun decimal_value :: "int \<Rightarrow> string \<Rightarrow> int" where
  "decimal_value v [] = v"
| "decimal_value v (c # r) = decimal_value (v * 10 + (of_char c - 48)) r"

lemma validDecimal_iff [iolink_simps]:
  "validDecimal s m \<longleftrightarrow> s \<noteq> [] \<and> length s \<le> m \<and> list_all isDigit s"
  by (auto simp: validDecimal_def range_all_digits)

lemma digit_bounds: "isDigit c \<Longrightarrow> 0 \<le> (of_char c - 48 :: int) \<and> (of_char c - 48 :: int) \<le> 9"
proof -
  assume "isDigit c"
  then have "48 \<le> (of_char c :: nat)" "(of_char c :: nat) \<le> 57"
    by (auto simp: isDigit_def Let_def)
  moreover have "(of_char c :: int) = int (of_char c)" by (simp only: of_nat_of_char)
  ultimately show ?thesis by linarith
qed

lemma decimal_value_mono: "list_all isDigit s \<Longrightarrow> 0 \<le> v \<Longrightarrow> v \<le> decimal_value v s"
proof (induction s arbitrary: v)
  case (Cons c r)
  have d: "0 \<le> (of_char c - 48 :: int)" using Cons.prems(1) digit_bounds[of c] by simp
  with Cons.prems(2) have "0 \<le> v * 10 + (of_char c - 48)" "v \<le> v * 10 + (of_char c - 48)" by linarith+
  with Cons.IH[OF _ this(1)] Cons.prems(1) show ?case by simp
qed simp

lemma decimal_loop_spec:
  "list_all isDigit s \<Longrightarrow> 0 \<le> v \<Longrightarrow> v \<le> 1000 \<Longrightarrow>
     decimal_loop v s = (if decimal_value v s \<le> 1000 then Some (decimal_value v s) else None)"
proof (induction s arbitrary: v)
  case (Cons c r)
  let ?d = "of_char c - 48 :: int"
  have d: "0 \<le> ?d" "?d \<le> 9" using Cons.prems(1) digit_bounds[of c] by auto
  have guard: "v > (1000 - ?d) div 10 \<longleftrightarrow> v * 10 + ?d > 1000" by linarith
  have n: "0 \<le> v * 10 + ?d" using d Cons.prems(2) by linarith
  show ?case
  proof (cases "v * 10 + ?d > 1000")
    case True
    have "v * 10 + ?d \<le> decimal_value (v * 10 + ?d) r"
      using decimal_value_mono[OF _ n] Cons.prems(1) by simp
    with True guard show ?thesis by (simp add: MaxCatalogItems_def Let_def)
  next
    case False
    with Cons.IH[OF _ n] Cons.prems(1) guard show ?thesis
      by (simp add: MaxCatalogItems_def Let_def)
  qed
qed simp

lemma parseDecimal_iff:
  "parseDecimal s = Some n \<longleftrightarrow>
     s \<noteq> [] \<and> length s \<le> 10 \<and> list_all isDigit s \<and> n = decimal_value 0 s \<and> n \<le> 1000"
  by (auto simp: parseDecimal_def validDecimal_iff decimal_loop_spec split: if_splits)

lemma parseDecimal_range: "parseDecimal s = Some n \<Longrightarrow> 0 \<le> n \<and> n \<le> 1000"
  using decimal_value_mono[of s 0] by (auto simp: parseDecimal_iff)

subsection \<open>Bounds on the document\<close>

definition xml_markers :: "string list" where
  "xml_markers = [''<!DOCTYPE'', ''<!ENTITY'', ''<!['']"

fun bounds_loop :: "int \<Rightarrow> nat \<Rightarrow> int \<Rightarrow> xml_token list \<Rightarrow> bool \<Rightarrow> gb_error option" where
  "bounds_loop depth textBytes roots [] eof =
     (if \<not> eof then Some GbXMLInvalid
      else if depth \<noteq> 0 \<or> roots \<noteq> 1 then Some GbXMLInvalid else None)"
| "bounds_loop depth textBytes roots (StartElement # r) eof =
     (let roots' = (if depth = 0 then roots + 1 else roots) in
      if depth = 0 \<and> roots' > 1 then Some GbXMLInvalid
      else if depth + 1 > MaxXMLDepth then Some GbXMLDepth
      else bounds_loop (depth + 1) textBytes roots' r eof)"
| "bounds_loop depth textBytes roots (EndElement # r) eof =
     (if depth - 1 < 0 then Some GbXMLInvalid
      else bounds_loop (depth - 1) textBytes roots r eof)"
| "bounds_loop depth textBytes roots (CharData t # r) eof =
     (if textBytes + length t > MaxXMLSize then Some GbXMLTooLarge
      else if depth = 0 \<and> length (trimSpace t) \<noteq> 0 then Some GbXMLInvalid
      else bounds_loop depth (textBytes + length t) roots r eof)"
| "bounds_loop depth textBytes roots (Directive # r) eof = Some GbXMLInvalid"
| "bounds_loop depth textBytes roots (OtherToken # r) eof = bounds_loop depth textBytes roots r eof"

definition xmlBounds :: "xml_env \<Rightarrow> string \<Rightarrow> gb_error option" where
  "xmlBounds e raw =
     (if list_ex (\<lambda>marker. strContains marker (xe_ToUpper e raw)) xml_markers then Some GbXMLInvalid
      else (case xe_tokens e raw of (ts, eof) \<Rightarrow> bounds_loop 0 0 0 ts eof))"

text \<open>The same bounds, said of the token sequence as a whole.\<close>

definition token_depth :: "xml_token list \<Rightarrow> int" where
  "token_depth ts = int (length (filter (\<lambda>t. t = StartElement) ts))
     - int (length (filter (\<lambda>t. t = EndElement) ts))"

fun token_text :: "xml_token \<Rightarrow> nat" where
  "token_text (CharData t) = length t"
| "token_text _ = 0"

fun blank_token :: "xml_token \<Rightarrow> bool" where
  "blank_token (CharData t) = (trimSpace t = [])"
| "blank_token _ = True"

definition bounded_tokens :: "int \<Rightarrow> nat \<Rightarrow> int \<Rightarrow> xml_token list \<Rightarrow> bool" where
  "bounded_tokens d tb roots ts \<longleftrightarrow>
     (\<forall>n < Suc (length ts). 0 \<le> d + token_depth (take n ts) \<and> d + token_depth (take n ts) \<le> 16) \<and>
     d + token_depth ts = 0 \<and> tb + sum_list (map token_text ts) \<le> 65536 \<and> Directive \<notin> set ts \<and>
     roots + int (length (filter (\<lambda>n. ts ! n = StartElement \<and> d + token_depth (take n ts) = 0)
                          [0..<length ts])) = 1 \<and>
     (\<forall>n < length ts. d + token_depth (take n ts) = 0 \<longrightarrow> blank_token (ts ! n))"

lemma token_depth_Cons:
  "token_depth [] = 0"
  "token_depth (t # ts) = (if t = StartElement then 1 else if t = EndElement then -1 else 0) + token_depth ts"
  by (simp_all add: token_depth_def)

lemma filter_upt_Suc:
  "length (filter P [0..<Suc n]) = (if P 0 then 1 else 0) + length (filter (\<lambda>i. P (Suc i)) [0..<n])"
proof -
  have "[0..<Suc n] = 0 # map Suc [0..<n]" by (simp add: map_Suc_upt upt_conv_Cons)
  then show ?thesis by (simp add: filter_map comp_def del: upt_Suc)
qed

definition token_step :: "xml_token \<Rightarrow> int" where
  "token_step t = (if t = StartElement then 1 else if t = EndElement then -1 else 0)"

lemma bounded_tokens_Cons:
  "bounded_tokens d tb roots (t # ts) \<longleftrightarrow>
     0 \<le> d \<and> d \<le> 16 \<and> t \<noteq> Directive \<and> (d = 0 \<longrightarrow> blank_token t) \<and>
     bounded_tokens (d + token_step t) (tb + token_text t)
       (roots + (if t = StartElement \<and> d = 0 then 1 else 0)) ts"
  by (auto simp: bounded_tokens_def All_less_Suc2 filter_upt_Suc token_depth_Cons token_step_def
      add.assoc simp del: upt_Suc)

lemma bounded_tokens_text: "bounded_tokens d tb roots ts \<Longrightarrow> tb \<le> 65536"
  by (simp add: bounded_tokens_def)

lemma bounded_tokens_roots: "bounded_tokens d tb roots ts \<Longrightarrow> roots \<le> 1"
  by (auto simp: bounded_tokens_def simp del: upt_Suc)

lemma bounded_tokens_depth: "bounded_tokens d tb roots ts \<Longrightarrow> 0 \<le> d \<and> d \<le> 16"
  by (auto simp: bounded_tokens_def All_less_Suc2 token_depth_Cons)

lemma bounds_loop_iff:
  "0 \<le> d \<Longrightarrow> d \<le> 16 \<Longrightarrow> tb \<le> 65536 \<Longrightarrow> roots \<le> 1 \<Longrightarrow>
     bounds_loop d tb roots ts eof = None \<longleftrightarrow> eof \<and> bounded_tokens d tb roots ts"
proof (induction d tb roots ts eof rule: bounds_loop.induct)
  case (1 d tb roots eof)
  then show ?case by (auto simp: bounded_tokens_def token_depth_Cons)
next
  case (2 d tb roots r eof)
  let ?roots = "if d = 0 then roots + 1 else roots"
  have "bounded_tokens (d + 1) tb ?roots r \<Longrightarrow> d + 1 \<le> 16 \<and> ?roots \<le> 1"
    using bounded_tokens_depth bounded_tokens_roots by blast
  with 2 show ?case
    by (auto simp: bounded_tokens_Cons token_step_def Let_def MaxXMLDepth_def)
next
  case (3 d tb roots r eof)
  have "bounded_tokens (d - 1) tb roots r \<Longrightarrow> 0 \<le> d - 1"
    using bounded_tokens_depth by blast
  with 3 show ?case by (auto simp: bounded_tokens_Cons token_step_def)
next
  case (4 d tb roots t r eof)
  have "bounded_tokens d (tb + length t) roots r \<Longrightarrow> tb + length t \<le> 65536"
    using bounded_tokens_text by blast
  with 4 show ?case by (auto simp: bounded_tokens_Cons token_step_def MaxXMLSize_def)
next
  case (5 d tb roots r eof)
  then show ?case by (simp add: bounded_tokens_Cons)
next
  case (6 d tb roots r eof)
  then show ?case by (simp add: bounded_tokens_Cons token_step_def)
qed

subsection \<open>The message\<close>

definition item_ok :: "CatalogItem \<Rightarrow> bool" where
  "item_ok i \<longleftrightarrow> gb_validDeviceID (ci_DeviceID i) \<and> gb_validText (ci_Name i) 256 \<and>
     (ci_Status i = ''ON'' \<or> ci_Status i = ''OFF'')"

text \<open>The loop that copies the items and stops at the first bad one.\<close>

fun copy_items :: "CatalogItem list \<Rightarrow> CatalogItem list \<Rightarrow> CatalogItem list option" where
  "copy_items acc [] = Some acc"
| "copy_items acc (i # r) = (if \<not> item_ok i then None else copy_items (acc @ [i]) r)"

lemma copy_items_iff: "copy_items acc l = (if list_all item_ok l then Some (acc @ l) else None)"
  by (induction acc l rule: copy_items.induct) auto

definition validateWire :: "wireMessage \<Rightarrow> string \<Rightarrow> XMLMessage option" where
  "validateWire wire expectedDevice =
     (if wm_XMLName wire \<noteq> ''Notify'' \<and> wm_XMLName wire \<noteq> ''Response'' then None
      else if wm_CmdType wire \<noteq> ''Keepalive'' \<and> wm_CmdType wire \<noteq> ''Catalog'' then None
      else if \<not> gb_validText (wm_CmdType wire) 32 \<or> \<not> validDecimal (wm_SN wire) 64 \<or>
              \<not> gb_validDeviceID (wm_DeviceID wire) \<or>
              (expectedDevice \<noteq> [] \<and> wm_DeviceID wire \<noteq> expectedDevice) then None
      else (let msg = \<lparr>xm_CmdType = wm_CmdType wire, xm_SN = wm_SN wire,
                       xm_DeviceID = wm_DeviceID wire, xm_Status = wm_Status wire,
                       xm_SumNum = 0, xm_Items = []\<rparr> in
        if wm_CmdType wire = ''Keepalive'' then
          (if wm_Status wire \<noteq> ''OK'' \<and> wm_Status wire \<noteq> ''ERROR'' then None else Some msg)
        else if wm_SumNum wire = [] \<or> length (wm_Items wire) > MaxCatalogItems then None
        else (case (parseDecimal (wm_SumNum wire), parseDecimal (wm_Num wire)) of
          (Some sumNum, Some num) \<Rightarrow>
            (if sumNum > int MaxCatalogItems \<or> num \<noteq> int (length (wm_Items wire)) \<or> sumNum < num \<or>
                (sumNum > 0 \<and> num = 0) then None
             else map_option (\<lambda>items. msg\<lparr>xm_SumNum := sumNum, xm_Items := items\<rparr>)
                    (copy_items [] (wm_Items wire)))
        | _ \<Rightarrow> None)))"

definition ParseMessageXML :: "xml_env \<Rightarrow> string \<Rightarrow> string \<Rightarrow> (gb_error, XMLMessage) result" where
  "ParseMessageXML e raw expectedDevice =
     (if length raw = 0 \<or> length raw > MaxXMLSize then
        (if length raw > MaxXMLSize then Inl GbXMLTooLarge else Inl GbXMLInvalid)
      else (case xmlBounds e raw of
        Some err \<Rightarrow> Inl err
      | None \<Rightarrow>
          (case xe_Decode e raw of
             None \<Rightarrow> Inl GbXMLInvalid
           | Some wire \<Rightarrow>
               (case validateWire wire expectedDevice of
                  None \<Rightarrow> Inl GbXMLInvalid
                | Some msg \<Rightarrow> Inr msg))))"

subsection \<open>Handlers\<close>

record MessageResult =
  mr_Message :: XMLMessage
  mr_Status :: RegistrationStatus

definition HandleMessage ::
  "('d, 'n) gb_env \<Rightarrow> xml_env \<Rightarrow> ('d, 'n) gb_service \<Rightarrow> time \<Rightarrow> PeerIdentity \<Rightarrow> string \<Rightarrow>
   (gb_error, MessageResult) result \<times> ('d, 'n) gb_service" where
  "HandleMessage env xe sv now source raw =
     (if \<not> peer_valid source then (Inl GbInvalidRequest, sv)
      else (case ParseMessageXML xe raw [] of
        Inl err \<Rightarrow> (Inl err, sv)
      | Inr message \<Rightarrow>
          (case ds_LookupDevice (ge_devices env) (sv_Devices sv) (xm_DeviceID message) of
            Inl _ \<Rightarrow> (Inl GbUnknownDevice, sv)
          | Inr device \<Rightarrow>
              if \<not> AllowsPeer device (ap_addr (pi_Addr source)) then (Inl GbPeerNotAllowed, sv)
              else (case ds_LookupPeer (ge_devices env) (sv_Devices sv) source of
                Inl _ \<Rightarrow> (Inl GbUnknownDevice, sv)
              | Inr registration \<Rightarrow>
                  if rg_DeviceID registration \<noteq> xm_DeviceID message \<or> rg_Peer registration \<noteq> source
                  then (Inl GbUnknownDevice, sv)
                  else if StatusAt registration now \<noteq> RegistrationOnline then (Inl GbUnknownDevice, sv)
                  else if xm_CmdType message = ''Keepalive'' then
                    (let (err, d) = ds_MarkKeepalive (ge_devices env) (sv_Devices sv)
                           (xm_DeviceID message) source now (xm_Status message);
                         sv = sv\<lparr>sv_Devices := d\<rparr>
                     in if err \<noteq> None then (Inl GbUnknownDevice, sv)
                        else (Inr \<lparr>mr_Message = message,
                                 mr_Status = (if xm_Status message = ''OK'' then RegistrationOnline
                                              else RegistrationOffline)\<rparr>, sv))
                  else (Inr \<lparr>mr_Message = message, mr_Status = StatusAt registration now\<rparr>, sv)))))"

definition HandleSIPMessage ::
  "('d, 'n) gb_env \<Rightarrow> xml_env \<Rightarrow> ('d, 'n) gb_service \<Rightarrow> time \<Rightarrow> string \<Rightarrow> PeerIdentity \<Rightarrow> string \<Rightarrow>
   (gb_error, MessageResult) result \<times> ('d, 'n) gb_service" where
  "HandleSIPMessage env xe sv now meth source raw =
     (if meth \<noteq> ''MESSAGE'' then (Inl GbInvalidRequest, sv)
      else if length raw > MaxSIPMessageSize then (Inl GbXMLTooLarge, sv)
      else HandleMessage env xe sv now source raw)"

subsection \<open>What an accepted message is\<close>

definition message_ok :: "XMLMessage \<Rightarrow> bool" where
  "message_ok m \<longleftrightarrow> gb_validDeviceID (xm_DeviceID m) \<and> validDecimal (xm_SN m) 64 \<and>
     (xm_CmdType m = ''Keepalive'' \<and> (xm_Status m = ''OK'' \<or> xm_Status m = ''ERROR'') \<and>
        xm_SumNum m = 0 \<and> xm_Items m = [] \<or>
      xm_CmdType m = ''Catalog'' \<and> xm_SumNum m \<le> 1000 \<and> int (length (xm_Items m)) \<le> xm_SumNum m \<and>
        (xm_SumNum m > 0 \<longrightarrow> xm_Items m \<noteq> []) \<and> list_all item_ok (xm_Items m))"

lemma validateWire_ok:
  assumes "validateWire w expected = Some m"
  shows "message_ok m \<and> (expected = [] \<or> xm_DeviceID m = expected)"
proof (cases "wm_CmdType w = ''Keepalive''")
  case True
  with assms show ?thesis by (auto simp: validateWire_def message_ok_def split: if_splits)
next
  case False
  with assms obtain total num where
    "parseDecimal (wm_SumNum w) = Some total" "num = int (length (wm_Items w))"
    "\<not> total < num" "\<not> (total > 0 \<and> num = 0)" "list_all item_ok (wm_Items w)"
    "m = \<lparr>xm_CmdType = ''Catalog'', xm_SN = wm_SN w, xm_DeviceID = wm_DeviceID w,
         xm_Status = wm_Status w, xm_SumNum = total, xm_Items = wm_Items w\<rparr>"
    "gb_validDeviceID (wm_DeviceID w)" "validDecimal (wm_SN w) 64"
    "expected = [] \<or> wm_DeviceID w = expected"
    by (auto simp: validateWire_def Let_def copy_items_iff split: if_split_asm option.split_asm)
  with parseDecimal_range[of "wm_SumNum w" total] show ?thesis by (auto simp: message_ok_def)
qed

lemma ParseMessageXML_ok:
  assumes "ParseMessageXML xe raw expected = Inr m"
  shows "message_ok m \<and> (expected = [] \<or> xm_DeviceID m = expected) \<and> length raw \<le> MaxXMLSize \<and>
    \<not> list_ex (\<lambda>marker. strContains marker (xe_ToUpper xe raw)) xml_markers \<and>
    snd (xe_tokens xe raw) \<and> bounded_tokens 0 0 0 (fst (xe_tokens xe raw))"
proof -
  from assms have "length raw \<le> MaxXMLSize" and b: "xmlBounds xe raw = None"
    and "\<exists>w. validateWire w expected = Some m"
    by (auto simp: ParseMessageXML_def split: if_split_asm option.split_asm)
  moreover from b have "bounds_loop 0 0 0 (fst (xe_tokens xe raw)) (snd (xe_tokens xe raw)) = None"
    "\<not> list_ex (\<lambda>marker. strContains marker (xe_ToUpper xe raw)) xml_markers"
    by (auto simp: xmlBounds_def split: if_split_asm prod.split_asm)
  ultimately show ?thesis using validateWire_ok by (auto simp: bounds_loop_iff)
qed

lemma HandleMessage_Inr:
  assumes "HandleMessage env xe sv now source raw = (Inr res, sv')"
  obtains device registration where "peer_valid source"
    "ParseMessageXML xe raw [] = Inr (mr_Message res)"
    "ds_LookupDevice (ge_devices env) (sv_Devices sv) (xm_DeviceID (mr_Message res)) = Inr device"
    "AllowsPeer device (ap_addr (pi_Addr source))"
    "ds_LookupPeer (ge_devices env) (sv_Devices sv) source = Inr registration"
    "rg_DeviceID registration = xm_DeviceID (mr_Message res)" "rg_Peer registration = source"
    "StatusAt registration now = RegistrationOnline"
    "xm_CmdType (mr_Message res) = ''Keepalive'' \<and>
       ds_MarkKeepalive (ge_devices env) (sv_Devices sv) (xm_DeviceID (mr_Message res)) source now
         (xm_Status (mr_Message res)) = (None, sv_Devices sv') \<and>
       (mr_Status res = RegistrationOnline \<longleftrightarrow> xm_Status (mr_Message res) = ''OK'') \<or>
     xm_CmdType (mr_Message res) \<noteq> ''Keepalive'' \<and> sv' = sv \<and> mr_Status res = RegistrationOnline"
  using assms
  by (auto simp: HandleMessage_def Let_def split: if_split_asm sum.split_asm prod.split_asm)

subsection \<open>Properties\<close>

text \<open>C5: a message that is handled without an error came from the peer the device is registered
at: the raw document is at most 64 KiB, its tokens are balanced with a single root, at most 16
levels deep, without directives and with at most 64 KiB of text; the message is well formed (a
catalog page has between 1 and SumNum items, SumNum is at most 1000, every item is valid); the
device admits the address and its registration at this very peer is online at the handler's
clock; a keepalive has been recorded in the store, anything else has changed nothing.\<close>

theorem message_only_from_registered_peer:
  assumes "HandleMessage env xe sv now source raw = (Inr res, sv')"
  shows "message_ok (mr_Message res) \<and> length raw \<le> MaxXMLSize \<and>
    snd (xe_tokens xe raw) \<and> bounded_tokens 0 0 0 (fst (xe_tokens xe raw)) \<and>
    (\<exists>device registration.
       ds_LookupDevice (ge_devices env) (sv_Devices sv) (xm_DeviceID (mr_Message res)) = Inr device \<and>
       AllowsPeer device (ap_addr (pi_Addr source)) \<and>
       ds_LookupPeer (ge_devices env) (sv_Devices sv) source = Inr registration \<and>
       rg_DeviceID registration = xm_DeviceID (mr_Message res) \<and> rg_Peer registration = source \<and>
       now < rg_ExpiresAt registration \<and> now - rg_LastSeenAt registration < 180 * second) \<and>
    (if xm_CmdType (mr_Message res) = ''Keepalive''
     then ds_MarkKeepalive (ge_devices env) (sv_Devices sv) (xm_DeviceID (mr_Message res)) source now
            (xm_Status (mr_Message res)) = (None, sv_Devices sv')
     else sv' = sv)"
  using assms
proof (rule HandleMessage_Inr)
  fix device registration
  assume *: "ParseMessageXML xe raw [] = Inr (mr_Message res)"
    "ds_LookupDevice (ge_devices env) (sv_Devices sv) (xm_DeviceID (mr_Message res)) = Inr device"
    "AllowsPeer device (ap_addr (pi_Addr source))"
    "ds_LookupPeer (ge_devices env) (sv_Devices sv) source = Inr registration"
    "rg_DeviceID registration = xm_DeviceID (mr_Message res)" "rg_Peer registration = source"
    "StatusAt registration now = RegistrationOnline"
    and kind: "xm_CmdType (mr_Message res) = ''Keepalive'' \<and>
       ds_MarkKeepalive (ge_devices env) (sv_Devices sv) (xm_DeviceID (mr_Message res)) source now
         (xm_Status (mr_Message res)) = (None, sv_Devices sv') \<and>
       (mr_Status res = RegistrationOnline \<longleftrightarrow> xm_Status (mr_Message res) = ''OK'') \<or>
     xm_CmdType (mr_Message res) \<noteq> ''Keepalive'' \<and> sv' = sv \<and> mr_Status res = RegistrationOnline"
  have "now < rg_ExpiresAt registration" "now - rg_LastSeenAt registration < 180 * second"
    using *(7) time_sub_ge_iff[of "KeepaliveMissLimit * KeepalivePeriod" now "rg_LastSeenAt registration"]
    by (auto simp: StatusAt_def KeepaliveMissLimit_def KeepalivePeriod_def second_def
        min_duration_def max_duration_def split: if_split_asm)
  with * kind ParseMessageXML_ok[OF *(1)] show ?thesis by auto
qed

end
