(* ===== verification/GB_Service.thy ===== *)
theory GB_Service
  imports GB_Store GB_Message
begin

text \<open>
  The GB28181 service put together: the registration and message handlers over the two store
  contracts, interpreted on the in-memory nonce store and the PostgreSQL device store that the
  program wires in. The locale states what holds over any stores that keep the contracts.
\<close>

locale gb_registration =
  nonces: nonce_store nops live ninv rnd_ok + devices: device_store dops dinv shown kept
  for nops :: "'n nonce_ops" and live ninv rnd_ok
    and dops :: "'d device_ops" and dinv shown kept +
  fixes env :: "('d, 'n) gb_env"
  assumes wired: "ge_nonces env = nops" "ge_devices env = dops"
begin

text \<open>Errors leave the device store alone.\<close>

lemma register_error_devices:
  assumes "HandleRegister env sv clk req = (Inl e, sv')"
  shows "sv_Devices sv' = sv_Devices sv"
  using assms
proof (cases rule: HandleRegister_cases)
  case (fresh sv0)
  then have "sv_Devices sv0 = sv_Devices sv" by (auto dest: transaction_frame)
  with registerFresh_Inl[OF fresh(3)] devices.apply_error wired(2) show ?thesis by metis
qed simp_all

text \<open>The nonce store after a REGISTER is the one after at most one \<open>Consume\<close>.\<close>

lemma finishRegister_nonces: "sv_Nonces (snd (finishRegister env sv now req reg)) = sv_Nonces sv"
  by (auto simp: finishRegister_def applyRegistration_def Let_def
      split: prod.split option.split sum.split)

lemma registerFresh_nonces:
  "sv_Nonces (snd (registerFresh env sv clk req)) = sv_Nonces sv \<or>
   (\<exists>n. sv_Nonces (snd (registerFresh env sv clk req)) = snd (ns_Consume nops (sv_Nonces sv) n (clk 1)))"
proof -
  have w: "sv_Nonces (snd (registerWithNonce env s clk req device a rec)) = sv_Nonces s" for s device a rec
    by (simp add: registerWithNonce_def finishRegister_nonces split: sum.split)
  show ?thesis
    by (auto simp: registerFresh_def wired(1) w split: sum.split option.split prod.split)
       (metis snd_conv)+
qed

lemma register_nonces:
  "sv_Nonces (snd (HandleRegister env sv clk req)) = sv_Nonces sv \<or>
   (\<exists>n. sv_Nonces (snd (HandleRegister env sv clk req)) = snd (ns_Consume nops (sv_Nonces sv) n (clk 1)))"
proof (cases "HandleRegister env sv clk req")
  case (Pair r sv')
  from Pair show ?thesis
  proof (cases rule: HandleRegister_cases)
    case (cached res)
    with Pair show ?thesis by (auto dest: transaction_frame)
  next
    case (fresh sv0)
    then have "sv_Nonces sv0 = sv_Nonces sv" by (auto dest: transaction_frame)
    with registerFresh_nonces[of sv0 clk req] fresh(3) Pair show ?thesis by simp
  qed (use Pair in simp)
qed

lemma challenge_nonces:
  "sv_Nonces (snd (Challenge env sv rnd clk req)) = sv_Nonces sv \<or>
   (\<exists>rec. sv_Nonces (snd (Challenge env sv rnd clk req)) = snd (ns_Issue nops (sv_Nonces sv) rnd rec))"
  by (auto simp: Challenge_def Let_def wired(1) split: sum.split prod.split) (metis snd_conv)+

text \<open>A nonce that is not live stays so while no challenge issues it, and is refused.\<close>

definition never_issues :: "string \<Rightarrow> gb_call \<Rightarrow> bool" where
  "never_issues n c \<longleftrightarrow> (case c of
     CallChallenge rnd _ _ \<Rightarrow> rnd_ok rnd \<and> (\<forall>s rec. fst (ns_Issue nops s rnd rec) \<noteq> Inr n)
   | CallRegister _ _ \<Rightarrow> True)"

lemma dead_step:
  assumes "ninv (sv_Nonces sv)" and "live (sv_Nonces sv) n = None" and "never_issues n c"
  shows "ninv (sv_Nonces (gb_step env c sv)) \<and> live (sv_Nonces (gb_step env c sv)) n = None"
proof (cases c)
  case (CallChallenge rnd clk req)
  with assms(3) have r: "rnd_ok rnd" "\<And>s rec. fst (ns_Issue nops s rnd rec) \<noteq> Inr n"
    by (simp_all add: never_issues_def)
  from challenge_nonces[of sv rnd clk req] show ?thesis
  proof
    assume "\<exists>rec. sv_Nonces (snd (Challenge env sv rnd clk req)) = snd (ns_Issue nops (sv_Nonces sv) rnd rec)"
    then obtain rec where
      "sv_Nonces (gb_step env c sv) = snd (ns_Issue nops (sv_Nonces sv) rnd rec)"
      using CallChallenge by auto
    with assms(1,2) r show ?thesis
      by (simp add: nonces.issue_inv nonces.dead_stays_dead_issue)
  qed (use CallChallenge assms in simp)
next
  case (CallRegister clk req)
  from register_nonces[of sv clk req] show ?thesis
  proof
    assume "\<exists>m. sv_Nonces (snd (HandleRegister env sv clk req)) =
      snd (ns_Consume nops (sv_Nonces sv) m (clk 1))"
    with CallRegister assms(1,2) show ?thesis
      by (auto intro: nonces.consume_inv nonces.dead_stays_dead_consume)
  qed (use CallRegister assms in simp)
qed

lemma dead_run:
  "ninv (sv_Nonces sv) \<Longrightarrow> live (sv_Nonces sv) n = None \<Longrightarrow> list_all (never_issues n) cs \<Longrightarrow>
   ninv (sv_Nonces (fold (gb_step env) cs sv)) \<and> live (sv_Nonces (fold (gb_step env) cs sv)) n = None"
  by (induction cs arbitrary: sv) (auto simp: dead_step)

lemma fresh_spends:
  assumes "ninv (sv_Nonces sv)" and "registerFresh env sv clk req = (Inr res, sv')"
    and "rq_Authorization req = Some a"
  shows "ninv (sv_Nonces sv') \<and> live (sv_Nonces sv) (da_Nonce a) \<noteq> None \<and>
    live (sv_Nonces sv') (da_Nonce a) = None"
  using assms(2)
proof (rule registerFresh_Inr)
  fix device a' rec n
  assume a': "rq_Authorization req = Some a'"
    and c: "ns_Consume (ge_nonces env) (sv_Nonces sv) (da_Nonce a') (clk 1) = (Inr rec, n)"
    and w: "registerWithNonce env (sv\<lparr>sv_Nonces := n\<rparr>) clk req device a' rec = (Inr res, sv')"
  from finishRegister_Inr registerWithNonce_Inr[OF w] have "sv_Nonces sv' = n"
    by (metis (no_types, lifting) gb_service.select_convs(2) gb_service.surjective
        gb_service.update_convs(2))
  with c a' assms(1,3) wired(1) nonces.consume_live[OF assms(1)] nonces.consume_spends[OF assms(1)]
    nonces.consume_inv[OF assms(1), of "da_Nonce a'" "clk 1"]
  show ?thesis by fastforce
qed

end

subsection \<open>The stores the program wires in\<close>

definition wired_env :: "pg_env \<Rightarrow> (string \<Rightarrow> string) \<Rightarrow> (addrport \<Rightarrow> string) \<Rightarrow> (gb_pg, nonce_mem) gb_env" where
  "wired_env e md5 addr =
     \<lparr>ge_devices = pg_ops e, ge_nonces = nm_ops, ge_md5 = md5, ge_addr = addr\<rparr>"

interpretation wired: gb_registration nm_ops nm_live nm_inv rand_ok "pg_ops e" pg_inv "pg_shown e"
  "pg_kept e" "wired_env e md5 addr" for e md5 addr
  by unfold_locales (simp_all add: wired_env_def)

definition fresh_nonce :: "string \<Rightarrow> gb_call \<Rightarrow> bool" where
  "fresh_nonce n c \<longleftrightarrow> (case c of
     CallChallenge rnd _ _ \<Rightarrow> (case rnd of None \<Rightarrow> True | Some b \<Rightarrow> length b = 24 \<and> nonce_of_bytes b \<noteq> n)
   | CallRegister _ _ \<Rightarrow> True)"

lemma Issue_nonce: "fst (ns_Issue nm_ops s rnd rec) = Inr n \<Longrightarrow> \<exists>b. rnd = Some b \<and> nonce_of_bytes b = n"
  by (auto simp: nm_ops_def Issue_def Let_def split: if_split_asm option.split_asm prod.split_asm bool.split_asm)

lemma fresh_nonce_never_issues: "fresh_nonce n c \<Longrightarrow> wired.never_issues n c"
  by (cases c)
     (auto simp: fresh_nonce_def wired.never_issues_def rand_ok_def dest: Issue_nonce split: option.splits)

text \<open>Instants are stored in microseconds, rounded down.\<close>

definition pg_precision :: "pg_env \<Rightarrow> bool" where
  "pg_precision e \<longleftrightarrow> (\<forall>t. pe_stored e t \<le> t \<and> t < pe_stored e t + 1000)"

lemma pg_Mark_OK:
  assumes "map_of (pg_rows s) i = Some row" and "gr_enabled row" and "at_peer row p"
    and "unexpired row (pg_clock s)" and "\<And>n. \<not> pg_fails s n" and "zone_free (ap_addr (pi_Addr p))"
    and "pg_validDeviceID i" and "peer_valid p" and "now \<noteq> 0"
  shows "pg_MarkKeepalive e s i p now ''OK'' =
    (None, s\<lparr>pg_rows := AList.update i (row\<lparr>gr_last_keepalive := Some (pe_stored e now)\<rparr>) (pg_rows s)\<rparr>)"
  using assms by (simp add: pg_MarkKeepalive_def inet_def is_zero_iff)

lemma online_StatusAt:
  assumes "rg_Status r = RegistrationOnline" and "0 < now" and "now < rg_ExpiresAt r"
    and "rg_LastSeenAt r \<noteq> 0" and "now - rg_LastSeenAt r < 180 * second"
  shows "StatusAt r now = RegistrationOnline"
  using assms time_sub_ge_iff[of "KeepaliveMissLimit * KeepalivePeriod" now "rg_LastSeenAt r"]
  by (simp add: StatusAt_def is_zero_iff KeepaliveMissLimit_def KeepalivePeriod_def second_def
      min_duration_def max_duration_def)

subsection \<open>Properties\<close>

text \<open>C3: with the in-memory nonce store and the PostgreSQL device store, an authorization is good
for one registration: once a REGISTER has succeeded with a nonce, no later REGISTER with that
nonce passes the checks again, whatever calls come in between, as long as the random source does
not produce that nonce again; only the retransmission cache may answer it.\<close>

theorem authorization_single_use:
  assumes "nm_inv (sv_Nonces sv)"
    and "registerFresh (wired_env e md5 addr) sv clk req = (Inr res, sv')"
    and "rq_Authorization req = Some a"
    and "list_all (fresh_nonce (da_Nonce a)) cs"
    and "rq_Authorization req' = Some a'" and "da_Nonce a' = da_Nonce a"
  shows "\<exists>err. fst (registerFresh (wired_env e md5 addr)
           (fold (gb_step (wired_env e md5 addr)) cs sv') clk' req') = Inl err"
proof -
  let ?env = "wired_env e md5 addr" and ?sv = "fold (gb_step (wired_env e md5 addr)) cs sv'"
  have spent: "nm_inv (sv_Nonces sv')" "nm_live (sv_Nonces sv') (da_Nonce a) = None"
    using wired.fresh_spends[OF assms(1-3)] by simp_all
  have "list_all (wired.never_issues (da_Nonce a)) cs"
    using assms(4) fresh_nonce_never_issues by (auto simp: list_all_iff)
  from wired.dead_run[OF spent this]
  have dead: "nm_inv (sv_Nonces ?sv)" "nm_live (sv_Nonces ?sv) (da_Nonce a') = None"
    using assms(6) by auto
  show ?thesis
  proof (cases "registerFresh ?env ?sv clk' req'")
    case (Pair r sv2)
    show ?thesis
    proof (cases r)
      case (Inr res2)
      with Pair wired.fresh_spends[OF dead(1) _ assms(5)] dead(2) show ?thesis by blast
    qed (use Pair in simp)
  qed
qed

text \<open>a REGISTER that is refused, for whatever reason, leaves the device table as it was.\<close>

theorem register_error_keeps_devices:
  assumes "HandleRegister (wired_env e md5 addr) sv clk req = (Inl err, sv')"
  shows "sv_Devices sv' = sv_Devices sv"
  using assms by (rule wired.register_error_devices)

text \<open>C4: a device that has just registered is heard: in the 59 seconds after a successful REGISTER
(by the service's clock and the database's), while the database answers, a well formed keepalive
from the registered peer is accepted as online and recorded.\<close>

theorem register_then_keepalive:
  assumes inv: "pg_inv (sv_Devices sv)" and prec: "pg_precision e"
    and fresh: "registerFresh (wired_env e md5 addr) sv clk req = (Inr res, sv')"
    and "rq_Expires req \<noteq> 0"
    and t: "second < clk 3" "clk 3 \<le> now" "now < clk 3 + 59 * second"
      "pg_clock (sv_Devices sv) < clk 3 + 59 * second"
    and up: "\<And>n. \<not> pg_fails (sv_Devices sv) n"
    and m: "ParseMessageXML xe raw [] = Inr m" "xm_CmdType m = ''Keepalive''" "xm_Status m = ''OK''"
      "xm_DeviceID m = rq_DeviceID req"
  shows "\<exists>sv'' row. HandleMessage (wired_env e md5 addr) xe sv' now (rq_Source req) raw =
      (Inr \<lparr>mr_Message = m, mr_Status = RegistrationOnline\<rparr>, sv'') \<and>
    map_of (pg_rows (sv_Devices sv'')) (rq_DeviceID req) = Some row \<and> at_peer row (rq_Source req) \<and>
    gr_last_keepalive row = Some (pe_stored e now)"
  using fresh
proof (rule registerFresh_Inr)
  let ?reg = "onlineRegistration req (clk 3) (rq_Expires req * second)"
  let ?d = "sv_Devices sv'" and ?p = "rq_Source req" and ?i = "rq_DeviceID req"
  fix device a rec n
  assume dev: "ds_LookupDevice (ge_devices (wired_env e md5 addr)) (sv_Devices sv) ?i = Inr device"
    "device_admits device req"
    and w: "registerWithNonce (wired_env e md5 addr) (sv\<lparr>sv_Nonces := n\<rparr>) clk req device a rec = (Inr res, sv')"
  note w' = registerWithNonce_Inr[OF w]
  then have ap: "pg_ApplyRegistration e (sv_Devices sv) ?reg = (None, ?d)"
    using finishRegister_Inr[of "wired_env e md5 addr" "sv\<lparr>sv_Nonces := n\<rparr>" "clk 4" req
        "registration_of req (clk 3)" res sv'] assms(4)
    by (simp add: registration_of_def wired_env_def pg_ops_def)
  have ttl: "60 \<le> rq_Expires req" using w' assms(4) by simp
  have st: "pe_stored e (clk 3) \<le> clk 3" "clk 3 < pe_stored e (clk 3) + 1000"
    using prec unfolding pg_precision_def by blast+
  have "clk 3 + rq_Expires req * second < pe_stored e (clk 3 + rq_Expires req * second) + 1000"
    using prec unfolding pg_precision_def by blast
  with ttl have st2: "clk 3 + 60 * second - 1000 < pe_stored e (clk 3 + rq_Expires req * second)"
    unfolding second_def by linarith
  have sel [simp]: "rg_DeviceID ?reg = ?i" "rg_Peer ?reg = ?p" "rg_Status ?reg = RegistrationOnline"
    "rg_RegisteredAt ?reg = clk 3" "rg_LastSeenAt ?reg = clk 3"
    "rg_ExpiresAt ?reg = clk 3 + rq_Expires req * second"
    by (simp_all add: onlineRegistration_def)
  obtain row where row: "map_of (pg_rows (sv_Devices sv)) ?i = Some row" "gr_enabled row"
    "registration_args_ok ?reg" "zone_free (ap_addr (pi_Addr ?p))"
    "?d = sv_Devices sv\<lparr>pg_rows := AList.update ?i (row_online e ?reg row) (pg_rows (sv_Devices sv))\<rparr>"
    using ap by (cases rule: pg_Apply_ok) (auto simp: unregisters_def)
  have shown: "pg_shown e ?d ?reg"
    using up st st2 t row(5) by (simp add: pg_shown_def second_def onlineRegistration_def)
  have look: "pg_LookupPeer e ?d ?p = Inr (pg_kept e ?reg)"
    using pg_Apply_found[OF inv ap _ shown] by simp
  have dev': "pg_LookupDevice e ?d ?i = Inr device"
    using dev(1) pg_Apply_devices[OF ap] by (simp add: wired_env_def pg_ops_def)
  have allow: "AllowsPeer device (ap_addr (pi_Addr ?p))" using dev(2) by (simp add: device_admits_def)
  have status: "StatusAt (pg_kept e ?reg) now = RegistrationOnline"
    using st st2 t by (intro online_StatusAt) (simp_all add: pg_kept_def second_def onlineRegistration_def)
  have online: "gr_enabled (row_online e ?reg row)" "at_peer (row_online e ?reg row) ?p"
    "unexpired (row_online e ?reg row) (pg_clock ?d)"
    using row(2,5) shown at_peer_online[of e ?reg row ?p]
    by (simp_all add: pg_shown_def unexpired_def) (simp_all add: row_online_def)
  have valid: "peer_valid ?p" "pg_validDeviceID ?i" using row(3) by (simp_all add: registration_args_ok_def)
  have mark: "pg_MarkKeepalive e ?d ?i ?p now ''OK'' = (None, ?d\<lparr>pg_rows := AList.update ?i
      ((row_online e ?reg row)\<lparr>gr_last_keepalive := Some (pe_stored e now)\<rparr>) (pg_rows ?d)\<rparr>)"
    using online row(4,5) up valid t by (intro pg_Mark_OK) (simp_all add: second_def)
  show ?thesis
    using mark m look dev' allow status valid(1) online(2)
    by (simp add: HandleMessage_def wired_env_def pg_ops_def pg_kept_def)
qed

subsection \<open>An exchange\<close>

text \<open>
  One device in the table, one challenge, one REGISTER and one keepalive: the inputs at which
  the properties of the registration service are applied.
\<close>

definition ex_device :: string where "ex_device = ''34020000001320000001''"

definition ex_row :: gb_row where
  "ex_row = \<lparr>gr_id = 7, gr_tenant = 1, gr_version = 1, gr_cipher = ''sealed'', gr_realm = ''3402000000'',
     gr_enabled = True, gr_peers = [''10.0.0.0/8''], gr_registered = False, gr_registered_at = None,
     gr_registered_until = None, gr_last_keepalive = None, gr_addr = None, gr_port = None,
     gr_transport = None\<rparr>"

definition ex_pg :: gb_pg where
  "ex_pg = \<lparr>pg_rows = [(ex_device, ex_row)], pg_clock = 5000 * second, pg_fails = (\<lambda>_. False)\<rparr>"

definition ex_pg_env :: pg_env where
  "ex_pg_env = \<lparr>pe_Open = (\<lambda>t i v c. if c = ''sealed'' then Some ''secret'' else None),
     pe_ParsePrefix = (\<lambda>s. if s = ''10.0.0.0/8'' then P4 167772160 8 else NoPrefix),
     pe_stored = (\<lambda>t. t div 1000 * 1000)\<rparr>"

definition ex_md5 :: "string \<Rightarrow> string" where
  "ex_md5 s = (if length s mod 2 = 0 then ''0a'' else ''0b'')"

definition bits_text :: "nat \<Rightarrow> 'a :: len word \<Rightarrow> string" where
  "bits_text n w = map (\<lambda>i. if bit w i then CHR ''1'' else CHR ''0'') [0..<n]"

definition ex_addr :: "addrport \<Rightarrow> string" where
  "ex_addr a = (case ap_addr a of NoAddr \<Rightarrow> []
     | V4 w \<Rightarrow> CHR ''4'' # bits_text 32 w @ bits_text 16 (ap_port a)
     | V6 w _ \<Rightarrow> CHR ''6'' # bits_text 128 w @ bits_text 16 (ap_port a))"

definition ex_env :: "(gb_pg, nonce_mem) gb_env" where
  "ex_env = wired_env ex_pg_env ex_md5 ex_addr"

definition ex_clk :: "nat \<Rightarrow> time" where
  "ex_clk n = 5000 * second + int n"

definition ex_request :: RegisterRequest where
  "ex_request = \<lparr>rq_DeviceID = ex_device, rq_Username = ex_device, rq_Realm = ''3402000000'',
     rq_Method = ''REGISTER'', rq_URI = ''sip:x'', rq_Source = ex_peer, rq_Expires = 3600,
     rq_Authorization = Some \<lparr>da_Username = ex_device, da_Realm = ''3402000000'', da_Nonce = ex_nonce,
       da_URI = ''sip:x'', da_Response = ''0A'', da_Algorithm = ''MD5'', da_QOP = [], da_CNonce = [],
       da_NC = []\<rparr>, rq_TransactionID = ''t1''\<rparr>"

definition ex_sv :: "(gb_pg, nonce_mem) gb_service" where
  "ex_sv = snd (Challenge ex_env (NewService ex_pg NewMemoryNonceStore) (Some ex_random) ex_clk ex_request)"

definition ex_sv' :: "(gb_pg, nonce_mem) gb_service" where
  "ex_sv' = snd (HandleRegister ex_env ex_sv ex_clk ex_request)"

definition ex_result :: RegisterResult where
  "ex_result = \<lparr>rr_StatusCode = 200, rr_Challenge = None,
     rr_Registration = Some (onlineRegistration ex_request (ex_clk 3) (3600 * second))\<rparr>"

lemma ex_register: "HandleRegister ex_env ex_sv ex_clk ex_request = (Inr ex_result, ex_sv')"
proof -
  have "fst (HandleRegister ex_env ex_sv ex_clk ex_request) = Inr ex_result" by code_simp
  then show ?thesis by (simp add: ex_sv'_def prod_eq_iff)
qed

lemma ex_miss:
  "fst (transaction ex_env ex_sv (ex_clk 0) (rq_TransactionID ex_request) (rq_Source ex_request)
     (rq_DeviceID ex_request)) = None"
  by code_simp

lemma ex_tx_inv: "tx_inv ex_sv"
  by code_simp

lemma ex_nonces_inv: "nm_inv (sv_Nonces ex_sv)"
proof -
  have "wf_map (nm_entries (sv_Nonces ex_sv)) \<and> wf_map (nm_used (sv_Nonces ex_sv)) \<and>
    nm_size (sv_Nonces ex_sv) = 1" by code_simp
  moreover have "map fst (nm_entries (sv_Nonces ex_sv)) = [ex_nonce]" "nm_used (sv_Nonces ex_sv) = []"
    by code_simp+
  ultimately show ?thesis
    by (auto simp: nm_inv_def keys_def MaxMemoryNonces_def ex_nonce_def simp flip: list.set_map)
qed

lemma ex_fresh:
  obtains sv0 where "registerFresh ex_env sv0 ex_clk ex_request = (Inr ex_result, ex_sv')"
    "sv_Nonces sv0 = sv_Nonces ex_sv" "sv_Devices sv0 = sv_Devices ex_sv"
  using ex_register
proof (cases rule: HandleRegister_cases)
  case (cached res)
  with ex_miss show ?thesis by simp
next
  case (fresh sv0)
  with that show ?thesis by (auto dest: transaction_frame)
qed simp

lemma ex_devices: "sv_Devices ex_sv = ex_pg"
  by (simp add: ex_sv_def NewService_def)

lemma ex_pg_inv: "pg_inv ex_pg"
  by (simp add: pg_inv_def ex_pg_def ex_row_def at_peer_def wf_map_def)

lemma bits_text_inj:
  "bits_text n (v :: 'a :: len word) = bits_text n w \<Longrightarrow> LENGTH('a) \<le> n \<Longrightarrow> v = w"
proof (rule bit_word_eqI)
  fix i
  assume eq: "bits_text n v = bits_text n w" and n: "LENGTH('a) \<le> n" and i: "i < LENGTH('a)"
  from eq have "bits_text n v ! i = bits_text n w ! i" by simp
  with n i show "bit v i = bit w i" by (simp add: bits_text_def split: if_split_asm)
qed

lemma ex_addr_text: "addr_text ex_addr"
proof -
  have 1: "CHR ''|'' \<notin> set (ex_addr a)" for a
    by (cases a; cases "ap_addr a") (auto simp: ex_addr_def bits_text_def)
  have l: "length (bits_text n w) = n" for n and w :: "'a :: len word" by (simp add: bits_text_def)
  have 2: "a = b" if "zone_free (ap_addr a)" "zone_free (ap_addr b)" "ex_addr a = ex_addr b" for a b
    using that
    by (cases a; cases b; cases "ap_addr a"; cases "ap_addr b")
       (auto simp: ex_addr_def zone_free_def l dest!: bits_text_inj)
  from 1 2 show ?thesis unfolding addr_text_def by blast
qed

theorem register_success_sound_witness:
  "\<exists>device a. ds_LookupDevice (ge_devices ex_env) (sv_Devices ex_sv) ex_device = Inr device \<and>
     rq_Authorization ex_request = Some a \<and>
     digestResponse ex_md5 a ''REGISTER'' (rd_Password device) = Inr (toLower ''0A'')"
  using register_success_sound[OF ex_register disjI2[OF ex_miss]]
  by (auto simp: ex_request_def ex_env_def wired_env_def)

theorem register_retransmission_witness:
  "\<exists>sv''. HandleRegister ex_env ex_sv' (\<lambda>_. ex_clk 40) ex_request = (Inr ex_result, sv'') \<and>
     sv_Devices sv'' = sv_Devices ex_sv'"
  using register_retransmission[OF ex_tx_inv ex_register _ ex_miss, of "\<lambda>_. ex_clk 40"]
  by (auto simp: ex_request_def ex_clk_def second_def)

theorem register_result_is_own_witness:
  "owns ex_result ex_peer ex_device \<and> length (sv_transactions ex_sv') \<le> MaxTransactions"
proof -
  let ?cs = "[CallChallenge (Some ex_random) ex_clk ex_request]"
  have a: "addr_text (ge_addr ex_env)" by (simp add: ex_env_def wired_env_def ex_addr_text)
  have z: "zone_free (ap_addr (pi_Addr (rq_Source ex_request)))"
    by (simp add: ex_request_def ex_peer_def zone_free_def)
  then have c: "list_all zone_free_call ?cs" by (simp add: zone_free_call_def)
  have r: "HandleRegister ex_env (fold (gb_step ex_env) ?cs (NewService ex_pg NewMemoryNonceStore))
    ex_clk ex_request = (Inr ex_result, ex_sv')"
    using ex_register by (simp add: ex_sv_def)
  show ?thesis using register_result_is_own[OF a c z r] by (simp add: ex_request_def)
qed

theorem authorization_single_use_witness:
  "\<exists>err. fst (registerFresh ex_env ex_sv' ex_clk ex_request) = Inl err"
proof -
  obtain sv0 where f: "registerFresh (wired_env ex_pg_env ex_md5 ex_addr) sv0 ex_clk ex_request
      = (Inr ex_result, ex_sv')" and n: "sv_Nonces sv0 = sv_Nonces ex_sv"
    by (rule ex_fresh) (simp add: ex_env_def)
  obtain a where a: "rq_Authorization ex_request = Some a" by (simp add: ex_request_def)
  have i: "nm_inv (sv_Nonces sv0)" using ex_nonces_inv n by simp
  from authorization_single_use[OF i f a, of "[]" ex_request a ex_clk] a show ?thesis
    by (simp add: ex_env_def)
qed

theorem register_error_keeps_devices_witness:
  "sv_Devices (snd (HandleRegister ex_env ex_sv ex_clk (ex_request\<lparr>rq_Expires := 5\<rparr>))) = ex_pg \<and>
   fst (HandleRegister ex_env ex_sv ex_clk (ex_request\<lparr>rq_Expires := 5\<rparr>)) = Inl GbInvalidRequest"
proof -
  let ?r = "HandleRegister ex_env ex_sv ex_clk (ex_request\<lparr>rq_Expires := 5\<rparr>)"
  have e: "fst ?r = Inl GbInvalidRequest" by code_simp
  then have "HandleRegister (wired_env ex_pg_env ex_md5 ex_addr) ex_sv ex_clk (ex_request\<lparr>rq_Expires := 5\<rparr>)
    = (Inl GbInvalidRequest, snd ?r)" by (simp add: ex_env_def prod_eq_iff)
  from register_error_keeps_devices[OF this] e ex_devices show ?thesis by simp
qed

definition ex_wire :: wireMessage where
  "ex_wire = \<lparr>wm_XMLName = ''Notify'', wm_CmdType = ''Keepalive'', wm_SN = ''1'',
     wm_DeviceID = ex_device, wm_Status = ''OK'', wm_SumNum = [], wm_Num = [], wm_Items = []\<rparr>"

definition ex_xml_env :: xml_env where
  "ex_xml_env = \<lparr>xe_ToUpper = toUpper,
     xe_tokens = (\<lambda>_. ([OtherToken, StartElement, StartElement, CharData ''Keepalive'', EndElement,
        EndElement], True)),
     xe_Decode = (\<lambda>_. Some ex_wire)\<rparr>"

definition ex_message :: XMLMessage where
  "ex_message = \<lparr>xm_CmdType = ''Keepalive'', xm_SN = ''1'', xm_DeviceID = ex_device,
     xm_Status = ''OK'', xm_SumNum = 0, xm_Items = []\<rparr>"

lemma ex_bounds: "xmlBounds ex_xml_env ''<Notify>'' = None"
proof -
  have "\<not> list_ex (\<lambda>marker. strContains marker (toUpper ''<Notify>'')) xml_markers" by code_simp
  then show ?thesis
    by (simp add: xmlBounds_def ex_xml_env_def MaxXMLDepth_def MaxXMLSize_def Let_def)
qed

lemma ex_parse: "ParseMessageXML ex_xml_env ''<Notify>'' [] = Inr ex_message"
proof -
  have "validateWire ex_wire [] = Some ex_message" by code_simp
  moreover have "xe_Decode ex_xml_env ''<Notify>'' = Some ex_wire" by (simp add: ex_xml_env_def)
  ultimately show ?thesis by (simp add: ParseMessageXML_def ex_bounds MaxXMLSize_def)
qed

theorem register_then_keepalive_witness:
  "\<exists>sv'' row. HandleMessage ex_env ex_xml_env ex_sv' (ex_clk 90) ex_peer ''<Notify>'' =
      (Inr \<lparr>mr_Message = ex_message, mr_Status = RegistrationOnline\<rparr>, sv'') \<and>
    map_of (pg_rows (sv_Devices sv'')) ex_device = Some row \<and> at_peer row ex_peer \<and>
    gr_last_keepalive row = Some (pe_stored ex_pg_env (ex_clk 90))"
proof -
  obtain sv0 where f: "registerFresh (wired_env ex_pg_env ex_md5 ex_addr) sv0 ex_clk ex_request
      = (Inr ex_result, ex_sv')" and d: "sv_Devices sv0 = ex_pg"
    by (rule ex_fresh) (simp add: ex_env_def ex_devices)
  have p: "pg_precision ex_pg_env"
    using minus_mod_eq_div_mult[of _ "1000 :: int"]
    by (auto simp: pg_precision_def ex_pg_env_def minus_mod_eq_div_mult[symmetric])
  have i: "pg_inv (sv_Devices sv0)" by (simp add: d ex_pg_inv)
  show ?thesis
    using register_then_keepalive[OF i p f, of "ex_clk 90" ex_xml_env "''<Notify>''" ex_message] ex_parse
    by (simp add: d ex_request_def ex_clk_def ex_pg_def second_def ex_message_def ex_env_def)
qed

theorem message_only_from_registered_peer_witness:
  "message_ok ex_message \<and> bounded_tokens 0 0 0 (fst (xe_tokens ex_xml_env ''<Notify>''))"
proof -
  obtain sv'' where "HandleMessage ex_env ex_xml_env ex_sv' (ex_clk 90) ex_peer ''<Notify>'' =
      (Inr \<lparr>mr_Message = ex_message, mr_Status = RegistrationOnline\<rparr>, sv'')"
  proof -
    have "fst (HandleMessage ex_env ex_xml_env ex_sv' (ex_clk 90) ex_peer ''<Notify>'') =
      Inr \<lparr>mr_Message = ex_message, mr_Status = RegistrationOnline\<rparr>"
      unfolding HandleMessage_def ex_parse by code_simp
    then show ?thesis using that by (metis prod.collapse)
  qed
  from message_only_from_registered_peer[OF this] show ?thesis by simp
qed

end
