(* ===== verification/Catalog.thy ===== *)
theory Catalog
  imports Go_Strings "HOL-Library.List_Lexorder" "HOL-Library.Char_ord"
begin

text \<open>
  \<open>internal/gbcatalog\<close>: the catalog coordinator. Every section of the code that runs under the
  mutex \<open>mu\<close> is one function on the coordinator's state; the store is called between sections,
  without the lock. The sections are composed twice: sequentially, as the exported methods over a
  store (\<open>Start\<close>, \<open>AcceptPage\<close>, \<open>Expire\<close>), and as the step relation \<open>cat_step\<close>, in which any number
  of calls interleave at the section boundaries and every store call may succeed or fail. A
  \<open>*pending\<close> has an identity (\<open>pn_id\<close>), since the code compares the pointers. The coordinator and its
  store are not nil; \<open>ctx\<close> arguments say whether the context has already ended.
\<close>

subsection \<open>Data\<close>

datatype cat_error = CatInvalid | CatDeadline | CatDuplicateConflict | CatStore | CatContext

definition RefreshTimeout :: duration where "RefreshTimeout = 10 * second"
definition MaxItems :: nat where "MaxItems = 1000"
definition MaxNameBytes :: nat where "MaxNameBytes = 128"

record Item =
  it_ChannelID :: string
  it_Name :: string
  it_Online :: bool

record Page =
  pg_DeviceID :: string
  pg_SN :: int
  pg_SumNum :: int
  pg_Items :: "Item list"

record Refresh =
  rf_DeviceID :: string
  rf_SN :: int
  rf_ExpectedCount :: int
  rf_Deadline :: time

record Snapshot =
  sn_DeviceID :: string
  sn_SN :: int
  sn_Items :: "Item list"
  sn_ObservedAt :: time

record PageResult =
  pr_Refresh :: Refresh
  pr_Complete :: bool
  pr_Duplicate :: bool

record pending =
  pn_id :: nat
  pn_refresh :: Refresh
  pn_items :: "(string \<times> Item) list"
  pn_staling :: bool
  pn_committing :: bool

type_synonym cat_key = "string \<times> int"

record coordinator =
  co_pending :: "(cat_key \<times> pending) list"
  co_completed :: "(cat_key \<times> Refresh) list"
  co_stale :: "(cat_key \<times> Refresh) list"
  co_next :: nat

definition NewCoordinator :: coordinator where
  "NewCoordinator = \<lparr>co_pending = [], co_completed = [], co_stale = [], co_next = 0\<rparr>"

definition rf_key :: "Refresh \<Rightarrow> cat_key" where
  "rf_key r = (rf_DeviceID r, rf_SN r)"

subsection \<open>Validation\<close>

definition cat_validDeviceID :: "string \<Rightarrow> bool" where
  "cat_validDeviceID s \<longleftrightarrow> length s = 20 \<and> range_all isDigitByte s"

text \<open>The loop over the items with its map \<open>seen\<close>.\<close>

fun valid_items :: "(string \<times> Item) list \<Rightarrow> Item list \<Rightarrow> bool" where
  "valid_items seen [] = True"
| "valid_items seen (i # r) =
     (if \<not> cat_validDeviceID (it_ChannelID i) \<or> length (it_Name i) = 0 \<or>
         length (it_Name i) > MaxNameBytes then False
      else if map_of seen (it_ChannelID i) \<noteq> None \<and> map_of seen (it_ChannelID i) \<noteq> Some i then False
      else valid_items (AList.update (it_ChannelID i) i seen) r)"

definition validPage :: "Page \<Rightarrow> bool" where
  "validPage page =
     (if \<not> cat_validDeviceID (pg_DeviceID page) \<or> pg_SN page \<le> 0 \<or> pg_SumNum page < 0 \<or>
         pg_SumNum page > int MaxItems \<or> length (pg_Items page) > MaxItems \<or>
         int (length (pg_Items page)) > pg_SumNum page then False
      else if \<not> valid_items [] (pg_Items page) then False
      else if pg_SumNum page = 0 then length (pg_Items page) = 0
      else length (pg_Items page) > 0)"

definition boundedContext :: "bool \<Rightarrow> time \<Rightarrow> time \<Rightarrow> cat_error option" where
  "boundedContext ended deadline now =
     (if is_zero deadline \<or> \<not> deadline > now then Some CatDeadline
      else if ended then Some CatContext else None)"

subsection \<open>The sections of \<open>start\<close>\<close>

text \<open>The first section: \<open>None\<close> when the store has to be asked.\<close>

definition start_lookup :: "coordinator \<Rightarrow> Refresh \<Rightarrow> (cat_error, Refresh) result option" where
  "start_lookup c refresh =
     (let k = rf_key refresh in
      case map_of (co_pending c) k of
        Some p \<Rightarrow>
          (if rf_ExpectedCount (pn_refresh p) \<noteq> rf_ExpectedCount refresh then Some (Inl CatInvalid)
           else Some (Inr (pn_refresh p)))
      | None \<Rightarrow>
          (if map_of (co_stale c) k \<noteq> None then Some (Inl CatDeadline)
           else (case map_of (co_completed c) k of
                   Some got \<Rightarrow>
                     (if rf_ExpectedCount got \<noteq> rf_ExpectedCount refresh then Some (Inl CatInvalid)
                      else Some (Inr got))
                 | None \<Rightarrow> None)))"

definition start_got_ok :: "Refresh \<Rightarrow> Refresh \<Rightarrow> bool" where
  "start_got_ok refresh got \<longleftrightarrow>
     \<not> (rf_DeviceID got \<noteq> rf_DeviceID refresh \<or> rf_SN got \<noteq> rf_SN refresh \<or>
        rf_ExpectedCount got \<noteq> rf_ExpectedCount refresh \<or> is_zero (rf_Deadline got))"

text \<open>The second section, after the store has answered.\<close>

definition start_register :: "coordinator \<Rightarrow> cat_key \<Rightarrow> Refresh \<Rightarrow> Refresh \<times> coordinator" where
  "start_register c k got =
     (case map_of (co_pending c) k of
        Some p \<Rightarrow> (pn_refresh p, c)
      | None \<Rightarrow>
          (case map_of (co_completed c) k of
             Some done' \<Rightarrow> (done', c)
           | None \<Rightarrow>
               (got, c\<lparr>co_pending := AList.update k
                         \<lparr>pn_id = co_next c, pn_refresh = got, pn_items = [], pn_staling = False,
                          pn_committing = False\<rparr> (co_pending c),
                       co_next := Suc (co_next c)\<rparr>)))"

subsection \<open>The sections of \<open>AcceptPage\<close>\<close>

text \<open>
  The loop that adds a page's items: the items, whether nothing was new, and whether it stopped
  at a conflict. Items added before a conflict stay.
\<close>

fun add_items :: "(string \<times> Item) list \<Rightarrow> bool \<Rightarrow> Item list \<Rightarrow> (string \<times> Item) list \<times> bool \<times> bool" where
  "add_items items duplicate [] = (items, duplicate, False)"
| "add_items items duplicate (i # r) =
     (case map_of items (it_ChannelID i) of
        None \<Rightarrow> add_items (AList.update (it_ChannelID i) i items) False r
      | Some old \<Rightarrow> if old \<noteq> i then (items, duplicate, True) else add_items items duplicate r)"

datatype page_outcome =
    PageDone "(cat_error, PageResult) result"
  | PageStale Refresh
  | PageCommit nat Refresh "Item list" bool

definition set_pending :: "cat_key \<Rightarrow> pending \<Rightarrow> coordinator \<Rightarrow> coordinator" where
  "set_pending k p c = c\<lparr>co_pending := AList.update k p (co_pending c)\<rparr>"

definition page_section :: "coordinator \<Rightarrow> Page \<Rightarrow> time \<Rightarrow> page_outcome \<times> coordinator" where
  "page_section c page now =
     (let k = (pg_DeviceID page, pg_SN page) in
      case map_of (co_completed c) k of
        Some done' \<Rightarrow>
          (PageDone (Inr \<lparr>pr_Refresh = done', pr_Complete = True, pr_Duplicate = True\<rparr>), c)
      | None \<Rightarrow>
      (case map_of (co_pending c) k of
        None \<Rightarrow> (PageDone (Inl CatStore), c)
      | Some p \<Rightarrow>
          if pn_staling p then (PageDone (Inl CatDeadline), c)
          else if pn_committing p then
            (PageDone (Inr \<lparr>pr_Refresh = pn_refresh p, pr_Complete = False, pr_Duplicate = True\<rparr>), c)
          else if \<not> now < rf_Deadline (pn_refresh p) then
            (PageStale (pn_refresh p), set_pending k (p\<lparr>pn_staling := True\<rparr>) c)
          else (case add_items (pn_items p) True (pg_Items page) of (items, duplicate, conflict) \<Rightarrow>
            let p = p\<lparr>pn_items := items\<rparr>; c' = set_pending k p c;
                n = int (length items); expected = rf_ExpectedCount (pn_refresh p)
            in if conflict then (PageDone (Inl CatDuplicateConflict), c')
               else if n > expected then (PageDone (Inl CatInvalid), c')
               else if n \<noteq> expected then
                 (PageDone (Inr \<lparr>pr_Refresh = pn_refresh p, pr_Complete = False,
                                pr_Duplicate = duplicate\<rparr>), c')
               else (PageCommit (pn_id p) (pn_refresh p) (sort_key it_ChannelID (map snd items)) duplicate,
                     set_pending k (p\<lparr>pn_committing := True\<rparr>) c))))"

definition commit_failed :: "coordinator \<Rightarrow> cat_key \<Rightarrow> nat \<Rightarrow> coordinator" where
  "commit_failed c k pid =
     (case map_of (co_pending c) k of
        None \<Rightarrow> c
      | Some p \<Rightarrow> if pn_id p = pid then set_pending k (p\<lparr>pn_committing := False\<rparr>) c else c)"

definition commit_done :: "coordinator \<Rightarrow> cat_key \<Rightarrow> nat \<Rightarrow> Refresh \<Rightarrow> bool \<times> coordinator" where
  "commit_done c k pid got =
     (case map_of (co_pending c) k of
        None \<Rightarrow> (False, c)
      | Some p \<Rightarrow>
          if pn_id p \<noteq> pid \<or> \<not> pn_committing p then (False, c)
          else (True, c\<lparr>co_pending := AList.delete k (co_pending c),
                       co_completed := AList.update k got (co_completed c)\<rparr>))"

subsection \<open>The sections of \<open>Expire\<close> and \<open>markStale\<close>\<close>

datatype expire_outcome = ExpireDone "cat_error option" | ExpireStale Refresh

definition expire_section :: "coordinator \<Rightarrow> cat_key \<Rightarrow> time \<Rightarrow> expire_outcome \<times> coordinator" where
  "expire_section c k now =
     (case map_of (co_pending c) k of
        None \<Rightarrow> (ExpireDone None, c)
      | Some p \<Rightarrow>
          if now < rf_Deadline (pn_refresh p) then (ExpireDone (Some CatInvalid), c)
          else if pn_committing p then (ExpireDone (Some CatInvalid), c)
          else if pn_staling p then (ExpireDone None, c)
          else (ExpireStale (pn_refresh p), set_pending k (p\<lparr>pn_staling := True\<rparr>) c))"

definition resetStaling :: "coordinator \<Rightarrow> Refresh \<Rightarrow> coordinator" where
  "resetStaling c refresh =
     (case map_of (co_pending c) (rf_key refresh) of
        None \<Rightarrow> c
      | Some p \<Rightarrow> set_pending (rf_key refresh) (p\<lparr>pn_staling := False\<rparr>) c)"

definition stale_done :: "coordinator \<Rightarrow> Refresh \<Rightarrow> coordinator" where
  "stale_done c refresh =
     c\<lparr>co_pending := AList.delete (rf_key refresh) (co_pending c),
       co_stale := AList.update (rf_key refresh) refresh (co_stale c)\<rparr>"

subsection \<open>The exported methods, one call at a time\<close>

record 's catalog_ops =
  cs_StartRefresh :: "'s \<Rightarrow> Refresh \<Rightarrow> (cat_error, Refresh) result \<times> 's"
  cs_ReplaceCatalog :: "'s \<Rightarrow> Snapshot \<Rightarrow> cat_error option \<times> 's"
  cs_MarkStale :: "'s \<Rightarrow> string \<Rightarrow> time \<Rightarrow> cat_error option \<times> 's"

definition start ::
  "'s catalog_ops \<Rightarrow> bool \<Rightarrow> time \<Rightarrow> coordinator \<times> 's \<Rightarrow> Refresh \<Rightarrow>
   (cat_error, Refresh) result \<times> coordinator \<times> 's" where
  "start ops ended now cs refresh =
     (case cs of (c, s) \<Rightarrow>
      case start_lookup c refresh of
        Some res \<Rightarrow> (res, c, s)
      | None \<Rightarrow>
          (case boundedContext ended (rf_Deadline refresh) now of
             Some e \<Rightarrow> (Inl e, c, s)
           | None \<Rightarrow>
               (case cs_StartRefresh ops s refresh of
                  (Inl _, s) \<Rightarrow> (Inl CatStore, c, s)
                | (Inr got, s) \<Rightarrow>
                    if \<not> start_got_ok refresh got then (Inl CatStore, c, s)
                    else (case start_register c (rf_key refresh) got of (r, c) \<Rightarrow> (Inr r, c, s)))))"

definition cat_Start ::
  "'s catalog_ops \<Rightarrow> bool \<Rightarrow> (nat \<Rightarrow> time) \<Rightarrow> coordinator \<times> 's \<Rightarrow> string \<Rightarrow> int \<Rightarrow> int \<Rightarrow>
   (cat_error, Refresh) result \<times> coordinator \<times> 's" where
  "cat_Start ops ended clk cs deviceID sn expected =
     (if \<not> cat_validDeviceID deviceID \<or> sn \<le> 0 \<or> expected < 0 \<or> expected > int MaxItems
      then (Inl CatInvalid, cs)
      else start ops ended (clk 1) cs
             \<lparr>rf_DeviceID = deviceID, rf_SN = sn, rf_ExpectedCount = expected,
              rf_Deadline = clk 0 + RefreshTimeout\<rparr>)"

definition markStale ::
  "'s catalog_ops \<Rightarrow> bool \<Rightarrow> coordinator \<times> 's \<Rightarrow> Refresh \<Rightarrow> time \<Rightarrow>
   cat_error option \<times> coordinator \<times> 's" where
  "markStale ops ended cs refresh now =
     (case cs of (c, s) \<Rightarrow>
      if ended then (Some CatContext, resetStaling c refresh, s)
      else (case cs_MarkStale ops s (rf_DeviceID refresh) now of
              (Some _, s) \<Rightarrow> (Some CatStore, resetStaling c refresh, s)
            | (None, s) \<Rightarrow> (None, stale_done c refresh, s)))"

definition page_refresh :: "Page \<Rightarrow> time \<Rightarrow> Refresh" where
  "page_refresh page now =
     \<lparr>rf_DeviceID = pg_DeviceID page, rf_SN = pg_SN page, rf_ExpectedCount = pg_SumNum page,
      rf_Deadline = now + RefreshTimeout\<rparr>"

definition finish_page ::
  "'s catalog_ops \<Rightarrow> bool \<Rightarrow> time \<Rightarrow> coordinator \<times> 's \<Rightarrow> Page \<Rightarrow>
   (cat_error, PageResult) result \<times> coordinator \<times> 's" where
  "finish_page ops ended now cs page =
     (case cs of (c, s) \<Rightarrow>
      let k = (pg_DeviceID page, pg_SN page) in
      case page_section c page now of
        (PageDone res, c) \<Rightarrow> (res, c, s)
      | (PageStale refresh, c) \<Rightarrow>
          (case markStale ops ended (c, s) refresh now of
             (Some e, cs) \<Rightarrow> (Inl e, cs)
           | (None, cs) \<Rightarrow> (Inl CatDeadline, cs))
      | (PageCommit pid got items duplicate, c) \<Rightarrow>
          (case boundedContext ended (rf_Deadline got) now of
             Some e \<Rightarrow> (Inl e, commit_failed c k pid, s)
           | None \<Rightarrow>
               (case cs_ReplaceCatalog ops s
                       \<lparr>sn_DeviceID = rf_DeviceID got, sn_SN = rf_SN got, sn_Items = items,
                        sn_ObservedAt = now\<rparr> of
                  (Some _, s) \<Rightarrow> (Inl CatStore, commit_failed c k pid, s)
                | (None, s) \<Rightarrow>
                    (case commit_done c k pid got of
                       (False, c) \<Rightarrow> (Inl CatStore, c, s)
                     | (True, c) \<Rightarrow>
                         (Inr \<lparr>pr_Refresh = got, pr_Complete = True, pr_Duplicate = duplicate\<rparr>, c, s)))))"

definition AcceptPage ::
  "'s catalog_ops \<Rightarrow> (nat \<Rightarrow> bool) \<Rightarrow> (nat \<Rightarrow> time) \<Rightarrow> coordinator \<times> 's \<Rightarrow> Page \<Rightarrow>
   (cat_error, PageResult) result \<times> coordinator \<times> 's" where
  "AcceptPage ops ended clk cs page =
     (if \<not> validPage page then (Inl CatInvalid, cs)
      else (case start ops (ended 0) (clk 1) cs (page_refresh page (clk 0)) of
              (Inl e, cs) \<Rightarrow> (Inl e, cs)
            | (Inr _, cs) \<Rightarrow> finish_page ops (ended 1) (clk 0) cs page))"

definition Expire ::
  "'s catalog_ops \<Rightarrow> bool \<Rightarrow> coordinator \<times> 's \<Rightarrow> string \<Rightarrow> int \<Rightarrow> time \<Rightarrow>
   cat_error option \<times> coordinator \<times> 's" where
  "Expire ops ended cs deviceID sn now =
     (if \<not> cat_validDeviceID deviceID \<or> sn \<le> 0 then (Some CatInvalid, cs)
      else (case cs of (c, s) \<Rightarrow>
        case expire_section c (deviceID, sn) now of
          (ExpireDone e, c) \<Rightarrow> (e, c, s)
        | (ExpireStale refresh, c) \<Rightarrow> markStale ops ended (c, s) refresh now))"

end
