(* ===== verification/Catalog_Interleaving.thy ===== *)
theory Catalog_Interleaving
  imports Catalog
begin

text \<open>
  Concurrent use of the catalog coordinator: any number of calls of \<open>Start\<close>, \<open>AcceptPage\<close> and
  \<open>Expire\<close> in progress, each between two of its sections, over a store whose calls succeed or fail
  at will and whose successful \<open>ReplaceCatalog\<close> calls are logged. The invariants are by rule
  induction over the step relation.
\<close>

subsection \<open>Calls in progress\<close>

datatype start_for = ForStart | ForPage Page time

datatype thread =
    Idle
  | Starting start_for Refresh              \<comment> \<open>in \<open>StartRefresh\<close>\<close>
  | Started start_for Refresh Refresh       \<comment> \<open>before the second section of \<open>start\<close>\<close>
  | Paging Page time                        \<comment> \<open>before the section of \<open>AcceptPage\<close>\<close>
  | Committing cat_key nat Refresh "Item list" time  \<comment> \<open>in \<open>ReplaceCatalog\<close>\<close>
  | Committed cat_key nat Refresh           \<comment> \<open>before the section after it\<close>
  | CommitFailed cat_key nat
  | Marking Refresh                         \<comment> \<open>in \<open>MarkStale\<close>\<close>
  | Marked Refresh
  | MarkFailed Refresh

record cat_sys =
  sy_c :: coordinator
  sy_threads :: "nat \<Rightarrow> thread"
  sy_log :: "Snapshot list"

definition cat_init :: cat_sys where
  "cat_init = \<lparr>sy_c = NewCoordinator, sy_threads = (\<lambda>_. Idle), sy_log = []\<rparr>"

definition goto :: "cat_sys \<Rightarrow> nat \<Rightarrow> thread \<Rightarrow> coordinator \<Rightarrow> cat_sys" where
  "goto s t th c = s\<lparr>sy_c := c, sy_threads := (sy_threads s)(t := th)\<rparr>"

fun resume :: "start_for \<Rightarrow> thread" where
  "resume ForStart = Idle"
| "resume (ForPage page now) = Paging page now"

fun start_for_ok :: "start_for \<Rightarrow> Refresh \<Rightarrow> bool" where
  "start_for_ok ForStart r =
     (cat_validDeviceID (rf_DeviceID r) \<and> 0 < rf_SN r \<and> 0 \<le> rf_ExpectedCount r \<and>
      rf_ExpectedCount r \<le> int MaxItems)"
| "start_for_ok (ForPage page now) r = (validPage page \<and> r = page_refresh page now)"

definition snapshot_of :: "Refresh \<Rightarrow> Item list \<Rightarrow> time \<Rightarrow> Snapshot" where
  "snapshot_of got items now =
     \<lparr>sn_DeviceID = rf_DeviceID got, sn_SN = rf_SN got, sn_Items = items, sn_ObservedAt = now\<rparr>"

inductive cat_step :: "cat_sys \<Rightarrow> cat_sys \<Rightarrow> bool" where
  ask: "sy_threads s t = Idle \<Longrightarrow> start_for_ok f r \<Longrightarrow> start_lookup (sy_c s) r = None \<Longrightarrow>
    cat_step s (goto s t (Starting f r) (sy_c s))"
| known: "sy_threads s t = Idle \<Longrightarrow> start_for_ok (ForPage page now) r \<Longrightarrow>
    start_lookup (sy_c s) r = Some (Inr got) \<Longrightarrow> cat_step s (goto s t (Paging page now) (sy_c s))"
| start_ok: "sy_threads s t = Starting f r \<Longrightarrow> start_got_ok r got \<Longrightarrow>
    cat_step s (goto s t (Started f r got) (sy_c s))"
| start_error: "sy_threads s t = Starting f r \<Longrightarrow> cat_step s (goto s t Idle (sy_c s))"
| started: "sy_threads s t = Started f r got \<Longrightarrow>
    cat_step s (goto s t (resume f) (snd (start_register (sy_c s) (rf_key r) got)))"
| page_done: "sy_threads s t = Paging page now \<Longrightarrow>
    page_section (sy_c s) page now = (PageDone res, c) \<Longrightarrow> cat_step s (goto s t Idle c)"
| page_stale: "sy_threads s t = Paging page now \<Longrightarrow>
    page_section (sy_c s) page now = (PageStale r, c) \<Longrightarrow> cat_step s (goto s t (Marking r) c)"
| page_commit: "sy_threads s t = Paging page now \<Longrightarrow>
    page_section (sy_c s) page now = (PageCommit pid got items dup, c) \<Longrightarrow>
    cat_step s (goto s t (Committing (pg_DeviceID page, pg_SN page) pid got items now) c)"
| replaced: "sy_threads s t = Committing k pid got items now \<Longrightarrow>
    cat_step s ((goto s t (Committed k pid got) (sy_c s))\<lparr>sy_log := sy_log s @ [snapshot_of got items now]\<rparr>)"
| not_replaced: "sy_threads s t = Committing k pid got items now \<Longrightarrow>
    cat_step s (goto s t (CommitFailed k pid) (sy_c s))"
| committed: "sy_threads s t = Committed k pid got \<Longrightarrow>
    cat_step s (goto s t Idle (snd (commit_done (sy_c s) k pid got)))"
| uncommitted: "sy_threads s t = CommitFailed k pid \<Longrightarrow>
    cat_step s (goto s t Idle (commit_failed (sy_c s) k pid))"
| expire: "sy_threads s t = Idle \<Longrightarrow> expire_section (sy_c s) k now = (ExpireStale r, c) \<Longrightarrow>
    cat_step s (goto s t (Marking r) c)"
| mark_ok: "sy_threads s t = Marking r \<Longrightarrow> cat_step s (goto s t (Marked r) (sy_c s))"
| mark_error: "sy_threads s t = Marking r \<Longrightarrow> cat_step s (goto s t (MarkFailed r) (sy_c s))"
| marked: "sy_threads s t = Marked r \<Longrightarrow> cat_step s (goto s t Idle (stale_done (sy_c s) r))"
| mark_failed: "sy_threads s t = MarkFailed r \<Longrightarrow>
    cat_step s (goto s t Idle (resetStaling (sy_c s) r))"

inductive cat_reach :: "cat_sys \<Rightarrow> bool" where
  init: "cat_reach cat_init"
| step: "cat_reach s \<Longrightarrow> cat_step s s' \<Longrightarrow> cat_reach s'"

subsection \<open>What a call in progress holds\<close>

fun commit_hold :: "thread \<Rightarrow> (cat_key \<times> nat) option" where
  "commit_hold (Committing k pid _ _ _) = Some (k, pid)"
| "commit_hold (Committed k pid _) = Some (k, pid)"
| "commit_hold (CommitFailed k pid) = Some (k, pid)"
| "commit_hold _ = None"

fun mark_hold :: "thread \<Rightarrow> cat_key option" where
  "mark_hold (Marking r) = Some (rf_key r)"
| "mark_hold (Marked r) = Some (rf_key r)"
| "mark_hold (MarkFailed r) = Some (rf_key r)"
| "mark_hold _ = None"

text \<open>
  A pending refresh: filed under its own key, never both staling and committing, with distinct,
  valid items. A call that commits (or marks stale) is the only one to do so for its key, and the
  refresh it commits is still the pending one.
\<close>

definition items_ok :: "(string \<times> Item) list \<Rightarrow> bool" where
  "items_ok items \<longleftrightarrow> wf_map items \<and> (\<forall>i x. map_of items i = Some x \<longrightarrow> it_ChannelID x = i)"

definition pending_ok :: "cat_key \<Rightarrow> pending \<Rightarrow> bool" where
  "pending_ok k p \<longleftrightarrow> rf_key (pn_refresh p) = k \<and> \<not> (pn_staling p \<and> pn_committing p) \<and>
     items_ok (pn_items p)"

definition co_ok :: "coordinator \<Rightarrow> bool" where
  "co_ok c \<longleftrightarrow>
     (\<forall>k p. map_of (co_pending c) k = Some p \<longrightarrow> pending_ok k p \<and> map_of (co_completed c) k = None) \<and>
     (\<forall>k r. map_of (co_completed c) k = Some r \<longrightarrow> rf_key r = k)"

definition commits :: "coordinator \<Rightarrow> cat_key \<times> nat \<Rightarrow> bool" where
  "commits c h \<longleftrightarrow> (\<exists>p. map_of (co_pending c) (fst h) = Some p \<and> pn_id p = snd h \<and> pn_committing p)"

definition stales :: "coordinator \<Rightarrow> cat_key \<Rightarrow> bool" where
  "stales c k \<longleftrightarrow> (\<exists>p. map_of (co_pending c) k = Some p \<and> pn_staling p)"

text \<open>What calls hold is granted, and no two calls hold the same.\<close>

definition exclusive :: "('t \<Rightarrow> 'h option) \<Rightarrow> ('h \<Rightarrow> bool) \<Rightarrow> (nat \<Rightarrow> 't) \<Rightarrow> bool" where
  "exclusive hold granted th \<longleftrightarrow> (\<forall>t h. hold (th t) = Some h \<longrightarrow> granted h) \<and>
     (\<forall>t t' h. hold (th t) = Some h \<longrightarrow> hold (th t') = Some h \<longrightarrow> t = t')"

lemma exclusive_release:
  assumes "exclusive hold P th" and "hold x = None"
    and "\<And>h. P h \<Longrightarrow> hold (th t) \<noteq> Some h \<Longrightarrow> Q h"
  shows "exclusive hold Q (th(t := x))"
  unfolding exclusive_def
proof (intro conjI allI impI)
  fix t' h assume "hold ((th(t := x)) t') = Some h"
  with assms(2) have t': "t' \<noteq> t" "hold (th t') = Some h" by (auto split: if_splits)
  with assms(1) have "P h" "hold (th t) \<noteq> Some h" unfolding exclusive_def by blast+
  then show "Q h" by (rule assms(3))
next
  fix t' t'' h
  assume "hold ((th(t := x)) t') = Some h" "hold ((th(t := x)) t'') = Some h"
  with assms(1,2) show "t' = t''" unfolding exclusive_def by (auto split: if_splits)
qed

lemma exclusive_keep:
  assumes "exclusive hold P th" and "hold x = hold (th t)" and "\<And>h. P h \<Longrightarrow> Q h"
  shows "exclusive hold Q (th(t := x))"
proof -
  have "hold ((th(t := x)) t') = hold (th t')" for t' using assms(2) by simp
  with assms(1,3) show ?thesis unfolding exclusive_def by simp
qed

lemma exclusive_acquire:
  assumes "exclusive hold P th" and "hold x = Some h" and "\<not> P h" and "Q h"
    and "\<And>h. P h \<Longrightarrow> Q h"
  shows "exclusive hold Q (th(t := x))"
  unfolding exclusive_def
proof (intro conjI allI impI)
  fix t' h' assume "hold ((th(t := x)) t') = Some h'"
  with assms show "Q h'" unfolding exclusive_def by (auto split: if_splits)
next
  fix t' t'' h'
  assume h: "hold ((th(t := x)) t') = Some h'" "hold ((th(t := x)) t'') = Some h'"
  have "hold (th u) \<noteq> Some h" for u using assms(1,3) unfolding exclusive_def by blast
  with h assms(1,2) show "t' = t''" unfolding exclusive_def by (auto split: if_splits)
qed

fun thread_ok :: "thread \<Rightarrow> bool" where
  "thread_ok (Starting f r) = start_for_ok f r"
| "thread_ok (Started f r got) = (start_for_ok f r \<and> start_got_ok r got)"
| "thread_ok (Paging page now) = validPage page"
| "thread_ok (Committing k pid got items now) =
     (rf_key got = k \<and> int (length items) = rf_ExpectedCount got \<and>
      sorted (map it_ChannelID items) \<and> distinct (map it_ChannelID items))"
| "thread_ok (Committed k pid got) = (rf_key got = k)"
| "thread_ok _ = True"

subsection \<open>What the sections do\<close>

lemma commits_set_pending [simp]:
  "commits (set_pending k p c) h \<longleftrightarrow>
     (if fst h = k then pn_id p = snd h \<and> pn_committing p else commits c h)"
  by (auto simp: commits_def set_pending_def)

lemma stales_set_pending [simp]:
  "stales (set_pending k p c) j \<longleftrightarrow> (if j = k then pn_staling p else stales c j)"
  by (auto simp: stales_def set_pending_def)

lemma set_pending_completed [simp]: "co_completed (set_pending k p c) = co_completed c"
  by (simp add: set_pending_def)

lemma co_ok_set_pending [iolink_wf]:
  "co_ok c \<Longrightarrow> pending_ok k p \<Longrightarrow> map_of (co_completed c) k = None \<Longrightarrow> co_ok (set_pending k p c)"
  by (auto simp: co_ok_def set_pending_def)

lemma co_okD:
  "co_ok c \<Longrightarrow> map_of (co_pending c) k = Some p \<Longrightarrow> pending_ok k p \<and> map_of (co_completed c) k = None"
  unfolding co_ok_def by blast

lemma items_ok_update: "items_ok items \<Longrightarrow> items_ok (AList.update (it_ChannelID i) i items)"
  by (simp add: items_ok_def)

lemma add_items_ok: "items_ok items \<Longrightarrow> items_ok (fst (add_items items d l))"
  by (induction items d l rule: add_items.induct) (simp_all add: items_ok_update split: option.split)

lemma add_items_mono: "map_of items \<subseteq>\<^sub>m map_of (fst (add_items items d l))"
proof (induction items d l rule: add_items.induct)
  case (2 items d i r)
  show ?case
  proof (cases "map_of items (it_ChannelID i)")
    case None
    then have "map_of items \<subseteq>\<^sub>m map_of (AList.update (it_ChannelID i) i items)"
      by (auto simp: map_le_def)
    from map_le_trans[OF this 2(1)[OF None]] None show ?thesis by simp
  next
    case (Some old)
    with 2(2)[OF Some] show ?thesis by simp
  qed
qed simp

lemma items_sorted:
  assumes "items_ok items"
  shows "sorted (map it_ChannelID (sort_key it_ChannelID (map snd items))) \<and>
    distinct (map it_ChannelID (sort_key it_ChannelID (map snd items))) \<and>
    length (sort_key it_ChannelID (map snd items)) = length items"
proof -
  have "it_ChannelID (snd kv) = fst kv" if "kv \<in> set items" for kv
  proof -
    have "map_of items (fst kv) = Some (snd kv)"
      using that assms by (intro map_of_is_SomeI) (simp_all add: items_ok_def wf_map_def)
    with assms show ?thesis unfolding items_ok_def by blast
  qed
  then have "map it_ChannelID (map snd items) = map fst items" by simp
  moreover have "distinct (map fst items)" using assms by (simp add: items_ok_def wf_map_def)
  ultimately have "distinct (map it_ChannelID (map snd items))" by (simp only:)
  then have "distinct (map it_ChannelID (sort_key it_ChannelID (map snd items)))"
    by (simp add: distinct_map del: map_map)
  then show ?thesis by simp
qed

text \<open>The outcomes of the page section, with the pending refresh it found.\<close>

lemma page_section_cases:
  assumes "page_section c page now = (out, c')"
  obtains res where "out = PageDone res" "c' = c"
  | p items dup conflict res where "out = PageDone res"
      "map_of (co_pending c) (pg_DeviceID page, pg_SN page) = Some p"
      "add_items (pn_items p) True (pg_Items page) = (items, dup, conflict)"
      "c' = set_pending (pg_DeviceID page, pg_SN page) (p\<lparr>pn_items := items\<rparr>) c"
  | p where "out = PageStale (pn_refresh p)"
      "map_of (co_pending c) (pg_DeviceID page, pg_SN page) = Some p"
      "\<not> pn_staling p" "\<not> pn_committing p" "\<not> now < rf_Deadline (pn_refresh p)"
      "c' = set_pending (pg_DeviceID page, pg_SN page) (p\<lparr>pn_staling := True\<rparr>) c"
  | p items dup where
      "out = PageCommit (pn_id p) (pn_refresh p) (sort_key it_ChannelID (map snd items)) dup"
      "map_of (co_pending c) (pg_DeviceID page, pg_SN page) = Some p"
      "\<not> pn_staling p" "\<not> pn_committing p" "now < rf_Deadline (pn_refresh p)"
      "add_items (pn_items p) True (pg_Items page) = (items, dup, False)"
      "int (length items) = rf_ExpectedCount (pn_refresh p)"
      "c' = set_pending (pg_DeviceID page, pg_SN page) (p\<lparr>pn_items := items, pn_committing := True\<rparr>) c"
proof -
  let ?k = "(pg_DeviceID page, pg_SN page)"
  show ?thesis
  proof (cases "map_of (co_completed c) ?k")
    case (Some r)
    with assms show ?thesis by (auto simp: page_section_def intro!: that(1))
  next
    case done': None
    show ?thesis
    proof (cases "map_of (co_pending c) ?k")
      case None
      with assms done' show ?thesis by (auto simp: page_section_def intro!: that(1))
    next
      case (Some p)
      obtain items dup conflict where a: "add_items (pn_items p) True (pg_Items page) = (items, dup, conflict)"
        by (metis prod_cases3)
      let ?p = "p\<lparr>pn_items := items\<rparr>"
      note r = assms[unfolded page_section_def Let_def done' Some a option.case prod.case]
      consider "pn_staling p \<or> pn_committing p" | "\<not> pn_staling p" "\<not> pn_committing p"
          "\<not> now < rf_Deadline (pn_refresh p)"
        | "\<not> pn_staling p" "\<not> pn_committing p" "now < rf_Deadline (pn_refresh p)"
            "conflict \<or> int (length items) \<noteq> rf_ExpectedCount (pn_refresh p)"
        | "\<not> pn_staling p" "\<not> pn_committing p" "now < rf_Deadline (pn_refresh p)" "\<not> conflict"
            "int (length items) = rf_ExpectedCount (pn_refresh p)"
        by blast
      then show ?thesis
      proof cases
        case 1
        with r show ?thesis by (auto split: if_split_asm intro!: that(1))
      next
        case 2
        with r that(3)[OF _ Some] show ?thesis by simp
      next
        case 3
        with r that(2)[OF _ Some a] show ?thesis by (cases out) (simp_all split: if_split_asm)
      next
        case 4
        with r Some a that(4)[of p items dup] show ?thesis by simp
      qed
    qed
  qed
qed

lemma commits_same:
  "map_of (co_pending c) k = Some p \<Longrightarrow> pn_id p' = pn_id p \<Longrightarrow> pn_committing p' = pn_committing p \<Longrightarrow>
     commits (set_pending k p' c) = commits c"
  by (rule ext) (auto simp: commits_def set_pending_def)

lemma stales_same:
  "map_of (co_pending c) k = Some p \<Longrightarrow> pn_staling p' = pn_staling p \<Longrightarrow>
     stales (set_pending k p' c) = stales c"
  by (rule ext) (auto simp: stales_def set_pending_def)

lemma stales_new:
  "map_of (co_pending c) k = Some p \<Longrightarrow> pn_staling p' \<Longrightarrow>
     stales (set_pending k p' c) = (\<lambda>j. j = k \<or> stales c j)"
  by (rule ext) (simp add: if_distrib)

lemma commits_new:
  "map_of (co_pending c) k = Some p \<Longrightarrow> pn_id p' = pn_id p \<Longrightarrow> \<not> pn_committing p \<Longrightarrow>
     pn_committing p' \<Longrightarrow> commits (set_pending k p' c) = (\<lambda>h. h = (k, pn_id p) \<or> commits c h)"
  by (rule ext) (auto simp: commits_def set_pending_def)

lemma page_done_spec:
  assumes "page_section c page now = (PageDone res, c')" and "co_ok c"
  shows "co_ok c' \<and> commits c' = commits c \<and> stales c' = stales c \<and> co_completed c' = co_completed c"
  using assms(1)
proof (cases rule: page_section_cases)
  case (2 p items dup conflict res)
  note p = co_okD[OF assms(2) 2(2)]
  with 2(3) add_items_ok[of "pn_items p" True "pg_Items page"]
  have "pending_ok (pg_DeviceID page, pg_SN page) (p\<lparr>pn_items := items\<rparr>)"
    by (simp add: pending_ok_def)
  with 2 p assms(2) show ?thesis
    by (auto simp: commits_same stales_same intro!: co_ok_set_pending)
qed (use assms(2) in simp_all)

lemma page_stale_spec:
  assumes "page_section c page now = (PageStale r, c')" and "co_ok c"
  shows "co_ok c' \<and> commits c' = commits c \<and> \<not> stales c (rf_key r) \<and>
    stales c' = (\<lambda>j. j = rf_key r \<or> stales c j) \<and> co_completed c' = co_completed c"
  using assms(1)
proof (cases rule: page_section_cases)
  case (3 p)
  let ?k = "(pg_DeviceID page, pg_SN page)"
  note p = co_okD[OF assms(2) 3(2)]
  with 3 have "pending_ok ?k (p\<lparr>pn_staling := True\<rparr>)" "rf_key r = ?k" by (auto simp: pending_ok_def)
  with 3 p assms(2) show ?thesis
    by (simp add: commits_same stales_new co_ok_set_pending) (simp add: stales_def)
qed simp_all

lemma page_commit_spec:
  assumes "page_section c page now = (PageCommit pid got items dup, c')" and "co_ok c"
  shows "co_ok c' \<and> rf_key got = (pg_DeviceID page, pg_SN page) \<and> \<not> commits c (rf_key got, pid) \<and>
    commits c' = (\<lambda>h. h = (rf_key got, pid) \<or> commits c h) \<and> stales c' = stales c \<and>
    co_completed c' = co_completed c \<and> int (length items) = rf_ExpectedCount got \<and>
    sorted (map it_ChannelID items) \<and> distinct (map it_ChannelID items)"
  using assms(1)
proof (cases rule: page_section_cases)
  case (4 p items' dup')
  let ?k = "(pg_DeviceID page, pg_SN page)"
  note p = co_okD[OF assms(2) 4(2)]
  then have i: "items_ok items'" "rf_key got = ?k" 
    using 4(1,6) add_items_ok[of "pn_items p" True "pg_Items page"] by (auto simp: pending_ok_def)
  with p 4 have "pending_ok ?k (p\<lparr>pn_items := items', pn_committing := True\<rparr>)"
    by (simp add: pending_ok_def)
  with 4 p i items_sorted[OF i(1)] assms(2) show ?thesis
    by (simp add: stales_same commits_new co_ok_set_pending) (simp add: commits_def)
qed simp_all

subsection \<open>The invariant\<close>

definition snap_key :: "Snapshot \<Rightarrow> cat_key" where
  "snap_key sn = (sn_DeviceID sn, sn_SN sn)"

text \<open>\<open>won\<close>: the refreshes whose catalog has been replaced, completed or about to be.\<close>

definition won :: "coordinator \<Rightarrow> (nat \<Rightarrow> thread) \<Rightarrow> cat_key \<Rightarrow> Refresh \<Rightarrow> bool" where
  "won c th k r \<longleftrightarrow> map_of (co_completed c) k = Some r \<or> (\<exists>t pid. th t = Committed k pid r)"

definition log_ok :: "(cat_key \<Rightarrow> Refresh \<Rightarrow> bool) \<Rightarrow> Snapshot list \<Rightarrow> bool" where
  "log_ok W l \<longleftrightarrow>
     (\<forall>k. length (filter (\<lambda>sn. snap_key sn = k) l) = (if \<exists>r. W k r then 1 else 0)) \<and>
     (\<forall>sn \<in> set l. (\<forall>r. W (snap_key sn) r \<longrightarrow> int (length (sn_Items sn)) = rf_ExpectedCount r) \<and>
        sorted (map it_ChannelID (sn_Items sn)) \<and> distinct (map it_ChannelID (sn_Items sn)))"

lemma log_count:
  "log_ok W l \<Longrightarrow> length (filter (\<lambda>sn. snap_key sn = k) l) = (if \<exists>r. W k r then 1 else 0)"
  unfolding log_ok_def by blast

lemma log_snapshot:
  "log_ok W l \<Longrightarrow> sn \<in> set l \<Longrightarrow>
     (W (snap_key sn) r \<longrightarrow> int (length (sn_Items sn)) = rf_ExpectedCount r) \<and>
     sorted (map it_ChannelID (sn_Items sn)) \<and> distinct (map it_ChannelID (sn_Items sn))"
  unfolding log_ok_def by blast

definition cat_inv :: "cat_sys \<Rightarrow> bool" where
  "cat_inv s \<longleftrightarrow> co_ok (sy_c s) \<and>
     exclusive commit_hold (commits (sy_c s)) (sy_threads s) \<and>
     exclusive mark_hold (stales (sy_c s)) (sy_threads s) \<and>
     (\<forall>t. thread_ok (sy_threads s t)) \<and> log_ok (won (sy_c s) (sy_threads s)) (sy_log s)"

lemma won_goto:
  assumes "co_completed c' = co_completed c"
    and "\<And>k pid r. th t \<noteq> Committed k pid r" "\<And>k pid r. x \<noteq> Committed k pid r"
  shows "won c' (th(t := x)) = won c th"
proof (intro ext)
  fix k r
  have "(\<exists>t' pid. (th(t := x)) t' = Committed k pid r) = (\<exists>t' pid. th t' = Committed k pid r)"
    using assms(2,3) by (metis fun_upd_apply)
  with assms(1) show "won c' (th(t := x)) k r = won c th k r" by (simp add: won_def)
qed

lemma goto_simps [simp]:
  "sy_c (goto s t x c) = c" "sy_threads (goto s t x c) = (sy_threads s)(t := x)"
  "sy_log (goto s t x c) = sy_log s"
  by (simp_all add: goto_def)

text \<open>A step in which a thread neither wins nor finishes.\<close>

lemma cat_inv_goto:
  assumes "cat_inv s" and "co_ok c" and "thread_ok x"
    and "exclusive commit_hold (commits c) ((sy_threads s)(t := x))"
    and "exclusive mark_hold (stales c) ((sy_threads s)(t := x))"
    and "won c ((sy_threads s)(t := x)) = won (sy_c s) (sy_threads s)"
  shows "cat_inv (goto s t x c)"
  using assms by (auto simp: cat_inv_def)

lemma cat_inv_move:
  assumes inv: "cat_inv s" and c: "co_ok c" "co_completed c = co_completed (sy_c s)" and "thread_ok x"
    and "\<And>h. commits (sy_c s) h \<Longrightarrow> commits c h" "\<And>h. stales (sy_c s) h \<Longrightarrow> stales c h"
    and "commit_hold x = commit_hold (sy_threads s t)" "mark_hold x = mark_hold (sy_threads s t)"
    and "\<And>k pid r. sy_threads s t \<noteq> Committed k pid r" "\<And>k pid r. x \<noteq> Committed k pid r"
  shows "cat_inv (goto s t x c)"
  using inv c(1) \<open>thread_ok x\<close>
proof (rule cat_inv_goto)
  from inv have e: "exclusive commit_hold (commits (sy_c s)) (sy_threads s)"
    "exclusive mark_hold (stales (sy_c s)) (sy_threads s)" by (simp_all add: cat_inv_def)
  show "exclusive commit_hold (commits c) ((sy_threads s)(t := x))"
    using e(1) assms(7,5) by (rule exclusive_keep)
  show "exclusive mark_hold (stales c) ((sy_threads s)(t := x))"
    using e(2) assms(8,6) by (rule exclusive_keep)
  show "won c ((sy_threads s)(t := x)) = won (sy_c s) (sy_threads s)"
    using c(2) assms(9,10) by (rule won_goto)
qed

lemma start_register_spec:
  assumes "co_ok c" and "rf_key got = k"
  shows "co_ok (snd (start_register c k got)) \<and> co_completed (snd (start_register c k got)) = co_completed c \<and>
    (commits c h \<longrightarrow> commits (snd (start_register c k got)) h) \<and>
    (stales c j \<longrightarrow> stales (snd (start_register c k got)) j)"
  using assms
  by (auto simp: start_register_def co_ok_def commits_def stales_def pending_ok_def items_ok_def
      split: option.split)

lemma expire_spec:
  assumes "expire_section c k now = (ExpireStale r, c')" and "co_ok c"
  shows "co_ok c' \<and> rf_key r = k \<and> commits c' = commits c \<and> \<not> stales c k \<and>
    stales c' = (\<lambda>j. j = k \<or> stales c j) \<and> co_completed c' = co_completed c"
proof -
  from assms(1) obtain p where p: "map_of (co_pending c) k = Some p" "\<not> pn_committing p"
    "\<not> pn_staling p" "r = pn_refresh p" "c' = set_pending k (p\<lparr>pn_staling := True\<rparr>) c"
    by (auto simp: expire_section_def split: option.split_asm if_split_asm)
  note ok = co_okD[OF assms(2) p(1)]
  then have "pending_ok k (p\<lparr>pn_staling := True\<rparr>)" "rf_key r = k" using p by (auto simp: pending_ok_def)
  with p ok assms(2) show ?thesis
    by (simp add: commits_same stales_new co_ok_set_pending) (simp add: stales_def)
qed

lemma stale_done_spec:
  assumes "co_ok c" and "stales c (rf_key r)"
  shows "co_ok (stale_done c r) \<and> co_completed (stale_done c r) = co_completed c \<and>
    (commits c h \<longrightarrow> commits (stale_done c r) h) \<and>
    (stales c j \<and> j \<noteq> rf_key r \<longrightarrow> stales (stale_done c r) j)"
proof -
  from assms(2) obtain p where p: "map_of (co_pending c) (rf_key r) = Some p" "pn_staling p"
    by (auto simp: stales_def)
  with co_okD[OF assms(1) p(1)] have "\<not> pn_committing p" by (auto simp: pending_ok_def)
  with p assms(1) show ?thesis
    by (auto simp: co_ok_def stale_done_def commits_def stales_def)
qed

lemma resetStaling_spec:
  assumes "co_ok c"
  shows "co_ok (resetStaling c r) \<and> co_completed (resetStaling c r) = co_completed c \<and>
    commits (resetStaling c r) = commits c \<and>
    (stales c j \<and> j \<noteq> rf_key r \<longrightarrow> stales (resetStaling c r) j)"
proof (cases "map_of (co_pending c) (rf_key r)")
  case (Some p)
  note ok = co_okD[OF assms Some]
  then have "pending_ok (rf_key r) (p\<lparr>pn_staling := False\<rparr>)" by (simp add: pending_ok_def)
  with Some ok assms show ?thesis by (simp add: resetStaling_def commits_same co_ok_set_pending)
qed (use assms in \<open>simp add: resetStaling_def\<close>)

lemma commit_failed_spec:
  assumes "co_ok c"
  shows "co_ok (commit_failed c k pid) \<and> co_completed (commit_failed c k pid) = co_completed c \<and>
    (commits c h \<and> h \<noteq> (k, pid) \<longrightarrow> commits (commit_failed c k pid) h) \<and>
    stales (commit_failed c k pid) = stales c"
proof (cases "map_of (co_pending c) k")
  case (Some p)
  note ok = co_okD[OF assms Some]
  then have "pending_ok k (p\<lparr>pn_committing := False\<rparr>)" by (simp add: pending_ok_def)
  moreover have "commits c h \<and> h \<noteq> (k, pid) \<longrightarrow> commits (commit_failed c k pid) h"
    using Some by (cases h) (auto simp: commit_failed_def commits_def set_pending_def)
  ultimately show ?thesis
    using Some ok assms by (simp add: commit_failed_def stales_same co_ok_set_pending)
qed (use assms in \<open>simp add: commit_failed_def\<close>)

lemma commit_done_spec:
  assumes "co_ok c" and "commits c (k, pid)" and "rf_key got = k"
  shows "co_ok (snd (commit_done c k pid got)) \<and>
    map_of (co_completed (snd (commit_done c k pid got))) = (map_of (co_completed c))(k \<mapsto> got) \<and>
    (commits c h \<and> h \<noteq> (k, pid) \<longrightarrow> commits (snd (commit_done c k pid got)) h) \<and>
    (stales c j \<longrightarrow> stales (snd (commit_done c k pid got)) j)"
proof -
  from assms(2) obtain p where p: "map_of (co_pending c) k = Some p" "pn_id p = pid" "pn_committing p"
    by (auto simp: commits_def)
  with co_okD[OF assms(1) p(1)] have "\<not> pn_staling p" by (auto simp: pending_ok_def)
  with p assms show ?thesis
    by (cases h) (auto simp: commit_done_def co_ok_def commits_def stales_def)
qed

subsection \<open>Every reachable state satisfies it\<close>

lemma cat_inv_init: "cat_inv cat_init"
  by (simp add: cat_inv_def cat_init_def NewCoordinator_def co_ok_def exclusive_def log_ok_def won_def)

lemma page_refresh_key [simp]: "rf_key (page_refresh page now) = (pg_DeviceID page, pg_SN page)"
  by (simp add: rf_key_def page_refresh_def)

lemma start_got_ok_key: "start_got_ok r got \<Longrightarrow> rf_key got = rf_key r"
  by (simp add: start_got_ok_def rf_key_def)

lemma cat_invD:
  assumes "cat_inv s"
  shows "co_ok (sy_c s)" "exclusive commit_hold (commits (sy_c s)) (sy_threads s)"
    "exclusive mark_hold (stales (sy_c s)) (sy_threads s)" "thread_ok (sy_threads s t)"
    "log_ok (won (sy_c s) (sy_threads s)) (sy_log s)"
  using assms by (simp_all add: cat_inv_def)

lemma exclusive_granted: "exclusive hold P th \<Longrightarrow> hold (th t) = Some h \<Longrightarrow> P h"
  by (auto simp: exclusive_def)

lemma exclusive_eq:
  "exclusive hold P th \<Longrightarrow> hold (th t) = Some h \<Longrightarrow> hold (th t') = Some h \<Longrightarrow> t = t'"
  unfolding exclusive_def by blast

lemma inv_page_stale:
  assumes inv: "cat_inv s" and th: "commit_hold (sy_threads s t) = None" "mark_hold (sy_threads s t) = None"
    "\<And>k pid r. sy_threads s t \<noteq> Committed k pid r"
    and c: "co_ok c" "commits c = commits (sy_c s)" "\<not> stales (sy_c s) (rf_key r)"
      "stales c = (\<lambda>j. j = rf_key r \<or> stales (sy_c s) j)" "co_completed c = co_completed (sy_c s)"
  shows "cat_inv (goto s t (Marking r) c)"
  using inv c(1)
proof (rule cat_inv_goto)
  show "exclusive commit_hold (commits c) ((sy_threads s)(t := Marking r))"
    using cat_invD(2)[OF inv] by (rule exclusive_release) (simp_all add: c(2))
  show "exclusive mark_hold (stales c) ((sy_threads s)(t := Marking r))"
    using cat_invD(3)[OF inv] by (rule exclusive_acquire[where h = "rf_key r"]) (simp_all add: c(3,4))
  show "won c ((sy_threads s)(t := Marking r)) = won (sy_c s) (sy_threads s)"
    using c(5) th(3) by (rule won_goto) simp
qed simp

lemma inv_page_commit:
  assumes inv: "cat_inv s" and th: "sy_threads s t = Paging page now"
    and sec: "page_section (sy_c s) page now = (PageCommit pid got items dup, c)"
  shows "cat_inv (goto s t (Committing (pg_DeviceID page, pg_SN page) pid got items now) c)"
proof -
  note c = page_commit_spec[OF sec cat_invD(1)[OF inv]]
  show ?thesis
  proof (rule cat_inv_goto[OF inv])
    show "exclusive commit_hold (commits c)
      ((sy_threads s)(t := Committing (pg_DeviceID page, pg_SN page) pid got items now))"
      using cat_invD(2)[OF inv]
      by (rule exclusive_acquire[where h = "((pg_DeviceID page, pg_SN page), pid)"]) (use c in auto)
    show "exclusive mark_hold (stales c)
      ((sy_threads s)(t := Committing (pg_DeviceID page, pg_SN page) pid got items now))"
      using cat_invD(3)[OF inv] by (rule exclusive_release) (use c in simp_all)
    show "won c ((sy_threads s)(t := Committing (pg_DeviceID page, pg_SN page) pid got items now)) =
      won (sy_c s) (sy_threads s)"
      by (rule won_goto) (use c th in simp_all)
  qed (use c in simp_all)
qed

lemma snap_key_snapshot [simp]: "snap_key (snapshot_of got items now) = rf_key got"
  by (simp add: snap_key_def snapshot_of_def rf_key_def)

text \<open>The store accepts a catalog: nobody else has won this key.\<close>

lemma inv_replaced:
  assumes inv: "cat_inv s" and th: "sy_threads s t = Committing k pid got items now"
  shows "cat_inv ((goto s t (Committed k pid got) (sy_c s))
    \<lparr>sy_log := sy_log s @ [snapshot_of got items now]\<rparr>)"
proof -
  let ?W = "won (sy_c s) (sy_threads s)"
  let ?th = "(sy_threads s)(t := Committed k pid got)"
  have ok: "rf_key got = k" "int (length items) = rf_ExpectedCount got"
    "sorted (map it_ChannelID items)" "distinct (map it_ChannelID items)"
    using cat_invD(4)[OF inv, of t] th by simp_all
  have held: "commits (sy_c s) (k, pid)"
    using exclusive_granted[OF cat_invD(2)[OF inv], of t] th by simp
  then obtain p where p: "map_of (co_pending (sy_c s)) k = Some p" "pn_id p = pid"
    by (auto simp: commits_def)
  have "map_of (co_completed (sy_c s)) k = None" using co_okD[OF cat_invD(1)[OF inv] p(1)] by simp
  moreover have "sy_threads s t' \<noteq> Committed k pid' r" for t' pid' r
  proof
    assume *: "sy_threads s t' = Committed k pid' r"
    then have "commits (sy_c s) (k, pid')"
      using exclusive_granted[OF cat_invD(2)[OF inv], of t'] by simp
    with p have "pid' = pid" by (simp add: commits_def)
    with * th have "t = t'" by (intro exclusive_eq[OF cat_invD(2)[OF inv]]) simp_all
    with * th show False by simp
  qed
  ultimately have new: "\<not> ?W k r" for r by (simp add: won_def)
  have W: "won (sy_c s) ?th = (\<lambda>k' r. ?W k' r \<or> k' = k \<and> r = got)"
  proof (intro ext)
    fix k' r
    have "(\<exists>t' pid. ?th t' = Committed k' pid r) \<longleftrightarrow>
      k' = k \<and> r = got \<or> (\<exists>t' pid. t' \<noteq> t \<and> sy_threads s t' = Committed k' pid r)"
      by (auto simp del: split_paired_Ex)
    moreover have "sy_threads s t \<noteq> Committed k' pid r" for pid using th by simp
    then have "(\<exists>t' pid. sy_threads s t' = Committed k' pid r) \<longleftrightarrow>
      (\<exists>t' pid. t' \<noteq> t \<and> sy_threads s t' = Committed k' pid r)" by metis
    ultimately show "won (sy_c s) ?th k' r = (?W k' r \<or> k' = k \<and> r = got)"
      by (auto simp: won_def)
  qed
  have log: "log_ok ?W (sy_log s)" by (rule cat_invD(5)[OF inv])
  have "filter (\<lambda>sn. snap_key sn = k) (sy_log s) = []" using log_count[OF log, of k] new by simp
  then have none: "snap_key sn \<noteq> k" if "sn \<in> set (sy_log s)" for sn
    using that by (simp add: filter_empty_conv)
  have "log_ok (won (sy_c s) ?th) (sy_log s @ [snapshot_of got items now])"
    unfolding log_ok_def
  proof (intro conjI ballI allI)
    fix j
    show "length (filter (\<lambda>sn. snap_key sn = j) (sy_log s @ [snapshot_of got items now])) =
      (if \<exists>r. won (sy_c s) ?th j r then 1 else 0)"
      using log_count[OF log, of j] ok(1) new unfolding W by auto
  next
    fix sn
    assume "sn \<in> set (sy_log s @ [snapshot_of got items now])"
    then have sn: "sn \<in> set (sy_log s) \<or> sn = snapshot_of got items now" by auto
    have items: "sn_Items (snapshot_of got items now) = items" by (simp add: snapshot_of_def)
    from sn log_snapshot[OF log, of sn] none ok new items
    show "sorted (map it_ChannelID (sn_Items sn))" "distinct (map it_ChannelID (sn_Items sn))"
      "won (sy_c s) ?th (snap_key sn) r \<longrightarrow> int (length (sn_Items sn)) = rf_ExpectedCount r" for r
      unfolding W by auto
  qed
  moreover have "exclusive commit_hold (commits (sy_c s)) ?th" "exclusive mark_hold (stales (sy_c s)) ?th"
    using exclusive_keep[OF cat_invD(2)[OF inv], of "Committed k pid got" t]
      exclusive_keep[OF cat_invD(3)[OF inv], of "Committed k pid got" t] th by simp_all
  ultimately show ?thesis
    using inv ok(1) by (simp add: cat_inv_def)
qed

lemma inv_committed:
  assumes inv: "cat_inv s" and th: "sy_threads s t = Committed k pid got"
  shows "cat_inv (goto s t Idle (snd (commit_done (sy_c s) k pid got)))"
proof -
  let ?c = "snd (commit_done (sy_c s) k pid got)"
  have held: "commits (sy_c s) (k, pid)"
    using exclusive_granted[OF cat_invD(2)[OF inv], of t] th by simp
  have key: "rf_key got = k" using cat_invD(4)[OF inv, of t] th by simp
  note c = commit_done_spec[OF cat_invD(1)[OF inv] held key]
  have none: "map_of (co_completed (sy_c s)) k = None"
    using held cat_invD(1)[OF inv] by (auto simp: commits_def dest: co_okD)
  have W: "won ?c ((sy_threads s)(t := Idle)) k' r = won (sy_c s) (sy_threads s) k' r" for k' r
  proof -
    have "sy_threads s t = Committed k' pid' r \<longleftrightarrow> k' = k \<and> pid' = pid \<and> r = got" for pid'
      using th by auto
    then have "(\<exists>t' pid. sy_threads s t' = Committed k' pid r) \<longleftrightarrow>
      (k' = k \<and> r = got) \<or> (\<exists>t' pid. t' \<noteq> t \<and> sy_threads s t' = Committed k' pid r)" by metis
    moreover have "(\<exists>t' pid. ((sy_threads s)(t := Idle)) t' = Committed k' pid r) \<longleftrightarrow>
      (\<exists>t' pid. t' \<noteq> t \<and> sy_threads s t' = Committed k' pid r)"
      by (auto simp del: split_paired_Ex)
    ultimately have "(\<exists>t' pid. sy_threads s t' = Committed k' pid r) \<longleftrightarrow>
      (k' = k \<and> r = got) \<or> (\<exists>t' pid. ((sy_threads s)(t := Idle)) t' = Committed k' pid r)" by simp
    with c none show ?thesis by (auto simp: won_def)
  qed
  show ?thesis
  proof (rule cat_inv_goto[OF inv])
    show "exclusive commit_hold (commits ?c) ((sy_threads s)(t := Idle))"
      using cat_invD(2)[OF inv] by (rule exclusive_release) (use c th in auto)
    show "exclusive mark_hold (stales ?c) ((sy_threads s)(t := Idle))"
      using cat_invD(3)[OF inv] by (rule exclusive_release) (use c in auto)
    show "won ?c ((sy_threads s)(t := Idle)) = won (sy_c s) (sy_threads s)"
      using W by blast
  qed (use c in simp_all)
qed

lemma cat_step_inv: "cat_step s s' \<Longrightarrow> cat_inv s \<Longrightarrow> cat_inv s'"
proof (induction rule: cat_step.induct)
  case (ask s t f r)
  then show ?case by (intro cat_inv_move) (simp_all add: cat_invD)
next
  case (known s t page now r got)
  then show ?case by (intro cat_inv_move) (simp_all add: cat_invD)
next
  case (start_ok s t f r got)
  with cat_invD(4)[OF start_ok.prems, of t] show ?case by (intro cat_inv_move) (simp_all add: cat_invD)
next
  case (start_error s t f r)
  then show ?case by (intro cat_inv_move) (simp_all add: cat_invD)
next
  case (started s t f r got)
  have ok: "start_for_ok f r" "rf_key got = rf_key r"
    using cat_invD(4)[OF started.prems, of t] started.hyps by (auto dest: start_got_ok_key)
  note c = start_register_spec[OF cat_invD(1)[OF started.prems] ok(2)]
  have f: "thread_ok (resume f)" "commit_hold (resume f) = None" "mark_hold (resume f) = None"
    using ok(1) by (cases f; simp)+
  have nc: "resume f \<noteq> Committed k pid r" for k pid r by (cases f) simp_all
  from started c f nc show ?case by (intro cat_inv_move) simp_all
next
  case (page_done s t page now res c)
  with page_done_spec[OF page_done.hyps(2) cat_invD(1)[OF page_done.prems]] show ?case
    by (intro cat_inv_move) simp_all
next
  case (page_stale s t page now r c)
  with page_stale_spec[OF page_stale.hyps(2) cat_invD(1)[OF page_stale.prems]] show ?case
    by (intro inv_page_stale) simp_all
next
  case (page_commit s t page now pid got items dup c)
  then show ?case by (intro inv_page_commit)
next
  case (replaced s t k pid got items now)
  then show ?case by (intro inv_replaced)
next
  case (not_replaced s t k pid got items now)
  then show ?case by (intro cat_inv_move) (simp_all add: cat_invD)
next
  case (committed s t k pid got)
  then show ?case by (intro inv_committed)
next
  case (uncommitted s t k pid)
  note c = commit_failed_spec[OF cat_invD(1)[OF uncommitted.prems], of k pid]
  show ?case
  proof (rule cat_inv_goto[OF uncommitted.prems])
    show "exclusive commit_hold (commits (commit_failed (sy_c s) k pid)) ((sy_threads s)(t := Idle))"
      using cat_invD(2)[OF uncommitted.prems]
      by (rule exclusive_release) (use c uncommitted.hyps in auto)
    show "exclusive mark_hold (stales (commit_failed (sy_c s) k pid)) ((sy_threads s)(t := Idle))"
      using cat_invD(3)[OF uncommitted.prems] by (rule exclusive_release) (use c in simp_all)
    show "won (commit_failed (sy_c s) k pid) ((sy_threads s)(t := Idle)) = won (sy_c s) (sy_threads s)"
      by (rule won_goto) (use c uncommitted.hyps in simp_all)
  qed (use c in simp_all)
next
  case (expire s t k now r c)
  with expire_spec[OF expire.hyps(2) cat_invD(1)[OF expire.prems]] show ?case
    by (intro inv_page_stale) simp_all
next
  case (mark_ok s t r)
  then show ?case by (intro cat_inv_move) (simp_all add: cat_invD)
next
  case (mark_error s t r)
  then show ?case by (intro cat_inv_move) (simp_all add: cat_invD)
next
  case (marked s t r)
  have "stales (sy_c s) (rf_key r)"
    using exclusive_granted[OF cat_invD(3)[OF marked.prems], of t] marked.hyps by simp
  note c = stale_done_spec[OF cat_invD(1)[OF marked.prems] this]
  show ?case
  proof (rule cat_inv_goto[OF marked.prems])
    show "exclusive commit_hold (commits (stale_done (sy_c s) r)) ((sy_threads s)(t := Idle))"
      using cat_invD(2)[OF marked.prems] by (rule exclusive_release) (use c in simp_all)
    show "exclusive mark_hold (stales (stale_done (sy_c s) r)) ((sy_threads s)(t := Idle))"
      using cat_invD(3)[OF marked.prems] by (rule exclusive_release) (use c marked.hyps in auto)
    show "won (stale_done (sy_c s) r) ((sy_threads s)(t := Idle)) = won (sy_c s) (sy_threads s)"
      by (rule won_goto) (use c marked.hyps in simp_all)
  qed (use c in simp_all)
next
  case (mark_failed s t r)
  note c = resetStaling_spec[OF cat_invD(1)[OF mark_failed.prems], of r]
  show ?case
  proof (rule cat_inv_goto[OF mark_failed.prems])
    show "exclusive commit_hold (commits (resetStaling (sy_c s) r)) ((sy_threads s)(t := Idle))"
      using cat_invD(2)[OF mark_failed.prems] by (rule exclusive_release) (use c in simp_all)
    show "exclusive mark_hold (stales (resetStaling (sy_c s) r)) ((sy_threads s)(t := Idle))"
      using cat_invD(3)[OF mark_failed.prems] by (rule exclusive_release) (use c mark_failed.hyps in auto)
    show "won (resetStaling (sy_c s) r) ((sy_threads s)(t := Idle)) = won (sy_c s) (sy_threads s)"
      by (rule won_goto) (use c mark_failed.hyps in simp_all)
  qed (use c in simp_all)
qed

lemma cat_reach_inv: "cat_reach s \<Longrightarrow> cat_inv s"
  by (induction rule: cat_reach.induct) (auto intro: cat_inv_init cat_step_inv)

subsection \<open>A refresh that has received too much\<close>

definition overfull :: "coordinator \<Rightarrow> cat_key \<Rightarrow> bool" where
  "overfull c k \<longleftrightarrow> (case map_of (co_pending c) k of None \<Rightarrow> False
     | Some p \<Rightarrow> int (length (pn_items p)) > rf_ExpectedCount (pn_refresh p))"

lemma wf_map_length_mono:
  assumes "wf_map m" and "wf_map m'" and "map_of m \<subseteq>\<^sub>m map_of m'"
  shows "length m \<le> length m'"
proof -
  have "fst ` set m \<subseteq> fst ` set m'"
    using map_le_implies_dom_le[OF assms(3)] by (simp add: dom_map_of_conv_image_fst)
  then have "card (fst ` set m) \<le> card (fst ` set m')" by (intro card_mono) simp_all
  moreover have "card (fst ` set x) = length x" if "wf_map x" for x :: "('a \<times> 'b) list"
    using that distinct_card[of "map fst x"] by (simp add: wf_map_def)
  ultimately show ?thesis using assms(1,2) by simp
qed

lemma overfull_page:
  assumes "co_ok c" and "overfull c (pg_DeviceID page, pg_SN page)"
    and "page_section c page now = (out, c')"
  shows "(\<forall>pid got items dup. out \<noteq> PageCommit pid got items dup) \<and> overfull c' (pg_DeviceID page, pg_SN page)"
proof -
  let ?k = "(pg_DeviceID page, pg_SN page)"
  have more: "length (pn_items p) \<le> length items"
    if "map_of (co_pending c) ?k = Some p" "add_items (pn_items p) True (pg_Items page) = (items, d, cf)"
    for p items d cf
  proof (rule wf_map_length_mono)
    have i: "items_ok (pn_items p)" using co_okD[OF assms(1) that(1)] by (simp add: pending_ok_def)
    then show "wf_map (pn_items p)" "wf_map items"
      using add_items_ok[OF i, of True "pg_Items page"] that(2) by (simp_all add: items_ok_def)
    show "map_of (pn_items p) \<subseteq>\<^sub>m map_of items"
      using add_items_mono[of "pn_items p" True "pg_Items page"] that(2) by simp
  qed
  from assms(3) show ?thesis
  proof (cases rule: page_section_cases)
    case (1 res)
    with assms(2) show ?thesis by simp
  next
    case (2 p items dup conflict res)
    with assms(2) more[OF 2(2,3)] show ?thesis by (auto simp: overfull_def set_pending_def)
  next
    case (3 p)
    with assms(2) show ?thesis by (auto simp: overfull_def set_pending_def)
  next
    case (4 p items dup)
    with assms(2) more[OF 4(2,6)] show ?thesis by (auto simp: overfull_def)
  qed
qed

subsection \<open>Properties\<close>

text \<open>C6: however calls of \<open>Start\<close>, \<open>AcceptPage\<close> and \<open>Expire\<close> interleave and whatever store calls
fail, the catalog of a refresh is replaced at most once; every snapshot written has its channels
distinct and in ascending order; a completed refresh was replaced exactly once, by a snapshot with
exactly the expected number of items; and no successful replacement is lost: when no call is in
progress, a refresh whose catalog was replaced is completed.\<close>

theorem catalog_replaced_at_most_once:
  assumes "cat_reach s"
  shows "length (filter (\<lambda>sn. snap_key sn = k) (sy_log s)) \<le> 1 \<and>
    (\<forall>sn \<in> set (sy_log s). sorted (map it_ChannelID (sn_Items sn)) \<and>
       distinct (map it_ChannelID (sn_Items sn))) \<and>
    (\<forall>r. map_of (co_completed (sy_c s)) k = Some r \<longrightarrow>
       (\<exists>sn. filter (\<lambda>sn. snap_key sn = k) (sy_log s) = [sn] \<and>
          int (length (sn_Items sn)) = rf_ExpectedCount r)) \<and>
    ((\<forall>t. sy_threads s t = Idle) \<longrightarrow> map_of (co_completed (sy_c s)) k = None \<longrightarrow>
       filter (\<lambda>sn. snap_key sn = k) (sy_log s) = [])"
proof -
  have log: "log_ok (won (sy_c s) (sy_threads s)) (sy_log s)"
    using cat_invD(5)[OF cat_reach_inv[OF assms]] .
  let ?f = "filter (\<lambda>sn. snap_key sn = k) (sy_log s)"
  have 1: "length ?f \<le> 1" using log_count[OF log, of k] by (simp split: if_splits)
  have 2: "\<exists>sn. ?f = [sn] \<and> int (length (sn_Items sn)) = rf_ExpectedCount r"
    if r: "map_of (co_completed (sy_c s)) k = Some r" for r
  proof -
    have w: "won (sy_c s) (sy_threads s) k r" using r by (simp add: won_def)
    then have "length ?f = 1" using log_count[OF log, of k] by auto
    then obtain sn where sn: "?f = [sn]" by (auto simp: length_Suc_conv)
    then have "sn \<in> set ?f" by simp
    then have "sn \<in> set (sy_log s)" "snap_key sn = k" by simp_all
    with w sn log_snapshot[OF log this(1), of r] show ?thesis by auto
  qed
  have 3: "?f = []" if "\<forall>t. sy_threads s t = Idle" "map_of (co_completed (sy_c s)) k = None"
    using log_count[OF log, of k] that by (simp add: won_def)
  from 1 2 3 log_snapshot[OF log] show ?thesis by blast
qed

text \<open>a refresh that has been sent more channels than it announced can never complete: a page
for it is refused or changes nothing, its items stay and are still too many.\<close>

theorem overfull_never_commits:
  assumes "cat_reach s" and "overfull (sy_c s) (pg_DeviceID page, pg_SN page)"
    and "page_section (sy_c s) page now = (out, c')"
  shows "(\<forall>pid got items dup. out \<noteq> PageCommit pid got items dup) \<and>
    overfull c' (pg_DeviceID page, pg_SN page)"
  using overfull_page[OF cat_invD(1)[OF cat_reach_inv[OF assms(1)]] assms(2,3)] .

subsection \<open>Runs\<close>

definition ex_dev :: string where "ex_dev = ''34020000001110000001''"
definition ex_chan :: string where "ex_chan = ''34020000001310000001''"

definition ex_page :: Page where
  "ex_page = \<lparr>pg_DeviceID = ex_dev, pg_SN = 7, pg_SumNum = 1,
     pg_Items = [\<lparr>it_ChannelID = ex_chan, it_Name = ''gate'', it_Online = True\<rparr>]\<rparr>"

definition ex_refresh :: Refresh where
  "ex_refresh = page_refresh ex_page 1000"

lemma ex_page_valid: "validPage ex_page"
proof -
  have d: "cat_validDeviceID ex_dev" "cat_validDeviceID ex_chan" by code_simp+
  then show ?thesis
    by (simp add: validPage_def ex_page_def MaxItems_def MaxNameBytes_def)
qed

definition ex_pending :: pending where
  "ex_pending = \<lparr>pn_id = 0, pn_refresh = ex_refresh, pn_items = [], pn_staling = False,
     pn_committing = False\<rparr>"

definition ex_c1 :: coordinator where
  "ex_c1 = \<lparr>co_pending = [((ex_dev, 7), ex_pending)], co_completed = [], co_stale = [], co_next = 1\<rparr>"

lemma ex_refresh_simps [simp]:
  "rf_key ex_refresh = (ex_dev, 7)" "rf_ExpectedCount ex_refresh = 1"
  "rf_Deadline ex_refresh = 1000 + RefreshTimeout" "start_got_ok ex_refresh ex_refresh"
  by (simp_all add: ex_refresh_def page_refresh_def ex_page_def rf_key_def start_got_ok_def
      RefreshTimeout_def second_def is_zero_iff)

lemma ex_start: "start_register NewCoordinator (ex_dev, 7) ex_refresh = (ex_refresh, ex_c1)"
  by (simp add: start_register_def NewCoordinator_def ex_c1_def ex_pending_def)

text \<open>One call of \<open>AcceptPage\<close> up to its page section.\<close>

lemma ex_reach_paging:
  "\<exists>th. cat_reach \<lparr>sy_c = ex_c1, sy_threads = th, sy_log = []\<rparr> \<and> th 0 = Paging ex_page 1000 \<and>
     (\<forall>t. t \<noteq> 0 \<longrightarrow> th t = Idle)"
proof -
  let ?f = "ForPage ex_page 1000"
  let ?s1 = "goto cat_init 0 (Starting ?f ex_refresh) NewCoordinator"
  let ?s2 = "goto ?s1 0 (Started ?f ex_refresh ex_refresh) NewCoordinator"
  let ?s3 = "goto ?s2 0 (resume ?f) ex_c1"
  have "cat_step cat_init ?s1"
    using cat_step.ask[of cat_init 0 ?f ex_refresh]
    by (simp add: cat_init_def ex_page_valid ex_refresh_def start_lookup_def NewCoordinator_def)
  moreover have "cat_step ?s1 ?s2"
    using cat_step.start_ok[of ?s1 0 ?f ex_refresh ex_refresh] by simp
  moreover have "cat_step ?s2 ?s3"
    using cat_step.started[of ?s2 0 ?f ex_refresh ex_refresh] by (simp add: ex_start)
  ultimately have "cat_reach ?s3" by (blast intro: cat_reach.intros)
  moreover have "?s3 = \<lparr>sy_c = ex_c1, sy_threads = sy_threads ?s3, sy_log = []\<rparr>"
    by (simp add: goto_def cat_init_def)
  ultimately show ?thesis by (intro exI[of _ "sy_threads ?s3"]) (simp add: goto_def cat_init_def)
qed

definition ex_item :: Item where
  "ex_item = \<lparr>it_ChannelID = ex_chan, it_Name = ''gate'', it_Online = True\<rparr>"

definition ex_c2 :: coordinator where
  "ex_c2 = \<lparr>co_pending = [((ex_dev, 7), ex_pending\<lparr>pn_items := [(ex_chan, ex_item)], pn_committing := True\<rparr>)],
     co_completed = [], co_stale = [], co_next = 1\<rparr>"

lemma ex_section:
  "page_section ex_c1 ex_page 1000 = (PageCommit 0 ex_refresh [ex_item] False, ex_c2)"
  by (simp add: page_section_def ex_c1_def ex_c2_def ex_page_def ex_pending_def ex_item_def
      set_pending_def RefreshTimeout_def second_def Let_def)

lemma ex_reach_committing:
  "\<exists>th. cat_reach \<lparr>sy_c = ex_c2, sy_threads = th, sy_log = []\<rparr> \<and>
     th 0 = Committing (ex_dev, 7) 0 ex_refresh [ex_item] 1000 \<and> (\<forall>t. t \<noteq> 0 \<longrightarrow> th t = Idle)"
proof -
  obtain th where th: "cat_reach \<lparr>sy_c = ex_c1, sy_threads = th, sy_log = []\<rparr>"
    "th 0 = Paging ex_page 1000" "\<forall>t. t \<noteq> 0 \<longrightarrow> th t = Idle" using ex_reach_paging by blast
  let ?s = "\<lparr>sy_c = ex_c1, sy_threads = th, sy_log = []\<rparr>"
  have "cat_step ?s (goto ?s 0 (Committing (ex_dev, 7) 0 ex_refresh [ex_item] 1000) ex_c2)"
    using cat_step.page_commit[of ?s 0 ex_page 1000 0 ex_refresh "[ex_item]" False ex_c2] th(2) ex_section
    by (simp add: ex_page_def)
  with th(1) have "cat_reach (goto ?s 0 (Committing (ex_dev, 7) 0 ex_refresh [ex_item] 1000) ex_c2)"
    by (rule cat_reach.step)
  then show ?thesis
    using th(3) by (intro exI[of _ "th(0 := Committing (ex_dev, 7) 0 ex_refresh [ex_item] 1000)"])
      (simp add: goto_def)
qed

theorem catalog_replaced_at_most_once_witness:
  "\<exists>s sn. cat_reach s \<and> filter (\<lambda>sn. snap_key sn = (ex_dev, 7)) (sy_log s) = [sn] \<and>
     length (sn_Items sn) = 1"
proof -
  obtain th where th: "cat_reach \<lparr>sy_c = ex_c2, sy_threads = th, sy_log = []\<rparr>"
    "th 0 = Committing (ex_dev, 7) 0 ex_refresh [ex_item] 1000" using ex_reach_committing by blast
  let ?s = "\<lparr>sy_c = ex_c2, sy_threads = th, sy_log = []\<rparr>"
  let ?s1 = "(goto ?s 0 (Committed (ex_dev, 7) 0 ex_refresh) ex_c2)
    \<lparr>sy_log := [snapshot_of ex_refresh [ex_item] 1000]\<rparr>"
  let ?s2 = "goto ?s1 0 Idle (snd (commit_done ex_c2 (ex_dev, 7) 0 ex_refresh))"
  have "cat_step ?s ?s1"
    using cat_step.replaced[of ?s 0 "(ex_dev, 7)" 0 ex_refresh "[ex_item]" 1000] th(2) by simp
  moreover have "cat_step ?s1 ?s2"
    using cat_step.committed[of ?s1 0 "(ex_dev, 7)" 0 ex_refresh] by simp
  ultimately have r: "cat_reach ?s2" using th(1) by (blast intro: cat_reach.step)
  have "map_of (co_completed (sy_c ?s2)) (ex_dev, 7) = Some ex_refresh"
    by (simp add: commit_done_def ex_c2_def ex_pending_def)
  with catalog_replaced_at_most_once[OF r, of "(ex_dev, 7)"] r show ?thesis
    by (metis ex_refresh_simps(2) of_nat_eq_1_iff)
qed

definition ex_item2 :: Item where
  "ex_item2 = \<lparr>it_ChannelID = ''34020000001310000002'', it_Name = ''pond'', it_Online = False\<rparr>"

definition ex_page2 :: Page where
  "ex_page2 = ex_page\<lparr>pg_Items := [ex_item2]\<rparr>"

lemma ex_page2_valid: "validPage ex_page2"
proof -
  have d: "cat_validDeviceID ex_dev" "cat_validDeviceID ''34020000001310000002''" by code_simp+
  then show ?thesis
    by (simp add: validPage_def ex_page2_def ex_page_def ex_item2_def MaxItems_def MaxNameBytes_def)
qed

definition ex_c3 :: coordinator where
  "ex_c3 = \<lparr>co_pending = [((ex_dev, 7), ex_pending\<lparr>pn_items := [(ex_chan, ex_item)]\<rparr>)],
     co_completed = [], co_stale = [], co_next = 1\<rparr>"

definition ex_c4 :: coordinator where
  "ex_c4 = \<lparr>co_pending = [((ex_dev, 7), ex_pending\<lparr>pn_items :=
       [(ex_chan, ex_item), (''34020000001310000002'', ex_item2)]\<rparr>)],
     co_completed = [], co_stale = [], co_next = 1\<rparr>"

lemma ex_fail: "commit_failed ex_c2 (ex_dev, 7) 0 = ex_c3"
  by (simp add: commit_failed_def ex_c2_def ex_c3_def ex_pending_def set_pending_def)

lemma ex_section2: "page_section ex_c3 ex_page2 1001 = (PageDone (Inl CatInvalid), ex_c4)"
  by (simp add: page_section_def ex_c3_def ex_c4_def ex_page_def ex_page2_def ex_pending_def ex_item2_def
      ex_item_def ex_chan_def set_pending_def RefreshTimeout_def second_def Let_def)

theorem overfull_never_commits_witness:
  "\<exists>s. cat_reach s \<and> overfull (sy_c s) (ex_dev, 7) \<and>
     overfull (snd (page_section (sy_c s) ex_page 1002)) (ex_dev, 7)"
proof -
  obtain th where th: "cat_reach \<lparr>sy_c = ex_c2, sy_threads = th, sy_log = []\<rparr>"
    "th 0 = Committing (ex_dev, 7) 0 ex_refresh [ex_item] 1000" using ex_reach_committing by blast
  let ?s = "\<lparr>sy_c = ex_c2, sy_threads = th, sy_log = []\<rparr>"
  let ?s1 = "goto ?s 0 (CommitFailed (ex_dev, 7) 0) ex_c2"
  let ?s2 = "goto ?s1 0 Idle ex_c3"
  let ?s3 = "goto ?s2 0 (Paging ex_page2 1001) ex_c3"
  let ?s4 = "goto ?s3 0 Idle ex_c4"
  have l: "start_lookup ex_c3 (page_refresh ex_page2 1001) = Some (Inr ex_refresh)"
    by (simp add: start_lookup_def ex_c3_def ex_pending_def page_refresh_def rf_key_def ex_page2_def
        ex_page_def Let_def)
  have "cat_step ?s ?s1"
    using cat_step.not_replaced[of ?s 0 "(ex_dev, 7)" 0 ex_refresh "[ex_item]" 1000] th(2) by simp
  moreover have "cat_step ?s1 ?s2"
    using cat_step.uncommitted[of ?s1 0 "(ex_dev, 7)" 0] by (simp add: ex_fail)
  moreover have "cat_step ?s2 ?s3"
    using cat_step.known[of ?s2 0 ex_page2 1001 "page_refresh ex_page2 1001" ex_refresh] l ex_page2_valid
    by simp
  moreover have "cat_step ?s3 ?s4"
    using cat_step.page_done[of ?s3 0 ex_page2 1001 "Inl CatInvalid" ex_c4] by (simp add: ex_section2)
  ultimately have r: "cat_reach ?s4" using th(1) by (blast intro: cat_reach.step)
  have o: "overfull (sy_c ?s4) (pg_DeviceID ex_page, pg_SN ex_page)"
    by (simp add: overfull_def ex_c4_def ex_pending_def ex_page_def)
  obtain out c' where p: "page_section (sy_c ?s4) ex_page 1002 = (out, c')" by fastforce
  have "overfull c' (pg_DeviceID ex_page, pg_SN ex_page)" using overfull_never_commits[OF r o p] by blast
  with r o p show ?thesis by (intro exI[of _ ?s4]) (simp add: ex_page_def)
qed

text \<open>C8: the second section of \<open>start\<close> does not look at \<open>stale\<close>: when a refresh becomes stale
between the two sections of another call that started it, that call files it as pending again,
and from then on it is found pending although it has been declared stale.\<close>

theorem stale_refresh_resurrected:
  "\<exists>s. cat_reach s \<and> map_of (co_stale (sy_c s)) (ex_dev, 7) = Some ex_refresh \<and>
     start_lookup (sy_c s) ex_refresh = Some (Inr ex_refresh)"
proof -
  let ?f = "ForPage ex_page 1000" and ?n = "11000000000 :: time"
  let ?s1 = "goto cat_init 0 (Starting ?f ex_refresh) NewCoordinator"
  let ?s2 = "goto ?s1 0 (Started ?f ex_refresh ex_refresh) NewCoordinator"
  let ?s3 = "goto ?s2 1 (Starting ?f ex_refresh) NewCoordinator"
  let ?s4 = "goto ?s3 1 (Started ?f ex_refresh ex_refresh) NewCoordinator"
  let ?s5 = "goto ?s4 1 (resume ?f) ex_c1"
  let ?c = "set_pending (ex_dev, 7) (ex_pending\<lparr>pn_staling := True\<rparr>) ex_c1"
  let ?s6 = "goto ?s5 2 (Marking ex_refresh) ?c"
  let ?s7 = "goto ?s6 2 (Marked ex_refresh) ?c"
  let ?s8 = "goto ?s7 2 Idle (stale_done ?c ex_refresh)"
  let ?s9 = "goto ?s8 0 (resume ?f) (snd (start_register (stale_done ?c ex_refresh) (ex_dev, 7) ex_refresh))"
  have l: "start_for_ok ?f ex_refresh" "start_lookup NewCoordinator ex_refresh = None"
    by (simp_all add: ex_page_valid ex_refresh_def start_lookup_def NewCoordinator_def)
  have e: "expire_section ex_c1 (ex_dev, 7) ?n = (ExpireStale ex_refresh, ?c)"
    by (simp add: expire_section_def ex_c1_def ex_pending_def RefreshTimeout_def second_def)
  have st1: "cat_step cat_init ?s1"
    using cat_step.ask[of cat_init 0 ?f ex_refresh] l by (simp add: cat_init_def)
  have st2: "cat_step ?s1 ?s2"
    using cat_step.start_ok[of ?s1 0 ?f ex_refresh ex_refresh] by simp
  have st3: "cat_step ?s2 ?s3"
    using cat_step.ask[of ?s2 1 ?f ex_refresh] l by (simp add: cat_init_def)
  have st4: "cat_step ?s3 ?s4"
    using cat_step.start_ok[of ?s3 1 ?f ex_refresh ex_refresh] by simp
  have st5: "cat_step ?s4 ?s5"
    using cat_step.started[of ?s4 1 ?f ex_refresh ex_refresh] by (simp add: ex_start)
  have st6: "cat_step ?s5 ?s6"
    using cat_step.expire[of ?s5 2 "(ex_dev, 7)" ?n ex_refresh ?c] e by (simp add: cat_init_def)
  have st7: "cat_step ?s6 ?s7" using cat_step.mark_ok[of ?s6 2 ex_refresh] by simp
  have st8: "cat_step ?s7 ?s8" using cat_step.marked[of ?s7 2 ex_refresh] by simp
  have st9: "cat_step ?s8 ?s9"
    using cat_step.started[of ?s8 0 ?f ex_refresh ex_refresh] by simp
  have "cat_reach ?s9" 
    by (rule cat_reach.step[OF cat_reach.step[OF cat_reach.step[OF cat_reach.step[OF cat_reach.step[OF cat_reach.step[OF cat_reach.step[OF cat_reach.step[OF cat_reach.step[OF cat_reach.init st1] st2] st3] st4] st5] st6] st7] st8] st9])
  moreover have "map_of (co_stale (sy_c ?s9)) (ex_dev, 7) = Some ex_refresh"
    "start_lookup (sy_c ?s9) ex_refresh = Some (Inr ex_refresh)"
    by (simp_all add: start_register_def stale_done_def set_pending_def ex_c1_def start_lookup_def Let_def)
  ultimately show ?thesis by blast
qed

end
