(* ===== verification/Catalog_Store.thy ===== *)
theory Catalog_Store
  imports Catalog_Interleaving
begin

text \<open>
  \<open>internal/gbcatalogpg/store.go\<close>: the catalog store over the tables \<open>video_gb_devices\<close>,
  \<open>video_gb_catalogs\<close>, \<open>video_gb_catalog_items\<close> and \<open>video_gb_channels\<close>, and the contract
  \<open>catalog_store\<close> the coordinator relies on. A catalog is identified by its unique pair of device
  key and serial number (the UUID only names that row). Each call is a transaction; \<open>cg_fails n\<close>
  says that its \<open>n\<close>-th statement is refused by the database. \<open>stored\<close> is the precision of a stored
  instant. The invariant is the schema's uniqueness constraints.
\<close>

subsection \<open>The contract\<close>

text \<open>A page result that completes its refresh for the first time.\<close>

definition newly_complete :: "coordinator \<Rightarrow> Page \<Rightarrow> (cat_error, PageResult) result \<Rightarrow> bool" where
  "newly_complete c page res \<longleftrightarrow> map_of (co_completed c) (pg_DeviceID page, pg_SN page) = None \<and>
     (case res of Inl _ \<Rightarrow> False | Inr r \<Rightarrow> pr_Complete r)"

lemma page_done_not_complete:
  "page_section c page now = (PageDone res, c') \<Longrightarrow> \<not> newly_complete c page res"
  by (auto simp: page_section_def newly_complete_def Let_def
      split: option.split_asm if_split_asm prod.split_asm)

text \<open>\<open>present s d\<close>: the channels the store shows for device \<open>d\<close>.\<close>

locale catalog_store =
  fixes ops :: "'s catalog_ops"
    and inv :: "'s \<Rightarrow> bool"
    and present :: "'s \<Rightarrow> string \<Rightarrow> Item set"
  assumes start_inv: "inv s \<Longrightarrow> inv (snd (cs_StartRefresh ops s r))"
    and replace_inv: "inv s \<Longrightarrow> inv (snd (cs_ReplaceCatalog ops s sn))"
    and stale_inv: "inv s \<Longrightarrow> inv (snd (cs_MarkStale ops s d t))"
    and start_present: "inv s \<Longrightarrow> present (snd (cs_StartRefresh ops s r)) d = present s d"
    and stale_present: "inv s \<Longrightarrow> present (snd (cs_MarkStale ops s i t)) d = present s d"
    and replace_error: "cs_ReplaceCatalog ops s sn = (Some e, s') \<Longrightarrow> s' = s"
    and replace_ok: "inv s \<Longrightarrow> cs_ReplaceCatalog ops s sn = (None, s') \<Longrightarrow>
      present s' (sn_DeviceID sn) = set (sn_Items sn)"
    and replace_frame: "inv s \<Longrightarrow> cs_ReplaceCatalog ops s sn = (None, s') \<Longrightarrow> d \<noteq> sn_DeviceID sn \<Longrightarrow>
      present s' d = present s d"
begin

lemma start_keeps:
  assumes "inv s" and "start ops ended now (c, s) r = (res, c', s')"
  shows "inv s' \<and> present s' d = present s d"
  using assms start_inv[OF assms(1), of r] start_present[OF assms(1), of r d]
  by (auto simp: start_def split: option.split_asm if_split_asm prod.split_asm sum.split_asm)

lemma mark_keeps:
  assumes "inv s" and "markStale ops ended (c, s) r now = (res, c', s')"
  shows "inv s' \<and> present s' d = present s d"
  using assms stale_inv[OF assms(1), of "rf_DeviceID r" now]
    stale_present[OF assms(1), of "rf_DeviceID r" now d]
  by (auto simp: markStale_def split: option.split_asm if_split_asm prod.split_asm)

text \<open>
  A page either leaves what the store shows alone, or completes its refresh: then the store shows
  exactly the items collected for it, and nothing else has changed.
\<close>

lemma finish_page_effect:
  assumes ok: "co_ok c" and inv: "inv s"
    and fin: "finish_page ops ended now (c, s) page = (res, c', s')"
  shows "inv s' \<and>
    (if newly_complete c page res
     then (\<exists>p items dup. map_of (co_pending c) (pg_DeviceID page, pg_SN page) = Some p \<and>
        add_items (pn_items p) True (pg_Items page) = (items, dup, False) \<and>
        int (length items) = rf_ExpectedCount (pn_refresh p) \<and>
        present s' (pg_DeviceID page) = snd ` set items \<and>
        (\<forall>d. d \<noteq> pg_DeviceID page \<longrightarrow> present s' d = present s d))
     else \<forall>d. present s' d = present s d)"
proof -
  let ?k = "(pg_DeviceID page, pg_SN page)"
  obtain out c1 where sec: "page_section c page now = (out, c1)" by fastforce
  have "(\<exists>res'. out = PageDone res') \<Longrightarrow> ?thesis"
    using fin sec inv page_done_not_complete[of c page now res c1] by (auto simp: finish_page_def)
  moreover have ?thesis if 3: "out = PageStale r" for r
  proof -
    from 3 fin sec obtain x where "markStale ops ended (c1, s) r now = (x, c', s')" "\<exists>e. res = Inl e"
      by (auto simp: finish_page_def split: prod.split_asm option.split_asm)
    with mark_keeps[OF inv this(1)] show ?thesis by (auto simp: newly_complete_def)
  qed
  moreover have ?thesis if out: "out = PageCommit pid got its d" for pid got its d
    using sec
  proof (cases rule: page_section_cases)
    case (4 p items dup)
    let ?snap = "\<lparr>sn_DeviceID = rf_DeviceID (pn_refresh p), sn_SN = rf_SN (pn_refresh p),
      sn_Items = sort_key it_ChannelID (map snd items), sn_ObservedAt = now\<rparr>"
    have d: "rf_DeviceID (pn_refresh p) = pg_DeviceID page"
      using co_okD[OF ok 4(2)] by (simp add: pending_ok_def rf_key_def)
    have none: "map_of (co_completed c) ?k = None" using co_okD[OF ok 4(2)] by simp
    have win: "fst (commit_done c1 ?k (pn_id p) (pn_refresh p))"
      using 4(8) by (simp add: commit_done_def set_pending_def)
    then obtain c2 where w: "commit_done c1 ?k (pn_id p) (pn_refresh p) = (True, c2)"
      by (metis prod.collapse)
    obtain ce s1 where r: "cs_ReplaceCatalog ops s ?snap = (ce, s1)" by fastforce
    consider "s' = s" "\<not> is_ok res"
      | e where "cs_ReplaceCatalog ops s ?snap = (Some e, s')" "\<not> is_ok res"
      | "cs_ReplaceCatalog ops s ?snap = (None, s')"
          "res = Inr \<lparr>pr_Refresh = pn_refresh p, pr_Complete = True, pr_Duplicate = dup\<rparr>"
      using fin[symmetric] sec r w 4(1)
      by (cases "boundedContext ended (rf_Deadline (pn_refresh p)) now"; cases ce)
         (simp_all add: finish_page_def)
    then show ?thesis
    proof cases
      case r: 3
      have "present s' (pg_DeviceID page) = snd ` set items" using replace_ok[OF inv r(1)] d by simp
      moreover have "present s' x = present s x" if "x \<noteq> pg_DeviceID page" for x
        using replace_frame[OF inv r(1), of x] d that by simp
      moreover have "inv s'" using replace_inv[OF inv, of ?snap] r(1) by simp
      moreover have "newly_complete c page res" using r(2) none by (simp add: newly_complete_def)
      ultimately show ?thesis using 4(2,6,7) by auto
    next
      case r: (2 e)
      with replace_error[OF r(1)] inv show ?thesis
        by (auto simp: newly_complete_def is_ok_def split: sum.split_asm)
    qed (use inv in \<open>auto simp: newly_complete_def is_ok_def split: sum.split_asm\<close>)
  qed (use out in simp_all)
  ultimately show ?thesis by (cases out) blast+
qed

end

subsection \<open>Tables\<close>

record cat_device_row =
  cd_pk :: int
  cd_tenant :: int
  cd_state :: string

record catalog_row =
  cc_tenant :: int
  cc_expected :: int
  cc_expires :: time
  cc_state :: string
  cc_received :: int
  cc_pages :: int
  cc_last_page :: "time option"
  cc_completed_at :: "time option"
  cc_failed_at :: "time option"

record channel_row =
  ch_tenant :: int
  ch_name :: string
  ch_online :: bool
  ch_present :: bool
  ch_sn :: int

record cat_pg =
  cg_devices :: "(string \<times> cat_device_row) list"
  cg_catalogs :: "((int \<times> int) \<times> catalog_row) list"
  cg_items :: "(((int \<times> int) \<times> string) \<times> Item) list"
  cg_channels :: "((int \<times> string) \<times> channel_row) list"
  cg_now :: time
  cg_clock :: time
  cg_fails :: "nat \<Rightarrow> bool"

definition cpg_validRefresh :: "time \<Rightarrow> Refresh \<Rightarrow> bool" where
  "cpg_validRefresh now v \<longleftrightarrow> cat_validDeviceID (rf_DeviceID v) \<and> rf_SN v > 0 \<and>
     rf_ExpectedCount v \<ge> 0 \<and> rf_ExpectedCount v \<le> int MaxItems \<and> \<not> is_zero (rf_Deadline v) \<and>
     rf_Deadline v > now \<and> time_sub (rf_Deadline v) now \<le> RefreshTimeout + second"

fun snapshot_items_ok :: "string list \<Rightarrow> Item list \<Rightarrow> bool" where
  "snapshot_items_ok seen [] = True"
| "snapshot_items_ok seen (i # r) =
     (if \<not> cat_validDeviceID (it_ChannelID i) \<or> length (it_Name i) = 0 \<or>
         length (it_Name i) > MaxNameBytes then False
      else if it_ChannelID i \<in> set seen then False
      else snapshot_items_ok (it_ChannelID i # seen) r)"

definition validSnapshot :: "Snapshot \<Rightarrow> bool" where
  "validSnapshot v =
     (if \<not> cat_validDeviceID (sn_DeviceID v) \<or> sn_SN v \<le> 0 \<or> is_zero (sn_ObservedAt v) \<or>
         length (sn_Items v) > MaxItems then False
      else snapshot_items_ok [] (sn_Items v))"

subsection \<open>StartRefresh\<close>

definition set_device_state :: "string \<Rightarrow> string \<Rightarrow> cat_pg \<Rightarrow> cat_pg" where
  "set_device_state d st s =
     s\<lparr>cg_devices := (case map_of (cg_devices s) d of None \<Rightarrow> cg_devices s
         | Some row \<Rightarrow> AList.update d (row\<lparr>cd_state := st\<rparr>) (cg_devices s))\<rparr>"

definition cpg_StartRefresh ::
  "(time \<Rightarrow> time) \<Rightarrow> cat_pg \<Rightarrow> Refresh \<Rightarrow> (cat_error, Refresh) result \<times> cat_pg" where
  "cpg_StartRefresh stored s refresh =
     (if \<not> cpg_validRefresh (cg_now s) refresh then (Inl CatInvalid, s)
      else if cg_fails s 0 \<or> cg_fails s 1 then (Inl CatStore, s)
      else (case map_of (cg_devices s) (rf_DeviceID refresh) of
        None \<Rightarrow> (Inl CatInvalid, s)
      | Some dev \<Rightarrow>
          if cg_fails s 2 then (Inl CatStore, s)
          else (case map_of (cg_catalogs s) (cd_pk dev, rf_SN refresh) of
            Some row \<Rightarrow>
              (if cc_state row = ''collecting'' \<and> cc_expires row > cg_now s then
                 (if cc_expected row \<noteq> rf_ExpectedCount refresh then (Inl CatInvalid, s)
                  else if cg_fails s 3 then (Inl CatStore, s)
                  else (Inr (refresh\<lparr>rf_ExpectedCount := cc_expected row,
                                    rf_Deadline := cc_expires row\<rparr>), s))
               else if cc_state row = ''collecting'' then
                 (if cg_fails s 3 \<or> cg_fails s 4 \<or> cg_fails s 5 then (Inl CatStore, s)
                  else (Inl CatDeadline,
                        set_device_state (rf_DeviceID refresh) ''stale''
                          (s\<lparr>cg_catalogs := AList.update (cd_pk dev, rf_SN refresh)
                               (row\<lparr>cc_state := ''failed'', cc_failed_at := Some (cg_clock s)\<rparr>)
                               (cg_catalogs s)\<rparr>)))
               else (Inl CatInvalid, s))
          | None \<Rightarrow>
              if cg_fails s 3 \<or> cg_fails s 4 \<or> cg_fails s 5 then (Inl CatStore, s)
              else (Inr refresh,
                    set_device_state (rf_DeviceID refresh) ''refreshing''
                      (s\<lparr>cg_catalogs := AList.update (cd_pk dev, rf_SN refresh)
                           \<lparr>cc_tenant = cd_tenant dev, cc_expected = rf_ExpectedCount refresh,
                            cc_expires = stored (rf_Deadline refresh), cc_state = ''collecting'',
                            cc_received = 0, cc_pages = 0, cc_last_page = None,
                            cc_completed_at = None, cc_failed_at = None\<rparr> (cg_catalogs s)\<rparr>)))))"

subsection \<open>ReplaceCatalog\<close>

definition put_channel :: "int \<Rightarrow> int \<Rightarrow> int \<Rightarrow> Item \<Rightarrow> ((int \<times> string) \<times> channel_row) list \<Rightarrow>
    ((int \<times> string) \<times> channel_row) list" where
  "put_channel pk tenant sn i ch =
     AList.update (pk, it_ChannelID i)
       \<lparr>ch_tenant = tenant, ch_name = it_Name i, ch_online = it_Online i, ch_present = True, ch_sn = sn\<rparr> ch"

text \<open>A text value PostgreSQL stores: UTF-8 without a zero byte.\<close>

definition pg_text :: "string \<Rightarrow> bool" where
  "pg_text s \<longleftrightarrow> validString s \<and> 0 \<notin> set (codes s)"

text \<open>The insertion loop from statement \<open>n\<close>; \<open>None\<close> when a statement is refused.\<close>

fun insert_items :: "(nat \<Rightarrow> bool) \<Rightarrow> nat \<Rightarrow> int \<Rightarrow> int \<Rightarrow> int \<Rightarrow> Item list \<Rightarrow> cat_pg \<Rightarrow> cat_pg option" where
  "insert_items fails n pk tenant sn [] s = Some s"
| "insert_items fails n pk tenant sn (i # r) s =
     (if fails n \<or> \<not> pg_text (it_Name i) then None
      else if fails (Suc n) then None
      else insert_items fails (n + 2) pk tenant sn r
             (s\<lparr>cg_items := AList.update ((pk, sn), it_ChannelID i) i (cg_items s),
               cg_channels := put_channel pk tenant sn i (cg_channels s)\<rparr>))"

text \<open>The channels of the device that the catalog does not list are no longer present.\<close>

definition hide_missing :: "int \<Rightarrow> int \<Rightarrow> cat_pg \<Rightarrow> cat_pg" where
  "hide_missing pk sn s =
     s\<lparr>cg_channels := map (\<lambda>((d, i), row).
          ((d, i), if d = pk \<and> ((pk, sn), i) \<notin> fst ` set (cg_items s)
                   then row\<lparr>ch_present := False, ch_online := False\<rparr> else row)) (cg_channels s)\<rparr>"

definition cpg_ReplaceCatalog ::
  "(time \<Rightarrow> time) \<Rightarrow> cat_pg \<Rightarrow> Snapshot \<Rightarrow> cat_error option \<times> cat_pg" where
  "cpg_ReplaceCatalog stored s snapshot =
     (if \<not> validSnapshot snapshot then (Some CatInvalid, s)
      else if cg_fails s 0 \<or> cg_fails s 1 then (Some CatStore, s)
      else (case map_of (cg_devices s) (sn_DeviceID snapshot) of
        None \<Rightarrow> (Some CatInvalid, s)
      | Some dev \<Rightarrow>
          (let k = (cd_pk dev, sn_SN snapshot) in
           case map_of (cg_catalogs s) k of
             None \<Rightarrow> (Some CatInvalid, s)
           | Some row \<Rightarrow>
               if cc_state row \<noteq> ''collecting'' then (Some CatInvalid, s)
               else if cc_expected row \<noteq> int (length (sn_Items snapshot)) then (Some CatInvalid, s)
               else if \<not> sn_ObservedAt snapshot < cc_expires row \<or> \<not> cg_clock s < cc_expires row
               then (Some CatDeadline, s)
               else if cg_fails s 2 then (Some CatStore, s)
               else (let n = 3 + 2 * length (sn_Items snapshot) in
                 case insert_items (cg_fails s) 3 (cd_pk dev) (cc_tenant row) (sn_SN snapshot)
                        (sn_Items snapshot)
                        (s\<lparr>cg_items := filter (\<lambda>((c, _), _). c \<noteq> k) (cg_items s)\<rparr>) of
                   None \<Rightarrow> (Some CatStore, s)
                 | Some t \<Rightarrow>
                     if cg_fails s n \<or> cg_fails s (n + 1) \<or> cg_fails s (n + 2) \<or> cg_fails s (n + 3)
                     then (Some CatStore, s)
                     else (let t = hide_missing (cd_pk dev) (sn_SN snapshot) t;
                               at = stored (sn_ObservedAt snapshot) in
                       (None,
                        set_device_state (sn_DeviceID snapshot) ''ready''
                          (t\<lparr>cg_catalogs := AList.update k
                               (row\<lparr>cc_state := ''complete'',
                                    cc_received := int (length (sn_Items snapshot)),
                                    cc_pages := max (cc_pages row) 1, cc_last_page := Some at,
                                    cc_completed_at := Some at, cc_failed_at := None\<rparr>)
                               (cg_catalogs t)\<rparr>)))))))"

subsection \<open>MarkStale\<close>

definition cpg_MarkStale ::
  "(time \<Rightarrow> time) \<Rightarrow> cat_pg \<Rightarrow> string \<Rightarrow> time \<Rightarrow> cat_error option \<times> cat_pg" where
  "cpg_MarkStale stored s deviceID at =
     (if \<not> cat_validDeviceID deviceID \<or> is_zero at then (Some CatInvalid, s)
      else if cg_fails s 0 \<or> cg_fails s 1 then (Some CatStore, s)
      else (case map_of (cg_devices s) deviceID of
        None \<Rightarrow> (Some CatInvalid, s)
      | Some dev \<Rightarrow>
          if cg_fails s 2 \<or> cg_fails s 3 \<or> cg_fails s 4 then (Some CatStore, s)
          else (let cats = map (\<lambda>((d, n), row). ((d, n),
                       if d = cd_pk dev \<and> cc_state row = ''collecting'' \<and> cc_expires row \<le> stored at
                       then row\<lparr>cc_state := ''failed'', cc_failed_at := Some (stored at)\<rparr> else row))
                     (cg_catalogs s);
                    s = s\<lparr>cg_catalogs := cats\<rparr>
                in (None,
                    if list_ex (\<lambda>((d, n), row). d = cd_pk dev \<and> cc_state row = ''failed'' \<and>
                          cc_failed_at row = Some (stored at)) cats
                    then set_device_state deviceID ''stale'' s else s))))"

definition cpg_ops :: "(time \<Rightarrow> time) \<Rightarrow> cat_pg catalog_ops" where
  "cpg_ops stored = \<lparr>cs_StartRefresh = cpg_StartRefresh stored,
     cs_ReplaceCatalog = cpg_ReplaceCatalog stored, cs_MarkStale = cpg_MarkStale stored\<rparr>"

subsection \<open>What the store shows\<close>

definition cpg_present :: "cat_pg \<Rightarrow> string \<Rightarrow> Item set" where
  "cpg_present s d = (case map_of (cg_devices s) d of None \<Rightarrow> {}
     | Some dev \<Rightarrow> {\<lparr>it_ChannelID = i, it_Name = ch_name row, it_Online = ch_online row\<rparr> | i row.
         map_of (cg_channels s) (cd_pk dev, i) = Some row \<and> ch_present row})"

definition cpg_inv :: "cat_pg \<Rightarrow> bool" where
  "cpg_inv s \<longleftrightarrow> wf_map (cg_items s) \<and> wf_map (cg_channels s) \<and>
     (\<forall>d d' r r'. map_of (cg_devices s) d = Some r \<longrightarrow> map_of (cg_devices s) d' = Some r' \<longrightarrow>
        cd_pk r = cd_pk r' \<longrightarrow> d = d')"

text \<open>Changing a device's catalog state changes nothing else.\<close>

lemma device_state_simps [simp]:
  "cg_items (set_device_state d st s) = cg_items s"
  "cg_channels (set_device_state d st s) = cg_channels s"
  "map_option cd_pk (map_of (cg_devices (set_device_state d st s)) x) = map_option cd_pk (map_of (cg_devices s) x)"
  by (auto simp: set_device_state_def split: option.split)

lemma present_pk:
  assumes "cg_channels s' = cg_channels s"
    and "\<And>x. map_option cd_pk (map_of (cg_devices s') x) = map_option cd_pk (map_of (cg_devices s) x)"
  shows "cpg_present s' d = cpg_present s d"
  using assms(1) assms(2)[of d]
  by (cases "map_of (cg_devices s) d"; cases "map_of (cg_devices s') d") (auto simp: cpg_present_def)

lemma inv_pk:
  assumes "cpg_inv s" and "wf_map (cg_items s')" and "wf_map (cg_channels s')"
    and pk: "\<And>x. map_option cd_pk (map_of (cg_devices s') x) = map_option cd_pk (map_of (cg_devices s) x)"
  shows "cpg_inv s'"
proof -
  have "d = d'" if "map_of (cg_devices s') d = Some r" "map_of (cg_devices s') d' = Some r'"
    "cd_pk r = cd_pk r'" for d d' r r'
  proof -
    from that(1,2) pk[of d] pk[of d'] have "map_option cd_pk (map_of (cg_devices s) d) = Some (cd_pk r)"
      "map_option cd_pk (map_of (cg_devices s) d') = Some (cd_pk r')" by simp_all
    then obtain q q' where "map_of (cg_devices s) d = Some q" "cd_pk q = cd_pk r"
      "map_of (cg_devices s) d' = Some q'" "cd_pk q' = cd_pk r'" by (auto simp: map_option_eq_Some)
    with that(3) assms(1) show ?thesis unfolding cpg_inv_def by metis
  qed
  with assms(2,3) show ?thesis unfolding cpg_inv_def by blast
qed

lemma cpg_Start_keeps:
  "cpg_inv s \<Longrightarrow> cpg_inv (snd (cpg_StartRefresh stored s r)) \<and>
     cpg_present (snd (cpg_StartRefresh stored s r)) d = cpg_present s d"
proof -
  assume inv: "cpg_inv s"
  have k: "cpg_inv (set_device_state x st (s\<lparr>cg_catalogs := cats\<rparr>)) \<and>
    cpg_present (set_device_state x st (s\<lparr>cg_catalogs := cats\<rparr>)) d = cpg_present s d" for x st cats
    using device_state_simps(3)[of x st "s\<lparr>cg_catalogs := cats\<rparr>"] inv
    by (intro conjI inv_pk[OF inv] present_pk) (simp_all add: cpg_inv_def)
  with inv show ?thesis by (simp add: cpg_StartRefresh_def split: option.split)
qed

lemma cpg_Mark_keeps:
  assumes "cpg_inv s"
  shows "cpg_inv (snd (cpg_MarkStale stored s x at)) \<and>
     cpg_present (snd (cpg_MarkStale stored s x at)) d = cpg_present s d"
proof -
  have k: "cpg_inv (set_device_state x st (s\<lparr>cg_catalogs := cats\<rparr>)) \<and>
    cpg_present (set_device_state x st (s\<lparr>cg_catalogs := cats\<rparr>)) d = cpg_present s d" for st cats
    using device_state_simps(3)[of x st "s\<lparr>cg_catalogs := cats\<rparr>"] assms
    by (intro conjI inv_pk[OF assms] present_pk) (simp_all add: cpg_inv_def)
  have k': "cpg_inv (s\<lparr>cg_catalogs := cats\<rparr>) \<and> cpg_present (s\<lparr>cg_catalogs := cats\<rparr>) d = cpg_present s d" for cats
    using assms by (intro conjI inv_pk[OF assms] present_pk) (simp_all add: cpg_inv_def)
  show ?thesis
    using assms k k' by (simp add: cpg_MarkStale_def Let_def split: option.split)
qed

subsection \<open>The insertion loop\<close>

lemma fold_update_out:
  "k \<notin> f ` set xs \<Longrightarrow> map_of (fold (\<lambda>i. AList.update (f i) (g i)) xs m) k = map_of m k"
  by (induction xs arbitrary: m) auto

lemma fold_update_in:
  "distinct (map f xs) \<Longrightarrow> x \<in> set xs \<Longrightarrow>
     map_of (fold (\<lambda>i. AList.update (f i) (g i)) xs m) (f x) = Some (g x)"
  by (induction xs arbitrary: m) (auto simp: fold_update_out)

lemma keys_fold_update:
  "keys (fold (\<lambda>i. AList.update (f i) (g i)) xs m) = f ` set xs \<union> keys m"
  by (induction xs arbitrary: m) auto

lemma wf_map_fold_update [iolink_wf]:
  "wf_map m \<Longrightarrow> wf_map (fold (\<lambda>i. AList.update (f i) (g i)) xs m)"
  by (induction xs arbitrary: m) auto

definition channel_of :: "int \<Rightarrow> int \<Rightarrow> Item \<Rightarrow> channel_row" where
  "channel_of tenant sn i =
     \<lparr>ch_tenant = tenant, ch_name = it_Name i, ch_online = it_Online i, ch_present = True, ch_sn = sn\<rparr>"

lemma insert_items_fold:
  "insert_items fails n pk tenant sn l s = Some t \<Longrightarrow>
     t = s\<lparr>cg_items := fold (\<lambda>i. AList.update ((pk, sn), it_ChannelID i) i) l (cg_items s),
           cg_channels := fold (\<lambda>i. AList.update (pk, it_ChannelID i) (channel_of tenant sn i)) l
             (cg_channels s)\<rparr>"
  by (induction fails n pk tenant sn l s rule: insert_items.induct)
     (auto simp: put_channel_def channel_of_def split: if_split_asm)

lemma snapshot_items_distinct:
  "snapshot_items_ok seen l \<Longrightarrow> distinct (map it_ChannelID l) \<and> it_ChannelID ` set l \<inter> set seen = {}"
  by (induction seen l rule: snapshot_items_ok.induct) (auto split: if_split_asm)

definition hide :: "(int \<times> string \<Rightarrow> bool) \<Rightarrow> (int \<times> string) \<times> channel_row \<Rightarrow> (int \<times> string) \<times> channel_row" where
  "hide P kr = (fst kr, if P (fst kr) then (snd kr)\<lparr>ch_present := False, ch_online := False\<rparr> else snd kr)"

lemma hide_missing_eq:
  "hide_missing pk sn s =
     s\<lparr>cg_channels := map (hide (\<lambda>k. fst k = pk \<and> ((pk, sn), snd k) \<notin> keys (cg_items s))) (cg_channels s)\<rparr>"
proof -
  have "(\<lambda>((d, i), row). ((d, i), if d = pk \<and> ((pk, sn), i) \<notin> fst ` set (cg_items s)
      then row\<lparr>ch_present := False, ch_online := False\<rparr> else row)) =
    hide (\<lambda>k. fst k = pk \<and> ((pk, sn), snd k) \<notin> keys (cg_items s))"
    by (rule ext) (simp add: hide_def keys_def split: prod.split)
  then show ?thesis by (simp add: hide_missing_def)
qed

lemma map_of_hide:
  "map_of (map (hide P) m) k =
     map_option (\<lambda>row. if P k then row\<lparr>ch_present := False, ch_online := False\<rparr> else row) (map_of m k)"
  by (induction m) (auto simp: hide_def)

lemma wf_map_hide [iolink_wf]: "wf_map m \<Longrightarrow> wf_map (map (hide P) m)"
  by (simp add: wf_map_def hide_def comp_def)

lemma cpg_Replace_form:
  assumes "cpg_ReplaceCatalog stored s sn = (None, s')"
  obtains dev tenant cats where
    "map_of (cg_devices s) (sn_DeviceID sn) = Some dev"
    "distinct (map it_ChannelID (sn_Items sn))"
    "s' = set_device_state (sn_DeviceID sn) ''ready''
       ((hide_missing (cd_pk dev) (sn_SN sn)
          (s\<lparr>cg_items := fold (\<lambda>i. AList.update ((cd_pk dev, sn_SN sn), it_ChannelID i) i) (sn_Items sn)
               (filter (\<lambda>((c, _), _). c \<noteq> (cd_pk dev, sn_SN sn)) (cg_items s)),
             cg_channels := fold (\<lambda>i. AList.update (cd_pk dev, it_ChannelID i) (channel_of tenant (sn_SN sn) i))
               (sn_Items sn) (cg_channels s)\<rparr>))\<lparr>cg_catalogs := cats\<rparr>)"
proof -
  from assms have v: "validSnapshot sn" by (simp add: cpg_ReplaceCatalog_def split: if_split_asm)
  then have d: "distinct (map it_ChannelID (sn_Items sn))"
    using snapshot_items_distinct[of "[]" "sn_Items sn"] by (simp add: validSnapshot_def split: if_split_asm)
  from assms obtain dev row t where dev: "map_of (cg_devices s) (sn_DeviceID sn) = Some dev"
    and ins: "insert_items (cg_fails s) 3 (cd_pk dev) (cc_tenant row) (sn_SN sn) (sn_Items sn)
       (s\<lparr>cg_items := filter (\<lambda>((c, _), _). c \<noteq> (cd_pk dev, sn_SN sn)) (cg_items s)\<rparr>) = Some t"
    and s': "s' = (let t = hide_missing (cd_pk dev) (sn_SN sn) t; at = stored (sn_ObservedAt sn) in
       set_device_state (sn_DeviceID sn) ''ready''
         (t\<lparr>cg_catalogs := AList.update (cd_pk dev, sn_SN sn)
              (row\<lparr>cc_state := ''complete'', cc_received := int (length (sn_Items sn)),
                   cc_pages := max (cc_pages row) 1, cc_last_page := Some at,
                   cc_completed_at := Some at, cc_failed_at := None\<rparr>) (cg_catalogs t)\<rparr>))"
    by (auto simp: cpg_ReplaceCatalog_def Let_def split: if_split_asm option.split_asm)
  from insert_items_fold[OF ins] s' show ?thesis by (intro that[OF dev d]) (simp add: Let_def)
qed

lemma cpg_Replace_channels:
  assumes inv: "cpg_inv s" and ok: "cpg_ReplaceCatalog stored s sn = (None, s')"
  obtains dev tenant where "map_of (cg_devices s) (sn_DeviceID sn) = Some dev"
    "\<And>x. map_option cd_pk (map_of (cg_devices s') x) = map_option cd_pk (map_of (cg_devices s) x)"
    "wf_map (cg_items s')" "wf_map (cg_channels s')"
    "\<And>i. i \<in> set (sn_Items sn) \<Longrightarrow>
       map_of (cg_channels s') (cd_pk dev, it_ChannelID i) = Some (channel_of tenant (sn_SN sn) i)"
    "\<And>c row. c \<notin> it_ChannelID ` set (sn_Items sn) \<Longrightarrow>
       map_of (cg_channels s') (cd_pk dev, c) = Some row \<Longrightarrow> \<not> ch_present row"
    "\<And>pk c. pk \<noteq> cd_pk dev \<Longrightarrow> map_of (cg_channels s') (pk, c) = map_of (cg_channels s) (pk, c)"
proof -
  from ok obtain dev tenant cats where dev: "map_of (cg_devices s) (sn_DeviceID sn) = Some dev"
    and dist: "distinct (map it_ChannelID (sn_Items sn))"
    and s': "s' = set_device_state (sn_DeviceID sn) ''ready''
       ((hide_missing (cd_pk dev) (sn_SN sn)
          (s\<lparr>cg_items := fold (\<lambda>i. AList.update ((cd_pk dev, sn_SN sn), it_ChannelID i) i) (sn_Items sn)
               (filter (\<lambda>((c, _), _). c \<noteq> (cd_pk dev, sn_SN sn)) (cg_items s)),
             cg_channels := fold (\<lambda>i. AList.update (cd_pk dev, it_ChannelID i) (channel_of tenant (sn_SN sn) i))
               (sn_Items sn) (cg_channels s)\<rparr>))\<lparr>cg_catalogs := cats\<rparr>)"
    by (rule cpg_Replace_form)
  let ?pk = "cd_pk dev" and ?l = "sn_Items sn" and ?k = "(cd_pk dev, sn_SN sn)"
  let ?items = "fold (\<lambda>i. AList.update (?k, it_ChannelID i) i) ?l (filter (\<lambda>((c, _), _). c \<noteq> ?k) (cg_items s))"
  let ?chans = "fold (\<lambda>i. AList.update (?pk, it_ChannelID i) (channel_of tenant (sn_SN sn) i)) ?l (cg_channels s)"
  define P where "P = (\<lambda>k. fst k = ?pk \<and> (?k, snd k) \<notin> keys ?items)"
  have items: "keys ?items = (\<lambda>i. (?k, it_ChannelID i)) ` set ?l \<union>
      keys (filter (\<lambda>((c, _), _). c \<noteq> ?k) (cg_items s))"
    by (rule keys_fold_update)
  have hidden: "P (?pk, c) \<longleftrightarrow> c \<notin> it_ChannelID ` set ?l" for c
    unfolding P_def items by (auto simp: keys_def)
  have other: "\<not> P (pk, c)" if "pk \<noteq> ?pk" for pk c using that by (simp add: P_def)
  have chans: "cg_channels s' = map (hide P) ?chans" unfolding s' P_def by (simp add: hide_missing_eq)
  have dist2: "distinct (map (\<lambda>i. (?pk, it_ChannelID i)) ?l)"
    using dist by (simp add: distinct_map inj_on_def)
  show ?thesis
  proof (rule that[OF dev])
    show "map_option cd_pk (map_of (cg_devices s') x) = map_option cd_pk (map_of (cg_devices s) x)" for x
      unfolding s' device_state_simps by (simp add: hide_missing_eq)
    show "wf_map (cg_items s')" "wf_map (cg_channels s')"
      using inv unfolding chans unfolding s'
      by (simp_all add: cpg_inv_def hide_missing_eq wf_map_fold_update wf_map_hide)
    show "map_of (cg_channels s') (?pk, it_ChannelID i) = Some (channel_of tenant (sn_SN sn) i)"
      if "i \<in> set ?l" for i
      using fold_update_in[OF dist2 that] hidden[of "it_ChannelID i"] that
      by (simp add: chans map_of_hide)
    show "\<not> ch_present row"
      if "c \<notin> it_ChannelID ` set ?l" "map_of (cg_channels s') (?pk, c) = Some row" for c row
      using that hidden[of c] by (auto simp: chans map_of_hide)
    show "map_of (cg_channels s') (pk, c) = map_of (cg_channels s) (pk, c)" if "pk \<noteq> ?pk" for pk c
    proof -
      have "map_of ?chans (pk, c) = map_of (cg_channels s) (pk, c)"
        using that by (intro fold_update_out) auto
      with other[OF that] show ?thesis by (simp add: chans map_of_hide option.map_ident)
    qed
  qed
qed

lemma cpg_Replace_error: "cpg_ReplaceCatalog stored s sn = (Some e, s') \<Longrightarrow> s' = s"
  by (auto simp: cpg_ReplaceCatalog_def Let_def split: if_split_asm option.split_asm)

lemma cpg_Replace_inv:
  assumes "cpg_inv s"
  shows "cpg_inv (snd (cpg_ReplaceCatalog stored s sn))"
proof (cases "cpg_ReplaceCatalog stored s sn")
  case (Pair e s')
  show ?thesis
  proof (cases e)
    case None
    with Pair have "cpg_ReplaceCatalog stored s sn = (None, s')" by simp
    from cpg_Replace_channels[OF assms this] have "cpg_inv s'" by (metis inv_pk[OF assms])
    with Pair show ?thesis by simp
  next
    case (Some x)
    with Pair assms cpg_Replace_error[of stored s sn x s'] show ?thesis by simp
  qed
qed

lemma cpg_Replace_present:
  assumes inv: "cpg_inv s" and ok: "cpg_ReplaceCatalog stored s sn = (None, s')"
  shows "cpg_present s' (sn_DeviceID sn) = set (sn_Items sn)"
    and "d \<noteq> sn_DeviceID sn \<Longrightarrow> cpg_present s' d = cpg_present s d"
proof -
  obtain dev tenant where dev: "map_of (cg_devices s) (sn_DeviceID sn) = Some dev"
    and pk: "\<And>x. map_option cd_pk (map_of (cg_devices s') x) = map_option cd_pk (map_of (cg_devices s) x)"
    and wf: "wf_map (cg_items s')" "wf_map (cg_channels s')"
    and new: "\<And>i. i \<in> set (sn_Items sn) \<Longrightarrow>
       map_of (cg_channels s') (cd_pk dev, it_ChannelID i) = Some (channel_of tenant (sn_SN sn) i)"
    and old: "\<And>c row. c \<notin> it_ChannelID ` set (sn_Items sn) \<Longrightarrow>
       map_of (cg_channels s') (cd_pk dev, c) = Some row \<Longrightarrow> \<not> ch_present row"
    and frame: "\<And>pk c. pk \<noteq> cd_pk dev \<Longrightarrow> map_of (cg_channels s') (pk, c) = map_of (cg_channels s) (pk, c)"
    by (rule cpg_Replace_channels[OF assms]) (rule that; (assumption | blast))
  obtain dev' where dev': "map_of (cg_devices s') (sn_DeviceID sn) = Some dev'" "cd_pk dev' = cd_pk dev"
    using pk[of "sn_DeviceID sn"] dev by (auto simp: map_option_eq_Some)
  show "cpg_present s' (sn_DeviceID sn) = set (sn_Items sn)"
  proof (intro equalityI subsetI)
    fix x assume "x \<in> cpg_present s' (sn_DeviceID sn)"
    then obtain c row where x: "x = \<lparr>it_ChannelID = c, it_Name = ch_name row, it_Online = ch_online row\<rparr>"
      and row: "map_of (cg_channels s') (cd_pk dev, c) = Some row" "ch_present row"
      using dev' by (auto simp: cpg_present_def)
    with old obtain i where i: "i \<in> set (sn_Items sn)" "c = it_ChannelID i" by blast
    from new[OF i(1)] row i(2) have "row = channel_of tenant (sn_SN sn) i" by simp
    with x i(2) have "x = i" by (simp add: channel_of_def)
    with i(1) show "x \<in> set (sn_Items sn)" by simp
  next
    fix x assume "x \<in> set (sn_Items sn)"
    with new[OF this] dev' show "x \<in> cpg_present s' (sn_DeviceID sn)"
      by (auto simp: cpg_present_def channel_of_def intro!: exI[of _ "it_ChannelID x"])
  qed
  show "cpg_present s' d = cpg_present s d" if d: "d \<noteq> sn_DeviceID sn"
  proof (cases "map_of (cg_devices s) d")
    case None
    with pk[of d] show ?thesis by (simp add: cpg_present_def)
  next
    case (Some r)
    then have "cd_pk r \<noteq> cd_pk dev" using inv d dev unfolding cpg_inv_def by blast
    moreover obtain r' where "map_of (cg_devices s') d = Some r'" "cd_pk r' = cd_pk r"
      using pk[of d] Some by (auto simp: map_option_eq_Some)
    ultimately show ?thesis using Some frame by (simp add: cpg_present_def)
  qed
qed

interpretation cpg: catalog_store "cpg_ops stored" cpg_inv cpg_present for stored
  by unfold_locales
     (simp_all add: cpg_ops_def cpg_Start_keeps cpg_Mark_keeps cpg_Replace_inv cpg_Replace_present
        cpg_Replace_error)

subsection \<open>Properties\<close>

lemma add_items_complete:
  "add_items items d l = (items', d', False) \<Longrightarrow>
     map_of items \<subseteq>\<^sub>m map_of items' \<and> (\<forall>x \<in> set l. map_of items' (it_ChannelID x) = Some x)"
proof (induction items d l rule: add_items.induct)
  case (2 items d i r)
  show ?case
  proof (cases "map_of items (it_ChannelID i)")
    case None
    with 2(3) have "add_items (AList.update (it_ChannelID i) i items) False r = (items', d', False)"
      by simp
    from 2(1)[OF None this] have h: "map_of (AList.update (it_ChannelID i) i items) \<subseteq>\<^sub>m map_of items'"
      "\<forall>x \<in> set r. map_of items' (it_ChannelID x) = Some x" by blast+
    have "map_of items \<subseteq>\<^sub>m map_of (AList.update (it_ChannelID i) i items)"
      using None by (auto simp: map_le_def)
    from map_le_trans[OF this h(1)] have "map_of items \<subseteq>\<^sub>m map_of items'" .
    moreover have "map_of items' (it_ChannelID i) = Some i"
      using h(1) by (auto simp: map_le_def dom_def)
    ultimately show ?thesis using h(2) by auto
  next
    case (Some old)
    with 2 show ?thesis by (auto simp: map_le_def dom_def split: if_split_asm)
  qed
qed simp

text \<open>What \<open>start\<close> does to the coordinator: it may file the refresh, with the count asked for.\<close>

lemma start_effect:
  assumes ok: "co_ok c" and st: "start ops ended now (c, s) r = (Inr got, c1, s1)"
  shows "co_ok c1 \<and> co_completed c1 = co_completed c \<and>
    (\<forall>p. map_of (co_pending c1) (rf_key r) = Some p \<longrightarrow>
       rf_ExpectedCount (pn_refresh p) = rf_ExpectedCount r)"
proof (cases "start_lookup c r")
  case (Some res)
  with st have "res = Inr got" "c1 = c" by (auto simp: start_def)
  with Some ok show ?thesis
    by (auto simp: start_lookup_def Let_def split: option.split_asm if_split_asm)
next
  case None
  then have none: "map_of (co_pending c) (rf_key r) = None"
    by (auto simp: start_lookup_def Let_def split: option.split_asm if_split_asm)
  from None st obtain g where g: "start_got_ok r g" "c1 = snd (start_register c (rf_key r) g)"
    by (auto simp: start_def split: option.split_asm if_split_asm sum.split_asm prod.split_asm)
  from start_register_spec[OF ok start_got_ok_key[OF g(1)]] g none show ?thesis
    by (auto simp: start_register_def start_got_ok_def split: option.split)
qed

text \<open>C7: over the PostgreSQL store and whatever happened before, a page that newly completes its
refresh makes the store show, for its device, exactly the collected channels: as many as the device
announced, each channel once, the page's own items among them, and every other device as before; a
page that does not complete a refresh, or fails, changes nothing that is shown.\<close>

theorem complete_page_shows_exactly:
  assumes "cat_reach y" and inv: "cpg_inv s"
    and acc: "AcceptPage (cpg_ops stored) ended clk (sy_c y, s) page = (res, c', s')"
  shows "if newly_complete (sy_c y) page res
    then (\<exists>items. cpg_present s' (pg_DeviceID page) = set items \<and> distinct (map it_ChannelID items) \<and>
       int (length items) = pg_SumNum page \<and> set (pg_Items page) \<subseteq> set items \<and>
       (\<forall>d. d \<noteq> pg_DeviceID page \<longrightarrow> cpg_present s' d = cpg_present s d))
    else (\<forall>d. cpg_present s' d = cpg_present s d)"
proof -
  let ?c = "sy_c y" and ?r = "page_refresh page (clk 0)"
  have ok: "co_ok ?c" by (rule cat_invD(1)[OF cat_reach_inv[OF assms(1)]])
  show ?thesis
  proof (cases "validPage page")
    case False
    with acc[symmetric] show ?thesis by (simp add: AcceptPage_def newly_complete_def)
  next
    case True
    obtain sr c1 s1 where st: "start (cpg_ops stored) (ended 0) (clk 1) (?c, s) ?r = (sr, c1, s1)"
      by (metis prod_cases3)
    note k = cpg.start_keeps[OF inv st]
    show ?thesis
    proof (cases sr)
      case (Inl e)
      with acc st True k show ?thesis by (auto simp: AcceptPage_def newly_complete_def)
    next
      case (Inr got)
      with acc st True have fin: "finish_page (cpg_ops stored) (ended 1) (clk 0) (c1, s1) page = (res, c', s')"
        by (simp add: AcceptPage_def)
      note e = start_effect[OF ok st[unfolded Inr]]
      then have nc: "newly_complete c1 page res = newly_complete ?c page res"
        by (simp add: newly_complete_def)
      note f = cpg.finish_page_effect[OF e[THEN conjunct1] k[THEN conjunct1] fin]
      show ?thesis
      proof (cases "newly_complete ?c page res")
        case False
        with f nc k show ?thesis by simp
      next
        case new: True
        with f nc obtain p items dup where p: "map_of (co_pending c1) (pg_DeviceID page, pg_SN page) = Some p"
          and add: "add_items (pn_items p) True (pg_Items page) = (items, dup, False)"
          and n: "int (length items) = rf_ExpectedCount (pn_refresh p)"
          and shown: "cpg_present s' (pg_DeviceID page) = snd ` set items"
          and frame: "\<forall>d. d \<noteq> pg_DeviceID page \<longrightarrow> cpg_present s' d = cpg_present s1 d" by auto
        have "items_ok (pn_items p)" using co_okD[OF e[THEN conjunct1] p] by (simp add: pending_ok_def)
        with add_items_ok[of "pn_items p" True "pg_Items page"] add have i: "items_ok items" by simp
        have d: "distinct (map it_ChannelID (sort_key it_ChannelID (map snd items)))"
          "length (sort_key it_ChannelID (map snd items)) = length items"
          using items_sorted[OF i] by simp_all
        let ?l = "sort_key it_ChannelID (map snd items)"
        have "x \<in> snd ` set items" if "x \<in> set (pg_Items page)" for x
          using add_items_complete[OF add] that by (force dest: map_of_SomeD)
        then have l: "set ?l = snd ` set items" "set (pg_Items page) \<subseteq> set ?l" by auto
        have "rf_ExpectedCount (pn_refresh p) = rf_ExpectedCount ?r" using e p by simp
        then have "int (length ?l) = pg_SumNum page" using n d by (simp add: page_refresh_def)
        moreover have "cpg_present s' (pg_DeviceID page) = set ?l" using shown l(1) by (simp only:)
        moreover have "\<forall>d. d \<noteq> pg_DeviceID page \<longrightarrow> cpg_present s' d = cpg_present s d"
          using frame k by simp
        ultimately show ?thesis unfolding if_P[OF new] using d(1) l(2) by blast
      qed
    qed
  qed
qed

definition ex_cpg :: cat_pg where
  "ex_cpg = \<lparr>cg_devices = [(ex_dev, \<lparr>cd_pk = 7, cd_tenant = 1, cd_state = ''empty''\<rparr>)],
     cg_catalogs = [], cg_items = [], cg_channels = [], cg_now = 1000, cg_clock = 1000,
     cg_fails = (\<lambda>_. False)\<rparr>"

lemma ex_cpg_inv: "cpg_inv ex_cpg"
  by (simp add: cpg_inv_def ex_cpg_def)

definition ex_cpg1 :: cat_pg where
  "ex_cpg1 = ex_cpg\<lparr>cg_devices := [(ex_dev, \<lparr>cd_pk = 7, cd_tenant = 1, cd_state = ''refreshing''\<rparr>)],
     cg_catalogs := [((7, 7), \<lparr>cc_tenant = 1, cc_expected = 1, cc_expires = 1000 + RefreshTimeout,
       cc_state = ''collecting'', cc_received = 0, cc_pages = 0, cc_last_page = None,
       cc_completed_at = None, cc_failed_at = None\<rparr>)]\<rparr>"

lemma ex_valid_dev: "cat_validDeviceID ex_dev" "cat_validDeviceID ex_chan"
  by code_simp+

lemma ex_cpg_start: "cpg_StartRefresh id ex_cpg ex_refresh = (Inr ex_refresh, ex_cpg1)"
proof -
  have "cpg_validRefresh 1000 ex_refresh"
    using ex_valid_dev(1) time_sub_le_iff[of "RefreshTimeout + second" "1000 + RefreshTimeout" 1000]
    by (simp add: cpg_validRefresh_def ex_refresh_def page_refresh_def ex_page_def MaxItems_def
        RefreshTimeout_def second_def is_zero_iff min_duration_def max_duration_def)
  moreover have "rf_DeviceID ex_refresh = ex_dev" "rf_SN ex_refresh = 7"
    by (simp_all add: ex_refresh_def page_refresh_def ex_page_def)
  ultimately show ?thesis
    by (simp add: cpg_StartRefresh_def ex_cpg_def ex_cpg1_def set_device_state_def)
qed

lemma ex_cpg_replace:
  "fst (cpg_ReplaceCatalog id ex_cpg1 (snapshot_of ex_refresh [ex_item] 1000)) = None"
proof -
  have v: "validSnapshot (snapshot_of ex_refresh [ex_item] 1000)"
    using ex_valid_dev
    by (simp add: validSnapshot_def snapshot_of_def ex_refresh_def page_refresh_def ex_page_def
        ex_item_def MaxItems_def MaxNameBytes_def is_zero_iff)
  have t: "pg_text ''gate''" by code_simp
  have "sn_DeviceID (snapshot_of ex_refresh [ex_item] 1000) = ex_dev"
    "sn_SN (snapshot_of ex_refresh [ex_item] 1000) = 7"
    "sn_Items (snapshot_of ex_refresh [ex_item] 1000) = [ex_item]"
    "sn_ObservedAt (snapshot_of ex_refresh [ex_item] 1000) = 1000"
    by (simp_all add: snapshot_of_def ex_refresh_def page_refresh_def ex_page_def)
  with v t show ?thesis
    by (simp add: cpg_ReplaceCatalog_def ex_cpg1_def ex_cpg_def RefreshTimeout_def second_def Let_def
        ex_item_def)
qed

theorem complete_page_shows_exactly_witness:
  "\<exists>s'. cpg_present s' ex_dev = {ex_item} \<and>
     snd (snd (AcceptPage (cpg_ops id) (\<lambda>_. False) (\<lambda>_. 1000) (NewCoordinator, ex_cpg) ex_page)) = s'"
proof -
  let ?acc = "AcceptPage (cpg_ops id) (\<lambda>_. False) (\<lambda>_. 1000) (sy_c cat_init, ex_cpg) ex_page"
  obtain res c' s' where acc: "?acc = (res, c', s')" by (metis prod_cases3)
  have b: "boundedContext False (1000 + RefreshTimeout) 1000 = None"
    by (simp add: boundedContext_def RefreshTimeout_def second_def is_zero_iff)
  have l: "start_lookup NewCoordinator ex_refresh = None"
    by (simp add: start_lookup_def NewCoordinator_def)
  have st: "start (cpg_ops id) False 1000 (NewCoordinator, ex_cpg) ex_refresh = (Inr ex_refresh, ex_c1, ex_cpg1)"
    by (simp add: start_def l b cpg_ops_def ex_cpg_start ex_start)
  obtain s1 where rep: "cpg_ReplaceCatalog id ex_cpg1 (snapshot_of ex_refresh [ex_item] 1000) = (None, s1)"
    using ex_cpg_replace by (metis prod.collapse)
  have w: "fst (commit_done ex_c2 (ex_dev, 7) 0 ex_refresh)"
    by (simp add: commit_done_def ex_c2_def ex_pending_def)
  have k: "pg_DeviceID ex_page = ex_dev" "pg_SN ex_page = 7" "pg_SumNum ex_page = 1"
    "set (pg_Items ex_page) = {ex_item}"
    by (simp_all add: ex_page_def ex_item_def)
  have "newly_complete (sy_c cat_init) ex_page res"
    using acc[symmetric] st w rep[unfolded snapshot_of_def] k
    by (simp add: AcceptPage_def ex_page_valid cat_init_def finish_page_def ex_section b
        newly_complete_def NewCoordinator_def ex_refresh_def[symmetric] cpg_ops_def Let_def
        split: prod.split_asm bool.split_asm)
  with complete_page_shows_exactly[OF cat_reach.init ex_cpg_inv acc] k obtain items where
    i: "cpg_present s' ex_dev = set items" "int (length items) = 1" "ex_item \<in> set items" by auto
  then have "set items = {ex_item}" by (cases items) auto
  with i acc show ?thesis by (simp add: cat_init_def)
qed

end
