(* ===== verification/Rtp_Ports.thy ===== *)
theory Rtp_Ports
  imports Iolink_Prelude
begin

text \<open>
  \<open>internal/media/rtp/ports.go\<close>: the allocator of RTP/RTCP port pairs. Its state is the array
  \<open>allocated\<close> of 20 flags; the context argument is whether it has already ended (checked again
  under the lock: \<open>ended\<close> and \<open>ended'\<close>). The specification is a set of held pairs.
\<close>

datatype rtp_error = RtpExhausted | RtpInvalidPair | RtpNotAllocated | RtpContext

definition MinRTPPort :: int where "MinRTPPort = 30000"
definition MaxRTPPort :: int where "MaxRTPPort = 30038"
definition RTCPOffset :: int where "RTCPOffset = 1"
definition portPairCount :: nat where "portPairCount = nat ((MaxRTPPort - MinRTPPort) div 2 + 1)"

record PortPair =
  pp_RTP :: int
  pp_RTCP :: int

definition pair_valid :: "PortPair \<Rightarrow> bool" where
  "pair_valid p \<longleftrightarrow> pp_RTP p \<ge> MinRTPPort \<and> pp_RTP p \<le> MaxRTPPort \<and>
     pp_RTP p mod 2 = 0 \<and> pp_RTCP p = pp_RTP p + RTCPOffset"

definition NewAllocator :: "bool list" where
  "NewAllocator = replicate portPairCount False"

definition pair_at :: "nat \<Rightarrow> PortPair" where
  "pair_at index = \<lparr>pp_RTP = MinRTPPort + int index * 2, pp_RTCP = MinRTPPort + int index * 2 + RTCPOffset\<rparr>"

text \<open>The loop over the array from \<open>index\<close> on.\<close>

fun first_free :: "nat \<Rightarrow> bool list \<Rightarrow> nat option" where
  "first_free index [] = None"
| "first_free index (used # r) = (if used then first_free (Suc index) r else Some index)"

definition Allocate :: "bool \<Rightarrow> bool \<Rightarrow> bool list \<Rightarrow> (rtp_error, PortPair) result \<times> bool list" where
  "Allocate ended ended' allocated =
     (if ended then (Inl RtpContext, allocated)
      else if ended' then (Inl RtpContext, allocated)
      else (case first_free 0 allocated of
              Some index \<Rightarrow> (Inr (pair_at index), allocated[index := True])
            | None \<Rightarrow> (Inl RtpExhausted, allocated)))"

definition Release :: "bool \<Rightarrow> bool \<Rightarrow> bool list \<Rightarrow> PortPair \<Rightarrow> rtp_error option \<times> bool list" where
  "Release ended ended' allocated pair =
     (if ended then (Some RtpContext, allocated)
      else if \<not> pair_valid pair then (Some RtpInvalidPair, allocated)
      else if ended' then (Some RtpContext, allocated)
      else (let index = nat ((pp_RTP pair - MinRTPPort) div 2) in
            if \<not> allocated ! index then (Some RtpNotAllocated, allocated)
            else (None, allocated[index := False])))"

subsection \<open>The array as a set of pairs\<close>

definition held_pairs :: "bool list \<Rightarrow> PortPair set" where
  "held_pairs a = pair_at ` {i. i < length a \<and> a ! i}"

definition alloc_ok :: "bool list \<Rightarrow> bool" where
  "alloc_ok a \<longleftrightarrow> length a = portPairCount"

lemma portPairCount_eq [simp]: "portPairCount = 20"
  by (simp add: portPairCount_def MaxRTPPort_def MinRTPPort_def)

lemma pair_at_inj [simp]: "pair_at i = pair_at j \<longleftrightarrow> i = j"
  by (auto simp: pair_at_def)

lemma pair_at_valid: "i < portPairCount \<Longrightarrow> pair_valid (pair_at i)"
  by (auto simp: pair_valid_def pair_at_def MinRTPPort_def MaxRTPPort_def RTCPOffset_def)

lemma pair_valid_index:
  assumes "pair_valid p"
  shows "nat ((pp_RTP p - MinRTPPort) div 2) < portPairCount \<and>
    pair_at (nat ((pp_RTP p - MinRTPPort) div 2)) = p"
proof (cases p)
  case (fields a b)
  with assms have "30000 \<le> a" "a \<le> 30038" "a mod 2 = 0" "b = a + 1"
    by (simp_all add: pair_valid_def MinRTPPort_def MaxRTPPort_def RTCPOffset_def)
  then have "(a - 30000) div 2 * 2 = a - 30000" "(a - 30000) div 2 < 20" "0 \<le> (a - 30000) div 2"
    by presburger+
  with fields \<open>b = a + 1\<close> show ?thesis by (simp add: pair_at_def MinRTPPort_def RTCPOffset_def)
qed

lemma first_free_spec:
  "first_free k a = (if \<exists>i < length a. \<not> a ! i then Some (k + (LEAST i. i < length a \<and> \<not> a ! i)) else None)"
proof (induction k a rule: first_free.induct)
  case (2 k used r)
  show ?case
  proof (cases used)
    case False
    then have "(LEAST i. i < length (used # r) \<and> \<not> (used # r) ! i) = 0" by (intro Least_equality) auto
    with False show ?thesis by auto
  next
    case True
    have e: "(\<exists>i < length (used # r). \<not> (used # r) ! i) \<longleftrightarrow> (\<exists>i < length r. \<not> r ! i)"
      using True by (simp add: Ex_less_Suc2)
    have "(LEAST i. i < length (used # r) \<and> \<not> (used # r) ! i) =
        Suc (LEAST i. i < length r \<and> \<not> r ! i)" if "\<exists>i < length r. \<not> r ! i"
    proof -
      from that obtain i where "i < length r" "\<not> r ! i" by blast
      then have "Suc i < length (used # r) \<and> \<not> (used # r) ! Suc i" by simp
      moreover have "\<not> (0 < length (used # r) \<and> \<not> (used # r) ! 0)" using True by simp
      ultimately show ?thesis using Least_Suc[of "\<lambda>i. i < length (used # r) \<and> \<not> (used # r) ! i" "Suc i"]
        by simp
    qed
    with 2 True e show ?thesis by simp
  qed
qed simp

text \<open>One call against the set of held pairs.\<close>

lemma held_update:
  assumes "i < length a"
  shows "held_pairs (a[i := b]) = (if b then insert (pair_at i) (held_pairs a) else held_pairs a - {pair_at i})"
  using assms by (auto simp: held_pairs_def nth_list_update split: if_splits)

lemma held_iff: "i < length a \<Longrightarrow> pair_at i \<in> held_pairs a \<longleftrightarrow> a ! i"
  by (auto simp: held_pairs_def)

lemma Allocate_spec:
  assumes "alloc_ok a" and "Allocate e e' a = (res, a')"
  shows "alloc_ok a' \<and>
    (case res of
       Inr p \<Rightarrow> pair_valid p \<and> p \<notin> held_pairs a \<and> held_pairs a' = insert p (held_pairs a) \<and>
         (\<forall>q. pair_valid q \<longrightarrow> q \<notin> held_pairs a \<longrightarrow> pp_RTP p \<le> pp_RTP q)
     | Inl err \<Rightarrow> a' = a \<and> (err = RtpContext \<and> (e \<or> e') \<or>
         err = RtpExhausted \<and> (\<forall>q. pair_valid q \<longrightarrow> q \<in> held_pairs a)))"
proof (cases "e \<or> e'")
  case True
  then have "res = Inl RtpContext \<and> a' = a" using assms(2) by (simp add: Allocate_def split: if_split_asm)
  with True assms(1) show ?thesis by simp
next
  case False
  show ?thesis
  proof (cases "\<exists>i < length a. \<not> a ! i")
    case ex: True
    let ?i = "LEAST i. i < length a \<and> \<not> a ! i"
    have i: "?i < length a \<and> \<not> a ! ?i" using LeastI_ex[of "\<lambda>i. i < length a \<and> \<not> a ! i"] ex by blast
    have r: "res = Inr (pair_at ?i)" "a' = a[?i := True]"
      using False ex assms(2) by (simp_all add: Allocate_def first_free_spec)
    have low: "pp_RTP (pair_at ?i) \<le> pp_RTP q" if q: "pair_valid q" "q \<notin> held_pairs a" for q
    proof -
      obtain j where j: "j < length a" "pair_at j = q"
        using pair_valid_index[OF q(1)] assms(1) by (auto simp: alloc_ok_def)
      with q(2) have "\<not> a ! j" by (auto simp: held_iff)
      with j have "?i \<le> j" by (intro Least_le) simp
      with j(2) show ?thesis by (auto simp: pair_at_def)
    qed
    from r i low assms(1) show ?thesis
      by (simp add: held_update held_iff alloc_ok_def pair_at_valid)
  next
    case none: False
    then have "\<forall>q. pair_valid q \<longrightarrow> q \<in> held_pairs a"
      using assms(1) pair_valid_index by (metis alloc_ok_def held_iff)
    moreover have "first_free 0 a = None" using none by (simp add: first_free_spec)
    ultimately show ?thesis using False assms(1) assms(2)[symmetric] by (simp add: Allocate_def)
  qed
qed

lemma Release_spec:
  assumes "alloc_ok a" and "Release e e' a p = (res, a')"
  shows "alloc_ok a' \<and>
    (case res of
       None \<Rightarrow> pair_valid p \<and> p \<in> held_pairs a \<and> held_pairs a' = held_pairs a - {p}
     | Some err \<Rightarrow> a' = a \<and> (err = RtpContext \<and> (e \<or> e') \<or> err = RtpInvalidPair \<and> \<not> pair_valid p \<or>
         err = RtpNotAllocated \<and> p \<notin> held_pairs a))"
proof (cases "pair_valid p")
  case True
  let ?i = "nat ((pp_RTP p - MinRTPPort) div 2)"
  have i: "?i < length a" "pair_at ?i = p"
    using pair_valid_index[OF True] assms(1) by (simp_all add: alloc_ok_def)
  have upd: "held_pairs (a[?i := False]) = held_pairs a - {p}" "p \<in> held_pairs a \<longleftrightarrow> a ! ?i"
    using held_update[OF i(1), of False] held_iff[OF i(1)] i(2) by simp_all
  consider "res = Some RtpContext" "a' = a" "e \<or> e'" | "res = Some RtpNotAllocated" "a' = a" "\<not> a ! ?i"
    | "res = None" "a' = a[?i := False]" "a ! ?i"
    using assms(2)[symmetric] True by (auto simp: Release_def Let_def split: if_split_asm)
  then show ?thesis using assms(1) upd True by cases (simp_all add: alloc_ok_def)
next
  case False
  with assms(1) assms(2)[symmetric] show ?thesis by (simp add: Release_def split: if_split_asm)
qed

subsection \<open>Runs\<close>

datatype rtp_call = CallAllocate bool bool | CallRelease bool bool PortPair

datatype rtp_reply = Allocated "(rtp_error, PortPair) result" | Released PortPair "rtp_error option"

fun rtp_step :: "bool list \<Rightarrow> rtp_call \<Rightarrow> rtp_reply \<times> bool list" where
  "rtp_step a (CallAllocate e e') = map_prod Allocated id (Allocate e e' a)"
| "rtp_step a (CallRelease e e' p) = map_prod (Released p) id (Release e e' a p)"

fun rtp_run :: "bool list \<Rightarrow> rtp_call list \<Rightarrow> rtp_reply list \<times> bool list" where
  "rtp_run a [] = ([], a)"
| "rtp_run a (c # cs) =
     (let (r, a') = rtp_step a c; (rs, a'') = rtp_run a' cs in (r # rs, a''))"

text \<open>What the callers hold, read off the replies they got.\<close>

fun holds :: "rtp_reply list \<Rightarrow> PortPair set \<Rightarrow> PortPair set" where
  "holds [] h = h"
| "holds (Allocated (Inr p) # rs) h = holds rs (insert p h)"
| "holds (Released p None # rs) h = holds rs (h - {p})"
| "holds (_ # rs) h = holds rs h"

lemma rtp_step_held:
  assumes "alloc_ok a" and "rtp_step a c = (r, a')"
  shows "alloc_ok a' \<and> held_pairs a' = holds [r] (held_pairs a)"
proof (cases c)
  case (CallAllocate e e')
  with assms(2) obtain res where "Allocate e e' a = (res, a')" "r = Allocated res"
    by (auto simp: map_prod_def split: prod.splits)
  with Allocate_spec[OF assms(1) this(1)] show ?thesis by (cases res) auto
next
  case (CallRelease e e' p)
  with assms(2) obtain res where "Release e e' a p = (res, a')" "r = Released p res"
    by (auto simp: map_prod_def split: prod.splits)
  with Release_spec[OF assms(1) this(1)] show ?thesis by (cases res) auto
qed

lemma holds_Cons: "holds (r # rs) h = holds rs (holds [r] h)"
  by (cases "(r # rs, h)" rule: holds.cases) auto

lemma rtp_run_held:
  "alloc_ok a \<Longrightarrow> rtp_run a cs = (rs, a') \<Longrightarrow> alloc_ok a' \<and> held_pairs a' = holds rs (held_pairs a)"
proof (induction cs arbitrary: a rs)
  case (Cons c cs)
  from Cons.prems(2) obtain r a1 rs' where
    *: "rtp_step a c = (r, a1)" "rtp_run a1 cs = (rs', a')" "rs = r # rs'"
    by (auto split: prod.splits)
  from rtp_step_held[OF Cons.prems(1) *(1)] Cons.IH[OF _ *(2)] *(3) holds_Cons[of r rs'] show ?case
    by simp
qed simp

lemma new_allocator: "alloc_ok NewAllocator" "held_pairs NewAllocator = {}"
  by (auto simp: alloc_ok_def NewAllocator_def held_pairs_def)

subsection \<open>Properties\<close>

text \<open>C9: after any sequence of \<open>Allocate\<close> and \<open>Release\<close> calls, an allocation returns a valid pair
that no caller holds (two callers never share a port), the lowest such pair; it fails with
\<open>ErrExhausted\<close> only when every valid pair is held; and a pair can be released exactly when it is
held, after which it is free again.\<close>

theorem rtp_allocation_exclusive:
  assumes "rtp_run NewAllocator cs = (rs, a)"
  shows "(\<forall>p a'. Allocate e e' a = (Inr p, a') \<longrightarrow> pair_valid p \<and> p \<notin> holds rs {} \<and>
      (\<forall>q. pair_valid q \<longrightarrow> q \<notin> holds rs {} \<longrightarrow> pp_RTP p \<le> pp_RTP q)) \<and>
    (\<forall>a'. Allocate e e' a = (Inl RtpExhausted, a') \<longrightarrow> {p. pair_valid p} \<subseteq> holds rs {}) \<and>
    (\<forall>p. pair_valid p \<longrightarrow> (fst (Release False False a p) = None \<longleftrightarrow> p \<in> holds rs {})) \<and>
    (\<forall>p. p \<in> holds rs {} \<longrightarrow> held_pairs (snd (Release False False a p)) = holds rs {} - {p})"
proof -
  have ok: "alloc_ok a" and held: "held_pairs a = holds rs {}"
    using rtp_run_held[OF new_allocator(1) assms] new_allocator(2) by simp_all
  have valid: "pair_valid p" if "p \<in> holds rs {}" for p
    using that ok held[symmetric] pair_at_valid by (auto simp: held_pairs_def alloc_ok_def)
  have rel: "fst (Release False False a p) = None \<longleftrightarrow> p \<in> holds rs {}" if "pair_valid p" for p
    using Release_spec[OF ok, of False False p "fst (Release False False a p)" "snd (Release False False a p)"]
      that held by (auto split: option.splits)
  have rel': "held_pairs (snd (Release False False a p)) = holds rs {} - {p}" if "p \<in> holds rs {}" for p
    using Release_spec[OF ok, of False False p "fst (Release False False a p)" "snd (Release False False a p)"]
      rel[OF valid[OF that]] that held by simp
  have "\<forall>p a'. Allocate e e' a = (Inr p, a') \<longrightarrow> pair_valid p \<and> p \<notin> holds rs {} \<and>
      (\<forall>q. pair_valid q \<longrightarrow> q \<notin> holds rs {} \<longrightarrow> pp_RTP p \<le> pp_RTP q)"
    using Allocate_spec[OF ok] held by fastforce
  moreover have "\<forall>a'. Allocate e e' a = (Inl RtpExhausted, a') \<longrightarrow> {p. pair_valid p} \<subseteq> holds rs {}"
    using Allocate_spec[OF ok] held by fastforce
  ultimately show ?thesis using rel rel' by blast
qed

theorem rtp_allocation_exclusive_witness:
  "Allocate False False (snd (rtp_run NewAllocator
      [CallAllocate False False, CallAllocate False False, CallRelease False False (pair_at 0)]))
     = (Inr (pair_at 0), (NewAllocator[0 := True])[1 := True]) \<and>
   pair_at 0 \<notin> holds [Allocated (Inr (pair_at 0)), Allocated (Inr (pair_at 1)), Released (pair_at 0) None] {}"
proof -
  let ?cs = "[CallAllocate False False, CallAllocate False False, CallRelease False False (pair_at 0)]"
  let ?rs = "[Allocated (Inr (pair_at 0)), Allocated (Inr (pair_at 1)), Released (pair_at 0) None]"
  have n: "NewAllocator = False # False # replicate 18 False"
    by (simp add: NewAllocator_def eval_nat_numeral)
  have v: "pair_valid (pair_at 0)" by (simp add: pair_at_valid)
  have r: "rtp_run NewAllocator ?cs = (?rs, NewAllocator[1 := True])"
    using v by (simp add: n Allocate_def Release_def Let_def) (simp add: pair_at_def)
  have a: "Allocate False False (NewAllocator[1 := True]) = (Inr (pair_at 0), (NewAllocator[0 := True])[1 := True])"
    by (simp add: n Allocate_def)
  with rtp_allocation_exclusive[OF r, of False False] r show ?thesis by simp
qed

end
