(* ===== verification/Rtsp_Admission.thy ===== *)
theory Rtsp_Admission
  imports Go_Strings Netip
begin

text \<open>
  \<open>internal/media/rtsp/admission.go\<close>: which RTSP sources the media server may be pointed at. The
  result of \<open>url.Parse\<close>, the resolver and \<open>AddrPort.String\<close> are arguments of the model; the checks
  on the raw text, the host, the port, the path and every resolved address are the code's.
  \<open>ended n\<close>: the context has ended at its \<open>n\<close>-th test.
\<close>

datatype rtsp_error =
    RtspInvalidConfig | RtspInvalidURI | RtspPortNotAllowed | RtspResolutionFailed
  | RtspAddressNotAllowed | RtspContext

definition DefaultPort :: "16 word" where "DefaultPort = 554"

text \<open>What the code reads of a parsed \<open>*url.URL\<close>.\<close>

record url =
  ur_Scheme :: string
  ur_Opaque :: string
  ur_has_User :: bool
  ur_Host :: string
  ur_Hostname :: string
  ur_Port :: string
  ur_EscapedPath :: string

record Admission =
  ad_cidrs :: "prefix list"
  ad_ports :: "16 word list"

record Endpoint =
  ep_Address :: addr
  ep_Port :: "16 word"
  ep_Path :: string

text \<open>\<open>New\<close>: \<open>None\<close> is \<open>ErrInvalidConfig\<close>; the resolver is given.\<close>

fun mask_cidrs :: "prefix list \<Rightarrow> prefix list option" where
  "mask_cidrs [] = Some []"
| "mask_cidrs (c # r) =
     (if \<not> prefix_valid c then None else map_option ((#) (prefix_masked c)) (mask_cidrs r))"

definition NewAdmission :: "prefix list \<Rightarrow> 16 word list \<Rightarrow> Admission option" where
  "NewAdmission cidrs ports =
     (if cidrs = [] \<or> ports = [] then None
      else (case mask_cidrs cidrs of
              None \<Rightarrow> None
            | Some cs \<Rightarrow>
                if list_ex (\<lambda>p. p = 0) ports then None
                else Some \<lparr>ad_cidrs = cs, ad_ports = ports\<rparr>))"

subsection \<open>The URI\<close>

text \<open>\<open>strconv.ParseUint(s, 10, 16)\<close>.\<close>

fun uint_value :: "nat \<Rightarrow> string \<Rightarrow> nat" where
  "uint_value v [] = v"
| "uint_value v (c # r) = uint_value (v * 10 + (of_char c - 48)) r"

definition parseUint16 :: "string \<Rightarrow> nat option" where
  "parseUint16 s =
     (if s = [] \<or> \<not> list_all isDigit s then None
      else if uint_value 0 s > 65535 then None else Some (uint_value 0 s))"

definition validatePath :: "string \<Rightarrow> bool" where
  "validatePath path =
     (case pathUnescape path of
        None \<Rightarrow> False
      | Some decoded \<Rightarrow>
          if containsControl decoded \<or> strContains [CHR 0x5C] decoded then False
          else if strContains ''%2e'' (toLower decoded) \<or> strContains ''%5c'' (toLower decoded) then False
          else \<not> list_ex (\<lambda>segment. segment = ''..'') (splitOn CHR ''/'' decoded))"

definition parseURI ::
  "(string \<Rightarrow> url option) \<Rightarrow> string \<Rightarrow> (rtsp_error, url \<times> string \<times> 16 word) result" where
  "parseURI Parse raw =
     (if length raw = 0 \<or> length raw > 2048 \<or> containsAny [CHR ''?'', CHR ''#'', CHR 0x5C] raw \<or>
         containsControl raw then Inl RtspInvalidURI
      else (case Parse raw of
        None \<Rightarrow> Inl RtspInvalidURI
      | Some u \<Rightarrow>
          if ur_Scheme u \<noteq> ''rtsp'' \<or> ur_Opaque u \<noteq> [] \<or> ur_has_User u \<or> ur_Host u = []
          then Inl RtspInvalidURI
          else if ur_Hostname u = [] \<or>
                  containsAny [CHR ''%'', CHR '' '', CHR 0x09, CHR 0x0D, CHR 0x0A] (ur_Hostname u)
          then Inl RtspInvalidURI
          else if hasSuffix '':'' (ur_Host u) then Inl RtspInvalidURI
          else (case (if ur_Port u = [] then Some DefaultPort
                      else (case parseUint16 (ur_Port u) of
                              None \<Rightarrow> None
                            | Some parsed \<Rightarrow> if parsed = 0 then None else Some (word_of_nat parsed))) of
            None \<Rightarrow> Inl RtspInvalidURI
          | Some port \<Rightarrow>
              if \<not> validatePath (ur_EscapedPath u) then Inl RtspInvalidURI
              else Inr (u, ur_Hostname u, port))))"

subsection \<open>Addresses\<close>

text \<open>The loop of \<open>uniqueAddresses\<close> with its set \<open>seen\<close>.\<close>

fun unique_loop :: "addr list \<Rightarrow> addr list \<Rightarrow> addr list" where
  "unique_loop seen [] = []"
| "unique_loop seen (a # r) =
     (let a = unmap a in
      if a \<in> set seen then unique_loop seen r else a # unique_loop (a # seen) r)"

definition uniqueAddresses :: "addr list \<Rightarrow> addr list" where
  "uniqueAddresses addresses = unique_loop [] addresses"

text \<open>169.254.169.254/32, 100.100.100.200/32 and fd00:ec2::254/128.\<close>

definition metadata_prefixes :: "prefix list" where
  "metadata_prefixes = [P4 0xA9FEA9FE 32, P4 0x646464C8 32, P6 0xFD000EC2000000000000000000000254 128]"

definition safeAddress :: "addr \<Rightarrow> bool" where
  "safeAddress a =
     (if \<not> addr_valid a \<or> isUnspecified a \<or> isMulticast a \<or> isLoopback a \<or>
         isLinkLocalUnicast a \<or> isLinkLocalMulticast a then False
      else \<not> list_ex (\<lambda>m. prefix_contains m a) metadata_prefixes)"

definition ad_allowed :: "Admission \<Rightarrow> addr \<Rightarrow> bool" where
  "ad_allowed ad address = list_ex (\<lambda>cidr. prefix_contains cidr address) (ad_cidrs ad)"

definition Pin ::
  "(string \<Rightarrow> url option) \<Rightarrow> (string \<Rightarrow> addr list option) \<Rightarrow> (nat \<Rightarrow> bool) \<Rightarrow> Admission \<Rightarrow> string \<Rightarrow>
   (rtsp_error, Endpoint) result" where
  "Pin Parse LookupNetIP ended ad raw =
     (if ended 0 then Inl RtspContext
      else (case parseURI Parse raw of
        Inl e \<Rightarrow> Inl e
      | Inr (u, host, port) \<Rightarrow>
          if port \<notin> set (ad_ports ad) then Inl RtspPortNotAllowed
          else (case LookupNetIP host of
            None \<Rightarrow> if ended 1 then Inl RtspContext else Inl RtspResolutionFailed
          | Some addresses \<Rightarrow>
              if addresses = [] then Inl RtspResolutionFailed
              else (let addresses = uniqueAddresses addresses in
                if list_ex (\<lambda>a. \<not> safeAddress a \<or> \<not> ad_allowed ad a) addresses
                then Inl RtspAddressNotAllowed
                else if ended 1 then Inl RtspContext
                else Inr \<lparr>ep_Address = hd (sort addresses), ep_Port = port,
                          ep_Path = ur_EscapedPath u\<rparr>))))"

definition Endpoint_URI :: "(addrport \<Rightarrow> string) \<Rightarrow> Endpoint \<Rightarrow> string" where
  "Endpoint_URI text e =
     (if \<not> addr_valid (ep_Address e) \<or> ep_Port e = 0 then []
      else ''rtsp://'' @ text (AddrPort (ep_Address e) (ep_Port e)) @ ep_Path e)"

subsection \<open>Facts\<close>

lemma set_unique_loop: "set (unique_loop seen l) = unmap ` set l - set seen"
  by (induction seen l rule: unique_loop.induct) (auto simp: Let_def)

lemma distinct_unique_loop: "distinct (unique_loop seen l)"
  by (induction seen l rule: unique_loop.induct) (auto simp: Let_def set_unique_loop)

lemma unique_set: "set (uniqueAddresses l) = unmap ` set l"
  by (simp add: uniqueAddresses_def set_unique_loop)

lemma unique_distinct: "distinct (uniqueAddresses l)"
  by (simp add: uniqueAddresses_def distinct_unique_loop)

lemma sort_unique_set:
  "unmap ` set l = unmap ` set l' \<Longrightarrow> sort (uniqueAddresses l) = sort (uniqueAddresses l')"
  by (rule sorted_distinct_set_unique) (simp_all add: unique_set unique_distinct)

lemma hd_sort_Min: "xs \<noteq> [] \<Longrightarrow> hd (sort xs) = Min (set (xs :: 'a::linorder list))"
proof -
  assume "xs \<noteq> []"
  then obtain y ys where s: "sort xs = y # ys" by (cases "sort xs") (auto dest: arg_cong[where f = length])
  then have "set xs = insert y (set ys)" by (metis set_sort list.simps(15))
  moreover have "\<forall>z \<in> set ys. y \<le> z" using s sorted_sort[of xs] by simp
  ultimately have "Min (set xs) = y" by (intro Min_eqI) auto
  with s show ?thesis by simp
qed

lemma parseURI_Inr:
  assumes "parseURI Parse raw = Inr (u, host, port)"
  shows "Parse raw = Some u \<and> host = ur_Hostname u \<and> ur_Scheme u = ''rtsp'' \<and> \<not> ur_has_User u \<and>
    validatePath (ur_EscapedPath u) \<and> length raw \<le> 2048 \<and> \<not> containsControl raw"
  using assms
  by (auto simp: parseURI_def split: if_split_asm option.split_asm)

lemma validatePath_safe:
  assumes "validatePath path"
  shows "\<exists>decoded. pathUnescape path = Some decoded \<and> \<not> containsControl decoded \<and>
    CHR 0x5C \<notin> set decoded \<and> ''..'' \<notin> set (splitOn CHR ''/'' decoded)"
proof -
  have "strContains [c] s \<longleftrightarrow> c \<in> set s" for c s
    by (induction s) (auto simp: hasPrefix_iff)
  with assms show ?thesis
    by (auto simp: validatePath_def list_ex_iff split: option.split_asm if_split_asm)
qed

subsection \<open>Properties\<close>

text \<open>C10: a pinned endpoint is safe: the source is a clean rtsp URI without user information, its
port is allowed, and every address its host resolves to (not only the one used) is, with mapped
IPv4 unwrapped, no unspecified, loopback, link-local, multicast or cloud metadata address and lies
in an allowed network; the endpoint is the least of those addresses, and its path, percent-decoded,
has no parent-directory segment, backslash or control character.\<close>

theorem pin_safe:
  assumes "Pin Parse Lookup ended ad raw = Inr e"
  shows "\<exists>u addresses decoded. Parse raw = Some u \<and> ur_Scheme u = ''rtsp'' \<and> \<not> ur_has_User u \<and>
    Lookup (ur_Hostname u) = Some addresses \<and> addresses \<noteq> [] \<and>
    (\<forall>a \<in> set addresses. safeAddress (unmap a) \<and> (\<exists>cidr \<in> set (ad_cidrs ad). prefix_contains cidr (unmap a))) \<and>
    ep_Address e = Min (unmap ` set addresses) \<and> ep_Port e \<in> set (ad_ports ad) \<and>
    pathUnescape (ep_Path e) = Some decoded \<and> ''..'' \<notin> set (splitOn CHR ''/'' decoded) \<and>
    CHR 0x5C \<notin> set decoded \<and> \<not> containsControl decoded"
proof -
  from assms obtain u host port addresses where p: "parseURI Parse raw = Inr (u, host, port)"
    and l: "Lookup host = Some addresses" "addresses \<noteq> []" and port: "port \<in> set (ad_ports ad)"
    and all: "\<not> list_ex (\<lambda>a. \<not> safeAddress a \<or> \<not> ad_allowed ad a) (uniqueAddresses addresses)"
    and e: "e = \<lparr>ep_Address = hd (sort (uniqueAddresses addresses)), ep_Port = port, ep_Path = ur_EscapedPath u\<rparr>"
    by (auto simp: Pin_def Let_def split: if_split_asm sum.split_asm option.split_asm)
  note u = parseURI_Inr[OF p]
  from u validatePath_safe obtain decoded where d: "pathUnescape (ur_EscapedPath u) = Some decoded"
    "\<not> containsControl decoded" "CHR 0x5C \<notin> set decoded" "''..'' \<notin> set (splitOn CHR ''/'' decoded)"
    by blast
  have "\<forall>a \<in> set addresses. safeAddress (unmap a) \<and> ad_allowed ad (unmap a)"
    using all by (auto simp: list_ex_iff unique_set)
  moreover have "uniqueAddresses addresses \<noteq> []" using l(2) unique_set[of addresses] by force
  then have "ep_Address e = Min (unmap ` set addresses)"
    using e by (simp add: hd_sort_Min unique_set)
  ultimately show ?thesis
    using u l port e d by (auto simp: ad_allowed_def list_ex_iff)
qed

text \<open>the verdict and the pinned address do not depend on the order or the repetitions in the
resolver's answer, nor on whether it gives an IPv4 address mapped into IPv6: rotating DNS records
cannot change where a source is pinned.\<close>

theorem pin_ignores_answer_order:
  assumes "\<And>host. (case (Lookup host, Lookup' host) of
      (None, None) \<Rightarrow> True | (Some l, Some l') \<Rightarrow> unmap ` set l = unmap ` set l' | _ \<Rightarrow> False)"
  shows "Pin Parse Lookup ended ad raw = Pin Parse Lookup' ended ad raw"
proof (cases "parseURI Parse raw")
  case (Inr x)
  obtain u host port where x: "x = (u, host, port)" by (metis prod_cases3)
  show ?thesis
  proof (cases "Lookup host"; cases "Lookup' host")
    fix l l' assume l: "Lookup host = Some l" "Lookup' host = Some l'"
    with assms[of host] have s: "unmap ` set l = unmap ` set l'" by simp
    then have "set (uniqueAddresses l) = set (uniqueAddresses l')" "l = [] \<longleftrightarrow> l' = []"
      by (auto simp: unique_set)
    with sort_unique_set[OF s] show ?thesis by (simp add: Pin_def Inr x l Let_def list_ex_iff)
  qed (use assms[of host] Inr x in \<open>simp_all add: Pin_def\<close>)
qed (simp add: Pin_def)

definition ex_url :: url where
  "ex_url = \<lparr>ur_Scheme = ''rtsp'', ur_Opaque = [], ur_has_User = False, ur_Host = ''cam'',
     ur_Hostname = ''cam'', ur_Port = [], ur_EscapedPath = ''/live''\<rparr>"

definition ex_admission :: Admission where
  "ex_admission = \<lparr>ad_cidrs = [P4 0x0A000000 8], ad_ports = [554]\<rparr>"

definition ex_answer :: "string \<Rightarrow> addr list option" where
  "ex_answer host = Some [V4 0x0A000002, V4 0x0A000001]"

lemma ex_pin:
  "Pin (\<lambda>_. Some ex_url) ex_answer (\<lambda>_. False) ex_admission ''rtsp://cam/live'' =
     Inr \<lparr>ep_Address = V4 0x0A000001, ep_Port = 554, ep_Path = ''/live''\<rparr>"
proof -
  have v: "validatePath ''/live''" "\<not> containsControl ''rtsp://cam/live''"
    "\<not> containsAny [CHR ''?'', CHR ''#'', CHR 0x5C] ''rtsp://cam/live''" by code_simp+
  have h: "\<not> containsAny [CHR ''%'', CHR '' '', CHR 0x09, CHR 0x0D, CHR 0x0A] ''cam''"
    "\<not> hasSuffix '':'' ''cam''" by code_simp+
  have p: "parseURI (\<lambda>_. Some ex_url) ''rtsp://cam/live'' = Inr (ex_url, ''cam'', 554)"
    using v h by (simp add: parseURI_def ex_url_def DefaultPort_def)
  have s: "safeAddress (V4 0x0A000002)" "safeAddress (V4 0x0A000001)"
    "ad_allowed ex_admission (V4 0x0A000002)" "ad_allowed ex_admission (V4 0x0A000001)" by code_simp+
  have u: "uniqueAddresses [V4 0x0A000002, V4 0x0A000001] = [V4 0x0A000002, V4 0x0A000001]"
    by (simp add: uniqueAddresses_def unmap_def is4In6_def)
  have "sort [V4 0x0A000002, V4 0x0A000001] = [V4 0x0A000001, V4 0x0A000002]"
    by (simp add: less_eq_addr_def addr_less_def)
  with p s u show ?thesis
    by (simp add: Pin_def ex_answer_def Let_def) (simp add: ex_admission_def ex_url_def)
qed

definition ex_endpoint :: Endpoint where
  "ex_endpoint = \<lparr>ep_Address = V4 0x0A000001, ep_Port = 554, ep_Path = ''/live''\<rparr>"

theorem pin_safe_witness:
  "\<exists>u addresses decoded. Some ex_url = Some u \<and> ur_Scheme u = ''rtsp'' \<and> \<not> ur_has_User u \<and>
    ex_answer (ur_Hostname u) = Some addresses \<and> addresses \<noteq> [] \<and>
    (\<forall>a \<in> set addresses. safeAddress (unmap a) \<and>
       (\<exists>cidr \<in> set (ad_cidrs ex_admission). prefix_contains cidr (unmap a))) \<and>
    ep_Address ex_endpoint = Min (unmap ` set addresses) \<and> ep_Port ex_endpoint \<in> set (ad_ports ex_admission) \<and>
    pathUnescape (ep_Path ex_endpoint) = Some decoded \<and> ''..'' \<notin> set (splitOn CHR ''/'' decoded) \<and>
    CHR 0x5C \<notin> set decoded \<and> \<not> containsControl decoded"
  unfolding ex_endpoint_def by (rule pin_safe[OF ex_pin])

theorem pin_ignores_answer_order_witness:
  "Pin (\<lambda>_. Some ex_url) (map_option rev \<circ> ex_answer) (\<lambda>_. False) ex_admission ''rtsp://cam/live'' =
     Inr \<lparr>ep_Address = V4 0x0A000001, ep_Port = 554, ep_Path = ''/live''\<rparr>"
  using pin_ignores_answer_order[of "map_option rev \<circ> ex_answer" ex_answer] ex_pin
  by (simp add: ex_answer_def insert_commute)

end
