(* ===== verification/Zlm_Gate.thy ===== *)
theory Zlm_Gate
  imports Go_Strings
begin

text \<open>
  \<open>internal/media/zlm/gate.go\<close>: the gate in front of the media provider. The runtime is a pair of
  answers (its build identity and its probed capabilities; \<open>None\<close> for an error). The regular
  expressions are the predicates they denote.
\<close>

datatype zlm_error = ZlmUnavailable | ZlmUnapprovedBuild | ZlmCapabilityFailure | ZlmInvalidApproval | ZlmContext

definition PinnedSourceSHA :: string where
  "PinnedSourceSHA = ''46220e6a866592c140d719ca2981bd2276344f5e''"

definition CapabilityProbeVersion :: string where
  "CapabilityProbeVersion = ''zlm-security-v1''"

definition lower_hex :: "char \<Rightarrow> bool" where
  "lower_hex c \<longleftrightarrow> isDigit c \<or> c \<in> set ''abcdef''"

definition hex_of_length :: "nat \<Rightarrow> string \<Rightarrow> bool" where
  "hex_of_length n s \<longleftrightarrow> length s = n \<and> list_all lower_hex s"

definition sha1Pattern :: "string \<Rightarrow> bool" where "sha1Pattern = hex_of_length 40"
definition sha256Pattern :: "string \<Rightarrow> bool" where "sha256Pattern = hex_of_length 64"

definition digestPattern :: "string \<Rightarrow> bool" where
  "digestPattern s \<longleftrightarrow> hasPrefix ''sha256:'' s \<and> hex_of_length 64 (drop 7 s)"

record BuildIdentity =
  bi_SourceSHA :: string
  bi_PatchManifestSHA256 :: string
  bi_ImageDigest :: string

record Capabilities =
  ca_ProbeVersion :: string
  ca_RejectsRedirects :: bool
  ca_PinsControlURIs :: bool
  ca_RedactsSourceCredentials :: bool
  ca_DisablesProviderRetries :: bool
  ca_PrivateAPI :: bool
  ca_HLS :: bool

record zlm_runtime =
  zr_BuildIdentity :: "BuildIdentity option"
  zr_ProbeCapabilities :: "Capabilities option"

text \<open>\<open>Approval\<close> has the fields of \<open>BuildIdentity\<close>.\<close>

definition approval_validate :: "BuildIdentity \<Rightarrow> zlm_error option" where
  "approval_validate a =
     (if bi_SourceSHA a \<noteq> PinnedSourceSHA \<or> \<not> sha1Pattern (bi_SourceSHA a) \<or>
         \<not> sha256Pattern (bi_PatchManifestSHA256 a) \<or> \<not> digestPattern (bi_ImageDigest a)
      then Some ZlmInvalidApproval else None)"

definition sameIdentity :: "BuildIdentity \<Rightarrow> BuildIdentity \<Rightarrow> bool" where
  "sameIdentity identity approval \<longleftrightarrow> bi_SourceSHA identity = bi_SourceSHA approval \<and>
     bi_PatchManifestSHA256 identity = bi_PatchManifestSHA256 approval \<and>
     bi_ImageDigest identity = bi_ImageDigest approval"

definition capabilities_approved :: "Capabilities \<Rightarrow> bool" where
  "capabilities_approved c \<longleftrightarrow> ca_ProbeVersion c = CapabilityProbeVersion \<and> ca_RejectsRedirects c \<and>
     ca_PinsControlURIs c \<and> ca_RedactsSourceCredentials c \<and> ca_DisablesProviderRetries c \<and>
     ca_PrivateAPI c \<and> ca_HLS c"

definition Check :: "bool \<Rightarrow> zlm_runtime option \<Rightarrow> BuildIdentity \<Rightarrow> zlm_error option" where
  "Check ended runtime approval =
     (if ended then Some ZlmContext
      else (case runtime of
        None \<Rightarrow> Some ZlmUnavailable
      | Some rt \<Rightarrow>
          (case approval_validate approval of
            Some e \<Rightarrow> Some e
          | None \<Rightarrow>
              (case zr_BuildIdentity rt of
                None \<Rightarrow> Some ZlmUnavailable
              | Some identity \<Rightarrow>
                  if \<not> sameIdentity identity approval then Some ZlmUnapprovedBuild
                  else (case zr_ProbeCapabilities rt of
                    None \<Rightarrow> Some ZlmCapabilityFailure
                  | Some c \<Rightarrow> if \<not> capabilities_approved c then Some ZlmCapabilityFailure else None)))))"

subsection \<open>Properties\<close>

text \<open>the gate opens exactly for the pinned build: the approval names the pinned source, the
provider reports the very identity that was approved, both hashes are well formed, and the probe
answers with the expected version and all six protections.\<close>

theorem gate_opens_iff:
  "Check ended runtime approval = None \<longleftrightarrow>
     \<not> ended \<and> (\<exists>rt c. runtime = Some rt \<and> zr_BuildIdentity rt = Some approval \<and>
       zr_ProbeCapabilities rt = Some c \<and> bi_SourceSHA approval = PinnedSourceSHA \<and>
       hex_of_length 64 (bi_PatchManifestSHA256 approval) \<and>
       (\<exists>h. hex_of_length 64 h \<and> bi_ImageDigest approval = ''sha256:'' @ h) \<and>
       ca_ProbeVersion c = CapabilityProbeVersion \<and> ca_RejectsRedirects c \<and> ca_PinsControlURIs c \<and>
       ca_RedactsSourceCredentials c \<and> ca_DisablesProviderRetries c \<and> ca_PrivateAPI c \<and> ca_HLS c)"
proof -
  have pin: "hex_of_length 40 PinnedSourceSHA" by code_simp
  have same: "sameIdentity i approval \<longleftrightarrow> i = approval" for i :: BuildIdentity
    by (cases i; cases approval) (auto simp: sameIdentity_def)
  have dig: "digestPattern s \<longleftrightarrow> (\<exists>h. hex_of_length 64 h \<and> s = ''sha256:'' @ h)" for s
  proof
    assume "digestPattern s"
    then have h: "hex_of_length 64 (drop 7 s)" and t: "take 7 s = ''sha256:''"
      by (simp_all add: digestPattern_def hasPrefix_def numeral_eq_Suc)
    from t have "s = ''sha256:'' @ drop 7 s" by (metis append_take_drop_id)
    with h have "hex_of_length 64 (drop 7 s)" "s = ''sha256:'' @ drop 7 s" by blast+
    then show "\<exists>h. hex_of_length 64 h \<and> s = ''sha256:'' @ h" by blast
  qed (auto simp: digestPattern_def hasPrefix_def)
  show ?thesis
    using pin dig[of "bi_ImageDigest approval"]
    by (auto simp: Check_def approval_validate_def same capabilities_approved_def sha1Pattern_def
        sha256Pattern_def split: option.split)
qed

end
