(* ===== verification/Media.thy ===== *)
theory Media
  imports Go_Strings
begin

text \<open>
  \<open>internal/media/contracts.go\<close>: the values the media components exchange. Go's string types
  with named constants are datatypes with a constructor for every other string; \<open>int64\<close> and
  \<open>int\<close> fields are \<open>int\<close>. An \<open>error\<close> is one of the sentinel errors of the packages \<open>media\<close>,
  \<open>domain\<close>, \<open>mediajobs\<close> and \<open>context\<close>, or some other error; \<open>errors.Is\<close> on these is equality.
\<close>

datatype media_error =
    MInvalid | MUnavailable | MUnauthorized | MForbidden | MNotFound | MConflict | MPending | MDisabled
  | MUnsupported | MRetryable | MUnknown | MLeaseLost | MPersistenceUnknown | MLicenseRequired
  | MLicenseUnavailable | MBadMedia
  | DomNotFound | DomForbidden | DomConflict
  | JobErrInvalid | JobErrNotFound
  | CtxCanceled | CtxDeadlineExceeded
  | MOther string

definition MaxManifestBytes :: nat where "MaxManifestBytes = 256 * 1024"
definition MaxSegmentBytes :: nat where "MaxSegmentBytes = 8 * 1024 * 1024"

definition MaxVideoPlaybackTTL :: duration where "MaxVideoPlaybackTTL = 300 * second"

datatype JobKind = JobStart | JobStop | OtherKind string

datatype JobStatus =
    JobReady | JobStopped | JobSkipped | JobRetryable | JobFailed | JobUnknown | JobDisabled
  | OtherJobStatus string

datatype SessionState =
    SessionPending | SessionReady | SessionFailed | SessionRevoked | SessionExpired | OtherState string

record LicenseSnapshot =
  ls_DeploymentID :: string
  ls_Payload :: string
  ls_Signature :: string
  ls_SHA256 :: string
  ls_MaxSeenAt :: time
  ls_ClockError :: bool
  ls_Now :: time

record PlaybackTarget =
  pt_TenantID :: int
  pt_CameraID :: int
  pt_SourceVersion :: int
  pt_StreamID :: string
  pt_UserID :: int
  pt_UserTokenVersion :: int
  pt_TenantPermissionVersion :: int
  pt_MemberPermissionVersion :: int
  pt_License :: LicenseSnapshot

record Session =
  se_ID :: string
  se_StreamID :: string
  se_TenantID :: int
  se_CameraID :: int
  se_SourceVersion :: int
  se_UserID :: int
  se_UserTokenVersion :: int
  se_TenantPermissionVersion :: int
  se_MemberPermissionVersion :: int
  se_State :: SessionState
  se_ErrorCode :: string
  se_CreatedAt :: time
  se_ExpiresAt :: time

record CreateSession =
  cs_Session :: Session
  cs_Target :: PlaybackTarget
  cs_TokenHash :: string
  cs_StartJobKey :: string

record Job =
  jb_ID :: string
  jb_Kind :: JobKind
  jb_CameraID :: int
  jb_SourceVersion :: int
  jb_StreamID :: string
  jb_SessionID :: string
  jb_Attempts :: int

text \<open>\<open>Lease\<close> embeds \<open>Job\<close>.\<close>

record Lease = Job +
  le_LeaseToken :: string
  le_LeasedUntil :: time

record JobAuthorization =
  ja_Target :: PlaybackTarget
  ja_Active :: bool
  ja_SourceCurrent :: bool
  ja_StopSuperseded :: bool

record JobResult =
  jr_Status :: JobStatus
  jr_ErrorCode :: string
  jr_NextAt :: time

record MediaClaims =
  mc_SessionID :: string
  mc_TenantID :: int
  mc_CameraID :: int
  mc_UserID :: int
  mc_SourceVersion :: int
  mc_Audience :: string
  mc_IssuedAt :: time
  mc_ExpiresAt :: time
  mc_JTI :: string

record IssuedToken =
  it_Raw :: string
  it_Claims :: MediaClaims

record MediaAccess =
  ma_SessionID :: string
  ma_StreamID :: string
  ma_TenantID :: int
  ma_CameraID :: int
  ma_SourceVersion :: int
  ma_State :: SessionState
  ma_ExpiresAt :: time

record SegmentMapping =
  sm_ID :: string
  sm_SessionID :: string
  sm_StreamID :: string
  sm_SourceVersion :: int
  sm_Path :: string

record MediaRequest =
  mr_CameraID :: int
  mr_SourceVersion :: int
  mr_StreamID :: string

text \<open>The job of a lease, and the lease of a job.\<close>

definition lease_job :: "Lease \<Rightarrow> Job" where
  "lease_job l = \<lparr>jb_ID = jb_ID l, jb_Kind = jb_Kind l, jb_CameraID = jb_CameraID l,
     jb_SourceVersion = jb_SourceVersion l, jb_StreamID = jb_StreamID l,
     jb_SessionID = jb_SessionID l, jb_Attempts = jb_Attempts l\<rparr>"

definition lease_of :: "Job \<Rightarrow> string \<Rightarrow> time \<Rightarrow> Lease" where
  "lease_of j token until = \<lparr>jb_ID = jb_ID j, jb_Kind = jb_Kind j, jb_CameraID = jb_CameraID j,
     jb_SourceVersion = jb_SourceVersion j, jb_StreamID = jb_StreamID j,
     jb_SessionID = jb_SessionID j, jb_Attempts = jb_Attempts j,
     le_LeaseToken = token, le_LeasedUntil = until\<rparr>"

lemma lease_of_simps [simp]:
  "lease_job (lease_of j t u) = j" "jb_ID (lease_of j t u) = jb_ID j" "jb_Kind (lease_of j t u) = jb_Kind j"
  "jb_CameraID (lease_of j t u) = jb_CameraID j" "jb_SourceVersion (lease_of j t u) = jb_SourceVersion j"
  "jb_StreamID (lease_of j t u) = jb_StreamID j" "jb_SessionID (lease_of j t u) = jb_SessionID j"
  "jb_Attempts (lease_of j t u) = jb_Attempts j"
  "le_LeaseToken (lease_of j t u) = t" "le_LeasedUntil (lease_of j t u) = u"
  by (simp_all add: lease_of_def lease_job_def)

end
