(* ===== verification/Go_Strconv.thy ===== *)
theory Go_Strconv
  imports Go_Strings
begin

text \<open>
  The parts of \<open>strconv\<close> the program uses, in base 10: \<open>FormatInt\<close>, \<open>ParseInt\<close> with its value on
  error (0 for a syntax error, the nearest bound for a range error), \<open>ParseUint\<close> of a bit size and
  \<open>Atoi\<close>; and that parsing a formatted number gives it back.
\<close>

definition digitChar :: "nat \<Rightarrow> char" where
  "digitChar n = char_of (48 + n)"

fun natText :: "nat \<Rightarrow> string" where
  "natText n = (if n < 10 then [digitChar n] else natText (n div 10) @ [digitChar (n mod 10)])"

declare natText.simps [simp del]

definition FormatInt :: "int \<Rightarrow> string" where
  "FormatInt n = (if n < 0 then CHR ''-'' # natText (nat (- n)) else natText (nat n))"

definition digits_value :: "string \<Rightarrow> nat" where
  "digits_value s = foldl (\<lambda>v c. v * 10 + (of_char c - 48)) 0 s"

definition is_digits :: "string \<Rightarrow> bool" where
  "is_digits s \<longleftrightarrow> s \<noteq> [] \<and> list_all isDigit s"

definition ParseUint :: "nat \<Rightarrow> string \<Rightarrow> nat option" where
  "ParseUint bits s =
     (if is_digits s \<and> int (digits_value s) < 2 ^ bits then Some (digits_value s) else None)"

definition ParseInt64 :: "string \<Rightarrow> int \<times> bool" where
  "ParseInt64 s =
     (let (neg, u) = (case s of
          c # r \<Rightarrow> if c = CHR ''-'' then (True, r) else if c = CHR ''+'' then (False, r) else (False, s)
        | [] \<Rightarrow> (False, []))
      in if \<not> is_digits u then (0, False)
         else if neg then (if int (digits_value u) \<le> 2 ^ 63 then (- int (digits_value u), True) else (- (2 ^ 63), False))
         else (if int (digits_value u) < 2 ^ 63 then (int (digits_value u), True) else (2 ^ 63 - 1, False)))"

lemma of_char_digit [simp]: "n < 10 \<Longrightarrow> (of_char (digitChar n) :: nat) = 48 + n"
  by (simp add: digitChar_def)

lemma isDigit_digitChar [simp]: "n < 10 \<Longrightarrow> isDigit (digitChar n)"
  by (simp add: isDigit_iff)

lemma digits_value_append: "digits_value (s @ [c]) = digits_value s * 10 + (of_char c - 48)"
  by (simp add: digits_value_def)

lemma natText_value [simp]: "digits_value (natText n) = n"
proof (induction n rule: natText.induct)
  case (1 n)
  then show ?case
    by (subst natText.simps) (auto simp: digits_value_append, simp add: digits_value_def)
qed

lemma natText_digits [simp]: "is_digits (natText n)"
proof (induction n rule: natText.induct)
  case (1 n)
  then show ?case
    by (subst natText.simps) (auto simp: is_digits_def)
qed

lemma natText_head: "\<exists>c r. natText n = c # r \<and> isDigit c"
  using natText_digits[of n] by (cases "natText n") (auto simp: is_digits_def)

lemma ParseInt_FormatInt:
  assumes "- (2 ^ 63) \<le> n" and "n < 2 ^ 63"
  shows "ParseInt64 (FormatInt n) = (n, True)"
proof (cases "n < 0")
  case True
  with assms(1) show ?thesis by (simp add: ParseInt64_def FormatInt_def)
next
  case False
  obtain c r where cr: "natText (nat n) = c # r" "isDigit c" using natText_head by blast
  have "\<not> isDigit CHR ''-''" "\<not> isDigit CHR ''+''" by code_simp+
  then have "c \<noteq> CHR ''-''" "c \<noteq> CHR ''+''" using cr(2) by auto
  then have split: "(case natText (nat n) of
          c # r \<Rightarrow> if c = CHR ''-'' then (True, r) else if c = CHR ''+'' then (False, r) else (False, natText (nat n))
        | [] \<Rightarrow> (False, [])) = (False, natText (nat n))"
    by (simp add: cr(1))
  with assms(2) False show ?thesis by (simp add: ParseInt64_def FormatInt_def split Let_def)
qed

lemma FormatInt_inj:
  assumes "FormatInt m = FormatInt n" and "- (2 ^ 63) \<le> m" "m < 2 ^ 63" "- (2 ^ 63) \<le> n" "n < 2 ^ 63"
  shows "m = n"
  by (metis ParseInt_FormatInt assms prod.inject)

end
