(* ===== verification/Media_Store.thy ===== *)
theory Media_Store
  imports Media Go_Strconv "HOL-Library.Product_Lexorder"
begin

text \<open>
  \<open>internal/mediapg\<close>: the media store over the database. A table is the list of its rows; a query
  is a comprehension over the tables it joins, its answer the first row found (\<open>ORDER BY\<close> is
  written out). A call is a transaction: it returns its value with the new database, or its error,
  and then the database is as before (\<open>defer tx.Rollback\<close>). \<open>tx_fails n\<close> says that the \<open>n\<close>-th
  statement of the call fails for a reason of the database, \<open>tx_clock n\<close> is what
  \<open>clock_timestamp()\<close> reads in it. Constraint violations (23505, 23514, 23503) are written out
  where a statement can meet them. UUIDs are their texts; the predicate \<open>me_validUUID\<close> and the
  precision \<open>me_stored\<close> of a stored instant are parameters. The receiver and its pool are not nil.
\<close>

record media_env =
  me_validUUID :: "string \<Rightarrow> bool"
  me_stored :: "time \<Rightarrow> time"

record tx =
  tx_fails :: "nat \<Rightarrow> bool"
  tx_clock :: "nat \<Rightarrow> time"

subsection \<open>The tables\<close>

record tenant =
  tn_id :: int
  tn_active :: bool
  tn_permission_version :: int

record user =
  us_id :: int
  us_authority :: string
  us_token_version :: int

record tenant_member =
  tm_tenant_id :: int
  tm_user_id :: int
  tm_role :: string
  tm_active :: bool
  tm_expires_at :: "time option"
  tm_permission_version :: int

record farm =
  fa_id :: int
  fa_tenant_id :: int
  fa_owner_id :: int

record farm_member =
  fm_farm_id :: int
  fm_tenant_id :: int
  fm_user_id :: int
  fm_active :: bool
  fm_expires_at :: "time option"

record camera_row =
  ca_id :: int
  ca_tenant_id :: int
  ca_farm_id :: int
  ca_source_version :: int
  ca_enabled :: bool

record stream =
  st_id :: string
  st_camera_id :: int
  st_tenant_id :: int
  st_source_version :: int
  st_state :: string

record session_row = Session +
  sr_token_hash :: string
  sr_revoked_at :: "time option"

text \<open>The JSON payload of a job; \<open>jp_error_code\<close> is what \<open>jsonb_set\<close> adds.\<close>

record job_payload =
  jp_session_id :: string
  jp_camera_id :: int
  jp_source_version :: int
  jp_stream_id :: string
  jp_action :: string
  jp_error_code :: "string option"

record job_row =
  jo_id :: int
  jo_tenant_id :: int
  jo_kind :: string
  jo_key :: string
  jo_status :: string
  jo_attempts :: int
  jo_available_at :: time
  jo_leased_until :: "time option"
  jo_lease_owner :: "string option"
  jo_payload :: "job_payload option" \<comment> \<open>\<open>None\<close>: JSON that does not decode\<close>

record segment_row =
  sg_session_id :: string
  sg_segment_id :: string
  sg_provider_name :: string
  sg_expires_at :: time

record media_db =
  db_tenants :: "tenant list"
  db_users :: "user list"
  db_members :: "tenant_member list"
  db_farms :: "farm list"
  db_farm_members :: "farm_member list"
  db_cameras :: "camera_row list"
  db_license :: "LicenseSnapshot option" \<comment> \<open>the join of the three singleton rows\<close>
  db_streams :: "stream list"
  db_sessions :: "session_row list"
  db_jobs :: "job_row list"
  db_segments :: "segment_row list"

subsection \<open>Validation\<close>

definition mediapg_maxWorkerID :: nat where "mediapg_maxWorkerID = 128"
definition maxJobKey :: nat where "maxJobKey = 256"
definition jobStart :: string where "jobStart = ''video.start''"
definition jobStop :: string where "jobStop = ''video.stop''"

definition zeroHash :: "string \<Rightarrow> bool" where
  "zeroHash h \<longleftrightarrow> h = replicate 32 (CHR 0x00)"

definition equalHash :: "string \<Rightarrow> string \<Rightarrow> bool" where
  "equalHash a b \<longleftrightarrow> a = b"

definition validCreate :: "media_env \<Rightarrow> CreateSession \<Rightarrow> bool" where
  "validCreate e i \<longleftrightarrow> (let s = cs_Session i in
     me_validUUID e (se_ID s) \<and> me_validUUID e (se_StreamID s) \<and> se_TenantID s > 0 \<and> se_CameraID s > 0 \<and>
     se_UserID s > 0 \<and> se_SourceVersion s > 0 \<and> \<not> is_zero (se_CreatedAt s) \<and> \<not> is_zero (se_ExpiresAt s) \<and>
     se_ExpiresAt s > se_CreatedAt s \<and> time_sub (se_ExpiresAt s) (se_CreatedAt s) \<le> 5 * minute \<and>
     \<not> zeroHash (cs_TokenHash i) \<and> cs_StartJobKey i \<noteq> [] \<and> length (cs_StartJobKey i) \<le> maxJobKey)"

definition mpg_validLease :: "media_env \<Rightarrow> Lease \<Rightarrow> bool" where
  "mpg_validLease e l \<longleftrightarrow>
     \<not> (jb_ID l = [] \<or> \<not> me_validUUID e (jb_SessionID l) \<or> \<not> me_validUUID e (jb_StreamID l) \<or>
        jb_CameraID l \<le> 0 \<or> jb_SourceVersion l \<le> 0 \<or> le_LeaseToken l = [] \<or> is_zero (le_LeasedUntil l)) \<and>
     (jb_Kind l = JobStart \<or> jb_Kind l = JobStop)"

definition validWorkerID :: "string \<Rightarrow> bool" where
  "validWorkerID w \<longleftrightarrow>
     \<not> (w = [] \<or> length w > mediapg_maxWorkerID \<or> trimSpace w \<noteq> w) \<and>
     range_all (\<lambda>b. \<not> (b < 32 \<or> b = 127)) w"

definition validJobResult :: "JobResult \<Rightarrow> bool" where
  "validJobResult r = (case jr_Status r of OtherJobStatus _ \<Rightarrow> False | _ \<Rightarrow> True)"

definition validClaims :: "media_env \<Rightarrow> MediaClaims \<Rightarrow> bool" where
  "validClaims e c \<longleftrightarrow> me_validUUID e (mc_SessionID c) \<and> mc_TenantID c > 0 \<and> mc_CameraID c > 0 \<and>
     mc_UserID c > 0 \<and> mc_SourceVersion c > 0 \<and> mc_Audience c = ''iolink-media-v1'' \<and> mc_JTI c \<noteq> [] \<and>
     \<not> is_zero (mc_IssuedAt c) \<and> \<not> is_zero (mc_ExpiresAt c) \<and> mc_ExpiresAt c > mc_IssuedAt c"

definition validMapping :: "media_env \<Rightarrow> SegmentMapping \<Rightarrow> bool" where
  "validMapping e m \<longleftrightarrow> me_validUUID e (sm_ID m) \<and> me_validUUID e (sm_SessionID m) \<and>
     me_validUUID e (sm_StreamID m) \<and> sm_SourceVersion m > 0 \<and> sm_Path m \<noteq> [] \<and>
     \<not> containsAny [CHR ''%'', CHR ''?'', CHR ''#'', CHR 0x5C, CHR 0x5C] (sm_Path m) \<and>
     \<not> hasPrefix ''/'' (sm_Path m) \<and> \<not> strContains ''..'' (sm_Path m)"

definition jobStatus :: "JobStatus \<Rightarrow> string" where
  "jobStatus status = (case status of
      JobReady \<Rightarrow> ''succeeded''
    | JobStopped \<Rightarrow> ''succeeded''
    | JobRetryable \<Rightarrow> ''retryable''
    | JobSkipped \<Rightarrow> ''cancelled''
    | JobDisabled \<Rightarrow> ''cancelled''
    | _ \<Rightarrow> ''failed'')"

definition sessionErrorCode :: "string \<Rightarrow> string" where
  "sessionErrorCode code =
     (if code \<in> set [''source_unreachable'', ''unsupported_codec'', ''provider_unavailable'',
                     ''registration_expired'', ''catalog_stale'']
      then code else ''provider_unavailable'')"

text \<open>The states as the column \<open>video_sessions.state\<close> holds them.\<close>

definition live_state :: "SessionState \<Rightarrow> bool" where
  "live_state s \<longleftrightarrow> s = SessionPending \<or> s = SessionReady"

subsection \<open>Who may see a camera\<close>

text \<open>\<open>actorContext\<close>: the tenant, user and role a request context carries (\<open>domain\<close>'s accessors
report only positive identifiers).\<close>

record actor =
  ac_TenantID :: "int option"
  ac_UserID :: "int option"
  ac_Role :: string

definition actorContext :: "actor option \<Rightarrow> (int \<times> int \<times> string) option" where
  "actorContext ctx = (case ctx of
      None \<Rightarrow> None
    | Some a \<Rightarrow> (case (ac_TenantID a, ac_UserID a) of
          (Some tenant, Some user) \<Rightarrow>
            if tenant > 0 \<and> user > 0 \<and> ac_Role a \<noteq> [] then Some (tenant, user, ac_Role a) else None
        | _ \<Rightarrow> None))"

definition not_expired :: "time option \<Rightarrow> time \<Rightarrow> bool" where
  "not_expired ex now \<longleftrightarrow> (case ex of None \<Rightarrow> True | Some t \<Rightarrow> t > now)"

definition farm_visible :: "media_db \<Rightarrow> time \<Rightarrow> farm \<Rightarrow> int \<Rightarrow> string \<Rightarrow> bool" where
  "farm_visible db now f user role \<longleftrightarrow> role = ''owner'' \<or> role = ''admin'' \<or> fa_owner_id f = user \<or>
     list_ex (\<lambda>fm. fm_farm_id fm = fa_id f \<and> fm_tenant_id fm = fa_tenant_id f \<and> fm_user_id fm = user \<and>
        fm_active fm \<and> not_expired (fm_expires_at fm) now) (db_farm_members db)"

text \<open>
  The joins of a session with its tenant, user, camera, farm and membership, at the versions the
  session was created with: what \<open>sessionQuery\<close>, \<open>RevalidateJob\<close>, \<open>AuthorizeMedia\<close> and
  \<open>ResolveSegmentMapping\<close> have in common.
\<close>

definition grant_rows :: "media_db \<Rightarrow> time \<Rightarrow> session_row \<Rightarrow> (tenant \<times> user \<times> camera_row \<times> tenant_member) list" where
  "grant_rows db now vs =
     [(t, u, c, tm). t \<leftarrow> db_tenants db,
        tn_id t = se_TenantID vs \<and> tn_active t \<and> tn_permission_version t = se_TenantPermissionVersion vs,
        u \<leftarrow> db_users db,
        us_id u = se_UserID vs \<and> us_authority u = ''USER'' \<and> us_token_version u = se_UserTokenVersion vs,
        c \<leftarrow> db_cameras db, ca_id c = se_CameraID vs \<and> ca_tenant_id c = se_TenantID vs,
        f \<leftarrow> db_farms db, fa_id f = ca_farm_id c \<and> fa_tenant_id f = ca_tenant_id c,
        tm \<leftarrow> db_members db,
        tm_tenant_id tm = se_TenantID vs \<and> tm_user_id tm = se_UserID vs \<and> tm_active tm \<and>
        not_expired (tm_expires_at tm) now \<and> tm_permission_version tm = se_MemberPermissionVersion vs \<and>
        farm_visible db now f (se_UserID vs) (tm_role tm)]"

text \<open>\<open>sessionQuery\<close> with its condition on tenant, user and role.\<close>

definition owned_session ::
  "media_db \<Rightarrow> time \<Rightarrow> string \<Rightarrow> int \<Rightarrow> int \<Rightarrow> string \<Rightarrow> session_row option" where
  "owned_session db now sessionID tenant user role =
     find (\<lambda>vs. se_ID vs = sessionID \<and> se_TenantID vs = tenant \<and> se_UserID vs = user \<and>
        list_ex (\<lambda>(t, u, c, tm). ca_source_version c = se_SourceVersion vs \<and> tm_role tm = role)
          (grant_rows db now vs)) (db_sessions db)"

definition session_of :: "session_row \<Rightarrow> Session" where
  "session_of r = \<lparr>se_ID = se_ID r, se_StreamID = se_StreamID r, se_TenantID = se_TenantID r,
     se_CameraID = se_CameraID r, se_SourceVersion = se_SourceVersion r, se_UserID = se_UserID r,
     se_UserTokenVersion = se_UserTokenVersion r, se_TenantPermissionVersion = se_TenantPermissionVersion r,
     se_MemberPermissionVersion = se_MemberPermissionVersion r, se_State = se_State r,
     se_ErrorCode = se_ErrorCode r, se_CreatedAt = se_CreatedAt r, se_ExpiresAt = se_ExpiresAt r\<rparr>"

subsection \<open>Preparing and creating a playback\<close>

definition empty_license :: LicenseSnapshot where
  "empty_license = \<lparr>ls_DeploymentID = [], ls_Payload = [], ls_Signature = [], ls_SHA256 = [],
     ls_MaxSeenAt = time_zero, ls_ClockError = False, ls_Now = time_zero\<rparr>"

text \<open>\<open>loadTarget\<close>, at the statements \<open>n\<close> and \<open>n + 1\<close> of its transaction.\<close>

definition target_rows ::
  "media_db \<Rightarrow> time \<Rightarrow> int \<Rightarrow> int \<Rightarrow> string \<Rightarrow> int \<Rightarrow> PlaybackTarget list" where
  "target_rows db now tenant user role cameraID =
     [\<lparr>pt_TenantID = ca_tenant_id c, pt_CameraID = ca_id c, pt_SourceVersion = ca_source_version c,
       pt_StreamID = [], pt_UserID = user, pt_UserTokenVersion = us_token_version u,
       pt_TenantPermissionVersion = tn_permission_version t,
       pt_MemberPermissionVersion = tm_permission_version tm, pt_License = empty_license\<rparr>.
        c \<leftarrow> db_cameras db, ca_id c = cameraID \<and> ca_tenant_id c = tenant \<and> ca_enabled c,
        f \<leftarrow> db_farms db, fa_id f = ca_farm_id c \<and> fa_tenant_id f = ca_tenant_id c,
        t \<leftarrow> db_tenants db, tn_id t = ca_tenant_id c \<and> tn_active t,
        tm \<leftarrow> db_members db,
        tm_tenant_id tm = tn_id t \<and> tm_user_id tm = user \<and> tm_role tm = role \<and> tm_active tm \<and>
        not_expired (tm_expires_at tm) now,
        u \<leftarrow> db_users db, us_id u = user \<and> us_authority u = ''USER'' \<and> farm_visible db now f user role]"

definition loadTarget ::
  "tx \<Rightarrow> nat \<Rightarrow> media_db \<Rightarrow> int \<Rightarrow> int \<Rightarrow> string \<Rightarrow> int \<Rightarrow> (media_error, PlaybackTarget) result" where
  "loadTarget x n db tenant user role cameraID =
     require (\<not> tx_fails x n) MUnavailable
       (case target_rows db (tx_clock x n) tenant user role cameraID of
          [] \<Rightarrow> Inl MNotFound
        | target # _ \<Rightarrow>
            require (\<not> tx_fails x (n + 1)) MUnavailable
              (Inr (case find (\<lambda>st. st_camera_id st = cameraID \<and> st_tenant_id st = tenant \<and>
                        st_source_version st = pt_SourceVersion target) (db_streams db) of
                      Some st \<Rightarrow> target\<lparr>pt_StreamID := st_id st\<rparr>
                    | None \<Rightarrow> target)))"

definition loadLicense :: "tx \<Rightarrow> nat \<Rightarrow> media_db \<Rightarrow> (media_error, LicenseSnapshot) result" where
  "loadLicense x n db =
     require (\<not> tx_fails x n) MUnavailable
       (take_or (db_license db) MNotFound (\<lambda>row.
          let out = row\<lparr>ls_Now := tx_clock x n\<rparr> in
          if ls_DeploymentID out = [] \<or> length (ls_Payload out) = 0 \<or> length (ls_Signature out) = 0 \<or>
             length (ls_SHA256 out) \<noteq> 64 \<or> ls_ClockError out
          then Inl MLicenseUnavailable else Inr out))"

definition mpg_PreparePlayback ::
  "tx \<Rightarrow> actor option \<Rightarrow> string \<Rightarrow> int \<Rightarrow> media_db \<Rightarrow> (media_error, PlaybackTarget) result" where
  "mpg_PreparePlayback x ctx newID cameraID db =
     require (cameraID > 0) MInvalid
     (take_or (actorContext ctx) MForbidden (\<lambda>(tenant, user, role).
      require (\<not> tx_fails x 0) MUnavailable
      (after (loadTarget x 1 db tenant user role cameraID) (\<lambda>target.
       let target = (if pt_StreamID target = [] then target\<lparr>pt_StreamID := newID\<rparr> else target) in
       after_as MLicenseUnavailable (loadLicense x 3 db) (\<lambda>license.
       require (\<not> tx_fails x 4) MUnavailable
       (Inr (target\<lparr>pt_License := license\<rparr>)))))))"

text \<open>
  \<open>ensureStream\<close>: the stream of the camera and source version, inserted if there is none. Its
  errors are those \<open>mapStoreError\<close> gives: 23505 (the identifier is taken by another stream) is a
  conflict.
\<close>

definition ensureStream ::
  "media_env \<Rightarrow> tx \<Rightarrow> nat \<Rightarrow> CreateSession \<Rightarrow> media_db \<Rightarrow> (media_error, string \<times> media_db) result" where
  "ensureStream e x n i db =
     (let s = cs_Session i;
          streamID = (if \<not> me_validUUID e (pt_StreamID (cs_Target i)) then se_StreamID s
                      else pt_StreamID (cs_Target i));
          same = (\<lambda>st. st_camera_id st = se_CameraID s \<and> st_source_version st = se_SourceVersion s)
      in require (me_validUUID e streamID) MInvalid
         (require (\<not> tx_fails x n) MUnavailable
         (after (if list_ex same (db_streams db) then Inr db
          else if list_ex (\<lambda>st. st_id st = streamID) (db_streams db) then Inl MConflict
          else Inr (db\<lparr>db_streams := db_streams db @
                 [\<lparr>st_id = streamID, st_camera_id = se_CameraID s, st_tenant_id = se_TenantID s,
                   st_source_version = se_SourceVersion s, st_state = ''pending''\<rparr>]\<rparr>))
          (\<lambda>db.
              require (\<not> tx_fails x (n + 1)) MUnavailable
              (take_or (find (\<lambda>st. same st \<and> st_tenant_id st = se_TenantID s) (db_streams db)) MNotFound (\<lambda>st.
                 if st_state st = ''stopping'' then Inl MConflict else Inr (st_id st, db)))))))"

text \<open>A job of this package as \<open>decodeJob\<close> reads it.\<close>

definition decodeJob ::
  "media_env \<Rightarrow> int \<Rightarrow> string \<Rightarrow> job_payload option \<Rightarrow> int \<Rightarrow> (media_error, Job) result" where
  "decodeJob e i kind raw attempts =
     require (kind = jobStart \<or> kind = jobStop) MInvalid
     (take_or raw MInvalid (\<lambda>payload.
      if \<not> me_validUUID e (jp_session_id payload) \<or> jp_camera_id payload \<le> 0 \<or>
         jp_source_version payload \<le> 0 \<or> \<not> me_validUUID e (jp_stream_id payload)
      then Inl MInvalid
      else Inr \<lparr>jb_ID = FormatInt i, jb_Kind = (if kind = jobStop then JobStop else JobStart),
             jb_CameraID = jp_camera_id payload, jb_SourceVersion = jp_source_version payload,
             jb_StreamID = jp_stream_id payload, jb_SessionID = jp_session_id payload,
             jb_Attempts = attempts\<rparr>))"

text \<open>
  \<open>INSERT INTO jobs ... ON CONFLICT(tenant_id,kind,idempotency_key) DO NOTHING\<close>: whether a row was
  inserted, and the table. The identifier is the next of the sequence (it may skip numbers; only
  that it is new and the largest matters), \<open>available_at\<close> the transaction's start.
\<close>

definition next_job_id :: "job_row list \<Rightarrow> int" where
  "next_job_id jobs = foldr (\<lambda>j. max (jo_id j)) jobs 0 + 1"

definition same_job :: "int \<Rightarrow> string \<Rightarrow> string \<Rightarrow> job_row \<Rightarrow> bool" where
  "same_job tenant kind key j \<longleftrightarrow> jo_tenant_id j = tenant \<and> jo_kind j = kind \<and> jo_key j = key"

definition insert_job ::
  "tx \<Rightarrow> int \<Rightarrow> string \<Rightarrow> string \<Rightarrow> job_payload \<Rightarrow> job_row list \<Rightarrow> bool \<times> job_row list" where
  "insert_job x tenant kind key payload jobs =
     (if list_ex (same_job tenant kind key) jobs then (False, jobs)
      else (True, jobs @ [\<lparr>jo_id = next_job_id jobs, jo_tenant_id = tenant, jo_kind = kind, jo_key = key,
              jo_status = ''scheduled'', jo_attempts = 0, jo_available_at = tx_clock x 0,
              jo_leased_until = None, jo_lease_owner = None, jo_payload = Some payload\<rparr>]))"

definition set_stream_state :: "string \<Rightarrow> string \<Rightarrow> stream list \<Rightarrow> stream list" where
  "set_stream_state i st = map (\<lambda>r. if st_id r = i then r\<lparr>st_state := st\<rparr> else r)"

text \<open>The row \<open>CreatePlayback\<close> inserts, and the constraints of the table it can violate.\<close>

definition new_session :: "media_env \<Rightarrow> CreateSession \<Rightarrow> string \<Rightarrow> session_row" where
  "new_session e i streamID = (let s = cs_Session i in
     \<lparr>se_ID = se_ID s, se_StreamID = streamID, se_TenantID = se_TenantID s, se_CameraID = se_CameraID s,
      se_SourceVersion = se_SourceVersion s, se_UserID = se_UserID s, se_UserTokenVersion = se_UserTokenVersion s,
      se_TenantPermissionVersion = se_TenantPermissionVersion s,
      se_MemberPermissionVersion = se_MemberPermissionVersion s, se_State = SessionPending, se_ErrorCode = [],
      se_CreatedAt = me_stored e (se_CreatedAt s), se_ExpiresAt = me_stored e (se_ExpiresAt s),
      sr_token_hash = cs_TokenHash i, sr_revoked_at = None\<rparr>)"

definition session_check :: "session_row \<Rightarrow> bool" where
  "session_check r \<longleftrightarrow> se_SourceVersion r > 0 \<and> se_UserTokenVersion r \<ge> 0 \<and> se_TenantPermissionVersion r \<ge> 0 \<and>
     se_MemberPermissionVersion r \<ge> 0 \<and> length (sr_token_hash r) = 32 \<and> se_ExpiresAt r > se_CreatedAt r \<and>
     se_ExpiresAt r \<le> se_CreatedAt r + 5 * minute"

definition insert_session ::
  "session_row \<Rightarrow> session_row list \<Rightarrow> (media_error, session_row list) result" where
  "insert_session r sessions =
     require (session_check r) MInvalid
     (require (\<not> list_ex (\<lambda>q. sr_token_hash q = sr_token_hash r \<or> se_ID q = se_ID r) sessions) MConflict
     (Inr (sessions @ [r])))"

definition create_payload :: "CreateSession \<Rightarrow> string \<Rightarrow> job_payload" where
  "create_payload i streamID = \<lparr>jp_session_id = se_ID (cs_Session i), jp_camera_id = se_CameraID (cs_Session i),
     jp_source_version = se_SourceVersion (cs_Session i), jp_stream_id = streamID, jp_action = ''start'',
     jp_error_code = None\<rparr>"

definition same_target :: "PlaybackTarget \<Rightarrow> Session \<Rightarrow> bool" where
  "same_target a s \<longleftrightarrow> pt_SourceVersion a = se_SourceVersion s \<and> pt_TenantID a = se_TenantID s \<and>
     pt_UserID a = se_UserID s \<and> pt_CameraID a = se_CameraID s \<and> pt_UserTokenVersion a = se_UserTokenVersion s \<and>
     pt_TenantPermissionVersion a = se_TenantPermissionVersion s \<and>
     pt_MemberPermissionVersion a = se_MemberPermissionVersion s"

definition same_session :: "session_row \<Rightarrow> CreateSession \<Rightarrow> bool" where
  "same_session r i \<longleftrightarrow> (let s = cs_Session i in
     se_StreamID r = se_StreamID s \<and> se_TenantID r = se_TenantID s \<and> se_CameraID r = se_CameraID s \<and>
     se_SourceVersion r = se_SourceVersion s \<and> se_UserID r = se_UserID s \<and>
     se_UserTokenVersion r = se_UserTokenVersion s \<and>
     se_TenantPermissionVersion r = se_TenantPermissionVersion s \<and>
     se_MemberPermissionVersion r = se_MemberPermissionVersion s \<and> se_CreatedAt r = se_CreatedAt s \<and>
     se_ExpiresAt r = se_ExpiresAt s \<and> equalHash (sr_token_hash r) (cs_TokenHash i))"

text \<open>The start job of the camera exists already: what becomes of it, of the stream and of the session.\<close>

definition share_start_job ::
  "media_env \<Rightarrow> tx \<Rightarrow> CreateSession \<Rightarrow> string \<Rightarrow> media_db \<Rightarrow> (media_error, SessionState \<times> media_db) result" where
  "share_start_job e x i streamID db =
     (let s = cs_Session i in
      require (\<not> tx_fails x 9) MUnavailable
      (take_or (find (same_job (se_TenantID s) jobStart (cs_StartJobKey i)) (db_jobs db)) MUnavailable (\<lambda>row.
       after_as MConflict (decodeJob e (jo_id row) (jo_kind row) (jo_payload row) (jo_attempts row)) (\<lambda>job.
          if jb_CameraID job \<noteq> se_CameraID s \<or> jb_SourceVersion job \<noteq> se_SourceVersion s \<or>
             jb_StreamID job \<noteq> streamID then Inl MConflict
          else require (\<not> tx_fails x 10) MUnavailable
           (take_or (find (\<lambda>st. st_id st = streamID) (db_streams db)) MUnavailable (\<lambda>st.
             if jo_status row = ''succeeded'' \<and> st_state st = ''ready'' then
               require (\<not> tx_fails x 11) MUnavailable
               (Inr (SessionReady, db\<lparr>db_sessions := map (\<lambda>r.
                  if se_ID r = se_ID s \<and> se_State r = SessionPending then r\<lparr>se_State := SessionReady\<rparr> else r)
                  (db_sessions db)\<rparr>))
             else if jo_status row = ''failed'' \<or> jo_status row = ''cancelled'' \<or> jo_status row = ''succeeded'' then
               require (\<not> tx_fails x 11 \<and> \<not> tx_fails x 12) MUnavailable
               (Inr (SessionPending, db\<lparr>
                  db_streams := set_stream_state streamID ''pending'' (db_streams db),
                  db_jobs := snd (insert_job x (se_TenantID s) jobStart
                    (cs_StartJobKey i @ '':'' @ se_ID s) (create_payload i streamID) (db_jobs db))\<rparr>))
             else Inr (se_State s, db)))))))"

definition mpg_CreatePlayback ::
  "media_env \<Rightarrow> tx \<Rightarrow> actor option \<Rightarrow> CreateSession \<Rightarrow> media_db \<Rightarrow> (media_error, Session \<times> media_db) result" where
  "mpg_CreatePlayback e x ctx i db =
     (let s = cs_Session i in
      require (validCreate e i) MInvalid
      (take_or (actorContext ctx) MForbidden (\<lambda>(tenant, user, role).
       require (\<not> tx_fails x 0) MUnavailable
       (after (loadTarget x 1 db tenant user role (se_CameraID s)) (\<lambda>authoritative.
        require (same_target authoritative s) MConflict
        (after_as MLicenseUnavailable (loadLicense x 3 db) (\<lambda>license.
         require (ls_DeploymentID license = ls_DeploymentID (pt_License (cs_Target i)) \<and>
                  ls_SHA256 license = ls_SHA256 (pt_License (cs_Target i))) MLicenseUnavailable
         (require (\<not> tx_fails x 4) MUnavailable
         (case find (\<lambda>r. se_ID r = se_ID s) (db_sessions db) of
            Some r \<Rightarrow>
              require (\<not> tx_fails x 5) MUnavailable
              (require (same_session r i) MConflict
              (require (\<not> tx_fails x 6) MUnavailable
              (Inr (session_of r, db))))
          | None \<Rightarrow>
              after (ensureStream e x 5 i db) (\<lambda>(streamID, db).
              require (\<not> tx_fails x 7) MUnavailable
              (after (insert_session (new_session e i streamID) (db_sessions db)) (\<lambda>sessions.
              require (\<not> tx_fails x 8) MUnavailable
              (require (\<not> list_all (\<lambda>c. c = CHR '' '') (cs_StartJobKey i)) MInvalid
              (let (inserted, jobs) = insert_job x (se_TenantID s) jobStart (cs_StartJobKey i)
                     (create_payload i streamID) (db_jobs db);
                   db = db\<lparr>db_sessions := sessions, db_jobs := jobs\<rparr>
               in after (if inserted then Inr (se_State s, db) else share_start_job e x i streamID db)
                 (\<lambda>(state, db).
                  require (\<not> tx_fails x 13) MUnavailable
                  (Inr (s\<lparr>se_State := state, se_StreamID := streamID\<rparr>, db)))))))))))))))))"

subsection \<open>Reading and stopping a playback\<close>

definition mpg_ReadOwnedPlayback ::
  "media_env \<Rightarrow> tx \<Rightarrow> actor option \<Rightarrow> string \<Rightarrow> media_db \<Rightarrow> (media_error, Session) result" where
  "mpg_ReadOwnedPlayback e x ctx sessionID db =
     require (me_validUUID e sessionID) MInvalid
     (take_or (actorContext ctx) MForbidden (\<lambda>(tenant, user, role).
      require (\<not> tx_fails x 0) MUnavailable
      (take_or (owned_session db (tx_clock x 0) sessionID tenant user role) MNotFound (\<lambda>r.
       Inr (session_of r)))))"

definition revoke :: "time \<Rightarrow> session_row \<Rightarrow> session_row" where
  "revoke now r = r\<lparr>se_State := SessionRevoked, sr_revoked_at := Some now\<rparr>"

text \<open>The live sessions of a stream.\<close>

definition active_sessions :: "media_db \<Rightarrow> time \<Rightarrow> string \<Rightarrow> session_row list" where
  "active_sessions db now streamID =
     filter (\<lambda>r. se_StreamID r = streamID \<and> live_state (se_State r) \<and> se_ExpiresAt r > now) (db_sessions db)"

definition stop_payload :: "session_row \<Rightarrow> job_payload" where
  "stop_payload r = \<lparr>jp_session_id = se_ID r, jp_camera_id = se_CameraID r,
     jp_source_version = se_SourceVersion r, jp_stream_id = se_StreamID r, jp_action = ''stop'',
     jp_error_code = None\<rparr>"

definition mpg_StopOwnedPlayback ::
  "media_env \<Rightarrow> tx \<Rightarrow> actor option \<Rightarrow> string \<Rightarrow> time \<Rightarrow> media_db \<Rightarrow> (media_error, unit \<times> media_db) result" where
  "mpg_StopOwnedPlayback e x ctx sessionID now db =
     require (me_validUUID e sessionID \<and> \<not> is_zero now) MInvalid
     (take_or (actorContext ctx) MForbidden (\<lambda>(tenant, user, role).
      require (\<not> tx_fails x 0 \<and> \<not> tx_fails x 1) MUnavailable
      (take_or (owned_session db (tx_clock x 1) sessionID tenant user role) MNotFound (\<lambda>sess.
       require (\<not> tx_fails x 2 \<and> list_ex (\<lambda>st. st_id st = se_StreamID sess) (db_streams db)) MUnavailable
       (require (\<not> tx_fails x 3) MUnavailable
       (after (if live_state (se_State sess) then
            require (\<not> tx_fails x 4) MUnavailable
            (let db = db\<lparr>db_sessions := map (\<lambda>r.
                   if se_ID r = sessionID \<and> live_state (se_State r) then revoke (tx_clock x 4) r else r)
                   (db_sessions db)\<rparr>
             in require (\<not> tx_fails x 5) MUnavailable
               (if active_sessions db (tx_clock x 5) (se_StreamID sess) = [] then
                  require (\<not> tx_fails x 6 \<and> \<not> tx_fails x 7) MUnavailable
                  (Inr (db\<lparr>db_streams := set_stream_state (se_StreamID sess) ''stopping'' (db_streams db),
                     db_jobs := snd (insert_job x (se_TenantID sess) jobStop (se_StreamID sess)
                       (stop_payload sess) (db_jobs db))\<rparr>))
                else Inr db))
          else Inr db)
        (\<lambda>db. require (\<not> tx_fails x 8) MUnavailable (Inr ((), db)))))))))"

subsection \<open>Access to the media\<close>

definition mpg_AuthorizeMedia ::
  "media_env \<Rightarrow> tx \<Rightarrow> MediaClaims \<Rightarrow> string \<Rightarrow> time \<Rightarrow> media_db \<Rightarrow> (media_error, MediaAccess) result" where
  "mpg_AuthorizeMedia e x claims tokenHash now db =
     require (validClaims e claims \<and> \<not> is_zero now \<and> \<not> zeroHash tokenHash \<and>
       \<not> time_sub (mc_ExpiresAt claims) (mc_IssuedAt claims) > MaxVideoPlaybackTTL) MUnauthorized
     (require (\<not> tx_fails x 0) MUnavailable
     (take_or (find (\<lambda>r. se_ID r = mc_SessionID claims) (db_sessions db)) MNotFound (\<lambda>vs.
      take_or (find (\<lambda>t. tn_id t = se_TenantID vs) (db_tenants db)) MNotFound (\<lambda>t.
      take_or (find (\<lambda>c. ca_id c = se_CameraID vs \<and> ca_tenant_id c = se_TenantID vs) (db_cameras db)) MNotFound (\<lambda>c.
       let dbNow = tx_clock x 0 in
       require (\<not> (se_TenantID vs \<noteq> mc_TenantID claims \<or> se_CameraID vs \<noteq> mc_CameraID claims \<or>
          se_SourceVersion vs \<noteq> mc_SourceVersion claims \<or> se_UserID vs \<noteq> mc_UserID claims \<or>
          \<not> ca_enabled c \<or> ca_source_version c \<noteq> mc_SourceVersion claims \<or>
          length (sr_token_hash vs) \<noteq> 32 \<or> \<not> equalHash (sr_token_hash vs) tokenHash)) MUnauthorized
       (require (\<not> tx_fails x 1) MUnavailable
       (require (grant_rows db (tx_clock x 1) vs \<noteq> []) MForbidden
       (require (\<not> mc_IssuedAt claims > dbNow) MUnauthorized
       (require (\<not> (\<not> dbNow < se_ExpiresAt vs \<or> se_State vs = SessionRevoked \<or> se_State vs = SessionExpired \<or>
            se_State vs = SessionFailed)) MForbidden
       (require (\<not> (se_State vs \<noteq> SessionPending \<and> se_State vs \<noteq> SessionReady)) MForbidden
       (Inr \<lparr>ma_SessionID = se_ID vs, ma_StreamID = se_StreamID vs, ma_TenantID = se_TenantID vs,
          ma_CameraID = se_CameraID vs, ma_SourceVersion = se_SourceVersion vs, ma_State = se_State vs,
          ma_ExpiresAt = se_ExpiresAt vs\<rparr>)))))))))))"

text \<open>The column check of \<open>video_segments.provider_name\<close>.\<close>

definition two_digits :: "string \<Rightarrow> nat \<Rightarrow> nat" where
  "two_digits s i = digits_value (take 2 (drop i s))"

definition segment_shape :: "string \<Rightarrow> bool" where
  "segment_shape s \<longleftrightarrow> length s \<ge> 23 \<and>
     list_all isDigit (take 4 s) \<and> s ! 4 = CHR ''-'' \<and> list_all isDigit (take 2 (drop 5 s)) \<and>
     s ! 7 = CHR ''-'' \<and> list_all isDigit (take 2 (drop 8 s)) \<and> s ! 10 = CHR ''/'' \<and>
     list_all isDigit (take 2 (drop 11 s)) \<and> s ! 13 = CHR ''/'' \<and> list_all isDigit (take 2 (drop 14 s)) \<and>
     s ! 16 = CHR ''-'' \<and> list_all isDigit (take 2 (drop 17 s)) \<and> s ! 19 = CHR ''_'' \<and>
     hasSuffix ''.ts'' s \<and> list_all isDigit (take (length s - 23) (drop 20 s)) \<and> length s > 23"

definition provider_name_check :: "string \<Rightarrow> bool" where
  "provider_name_check s \<longleftrightarrow> segment_shape s \<and> length s \<le> 128 \<and>
     1 \<le> two_digits s 5 \<and> two_digits s 5 \<le> 12 \<and> 1 \<le> two_digits s 8 \<and> two_digits s 8 \<le> 31 \<and>
     two_digits s 11 \<le> 23 \<and> two_digits s 14 \<le> 59 \<and> two_digits s 17 \<le> 59"

definition insert_segment :: "segment_row \<Rightarrow> segment_row list \<Rightarrow> (media_error, segment_row list) result" where
  "insert_segment r segments =
     require (provider_name_check (sg_provider_name r)) MInvalid
     (require (\<not> list_ex (\<lambda>q. sg_session_id q = sg_session_id r \<and>
         (sg_segment_id q = sg_segment_id r \<or> sg_provider_name q = sg_provider_name r)) segments) MConflict
     (Inr (segments @ [r])))"

text \<open>The loop of \<open>CreateSegmentMappings\<close>; the statements of mapping \<open>k\<close> are \<open>2 k + 1\<close> and \<open>2 k + 2\<close>.\<close>

fun map_segments ::
  "media_env \<Rightarrow> tx \<Rightarrow> nat \<Rightarrow> SegmentMapping list \<Rightarrow> media_db \<Rightarrow> (media_error, media_db) result" where
  "map_segments e x k [] db = Inr db"
| "map_segments e x k (m # ms) db =
     require (validMapping e m) MInvalid
     (require (\<not> tx_fails x (2 * k + 1)) MUnavailable
     (take_or (find (\<lambda>r. se_ID r = sm_SessionID m \<and> se_StreamID r = sm_StreamID m \<and>
          se_SourceVersion r = sm_SourceVersion m \<and> live_state (se_State r) \<and>
          se_ExpiresAt r > tx_clock x (2 * k + 1)) (db_sessions db)) MNotFound (\<lambda>r.
      require (\<not> tx_fails x (2 * k + 2)) MUnavailable
      (after (insert_segment \<lparr>sg_session_id = sm_SessionID m, sg_segment_id = sm_ID m,
           sg_provider_name = sm_Path m, sg_expires_at = se_ExpiresAt r\<rparr> (db_segments db)) (\<lambda>segments.
       map_segments e x (k + 1) ms (db\<lparr>db_segments := segments\<rparr>))))))"

definition mpg_CreateSegmentMappings ::
  "media_env \<Rightarrow> tx \<Rightarrow> SegmentMapping list \<Rightarrow> media_db \<Rightarrow>
   (media_error, SegmentMapping list \<times> media_db) result" where
  "mpg_CreateSegmentMappings e x mappings db =
     require (\<not> (length mappings = 0 \<or> length mappings > 4096)) MInvalid
     (require (\<not> tx_fails x 0) MUnavailable
     (after (map_segments e x 0 mappings db) (\<lambda>db.
      require (\<not> tx_fails x (2 * length mappings + 1)) MUnavailable
      (Inr (mappings, db)))))"

definition mpg_ResolveSegmentMapping ::
  "media_env \<Rightarrow> tx \<Rightarrow> string \<Rightarrow> string \<Rightarrow> media_db \<Rightarrow> (media_error, SegmentMapping) result" where
  "mpg_ResolveSegmentMapping e x sessionID segmentID db =
     require (me_validUUID e sessionID \<and> me_validUUID e segmentID) MInvalid
     (require (\<not> tx_fails x 0) MUnavailable
     (let now = tx_clock x 0 in
      case [\<lparr>sm_ID = sg_segment_id sg, sm_SessionID = sg_session_id sg, sm_StreamID = se_StreamID vs,
             sm_SourceVersion = se_SourceVersion vs, sm_Path = sg_provider_name sg\<rparr>.
             sg \<leftarrow> db_segments db, sg_session_id sg = sessionID \<and> sg_segment_id sg = segmentID \<and> sg_expires_at sg > now,
             vs \<leftarrow> db_sessions db, se_ID vs = sg_session_id sg \<and> live_state (se_State vs) \<and> se_ExpiresAt vs > now,
             (t, u, c, tm) \<leftarrow> grant_rows db now vs, ca_enabled c \<and> ca_source_version c = se_SourceVersion vs] of
        [] \<Rightarrow> Inl MNotFound
      | m # _ \<Rightarrow> Inr m))"

end
