(* ===== verification/Media_Queue.thy ===== *)
theory Media_Queue
  imports Media_Store
begin

text \<open>
  \<open>internal/mediapg/jobs.go\<close> and \<open>job_finish.go\<close>: the job queue of the media store. As in
  Media_Store a call is a transaction that returns its value with the new database or leaves it.
\<close>

subsection \<open>Claiming\<close>

definition due_job :: "time \<Rightarrow> job_row \<Rightarrow> bool" where
  "due_job now j \<longleftrightarrow> (jo_kind j = jobStart \<or> jo_kind j = jobStop) \<and> jo_attempts j < 6 \<and>
     (((jo_status j = ''scheduled'' \<or> jo_status j = ''retryable'') \<and> jo_available_at j \<le> now) \<or>
      (jo_status j = ''running'' \<and> (case jo_leased_until j of None \<Rightarrow> False | Some t \<Rightarrow> t \<le> now)))"

definition next_due :: "time \<Rightarrow> job_row list \<Rightarrow> job_row option" where
  "next_due now jobs =
     (case sort_key (\<lambda>j. (jo_available_at j, jo_id j)) (filter (due_job now) jobs) of
        [] \<Rightarrow> None | j # _ \<Rightarrow> Some j)"

definition lease_row :: "string \<Rightarrow> time \<Rightarrow> job_row \<Rightarrow> job_row" where
  "lease_row owner until j = j\<lparr>jo_status := ''running'', jo_attempts := jo_attempts j + 1,
     jo_leased_until := Some until, jo_lease_owner := Some owner\<rparr>"

definition starting_stream :: "string \<Rightarrow> stream list \<Rightarrow> stream list" where
  "starting_stream i = map (\<lambda>st.
     if st_id st = i \<and> st_state st \<in> set [''pending'', ''failed'', ''unknown'']
     then st\<lparr>st_state := ''starting''\<rparr> else st)"

definition mpg_ClaimJob ::
  "media_env \<Rightarrow> tx \<Rightarrow> string option \<Rightarrow> time \<Rightarrow> duration \<Rightarrow> string \<Rightarrow> media_db \<Rightarrow>
   (media_error, Lease option \<times> media_db) result" where
  "mpg_ClaimJob e x token now lease workerID db =
     require (\<not> (is_zero now \<or> lease \<le> 0 \<or> lease > 5 * minute \<or> \<not> validWorkerID workerID)) MInvalid
     (require (\<not> tx_fails x 0 \<and> \<not> tx_fails x 1) MUnavailable
     (case next_due (tx_clock x 1) (db_jobs db) of
        None \<Rightarrow> require (\<not> tx_fails x 2) MUnavailable (Inr (None, db))
      | Some row \<Rightarrow>
          (after_as MUnavailable (decodeJob e (jo_id row) (jo_kind row) (jo_payload row) (jo_attempts row)) (\<lambda>job.
              take_or token MUnavailable (\<lambda>t.
              require (\<not> tx_fails x 2) MUnavailable
              (let owner = workerID @ '':'' @ t;
                   until = me_stored e (tx_clock x 2 + (lease div 1000) * 1000);
                   db = db\<lparr>db_jobs := map (\<lambda>j. if jo_id j = jo_id row then lease_row owner until j else j)
                          (db_jobs db)\<rparr>
               in after (if jo_kind row = jobStart then
                      require (\<not> tx_fails x 3) MUnavailable
                      (Inr (db\<lparr>db_streams := starting_stream (jb_StreamID job) (db_streams db)\<rparr>))
                    else Inr db)
                (\<lambda>db. require (\<not> tx_fails x 4) MUnavailable
                  (Inr (Some (lease_of (job\<lparr>jb_Attempts := jb_Attempts job + 1\<rparr>) owner until), db)))))))))"

subsection \<open>Revalidating\<close>

text \<open>The row a lease holds: the query of \<open>RevalidateJob\<close> and \<open>FinishJob\<close>.\<close>

definition leased_row :: "int \<Rightarrow> string \<Rightarrow> time \<Rightarrow> job_row \<Rightarrow> bool" where
  "leased_row i owner now j \<longleftrightarrow> jo_id j = i \<and> jo_status j = ''running'' \<and> jo_lease_owner j = Some owner \<and>
     (case jo_leased_until j of None \<Rightarrow> False | Some t \<Rightarrow> t > now)"

definition fenceStopStream ::
  "tx \<Rightarrow> nat \<Rightarrow> Lease \<Rightarrow> int \<Rightarrow> media_db \<Rightarrow> (media_error, bool \<times> media_db) result" where
  "fenceStopStream x n lease tenantID db =
     require (\<not> tx_fails x n) MUnavailable
     (take_or (find (\<lambda>st. st_id st = jb_StreamID lease) (db_streams db)) MLeaseLost (\<lambda>st.
      require (\<not> (st_camera_id st \<noteq> jb_CameraID lease \<or> st_tenant_id st \<noteq> tenantID \<or>
          st_source_version st \<noteq> jb_SourceVersion lease)) MLeaseLost
      (require (\<not> tx_fails x (n + 1)) MUnavailable
      (if list_ex (\<lambda>r. se_StreamID r = jb_StreamID lease \<and> se_CameraID r = jb_CameraID lease \<and>
            se_TenantID r = tenantID \<and> se_SourceVersion r = jb_SourceVersion lease \<and>
            live_state (se_State r) \<and> se_ExpiresAt r > tx_clock x (n + 1)) (db_sessions db)
       then Inr (True, db)
       else require (\<not> tx_fails x (n + 2)) MUnavailable
         (Inr (False, db\<lparr>db_streams := set_stream_state (jb_StreamID lease) ''stopping'' (db_streams db)\<rparr>))))))"

text \<open>The session query of \<open>RevalidateJob\<close>, the newest session first.\<close>

definition job_sessions ::
  "media_db \<Rightarrow> time \<Rightarrow> Lease \<Rightarrow> int \<Rightarrow> string \<Rightarrow> (session_row \<times> tenant \<times> user \<times> tenant_member) list" where
  "job_sessions db now lease tenantID kind =
     [(s, t, u, tm). s \<leftarrow> db_sessions db,
        se_StreamID s = jb_StreamID lease \<and> se_CameraID s = jb_CameraID lease \<and> se_TenantID s = tenantID \<and>
        se_SourceVersion s = jb_SourceVersion lease \<and>
        ((kind = jobStart \<and> live_state (se_State s) \<and> se_ExpiresAt s > now) \<or>
         (kind = jobStop \<and> se_ID s = jb_SessionID lease)) \<and>
        list_ex (\<lambda>f. se_ID f = jb_SessionID lease \<and> se_StreamID f = se_StreamID s \<and>
           se_CameraID f = se_CameraID s \<and> se_TenantID f = se_TenantID s \<and>
           se_SourceVersion f = se_SourceVersion s) (db_sessions db),
        (t, u, c, tm) \<leftarrow> grant_rows db now s]"

definition newest_session ::
  "(session_row \<times> tenant \<times> user \<times> tenant_member) list \<Rightarrow> (session_row \<times> tenant \<times> user \<times> tenant_member) option" where
  "newest_session rows =
     (case sort_key (\<lambda>(s, _). - se_CreatedAt s) rows of [] \<Rightarrow> None | r # _ \<Rightarrow> Some r)"

definition lease_target :: "Lease \<Rightarrow> int \<Rightarrow> PlaybackTarget" where
  "lease_target lease tenantID = \<lparr>pt_TenantID = tenantID, pt_CameraID = jb_CameraID lease,
     pt_SourceVersion = jb_SourceVersion lease, pt_StreamID = jb_StreamID lease, pt_UserID = 0,
     pt_UserTokenVersion = 0, pt_TenantPermissionVersion = 0, pt_MemberPermissionVersion = 0,
     pt_License = empty_license\<rparr>"

text \<open>What follows the fence: from the test for a missing camera to the end.\<close>

definition job_authorization ::
  "tx \<Rightarrow> Lease \<Rightarrow> job_row \<Rightarrow> camera_row option \<Rightarrow> bool \<Rightarrow> media_db \<Rightarrow> (media_error, JobAuthorization) result" where
  "job_authorization x lease row camera superseded db =
     (let tenantID = jo_tenant_id row; target = lease_target lease tenantID in
      case camera of
        None \<Rightarrow>
          require (\<not> tx_fails x 8) MUnavailable
          (Inr \<lparr>ja_Target = target, ja_Active = False, ja_SourceCurrent = False, ja_StopSuperseded = superseded\<rparr>)
      | Some c \<Rightarrow>
          require (\<not> tx_fails x 6) MUnavailable
          (case newest_session (job_sessions db (tx_clock x 6) lease tenantID (jo_kind row)) of
             None \<Rightarrow>
               require (\<not> tx_fails x 8) MUnavailable
               (Inr \<lparr>ja_Target = target, ja_Active = False,
                  ja_SourceCurrent = (ca_source_version c = jb_SourceVersion lease),
                  ja_StopSuperseded = superseded\<rparr>)
           | Some (s, t, u, tm) \<Rightarrow>
               require (us_token_version u = se_UserTokenVersion s \<and>
                 tn_permission_version t = se_TenantPermissionVersion s \<and>
                 tm_permission_version tm = se_MemberPermissionVersion s) MLeaseLost
               (let target = target\<lparr>pt_UserID := se_UserID s, pt_UserTokenVersion := se_UserTokenVersion s,
                      pt_TenantPermissionVersion := se_TenantPermissionVersion s,
                      pt_MemberPermissionVersion := se_MemberPermissionVersion s\<rparr>
                in after (if jb_Kind lease = JobStart \<and> ca_enabled c \<and> ca_source_version c = jb_SourceVersion lease
                          then after_as MLicenseUnavailable (loadLicense x 7 db) Inr else Inr empty_license)
                  (\<lambda>license. require (\<not> tx_fails x 8) MUnavailable
                    (Inr \<lparr>ja_Target = target\<lparr>pt_License := license\<rparr>, ja_Active = ca_enabled c,
                       ja_SourceCurrent = (ca_source_version c = jb_SourceVersion lease),
                       ja_StopSuperseded = superseded\<rparr>)))))"

definition mpg_RevalidateJob ::
  "media_env \<Rightarrow> tx \<Rightarrow> Lease \<Rightarrow> media_db \<Rightarrow> (media_error, JobAuthorization \<times> media_db) result" where
  "mpg_RevalidateJob e x lease db =
     require (mpg_validLease e lease) MInvalid
     (require (\<not> tx_fails x 0 \<and> \<not> tx_fails x 1) MUnavailable
     (take_or (find (leased_row (fst (ParseInt64 (jb_ID lease))) (le_LeaseToken lease) (tx_clock x 1)) (db_jobs db))
        MLeaseLost (\<lambda>row.
      require (jo_kind row = (if jb_Kind lease = JobStop then jobStop else jobStart)) MLeaseLost
      (require (\<not> tx_fails x 2) MUnavailable
      (after (if jb_Kind lease = JobStop then fenceStopStream x 3 lease (jo_tenant_id row) db else Inr (False, db))
        (\<lambda>(superseded, db').
         after (job_authorization x lease row
             (find (\<lambda>c. ca_id c = jb_CameraID lease \<and> ca_tenant_id c = jo_tenant_id row) (db_cameras db))
             superseded db')
          (\<lambda>auth. Inr (auth, db'))))))))"

subsection \<open>Finishing\<close>

text \<open>
  \<open>finishStreamAndSessions\<close>, on the stream and the sessions of the job. \<open>NULLIF(code,'')\<close> leaves
  the column empty for the empty code, which here is the empty string.
\<close>

definition end_pending :: "string \<Rightarrow> SessionState \<Rightarrow> string \<Rightarrow> session_row list \<Rightarrow> session_row list" where
  "end_pending streamID st code = map (\<lambda>r.
     if se_StreamID r = streamID \<and> se_State r = SessionPending then r\<lparr>se_State := st, se_ErrorCode := code\<rparr> else r)"

definition revoke_live :: "string \<Rightarrow> time \<Rightarrow> session_row list \<Rightarrow> session_row list" where
  "revoke_live streamID now = map (\<lambda>r.
     if se_StreamID r = streamID \<and> live_state (se_State r)
     then r\<lparr>se_State := SessionRevoked,
            sr_revoked_at := Some (case sr_revoked_at r of Some t \<Rightarrow> t | None \<Rightarrow> now)\<rparr> else r)"

definition finish_states :: "JobKind \<Rightarrow> JobStatus \<Rightarrow> (string \<times> SessionState option) option" where
  "finish_states kind status = (case status of
      JobReady \<Rightarrow> Some (''ready'', Some SessionReady)
    | JobStopped \<Rightarrow> Some (''stopped'', None)
    | JobRetryable \<Rightarrow> Some (if kind = JobStop then ''stopping'' else ''starting'', None)
    | OtherJobStatus _ \<Rightarrow> None
    | _ \<Rightarrow> if kind = JobStop \<and> status = JobSkipped then Some (''ready'', None)
           else Some (''failed'', Some SessionFailed))"

definition finishStreamAndSessions ::
  "tx \<Rightarrow> nat \<Rightarrow> Job \<Rightarrow> JobResult \<Rightarrow> nat \<Rightarrow> media_db \<Rightarrow> (media_error, media_db) result" where
  "finishStreamAndSessions x n job r active db =
     take_or (finish_states (jb_Kind job) (jr_Status r)) MInvalid (\<lambda>(streamState, sessionState).
      require (\<not> tx_fails x n) MUnavailable
      (let set = (\<lambda>st db. db\<lparr>db_streams := set_stream_state (jb_StreamID job) st (db_streams db)\<rparr>);
           db = set streamState db
       in case sessionState of
            Some st \<Rightarrow>
              require (\<not> tx_fails x (n + 1)) MUnavailable
              (Inr (db\<lparr>db_sessions := end_pending (jb_StreamID job) st (sessionErrorCode (jr_ErrorCode r))
                     (db_sessions db)\<rparr>))
          | None \<Rightarrow>
              if jb_Kind job = JobStop \<and> jr_Status r = JobSkipped then
                (if active > 0 then Inr db
                 else require (\<not> tx_fails x (n + 1)) MUnavailable (Inr (set ''stopped'' db)))
              else if jr_Status r = JobStopped then
                require (\<not> tx_fails x (n + 1)) MUnavailable
                (if active > 0 then Inr (set ''ready'' db)
                 else Inr (db\<lparr>db_sessions := revoke_live (jb_StreamID job) (tx_clock x (n + 1)) (db_sessions db)\<rparr>))
              else Inr db))"

definition finish_row :: "string \<Rightarrow> time \<Rightarrow> string \<Rightarrow> job_row \<Rightarrow> job_row" where
  "finish_row status available code j = j\<lparr>jo_status := status, jo_available_at := available,
     jo_leased_until := None, jo_lease_owner := None,
     jo_payload := (if code = [] then jo_payload j
                    else map_option (\<lambda>p. p\<lparr>jp_error_code := Some code\<rparr>) (jo_payload j))\<rparr>"

definition mpg_FinishJob ::
  "media_env \<Rightarrow> tx \<Rightarrow> Lease \<Rightarrow> JobResult \<Rightarrow> time \<Rightarrow> media_db \<Rightarrow> (media_error, unit \<times> media_db) result" where
  "mpg_FinishJob e x lease r now db =
     require (mpg_validLease e lease \<and> \<not> is_zero now \<and> validJobResult r) MInvalid
     (let i = fst (ParseInt64 (jb_ID lease));
          status = jobStatus (jr_Status r);
          next' = (if is_zero (jr_NextAt r) then now else jr_NextAt r)
      in require (\<not> tx_fails x 0 \<and> \<not> tx_fails x 1) MPersistenceUnknown
      (take_or (find (leased_row i (le_LeaseToken lease) (tx_clock x 1)) (db_jobs db)) MLeaseLost (\<lambda>row.
       let tenantID = jo_tenant_id row in
       after_as MLeaseLost (decodeJob e i (jo_kind row) (jo_payload row) (jb_Attempts lease)) (\<lambda>job.
         require (\<not> (jb_Kind job \<noteq> jb_Kind lease \<or> jb_CameraID job \<noteq> jb_CameraID lease \<or>
             jb_SourceVersion job \<noteq> jb_SourceVersion lease \<or> jb_StreamID job \<noteq> jb_StreamID lease)) MLeaseLost
         (require (\<not> tx_fails x 2) MPersistenceUnknown
         (take_or (find (\<lambda>c. ca_id c = jb_CameraID job \<and> ca_tenant_id c = tenantID) (db_cameras db)) MLeaseLost (\<lambda>c.
          require (ca_source_version c = jb_SourceVersion job) MLeaseLost
          (require (\<not> tx_fails x 3) MPersistenceUnknown
          (take_or (find (\<lambda>st. st_id st = jb_StreamID job) (db_streams db)) MLeaseLost (\<lambda>st.
           require (\<not> (st_camera_id st \<noteq> jb_CameraID job \<or> st_tenant_id st \<noteq> tenantID \<or>
               st_source_version st \<noteq> jb_SourceVersion job)) MLeaseLost
           (require (\<not> tx_fails x 4) MPersistenceUnknown
           (let rows = filter (\<lambda>q. se_StreamID q = jb_StreamID job) (db_sessions db);
                live = (\<lambda>q. se_ExpiresAt q > tx_clock x 4);
                pending = length (filter (\<lambda>q. live q \<and> se_State q = SessionPending) rows);
                active = length (filter (\<lambda>q. live q \<and> live_state (se_State q)) rows)
            in require (\<not> list_ex (\<lambda>q. se_CameraID q \<noteq> jb_CameraID job \<or> se_TenantID q \<noteq> tenantID \<or>
                   se_SourceVersion q \<noteq> jb_SourceVersion job) rows) MLeaseLost
             (require (\<not> (length rows = 0 \<or> \<not> list_ex (\<lambda>q. se_ID q = jb_SessionID job) rows \<or>
                 jb_Kind job = JobStart \<and> pending = 0)) MLeaseLost
             (require (\<not> tx_fails x 5) MPersistenceUnknown
             (let db = db\<lparr>db_jobs := map (\<lambda>j. if jo_id j = i
                        then finish_row status (me_stored e next') (jr_ErrorCode r) j else j) (db_jobs db)\<rparr>
              in after_as MPersistenceUnknown (finishStreamAndSessions x 6 job r active db) (\<lambda>db.
                   require (\<not> tx_fails x 8) MPersistenceUnknown (Inr ((), db))))))))))))))))))"

end
