(* ===== verification/Media_Jobs.thy ===== *)
theory Media_Jobs
  imports Media "HOL-Library.List_Lexorder" "HOL-Library.Char_ord" "HOL-Library.Product_Lexorder"
begin

text \<open>
  \<open>internal/mediajobs\<close>: the in-memory queue of media jobs. The map of entries is an association
  list with distinct keys; each call takes the error of its context (\<open>None\<close> while it lives, a nil
  context being cancelled), the reading of the store's clock, and \<open>ClaimJob\<close> the token its random
  source gives. The store and its clock are not nil. Go compares strings bytewise, which is the
  lexicographic order on \<open>string\<close>.
\<close>

definition MaxAttempts :: int where "MaxAttempts = 6"
definition maxLease :: duration where "maxLease = 5 * minute"
definition jobs_maxWorkerID :: nat where "jobs_maxWorkerID = 128"

record EnqueueInput =
  ei_Job :: Job
  ei_AvailableAt :: time
  ei_Authorization :: JobAuthorization

record entry =
  en_job :: Job
  en_status :: string
  en_availableAt :: time
  en_leasedUntil :: time
  en_leaseOwner :: string
  en_leaseToken :: string
  en_result :: "JobResult option" \<comment> \<open>\<open>None\<close>: the zero result\<close>
  en_authorization :: JobAuthorization

record JobSnapshot =
  js_Job :: Job
  js_Status :: string
  js_AvailableAt :: time
  js_LeasedUntil :: time
  js_LeaseOwner :: string
  js_Result :: "JobResult option"
  js_Authorization :: JobAuthorization

type_synonym job_store = "(string \<times> entry) list"

definition NewMemoryStore :: job_store where
  "NewMemoryStore = []"

subsection \<open>Validation\<close>

definition jobs_validLease :: "Lease \<Rightarrow> bool" where
  "jobs_validLease l \<longleftrightarrow> jb_ID l \<noteq> [] \<and> le_LeaseToken l \<noteq> [] \<and> jb_SourceVersion l > 0 \<and>
     jb_CameraID l > 0 \<and> jb_StreamID l \<noteq> []"

definition leaseMatches :: "entry \<Rightarrow> Lease \<Rightarrow> bool" where
  "leaseMatches j l \<longleftrightarrow> en_leaseToken j = le_LeaseToken l \<and> en_leaseOwner j \<noteq> [] \<and>
     jb_ID (en_job j) = jb_ID l \<and> jb_Kind (en_job j) = jb_Kind l \<and>
     jb_CameraID (en_job j) = jb_CameraID l \<and> jb_SourceVersion (en_job j) = jb_SourceVersion l \<and>
     jb_StreamID (en_job j) = jb_StreamID l \<and> jb_SessionID (en_job j) = jb_SessionID l"

definition validResult :: "JobResult \<Rightarrow> bool" where
  "validResult r = (case jr_Status r of
      OtherJobStatus _ \<Rightarrow> False
    | status \<Rightarrow> status \<noteq> JobRetryable \<or> \<not> is_zero (jr_NextAt r))"

definition resultState :: "JobStatus \<Rightarrow> string" where
  "resultState status = (case status of
      JobRetryable \<Rightarrow> ''retryable''
    | JobFailed \<Rightarrow> ''failed''
    | JobDisabled \<Rightarrow> ''failed''
    | JobUnknown \<Rightarrow> ''unknown''
    | JobSkipped \<Rightarrow> ''cancelled''
    | _ \<Rightarrow> ''succeeded'')"

subsection \<open>The operations\<close>

definition Enqueue ::
  "media_error option \<Rightarrow> time \<Rightarrow> EnqueueInput \<Rightarrow> job_store \<Rightarrow> media_error option \<times> job_store" where
  "Enqueue ctx clock i s =
     (case ctx of Some e \<Rightarrow> (Some e, s) | None \<Rightarrow>
      let job = ei_Job i in
      if jb_ID job = [] \<or> jb_Kind job = OtherKind [] \<or> jb_CameraID job \<le> 0 \<or> jb_SourceVersion job \<le> 0 \<or>
         jb_StreamID job = [] \<or> jb_Attempts job < 0 \<or> jb_Attempts job \<ge> MaxAttempts
      then (Some JobErrInvalid, s)
      else (let available = (if is_zero (ei_AvailableAt i) then clock else ei_AvailableAt i) in
            case map_of s (jb_ID job) of
              Some _ \<Rightarrow> (Some MConflict, s)
            | None \<Rightarrow> (None, AList.update (jb_ID job)
                \<lparr>en_job = job, en_status = ''scheduled'', en_availableAt = available,
                 en_leasedUntil = time_zero, en_leaseOwner = [], en_leaseToken = [],
                 en_result = None, en_authorization = ei_Authorization i\<rparr> s)))"

definition SetAuthorization ::
  "media_error option \<Rightarrow> string \<Rightarrow> JobAuthorization \<Rightarrow> job_store \<Rightarrow> media_error option \<times> job_store" where
  "SetAuthorization ctx jid auth s =
     (case ctx of Some e \<Rightarrow> (Some e, s) | None \<Rightarrow>
      if jid = [] then (Some JobErrInvalid, s)
      else (case map_of s jid of
              None \<Rightarrow> (Some JobErrNotFound, s)
            | Some j \<Rightarrow> (None, AList.update jid (j\<lparr>en_authorization := auth\<rparr>) s)))"

text \<open>The order of the scan, its condition, and the loop over the sorted identifiers.\<close>

definition scan_key :: "job_store \<Rightarrow> string \<Rightarrow> time \<times> string" where
  "scan_key s jid = (case map_of s jid of Some j \<Rightarrow> (en_availableAt j, jid) | None \<Rightarrow> (0, jid))"

definition eligible :: "time \<Rightarrow> entry \<Rightarrow> bool" where
  "eligible now j \<longleftrightarrow>
     ((en_status j = ''scheduled'' \<or> en_status j = ''retryable'') \<and> \<not> en_availableAt j > now) \<or>
     (en_status j = ''running'' \<and> (is_zero (en_leasedUntil j) \<or> \<not> en_leasedUntil j > now))"

fun select_job :: "time \<Rightarrow> job_store \<Rightarrow> string list \<Rightarrow> string option" where
  "select_job now s [] = None"
| "select_job now s (jid # ids) =
     (case map_of s jid of
        None \<Rightarrow> select_job now s ids
      | Some j \<Rightarrow>
          if jb_Attempts (en_job j) \<ge> MaxAttempts then select_job now s ids
          else if eligible now j then Some jid
          else select_job now s ids)"

definition claimed :: "string \<Rightarrow> string \<Rightarrow> time \<Rightarrow> entry \<Rightarrow> entry" where
  "claimed workerID token until j =
     j\<lparr>en_job := (en_job j)\<lparr>jb_Attempts := jb_Attempts (en_job j) + 1\<rparr>, en_status := ''running'',
       en_leaseOwner := workerID, en_leaseToken := token, en_leasedUntil := until\<rparr>"

definition ClaimJob ::
  "media_error option \<Rightarrow> time \<Rightarrow> (media_error, string) result \<Rightarrow> time \<Rightarrow> duration \<Rightarrow> string \<Rightarrow> job_store \<Rightarrow>
   (media_error, Lease option) result \<times> job_store" where
  "ClaimJob ctx clock token now lease workerID s =
     (case ctx of Some e \<Rightarrow> (Inl e, s) | None \<Rightarrow>
      if is_zero now \<or> lease \<le> 0 \<or> lease > maxLease \<or> trimSpace workerID = [] \<or>
         length (trimSpace workerID) > jobs_maxWorkerID
      then (Inl JobErrInvalid, s)
      else if is_zero clock then (Inl JobErrInvalid, s)
      else (case select_job clock s (sort_key (scan_key s) (map fst s)) of
              None \<Rightarrow> (Inr None, s)
            | Some jid \<Rightarrow>
                (case token of
                   Inl e \<Rightarrow> (Inl e, s)
                 | Inr t \<Rightarrow>
                     (let j = claimed workerID t (clock + lease) (the (map_of s jid)) in
                      (Inr (Some (lease_of (en_job j) t (en_leasedUntil j))), AList.update jid j s)))))"

definition RevalidateJob ::
  "media_error option \<Rightarrow> time \<Rightarrow> Lease \<Rightarrow> job_store \<Rightarrow> (media_error, JobAuthorization) result" where
  "RevalidateJob ctx clock lease s =
     (case ctx of Some e \<Rightarrow> Inl e | None \<Rightarrow>
      if \<not> jobs_validLease lease then Inl MLeaseLost
      else if is_zero clock then Inl MLeaseLost
      else (case map_of s (jb_ID lease) of
              None \<Rightarrow> Inl MLeaseLost
            | Some j \<Rightarrow>
                if \<not> leaseMatches j lease \<or> en_status j \<noteq> ''running'' \<or> \<not> en_leasedUntil j > clock
                then Inl MLeaseLost
                else (let auth = en_authorization j; target = ja_Target auth in
                      Inr (auth\<lparr>ja_SourceCurrent := ja_SourceCurrent auth \<and>
                        pt_SourceVersion target = jb_SourceVersion lease \<and>
                        pt_CameraID target = jb_CameraID lease \<and>
                        (pt_StreamID target = [] \<or> pt_StreamID target = jb_StreamID lease)\<rparr>))))"

definition stale_target :: "PlaybackTarget \<Rightarrow> Lease \<Rightarrow> bool" where
  "stale_target t l \<longleftrightarrow>
     (pt_SourceVersion t \<noteq> 0 \<and> pt_SourceVersion t \<noteq> jb_SourceVersion l) \<or>
     (pt_CameraID t \<noteq> 0 \<and> pt_CameraID t \<noteq> jb_CameraID l) \<or>
     (pt_StreamID t \<noteq> [] \<and> pt_StreamID t \<noteq> jb_StreamID l)"

definition finished :: "JobResult \<Rightarrow> entry \<Rightarrow> entry" where
  "finished r j = j\<lparr>en_result := Some r, en_status := resultState (jr_Status r),
     en_availableAt := jr_NextAt r, en_leasedUntil := time_zero, en_leaseOwner := [], en_leaseToken := []\<rparr>"

definition FinishJob ::
  "media_error option \<Rightarrow> time \<Rightarrow> Lease \<Rightarrow> JobResult \<Rightarrow> time \<Rightarrow> job_store \<Rightarrow> media_error option \<times> job_store" where
  "FinishJob ctx clock lease r now s =
     (case ctx of Some e \<Rightarrow> (Some e, s) | None \<Rightarrow>
      if \<not> jobs_validLease lease \<or> is_zero now \<or> \<not> validResult r then (Some JobErrInvalid, s)
      else if is_zero clock then (Some MLeaseLost, s)
      else (case map_of s (jb_ID lease) of
              None \<Rightarrow> (Some MLeaseLost, s)
            | Some j \<Rightarrow>
                if \<not> leaseMatches j lease \<or> en_status j \<noteq> ''running'' \<or> \<not> en_leasedUntil j > now \<or>
                   \<not> en_leasedUntil j > clock
                then (Some MLeaseLost, s)
                else if jr_Status r \<noteq> JobSkipped \<and> stale_target (ja_Target (en_authorization j)) lease
                then (Some MLeaseLost, s)
                else (None, AList.update (jb_ID lease) (finished r j) s)))"

definition job_Snapshot ::
  "media_error option \<Rightarrow> string \<Rightarrow> job_store \<Rightarrow> (media_error, JobSnapshot option) result" where
  "job_Snapshot ctx jid s =
     (case ctx of Some e \<Rightarrow> Inl e | None \<Rightarrow>
      Inr (map_option (\<lambda>j. \<lparr>js_Job = en_job j, js_Status = en_status j, js_AvailableAt = en_availableAt j,
        js_LeasedUntil = en_leasedUntil j, js_LeaseOwner = en_leaseOwner j, js_Result = en_result j,
        js_Authorization = en_authorization j\<rparr>) (map_of s jid)))"

subsection \<open>Runs\<close>

datatype job_call =
    JcEnqueue "media_error option" time EnqueueInput
  | JcAuthorize "media_error option" string JobAuthorization
  | JcClaim "media_error option" time "(media_error, string) result" time duration string
  | JcFinish "media_error option" time Lease JobResult time

datatype job_event =
    JeOther "media_error option"
  | JeClaimed "(media_error, Lease option) result"
  | JeFinished Lease "media_error option"

fun job_step :: "job_store \<Rightarrow> job_call \<Rightarrow> job_event \<times> job_store" where
  "job_step s (JcEnqueue c t i) = map_prod JeOther id (Enqueue c t i s)"
| "job_step s (JcAuthorize c i a) = map_prod JeOther id (SetAuthorization c i a s)"
| "job_step s (JcClaim c t k n d w) = map_prod JeClaimed id (ClaimJob c t k n d w s)"
| "job_step s (JcFinish c t l r n) = map_prod (JeFinished l) id (FinishJob c t l r n s)"

fun job_run :: "job_store \<Rightarrow> job_call list \<Rightarrow> job_event list \<times> job_store" where
  "job_run s [] = ([], s)"
| "job_run s (c # cs) = (let (e, s') = job_step s c; (es, s'') = job_run s' cs in (e # es, s''))"

subsection \<open>Which job is claimed\<close>

definition claimable :: "time \<Rightarrow> entry \<Rightarrow> bool" where
  "claimable now j \<longleftrightarrow> jb_Attempts (en_job j) < MaxAttempts \<and> eligible now j"

lemma select_job_find:
  "select_job now s ids = find (\<lambda>i. \<exists>j. map_of s i = Some j \<and> claimable now j) ids"
  by (induction ids) (auto simp: claimable_def split: option.split)

lemma find_sort_first:
  assumes "find P (sort_key f l) = Some x"
  shows "x \<in> set l \<and> P x \<and> (\<forall>y \<in> set l. P y \<longrightarrow> f x \<le> f y)"
proof -
  from assms obtain i where i: "i < length l" "P (sort_key f l ! i)" "x = sort_key f l ! i"
      "\<forall>j < i. \<not> P (sort_key f l ! j)"
    by (auto simp: find_Some_iff)
  have "f x \<le> f y" if y: "y \<in> set l" "P y" for y
  proof -
    from y(1) obtain j where j: "j < length l" "sort_key f l ! j = y"
      by (metis in_set_conv_nth length_sort set_sort)
    with i y(2) have "i \<le> j" by (meson not_le)
    moreover have "sorted (map f (sort_key f l))" by simp
    ultimately show ?thesis using sorted_nth_mono[of "map f (sort_key f l)" i j] i(1,3) j by simp
  qed
  moreover have "x \<in> set l" using i(1,3) by (metis length_sort nth_mem set_sort)
  ultimately show ?thesis using i by simp
qed

text \<open>The identifier of the job \<open>ClaimJob\<close> takes at \<open>clock\<close>.\<close>

definition first_due :: "time \<Rightarrow> job_store \<Rightarrow> string \<Rightarrow> entry \<Rightarrow> bool" where
  "first_due clock s i j \<longleftrightarrow> map_of s i = Some j \<and> claimable clock j \<and>
     (\<forall>i' j'. map_of s i' = Some j' \<longrightarrow> claimable clock j' \<longrightarrow>
        en_availableAt j < en_availableAt j' \<or> en_availableAt j = en_availableAt j' \<and> i \<le> i')"

lemma select_job_due:
  "case select_job clock s (sort_key (scan_key s) (map fst s)) of
     Some i \<Rightarrow> \<exists>j. first_due clock s i j
   | None \<Rightarrow> \<forall>i j. map_of s i = Some j \<longrightarrow> \<not> claimable clock j"
proof (cases "select_job clock s (sort_key (scan_key s) (map fst s))")
  case None
  have "\<not> claimable clock j" if m: "map_of s i = Some j" for i j
  proof -
    from m have "i \<in> set (map fst s)" by (metis map_of_Some_keys keys_def list.set_map)
    with None m show ?thesis by (auto simp: select_job_find find_None_iff)
  qed
  with None show ?thesis by simp
next
  case (Some i)
  from find_sort_first[OF Some[unfolded select_job_find]]
  obtain j where j: "map_of s i = Some j" "claimable clock j"
    and least: "\<forall>y \<in> set (map fst s). (\<exists>j. map_of s y = Some j \<and> claimable clock j) \<longrightarrow> scan_key s i \<le> scan_key s y"
    by blast
  have "en_availableAt j < en_availableAt j' \<or> en_availableAt j = en_availableAt j' \<and> i \<le> i'"
    if m: "map_of s i' = Some j'" "claimable clock j'" for i' j'
  proof -
    from m have "i' \<in> set (map fst s)" by (metis map_of_Some_keys keys_def list.set_map)
    with least m have "scan_key s i \<le> scan_key s i'" by blast
    with j(1) m(1) show ?thesis by (simp add: scan_key_def less_eq_prod_def) auto
  qed
  with j have "first_due clock s i j" unfolding first_due_def by blast
  with Some show ?thesis by auto
qed

lemma ClaimJob_cases:
  obtains (fail) e where "ClaimJob ctx clock token now lease w s = (Inl e, s)"
  | (none) "ClaimJob ctx clock token now lease w s = (Inr None, s)"
      "\<forall>i j. map_of s i = Some j \<longrightarrow> \<not> claimable clock j"
  | (some) i j t where "first_due clock s i j" "token = Inr t" "0 < lease" "lease \<le> maxLease"
      "trimSpace w \<noteq> []" "clock \<noteq> 0"
      "ClaimJob ctx clock token now lease w s =
         (Inr (Some (lease_of (en_job (claimed w t (clock + lease) j)) t (clock + lease))),
          AList.update i (claimed w t (clock + lease) j) s)"
proof (cases "ctx = None \<and> \<not> (is_zero now \<or> lease \<le> 0 \<or> lease > maxLease \<or> trimSpace w = [] \<or>
         length (trimSpace w) > jobs_maxWorkerID) \<and> \<not> is_zero clock")
  case False
  then have "\<exists>e. ClaimJob ctx clock token now lease w s = (Inl e, s)"
    unfolding ClaimJob_def by (cases ctx) auto
  with fail show ?thesis by blast
next
  case True
  then have body: "ClaimJob ctx clock token now lease w s =
      (case select_job clock s (sort_key (scan_key s) (map fst s)) of
              None \<Rightarrow> (Inr None, s)
            | Some jid \<Rightarrow>
                (case token of
                   Inl e \<Rightarrow> (Inl e, s)
                 | Inr t \<Rightarrow>
                     (let j = claimed w t (clock + lease) (the (map_of s jid)) in
                      (Inr (Some (lease_of (en_job j) t (en_leasedUntil j))), AList.update jid j s))))"
    by (simp add: ClaimJob_def)
  note due = select_job_due[where clock = clock and s = s]
  show ?thesis
  proof (cases "select_job clock s (sort_key (scan_key s) (map fst s))")
    case None
    with body due show ?thesis by (intro none) simp_all
  next
    case (Some i)
    with due obtain j where j: "first_due clock s i j" by auto
    show ?thesis
    proof (cases token)
      case (Inl e)
      with body Some show ?thesis by (intro fail) simp
    next
      case (Inr t)
      with body Some j True show ?thesis
        by (intro some[OF j Inr]) (simp_all add: first_due_def Let_def is_zero_iff claimed_def)
    qed
  qed
qed

lemma FinishJob_cases:
  obtains (fail) e where "FinishJob ctx clock l r now s = (Some e, s)"
  | (ok) j where "map_of s (jb_ID l) = Some j" "leaseMatches j l" "jobs_validLease l"
      "en_status j = ''running''" "now < en_leasedUntil j" "clock < en_leasedUntil j" "validResult r"
      "jr_Status r = JobSkipped \<or> \<not> stale_target (ja_Target (en_authorization j)) l"
      "FinishJob ctx clock l r now s = (None, AList.update (jb_ID l) (finished r j) s)"
proof (cases "fst (FinishJob ctx clock l r now s)")
  case None
  then have "\<exists>j. map_of s (jb_ID l) = Some j \<and> leaseMatches j l \<and> jobs_validLease l \<and>
      en_status j = ''running'' \<and> now < en_leasedUntil j \<and> clock < en_leasedUntil j \<and> validResult r \<and>
      (jr_Status r = JobSkipped \<or> \<not> stale_target (ja_Target (en_authorization j)) l) \<and>
      FinishJob ctx clock l r now s = (None, AList.update (jb_ID l) (finished r j) s)"
    by (auto simp: FinishJob_def split: option.split_asm if_split_asm)
  with ok show ?thesis by blast
next
  case (Some e)
  then have "FinishJob ctx clock l r now s = (Some e, s)"
    by (auto simp: FinishJob_def split: option.split_asm if_split_asm)
  with fail show ?thesis by blast
qed

subsection \<open>Invariant of the runs\<close>

text \<open>
  The queue stays well formed, a job is running exactly while it has a lease, and no job has been
  claimed more than \<open>MaxAttempts\<close> times. \<open>granted es i\<close> counts the leases the calls returned for job
  \<open>i\<close>, \<open>granted_token es t\<close> those with token \<open>t\<close>, \<open>finishes es t\<close> the successful \<open>FinishJob\<close> calls
  with a lease of token \<open>t\<close>.
\<close>

definition entry_ok :: "string \<Rightarrow> entry \<Rightarrow> bool" where
  "entry_ok i j \<longleftrightarrow> jb_ID (en_job j) = i \<and> 0 \<le> jb_Attempts (en_job j) \<and> jb_Attempts (en_job j) \<le> MaxAttempts \<and>
     (en_status j \<noteq> ''running'' \<longrightarrow> en_leaseToken j = [])"

definition jobs_ok :: "job_store \<Rightarrow> bool" where
  "jobs_ok s \<longleftrightarrow> wf_map s \<and> (\<forall>i j. map_of s i = Some j \<longrightarrow> entry_ok i j)"

fun grants :: "job_event \<Rightarrow> Lease option" where
  "grants (JeClaimed (Inr l)) = l"
| "grants _ = None"

definition granted :: "job_event list \<Rightarrow> string \<Rightarrow> nat" where
  "granted es i = length (filter (\<lambda>e. \<exists>l. grants e = Some l \<and> jb_ID l = i) es)"

definition granted_token :: "job_event list \<Rightarrow> string \<Rightarrow> nat" where
  "granted_token es t = length (filter (\<lambda>e. \<exists>l. grants e = Some l \<and> le_LeaseToken l = t) es)"

definition finishes :: "job_event list \<Rightarrow> string \<Rightarrow> nat" where
  "finishes es t = length (filter (\<lambda>e. \<exists>l. e = JeFinished l None \<and> le_LeaseToken l = t) es)"

text \<open>Whether some job is held under a token.\<close>

definition held_with :: "job_store \<Rightarrow> string \<Rightarrow> string set" where
  "held_with s t = {i. \<exists>j. map_of s i = Some j \<and> en_status j = ''running'' \<and> en_leaseToken j = t}"

definition attempts_of :: "job_store \<Rightarrow> string \<Rightarrow> int" where
  "attempts_of s i = (case map_of s i of Some j \<Rightarrow> jb_Attempts (en_job j) | None \<Rightarrow> 0)"

lemma resultState_not_running: "resultState st \<noteq> ''running''"
  by (simp add: resultState_def split: JobStatus.split)

lemma jobs_ok_update:
  "jobs_ok s \<Longrightarrow> entry_ok i j \<Longrightarrow> jobs_ok (AList.update i j s)"
  by (auto simp: jobs_ok_def)

lemma jobs_okD: "jobs_ok s \<Longrightarrow> map_of s i = Some j \<Longrightarrow> entry_ok i j"
  by (simp add: jobs_ok_def)

lemma held_with_update:
  "held_with (AList.update i j s) t =
     (if en_status j = ''running'' \<and> en_leaseToken j = t then insert i (held_with s t) else held_with s t - {i})"
  by (auto simp: held_with_def)

lemma held_with_fresh: "map_of s i = None \<Longrightarrow> i \<notin> held_with s t"
  by (simp add: held_with_def)

lemma finite_held: "finite (held_with s t)"
proof (rule finite_subset)
  show "held_with s t \<subseteq> dom (map_of s)" by (auto simp: held_with_def)
qed (rule finite_dom_map_of)

lemma attempts_update: "attempts_of (AList.update i j s) k = (if k = i then jb_Attempts (en_job j) else attempts_of s k)"
  by (simp add: attempts_of_def)

lemma job_step_shape:
  assumes "jobs_ok s" and "job_step s c = (e, s')"
  obtains (same) "s' = s" "grants e = None" "\<forall>l. e \<noteq> JeFinished l None"
  | (quiet) i j where "s' = AList.update i j s" "entry_ok i j" "grants e = None" "\<forall>l. e \<noteq> JeFinished l None"
      "\<forall>t. held_with s' t = held_with s t" "attempts_of s i \<le> jb_Attempts (en_job j)"
  | (claim) i j t w u clock where "first_due clock s i j" "s' = AList.update i (claimed w t u j) s"
      "e = JeClaimed (Inr (Some (lease_of (en_job (claimed w t u j)) t u)))"
  | (finish) l j r where "map_of s (jb_ID l) = Some j" "leaseMatches j l" "en_status j = ''running''"
      "e = JeFinished l None" "s' = AList.update (jb_ID l) (finished r j) s"
proof (cases c)
  case (JcEnqueue ctx t i)
  show ?thesis
  proof (cases "fst (Enqueue ctx t i s)")
    case (Some x)
    then have "Enqueue ctx t i s = (Some x, s)"
      by (auto simp: Enqueue_def Let_def split: option.split_asm if_split_asm)
    with JcEnqueue assms(2) show ?thesis by (intro same) auto
  next
    case None
    then have i: "map_of s (jb_ID (ei_Job i)) = None" "0 \<le> jb_Attempts (ei_Job i)" "jb_Attempts (ei_Job i) < MaxAttempts"
      "Enqueue ctx t i s = (None, AList.update (jb_ID (ei_Job i))
                \<lparr>en_job = ei_Job i, en_status = ''scheduled'',
                 en_availableAt = (if is_zero (ei_AvailableAt i) then t else ei_AvailableAt i),
                 en_leasedUntil = time_zero, en_leaseOwner = [], en_leaseToken = [],
                 en_result = None, en_authorization = ei_Authorization i\<rparr> s)"
      by (simp_all add: Enqueue_def Let_def split: option.split_asm if_split_asm)
    show ?thesis
      by (rule quiet)
        (use i JcEnqueue assms(2) in \<open>auto simp: entry_ok_def held_with_update held_with_fresh attempts_of_def\<close>)
  qed
next
  case (JcAuthorize ctx i a)
  show ?thesis
  proof (cases "fst (SetAuthorization ctx i a s)")
    case (Some x)
    then have "SetAuthorization ctx i a s = (Some x, s)"
      by (auto simp: SetAuthorization_def split: option.split_asm if_split_asm)
    with JcAuthorize assms(2) show ?thesis by (intro same) auto
  next
    case None
    then obtain j where j: "map_of s i = Some j"
      "SetAuthorization ctx i a s = (None, AList.update i (j\<lparr>en_authorization := a\<rparr>) s)"
      by (auto simp: SetAuthorization_def split: option.split_asm if_split_asm)
    have h: "held_with (AList.update i (j\<lparr>en_authorization := a\<rparr>) s) t = held_with s t" for t
      using j(1) by (auto simp: held_with_def)
    have es: "e = JeOther None" "s' = AList.update i (j\<lparr>en_authorization := a\<rparr>) s"
      using j(2) JcAuthorize assms(2) by simp_all
    show ?thesis
      by (rule quiet[of i "j\<lparr>en_authorization := a\<rparr>"])
        (use j(1) jobs_okD[OF assms(1) j(1)] in \<open>simp_all add: es entry_ok_def h attempts_of_def\<close>)
  qed
next
  case (JcClaim ctx clock token now lease w)
  show ?thesis
  proof (cases rule: ClaimJob_cases[of ctx clock token now lease w s])
    case (some i j t)
    with JcClaim assms(2) show ?thesis by (intro claim) auto
  qed (use JcClaim assms(2) in \<open>auto intro!: same\<close>)
next
  case (JcFinish ctx clock l r now)
  show ?thesis
  proof (cases rule: FinishJob_cases[of ctx clock l r now s])
    case (ok j)
    with JcFinish assms(2) show ?thesis by (intro finish) auto
  qed (use JcFinish assms(2) in \<open>auto intro!: same\<close>)
qed

lemma counts_Cons:
  "granted (e # es) i = granted [e] i + granted es i"
  "granted_token (e # es) t = granted_token [e] t + granted_token es t"
  "finishes (e # es) t = finishes [e] t + finishes es t"
  by (simp_all add: granted_def granted_token_def finishes_def)

lemma counts_none:
  "grants e = None \<Longrightarrow> granted [e] i = 0"
  "grants e = None \<Longrightarrow> granted_token [e] t = 0"
  "\<forall>l. e \<noteq> JeFinished l None \<Longrightarrow> finishes [e] t = 0"
  by (simp_all add: granted_def granted_token_def finishes_def)

lemma job_step_count:
  assumes ok: "jobs_ok s" and step: "job_step s c = (e, s')"
  shows "jobs_ok s' \<and> attempts_of s i + int (granted [e] i) \<le> attempts_of s' i \<and>
    finishes [e] t + card (held_with s' t) \<le> granted_token [e] t + card (held_with s t)"
  using assms
proof (cases rule: job_step_shape)
  case same
  with ok show ?thesis by (simp add: counts_none)
next
  case (quiet k j)
  with ok show ?thesis by (simp add: counts_none jobs_ok_update attempts_update)
next
  case (claim k j tok w u clock)
  have k: "map_of s k = Some j" "jb_Attempts (en_job j) < MaxAttempts"
    using claim(1) by (simp_all add: first_due_def claimable_def)
  have e: "entry_ok k (claimed w tok u j)"
    using jobs_okD[OF ok k(1)] k(2) by (simp add: entry_ok_def claimed_def)
  have id: "jb_ID (en_job j) = k" using jobs_okD[OF ok k(1)] by (simp add: entry_ok_def)
  have g: "granted [e] i = (if i = k then 1 else 0)" "granted_token [e] t = (if tok = t then 1 else 0)"
    "finishes [e] t = 0"
    using claim(3) id by (auto simp: granted_def granted_token_def finishes_def claimed_def)
  have "attempts_of s i + int (granted [e] i) \<le> attempts_of s' i"
    using k g(1) claim(2) by (auto simp: attempts_update attempts_of_def claimed_def)
  moreover have "card (held_with s' t) \<le> granted_token [e] t + card (held_with s t)"
  proof (cases "tok = t")
    case True
    then have "held_with s' t = insert k (held_with s t)"
      using claim(2) by (simp add: held_with_update claimed_def)
    with True g(2) show ?thesis by (simp add: card_insert_le_m1 finite_held card_insert_if)
  next
    case False
    then have "held_with s' t = held_with s t - {k}"
      using claim(2) by (simp add: held_with_update claimed_def)
    then show ?thesis by (simp add: card_Diff1_le finite_held trans_le_add2)
  qed
  ultimately show ?thesis using e ok g(3) claim(2) by (simp add: jobs_ok_update)
next
  case (finish l j r)
  have id: "jb_ID (en_job j) = jb_ID l" using jobs_okD[OF ok finish(1)] by (simp add: entry_ok_def)
  have e: "entry_ok (jb_ID l) (finished r j)"
    using jobs_okD[OF ok finish(1)] by (simp add: entry_ok_def finished_def resultState_not_running)
  have g: "granted [e] i = 0" "granted_token [e] t = 0" "finishes [e] t = (if le_LeaseToken l = t then 1 else 0)"
    using finish(4) by (simp_all add: granted_def granted_token_def finishes_def)
  have held: "held_with s' t = held_with s t - {jb_ID l}"
    using finish(5) by (simp add: held_with_update finished_def resultState_not_running)
  have "finishes [e] t + card (held_with s' t) \<le> card (held_with s t)"
  proof (cases "le_LeaseToken l = t")
    case True
    with finish have "jb_ID l \<in> held_with s t" by (auto simp: held_with_def leaseMatches_def)
    then have "card (held_with s t) = Suc (card (held_with s t - {jb_ID l}))"
      by (rule card.remove[OF finite_held])
    with True held g(3) show ?thesis by simp
  next
    case False
    with held g(3) show ?thesis by (simp add: card_Diff1_le finite_held)
  qed
  moreover have "attempts_of s' i = attempts_of s i"
    using finish(1,5) by (simp add: attempts_update attempts_of_def finished_def)
  ultimately show ?thesis using e ok g finish(5) by (simp add: jobs_ok_update)
qed

lemma job_run_count:
  "jobs_ok s \<Longrightarrow> job_run s cs = (es, s') \<Longrightarrow>
   jobs_ok s' \<and> attempts_of s i + int (granted es i) \<le> attempts_of s' i \<and>
   finishes es t + card (held_with s' t) \<le> granted_token es t + card (held_with s t)"
proof (induction cs arbitrary: s es)
  case Nil
  then show ?case by (simp add: granted_def granted_token_def finishes_def)
next
  case (Cons c cs)
  from Cons.prems(2) obtain e s1 es' where
    *: "job_step s c = (e, s1)" "job_run s1 cs = (es', s')" "es = e # es'"
    by (auto split: prod.splits)
  from job_step_count[OF Cons.prems(1) *(1), of i t] have 1: "jobs_ok s1"
    "attempts_of s i + int (granted [e] i) \<le> attempts_of s1 i"
    "finishes [e] t + card (held_with s1 t) \<le> granted_token [e] t + card (held_with s t)" by simp_all
  from Cons.IH[OF 1(1) *(2)] 1 show ?case
    unfolding *(3) counts_Cons(1)[of e es'] counts_Cons(2)[of e es'] counts_Cons(3)[of e es'] by simp
qed

lemma jobs_ok_new [simp]: "jobs_ok NewMemoryStore" "held_with NewMemoryStore t = {}" "attempts_of NewMemoryStore i = 0"
  by (simp_all add: jobs_ok_def NewMemoryStore_def held_with_def attempts_of_def)

lemma attempts_le: "jobs_ok s \<Longrightarrow> attempts_of s i \<le> MaxAttempts"
  by (auto simp: attempts_of_def entry_ok_def MaxAttempts_def dest: jobs_okD split: option.split)

subsection \<open>The last attempt\<close>

definition abandoned :: "time \<Rightarrow> string \<Rightarrow> entry \<Rightarrow> job_store \<Rightarrow> bool" where
  "abandoned clock0 i j s \<longleftrightarrow> (\<exists>j'. map_of s i = Some j' \<and> en_status j' = ''running'' \<and>
     en_job j' = en_job j \<and> en_leasedUntil j' = en_leasedUntil j \<and> en_result j' = en_result j) \<and>
     MaxAttempts \<le> jb_Attempts (en_job j) \<and> en_leasedUntil j \<le> clock0"

fun finish_after :: "time \<Rightarrow> job_call \<Rightarrow> bool" where
  "finish_after t (JcFinish _ clock _ _ _) = (t \<le> clock)"
| "finish_after t _ = True"

lemma abandoned_step:
  assumes "abandoned t i j s" and "finish_after t c" and "job_step s c = (e, s')"
  shows "abandoned t i j s' \<and> (jobs_ok s \<longrightarrow> granted [e] i = 0)"
proof -
  from assms(1) obtain j' where j': "map_of s i = Some j'" "en_status j' = ''running''" "en_job j' = en_job j"
    "en_leasedUntil j' = en_leasedUntil j" "en_result j' = en_result j" and old: "MaxAttempts \<le> jb_Attempts (en_job j)"
    "en_leasedUntil j \<le> t"
    by (auto simp: abandoned_def)
  have keep: "abandoned t i j (AList.update k x s)" if "k \<noteq> i" for k x
    using assms(1) that by (simp add: abandoned_def)
  show ?thesis
  proof (cases c)
    case (JcEnqueue ctx clock inp)
    with assms(1,3) j'(1) keep[of "jb_ID (ei_Job inp)"] show ?thesis
      by (cases "jb_ID (ei_Job inp) = i")
        (auto simp: Enqueue_def Let_def granted_def split: option.splits if_splits)
  next
    case (JcAuthorize ctx k a)
    have "abandoned t i j (AList.update i (j'\<lparr>en_authorization := a\<rparr>) s)"
      using j' old by (simp add: abandoned_def)
    with JcAuthorize assms(1,3) j'(1) keep[of k] show ?thesis
      by (cases "k = i") (auto simp: SetAuthorization_def granted_def split: option.splits if_splits)
  next
    case (JcClaim ctx clock token now lease w)
    show ?thesis
    proof (cases rule: ClaimJob_cases[of ctx clock token now lease w s])
      case (some k x tok)
      have "k \<noteq> i" using some(1) j'(1,3) old(1) by (auto simp: first_due_def claimable_def)
      moreover have "jobs_ok s \<Longrightarrow> jb_ID (en_job x) = k"
        using some(1) by (auto simp: first_due_def entry_ok_def dest: jobs_okD)
      ultimately show ?thesis
        using JcClaim assms(3) some(7) keep[of k] by (auto simp: granted_def claimed_def)
    qed (use JcClaim assms(1,3) in \<open>auto simp: granted_def\<close>)
  next
    case (JcFinish ctx clock l r now)
    show ?thesis
    proof (cases rule: FinishJob_cases[of ctx clock l r now s])
      case (ok x)
      have "jb_ID l \<noteq> i" using ok(1,6) j'(1,4) old(2) assms(2) JcFinish by auto
      with JcFinish assms(3) ok(9) keep[of "jb_ID l"] show ?thesis by (auto simp: granted_def)
    qed (use JcFinish assms(1,3) in \<open>auto simp: granted_def\<close>)
  qed
qed

lemma abandoned_run:
  "jobs_ok s \<Longrightarrow> abandoned t i j s \<Longrightarrow> list_all (finish_after t) cs \<Longrightarrow> job_run s cs = (es, s') \<Longrightarrow>
   abandoned t i j s' \<and> granted es i = 0"
proof (induction cs arbitrary: s es)
  case Nil
  then show ?case by (simp add: granted_def)
next
  case (Cons c cs)
  from Cons.prems(4) obtain e s1 es' where
    *: "job_step s c = (e, s1)" "job_run s1 cs = (es', s')" "es = e # es'"
    by (auto split: prod.splits)
  from job_step_count[OF Cons.prems(1) *(1)] have "jobs_ok s1" by simp
  with Cons * abandoned_step[OF Cons.prems(2) _ *(1)] show ?case
    by (simp add: counts_Cons(1)[of e es'])
qed

subsection \<open>Properties\<close>

text \<open>\<open>ClaimJob\<close> either takes nothing and changes nothing - because the call was refused or no
job is due - or leases the due job with the least availability instant, then the least
identifier: the lease is that job with one attempt more, runs for the time asked for from the
store's own clock (not the caller's), and replaces exactly that entry.\<close>

theorem claim_takes_first_due:
  assumes "ClaimJob ctx clock token now lease w s = (res, s')"
  shows "case res of
      Inl e \<Rightarrow> s' = s
    | Inr None \<Rightarrow> s' = s \<and> (\<forall>i j. map_of s i = Some j \<longrightarrow> \<not> claimable clock j)
    | Inr (Some l) \<Rightarrow> \<exists>i j. first_due clock s i j \<and> token = Inr (le_LeaseToken l) \<and>
        lease_job l = (en_job j)\<lparr>jb_Attempts := jb_Attempts (en_job j) + 1\<rparr> \<and>
        jb_Attempts l \<le> MaxAttempts \<and> le_LeasedUntil l = clock + lease \<and> lease \<le> 5 * minute \<and>
        s' = AList.update i (claimed w (le_LeaseToken l) (clock + lease) j) s"
proof (cases rule: ClaimJob_cases[of ctx clock token now lease w s])
  case (some i j t)
  then have r: "res = Inr (Some (lease_of (en_job (claimed w t (clock + lease) j)) t (clock + lease)))"
    "s' = AList.update i (claimed w t (clock + lease) j) s" using assms by simp_all
  have "jb_Attempts (en_job j) < MaxAttempts" using some(1) by (simp add: first_due_def claimable_def)
  with some(1,2,4) show ?thesis unfolding r by (auto simp: claimed_def maxLease_def)
qed (use assms in auto)

text \<open>C11: over any run of the queue a job is leased at most six times, and - the tokens of its
random source being distinct - \<open>FinishJob\<close> succeeds at most once for a lease: a worker whose lease
was given on to another, or that finishes twice, is refused.\<close>

theorem lease_finished_at_most_once:
  assumes "job_run NewMemoryStore cs = (es, s)"
  shows "granted es i \<le> 6 \<and> (granted_token es t \<le> 1 \<longrightarrow> finishes es t \<le> 1) \<and>
    (\<forall>j. map_of s i = Some j \<longrightarrow> en_status j = ''running'' \<longrightarrow> en_leaseToken j = t \<longrightarrow>
       granted_token es t \<le> 1 \<longrightarrow> finishes es t = 0)"
proof -
  note c = job_run_count[OF jobs_ok_new(1) assms, of i t]
  have "int (granted es i) \<le> 6" using c attempts_le[of s i] by (simp add: MaxAttempts_def)
  moreover have "finishes es t = 0"
    if "map_of s i = Some j" "en_status j = ''running''" "en_leaseToken j = t" "granted_token es t \<le> 1" for j
  proof -
    from that have "i \<in> held_with s t" by (simp add: held_with_def)
    then have "card (held_with s t) \<noteq> 0" by (auto simp: finite_held)
    with c that(4) show ?thesis by simp
  qed
  ultimately show ?thesis using c by auto
qed

text \<open>C12: a job whose sixth lease runs out without being finished stays \<open>running\<close> for ever: no later
call, whatever its arguments, claims, finishes or removes it.\<close>

theorem abandoned_job_stuck:
  assumes "jobs_ok s" and "map_of s i = Some j" and "en_status j = ''running''"
    and "jb_Attempts (en_job j) = 6" and "en_leasedUntil j \<le> t"
    and "list_all (finish_after t) cs" and "job_run s cs = (es, s')"
  shows "granted es i = 0 \<and>
    (\<exists>j'. map_of s' i = Some j' \<and> en_status j' = ''running'' \<and> en_job j' = en_job j \<and>
       en_leasedUntil j' = en_leasedUntil j \<and> en_result j' = en_result j)"
proof -
  have "abandoned t i j s" using assms(2-5) by (simp add: abandoned_def MaxAttempts_def)
  from abandoned_run[OF assms(1) this assms(6,7)] show ?thesis by (simp add: abandoned_def)
qed

subsection \<open>Examples\<close>

definition ex_target :: PlaybackTarget where
  "ex_target = \<lparr>pt_TenantID = 2, pt_CameraID = 9, pt_SourceVersion = 7, pt_StreamID = ''s'', pt_UserID = 3,
     pt_UserTokenVersion = 1, pt_TenantPermissionVersion = 1, pt_MemberPermissionVersion = 1,
     pt_License = \<lparr>ls_DeploymentID = ''d'', ls_Payload = ''p'', ls_Signature = ''g'', ls_SHA256 = [],
       ls_MaxSeenAt = 0, ls_ClockError = False, ls_Now = 100\<rparr>\<rparr>"

definition ex_auth :: JobAuthorization where
  "ex_auth = \<lparr>ja_Target = ex_target, ja_Active = True, ja_SourceCurrent = True, ja_StopSuperseded = False\<rparr>"

definition ex_job :: "string \<Rightarrow> int \<Rightarrow> Job" where
  "ex_job i n = \<lparr>jb_ID = i, jb_Kind = JobStart, jb_CameraID = 9, jb_SourceVersion = 7, jb_StreamID = ''s'',
     jb_SessionID = ''x'', jb_Attempts = n\<rparr>"

definition ex_entry :: "string \<Rightarrow> time \<Rightarrow> entry" where
  "ex_entry i available = \<lparr>en_job = ex_job i 0, en_status = ''scheduled'', en_availableAt = available,
     en_leasedUntil = 0, en_leaseOwner = [], en_leaseToken = [], en_result = None, en_authorization = ex_auth\<rparr>"

definition ex_jobs :: job_store where
  "ex_jobs = [(''a'', ex_entry ''a'' 90), (''b'', ex_entry ''b'' 80), (''c'', ex_entry ''c'' 200)]"

lemma ex_claim:
  "ClaimJob None 100 (Inr ''t'') 1 10 ''w'' ex_jobs =
     (Inr (Some (lease_of (ex_job ''b'' 1) ''t'' 110)),
      AList.update ''b'' (claimed ''w'' ''t'' 110 (ex_entry ''b'' 80)) ex_jobs)"
proof -
  have a: "trimSpace ''w'' = ''w''" by code_simp
  have b: "sort_key (scan_key ex_jobs) (map fst ex_jobs) = [''b'',''a'',''c'']"
    by (simp add: scan_key_def ex_jobs_def ex_entry_def)
  have c: "select_job 100 ex_jobs [''b'',''a'',''c''] = Some ''b''"
    by (simp add: ex_jobs_def ex_entry_def ex_job_def) (simp add: eligible_def MaxAttempts_def)
  show ?thesis
    by (simp del: select_job.simps add: ClaimJob_def a b c is_zero_iff maxLease_def duration_defs jobs_maxWorkerID_def Let_def)
     (simp add: ex_jobs_def claimed_def ex_job_def ex_entry_def)
qed

theorem claim_takes_first_due_witness:
  "first_due 100 ex_jobs ''b'' (ex_entry ''b'' 80)"
proof -
  from claim_takes_first_due[OF ex_claim] obtain i j where
    d: "first_due 100 ex_jobs i j" "ex_job ''b'' 1 = (en_job j)\<lparr>jb_Attempts := jb_Attempts (en_job j) + 1\<rparr>"
    by auto
  from arg_cong[OF d(2), of jb_ID] have "jb_ID (en_job j) = ''b''" by (simp add: ex_job_def)
  with d(1) show ?thesis by (auto simp: first_due_def ex_jobs_def ex_entry_def ex_job_def split: if_splits)
qed

definition ex_held :: job_store where
  "ex_held = [(''a'', claimed ''w'' ''t'' 110 (ex_entry ''a'' 60))]"

definition ex_done :: JobResult where
  "ex_done = \<lparr>jr_Status = JobReady, jr_ErrorCode = [], jr_NextAt = 105\<rparr>"

definition ex_calls :: "job_call list" where
  "ex_calls = [JcEnqueue None 50 \<lparr>ei_Job = ex_job ''a'' 0, ei_AvailableAt = 60, ei_Authorization = ex_auth\<rparr>,
     JcClaim None 100 (Inr ''t'') 1 10 ''w'',
     JcFinish None 105 (lease_of (ex_job ''a'' 1) ''t'' 110) ex_done 105,
     JcFinish None 106 (lease_of (ex_job ''a'' 1) ''t'' 110) ex_done 106]"

lemma ex_calls_run:
  "fst (job_run NewMemoryStore ex_calls) =
     [JeOther None, JeClaimed (Inr (Some (lease_of (ex_job ''a'' 1) ''t'' 110))),
      JeFinished (lease_of (ex_job ''a'' 1) ''t'' 110) None,
      JeFinished (lease_of (ex_job ''a'' 1) ''t'' 110) (Some MLeaseLost)]"
proof -
  have w: "trimSpace ''w'' = ''w''" by code_simp
  have 1: "Enqueue None 50 \<lparr>ei_Job = ex_job ''a'' 0, ei_AvailableAt = 60, ei_Authorization = ex_auth\<rparr> [] =
      (None, [(''a'', ex_entry ''a'' 60)])"
    by (simp add: Enqueue_def ex_job_def ex_entry_def MaxAttempts_def is_zero_iff time_zero_def)
  have 2: "ClaimJob None 100 (Inr ''t'') 1 10 ''w'' [(''a'', ex_entry ''a'' 60)] =
      (Inr (Some (lease_of (ex_job ''a'' 1) ''t'' 110)), ex_held)"
    by (simp add: ClaimJob_def w is_zero_iff maxLease_def duration_defs jobs_maxWorkerID_def Let_def ex_entry_def
        ex_held_def ex_job_def eligible_def MaxAttempts_def claimed_def)
  have 3: "FinishJob None 105 (lease_of (ex_job ''a'' 1) ''t'' 110) ex_done 105 ex_held =
      (None, [(''a'', finished ex_done (claimed ''w'' ''t'' 110 (ex_entry ''a'' 60)))])"
    by (simp add: FinishJob_def jobs_validLease_def ex_held_def is_zero_iff validResult_def ex_done_def
        leaseMatches_def stale_target_def ex_entry_def ex_auth_def ex_target_def ex_job_def claimed_def)
  have 4: "FinishJob None 106 (lease_of (ex_job ''a'' 1) ''t'' 110) ex_done 106
      [(''a'', finished ex_done (claimed ''w'' ''t'' 110 (ex_entry ''a'' 60)))] =
      (Some MLeaseLost, [(''a'', finished ex_done (claimed ''w'' ''t'' 110 (ex_entry ''a'' 60)))])"
    by (simp add: FinishJob_def jobs_validLease_def is_zero_iff validResult_def ex_done_def
        leaseMatches_def finished_def ex_job_def)
  show ?thesis by (simp add: ex_calls_def NewMemoryStore_def 1 2 3 4)
qed

theorem lease_finished_at_most_once_witness:
  "granted (fst (job_run NewMemoryStore ex_calls)) ''a'' = 1 \<and>
   finishes (fst (job_run NewMemoryStore ex_calls)) ''t'' = 1 \<and>
   granted (fst (job_run NewMemoryStore ex_calls)) ''a'' \<le> 6"
  using lease_finished_at_most_once[OF surjective_pairing, of ex_calls "''a''" "''t''"]
  by (simp add: ex_calls_run granted_def finishes_def ex_job_def)

definition ex_last :: entry where
  "ex_last = (ex_entry ''a'' 10)\<lparr>en_job := ex_job ''a'' 6, en_status := ''running'', en_leasedUntil := 50,
     en_leaseOwner := ''w'', en_leaseToken := ''t''\<rparr>"

theorem abandoned_job_stuck_witness:
  "granted (fst (job_run [(''a'', ex_last)] [JcClaim None 100 (Inr ''u'') 1 10 ''w''])) ''a'' = 0"
proof -
  have "jobs_ok [(''a'', ex_last)]"
    by (simp add: jobs_ok_def entry_ok_def ex_last_def ex_entry_def ex_job_def MaxAttempts_def wf_map_def)
  from abandoned_job_stuck[OF this _ _ _ _ _ surjective_pairing,
      of "''a''" ex_last 50 "[JcClaim None 100 (Inr ''u'') 1 10 ''w'']"]
  show ?thesis by (simp only: map_of.simps fst_conv snd_conv) (simp add: ex_last_def ex_job_def)
qed

end
