(* ===== verification/Media_Safety.thy ===== *)
theory Media_Safety
  imports Media_Queue Media_Jobs
begin

text \<open>
  What single calls of the media store guarantee: who is given access to the media, and that only the
  last viewer stops a stream; and that the second playlist of a session cannot be stored.
\<close>

subsection \<open>Reading the queries\<close>

lemma grant_rows_iff:
  "(t, u, c, tm) \<in> set (grant_rows db now vs) \<longleftrightarrow>
     t \<in> set (db_tenants db) \<and> tn_id t = se_TenantID vs \<and> tn_active t \<and>
     tn_permission_version t = se_TenantPermissionVersion vs \<and>
     u \<in> set (db_users db) \<and> us_id u = se_UserID vs \<and> us_authority u = ''USER'' \<and>
     us_token_version u = se_UserTokenVersion vs \<and>
     c \<in> set (db_cameras db) \<and> ca_id c = se_CameraID vs \<and> ca_tenant_id c = se_TenantID vs \<and>
     tm \<in> set (db_members db) \<and> tm_tenant_id tm = se_TenantID vs \<and> tm_user_id tm = se_UserID vs \<and>
     tm_active tm \<and> not_expired (tm_expires_at tm) now \<and>
     tm_permission_version tm = se_MemberPermissionVersion vs \<and>
     (\<exists>f \<in> set (db_farms db). fa_id f = ca_farm_id c \<and> fa_tenant_id f = ca_tenant_id c \<and>
        farm_visible db now f (se_UserID vs) (tm_role tm))"
  by (auto simp: grant_rows_def)

text \<open>The viewer of a session as its rights stand in the database.\<close>

definition entitled :: "media_db \<Rightarrow> time \<Rightarrow> session_row \<Rightarrow> bool" where
  "entitled db now vs \<longleftrightarrow>
     (\<exists>t \<in> set (db_tenants db). tn_id t = se_TenantID vs \<and> tn_active t \<and>
        tn_permission_version t = se_TenantPermissionVersion vs) \<and>
     (\<exists>u \<in> set (db_users db). us_id u = se_UserID vs \<and> us_authority u = ''USER'' \<and>
        us_token_version u = se_UserTokenVersion vs) \<and>
     (\<exists>tm \<in> set (db_members db). tm_tenant_id tm = se_TenantID vs \<and> tm_user_id tm = se_UserID vs \<and>
        tm_active tm \<and> not_expired (tm_expires_at tm) now \<and>
        tm_permission_version tm = se_MemberPermissionVersion vs \<and>
        (\<exists>c \<in> set (db_cameras db). ca_id c = se_CameraID vs \<and> ca_tenant_id c = se_TenantID vs \<and>
          (\<exists>f \<in> set (db_farms db). fa_id f = ca_farm_id c \<and> fa_tenant_id f = ca_tenant_id c \<and>
             farm_visible db now f (se_UserID vs) (tm_role tm))))"

lemma grant_rows_entitled: "grant_rows db now vs \<noteq> [] \<Longrightarrow> entitled db now vs"
proof -
  assume "grant_rows db now vs \<noteq> []"
  then obtain r where r: "r \<in> set (grant_rows db now vs)" by (cases "grant_rows db now vs") auto
  obtain t u c tm where "r = (t, u, c, tm)" by (cases r) auto
  with r show ?thesis unfolding entitled_def by (auto simp: grant_rows_iff)
qed

lemma find_mem: "find P xs = Some x \<Longrightarrow> x \<in> set xs \<and> P x"
  by (auto simp: find_Some_iff)

subsection \<open>Access\<close>

text \<open>C13: a request is given access to the media only under a session of the database that is live
by the database's clock and was created for the very token presented; the claims name its tenant,
camera, source version and user; the camera is enabled and still at that version; and the viewer's
rights are current: tenant, account, membership and farm are looked up again, at the versions the
session was created with, so that bumping a version or deactivating a membership revokes access.\<close>

theorem authorize_media_sound:
  assumes "mpg_AuthorizeMedia e x claims hash now db = Inr access"
  shows "\<exists>vs \<in> set (db_sessions db). \<exists>c \<in> set (db_cameras db).
    ma_SessionID access = se_ID vs \<and> se_ID vs = mc_SessionID claims \<and> sr_token_hash vs = hash \<and>
    live_state (se_State vs) \<and> ma_State access = se_State vs \<and>
    mc_IssuedAt claims \<le> tx_clock x 0 \<and> tx_clock x 0 < se_ExpiresAt vs \<and>
    mc_ExpiresAt claims - mc_IssuedAt claims \<le> 300 * second \<and>
    se_TenantID vs = mc_TenantID claims \<and> se_UserID vs = mc_UserID claims \<and>
    ca_id c = mc_CameraID claims \<and> ca_tenant_id c = mc_TenantID claims \<and> ca_enabled c \<and>
    ca_source_version c = mc_SourceVersion claims \<and> se_SourceVersion vs = mc_SourceVersion claims \<and>
    entitled db (tx_clock x 1) vs"
proof -
  from assms obtain vs t c where vs: "find (\<lambda>r. se_ID r = mc_SessionID claims) (db_sessions db) = Some vs"
    and c: "find (\<lambda>c. ca_id c = se_CameraID vs \<and> ca_tenant_id c = se_TenantID vs) (db_cameras db) = Some c"
    and ttl: "\<not> time_sub (mc_ExpiresAt claims) (mc_IssuedAt claims) > MaxVideoPlaybackTTL"
    and same: "se_TenantID vs = mc_TenantID claims" "se_CameraID vs = mc_CameraID claims"
      "se_SourceVersion vs = mc_SourceVersion claims" "se_UserID vs = mc_UserID claims"
      "ca_enabled c" "ca_source_version c = mc_SourceVersion claims" "sr_token_hash vs = hash"
    and g: "grant_rows db (tx_clock x 1) vs \<noteq> []"
    and times: "mc_IssuedAt claims \<le> tx_clock x 0" "tx_clock x 0 < se_ExpiresAt vs"
      "se_State vs = SessionPending \<or> se_State vs = SessionReady"
    and out: "ma_SessionID access = se_ID vs" "ma_State access = se_State vs"
    by (auto simp: mpg_AuthorizeMedia_def iolink_simps equalHash_def Let_def not_less)
  have "mc_ExpiresAt claims - mc_IssuedAt claims \<le> 300 * second"
    using ttl time_sub_le_iff[of "300 * second" "mc_ExpiresAt claims" "mc_IssuedAt claims"]
    by (simp add: MaxVideoPlaybackTTL_def second_def min_duration_def max_duration_def)
  with find_mem[OF vs] find_mem[OF c] same times out grant_rows_entitled[OF g] show ?thesis
    by (intro bexI[of _ vs] bexI[of _ c]) (auto simp: live_state_def)
qed

subsection \<open>Stopping\<close>

lemma Stop_Inr:
  assumes "mpg_StopOwnedPlayback e x ctx i now db = Inr (v, db')"
  obtains sess where "sess \<in> set (db_sessions db)" "se_ID sess = i"
      "\<exists>tenant user role. actorContext ctx = Some (tenant, user, role) \<and> se_TenantID sess = tenant \<and> se_UserID sess = user"
      "\<not> live_state (se_State sess)" "db' = db"
  | sess where "sess \<in> set (db_sessions db)" "se_ID sess = i" "live_state (se_State sess)"
      "\<exists>tenant user role. actorContext ctx = Some (tenant, user, role) \<and> se_TenantID sess = tenant \<and> se_UserID sess = user"
      "active_sessions (db\<lparr>db_sessions := map (\<lambda>r. if se_ID r = i \<and> live_state (se_State r)
          then revoke (tx_clock x 4) r else r) (db_sessions db)\<rparr>) (tx_clock x 5) (se_StreamID sess) \<noteq> []"
      "db' = db\<lparr>db_sessions := map (\<lambda>r. if se_ID r = i \<and> live_state (se_State r)
          then revoke (tx_clock x 4) r else r) (db_sessions db)\<rparr>"
  | sess where "sess \<in> set (db_sessions db)" "se_ID sess = i" "live_state (se_State sess)"
      "\<exists>tenant user role. actorContext ctx = Some (tenant, user, role) \<and> se_TenantID sess = tenant \<and> se_UserID sess = user"
      "active_sessions (db\<lparr>db_sessions := map (\<lambda>r. if se_ID r = i \<and> live_state (se_State r)
          then revoke (tx_clock x 4) r else r) (db_sessions db)\<rparr>) (tx_clock x 5) (se_StreamID sess) = []"
      "db' = db\<lparr>db_sessions := map (\<lambda>r. if se_ID r = i \<and> live_state (se_State r)
            then revoke (tx_clock x 4) r else r) (db_sessions db),
          db_streams := set_stream_state (se_StreamID sess) ''stopping'' (db_streams db),
          db_jobs := snd (insert_job x (se_TenantID sess) jobStop (se_StreamID sess) (stop_payload sess) (db_jobs db))\<rparr>"
proof -
  from assms obtain tenant user role sess where ctx: "actorContext ctx = Some (tenant, user, role)"
    and own: "owned_session db (tx_clock x 1) i tenant user role = Some sess"
    and body: "after (if live_state (se_State sess) then
            require (\<not> tx_fails x 4) MUnavailable
            (let db = db\<lparr>db_sessions := map (\<lambda>r.
                   if se_ID r = i \<and> live_state (se_State r) then revoke (tx_clock x 4) r else r)
                   (db_sessions db)\<rparr>
             in require (\<not> tx_fails x 5) MUnavailable
               (if active_sessions db (tx_clock x 5) (se_StreamID sess) = [] then
                  require (\<not> tx_fails x 6 \<and> \<not> tx_fails x 7) MUnavailable
                  (Inr (db\<lparr>db_streams := set_stream_state (se_StreamID sess) ''stopping'' (db_streams db),
                     db_jobs := snd (insert_job x (se_TenantID sess) jobStop (se_StreamID sess)
                       (stop_payload sess) (db_jobs db))\<rparr>))
                else Inr db))
          else Inr db)
        (\<lambda>db. require (\<not> tx_fails x 8) MUnavailable (Inr ((), db))) = Inr (v, db')"
    by (auto simp only: mpg_StopOwnedPlayback_def require_Inr take_or_Inr split_paired_Ex prod.case)
  have mem: "sess \<in> set (db_sessions db)" "se_ID sess = i"
    "\<exists>tenant user role. actorContext ctx = Some (tenant, user, role) \<and> se_TenantID sess = tenant \<and> se_UserID sess = user"
    using find_mem[OF own[unfolded owned_session_def]] ctx by auto
  show ?thesis
  proof (cases "live_state (se_State sess)")
    case False
    with body have "db' = db" by (simp add: iolink_simps)
    with mem False show ?thesis by (intro that(1))
  next
    case True
    let ?db = "db\<lparr>db_sessions := map (\<lambda>r. if se_ID r = i \<and> live_state (se_State r)
          then revoke (tx_clock x 4) r else r) (db_sessions db)\<rparr>"
    show ?thesis
    proof (cases "active_sessions ?db (tx_clock x 5) (se_StreamID sess) = []")
      case none: True
      with body True have "db' = db\<lparr>db_sessions := db_sessions ?db,
          db_streams := set_stream_state (se_StreamID sess) ''stopping'' (db_streams db),
          db_jobs := snd (insert_job x (se_TenantID sess) jobStop (se_StreamID sess) (stop_payload sess) (db_jobs db))\<rparr>"
        by (simp add: iolink_simps Let_def)
      with mem True none show ?thesis by (intro that(3)) simp_all
    next
      case some: False
      with body True have "db' = ?db" by (simp add: iolink_simps Let_def)
      with mem True some show ?thesis by (intro that(2)) simp_all
    qed
  qed
qed

lemma active_sessions_mem:
  "r \<in> set (active_sessions db now s) \<longleftrightarrow> r \<in> set (db_sessions db) \<and> se_StreamID r = s \<and>
     live_state (se_State r) \<and> se_ExpiresAt r > now"
  by (auto simp: active_sessions_def)

lemma revoke_simps [simp]: "se_ID (revoke t r) = se_ID r" "se_StreamID (revoke t r) = se_StreamID r"
  "se_State (revoke t r) = SessionRevoked" "\<not> live_state SessionRevoked"
  by (simp_all add: revoke_def live_state_def)

text \<open>C14: a viewer stops only its own session, and a stream that another session is still watching
goes on: then neither the streams nor the jobs change. Otherwise the stream is marked \<open>stopping\<close>
and no other stream is touched. In both cases the session is live no more and every other session
is as it was.\<close>

theorem stop_spares_other_viewers:
  assumes "mpg_StopOwnedPlayback e x ctx i now db = Inr (v, db')"
    and pk: "distinct (map se_ID (db_sessions db))"
  shows "\<exists>sess \<in> set (db_sessions db). se_ID sess = i \<and>
    (\<exists>tenant user role. actorContext ctx = Some (tenant, user, role) \<and>
       se_TenantID sess = tenant \<and> se_UserID sess = user) \<and>
    (\<forall>r \<in> set (db_sessions db'). se_ID r = i \<longrightarrow> \<not> live_state (se_State r)) \<and>
    filter (\<lambda>r. se_ID r \<noteq> i) (db_sessions db') = filter (\<lambda>r. se_ID r \<noteq> i) (db_sessions db) \<and>
    filter (\<lambda>st. st_id st \<noteq> se_StreamID sess) (db_streams db') =
      filter (\<lambda>st. st_id st \<noteq> se_StreamID sess) (db_streams db) \<and>
    ((\<exists>r \<in> set (db_sessions db). se_ID r \<noteq> i \<and> se_StreamID r = se_StreamID sess \<and>
        live_state (se_State r) \<and> se_ExpiresAt r > tx_clock x 5) \<longrightarrow>
      db_streams db' = db_streams db \<and> db_jobs db' = db_jobs db)"
proof -
  let ?upd = "\<lambda>r. if se_ID r = i \<and> live_state (se_State r) then revoke (tx_clock x 4) r else r"
  have same: "filter (\<lambda>r. se_ID r \<noteq> i) (map ?upd l) = filter (\<lambda>r. se_ID r \<noteq> i) l" for l
    by (induction l) auto
  have other: "active_sessions (db\<lparr>db_sessions := map ?upd (db_sessions db)\<rparr>) now' s \<noteq> []"
    if "r \<in> set (db_sessions db)" "se_ID r \<noteq> i" "se_StreamID r = s" "live_state (se_State r)" "se_ExpiresAt r > now'"
    for r s now'
  proof -
    have "r \<in> set (map ?upd (db_sessions db))" using that(1,2) by (auto intro!: rev_image_eqI)
    with that have "r \<in> set (active_sessions (db\<lparr>db_sessions := map ?upd (db_sessions db)\<rparr>) now' s)"
      by (simp add: active_sessions_mem)
    then show ?thesis by auto
  qed
  have streams: "filter (\<lambda>st. st_id st \<noteq> s) (set_stream_state s y l) = filter (\<lambda>st. st_id st \<noteq> s) l" for s y l
    by (induction l) (auto simp: set_stream_state_def)
  from assms(1) show ?thesis
  proof (cases rule: Stop_Inr)
    case (1 sess)
    have "r = sess" if "r \<in> set (db_sessions db)" "se_ID r = i" for r
      using pk 1(1,2) that by (simp add: distinct_map inj_on_def)
    with 1 have "\<forall>r \<in> set (db_sessions db'). se_ID r = i \<longrightarrow> \<not> live_state (se_State r)" by blast
    with 1 show ?thesis by (intro bexI[of _ sess] conjI) simp_all
  next
    case (2 sess)
    then show ?thesis by (intro bexI[of _ sess] conjI) (auto simp: same)
  next
    case (3 sess)
    with other show ?thesis by (intro bexI[of _ sess] conjI) (auto simp: same streams)
  qed
qed

subsection \<open>The manifest can be rewritten once\<close>

lemma insert_segment_Inr:
  "insert_segment r l = Inr l' \<longleftrightarrow> provider_name_check (sg_provider_name r) \<and> l' = l @ [r] \<and>
     (\<forall>q \<in> set l. sg_session_id q = sg_session_id r \<longrightarrow>
        sg_segment_id q \<noteq> sg_segment_id r \<and> sg_provider_name q \<noteq> sg_provider_name r)"
  by (auto simp: insert_segment_def iolink_simps list_ex_iff)

lemma map_segments_Cons:
  assumes "map_segments e x k (m # ms) db = Inr db'"
  shows "\<exists>q. sg_session_id q = sm_SessionID m \<and> sg_provider_name q = sm_Path m \<and>
    provider_name_check (sm_Path m) \<and>
    (\<forall>q \<in> set (db_segments db). sg_session_id q = sm_SessionID m \<longrightarrow> sg_provider_name q \<noteq> sm_Path m) \<and>
    map_segments e x (k + 1) ms (db\<lparr>db_segments := db_segments db @ [q]\<rparr>) = Inr db'"
proof -
  from assms obtain r :: session_row and segs where
    ins: "insert_segment \<lparr>sg_session_id = sm_SessionID m, sg_segment_id = sm_ID m,
           sg_provider_name = sm_Path m, sg_expires_at = se_ExpiresAt r\<rparr> (db_segments db) = Inr segs"
    and rest: "map_segments e x (k + 1) ms (db\<lparr>db_segments := segs\<rparr>) = Inr db'"
    unfolding map_segments.simps require_Inr take_or_Inr after_Inr by blast
  then show ?thesis unfolding insert_segment_Inr
    by (intro exI[of _ "\<lparr>sg_session_id = sm_SessionID m, sg_segment_id = sm_ID m,
           sg_provider_name = sm_Path m, sg_expires_at = se_ExpiresAt r\<rparr>"]) auto
qed

lemma map_segments_Inr:
  "map_segments e x k ms db = Inr db' \<Longrightarrow>
     (\<forall>m \<in> set ms. \<exists>q \<in> set (db_segments db'). sg_session_id q = sm_SessionID m \<and> sg_provider_name q = sm_Path m) \<and>
     set (db_segments db) \<subseteq> set (db_segments db')"
proof (induction ms arbitrary: k db)
  case (Cons m ms)
  from map_segments_Cons[OF Cons.prems] obtain q where
    q: "sg_session_id q = sm_SessionID m" "sg_provider_name q = sm_Path m"
    and rest: "map_segments e x (k + 1) ms (db\<lparr>db_segments := db_segments db @ [q]\<rparr>) = Inr db'" by blast
  from Cons.IH[OF rest] q show ?case by auto
qed simp

lemma map_segments_clash:
  "q \<in> set (db_segments db) \<Longrightarrow> m \<in> set ms \<Longrightarrow> sg_session_id q = sm_SessionID m \<Longrightarrow>
   sg_provider_name q = sm_Path m \<Longrightarrow> map_segments e x k ms db \<noteq> Inr db'"
proof (induction ms arbitrary: k db)
  case (Cons a ms)
  show ?case
  proof
    assume "map_segments e x k (a # ms) db = Inr db'"
    from map_segments_Cons[OF this] obtain p where
      fresh: "\<forall>q \<in> set (db_segments db). sg_session_id q = sm_SessionID a \<longrightarrow> sg_provider_name q \<noteq> sm_Path a"
      and rest: "map_segments e x (k + 1) ms (db\<lparr>db_segments := db_segments db @ [p]\<rparr>) = Inr db'" by blast
    have "m \<noteq> a" using fresh Cons.prems(1,3,4) by auto
    with Cons.prems have m: "m \<in> set ms" by simp
    have "q \<in> set (db_segments (db\<lparr>db_segments := db_segments db @ [p]\<rparr>))" using Cons.prems(1) by simp
    from Cons.IH[OF this m Cons.prems(3,4)] rest show False by blast
  qed
qed simp

text \<open>the mapping of a segment path can be created once per session: after a successful
\<open>CreateSegmentMappings\<close> every later one for a list with one of its paths in that session fails,
with whatever new identifiers, as long as the rows are kept (the column pair \<open>session_id\<close>,
\<open>provider_name\<close> is unique and the insert has no \<open>ON CONFLICT\<close>).\<close>

theorem second_manifest_fails:
  assumes "mpg_CreateSegmentMappings e x ms db = Inr (res, db1)" and "m \<in> set ms"
    and "set (db_segments db1) \<subseteq> set (db_segments db2)"
    and "m' \<in> set ms'" and "sm_SessionID m' = sm_SessionID m" and "sm_Path m' = sm_Path m"
  shows "\<exists>err. mpg_CreateSegmentMappings e x' ms' db2 = Inl err"
proof -
  from assms(1) have "map_segments e x 0 ms db = Inr db1"
    by (auto simp: mpg_CreateSegmentMappings_def iolink_simps)
  from map_segments_Inr[OF this] assms(2) obtain q where
    "q \<in> set (db_segments db1)" "sg_session_id q = sm_SessionID m" "sg_provider_name q = sm_Path m"
    by blast
  with assms(3-6) map_segments_clash[of q db2 m' ms' e x' 0] have "map_segments e x' 0 ms' db2 \<noteq> Inr d" for d
    by auto
  then have "mpg_CreateSegmentMappings e x' ms' db2 \<noteq> Inr (a, b)" for a b
    by (auto simp: mpg_CreateSegmentMappings_def iolink_simps)
  then show ?thesis by (cases "mpg_CreateSegmentMappings e x' ms' db2") auto
qed

subsection \<open>Finishing\<close>

lemma Finish_Inr:
  assumes "mpg_FinishJob e x l r now db = Inr (v, db')"
  obtains row job active where "find (leased_row (fst (ParseInt64 (jb_ID l))) (le_LeaseToken l) (tx_clock x 1))
        (db_jobs db) = Some row"
    "decodeJob e (fst (ParseInt64 (jb_ID l))) (jo_kind row) (jo_payload row) (jb_Attempts l) = Inr job"
    "jb_Kind job = jb_Kind l" "jb_StreamID job = jb_StreamID l"
    "jb_CameraID job = jb_CameraID l" "jb_SourceVersion job = jb_SourceVersion l"
    "active = length (filter (\<lambda>q. se_ExpiresAt q > tx_clock x 4 \<and> live_state (se_State q))
        (filter (\<lambda>q. se_StreamID q = jb_StreamID job) (db_sessions db)))"
    "finishStreamAndSessions x 6 job r active (db\<lparr>db_jobs := map (\<lambda>j. if jo_id j = fst (ParseInt64 (jb_ID l))
        then finish_row (jobStatus (jr_Status r)) (me_stored e (if is_zero (jr_NextAt r) then now else jr_NextAt r))
          (jr_ErrorCode r) j else j) (db_jobs db)\<rparr>) = Inr db'"
  using assms unfolding mpg_FinishJob_def Let_def require_Inr take_or_Inr after_as_Inr
  by (elim conjE exE) (rule that, (simp only: de_Morgan_disj not_not; fail | simp)+)

end
