(* ===== verification/Media_Run.thy ===== *)
theory Media_Run
  imports Media_Safety
begin

text \<open>
  Runs of the media store: any sequence of its calls by any callers. The uniqueness constraints of
  the schema are an invariant of the runs, a lease of a job is fenced (the contract both queues
  satisfy), and a stream whose second stop was not queued never leaves \<open>stopping\<close>.
\<close>

subsection \<open>What a call changes\<close>

definition stream_key :: "stream \<Rightarrow> string \<times> int \<times> int \<times> int" where
  "stream_key st = (st_id st, st_camera_id st, st_tenant_id st, st_source_version st)"

definition session_key :: "session_row \<Rightarrow> string \<times> string \<times> int \<times> int \<times> int" where
  "session_key r = (se_ID r, se_StreamID r, se_CameraID r, se_TenantID r, se_SourceVersion r)"

definition job_key :: "job_row \<Rightarrow> int \<times> int \<times> string \<times> string" where
  "job_key j = (jo_id j, jo_tenant_id j, jo_kind j, jo_key j)"

lemma stream_keys_same [simp]:
  "map stream_key (set_stream_state i y l) = map stream_key l"
  "map stream_key (starting_stream i l) = map stream_key l"
  by (simp_all add: set_stream_state_def starting_stream_def stream_key_def)

lemma session_keys_same [simp]:
  "map session_key (end_pending i st code l) = map session_key l"
  "map session_key (revoke_live i t l) = map session_key l"
  by (simp_all add: end_pending_def revoke_live_def session_key_def)

lemma map_session_keys:
  "(\<And>r. session_key (f r) = session_key r) \<Longrightarrow> map session_key (map f l) = map session_key l"
  by simp

lemma lease_row_key [simp]: "job_key (lease_row owner u j) = job_key j" "job_key (finish_row st t c j) = job_key j"
  by (simp_all add: lease_row_def finish_row_def job_key_def)

lemma Claim_Inr:
  assumes "mpg_ClaimJob e x token now lease w db = Inr (l, db')"
  obtains "l = None" "db' = db"
  | row job t until where "next_due (tx_clock x 1) (db_jobs db) = Some row"
      "decodeJob e (jo_id row) (jo_kind row) (jo_payload row) (jo_attempts row) = Inr job" "token = Some t"
      "l = Some (lease_of (job\<lparr>jb_Attempts := jb_Attempts job + 1\<rparr>) (w @ '':'' @ t) until)"
      "db' = db\<lparr>db_jobs := map (\<lambda>j. if jo_id j = jo_id row then lease_row (w @ '':'' @ t) until j else j) (db_jobs db),
         db_streams := db_streams db'\<rparr>"
      "db_streams db' = (if jo_kind row = jobStart then starting_stream (jb_StreamID job) (db_streams db) else db_streams db)"
proof (cases "next_due (tx_clock x 1) (db_jobs db)")
  case None
  with assms that(1) show ?thesis by (simp add: mpg_ClaimJob_def iolink_simps)
next
  case (Some row)
  from assms[unfolded mpg_ClaimJob_def Let_def require_Inr Some option.case after_as_Inr take_or_Inr]
  obtain job t where *: "decodeJob e (jo_id row) (jo_kind row) (jo_payload row) (jo_attempts row) = Inr job"
    "token = Some t" by blast
  from assms[unfolded mpg_ClaimJob_def Let_def Some option.case *] show ?thesis
    by (intro that(2)[OF Some *]) (auto simp: iolink_simps split: if_split_asm)
qed

lemma fence_Inr:
  "fenceStopStream x n l tenant db = Inr (b, db') \<Longrightarrow>
     db' = db \<or> db' = db\<lparr>db_streams := set_stream_state (jb_StreamID l) ''stopping'' (db_streams db)\<rparr>"
  by (auto simp: fenceStopStream_def iolink_simps split: if_split_asm)

lemma Revalidate_Inr:
  assumes "mpg_RevalidateJob e x l db = Inr (v, db')"
  shows "db' = db \<or> db' = db\<lparr>db_streams := set_stream_state (jb_StreamID l) ''stopping'' (db_streams db)\<rparr>"
proof -
  from assms obtain b and row :: job_row where
    "(if jb_Kind l = JobStop then fenceStopStream x 3 l (jo_tenant_id row) db else Inr (False, db)) = Inr (b, db')"
    by (auto simp: mpg_RevalidateJob_def iolink_simps)
  then show ?thesis using fence_Inr by (auto split: if_split_asm)
qed

lemma set_stream_state_twice [simp]:
  "set_stream_state i z (set_stream_state i y l) = set_stream_state i z l"
  by (simp add: set_stream_state_def)

lemma finish_streams_effect:
  assumes "finishStreamAndSessions x n job r active db = Inr db'"
  shows "db_jobs db' = db_jobs db \<and> db_segments db' = db_segments db \<and>
    (\<exists>y. db_streams db' = set_stream_state (jb_StreamID job) y (db_streams db)) \<and>
    db_sessions db' \<in> {db_sessions db,
       end_pending (jb_StreamID job) SessionReady (sessionErrorCode (jr_ErrorCode r)) (db_sessions db),
       end_pending (jb_StreamID job) SessionFailed (sessionErrorCode (jr_ErrorCode r)) (db_sessions db),
       revoke_live (jb_StreamID job) (tx_clock x (n + 1)) (db_sessions db)}"
proof -
  from assms obtain y st where f: "finish_states (jb_Kind job) (jr_Status r) = Some (y, st)"
    and body: "finishStreamAndSessions x n job r active db = Inr db'"
    by (auto simp: finishStreamAndSessions_def iolink_simps)
  have st: "st \<in> {None, Some SessionReady, Some SessionFailed}"
    using f by (auto simp: finish_states_def split: JobStatus.split_asm if_split_asm)
  show ?thesis
  proof (cases st)
    case None
    with body f show ?thesis
      by (auto simp: finishStreamAndSessions_def iolink_simps Let_def split: if_split_asm)
  next
    case (Some z)
    with body f st show ?thesis
      by (auto simp: finishStreamAndSessions_def iolink_simps Let_def)
  qed
qed

lemma Finish_effect:
  assumes "mpg_FinishJob e x l r now db = Inr (v, db')"
  shows "\<exists>row :: job_row. \<exists>code available y.
    find (leased_row (fst (ParseInt64 (jb_ID l))) (le_LeaseToken l) (tx_clock x 1)) (db_jobs db) = Some row \<and>
    db_jobs db' = map (\<lambda>j. if jo_id j = fst (ParseInt64 (jb_ID l))
        then finish_row (jobStatus (jr_Status r)) available code j else j) (db_jobs db) \<and>
    (\<exists>p. jo_payload row = Some p \<and> jp_stream_id p = jb_StreamID l) \<and>
    db_streams db' = set_stream_state (jb_StreamID l) y (db_streams db) \<and>
    db_sessions db' \<in> {db_sessions db, end_pending (jb_StreamID l) SessionReady (sessionErrorCode (jr_ErrorCode r)) (db_sessions db),
       end_pending (jb_StreamID l) SessionFailed (sessionErrorCode (jr_ErrorCode r)) (db_sessions db),
       revoke_live (jb_StreamID l) (tx_clock x 7) (db_sessions db)} \<and>
    db_segments db' = db_segments db"
  using assms
proof (cases rule: Finish_Inr)
  case (1 row job active)
  have p: "\<exists>p. jo_payload row = Some p \<and> jp_stream_id p = jb_StreamID l"
    using 1(2,4) by (auto simp: decodeJob_def iolink_simps split: if_split_asm)
  from finish_streams_effect[OF 1(8)] 1(4) obtain y where y: "db_streams db' = set_stream_state (jb_StreamID l) y (db_streams db)"
    by auto
  show ?thesis
    by (intro exI[of _ row] exI[of _ "jr_ErrorCode r"] exI[of _ "me_stored e (if is_zero (jr_NextAt r) then now else jr_NextAt r)"]
        exI[of _ y] conjI 1(1) p y)
      (use finish_streams_effect[OF 1(8)] 1(4) in \<open>simp_all\<close>)
qed

subsection \<open>Uniqueness\<close>

text \<open>
  The constraints of the schema: identifiers of streams, sessions and jobs, one stream per camera
  and source version, one job per tenant, kind and idempotency key, and the foreign key of a
  session to its stream.
\<close>

definition keys_ok :: "(string \<times> int \<times> int \<times> int) list \<Rightarrow> (string \<times> string \<times> int \<times> int \<times> int) list \<Rightarrow>
  (int \<times> int \<times> string \<times> string) list \<Rightarrow> bool" where
  "keys_ok streams sessions jobs \<longleftrightarrow>
     distinct (map fst streams) \<and> distinct (map (\<lambda>(i, c, t, v). (c, v)) streams) \<and>
     distinct (map fst sessions) \<and>
     (\<forall>(i, s, c, t, v) \<in> set sessions. (s, c, t, v) \<in> set streams) \<and>
     distinct (map fst jobs) \<and> distinct (map snd jobs) \<and> (\<forall>j \<in> set jobs. 0 < fst j)"

definition media_inv :: "media_db \<Rightarrow> bool" where
  "media_inv db \<longleftrightarrow> keys_ok (map stream_key (db_streams db)) (map session_key (db_sessions db))
     (map job_key (db_jobs db))"

lemma media_inv_same:
  "media_inv db \<Longrightarrow> map stream_key (db_streams db') = map stream_key (db_streams db) \<Longrightarrow>
   map session_key (db_sessions db') = map session_key (db_sessions db) \<Longrightarrow>
   map job_key (db_jobs db') = map job_key (db_jobs db) \<Longrightarrow> media_inv db'"
  by (simp add: media_inv_def)

lemma next_job_id_gt: "j \<in> set jobs \<Longrightarrow> jo_id j < next_job_id jobs"
  by (induction jobs) (auto simp: next_job_id_def)

lemma next_job_id_pos: "0 < next_job_id jobs"
proof -
  have "0 \<le> foldr (\<lambda>j. max (jo_id j)) jobs 0" by (induction jobs) auto
  then show ?thesis by (simp add: next_job_id_def)
qed

lemma keys_ok_insert_job:
  assumes "keys_ok streams sessions (map job_key jobs)" and "insert_job x t k key p jobs = (b, jobs')"
  shows "keys_ok streams sessions (map job_key jobs')"
proof (cases "list_ex (same_job t k key) jobs")
  case True
  with assms show ?thesis by (simp add: insert_job_def)
next
  case False
  let ?j = "(next_job_id jobs, t, k, key)"
  from False assms(2) have "map job_key jobs' = map job_key jobs @ [?j]"
    by (auto simp: insert_job_def job_key_def)
  moreover have "next_job_id jobs \<notin> fst ` set (map job_key jobs)"
    using next_job_id_gt by (fastforce simp: job_key_def)
  moreover have "(t, k, key) \<notin> snd ` set (map job_key jobs)"
    using False by (auto simp: list_ex_iff same_job_def job_key_def)
  ultimately show ?thesis using assms(1) next_job_id_pos[of jobs]
    by (simp add: keys_ok_def image_image)
qed

definition stream_of :: "Session \<Rightarrow> string \<Rightarrow> stream \<Rightarrow> bool" where
  "stream_of s sid st \<longleftrightarrow> st_id st = sid \<and> st_camera_id st = se_CameraID s \<and> st_tenant_id st = se_TenantID s \<and>
     st_source_version st = se_SourceVersion s"

definition new_stream :: "stream \<Rightarrow> media_db \<Rightarrow> bool" where
  "new_stream st db \<longleftrightarrow> st_state st = ''pending'' \<and> (\<forall>q \<in> set (db_streams db). st_id q \<noteq> st_id st \<and>
     (st_camera_id q, st_source_version q) \<noteq> (st_camera_id st, st_source_version st))"

lemma ensureStream_ok:
  "ok (\<lambda>(sid, db1). (db1 = db \<or> (\<exists>st. new_stream st db \<and> db1 = db\<lparr>db_streams := db_streams db @ [st]\<rparr>)) \<and>
     (\<exists>st \<in> set (db_streams db1). stream_of (cs_Session i) sid st \<and> st_state st \<noteq> ''stopping''))
   (ensureStream e x n i db)"
proof -
  let ?s = "cs_Session i"
  let ?id = "if \<not> me_validUUID e (pt_StreamID (cs_Target i)) then se_StreamID ?s else pt_StreamID (cs_Target i)"
  let ?new = "\<lparr>st_id = ?id, st_camera_id = se_CameraID ?s, st_tenant_id = se_TenantID ?s,
                   st_source_version = se_SourceVersion ?s, st_state = ''pending''\<rparr>"
  let ?sel = "if list_ex (\<lambda>st. st_camera_id st = se_CameraID ?s \<and> st_source_version st = se_SourceVersion ?s) (db_streams db)
         then Inr db else if list_ex (\<lambda>st. st_id st = ?id) (db_streams db) then Inl MConflict
         else Inr (db\<lparr>db_streams := db_streams db @ [?new]\<rparr>)"
  have sel: "d = db \<or> (\<exists>st. new_stream st db \<and> d = db\<lparr>db_streams := db_streams db @ [st]\<rparr>)" if "?sel = Inr d" for d
  proof (cases "list_ex (\<lambda>st. st_camera_id st = se_CameraID ?s \<and> st_source_version st = se_SourceVersion ?s) (db_streams db)")
    case True
    with that show ?thesis by simp
  next
    case False
    with that have "new_stream ?new db" "d = db\<lparr>db_streams := db_streams db @ [?new]\<rparr>"
      by (auto simp: new_stream_def list_ex_iff split: if_split_asm)
    then show ?thesis by blast
  qed
  have found: "st \<in> set (db_streams d) \<and> stream_of ?s (st_id st) st"
    if "find (\<lambda>st. (st_camera_id st = se_CameraID ?s \<and> st_source_version st = se_SourceVersion ?s) \<and>
          st_tenant_id st = se_TenantID ?s) (db_streams d) = Some st" for st d
    using find_mem[OF that] by (simp add: stream_of_def)
  show ?thesis
    unfolding ensureStream_def Let_def
    by (intro ok_rules) (use sel found in fastforce)+
qed

lemma insert_session_Inr:
  "insert_session r l = Inr l' \<longleftrightarrow> session_check r \<and> l' = l @ [r] \<and>
     (\<forall>q \<in> set l. sr_token_hash q \<noteq> sr_token_hash r \<and> se_ID q \<noteq> se_ID r)"
  by (auto simp: insert_session_def iolink_simps list_ex_iff)

text \<open>What \<open>CreatePlayback\<close> leaves of a database to which \<open>ensureStream\<close> has been applied.\<close>

lemma share_start_job_ok:
  "ok (\<lambda>(state, db'). db_streams db' \<in> {db_streams db, set_stream_state sid ''pending'' (db_streams db)} \<and>
    map session_key (db_sessions db') = map session_key (db_sessions db) \<and> db_segments db' = db_segments db \<and>
    db_jobs db' \<in> {db_jobs db, snd (insert_job x (se_TenantID (cs_Session i)) jobStart
        (cs_StartJobKey i @ '':'' @ se_ID (cs_Session i)) (create_payload i sid) (db_jobs db))})
   (share_start_job e x i sid db)"
  unfolding share_start_job_def Let_def by (intro ok_rules) (simp_all add: session_key_def)

text \<open>\<open>appended\<close>: the jobs after some start jobs for a stream have been inserted.\<close>

inductive appended :: "string \<Rightarrow> job_row list \<Rightarrow> job_row list \<Rightarrow> bool" for sid where
  same: "appended sid l l"
| step: "appended sid l l' \<Longrightarrow> jp_stream_id p = sid \<Longrightarrow> appended sid l (snd (insert_job x t k key p l'))"

lemma appended_create: "appended sid l (snd (insert_job x t k key (create_payload i sid) l))"
  by (rule appended.step[OF appended.same]) (simp add: create_payload_def)

lemma Create_ok:
  "ok (\<lambda>(s, db'). db' = db \<and> (\<exists>r \<in> set (db_sessions db). se_ID r = se_ID (cs_Session i)) \<or> (\<exists>db1 sid r.
      (db1 = db \<or> (\<exists>st. new_stream st db \<and> db1 = db\<lparr>db_streams := db_streams db @ [st]\<rparr>)) \<and>
      (\<exists>st \<in> set (db_streams db1). stream_of (cs_Session i) sid st \<and> st_state st \<noteq> ''stopping'') \<and>
      r = new_session e i sid \<and> (\<forall>q \<in> set (db_sessions db). se_ID q \<noteq> se_ID r) \<and>
      db_streams db' \<in> {db_streams db1, set_stream_state sid ''pending'' (db_streams db1)} \<and>
      map session_key (db_sessions db') = map session_key (db_sessions db) @ [session_key r] \<and>
      db_segments db' = db_segments db \<and> appended sid (db_jobs db) (db_jobs db')))
   (mpg_CreatePlayback e x ctx i db)"
proof -
  let ?s = "cs_Session i"
  have tail: "\<exists>db1 sid r.
      (db1 = db \<or> (\<exists>st. new_stream st db \<and> db1 = db\<lparr>db_streams := db_streams db @ [st]\<rparr>)) \<and>
      (\<exists>st \<in> set (db_streams db1). stream_of (cs_Session i) sid st \<and> st_state st \<noteq> ''stopping'') \<and>
      r = new_session e i sid \<and> (\<forall>q \<in> set (db_sessions db). se_ID q \<noteq> se_ID r) \<and>
      db_streams db' \<in> {db_streams db1, set_stream_state sid ''pending'' (db_streams db1)} \<and>
      map session_key (db_sessions db') = map session_key (db_sessions db) @ [session_key r] \<and>
      db_segments db' = db_segments db \<and> appended sid (db_jobs db) (db_jobs db')"
    if ens: "ensureStream e x 5 i db = Inr (sid, db1)"
      and ses: "insert_session (new_session e i sid) (db_sessions db1) = Inr sessions"
      and ins: "insert_job x (se_TenantID ?s) jobStart (cs_StartJobKey i) (create_payload i sid) (db_jobs db1) = (inserted, jobs)"
      and share: "(if inserted then Inr (se_State ?s, db1\<lparr>db_sessions := sessions, db_jobs := jobs\<rparr>)
        else share_start_job e x i sid (db1\<lparr>db_sessions := sessions, db_jobs := jobs\<rparr>)) = Inr (state, db')"
    for sid db1 sessions inserted jobs state db'
  proof (intro exI conjI)
    note ens' = okD[OF ensureStream_ok ens, simplified]
    then have db1: "db_sessions db1 = db_sessions db" "db_jobs db1 = db_jobs db" "db_segments db1 = db_segments db"
      by auto
    have jobs: "jobs = snd (insert_job x (se_TenantID ?s) jobStart (cs_StartJobKey i) (create_payload i sid) (db_jobs db))"
      using ins db1 by (metis snd_conv)
    have app: "appended sid (db_jobs db) jobs" unfolding jobs by (rule appended_create)
    have s: "sessions = db_sessions db @ [new_session e i sid]" "\<forall>q \<in> set (db_sessions db). se_ID q \<noteq> se_ID (new_session e i sid)"
      using ses db1 by (auto simp: insert_session_Inr)
    show "db1 = db \<or> (\<exists>st. new_stream st db \<and> db1 = db\<lparr>db_streams := db_streams db @ [st]\<rparr>)"
      "\<exists>st \<in> set (db_streams db1). stream_of (cs_Session i) sid st \<and> st_state st \<noteq> ''stopping''"
      "\<forall>q \<in> set (db_sessions db). se_ID q \<noteq> se_ID (new_session e i sid)"
      using ens' s(2) by auto
    have eff: "db_streams db' \<in> {db_streams db1, set_stream_state sid ''pending'' (db_streams db1)} \<and>
      map session_key (db_sessions db') = map session_key sessions \<and> db_segments db' = db_segments db1 \<and>
      appended sid (db_jobs db) (db_jobs db')"
    proof (cases inserted)
      case True
      with share app show ?thesis by auto
    next
      case False
      with share have "share_start_job e x i sid (db1\<lparr>db_sessions := sessions, db_jobs := jobs\<rparr>) = Inr (state, db')"
        by simp
      from okD[OF share_start_job_ok this] app show ?thesis
        by (auto intro!: appended.step simp: create_payload_def)
    qed
    then show "db_streams db' \<in> {db_streams db1, set_stream_state sid ''pending'' (db_streams db1)}"
      "map session_key (db_sessions db') = map session_key (db_sessions db) @ [session_key (new_session e i sid)]"
      "db_segments db' = db_segments db" "appended sid (db_jobs db) (db_jobs db')"
      using s(1) db1(3) by auto
  qed (rule refl)
  show ?thesis
    unfolding mpg_CreatePlayback_def Let_def
    apply (intro ok_rules)
    subgoal premises prems for _ _ _ _ _ _ _ _ sid db1 sessions inserted jobs y state db'
      using tail[of sid db1 sessions inserted jobs state db'] prems by simp
    by (auto dest: find_mem)
qed

lemma keys_ok_appended:
  "appended sid l l' \<Longrightarrow> keys_ok st se (map job_key l) \<Longrightarrow> keys_ok st se (map job_key l')"
proof (induction rule: appended.induct)
  case (step l l' p x t k key)
  from keys_ok_insert_job[OF step.IH[OF step.prems] prod.collapse[symmetric]] show ?case by simp
qed simp

lemma keys_ok_session:
  assumes "keys_ok streams sessions jobs" and "k \<in> set streams" and "i \<notin> fst ` set sessions"
  shows "keys_ok streams (sessions @ [(i, k)]) jobs"
  using assms by (cases k) (auto simp: keys_ok_def)

lemma keys_ok_stream:
  assumes "keys_ok streams sessions jobs" and "i \<notin> fst ` set streams"
    and "(c, v) \<notin> (\<lambda>(i, c, t, v). (c, v)) ` set streams"
  shows "keys_ok (streams @ [(i, c, t, v)]) sessions jobs"
  using assms by (auto simp: keys_ok_def)

lemma keys_ok_new_stream:
  assumes "new_stream st db" and "keys_ok (map stream_key (db_streams db)) sessions jobs"
  shows "keys_ok (map stream_key (db_streams db @ [st])) sessions jobs"
proof -
  have "st_id st \<notin> fst ` set (map stream_key (db_streams db))"
    using assms(1) by (force simp: new_stream_def stream_key_def)
  moreover have "(st_camera_id st, st_source_version st) \<notin>
      (\<lambda>(i, c, t, v). (c, v)) ` set (map stream_key (db_streams db))"
    using assms(1) by (force simp: new_stream_def stream_key_def)
  ultimately show ?thesis using keys_ok_stream[OF assms(2)] by (simp add: stream_key_def)
qed

lemma Create_inv: "media_inv db \<Longrightarrow> ok (\<lambda>(s, db'). media_inv db') (mpg_CreatePlayback e x ctx i db)"
proof (rule okI, clarify)
  fix s db' assume inv: "media_inv db" and c: "mpg_CreatePlayback e x ctx i db = Inr (s, db')"
  consider "db' = db" | db1 sid r where
      "db1 = db \<or> (\<exists>st. new_stream st db \<and> db1 = db\<lparr>db_streams := db_streams db @ [st]\<rparr>)"
      "\<exists>st \<in> set (db_streams db1). stream_of (cs_Session i) sid st \<and> st_state st \<noteq> ''stopping''"
      "r = new_session e i sid" "\<forall>q \<in> set (db_sessions db). se_ID q \<noteq> se_ID r"
      "db_streams db' \<in> {db_streams db1, set_stream_state sid ''pending'' (db_streams db1)}"
      "map session_key (db_sessions db') = map session_key (db_sessions db) @ [session_key r]"
      "appended sid (db_jobs db) (db_jobs db')"
    using okD[OF Create_ok c] by auto
  then show "media_inv db'"
  proof cases
    case 1
    with inv show ?thesis by simp
  next
    case 2
    have k: "keys_ok (map stream_key (db_streams db1)) (map session_key (db_sessions db)) (map job_key (db_jobs db))"
      using 2(1) inv keys_ok_new_stream unfolding media_inv_def by fastforce
    from 2(2) obtain st where st: "st \<in> set (db_streams db1)" "stream_of (cs_Session i) sid st" by blast
    have key: "session_key r = (se_ID r, stream_key st)"
      using st(2) 2(3) by (simp add: session_key_def stream_key_def stream_of_def new_session_def Let_def)
    have "stream_key st \<in> set (map stream_key (db_streams db1))" using st(1) by simp
    moreover have "se_ID r \<notin> fst ` set (map session_key (db_sessions db))" using 2(4) by (auto simp: session_key_def)
    ultimately have "keys_ok (map stream_key (db_streams db1)) (map session_key (db_sessions db) @ [session_key r])
        (map job_key (db_jobs db))"
      unfolding key by (intro keys_ok_session[OF k])
    from keys_ok_appended[OF 2(7) this] 2(5,6) show ?thesis by (auto simp: media_inv_def)
  qed
qed

lemma Stop_inv: "media_inv db \<Longrightarrow> ok (\<lambda>(s, db'). media_inv db') (mpg_StopOwnedPlayback e x ctx i now db)"
proof (rule okI, clarify)
  fix v db' assume inv: "media_inv db" and c: "mpg_StopOwnedPlayback e x ctx i now db = Inr (v, db')"
  let ?upd = "\<lambda>r. if se_ID r = i \<and> live_state (se_State r) then revoke (tx_clock x 4) r else r"
  have keys: "map session_key (map ?upd l) = map session_key l" for l
    by (simp add: session_key_def revoke_def)
  from c show "media_inv db'"
  proof (cases rule: Stop_Inr)
    case (1 sess)
    with inv show ?thesis by simp
  next
    case (2 sess)
    then show ?thesis by (intro media_inv_same[OF inv]) (simp_all add: keys del: map_map)
  next
    case (3 sess)
    from inv have "keys_ok (map stream_key (db_streams db)) (map session_key (db_sessions db)) (map job_key (db_jobs db))"
      by (simp add: media_inv_def)
    from keys_ok_insert_job[OF this prod.collapse[symmetric],
        of x "se_TenantID sess" jobStop "se_StreamID sess" "stop_payload sess"] 3(6)
    show ?thesis by (simp add: media_inv_def keys del: map_map)
  qed
qed

lemma Claim_inv: "media_inv db \<Longrightarrow> ok (\<lambda>(l, db'). media_inv db') (mpg_ClaimJob e x token now lease w db)"
proof (rule okI, clarify)
  fix l db' assume inv: "media_inv db" and c: "mpg_ClaimJob e x token now lease w db = Inr (l, db')"
  from c show "media_inv db'"
  proof (cases rule: Claim_Inr)
    case 1
    with inv show ?thesis by simp
  next
    case (2 row job t until)
    have "map stream_key (db_streams db') = map stream_key (db_streams db)" using 2(6) by simp
    moreover have "map job_key (db_jobs db') = map job_key (db_jobs db)" by (subst 2(5)) simp
    moreover have "db_sessions db' = db_sessions db" by (subst 2(5)) simp
    ultimately show ?thesis by (intro media_inv_same[OF inv]) simp_all
  qed
qed

lemma Revalidate_inv: "media_inv db \<Longrightarrow> ok (\<lambda>(l, db'). media_inv db') (mpg_RevalidateJob e x l db)"
proof (rule okI, clarify)
  fix a db' assume "media_inv db" and "mpg_RevalidateJob e x l db = Inr (a, db')"
  with Revalidate_Inr[of e x l db a db'] show "media_inv db'" by (auto simp: media_inv_def)
qed

lemma Finish_inv: "media_inv db \<Longrightarrow> ok (\<lambda>(l, db'). media_inv db') (mpg_FinishJob e x l r now db)"
proof (rule okI, clarify)
  fix a db' assume inv: "media_inv db" and "mpg_FinishJob e x l r now db = Inr (a, db')"
  from Finish_effect[OF this(2)] obtain code available y where
    f: "db_jobs db' = map (\<lambda>j. if jo_id j = fst (ParseInt64 (jb_ID l))
        then finish_row (jobStatus (jr_Status r)) available code j else j) (db_jobs db)"
      "db_streams db' = set_stream_state (jb_StreamID l) y (db_streams db)"
      "db_sessions db' \<in> {db_sessions db, end_pending (jb_StreamID l) SessionReady (sessionErrorCode (jr_ErrorCode r)) (db_sessions db),
       end_pending (jb_StreamID l) SessionFailed (sessionErrorCode (jr_ErrorCode r)) (db_sessions db),
       revoke_live (jb_StreamID l) (tx_clock x 7) (db_sessions db)}" by auto
  have "map session_key (db_sessions db') = map session_key (db_sessions db)" using f(3) by auto
  moreover have "map job_key (db_jobs db') = map job_key (db_jobs db)" unfolding f(1) by simp
  ultimately show "media_inv db'" using f(2) by (intro media_inv_same[OF inv]) simp_all
qed

lemma map_segments_keeps:
  "map_segments e x k ms db = Inr db' \<Longrightarrow>
     db_streams db' = db_streams db \<and> db_sessions db' = db_sessions db \<and> db_jobs db' = db_jobs db"
proof (induction ms arbitrary: k db)
  case (Cons m ms)
  from map_segments_Cons[OF Cons.prems] Cons.IH show ?case by fastforce
qed simp

lemma Segments_keeps:
  "ok (\<lambda>(l, db'). db_streams db' = db_streams db \<and> db_sessions db' = db_sessions db \<and> db_jobs db' = db_jobs db)
    (mpg_CreateSegmentMappings e x ms db)"
  unfolding mpg_CreateSegmentMappings_def
  by (intro ok_rules) (simp add: map_segments_keeps)

lemma Segments_inv: "media_inv db \<Longrightarrow> ok (\<lambda>(l, db'). media_inv db') (mpg_CreateSegmentMappings e x ms db)"
  by (rule okI) (use okD[OF Segments_keeps] in \<open>fastforce simp: media_inv_def\<close>)

subsection \<open>Runs\<close>

datatype media_call =
    McCreate tx "actor option" CreateSession
  | McStop tx "actor option" string time
  | McClaim tx "string option" time duration string
  | McRevalidate tx Lease
  | McFinish tx Lease JobResult time
  | McSegments tx "SegmentMapping list"

definition left_by :: "media_db \<Rightarrow> (media_error, 'a \<times> media_db) result \<Rightarrow> media_db" where
  "left_by db r = (case r of Inl _ \<Rightarrow> db | Inr (_, db') \<Rightarrow> db')"

fun media_step :: "media_env \<Rightarrow> media_db \<Rightarrow> media_call \<Rightarrow> media_db" where
  "media_step e db (McCreate x ctx i) = left_by db (mpg_CreatePlayback e x ctx i db)"
| "media_step e db (McStop x ctx i now) = left_by db (mpg_StopOwnedPlayback e x ctx i now db)"
| "media_step e db (McClaim x token now lease w) = left_by db (mpg_ClaimJob e x token now lease w db)"
| "media_step e db (McRevalidate x l) = left_by db (mpg_RevalidateJob e x l db)"
| "media_step e db (McFinish x l r now) = left_by db (mpg_FinishJob e x l r now db)"
| "media_step e db (McSegments x ms) = left_by db (mpg_CreateSegmentMappings e x ms db)"

lemma left_by_ok: "P db \<Longrightarrow> ok (\<lambda>(v, db'). P db') r \<Longrightarrow> P (left_by db r)"
  by (cases r) (auto simp: left_by_def)

lemma media_step_inv: "media_inv db \<Longrightarrow> media_inv (media_step e db c)"
  by (cases c) (simp_all add: left_by_ok Create_inv Stop_inv Claim_inv Revalidate_inv Finish_inv Segments_inv)

lemma media_run_inv: "media_inv db \<Longrightarrow> media_inv (foldl (media_step e) db cs)"
  by (induction cs arbitrary: db) (simp_all add: media_step_inv)

subsection \<open>A stop that is not queued\<close>

text \<open>
  \<open>lost_stop S db\<close>: the stream \<open>S\<close> is \<open>stopping\<close>, its stop job exists, and every job for it is
  over. A second stop of a stream whose jobs are over ends in this state: the stop job's
  idempotency key is the stream, so the second one is not inserted.
\<close>

definition over :: "job_row \<Rightarrow> bool" where
  "over j \<longleftrightarrow> jo_status j \<in> {''succeeded'', ''failed'', ''cancelled''}"

definition job_stream :: "job_row \<Rightarrow> string option" where
  "job_stream j = map_option jp_stream_id (jo_payload j)"

definition lost_stop :: "string \<Rightarrow> media_db \<Rightarrow> bool" where
  "lost_stop S db \<longleftrightarrow>
     (\<exists>st \<in> set (db_streams db). st_id st = S \<and> st_state st = ''stopping'' \<and>
        (\<exists>j \<in> set (db_jobs db). snd (job_key j) = (st_tenant_id st, jobStop, S))) \<and>
     (\<forall>j \<in> set (db_jobs db). job_stream j = Some S \<longrightarrow> over j)"

lemma lost_stopD:
  assumes "media_inv db" and "lost_stop S db" and "st \<in> set (db_streams db)" and "st_id st = S"
  shows "st_state st = ''stopping'' \<and> (\<exists>j \<in> set (db_jobs db). snd (job_key j) = (st_tenant_id st, jobStop, S))"
proof -
  from assms(2) obtain q where q: "q \<in> set (db_streams db)" "st_id q = S" "st_state q = ''stopping''"
    "\<exists>j \<in> set (db_jobs db). snd (job_key j) = (st_tenant_id q, jobStop, S)"
    by (auto simp: lost_stop_def)
  have "inj_on st_id (set (db_streams db))"
    using assms(1) by (simp add: media_inv_def keys_ok_def distinct_map stream_key_def comp_def)
  with q(1,2) assms(3,4) have "q = st" by (auto dest: inj_onD)
  with q show ?thesis by simp
qed

lemma lost_stop_mono:
  assumes "lost_stop S db"
    and "\<And>st. st \<in> set (db_streams db) \<Longrightarrow> st_id st = S \<Longrightarrow> st_state st = ''stopping'' \<Longrightarrow>
      \<exists>st' \<in> set (db_streams db'). stream_key st' = stream_key st \<and> st_state st' = ''stopping''"
    and "set (map job_key (db_jobs db)) \<subseteq> set (map job_key (db_jobs db'))"
    and "\<And>j. j \<in> set (db_jobs db') \<Longrightarrow> job_stream j = Some S \<Longrightarrow> j \<in> set (db_jobs db) \<or> over j"
  shows "lost_stop S db'"
proof -
  from assms(1) obtain st j where st: "st \<in> set (db_streams db)" "st_id st = S" "st_state st = ''stopping''"
    and j: "j \<in> set (db_jobs db)" "snd (job_key j) = (st_tenant_id st, jobStop, S)"
    by (auto simp: lost_stop_def)
  from assms(2)[OF st] obtain st' where st': "st' \<in> set (db_streams db')" "stream_key st' = stream_key st"
    "st_state st' = ''stopping''" by blast
  have "job_key j \<in> set (map job_key (db_jobs db'))" using assms(3) j(1) by auto
  then obtain j' where "j' \<in> set (db_jobs db')" "job_key j' = job_key j" by auto
  moreover have "st_id st' = S" "st_tenant_id st' = st_tenant_id st"
    using st'(2) st(2) by (simp_all add: stream_key_def)
  ultimately have "\<exists>st \<in> set (db_streams db'). st_id st = S \<and> st_state st = ''stopping'' \<and>
        (\<exists>j \<in> set (db_jobs db'). snd (job_key j) = (st_tenant_id st, jobStop, S))"
    using st'(1,3) j(2) by (intro bexI[of _ st'] conjI bexI[of _ j']) simp_all
  moreover have "\<forall>j \<in> set (db_jobs db'). job_stream j = Some S \<longrightarrow> over j"
    using assms(1,4) by (auto simp: lost_stop_def)
  ultimately show ?thesis by (simp add: lost_stop_def)
qed

lemma insert_job_jobs:
  "set (snd (insert_job x t k key p jobs)) \<subseteq> set jobs \<union> {j. job_stream j = Some (jp_stream_id p)}"
  "set jobs \<subseteq> set (snd (insert_job x t k key p jobs))"
  by (auto simp: insert_job_def job_stream_def)

lemma appended_jobs:
  "appended sid l l' \<Longrightarrow> set l \<subseteq> set l' \<and> set l' \<subseteq> set l \<union> {j. job_stream j = Some sid}"
proof (induction rule: appended.induct)
  case (step l l' p x t k key)
  with insert_job_jobs(1)[of x t k key p l'] insert_job_jobs(2)[of l' x t k key p] show ?case by blast
qed simp

lemma set_other_stream:
  "i \<noteq> S \<Longrightarrow> st \<in> set l \<Longrightarrow> st_id st = S \<Longrightarrow> st \<in> set (set_stream_state i y l)"
  by (force simp: set_stream_state_def)

lemma Create_lost:
  assumes "media_inv db" and "lost_stop S db"
  shows "ok (\<lambda>(s, db'). lost_stop S db') (mpg_CreatePlayback e x ctx i db)"
proof (rule okI, clarify)
  fix s db' assume c: "mpg_CreatePlayback e x ctx i db = Inr (s, db')"
  consider "db' = db" | db1 sid and st0 :: stream where
      "db1 = db \<or> (\<exists>st. new_stream st db \<and> db1 = db\<lparr>db_streams := db_streams db @ [st]\<rparr>)"
      "st0 \<in> set (db_streams db1)" "st_id st0 = sid" "st_state st0 \<noteq> ''stopping''"
      "db_streams db' \<in> {db_streams db1, set_stream_state sid ''pending'' (db_streams db1)}"
      "appended sid (db_jobs db) (db_jobs db')"
    using okD[OF Create_ok c] by (auto simp: stream_of_def)
  then show "lost_stop S db'"
  proof cases
    case 1
    with assms(2) show ?thesis by simp
  next
    case 2
    have sub: "set (db_streams db) \<subseteq> set (db_streams db1)" using 2(1) by auto
    have "sid \<noteq> S"
    proof
      assume "sid = S"
      then have "st0 \<in> set (db_streams db)"
        using 2(1-3) assms(2) by (auto simp: new_stream_def lost_stop_def)
      with lost_stopD[OF assms] 2(3,4) \<open>sid = S\<close> show False by blast
    qed
    then have keep: "st \<in> set (db_streams db')" if "st \<in> set (db_streams db)" "st_id st = S" for st
      using 2(5) sub that set_other_stream[OF \<open>sid \<noteq> S\<close>, of st "db_streams db1"] by auto
    note jobs = appended_jobs[OF 2(6)]
    show ?thesis
    proof (rule lost_stop_mono[OF assms(2)])
      show "set (map job_key (db_jobs db)) \<subseteq> set (map job_key (db_jobs db'))" using jobs by auto
      show "\<And>j. j \<in> set (db_jobs db') \<Longrightarrow> job_stream j = Some S \<Longrightarrow> j \<in> set (db_jobs db) \<or> over j"
        using jobs \<open>sid \<noteq> S\<close> by auto
      show "\<And>st. st \<in> set (db_streams db) \<Longrightarrow> st_id st = S \<Longrightarrow> st_state st = ''stopping'' \<Longrightarrow>
          \<exists>st' \<in> set (db_streams db'). stream_key st' = stream_key st \<and> st_state st' = ''stopping''"
        using keep by blast
    qed
  qed
qed

lemma stopping_kept:
  assumes "st \<in> set l" "st_state st = ''stopping''"
  shows "\<exists>st' \<in> set (set_stream_state i ''stopping'' l). stream_key st' = stream_key st \<and> st_state st' = ''stopping''"
    "i \<noteq> st_id st \<Longrightarrow> \<exists>st' \<in> set (set_stream_state i y l). stream_key st' = stream_key st \<and> st_state st' = ''stopping''"
    "st \<in> set (starting_stream i l)"
  using assms by (force simp: set_stream_state_def stream_key_def starting_stream_def)+

lemma Stop_lost:
  assumes inv: "media_inv db" and lost: "lost_stop S db"
  shows "ok (\<lambda>(s, db'). lost_stop S db') (mpg_StopOwnedPlayback e x ctx i now db)"
proof (rule okI, clarify)
  fix v db' assume "mpg_StopOwnedPlayback e x ctx i now db = Inr (v, db')"
  then show "lost_stop S db'"
  proof (cases rule: Stop_Inr)
    case (1 sess)
    with lost show ?thesis by simp
  next
    case (2 sess)
    with lost show ?thesis by (simp add: lost_stop_def)
  next
    case (3 sess)
    let ?jobs = "snd (insert_job x (se_TenantID sess) jobStop (se_StreamID sess) (stop_payload sess) (db_jobs db))"
    have jobs: "db_jobs db' = ?jobs" using 3(6) by simp
    have same: "?jobs = db_jobs db" if S: "se_StreamID sess = S"
    proof -
      have "(se_StreamID sess, se_CameraID sess, se_TenantID sess, se_SourceVersion sess) \<in> set (map stream_key (db_streams db))"
        using inv 3(1) by (force simp: media_inv_def keys_ok_def session_key_def)
      then obtain st :: stream where "st \<in> set (db_streams db)" "st_id st = S" "st_tenant_id st = se_TenantID sess"
        using S by (auto simp: stream_key_def)
      with lost_stopD[OF inv lost] have "list_ex (same_job (se_TenantID sess) jobStop S) (db_jobs db)"
        by (fastforce simp: list_ex_iff same_job_def job_key_def)
      with S show ?thesis by (simp add: insert_job_def)
    qed
    show ?thesis
    proof (rule lost_stop_mono[OF lost])
      show "set (map job_key (db_jobs db)) \<subseteq> set (map job_key (db_jobs db'))"
        using insert_job_jobs(2)[of "db_jobs db" x "se_TenantID sess" jobStop "se_StreamID sess" "stop_payload sess"]
        unfolding jobs by auto
      show "j \<in> set (db_jobs db) \<or> over j" if "j \<in> set (db_jobs db')" "job_stream j = Some S" for j
        using that same insert_job_jobs(1)[of x "se_TenantID sess" jobStop "se_StreamID sess" "stop_payload sess" "db_jobs db"]
        unfolding jobs by (cases "se_StreamID sess = S") (auto simp: stop_payload_def)
      show "\<exists>st' \<in> set (db_streams db'). stream_key st' = stream_key st \<and> st_state st' = ''stopping''"
        if "st \<in> set (db_streams db)" "st_state st = ''stopping''" for st
        using stopping_kept(1)[OF that] 3(6) by simp
    qed
  qed
qed

lemma next_due_mem: "next_due now jobs = Some j \<Longrightarrow> j \<in> set jobs \<and> due_job now j"
proof -
  assume "next_due now jobs = Some j"
  then obtain r where "sort_key (\<lambda>j. (jo_available_at j, jo_id j)) (filter (due_job now) jobs) = j # r"
    by (auto simp: next_due_def split: list.split_asm)
  then have "j \<in> set (sort_key (\<lambda>j. (jo_available_at j, jo_id j)) (filter (due_job now) jobs))" by simp
  then show ?thesis by simp
qed

lemma due_not_over: "due_job now j \<Longrightarrow> \<not> over j"
  by (auto simp: due_job_def over_def)

lemma decodeJob_stream: "decodeJob e i k raw n = Inr job \<Longrightarrow> map_option jp_stream_id raw = Some (jb_StreamID job)"
  by (auto simp: decodeJob_def iolink_simps split: if_split_asm)

lemma job_id_unique: "media_inv db \<Longrightarrow> j \<in> set (db_jobs db) \<Longrightarrow> k \<in> set (db_jobs db) \<Longrightarrow> jo_id j = jo_id k \<Longrightarrow> j = k"
proof -
  assume "media_inv db"
  then have "inj_on jo_id (set (db_jobs db))"
    by (simp add: media_inv_def keys_ok_def distinct_map job_key_def comp_def)
  then show "j \<in> set (db_jobs db) \<Longrightarrow> k \<in> set (db_jobs db) \<Longrightarrow> jo_id j = jo_id k \<Longrightarrow> j = k"
    by (auto dest: inj_onD)
qed

text \<open>A job of another stream changes.\<close>

lemma lost_stop_job_update:
  assumes inv: "media_inv db" and lost: "lost_stop S db"
    and row: "row \<in> set (db_jobs db)" "job_stream row = Some i" "\<not> over row"
    and f: "\<And>j. job_key (f j) = job_key j" "\<And>j. job_stream (f j) = job_stream j"
    and jobs: "db_jobs db' = map (\<lambda>j. if jo_id j = jo_id row then f j else j) (db_jobs db)"
    and streams: "\<And>st. i \<noteq> S \<Longrightarrow> st \<in> set (db_streams db) \<Longrightarrow> st_id st = S \<Longrightarrow> st_state st = ''stopping'' \<Longrightarrow>
      \<exists>st' \<in> set (db_streams db'). stream_key st' = stream_key st \<and> st_state st' = ''stopping''"
  shows "lost_stop S db'"
proof -
  have i: "i \<noteq> S" using row lost by (auto simp: lost_stop_def)
  show ?thesis
  proof (rule lost_stop_mono[OF lost])
    show "set (map job_key (db_jobs db)) \<subseteq> set (map job_key (db_jobs db'))"
    proof -
      have "map job_key (db_jobs db') = map job_key (db_jobs db)" unfolding jobs by (simp add: f(1))
      then show ?thesis by simp
    qed
    show "j \<in> set (db_jobs db) \<or> over j" if "j \<in> set (db_jobs db')" "job_stream j = Some S" for j
    proof -
      from that(1) jobs obtain k where k: "k \<in> set (db_jobs db)" "j = (if jo_id k = jo_id row then f k else k)" by auto
      have "jo_id k \<noteq> jo_id row"
      proof
        assume eq: "jo_id k = jo_id row"
        then have "k = row" using job_id_unique[OF inv k(1) row(1)] by simp
        with k(2) eq f(2) row(2) that(2) i show False by simp
      qed
      with k show ?thesis by simp
    qed
  qed (use streams i in blast)
qed

lemma Claim_lost:
  assumes inv: "media_inv db" and lost: "lost_stop S db"
  shows "ok (\<lambda>(l, db'). lost_stop S db' \<and>
      (\<forall>lease. l = Some lease \<longrightarrow> jb_StreamID lease \<noteq> S)) (mpg_ClaimJob e x token now lease w db)"
proof (rule okI, clarify)
  fix l db' assume "mpg_ClaimJob e x token now lease w db = Inr (l, db')"
  then show "lost_stop S db' \<and> (\<forall>lease. l = Some lease \<longrightarrow> jb_StreamID lease \<noteq> S)"
  proof (cases rule: Claim_Inr)
    case 1
    with lost show ?thesis by simp
  next
    case (2 row job t until)
    have row: "row \<in> set (db_jobs db)" "job_stream row = Some (jb_StreamID job)" "\<not> over row"
      using next_due_mem[OF 2(1)] due_not_over decodeJob_stream[OF 2(2)] by (auto simp: job_stream_def)
    have "jb_StreamID job \<noteq> S" using row lost by (auto simp: lost_stop_def)
    moreover have "lost_stop S db'"
    proof (rule lost_stop_job_update[OF inv lost row])
      show "db_jobs db' = map (\<lambda>j. if jo_id j = jo_id row then lease_row (w @ '':'' @ t) until j else j) (db_jobs db)"
        by (subst 2(5)) simp
      show "\<exists>st' \<in> set (db_streams db'). stream_key st' = stream_key st \<and> st_state st' = ''stopping''"
        if "st \<in> set (db_streams db)" "st_state st = ''stopping''" for st
        using stopping_kept(3)[OF that] that unfolding 2(6) by auto
    qed (simp_all add: job_stream_def lease_row_def job_key_def)
    ultimately show ?thesis using 2(4) by simp
  qed
qed

lemma Revalidate_lost:
  "lost_stop S db \<Longrightarrow> ok (\<lambda>(l, db'). lost_stop S db') (mpg_RevalidateJob e x l db)"
proof (rule okI, clarify)
  fix a db' assume lost: "lost_stop S db" and r: "mpg_RevalidateJob e x l db = Inr (a, db')"
  from Revalidate_Inr[OF r] consider "db' = db"
    | "db' = db\<lparr>db_streams := set_stream_state (jb_StreamID l) ''stopping'' (db_streams db)\<rparr>" by blast
  then show "lost_stop S db'"
  proof cases
    case 1
    with lost show ?thesis by simp
  next
    case 2
    show ?thesis
    proof (rule lost_stop_mono[OF lost])
      show "\<exists>st' \<in> set (db_streams db'). stream_key st' = stream_key st \<and> st_state st' = ''stopping''"
        if "st \<in> set (db_streams db)" "st_state st = ''stopping''" for st
        using stopping_kept(1)[OF that] 2 by simp
    qed (simp_all add: 2)
  qed
qed

lemma leased_not_over: "leased_row i owner now j \<Longrightarrow> \<not> over j"
  by (auto simp: leased_row_def over_def)

lemma Finish_lost:
  assumes inv: "media_inv db" and lost: "lost_stop S db"
  shows "ok (\<lambda>(l, db'). lost_stop S db') (mpg_FinishJob e x l r now db)"
proof (rule okI, clarify)
  fix a db' assume "mpg_FinishJob e x l r now db = Inr (a, db')"
  from Finish_effect[OF this] obtain row :: job_row and code available y p where
    f: "find (leased_row (fst (ParseInt64 (jb_ID l))) (le_LeaseToken l) (tx_clock x 1)) (db_jobs db) = Some row"
      "db_jobs db' = map (\<lambda>j. if jo_id j = fst (ParseInt64 (jb_ID l))
        then finish_row (jobStatus (jr_Status r)) available code j else j) (db_jobs db)"
      "jo_payload row = Some p" "jp_stream_id p = jb_StreamID l"
      "db_streams db' = set_stream_state (jb_StreamID l) y (db_streams db)" by blast
  have id: "jo_id row = fst (ParseInt64 (jb_ID l))" and row: "row \<in> set (db_jobs db)" "\<not> over row"
    using find_mem[OF f(1)] leased_not_over by (auto simp: leased_row_def)
  show "lost_stop S db'"
  proof (rule lost_stop_job_update[OF inv lost row(1) _ row(2)])
    show "job_stream row = Some (jb_StreamID l)" using f(3,4) by (simp add: job_stream_def)
    show "db_jobs db' = map (\<lambda>j. if jo_id j = jo_id row then finish_row (jobStatus (jr_Status r)) available code j else j)
        (db_jobs db)" using f(2) id by simp
    show "job_key (finish_row (jobStatus (jr_Status r)) available code j) = job_key j" for j by simp
    show "job_stream (finish_row (jobStatus (jr_Status r)) available code j) = job_stream j" for j
      by (cases "jo_payload j") (simp_all add: job_stream_def finish_row_def)
    show "\<exists>st' \<in> set (db_streams db'). stream_key st' = stream_key st \<and> st_state st' = ''stopping''"
      if "jb_StreamID l \<noteq> S" "st \<in> set (db_streams db)" "st_id st = S" "st_state st = ''stopping''" for st
      using stopping_kept(2)[OF that(2,4), of "jb_StreamID l" y] that(1,3) f(5) by simp
  qed
qed

lemma Segments_lost:
  "lost_stop S db \<Longrightarrow> ok (\<lambda>(l, db'). lost_stop S db') (mpg_CreateSegmentMappings e x ms db)"
  by (rule okI) (use okD[OF Segments_keeps] in \<open>fastforce simp: lost_stop_def\<close>)

lemma Claim_lost_state:
  "media_inv db \<Longrightarrow> lost_stop S db \<Longrightarrow> ok (\<lambda>(l, db'). lost_stop S db') (mpg_ClaimJob e x token now lease w db)"
  by (rule okI) (use okD[OF Claim_lost] in fastforce)

lemma media_step_lost: "media_inv db \<Longrightarrow> lost_stop S db \<Longrightarrow> lost_stop S (media_step e db c)"
  by (cases c)
    (simp_all add: left_by_ok Create_lost Stop_lost Claim_lost_state Revalidate_lost Finish_lost Segments_lost)

lemma media_run_lost: "media_inv db \<Longrightarrow> lost_stop S db \<Longrightarrow> lost_stop S (foldl (media_step e) db cs)"
  by (induction cs arbitrary: db) (simp_all add: media_step_inv media_step_lost)

subsection \<open>Properties\<close>

text \<open>The second stop of a stream whose jobs are all over queues nothing and loses the stop.\<close>

lemma second_stop_lost:
  assumes inv: "media_inv db" and stop: "mpg_StopOwnedPlayback e x ctx i now db = Inr (v, db1)"
    and sess: "sess \<in> set (db_sessions db)" "se_ID sess = i" "live_state (se_State sess)"
    and last': "active_sessions db1 (tx_clock x 5) (se_StreamID sess) = []"
    and first: "j \<in> set (db_jobs db)" "(jo_tenant_id j, jo_kind j, jo_key j) = (se_TenantID sess, jobStop, se_StreamID sess)"
    and quiet: "\<forall>j \<in> set (db_jobs db). job_stream j = Some (se_StreamID sess) \<longrightarrow> over j"
  shows "db_jobs db1 = db_jobs db \<and> lost_stop (se_StreamID sess) db1"
proof -
  have same: "r = sess" if "r \<in> set (db_sessions db)" "se_ID r = i" for r
    using inv that sess by (auto simp: media_inv_def keys_ok_def distinct_map session_key_def comp_def inj_on_def)
  from stop show ?thesis
  proof (cases rule: Stop_Inr)
    case (1 r)
    then show ?thesis using same sess(3) by blast
  next
    case (2 r)
    then show ?thesis using same[OF 2(1,2)] last' by simp
  next
    case (3 r)
    have r: "r = sess" by (rule same[OF 3(1,2)])
    have jobs: "snd (insert_job x (se_TenantID sess) jobStop (se_StreamID sess) (stop_payload sess) (db_jobs db)) = db_jobs db"
      using first by (auto simp: insert_job_def list_ex_iff same_job_def)
    have "(se_StreamID sess, se_CameraID sess, se_TenantID sess, se_SourceVersion sess) \<in> set (map stream_key (db_streams db))"
      using inv sess(1) by (force simp: media_inv_def keys_ok_def session_key_def)
    then obtain st :: stream where st: "st \<in> set (db_streams db)" "st_id st = se_StreamID sess" "st_tenant_id st = se_TenantID sess"
      by (auto simp: stream_key_def)
    then have "st\<lparr>st_state := ''stopping''\<rparr> \<in> set (db_streams db1)"
      unfolding 3(6) r by (auto simp: set_stream_state_def image_iff intro!: bexI[of _ st])
    moreover have "db_jobs db1 = db_jobs db" unfolding 3(6) r jobs by simp
    ultimately show ?thesis
      using st first quiet unfolding lost_stop_def
      by (intro conjI bexI[of _ "st\<lparr>st_state := ''stopping''\<rparr>"] bexI[of _ j]) (simp_all add: job_key_def)
  qed
qed

text \<open>C16: The last viewer of a stream stops it; the stream has been stopped before, its stop job is in the
queue for good, and every job of the stream is over. Then the second stop queues nothing, and from then on,
whatever calls are made, the stream stays \<open>stopping\<close>, no job for it is ever leased, and every new playback of
its camera at that source version is refused.\<close>

theorem lost_stop_forever:
  assumes "media_inv db" and "mpg_StopOwnedPlayback e x ctx i now db = Inr (v, db1)"
    and "sess \<in> set (db_sessions db)" and "se_ID sess = i" and "live_state (se_State sess)"
    and "active_sessions db1 (tx_clock x 5) (se_StreamID sess) = []"
    and "j \<in> set (db_jobs db)" and "(jo_tenant_id j, jo_kind j, jo_key j) = (se_TenantID sess, jobStop, se_StreamID sess)"
    and "\<forall>j \<in> set (db_jobs db). job_stream j = Some (se_StreamID sess) \<longrightarrow> over j"
    and run: "db' = foldl (media_step e) db1 cs" "st \<in> set (db_streams db')" "st_id st = se_StreamID sess"
  shows "db_jobs db1 = db_jobs db \<and> st_state st = ''stopping'' \<and>
    (\<forall>x token now lease w l db''. mpg_ClaimJob e x token now lease w db' = Inr (Some l, db'') \<longrightarrow>
       jb_StreamID l \<noteq> se_StreamID sess) \<and>
    (\<forall>x ctx i. se_CameraID (cs_Session i) = st_camera_id st \<longrightarrow>
       se_SourceVersion (cs_Session i) = st_source_version st \<longrightarrow>
       (\<forall>r \<in> set (db_sessions db'). se_ID r \<noteq> se_ID (cs_Session i)) \<longrightarrow>
       (\<exists>err. mpg_CreatePlayback e x ctx i db' = Inl err))"
proof -
  have second: "db_jobs db1 = db_jobs db" "lost_stop (se_StreamID sess) db1"
    using second_stop_lost[OF assms(1-9)] by simp_all
  have inv1: "media_inv db1" using okD[OF Stop_inv[OF assms(1)] assms(2)] by simp
  have inv: "media_inv db'" unfolding run(1) by (rule media_run_inv[OF inv1])
  have lost: "lost_stop (se_StreamID sess) db'" unfolding run(1) by (rule media_run_lost[OF inv1 second(2)])
  have stuck: "st_state st = ''stopping''" using lost_stopD[OF inv lost run(2,3)] by simp
  have "\<exists>err. mpg_CreatePlayback e x ctx i db' = Inl err"
    if i: "se_CameraID (cs_Session i) = st_camera_id st" "se_SourceVersion (cs_Session i) = st_source_version st"
      "\<forall>r \<in> set (db_sessions db'). se_ID r \<noteq> se_ID (cs_Session i)" for x ctx i
  proof (cases "mpg_CreatePlayback e x ctx i db'")
    case (Inr r)
    obtain s d where r: "r = (s, d)" by fastforce
    from okD[OF Create_ok Inr[unfolded r]] i(3) obtain db1 sid and q :: stream where
      q: "db1 = db' \<or> (\<exists>st. new_stream st db' \<and> db1 = db'\<lparr>db_streams := db_streams db' @ [st]\<rparr>)"
        "q \<in> set (db_streams db1)" "stream_of (cs_Session i) sid q" "st_state q \<noteq> ''stopping''" by auto
    have cv: "(st_camera_id q, st_source_version q) = (st_camera_id st, st_source_version st)"
      using q(3) i(1,2) by (simp add: stream_of_def)
    have "q \<in> set (db_streams db')" using q(1,2) cv run(2) by (fastforce simp: new_stream_def)
    moreover have "inj_on (\<lambda>st. (st_camera_id st, st_source_version st)) (set (db_streams db'))"
      using inv by (simp add: media_inv_def keys_ok_def distinct_map stream_key_def comp_def)
    ultimately have "q = st" using cv run(2) by (auto dest: inj_onD)
    with q(4) stuck show ?thesis by simp
  qed simp
  moreover have "jb_StreamID l \<noteq> se_StreamID sess" if "mpg_ClaimJob e x token now lease w db' = Inr (Some l, db'')" for x token now lease w l db''
    using okD[OF Claim_lost[OF inv lost] that] by simp
  ultimately show ?thesis using stuck second(1) by blast
qed

text \<open>when a start job succeeds, the sessions that were waiting for it become ready - and are
given the error code \<open>provider_unavailable\<close>: the empty code of a success is mapped to it before
\<open>NULLIF\<close> could leave the column empty.\<close>

theorem ready_sessions_get_error_code:
  assumes "mpg_FinishJob e x l r now db = Inr (v, db')" and "jr_Status r = JobReady" and "jr_ErrorCode r = []"
    and "s \<in> set (db_sessions db)" and "se_StreamID s = jb_StreamID l" and "se_State s = SessionPending"
  shows "\<exists>s' \<in> set (db_sessions db'). se_ID s' = se_ID s \<and> se_State s' = SessionReady \<and>
    se_ErrorCode s' = ''provider_unavailable''"
  using assms(1)
proof (cases rule: Finish_Inr)
  case (1 row job active)
  from 1(8) assms(2,3) have "db_sessions db' = end_pending (jb_StreamID job) SessionReady ''provider_unavailable'' (db_sessions db)"
    by (auto simp: finishStreamAndSessions_def finish_states_def iolink_simps Let_def sessionErrorCode_def)
  with 1(4) assms(4-6) have "s\<lparr>se_State := SessionReady, se_ErrorCode := ''provider_unavailable''\<rparr> \<in> set (db_sessions db')"
    by (force simp: end_pending_def)
  then show ?thesis by (intro bexI[of _ "s\<lparr>se_State := SessionReady, se_ErrorCode := ''provider_unavailable''\<rparr>"]) simp_all
qed

end
