(* ===== verification/Job_Lease.thy ===== *)
theory Job_Lease
  imports Media_Run
begin

text \<open>
  The lease contract of a media job queue: what a worker that holds a lease may rely on. Both
  queues, the one in memory and the one in the database, satisfy it.
\<close>

datatype ('c, 'f) queue_call = QClaim 'c | QFinish 'f Lease

datatype queue_event = QGranted Lease | QFinished Lease | QNothing

fun queue_step ::
  "('c \<Rightarrow> 's \<Rightarrow> (media_error, Lease option \<times> 's) result) \<Rightarrow> ('f \<Rightarrow> Lease \<Rightarrow> 's \<Rightarrow> (media_error, 's) result) \<Rightarrow>
   's \<Rightarrow> ('c, 'f) queue_call \<Rightarrow> queue_event \<times> 's" where
  "queue_step claim finish s (QClaim c) =
     (case claim c s of Inr (Some l, s') \<Rightarrow> (QGranted l, s') | _ \<Rightarrow> (QNothing, s))"
| "queue_step claim finish s (QFinish f l) =
     (case finish f l s of Inr s' \<Rightarrow> (QFinished l, s') | Inl _ \<Rightarrow> (QNothing, s))"

fun queue_run ::
  "('c \<Rightarrow> 's \<Rightarrow> (media_error, Lease option \<times> 's) result) \<Rightarrow> ('f \<Rightarrow> Lease \<Rightarrow> 's \<Rightarrow> (media_error, 's) result) \<Rightarrow>
   's \<Rightarrow> ('c, 'f) queue_call list \<Rightarrow> queue_event list \<times> 's" where
  "queue_run claim finish s [] = ([], s)"
| "queue_run claim finish s (c # cs) =
     (let (ev, s') = queue_step claim finish s c; (es, s'') = queue_run claim finish s' cs in (ev # es, s''))"

text \<open>An event of the job with a key, and the events that do not reuse a token.\<close>

fun event_of :: "(string \<Rightarrow> 'k) \<Rightarrow> 'k \<Rightarrow> queue_event \<Rightarrow> bool" where
  "event_of key k (QGranted l) = (key (jb_ID l) = k)"
| "event_of key k (QFinished l) = (key (jb_ID l) = k)"
| "event_of key k QNothing = False"

fun other_token :: "string \<Rightarrow> queue_event \<Rightarrow> bool" where
  "other_token t (QGranted l) = (le_LeaseToken l \<noteq> t)"
| "other_token t _ = True"

locale leased_queue =
  fixes claim :: "'c \<Rightarrow> 's \<Rightarrow> (media_error, Lease option \<times> 's) result"
    and finish :: "'f \<Rightarrow> Lease \<Rightarrow> 's \<Rightarrow> (media_error, 's) result"
    and holder :: "'s \<Rightarrow> 'k \<Rightarrow> string option"
    and key :: "string \<Rightarrow> 'k"
    and inv :: "'s \<Rightarrow> bool"
  assumes claim_inv: "inv s \<Longrightarrow> claim c s = Inr (l, s') \<Longrightarrow> inv s'"
    and finish_inv: "inv s \<Longrightarrow> finish f x s = Inr s' \<Longrightarrow> inv s'"
    and claim_grants: "inv s \<Longrightarrow> claim c s = Inr (Some x, s') \<Longrightarrow>
      holder s' = (holder s)(key (jb_ID x) := Some (le_LeaseToken x))"
    and finish_held: "inv s \<Longrightarrow> finish f x s = Inr s' \<Longrightarrow> holder s (key (jb_ID x)) = Some (le_LeaseToken x)"
    and finish_frees: "inv s \<Longrightarrow> finish f x s = Inr s' \<Longrightarrow> holder s' = (holder s)(key (jb_ID x) := None)"
begin

lemma step_inv: "inv s \<Longrightarrow> queue_step claim finish s c = (ev, s') \<Longrightarrow> inv s'"
  by (cases c) (auto split: sum.splits option.splits prod.splits intro: claim_inv finish_inv)

text \<open>A key that is not held under a token is so only again by a grant of that token.\<close>

lemma step_not_held:
  assumes "inv s" and "queue_step claim finish s c = (ev, s')" and "other_token t ev"
    and "holder s k \<noteq> Some t \<or> event_of key k ev"
  shows "holder s' k \<noteq> Some t"
proof (cases c)
  case (QClaim c)
  with assms(2) consider "ev = QNothing" "s' = s" | l where "ev = QGranted l" "claim c s = Inr (Some l, s')"
    by (auto split: sum.splits option.splits prod.splits)
  then show ?thesis
    using assms(3,4) claim_grants[OF assms(1)] by cases auto
next
  case (QFinish f l)
  with assms(2) consider "ev = QNothing" "s' = s" | "ev = QFinished l" "finish f l s = Inr s'"
    by (auto split: sum.splits)
  then show ?thesis
    using assms(4) finish_frees[OF assms(1)] by cases auto
qed

lemma run_not_held:
  "inv s \<Longrightarrow> queue_run claim finish s cs = (es, s') \<Longrightarrow> list_all (other_token t) es \<Longrightarrow>
   holder s k \<noteq> Some t \<or> list_ex (event_of key k) es \<Longrightarrow> holder s' k \<noteq> Some t"
proof (induction cs arbitrary: s es)
  case (Cons c cs)
  from Cons.prems(2) obtain ev s1 es' where
    *: "queue_step claim finish s c = (ev, s1)" "queue_run claim finish s1 cs = (es', s')" "es = ev # es'"
    by (auto split: prod.splits)
  have o: "other_token t ev" "list_all (other_token t) es'" using Cons.prems(3) *(3) by simp_all
  show ?case
  proof (cases "holder s k \<noteq> Some t \<or> event_of key k ev")
    case True
    from Cons.IH[OF step_inv[OF Cons.prems(1) *(1)] *(2) o(2)] step_not_held[OF Cons.prems(1) *(1) o(1) True]
    show ?thesis by blast
  next
    case False
    with Cons.prems(4) *(3) have "list_ex (event_of key k) es'" by auto
    with Cons.IH[OF step_inv[OF Cons.prems(1) *(1)] *(2) o(2)] show ?thesis by blast
  qed
qed simp

text \<open>
  A worker that finishes the job it claimed has had it to itself: in between the job was neither
  given to another worker nor finished.
\<close>

lemma exclusive:
  assumes "inv s" and "claim c s = Inr (Some l, s1)"
    and "queue_run claim finish s1 cs = (es, s2)" and "list_all (other_token (le_LeaseToken l)) es"
    and "finish f l s2 = Inr s3"
  shows "\<not> list_ex (event_of key (key (jb_ID l))) es"
proof
  assume "list_ex (event_of key (key (jb_ID l))) es"
  with run_not_held[OF claim_inv[OF assms(1,2)] assms(3,4)] have "holder s2 (key (jb_ID l)) \<noteq> Some (le_LeaseToken l)"
    by blast
  moreover have "inv s2"
    using assms(3) claim_inv[OF assms(1,2)]
  proof (induction cs arbitrary: s1 es)
    case (Cons c cs)
    then show ?case by (auto split: prod.splits dest: step_inv)
  qed simp
  ultimately show False using finish_held[OF _ assms(5)] by blast
qed

end

subsection \<open>The queue in memory\<close>

definition mem_claim ::
  "media_error option \<times> time \<times> (media_error, string) result \<times> time \<times> duration \<times> string \<Rightarrow> job_store \<Rightarrow>
   (media_error, Lease option \<times> job_store) result" where
  "mem_claim = (\<lambda>(ctx, clock, token, now, lease, w) s.
     case ClaimJob ctx clock token now lease w s of (Inl e, _) \<Rightarrow> Inl e | (Inr l, s') \<Rightarrow> Inr (l, s'))"

definition mem_finish ::
  "media_error option \<times> time \<times> JobResult \<times> time \<Rightarrow> Lease \<Rightarrow> job_store \<Rightarrow> (media_error, job_store) result" where
  "mem_finish = (\<lambda>(ctx, clock, r, now) l s.
     case FinishJob ctx clock l r now s of (Some e, _) \<Rightarrow> Inl e | (None, s') \<Rightarrow> Inr s')"

definition mem_holder :: "job_store \<Rightarrow> string \<Rightarrow> string option" where
  "mem_holder s i = (case map_of s i of
      Some j \<Rightarrow> if en_status j = ''running'' then Some (en_leaseToken j) else None | None \<Rightarrow> None)"

interpretation mq: leased_queue mem_claim mem_finish mem_holder "\<lambda>i. i" jobs_ok
proof
  fix s s' :: job_store and l :: "Lease option" and x :: Lease
    and c :: "media_error option \<times> time \<times> (media_error, string) result \<times> time \<times> duration \<times> string"
    and f :: "media_error option \<times> time \<times> JobResult \<times> time"
  assume ok: "jobs_ok s"
  obtain ctx clock token now lease w where c: "c = (ctx, clock, token, now, lease, w)" by (metis prod_cases6)
  obtain ctx' clock' r now' where f: "f = (ctx', clock', r, now')" by (metis prod_cases4)
  show "jobs_ok s'" if "mem_claim c s = Inr (l, s')"
  proof -
    have "job_step s (JcClaim ctx clock token now lease w) = (JeClaimed (Inr l), s')"
      using that by (auto simp: mem_claim_def c split: prod.splits sum.splits)
    from job_step_count[OF ok this] show ?thesis by simp
  qed
  show "jobs_ok s'" if "mem_finish f x s = Inr s'"
  proof -
    have "job_step s (JcFinish ctx' clock' x r now') = (JeFinished x None, s')"
      using that by (auto simp: mem_finish_def f split: prod.splits option.splits)
    from job_step_count[OF ok this] show ?thesis by simp
  qed
  show "mem_holder s' = (mem_holder s)(jb_ID x := Some (le_LeaseToken x))" if "mem_claim c s = Inr (Some x, s')"
    using that
    by (cases rule: ClaimJob_cases[of ctx clock token now lease w s])
      (auto simp: mem_claim_def c fun_eq_iff mem_holder_def claimed_def first_due_def entry_ok_def dest: jobs_okD[OF ok])
  show "mem_holder s (jb_ID x) = Some (le_LeaseToken x)" if "mem_finish f x s = Inr s'"
    using that
    by (cases rule: FinishJob_cases[of ctx' clock' x r now' s])
      (auto simp: mem_finish_def f mem_holder_def leaseMatches_def)
  show "mem_holder s' = (mem_holder s)(jb_ID x := None)" if "mem_finish f x s = Inr s'"
    using that
    by (cases rule: FinishJob_cases[of ctx' clock' x r now' s])
      (auto simp: mem_finish_def f fun_eq_iff mem_holder_def finished_def resultState_not_running)
qed

subsection \<open>The queue in the database\<close>

definition pg_claim ::
  "media_env \<times> tx \<times> string option \<times> time \<times> duration \<times> string \<Rightarrow> media_db \<Rightarrow>
   (media_error, Lease option \<times> media_db) result" where
  "pg_claim = (\<lambda>(e, x, token, now, lease, w). mpg_ClaimJob e x token now lease w)"

definition pg_finish ::
  "media_env \<times> tx \<times> JobResult \<times> time \<Rightarrow> Lease \<Rightarrow> media_db \<Rightarrow> (media_error, media_db) result" where
  "pg_finish = (\<lambda>(e, x, r, now) l db. after (mpg_FinishJob e x l r now db) (\<lambda>(_, db'). Inr db'))"

definition pg_holder :: "media_db \<Rightarrow> int \<Rightarrow> string option" where
  "pg_holder db i = (case find (\<lambda>j. jo_id j = i) (db_jobs db) of
      Some j \<Rightarrow> if jo_status j = ''running'' then jo_lease_owner j else None | None \<Rightarrow> None)"

definition job_number :: "string \<Rightarrow> int" where
  "job_number i = fst (ParseInt64 i)"

definition pg_queue_inv :: "media_db \<Rightarrow> bool" where
  "pg_queue_inv db \<longleftrightarrow> media_inv db \<and> (\<forall>j \<in> set (db_jobs db). jo_id j < 2 ^ 63)"

lemma find_map_same:
  "(\<And>j. jo_id (f j) = jo_id j) \<Longrightarrow>
   find (\<lambda>j. jo_id j = i) (map f l) = map_option f (find (\<lambda>j. jo_id j = i) l)"
  by (induction l) auto

lemma find_id:
  "media_inv db \<Longrightarrow> j \<in> set (db_jobs db) \<Longrightarrow> find (\<lambda>k. jo_id k = jo_id j) (db_jobs db) = Some j"
proof -
  assume inv: "media_inv db" and j: "j \<in> set (db_jobs db)"
  then obtain k where k: "find (\<lambda>k. jo_id k = jo_id j) (db_jobs db) = Some k"
    by (cases "find (\<lambda>k. jo_id k = jo_id j) (db_jobs db)") (auto simp: find_None_iff)
  with job_id_unique[OF inv _ j, of k] find_mem[OF k] show ?thesis by auto
qed

lemma pg_holder_update:
  assumes "db_jobs db' = map (\<lambda>j. if jo_id j = i then f j else j) (db_jobs db)"
    and "\<And>j. jo_id (f j) = jo_id j" and "find (\<lambda>j. jo_id j = i) (db_jobs db) = Some row"
  shows "pg_holder db' = (pg_holder db)(i := if jo_status (f row) = ''running'' then jo_lease_owner (f row) else None)"
proof
  fix k
  have "find (\<lambda>j. jo_id j = k) (db_jobs db') =
      map_option (\<lambda>j. if jo_id j = i then f j else j) (find (\<lambda>j. jo_id j = k) (db_jobs db))"
    unfolding assms(1) by (rule find_map_same) (simp add: assms(2))
  then have f: "find (\<lambda>j. jo_id j = k) (db_jobs db') =
      map_option (if k = i then f else (\<lambda>j. j)) (find (\<lambda>j. jo_id j = k) (db_jobs db))"
    by (cases "find (\<lambda>j. jo_id j = k) (db_jobs db)") (auto dest!: find_mem)
  show "pg_holder db' k = ((pg_holder db)(i := if jo_status (f row) = ''running''
      then jo_lease_owner (f row) else None)) k"
  proof (cases "k = i")
    case True
    with f assms(3) show ?thesis by (simp add: pg_holder_def)
  next
    case False
    with f show ?thesis
      by (cases "find (\<lambda>j. jo_id j = k) (db_jobs db)") (simp_all add: pg_holder_def)
  qed
qed

lemma job_number_text: "pg_queue_inv db \<Longrightarrow> j \<in> set (db_jobs db) \<Longrightarrow> job_number (FormatInt (jo_id j)) = jo_id j"
proof -
  assume "pg_queue_inv db" "j \<in> set (db_jobs db)"
  then have "0 < jo_id j" "jo_id j < 2 ^ 63"
    by (auto simp: pg_queue_inv_def media_inv_def keys_ok_def job_key_def)
  then show ?thesis by (simp add: job_number_def ParseInt_FormatInt)
qed

lemma pg_claim_grants:
  assumes ok: "pg_queue_inv db" and c: "mpg_ClaimJob e x token now lease w db = Inr (Some l, db')"
  shows "pg_holder db' = (pg_holder db)(job_number (jb_ID l) := Some (le_LeaseToken l)) \<and> pg_queue_inv db'"
  using c
proof (cases rule: Claim_Inr)
  case (2 row job t until)
  have row: "row \<in> set (db_jobs db)" using next_due_mem[OF 2(1)] by simp
  have jobs: "db_jobs db' = map (\<lambda>j. if jo_id j = jo_id row then lease_row (w @ '':'' @ t) until j else j) (db_jobs db)"
    by (subst 2(5)) simp
  have inv: "media_inv db" using ok by (simp add: pg_queue_inv_def)
  have "jb_ID job = FormatInt (jo_id row)"
    using 2(2) by (auto simp: decodeJob_def iolink_simps split: if_split_asm)
  then have l: "job_number (jb_ID l) = jo_id row" "le_LeaseToken l = w @ '':'' @ t"
    using 2(4) job_number_text[OF ok row] by simp_all
  have ids: "\<forall>j \<in> set (db_jobs db'). jo_id j < 2 ^ 63"
    using ok unfolding jobs by (auto simp: pg_queue_inv_def lease_row_def)
  have "media_inv db'" using okD[OF Claim_inv[OF inv] c] by simp
  with ids pg_holder_update[OF jobs _ find_id[OF inv row]] l show ?thesis
    by (simp add: lease_row_def pg_queue_inv_def)
qed simp

lemma pg_finish_effect:
  assumes ok: "pg_queue_inv db" and c: "mpg_FinishJob e x l r now db = Inr (v, db')"
  shows "pg_holder db (job_number (jb_ID l)) = Some (le_LeaseToken l) \<and>
    pg_holder db' = (pg_holder db)(job_number (jb_ID l) := None) \<and> pg_queue_inv db'"
proof -
  from Finish_effect[OF c] obtain row :: job_row and code available where
    f: "find (leased_row (job_number (jb_ID l)) (le_LeaseToken l) (tx_clock x 1)) (db_jobs db) = Some row"
      "db_jobs db' = map (\<lambda>j. if jo_id j = job_number (jb_ID l)
        then finish_row (jobStatus (jr_Status r)) available code j else j) (db_jobs db)"
    unfolding job_number_def by blast
  have inv: "media_inv db" using ok by (simp add: pg_queue_inv_def)
  have row: "row \<in> set (db_jobs db)" "jo_id row = job_number (jb_ID l)" "jo_status row = ''running''"
    "jo_lease_owner row = Some (le_LeaseToken l)"
    using find_mem[OF f(1)] by (auto simp: leased_row_def)
  have id: "find (\<lambda>j. jo_id j = job_number (jb_ID l)) (db_jobs db) = Some row"
    using find_id[OF inv row(1)] row(2) by simp
  have ids: "\<forall>j \<in> set (db_jobs db'). jo_id j < 2 ^ 63"
    using ok unfolding f(2) by (auto simp: pg_queue_inv_def finish_row_def)
  have "media_inv db'" using okD[OF Finish_inv[OF inv] c] by simp
  moreover have "pg_holder db (job_number (jb_ID l)) = Some (le_LeaseToken l)"
    using id row by (simp add: pg_holder_def)
  moreover have "pg_holder db' = (pg_holder db)(job_number (jb_ID l) := None)"
    using pg_holder_update[OF f(2) _ id] by (simp add: finish_row_def)
  ultimately show ?thesis using ids by (simp add: pg_queue_inv_def)
qed

interpretation pq: leased_queue pg_claim pg_finish pg_holder job_number pg_queue_inv
proof
  fix s s' :: media_db and l :: "Lease option" and x :: Lease
    and c :: "media_env \<times> tx \<times> string option \<times> time \<times> duration \<times> string"
    and f :: "media_env \<times> tx \<times> JobResult \<times> time"
  assume ok: "pg_queue_inv s"
  obtain e y token now lease w where c: "c = (e, y, token, now, lease, w)" by (metis prod_cases6)
  obtain e' y' r now' where f: "f = (e', y', r, now')" by (metis prod_cases4)
  have fin: "\<exists>v. mpg_FinishJob e' y' x r now' s = Inr (v, s')" if "pg_finish f x s = Inr s'"
    using that by (auto simp: pg_finish_def f iolink_simps)
  show "pg_queue_inv s'" if "pg_claim c s = Inr (l, s')"
  proof (cases l)
    case None
    with that have "mpg_ClaimJob e y token now lease w s = Inr (None, s')" by (simp add: pg_claim_def c)
    then have "s' = s" by (cases rule: Claim_Inr) auto
    with ok show ?thesis by simp
  next
    case (Some z)
    with that pg_claim_grants[OF ok] show ?thesis by (simp add: pg_claim_def c)
  qed
  show "pg_holder s' = (pg_holder s)(job_number (jb_ID x) := Some (le_LeaseToken x))" if "pg_claim c s = Inr (Some x, s')"
    using that pg_claim_grants[OF ok] by (simp add: pg_claim_def c)
  show "pg_queue_inv s'" "pg_holder s (job_number (jb_ID x)) = Some (le_LeaseToken x)"
    "pg_holder s' = (pg_holder s)(job_number (jb_ID x) := None)" if "pg_finish f x s = Inr s'"
    using fin[OF that] pg_finish_effect[OF ok] by blast+
qed

subsection \<open>Properties\<close>

text \<open>C15: a worker that finishes the job it claimed from the database has had it to itself: between
its claim and its successful \<open>FinishJob\<close> no other worker was given that job and none finished it,
whatever calls were made and however leases ran out. (Lease tokens are drawn at random for every
claim: the hypothesis is that no later claim draws this one again.)\<close>

theorem db_job_exclusive:
  assumes "pg_queue_inv db" and "mpg_ClaimJob e x token now lease w db = Inr (Some l, db1)"
    and "queue_run pg_claim pg_finish db1 cs = (es, db2)" and "list_all (other_token (le_LeaseToken l)) es"
    and "mpg_FinishJob e' x' l r now' db2 = Inr (v, db3)"
  shows "\<not> list_ex (event_of job_number (job_number (jb_ID l))) es"
  using pq.exclusive[of db "(e, x, token, now, lease, w)" l db1 cs es db2 "(e', x', r, now')" db3] assms
  by (simp add: pg_claim_def pg_finish_def)

end
