(* ===== verification/Media_Examples.thy ===== *)
theory Media_Examples
  imports Job_Lease "HOL-Library.Code_Target_Nat"
begin

text \<open>
  The media store on a small database: one camera, one viewer, and the calls of two playbacks from
  the request to the stop. The properties of Media_Safety, Media_Run and Job_Lease are applied to it.
\<close>

definition ex_media_env :: media_env where "ex_media_env = \<lparr>me_validUUID = (\<lambda>s. s \<noteq> []), me_stored = (\<lambda>t. t)\<rparr>"
definition tx_at :: "time \<Rightarrow> tx" where "tx_at t = \<lparr>tx_fails = (\<lambda>_. False), tx_clock = (\<lambda>_. t)\<rparr>"
definition ex_viewer :: "actor option" where "ex_viewer = Some \<lparr>ac_TenantID = Some 2, ac_UserID = Some 3, ac_Role = ''owner''\<rparr>"
definition ex_media_license :: LicenseSnapshot where
  "ex_media_license = \<lparr>ls_DeploymentID = ''d'', ls_Payload = ''p'', ls_Signature = ''s'', ls_SHA256 = replicate 64 CHR ''a'',
     ls_MaxSeenAt = 1, ls_ClockError = False, ls_Now = 0\<rparr>"
definition ex_media_db :: media_db where
  "ex_media_db = \<lparr>db_tenants = [\<lparr>tn_id = 2, tn_active = True, tn_permission_version = 1\<rparr>],
     db_users = [\<lparr>us_id = 3, us_authority = ''USER'', us_token_version = 1\<rparr>],
     db_members = [\<lparr>tm_tenant_id = 2, tm_user_id = 3, tm_role = ''owner'', tm_active = True, tm_expires_at = None, tm_permission_version = 1\<rparr>],
     db_farms = [\<lparr>fa_id = 4, fa_tenant_id = 2, fa_owner_id = 3\<rparr>], db_farm_members = [],
     db_cameras = [\<lparr>ca_id = 9, ca_tenant_id = 2, ca_farm_id = 4, ca_source_version = 7, ca_enabled = True\<rparr>],
     db_license = Some ex_media_license, db_streams = [], db_sessions = [], db_jobs = [], db_segments = []\<rparr>"
definition ex_create :: "string \<Rightarrow> string \<Rightarrow> time \<Rightarrow> CreateSession" where
  "ex_create i tok t = \<lparr>cs_Session = \<lparr>se_ID = i, se_StreamID = ''S'', se_TenantID = 2, se_CameraID = 9,
     se_SourceVersion = 7, se_UserID = 3, se_UserTokenVersion = 1, se_TenantPermissionVersion = 1,
     se_MemberPermissionVersion = 1, se_State = SessionPending, se_ErrorCode = [], se_CreatedAt = t,
     se_ExpiresAt = t + 1000\<rparr>,
     cs_Target = \<lparr>pt_TenantID = 2, pt_CameraID = 9, pt_SourceVersion = 7, pt_StreamID = ''S'', pt_UserID = 3,
       pt_UserTokenVersion = 1, pt_TenantPermissionVersion = 1, pt_MemberPermissionVersion = 1, pt_License = ex_media_license\<rparr>,
     cs_TokenHash = replicate 32 (hd tok), cs_StartJobKey = ''start:9:7''\<rparr>"
definition ex_media_lease :: "string \<Rightarrow> string \<Rightarrow> JobKind \<Rightarrow> string \<Rightarrow> Lease" where
  "ex_media_lease i sid k tok = \<lparr>jb_ID = i, jb_Kind = k, jb_CameraID = 9, jb_SourceVersion = 7, jb_StreamID = ''S'',
     jb_SessionID = sid, jb_Attempts = 1, le_LeaseToken = ''w:'' @ tok, le_LeasedUntil = 99\<rparr>"
definition ex_result :: "JobStatus \<Rightarrow> JobResult" where "ex_result st = \<lparr>jr_Status = st, jr_ErrorCode = [], jr_NextAt = 5\<rparr>"
definition ex_script :: "media_call list" where
  "ex_script = [McCreate (tx_at 10) ex_viewer (ex_create ''p'' ''1'' 10),
    McClaim (tx_at 11) (Some ''a'') 1 10000 ''w'', McFinish (tx_at 12) (ex_media_lease ''1'' ''p'' JobStart ''a'') (ex_result JobReady) 12,
    McStop (tx_at 13) ex_viewer ''p'' 13,
    McClaim (tx_at 14) (Some ''b'') 1 10000 ''w'', McFinish (tx_at 15) (ex_media_lease ''2'' ''p'' JobStop ''b'') (ex_result JobStopped) 15,
    McCreate (tx_at 20) ex_viewer (ex_create ''q'' ''2'' 20),
    McClaim (tx_at 21) (Some ''c'') 1 10000 ''w'', McFinish (tx_at 22) (ex_media_lease ''3'' ''q'' JobStart ''c'') (ex_result JobReady) 22,
    McStop (tx_at 23) ex_viewer ''q'' 23]"



text \<open>The databases while the first viewer watches and after the second stop.\<close>

definition ex_ready :: media_db where
  "ex_ready = foldl (media_step ex_media_env) ex_media_db (take 3 ex_script)"

definition ex_stopped :: media_db where
  "ex_stopped = foldl (media_step ex_media_env) ex_media_db ex_script"

lemma ex_media_inv: "media_inv ex_media_db"
  by (simp add: media_inv_def keys_ok_def ex_media_db_def)

lemma ex_ready_inv: "media_inv ex_ready"
  unfolding ex_ready_def by (rule media_run_inv[OF ex_media_inv])

text \<open>The second playback is watched and stopped.\<close>

definition ex_watched_again :: media_db where
  "ex_watched_again = foldl (media_step ex_media_env) ex_media_db (butlast ex_script)"

lemma ex_second_stop: "mpg_StopOwnedPlayback ex_media_env (tx_at 23) ex_viewer ''q'' 23 ex_watched_again = Inr ((), ex_stopped)"
  by code_simp

lemma ex_second_session:
  "list_ex (\<lambda>s. se_ID s = ''q'' \<and> live_state (se_State s) \<and> se_StreamID s = ''S'' \<and> se_TenantID s = 2) (db_sessions ex_watched_again)"
  by code_simp

lemma ex_first_stop: "list_ex (\<lambda>j. (jo_tenant_id j, jo_kind j, jo_key j) = (2, jobStop, ''S'')) (db_jobs ex_watched_again)"
  "list_all (\<lambda>j. job_stream j = Some ''S'' \<longrightarrow> over j) (db_jobs ex_watched_again)" "active_sessions ex_stopped 23 ''S'' = []"
  by code_simp+

theorem lost_stop_forever_witness:
  "db_jobs ex_stopped = db_jobs ex_watched_again \<and> list_all (\<lambda>st. st_state st = ''stopping'') (db_streams ex_stopped)"
proof -
  obtain s :: session_row where s: "s \<in> set (db_sessions ex_watched_again)" "se_ID s = ''q''" "live_state (se_State s)"
      "se_StreamID s = ''S''" "se_TenantID s = 2"
    using ex_second_session unfolding list_ex_iff by blast
  obtain j where j: "j \<in> set (db_jobs ex_watched_again)" "(jo_tenant_id j, jo_kind j, jo_key j) = (2, jobStop, ''S'')"
    using ex_first_stop(1) unfolding list_ex_iff by blast
  have inv: "media_inv ex_watched_again" unfolding ex_watched_again_def by (rule media_run_inv[OF ex_media_inv])
  have streams: "list_all (\<lambda>st. st_id st = ''S'') (db_streams ex_stopped)" "db_streams ex_stopped \<noteq> []" by code_simp+
  have "active_sessions ex_stopped (tx_clock (tx_at 23) 5) (se_StreamID s) = []" using ex_first_stop(3) s by (simp add: tx_at_def)
  moreover have "(jo_tenant_id j, jo_kind j, jo_key j) = (se_TenantID s, jobStop, se_StreamID s)" using j s by simp
  moreover have "\<forall>j \<in> set (db_jobs ex_watched_again). job_stream j = Some (se_StreamID s) \<longrightarrow> over j"
    using ex_first_stop(2) s by (simp add: list_all_iff)
  moreover have "ex_stopped = foldl (media_step ex_media_env) ex_stopped []" by simp
  ultimately have "db_jobs ex_stopped = db_jobs ex_watched_again \<and> st_state st = ''stopping''"
    if "st \<in> set (db_streams ex_stopped)" for st
    using lost_stop_forever[OF inv ex_second_stop s(1-3) _ j(1), of ex_stopped "[]" st] that streams(1) s(4)
    by (simp add: list_all_iff)
  then show ?thesis using streams(2) hd_in_set[of "db_streams ex_stopped"] unfolding list_all_iff by blast
qed

lemma ex_finish_ready:
  "mpg_FinishJob ex_media_env (tx_at 12) (ex_media_lease ''1'' ''p'' JobStart ''a'') (ex_result JobReady) 12
     (foldl (media_step ex_media_env) ex_media_db (take 2 ex_script)) = Inr ((), ex_ready)"
  by code_simp

lemma ex_waiting:
  "list_ex (\<lambda>s. se_ID s = ''p'' \<and> se_StreamID s = ''S'' \<and> se_State s = SessionPending)
     (db_sessions (foldl (media_step ex_media_env) ex_media_db (take 2 ex_script)))"
  by code_simp

theorem ready_sessions_get_error_code_witness:
  "\<exists>s \<in> set (db_sessions ex_ready). se_ID s = ''p'' \<and> se_State s = SessionReady \<and>
     se_ErrorCode s = ''provider_unavailable''"
proof -
  from ex_waiting obtain s :: session_row where s: "s \<in> set (db_sessions (foldl (media_step ex_media_env) ex_media_db (take 2 ex_script)))"
    "se_ID s = ''p''" "se_StreamID s = ''S''" "se_State s = SessionPending"
    unfolding list_ex_iff by blast
  have "se_StreamID s = jb_StreamID (ex_media_lease ''1'' ''p'' JobStart ''a'')"
    using s(3) by (simp add: ex_media_lease_def)
  from ready_sessions_get_error_code[OF ex_finish_ready _ _ s(1) this s(4)] s(2) show ?thesis
    by (simp add: ex_result_def)
qed

text \<open>Access while watching; the claims of the first session.\<close>

definition ex_media_claims :: MediaClaims where
  "ex_media_claims = \<lparr>mc_SessionID = ''p'', mc_TenantID = 2, mc_CameraID = 9, mc_UserID = 3,
     mc_SourceVersion = 7, mc_Audience = ''iolink-media-v1'', mc_IssuedAt = 10, mc_ExpiresAt = 1010, mc_JTI = ''j''\<rparr>"

definition ex_media_access :: MediaAccess where
  "ex_media_access = \<lparr>ma_SessionID = ''p'', ma_StreamID = ''S'', ma_TenantID = 2, ma_CameraID = 9,
     ma_SourceVersion = 7, ma_State = SessionReady, ma_ExpiresAt = 1010\<rparr>"

lemma ex_authorize:
  "mpg_AuthorizeMedia ex_media_env (tx_at 13) ex_media_claims (replicate 32 CHR ''1'') 13 ex_ready = Inr ex_media_access"
  by code_simp

theorem authorize_media_sound_witness:
  "\<exists>vs \<in> set (db_sessions ex_ready). se_ID vs = ''p'' \<and> sr_token_hash vs = replicate 32 CHR ''1'' \<and>
     entitled ex_ready 13 vs"
  using authorize_media_sound[OF ex_authorize] by (auto simp: ex_media_claims_def tx_at_def)

text \<open>Stopping, and rewriting the manifest a second time.\<close>

lemma ex_stop:
  "mpg_StopOwnedPlayback ex_media_env (tx_at 13) ex_viewer ''p'' 13 ex_ready =
     Inr ((), media_step ex_media_env ex_ready (McStop (tx_at 13) ex_viewer ''p'' 13))"
  by code_simp

theorem stop_spares_other_viewers_witness:
  "list_all (\<lambda>r. \<not> (se_ID r = ''p'' \<and> live_state (se_State r)))
     (db_sessions (media_step ex_media_env ex_ready (McStop (tx_at 13) ex_viewer ''p'' 13)))"
proof -
  have "distinct (map se_ID (db_sessions ex_ready))"
    using ex_ready_inv by (simp add: media_inv_def keys_ok_def session_key_def comp_def)
  from stop_spares_other_viewers[OF ex_stop this] show ?thesis unfolding list_all_iff by blast
qed

definition ex_mapping :: "string \<Rightarrow> SegmentMapping" where
  "ex_mapping i = \<lparr>sm_ID = i, sm_SessionID = ''p'', sm_StreamID = ''S'', sm_SourceVersion = 7,
     sm_Path = ''2026-10-11/05/04-03_1.ts''\<rparr>"

lemma ex_segments:
  "mpg_CreateSegmentMappings ex_media_env (tx_at 13) [ex_mapping ''a''] ex_ready =
     Inr ([ex_mapping ''a''], media_step ex_media_env ex_ready (McSegments (tx_at 13) [ex_mapping ''a'']))"
  by code_simp

theorem second_manifest_fails_witness:
  "\<exists>err. mpg_CreateSegmentMappings ex_media_env (tx_at 20) [ex_mapping ''b'']
     (media_step ex_media_env ex_ready (McSegments (tx_at 13) [ex_mapping ''a''])) = Inl err"
  by (rule second_manifest_fails[OF ex_segments, of "ex_mapping ''a''" _ "ex_mapping ''b''"])
    (simp_all add: ex_mapping_def)

text \<open>A worker that claims and finishes.\<close>

definition ex_requested :: media_db where
  "ex_requested = foldl (media_step ex_media_env) ex_media_db (take 1 ex_script)"

lemma ex_claim_job:
  "mpg_ClaimJob ex_media_env (tx_at 11) (Some ''a'') 1 10000 ''w'' ex_requested =
     Inr (Some ((ex_media_lease ''1'' ''p'' JobStart ''a'')\<lparr>le_LeasedUntil := 10011\<rparr>),
       foldl (media_step ex_media_env) ex_media_db (take 2 ex_script))"
  by code_simp

theorem db_job_exclusive_witness:
  "\<not> list_ex (event_of job_number 1) (fst (queue_run pg_claim pg_finish
     (foldl (media_step ex_media_env) ex_media_db (take 2 ex_script))
     [QClaim (ex_media_env, tx_at 12, Some ''b'', 1, 10000, ''v'')]))"
proof -
  let ?cs = "[QClaim (ex_media_env, tx_at 12, Some ''b'', 1, 10000, ''v'')]"
  let ?db = "foldl (media_step ex_media_env) ex_media_db (take 2 ex_script)"
  let ?l = "(ex_media_lease ''1'' ''p'' JobStart ''a'')\<lparr>le_LeasedUntil := 10011\<rparr>"
  have "media_inv ex_requested" unfolding ex_requested_def by (rule media_run_inv[OF ex_media_inv])
  moreover have "list_all (\<lambda>j. jo_id j < 2 ^ 63) (db_jobs ex_requested)" by code_simp
  ultimately have inv: "pg_queue_inv ex_requested" by (simp add: pg_queue_inv_def list_all_iff)
  have none: "mpg_ClaimJob ex_media_env (tx_at 12) (Some ''b'') 1 10000 ''v'' ?db = Inr (None, ?db)" by code_simp
  then have run: "queue_run pg_claim pg_finish ?db ?cs = ([QNothing], ?db)" by (simp add: pg_claim_def)
  have fin: "mpg_FinishJob ex_media_env (tx_at 12) ?l (ex_result JobReady) 12 ?db = Inr ((), ex_ready)" by code_simp
  have n: "job_number (jb_ID ?l) = 1" by code_simp
  show ?thesis
    using db_job_exclusive[OF inv ex_claim_job run _ fin] run unfolding n by simp
qed

end
