(* ===== verification/Playback.thy ===== *)
theory Playback
  imports Media_Store
begin

text \<open>
  \<open>internal/playback/service.go\<close>: the playback service between the API, the store, the license
  guard, the token issuer and the media provider. What it calls is a record of operations on one
  state \<open>'s\<close> (the database and the provider); a nil dependency is \<open>None\<close>. Arguments of the model
  are what a call reads from outside: the clock, the new UUIDs, SHA-256 and \<open>url.Parse\<close>. Contexts
  carry the actor (an \<open>actor option\<close>, \<open>None\<close> for a nil context); their deadlines only end calls
  early and are part of the answers of what is called.
\<close>

subsection \<open>Dependencies\<close>

record 's media_ops =
  mo_PreparePlayback :: "'s \<Rightarrow> actor option \<Rightarrow> int \<Rightarrow> (media_error, PlaybackTarget) result \<times> 's"
  mo_CreatePlayback :: "'s \<Rightarrow> actor option \<Rightarrow> CreateSession \<Rightarrow> (media_error, Session) result \<times> 's"
  mo_ReadOwnedPlayback :: "'s \<Rightarrow> actor option \<Rightarrow> string \<Rightarrow> (media_error, Session) result \<times> 's"
  mo_StopOwnedPlayback :: "'s \<Rightarrow> actor option \<Rightarrow> string \<Rightarrow> time \<Rightarrow> media_error option \<times> 's"
  mo_ClaimJob :: "'s \<Rightarrow> time \<Rightarrow> duration \<Rightarrow> string \<Rightarrow> (media_error, Lease option) result \<times> 's"
  mo_RevalidateJob :: "'s \<Rightarrow> Lease \<Rightarrow> (media_error, JobAuthorization) result \<times> 's"
  mo_FinishJob :: "'s \<Rightarrow> Lease \<Rightarrow> JobResult \<Rightarrow> time \<Rightarrow> media_error option \<times> 's"
  mo_AuthorizeMedia :: "'s \<Rightarrow> MediaClaims \<Rightarrow> string \<Rightarrow> time \<Rightarrow> (media_error, MediaAccess) result \<times> 's"

record 's provider_ops =
  pv_Start :: "'s \<Rightarrow> MediaRequest \<Rightarrow> media_error option \<times> 's"
  pv_Stop :: "'s \<Rightarrow> MediaRequest \<Rightarrow> media_error option \<times> 's"

record token_ops =
  to_Issue :: "MediaClaims \<Rightarrow> IssuedToken option"
  to_Verify :: "string \<Rightarrow> MediaClaims option"

record 's mapping_ops =
  mm_Create :: "'s \<Rightarrow> SegmentMapping list \<Rightarrow> (media_error, SegmentMapping list) result \<times> 's"
  mm_Resolve :: "'s \<Rightarrow> string \<Rightarrow> string \<Rightarrow> (media_error, SegmentMapping) result \<times> 's"

text \<open>What \<open>validManifestBaseURL\<close> reads of a parsed URL.\<close>

record base_url =
  bu_IsAbs :: bool
  bu_Scheme :: string
  bu_Host :: string
  bu_Hostname :: string
  bu_has_User :: bool
  bu_RawQuery :: string
  bu_Fragment :: string
  bu_Opaque :: string

record 's playback_config =
  pc_Store :: "'s media_ops"
  pc_License :: "(LicenseSnapshot \<Rightarrow> media_error option) option"
  pc_Tokens :: "token_ops option"
  pc_Provider :: "'s provider_ops option"
  pc_Manifest :: "(MediaAccess \<Rightarrow> (media_error, string) result) option"
  pc_Segments :: "(MediaAccess \<Rightarrow> string \<Rightarrow> (media_error, string) result) option"
  pc_Mappings :: "'s mapping_ops option"
  pc_Enabled :: bool
  pc_ManifestBaseURL :: string
  pc_LeaseDuration :: duration

record Grant =
  gr_SessionID :: string
  gr_ExpiresAt :: time
  gr_ManifestURL :: string

record playback_env =
  pe_ParseURL :: "string \<Rightarrow> base_url option"
  pe_SHA256 :: "string \<Rightarrow> string"

definition mediaAudience :: string where "mediaAudience = ''iolink-media-v1''"
definition maxAttempts :: int where "maxAttempts = 6"

definition NewPlayback :: "'s playback_config option \<Rightarrow> (media_error, 's playback_config) result" where
  "NewPlayback cfg = (case cfg of
      None \<Rightarrow> Inl MUnavailable \<comment> \<open>no store\<close>
    | Some c \<Rightarrow>
        (let c = (if pc_ManifestBaseURL c = [] then c\<lparr>pc_ManifestBaseURL := ''/media/v1''\<rparr> else c);
             c = (if pc_LeaseDuration c \<le> 0 then c\<lparr>pc_LeaseDuration := 30 * second\<rparr> else c)
         in Inr c))"

subsection \<open>Errors\<close>

definition requireActor :: "actor option \<Rightarrow> (int \<times> int) option" where
  "requireActor ctx = map_option (\<lambda>(tenant, user, role). (tenant, user)) (actorContext ctx)"

definition normalizeStoreError :: "media_error \<Rightarrow> media_error" where
  "normalizeStoreError err =
     (if err = DomNotFound then MNotFound
      else if err = DomForbidden then MForbidden
      else if err = DomConflict then MConflict
      else err)"

definition normalizeLicenseError :: "media_error \<Rightarrow> media_error" where
  "normalizeLicenseError err =
     (if err = MLicenseRequired \<or> err = DomForbidden then MLicenseRequired else MLicenseUnavailable)"

definition normalizeMediaSourceError :: "media_error \<Rightarrow> media_error" where
  "normalizeMediaSourceError err =
     (if err = MUnavailable \<or> err = MNotFound \<or> err = MForbidden then err else MBadMedia)"

definition normalizeMediaStoreError :: "media_error \<Rightarrow> media_error" where
  "normalizeMediaStoreError err =
     (let normalized = normalizeStoreError err in
      if normalized = MNotFound \<or> normalized = MForbidden \<or> normalized = MConflict then normalized
      else MUnavailable)"

subsection \<open>Claims and URLs\<close>

definition claims_accepted :: "MediaClaims \<Rightarrow> MediaClaims \<Rightarrow> time \<Rightarrow> bool" where
  "claims_accepted got want now \<longleftrightarrow>
     \<not> (mc_SessionID got \<noteq> mc_SessionID want \<or> mc_TenantID got \<noteq> mc_TenantID want \<or>
        mc_CameraID got \<noteq> mc_CameraID want \<or> mc_UserID got \<noteq> mc_UserID want \<or>
        mc_SourceVersion got \<noteq> mc_SourceVersion want \<or> mc_Audience got \<noteq> mediaAudience \<or>
        mc_JTI got = [] \<or> is_zero (mc_ExpiresAt got) \<or> is_zero (mc_IssuedAt got) \<or>
        time_sub (mc_ExpiresAt got) (mc_IssuedAt got) > MaxVideoPlaybackTTL \<or>
        mc_IssuedAt got > now \<or> \<not> now < mc_ExpiresAt got)"

definition trimRightSlash :: "string \<Rightarrow> string" where
  "trimRightSlash s = rev (dropWhile (\<lambda>c. c = CHR ''/'') (rev s))"

definition manifestURL :: "string \<Rightarrow> string \<Rightarrow> string \<Rightarrow> string" where
  "manifestURL base token sessionID =
     trimRightSlash base @ ''/'' @ pathEscape token @ ''/'' @ pathEscape sessionID @ ''/index.m3u8''"

definition validManifestBaseURL :: "playback_env \<Rightarrow> string \<Rightarrow> bool" where
  "validManifestBaseURL env raw \<longleftrightarrow> (case pe_ParseURL env raw of
      None \<Rightarrow> False
    | Some u \<Rightarrow> bu_IsAbs u \<and> equalFold (bu_Scheme u) ''https'' \<and> bu_Host u \<noteq> [] \<and> bu_Hostname u \<noteq> [] \<and>
        \<not> bu_has_User u \<and> bu_RawQuery u = [] \<and> bu_Fragment u = [] \<and> bu_Opaque u = [])"

subsection \<open>Requesting, reading and stopping a playback\<close>

definition start_key :: "int \<Rightarrow> int \<Rightarrow> string" where
  "start_key cameraID version = ''start:'' @ FormatInt cameraID @ '':'' @ FormatInt version"

definition playback_input ::
  "playback_env \<Rightarrow> string \<Rightarrow> PlaybackTarget \<Rightarrow> string \<Rightarrow> int \<Rightarrow> time \<Rightarrow> CreateSession" where
  "playback_input env raw target sessionID cameraID now =
     \<lparr>cs_Session = \<lparr>se_ID = sessionID, se_StreamID = pt_StreamID target, se_TenantID = pt_TenantID target,
        se_CameraID = cameraID, se_SourceVersion = pt_SourceVersion target, se_UserID = pt_UserID target,
        se_UserTokenVersion = pt_UserTokenVersion target,
        se_TenantPermissionVersion = pt_TenantPermissionVersion target,
        se_MemberPermissionVersion = pt_MemberPermissionVersion target, se_State = SessionPending,
        se_ErrorCode = [], se_CreatedAt = now, se_ExpiresAt = now + MaxVideoPlaybackTTL\<rparr>,
      cs_Target = target, cs_TokenHash = pe_SHA256 env raw,
      cs_StartJobKey = start_key cameraID (pt_SourceVersion target)\<rparr>"

definition playback_claims :: "PlaybackTarget \<Rightarrow> string \<Rightarrow> string \<Rightarrow> int \<Rightarrow> time \<Rightarrow> MediaClaims" where
  "playback_claims target sessionID jti cameraID now =
     \<lparr>mc_SessionID = sessionID, mc_TenantID = pt_TenantID target, mc_CameraID = cameraID,
      mc_UserID = pt_UserID target, mc_SourceVersion = pt_SourceVersion target, mc_Audience = mediaAudience,
      mc_IssuedAt = now, mc_ExpiresAt = now + MaxVideoPlaybackTTL, mc_JTI = jti\<rparr>"

definition RequestPlayback ::
  "playback_env \<Rightarrow> 's playback_config \<Rightarrow> time \<Rightarrow> string \<Rightarrow> string \<Rightarrow> actor option \<Rightarrow> int \<Rightarrow> 's \<Rightarrow>
   (media_error, Grant) result \<times> 's" where
  "RequestPlayback env cfg now sessionID jti ctx cameraID s =
     (if requireActor ctx = None then (Inl MForbidden, s)
      else (case (pc_License cfg, pc_Provider cfg, pc_Tokens cfg) of
        (Some RequireVideo, Some _, Some tokens) \<Rightarrow>
          if \<not> pc_Enabled cfg then (Inl MUnavailable, s)
          else if \<not> validManifestBaseURL env (pc_ManifestBaseURL cfg) then (Inl MUnavailable, s)
          else if cameraID \<le> 0 then (Inl MInvalid, s)
          else (case mo_PreparePlayback (pc_Store cfg) s ctx cameraID of
            (Inl err, s) \<Rightarrow> (Inl (normalizeStoreError err), s)
          | (Inr target, s) \<Rightarrow>
              if pt_TenantID target \<le> 0 \<or> pt_CameraID target \<noteq> cameraID \<or> pt_SourceVersion target \<le> 0 \<or>
                 pt_StreamID target = [] then (Inl MUnavailable, s)
              else (case RequireVideo (pt_License target) of
                Some err \<Rightarrow> (Inl (normalizeLicenseError err), s)
              | None \<Rightarrow>
                  (let claims = playback_claims target sessionID jti cameraID now in
                   case to_Issue tokens claims of
                     None \<Rightarrow> (Inl MUnavailable, s)
                   | Some issued \<Rightarrow>
                       if it_Raw issued = [] then (Inl MUnavailable, s)
                       else if \<not> claims_accepted (it_Claims issued) claims now then (Inl MUnavailable, s)
                       else (case mo_CreatePlayback (pc_Store cfg) s ctx
                                    (playback_input env (it_Raw issued) target sessionID cameraID now) of
                         (Inl err, s) \<Rightarrow> (Inl (normalizeStoreError err), s)
                       | (Inr _, s) \<Rightarrow>
                           (Inr \<lparr>gr_SessionID = sessionID, gr_ExpiresAt = now + MaxVideoPlaybackTTL,
                              gr_ManifestURL = manifestURL (pc_ManifestBaseURL cfg) (it_Raw issued) sessionID\<rparr>, s)))))
      | _ \<Rightarrow> (Inl MUnavailable, s)))"

definition ReadPlayback ::
  "'s playback_config \<Rightarrow> time \<Rightarrow> actor option \<Rightarrow> string \<Rightarrow> 's \<Rightarrow> (media_error, Session) result \<times> 's" where
  "ReadPlayback cfg now ctx sessionID s =
     (case requireActor ctx of
        None \<Rightarrow> (Inl MForbidden, s)
      | Some (tenant, user) \<Rightarrow>
          if sessionID = [] then (Inl MInvalid, s)
          else (case mo_ReadOwnedPlayback (pc_Store cfg) s ctx sessionID of
            (Inl err, s) \<Rightarrow> (Inl (normalizeStoreError err), s)
          | (Inr session, s) \<Rightarrow>
              if se_TenantID session \<noteq> tenant \<or> se_UserID session \<noteq> user then (Inl MNotFound, s)
              else if (se_State session = SessionPending \<or> se_State session = SessionReady) \<and>
                      \<not> now < se_ExpiresAt session
              then (Inr (session\<lparr>se_State := SessionExpired\<rparr>), s)
              else (Inr session, s)))"

definition StopPlayback ::
  "'s playback_config \<Rightarrow> time \<Rightarrow> actor option \<Rightarrow> string \<Rightarrow> 's \<Rightarrow> media_error option \<times> 's" where
  "StopPlayback cfg now ctx sessionID s =
     (if requireActor ctx = None then (Some MForbidden, s)
      else if sessionID = [] then (Some MInvalid, s)
      else (case mo_StopOwnedPlayback (pc_Store cfg) s ctx sessionID now of
        (Some err, s) \<Rightarrow> (Some (normalizeStoreError err), s)
      | (None, s) \<Rightarrow> (None, s)))"

text \<open>
  \<open>AuthorizeMedia\<close> returns the access also beside \<open>ErrPending\<close>; its callers look at the error only.
\<close>

definition AuthorizeMedia ::
  "playback_env \<Rightarrow> 's playback_config \<Rightarrow> time \<Rightarrow> string \<Rightarrow> string \<Rightarrow> 's \<Rightarrow> (media_error, MediaAccess) result \<times> 's" where
  "AuthorizeMedia env cfg now rawToken sessionID s =
     (if rawToken = [] \<or> sessionID = [] then (Inl MUnauthorized, s)
      else (case pc_Tokens cfg of
        None \<Rightarrow> (Inl MUnavailable, s)
      | Some tokens \<Rightarrow>
          if \<not> pc_Enabled cfg then (Inl MUnavailable, s)
          else (case to_Verify tokens rawToken of
            None \<Rightarrow> (Inl MUnauthorized, s)
          | Some claims \<Rightarrow>
              if mc_SessionID claims \<noteq> sessionID \<or> mc_Audience claims \<noteq> mediaAudience then (Inl MUnauthorized, s)
              else if \<not> claims_accepted claims claims now then (Inl MUnauthorized, s)
              else (case mo_AuthorizeMedia (pc_Store cfg) s claims (pe_SHA256 env rawToken) now of
                (Inl err, s) \<Rightarrow> (Inl (normalizeMediaStoreError err), s)
              | (Inr access, s) \<Rightarrow>
                  if ma_SessionID access \<noteq> sessionID \<or> ma_TenantID access \<noteq> mc_TenantID claims \<or>
                     ma_CameraID access \<noteq> mc_CameraID claims \<or>
                     ma_SourceVersion access \<noteq> mc_SourceVersion claims then (Inl MUnauthorized, s)
                  else if ma_State access = SessionPending then (Inl MPending, s)
                  else if ma_State access \<noteq> SessionReady \<or> \<not> now < ma_ExpiresAt access then (Inl MForbidden, s)
                  else (Inr access, s)))))"

end
