(* ===== verification/Playback_Worker.thy ===== *)
theory Playback_Worker
  imports Playback
begin

text \<open>
  \<open>ProcessMediaJob\<close> and \<open>jobResult\<close> of \<open>internal/playback/service.go\<close>: the worker that claims a
  job, revalidates it, asks the provider to start or stop the stream and records the result. The
  contract of its store is a locale: the store never calls the provider itself, and a start job is
  active and current only when the stream may be started.
\<close>

subsection \<open>The result of a provider call\<close>

text \<open>\<open>errors.Is(err, media.ErrDisabled)\<close> and the other tests are equalities; the delay is
  \<open>time.Second * time.Duration(1<<shift)\<close>.\<close>

definition jobResult :: "media_error option \<Rightarrow> int \<Rightarrow> time \<Rightarrow> JobKind \<Rightarrow> JobResult \<times> media_error option" where
  "jobResult providerErr attempts now kind =
     (let result = (\<lambda>st code next. \<lparr>jr_Status = st, jr_ErrorCode = code, jr_NextAt = next\<rparr>) in
      case providerErr of
        None \<Rightarrow> (result (if kind = JobStop then JobStopped else JobReady) [] now, None)
      | Some err \<Rightarrow>
          if err = MUnavailable \<or> err = MDisabled then
            (result JobDisabled ''provider_unavailable'' now, providerErr)
          else if err = MLicenseUnavailable then
            (result JobDisabled ''license_unavailable'' now, providerErr)
          else if err = MLicenseRequired then
            (result JobFailed ''license_required'' now, providerErr)
          else if err = MUnsupported then
            (result JobFailed ''unsupported_codec'' now, providerErr)
          else if err = MUnknown \<or> err = CtxCanceled \<or> err = CtxDeadlineExceeded then
            (result JobUnknown ''provider_unknown'' now, providerErr)
          else if err = MRetryable \<or> attempts < maxAttempts then
            if attempts \<ge> maxAttempts then (result JobFailed ''source_unreachable'' now, providerErr)
            else (let shift = attempts - 1;
                      shift = (if shift < 0 then 0 else shift);
                      shift = (if shift > 5 then 5 else shift);
                      delay = second * 2 ^ nat shift;
                      delay = (if delay > 30 * second then 30 * second else delay)
                  in (result JobRetryable ''source_unreachable'' (now + delay), providerErr))
          else (result JobFailed ''source_unreachable'' now, providerErr))"

subsection \<open>One job\<close>

definition media_request :: "Lease \<Rightarrow> MediaRequest" where
  "media_request lease = \<lparr>mr_CameraID = jb_CameraID lease, mr_SourceVersion = jb_SourceVersion lease,
     mr_StreamID = jb_StreamID lease\<rparr>"

text \<open>
  The switch on the kind of the job: \<open>None\<close> when the job is skipped, else the error of the provider
  (or of the license). \<open>RecordJob\<close> is what follows it.
\<close>

definition call_provider ::
  "'s playback_config \<Rightarrow> 's provider_ops \<Rightarrow> Lease \<Rightarrow> JobAuthorization \<Rightarrow> 's \<Rightarrow> media_error option option \<times> 's" where
  "call_provider cfg provider lease auth s =
     (case jb_Kind lease of
        JobStart \<Rightarrow>
          if \<not> ja_Active auth \<or> \<not> ja_SourceCurrent auth then (None, s)
          else (case pc_License cfg of
            None \<Rightarrow> (Some (Some MUnavailable), s)
          | Some RequireVideo \<Rightarrow>
              (case RequireVideo (pt_License (ja_Target auth)) of
                 None \<Rightarrow> (case pv_Start provider s (media_request lease) of (err, s) \<Rightarrow> (Some err, s))
               | Some err \<Rightarrow> (Some (Some (normalizeLicenseError err)), s)))
      | JobStop \<Rightarrow>
          if ja_StopSuperseded auth then (None, s)
          else (case pv_Stop provider s (media_request lease) of (err, s) \<Rightarrow> (Some err, s))
      | OtherKind _ \<Rightarrow> (Some (Some MInvalid), s))"

definition record_job ::
  "'s playback_config \<Rightarrow> time \<Rightarrow> Lease \<Rightarrow> media_error option option \<Rightarrow> 's \<Rightarrow> media_error option \<times> 's" where
  "record_job cfg now lease outcome s =
     (let (result, returnedErr) = (case outcome of
            None \<Rightarrow> (\<lparr>jr_Status = JobSkipped, jr_ErrorCode = [], jr_NextAt = now\<rparr>, None)
          | Some providerErr \<Rightarrow> jobResult providerErr (jb_Attempts lease) now (jb_Kind lease))
      in case mo_FinishJob (pc_Store cfg) s lease result now of
           (Some err, s) \<Rightarrow> (Some (if err = MLeaseLost then MLeaseLost else MPersistenceUnknown), s)
         | (None, s) \<Rightarrow> (returnedErr, s))"

text \<open>The boolean says that a job was claimed.\<close>

definition ProcessMediaJob ::
  "'s playback_config \<Rightarrow> time \<Rightarrow> string \<Rightarrow> 's \<Rightarrow> (bool \<times> media_error option) \<times> 's" where
  "ProcessMediaJob cfg now workerID s =
     (case pc_Provider cfg of
        None \<Rightarrow> ((False, Some MUnavailable), s)
      | Some provider \<Rightarrow>
          if \<not> pc_Enabled cfg then ((False, Some MUnavailable), s)
          else if workerID = [] then ((False, Some MInvalid), s)
          else (case mo_ClaimJob (pc_Store cfg) s now (pc_LeaseDuration cfg) workerID of
            (Inl err, s) \<Rightarrow> ((False, Some (normalizeStoreError err)), s)
          | (Inr None, s) \<Rightarrow> ((False, None), s)
          | (Inr (Some lease), s) \<Rightarrow>
              (case mo_RevalidateJob (pc_Store cfg) s lease of
                 (Inl err, s) \<Rightarrow> ((True, Some (normalizeStoreError err)), s)
               | (Inr auth, s) \<Rightarrow>
                   (case call_provider cfg provider lease auth s of (outcome, s) \<Rightarrow>
                    (case record_job cfg now lease outcome s of (err, s) \<Rightarrow> ((True, err), s))))))"

subsection \<open>Back-off\<close>

definition permanent :: "media_error \<Rightarrow> bool" where
  "permanent err \<longleftrightarrow> err \<in> {MUnavailable, MDisabled, MLicenseUnavailable, MLicenseRequired, MUnsupported,
     MUnknown, CtxCanceled, CtxDeadlineExceeded}"

lemma backoff_le: "attempts < (6 :: int) \<Longrightarrow> (2 :: int) ^ nat (attempts - 1) \<le> 16"
  using power_increasing [of "nat (attempts - 1)" 4 "2 :: int"] by simp

lemma job_result_retry:
  assumes "\<not> permanent x"
  shows "jobResult (Some x) attempts now kind =
     (if attempts < 6 then (\<lparr>jr_Status = JobRetryable, jr_ErrorCode = ''source_unreachable'',
                jr_NextAt = now + second * 2 ^ nat (attempts - 1)\<rparr>, Some x)
      else (\<lparr>jr_Status = JobFailed, jr_ErrorCode = ''source_unreachable'', jr_NextAt = now\<rparr>, Some x))"
proof -
  have "second * 2 ^ nat (if attempts - 1 < 0 then 0 else attempts - 1) = second * 2 ^ nat (attempts - 1)"
    by simp
  moreover have "\<not> second * 2 ^ nat (attempts - 1) > 30 * second" if "attempts < 6"
    using backoff_le [OF that] by (simp add: second_def)
  ultimately show ?thesis
    using assms by (auto simp: permanent_def jobResult_def Let_def maxAttempts_def)
qed

text \<open>A job is tried again exactly when the provider failed with an error that is not
  permanent and fewer than six attempts were made; attempt \<open>n\<close> is then followed by a pause of
  \<open>2^(n-1)\<close> seconds, at most 16 (the cap of 30 seconds is never needed). Any other result is final
  and due at once, and only the absence of an error counts as success.\<close>

theorem job_result_backoff:
  assumes "jobResult err attempts now kind = (result, returned)"
  shows "returned = err \<and>
    (jr_Status result = JobRetryable \<longleftrightarrow> attempts < 6 \<and> (\<exists>x. err = Some x \<and> \<not> permanent x)) \<and>
    jr_NextAt result = (if jr_Status result = JobRetryable then now + second * 2 ^ nat (attempts - 1) else now) \<and>
    now \<le> jr_NextAt result \<and> jr_NextAt result \<le> now + 16 * second \<and>
    (jr_Status result \<in> {JobReady, JobStopped} \<longleftrightarrow> err = None) \<and>
    (jr_Status result = JobStopped \<longleftrightarrow> err = None \<and> kind = JobStop)"
proof (cases err)
  case None
  then show ?thesis using assms by (auto simp: jobResult_def Let_def second_def split: if_splits)
next
  case (Some x)
  show ?thesis
  proof (cases "permanent x")
    case True
    then show ?thesis
      using assms Some by (auto simp: permanent_def jobResult_def Let_def second_def)
  next
    case False
    then show ?thesis
      using assms Some job_result_retry [OF False, of attempts now kind] backoff_le [of attempts]
      by (cases "attempts < 6") (auto simp: second_def)
  qed
qed

subsection \<open>What a worker may ask of the provider\<close>

datatype provider_call = CallStart MediaRequest | CallStop MediaRequest

locale playback_worker =
  fixes cfg :: "'s playback_config"
    and calls :: "'s \<Rightarrow> provider_call list"
    and startable :: "'s \<Rightarrow> Lease \<Rightarrow> bool"
    and unused :: "'s \<Rightarrow> Lease \<Rightarrow> bool"
  assumes claim_silent: "mo_ClaimJob (pc_Store cfg) s now d w = (l, s') \<Longrightarrow> calls s' = calls s"
    and revalidate_silent: "mo_RevalidateJob (pc_Store cfg) s x = (ra, s') \<Longrightarrow> calls s' = calls s"
    and finish_silent: "mo_FinishJob (pc_Store cfg) s x r now = (e, s') \<Longrightarrow> calls s' = calls s"
    and start_logged: "pc_Provider cfg = Some p \<Longrightarrow> pv_Start p s q = (e, s') \<Longrightarrow> calls s' = calls s @ [CallStart q]"
    and stop_logged: "pc_Provider cfg = Some p \<Longrightarrow> pv_Stop p s q = (e, s') \<Longrightarrow> calls s' = calls s @ [CallStop q]"
    and revalidate_start: "mo_RevalidateJob (pc_Store cfg) s x = (Inr a, s') \<Longrightarrow> jb_Kind x = JobStart \<Longrightarrow>
      ja_Active a \<Longrightarrow> ja_SourceCurrent a \<Longrightarrow> startable s' x"
    and revalidate_stop: "mo_RevalidateJob (pc_Store cfg) s x = (Inr a, s') \<Longrightarrow> jb_Kind x = JobStop \<Longrightarrow>
      \<not> ja_StopSuperseded a \<Longrightarrow> unused s' x"
begin

lemma record_silent: "record_job cfg now x out s = (e, s') \<Longrightarrow> calls s' = calls s"
  by (auto simp: record_job_def Let_def split: prod.splits option.splits dest: finish_silent)

text \<open>One call of the worker asks the provider at most once, and only what its job is for.\<close>

lemma provider_asked:
  assumes "ProcessMediaJob cfg now w s = (r, s')"
  shows "calls s' = calls s \<or>
    (\<exists>x auth s0 s1. mo_ClaimJob (pc_Store cfg) s now (pc_LeaseDuration cfg) w = (Inr (Some x), s0) \<and>
      mo_RevalidateJob (pc_Store cfg) s0 x = (Inr auth, s1) \<and>
      ((jb_Kind x = JobStart \<and> startable s1 x \<and> calls s' = calls s @ [CallStart (media_request x)] \<and>
        (\<exists>guard. pc_License cfg = Some guard \<and> guard (pt_License (ja_Target auth)) = None)) \<or>
       (jb_Kind x = JobStop \<and> unused s1 x \<and> calls s' = calls s @ [CallStop (media_request x)])))"
proof (rule disjCI)
  assume changed: "\<not> (\<exists>x auth s0 s1. mo_ClaimJob (pc_Store cfg) s now (pc_LeaseDuration cfg) w = (Inr (Some x), s0) \<and>
      mo_RevalidateJob (pc_Store cfg) s0 x = (Inr auth, s1) \<and>
      ((jb_Kind x = JobStart \<and> startable s1 x \<and> calls s' = calls s @ [CallStart (media_request x)] \<and>
        (\<exists>guard. pc_License cfg = Some guard \<and> guard (pt_License (ja_Target auth)) = None)) \<or>
       (jb_Kind x = JobStop \<and> unused s1 x \<and> calls s' = calls s @ [CallStop (media_request x)])))"
  consider "s' = s"
    | l where "mo_ClaimJob (pc_Store cfg) s now (pc_LeaseDuration cfg) w = (l, s')"
    | x l s0 where "mo_ClaimJob (pc_Store cfg) s now (pc_LeaseDuration cfg) w = (l, s0)"
        "\<exists>a. mo_RevalidateJob (pc_Store cfg) s0 x = (a, s')"
    | p x s0 auth s1 out s2 where "pc_Provider cfg = Some p"
        "mo_ClaimJob (pc_Store cfg) s now (pc_LeaseDuration cfg) w = (Inr (Some x), s0)"
        "mo_RevalidateJob (pc_Store cfg) s0 x = (Inr auth, s1)"
        "call_provider cfg p x auth s1 = (out, s2)" "\<exists>e. record_job cfg now x out s2 = (e, s')"
    using assms unfolding ProcessMediaJob_def
    by (auto split: option.split_asm prod.split_asm sum.split_asm if_split_asm)
  then show "calls s' = calls s"
  proof cases
    case 4
    have s1: "calls s1 = calls s" using 4(2,3) claim_silent revalidate_silent by metis
    have s': "calls s' = calls s2" using 4(5) record_silent by blast
    show ?thesis
    proof (cases "jb_Kind x")
      case JobStart
      then show ?thesis
        using 4 s1 s' changed start_logged [OF 4(1)] revalidate_start [OF 4(3) JobStart]
        by (fastforce simp: call_provider_def split: if_split_asm option.split_asm prod.split_asm)
    next
      case JobStop
      then show ?thesis
        using 4 s1 s' changed stop_logged [OF 4(1)] revalidate_stop [OF 4(3) JobStop]
        by (fastforce simp: call_provider_def split: if_split_asm prod.split_asm)
    next
      case (OtherKind k)
      then show ?thesis using 4 s1 s' by (simp add: call_provider_def)
    qed
  qed (use claim_silent revalidate_silent in \<open>fastforce+\<close>)
qed

end

end
