(* ===== verification/Playback_Manifest.thy ===== *)
theory Playback_Manifest
  imports Playback
begin

text \<open>
  \<open>internal/playback/service.go\<close>, the media half: \<open>ReadManifest\<close> fetches the playlist of a stream,
  checks every line, replaces each segment path by a URL with a fresh identifier and stores the
  mapping; \<open>ReadSegment\<close> resolves the identifier and fetches the path. The new identifiers
  (\<open>uuid.NewString\<close>) are a function of the number of the segment in the playlist.
\<close>

subsection \<open>Segment paths\<close>

definition leapYear :: "nat \<Rightarrow> bool" where
  "leapYear y \<longleftrightarrow> y mod 4 = 0 \<and> (y mod 100 \<noteq> 0 \<or> y mod 400 = 0)"

definition daysIn :: "nat \<Rightarrow> nat \<Rightarrow> nat" where
  "daysIn m y = (if m = 2 then (if leapYear y then 29 else 28)
                 else if m = 4 \<or> m = 6 \<or> m = 9 \<or> m = 11 then 30 else 31)"

text \<open>\<open>time.Parse("2006-01-02", s)\<close> succeeds, for a string of that shape.\<close>

definition validDate :: "string \<Rightarrow> bool" where
  "validDate s \<longleftrightarrow> (let y = digits_value (take 4 s); m = two_digits s 5; d = two_digits s 8 in
     1 \<le> m \<and> m \<le> 12 \<and> 1 \<le> d \<and> d \<le> daysIn m y)"

definition validSegmentPath :: "string \<Rightarrow> bool" where
  "validSegmentPath path \<longleftrightarrow>
     \<not> (path = [] \<or> containsAny [CHR ''%'', CHR ''?'', CHR ''#'', CHR 0x5C, CHR 0x5C] path \<or>
        hasPrefix ''/'' path \<or> strContains ''..'' path) \<and>
     segment_shape path \<and> validDate path \<and>
     two_digits path 11 \<le> 23 \<and> two_digits path 14 \<le> 59 \<and> two_digits path 17 \<le> 59 \<and>
     ParseUint 32 (take (length path - 23) (drop 20 path)) \<noteq> None"

definition allowedManifestTag :: "string \<Rightarrow> bool" where
  "allowedManifestTag line \<longleftrightarrow>
     \<not> (strContains ''URI='' line \<or> strContains ''../'' line \<or> strContains [CHR 0x5C] line) \<and>
     (line = ''#EXTM3U'' \<or> hasPrefix ''#EXTINF:'' line \<or> hasPrefix ''#EXT-X-VERSION:'' line \<or>
      hasPrefix ''#EXT-X-TARGETDURATION:'' line \<or> hasPrefix ''#EXT-X-MEDIA-SEQUENCE:'' line \<or>
      hasPrefix ''#EXT-X-DISCONTINUITY-SEQUENCE:'' line \<or> line = ''#EXT-X-DISCONTINUITY'' \<or>
      hasPrefix ''#EXT-X-PROGRAM-DATE-TIME:'' line \<or> line = ''#EXT-X-GAP'' \<or>
      line = ''#EXT-X-INDEPENDENT-SEGMENTS'' \<or> line = ''#EXT-X-ENDLIST'' \<or>
      line = ''#EXT-X-PLAYLIST-TYPE:EVENT'')"

subsection \<open>Rewriting a playlist\<close>

abbreviation LF :: char where "LF \<equiv> CHR 0x0A"
abbreviation CR :: char where "CR \<equiv> CHR 0x0D"

text \<open>\<open>strings.ReplaceAll(s, "\r\n", "\n")\<close>.\<close>

fun crlf_to_lf :: "string \<Rightarrow> string" where
  "crlf_to_lf [] = []"
| "crlf_to_lf [c] = [c]"
| "crlf_to_lf (c # d # s) = (if c = CR \<and> d = LF then LF # crlf_to_lf s else c # crlf_to_lf (d # s))"

definition trimNewline :: "string \<Rightarrow> string" where
  "trimNewline s = (if hasSuffix [LF] s then butlast s else s)"

definition manifest_lines :: "string \<Rightarrow> string list" where
  "manifest_lines manifest = splitOn LF (trimNewline (crlf_to_lf manifest))"

text \<open>The first loop of \<open>rewriteManifest\<close>: the indices of the segment lines.\<close>

fun segmentLines :: "nat \<Rightarrow> string list \<Rightarrow> (media_error, nat list) result" where
  "segmentLines i [] = Inr []"
| "segmentLines i (line # lines) =
     require (\<not> containsAny [CHR 0x00, CR] line) MBadMedia
     (if hasPrefix ''#'' line then
        require (allowedManifestTag line) MBadMedia (segmentLines (i + 1) lines)
      else require (\<not> (i = 0 \<or> line = [])) MBadMedia
        (require (validSegmentPath line) MBadMedia
        (after (segmentLines (i + 1) lines) (\<lambda>is. Inr (i # is)))))"

definition segment_url :: "string \<Rightarrow> string \<Rightarrow> string \<Rightarrow> string" where
  "segment_url rawToken sessionID segmentID =
     ''/media/v1/'' @ pathEscape rawToken @ ''/'' @ pathEscape sessionID @ ''/segments/'' @ pathEscape segmentID"

text \<open>The second loop; \<open>k\<close> counts the identifiers.\<close>

fun rewrite_segments ::
  "(nat \<Rightarrow> string) \<Rightarrow> MediaAccess \<Rightarrow> string \<Rightarrow> string list \<Rightarrow> nat \<Rightarrow> nat list \<Rightarrow> string list \<Rightarrow>
   SegmentMapping list \<times> string list" where
  "rewrite_segments ids access rawToken lines k [] rewritten = ([], rewritten)"
| "rewrite_segments ids access rawToken lines k (i # is) rewritten =
     (let (mappings, rewritten) = rewrite_segments ids access rawToken lines (k + 1) is
            (rewritten[i := segment_url rawToken (ma_SessionID access) (ids k)])
      in (\<lparr>sm_ID = ids k, sm_SessionID = ma_SessionID access, sm_StreamID = ma_StreamID access,
           sm_SourceVersion = ma_SourceVersion access, sm_Path = lines ! i\<rparr> # mappings, rewritten))"

text \<open>The last loop, over lists of the same length.\<close>

definition created_as_requested :: "MediaAccess \<Rightarrow> SegmentMapping list \<Rightarrow> SegmentMapping list \<Rightarrow> bool" where
  "created_as_requested access created mappings \<longleftrightarrow> list_all2 (\<lambda>mapping requested.
     \<not> (sm_ID mapping = [] \<or> sm_ID mapping \<noteq> sm_ID requested \<or> sm_SessionID mapping \<noteq> ma_SessionID access \<or>
        sm_StreamID mapping \<noteq> ma_StreamID access \<or> sm_SourceVersion mapping \<noteq> ma_SourceVersion access \<or>
        sm_Path mapping \<noteq> sm_Path requested \<or> \<not> validSegmentPath (sm_Path mapping))) created mappings"

definition rewriteManifest ::
  "'s playback_config \<Rightarrow> (nat \<Rightarrow> string) \<Rightarrow> MediaAccess \<Rightarrow> string \<Rightarrow> string \<Rightarrow> 's \<Rightarrow>
   (media_error, string) result \<times> 's" where
  "rewriteManifest cfg ids access rawToken manifest s =
     (let lines = manifest_lines manifest in
      case pc_Mappings cfg of
        None \<Rightarrow> (Inl MBadMedia, s)
      | Some store \<Rightarrow>
          if lines ! 0 \<noteq> ''#EXTM3U'' then (Inl MBadMedia, s)
          else (case segmentLines 0 lines of
            Inl err \<Rightarrow> (Inl err, s)
          | Inr is \<Rightarrow>
              (let (mappings, rewritten) = rewrite_segments ids access rawToken lines 0 is lines;
                   output = joinWith [LF] rewritten @ [LF]
               in if length output > MaxManifestBytes then (Inl MBadMedia, s)
                  else (case mm_Create store s mappings of
                    (Inl err, s) \<Rightarrow> (Inl (normalizeMediaStoreError err), s)
                  | (Inr created, s) \<Rightarrow>
                      if length created \<noteq> length mappings then (Inl MUnavailable, s)
                      else if \<not> created_as_requested access created mappings then (Inl MBadMedia, s)
                      else (Inr output, s)))))"

subsection \<open>Serving the playlist and its segments\<close>

text \<open>The context is never nil here: the handler passes the one of the request.\<close>

definition ReadManifest ::
  "playback_env \<Rightarrow> 's playback_config \<Rightarrow> time \<Rightarrow> (nat \<Rightarrow> string) \<Rightarrow> string \<Rightarrow> string \<Rightarrow> 's \<Rightarrow>
   (media_error, string) result \<times> 's" where
  "ReadManifest env cfg now ids rawToken sessionID s =
     (case AuthorizeMedia env cfg now rawToken sessionID s of
        (Inl err, s) \<Rightarrow> (Inl err, s)
      | (Inr access, s) \<Rightarrow>
          (case pc_Manifest cfg of
             None \<Rightarrow> (Inl MUnavailable, s)
           | Some FetchManifest \<Rightarrow>
               (case FetchManifest access of
                  Inl err \<Rightarrow> (Inl (normalizeMediaSourceError err), s)
                | Inr manifest \<Rightarrow>
                    if length manifest = 0 \<or> length manifest > MaxManifestBytes then (Inl MBadMedia, s)
                    else rewriteManifest cfg ids access rawToken manifest s)))"

definition ReadSegment ::
  "playback_env \<Rightarrow> 's playback_config \<Rightarrow> time \<Rightarrow> string \<Rightarrow> string \<Rightarrow> string \<Rightarrow> 's \<Rightarrow>
   (media_error, string) result \<times> 's" where
  "ReadSegment env cfg now rawToken sessionID segmentID s =
     (case AuthorizeMedia env cfg now rawToken sessionID s of
        (Inl err, s) \<Rightarrow> (Inl err, s)
      | (Inr access, s) \<Rightarrow>
          (case (pc_Segments cfg, pc_Mappings cfg) of
             (Some FetchSegment, Some store) \<Rightarrow>
               if segmentID = [] then (Inl MUnavailable, s)
               else (case mm_Resolve store s sessionID segmentID of
                 (Inl err, s) \<Rightarrow> (Inl (normalizeMediaStoreError err), s)
               | (Inr mapping, s) \<Rightarrow>
                   if sm_ID mapping \<noteq> segmentID \<or> sm_SessionID mapping \<noteq> sessionID \<or>
                      sm_StreamID mapping \<noteq> ma_StreamID access \<or>
                      sm_SourceVersion mapping \<noteq> ma_SourceVersion access \<or>
                      \<not> validSegmentPath (sm_Path mapping) then (Inl MNotFound, s)
                   else (case FetchSegment access (sm_Path mapping) of
                     Inl err \<Rightarrow> (Inl (normalizeMediaSourceError err), s)
                   | Inr segment \<Rightarrow>
                       if length segment = 0 \<or> length segment > MaxSegmentBytes then (Inl MBadMedia, s)
                       else (Inr segment, s)))
           | _ \<Rightarrow> (Inl MUnavailable, s)))"


subsection \<open>What a rewritten playlist says\<close>

lemma crlf_to_lf_id: "CR \<notin> set s \<Longrightarrow> crlf_to_lf s = s"
  by (induction s rule: crlf_to_lf.induct) auto

lemma trimNewline_append [simp]: "trimNewline (s @ [LF]) = s"
  by (simp add: trimNewline_def hasSuffix_def)

lemma manifest_lines_join:
  assumes "lines \<noteq> []" "\<forall>l\<in>set lines. CR \<notin> set l \<and> LF \<notin> set l"
  shows "manifest_lines (joinWith [LF] lines @ [LF]) = lines"
proof -
  have "set (joinWith [LF] lines) \<subseteq> insert LF (\<Union>l\<in>set lines. set l)"
    by (induction "[LF] :: string" lines rule: joinWith.induct) auto
  then have "CR \<notin> set (joinWith [LF] lines @ [LF])"
    using assms(2) by auto
  then show ?thesis
    using assms by (simp add: manifest_lines_def crlf_to_lf_id split_join)
qed

lemma manifest_lines_LF: "l \<in> set (manifest_lines m) \<Longrightarrow> LF \<notin> set l"
  by (auto simp: manifest_lines_def dest: splitOn_parts)

lemma manifest_lines_not_nil [simp]: "manifest_lines m \<noteq> []"
  by (simp add: manifest_lines_def)

text \<open>The lines the first loop lets through.\<close>

definition playlist_line :: "string \<Rightarrow> bool" where
  "playlist_line l \<longleftrightarrow> \<not> containsAny [CHR 0x00, CR] l \<and>
     (if hasPrefix ''#'' l then allowedManifestTag l else validSegmentPath l)"

lemma segmentLines_Inr:
  "segmentLines i lines = Inr is \<Longrightarrow>
     (\<forall>l\<in>set lines. playlist_line l) \<and>
     (\<forall>j<length lines. i + j \<in> set is \<longleftrightarrow> \<not> hasPrefix ''#'' (lines ! j)) \<and> (\<forall>n\<in>set is. i \<le> n)"
proof (induction lines arbitrary: i "is")
  case Nil
  then show ?case by simp
next
  case (Cons l lines)
  show ?case
  proof (cases "hasPrefix ''#'' l")
    case True
    then have r: "segmentLines (i + 1) lines = Inr is" and l: "playlist_line l"
      using Cons.prems by (simp_all add: iolink_simps playlist_line_def)
    from Cons.IH [OF r] have IH:
      "\<forall>l\<in>set lines. playlist_line l"
      "\<And>j. j < length lines \<Longrightarrow> i + 1 + j \<in> set is \<longleftrightarrow> \<not> hasPrefix ''#'' (lines ! j)"
      "\<forall>n\<in>set is. i + 1 \<le> n" by auto
    have "i \<notin> set is" using IH(3) by auto
    have "i + j \<in> set is \<longleftrightarrow> \<not> hasPrefix ''#'' ((l # lines) ! j)" if "j < length (l # lines)" for j
      using that True \<open>i \<notin> set is\<close> IH(2) [of "j - 1"] by (cases j) simp_all
    then show ?thesis using l IH by auto
  next
    case False
    then obtain is' where r: "segmentLines (i + 1) lines = Inr is'" and l: "playlist_line l"
      and is_eq: "is = i # is'"
      using Cons.prems by (auto simp: iolink_simps playlist_line_def)
    from Cons.IH [OF r] have IH:
      "\<forall>l\<in>set lines. playlist_line l"
      "\<And>j. j < length lines \<Longrightarrow> i + 1 + j \<in> set is' \<longleftrightarrow> \<not> hasPrefix ''#'' (lines ! j)"
      "\<forall>n\<in>set is'. i + 1 \<le> n" by auto
    have "i + j \<in> set is \<longleftrightarrow> \<not> hasPrefix ''#'' ((l # lines) ! j)" if "j < length (l # lines)" for j
      using that False is_eq IH(2) [of "j - 1"] by (cases j) simp_all
    then show ?thesis using l IH is_eq by auto
  qed
qed

lemma rewrite_segments_ids:
  "rewrite_segments ids a raw lines k is rw = (ms, out) \<Longrightarrow> map sm_ID ms = map ids [k..<k + length is]"
proof (induction "is" arbitrary: k rw ms out)
  case (Cons i "is")
  obtain ms' where ms': "rewrite_segments ids a raw lines (k + 1) is
      (rw[i := segment_url raw (ma_SessionID a) (ids k)]) = (ms', out)"
    and ms: "map sm_ID ms = ids k # map sm_ID ms'"
    using Cons.prems by (auto simp: Let_def split: prod.splits)
  have "[k..<k + length (i # is)] = k # [k + 1..<k + 1 + length is]"
    using upt_conv_Cons [of k "k + length (i # is)"] by simp
  then show ?case using ms Cons.IH [OF ms'] by simp
qed simp

lemma rewrite_segments_lines:
  "rewrite_segments ids a raw lines k is rw = (ms, out) \<Longrightarrow> length out = length rw \<and>
     (\<forall>i<length rw. (i \<notin> set is \<and> out ! i = rw ! i) \<or>
        (\<exists>m\<in>set ms. i \<in> set is \<and> out ! i = segment_url raw (ma_SessionID a) (sm_ID m) \<and> sm_Path m = lines ! i))"
proof (induction "is" arbitrary: k rw ms out)
  case (Cons i "is")
  define m where "m = \<lparr>sm_ID = ids k, sm_SessionID = ma_SessionID a, sm_StreamID = ma_StreamID a,
    sm_SourceVersion = ma_SourceVersion a, sm_Path = lines ! i\<rparr>"
  define rw' where "rw' = rw[i := segment_url raw (ma_SessionID a) (ids k)]"
  obtain ms' where ms': "rewrite_segments ids a raw lines (k + 1) is rw' = (ms', out)" and ms: "ms = m # ms'"
    using Cons.prems by (auto simp: m_def rw'_def Let_def split: prod.splits)
  from Cons.IH [OF ms'] have len: "length out = length rw"
    and IH: "\<And>j. j < length rw \<Longrightarrow> (j \<notin> set is \<and> out ! j = rw' ! j) \<or>
        (\<exists>m\<in>set ms'. j \<in> set is \<and> out ! j = segment_url raw (ma_SessionID a) (sm_ID m) \<and> sm_Path m = lines ! j)"
    by (auto simp: rw'_def)
  have "(j \<notin> set (i # is) \<and> out ! j = rw ! j) \<or>
        (\<exists>m\<in>set ms. j \<in> set (i # is) \<and> out ! j = segment_url raw (ma_SessionID a) (sm_ID m) \<and> sm_Path m = lines ! j)"
    if j: "j < length rw" for j
  proof (cases "j \<in> set is")
    case True
    then show ?thesis using IH [OF j] ms by auto
  next
    case False
    then have "out ! j = rw' ! j" using IH [OF j] by auto
    then show ?thesis
      using False j by (cases "j = i") (auto simp: ms m_def rw'_def)
  qed
  then show ?case using len by simp
qed simp

lemma created_as_requested_eq:
  assumes "created_as_requested a created ms"
    "\<forall>m\<in>set ms. sm_SessionID m = ma_SessionID a \<and> sm_StreamID m = ma_StreamID a \<and> sm_SourceVersion m = ma_SourceVersion a"
  shows "created = ms"
  using assms unfolding created_as_requested_def
  by (induction created ms rule: list_all2_induct) auto

lemma rewrite_segments_access:
  "rewrite_segments ids a raw lines k is rw = (ms, out) \<Longrightarrow>
   \<forall>m\<in>set ms. sm_SessionID m = ma_SessionID a \<and> sm_StreamID m = ma_StreamID a \<and> sm_SourceVersion m = ma_SourceVersion a"
proof (induction "is" arbitrary: k rw ms out)
  case (Cons i "is")
  then obtain ms' where "rewrite_segments ids a raw lines (k + 1) is
      (rw[i := segment_url raw (ma_SessionID a) (ids k)]) = (ms', out)"
    and "ms = \<lparr>sm_ID = ids k, sm_SessionID = ma_SessionID a, sm_StreamID = ma_StreamID a,
      sm_SourceVersion = ma_SourceVersion a, sm_Path = lines ! i\<rparr> # ms'"
    by (auto simp: Let_def split: prod.splits)
  then show ?case using Cons.IH by auto
qed simp

text \<open>A successful rewrite, in one place.\<close>

lemma rewriteManifest_ok:
  assumes "rewriteManifest cfg ids a raw manifest s = (Inr out, s')"
  obtains store ms "is" rw where
    "pc_Mappings cfg = Some store"
    "segmentLines 0 (manifest_lines manifest) = Inr is"
    "rewrite_segments ids a raw (manifest_lines manifest) 0 is (manifest_lines manifest) = (ms, rw)"
    "out = joinWith [LF] rw @ [LF]" "length out \<le> MaxManifestBytes"
    "mm_Create store s ms = (Inr ms, s')" "\<forall>m\<in>set ms. validSegmentPath (sm_Path m) \<and> sm_ID m \<noteq> []"
proof -
  obtain ms rw "is" store where 1: "pc_Mappings cfg = Some store"
    "segmentLines 0 (manifest_lines manifest) = Inr is"
    "rewrite_segments ids a raw (manifest_lines manifest) 0 is (manifest_lines manifest) = (ms, rw)"
    using assms by (auto simp: rewriteManifest_def Let_def split: option.splits if_splits sum.splits prod.splits)
  then obtain created where 2: "mm_Create store s ms = (Inr created, s')" "created_as_requested a created ms"
      "out = joinWith [LF] rw @ [LF]" "length out \<le> MaxManifestBytes"
    using assms by (auto simp: rewriteManifest_def Let_def split: option.splits if_splits sum.splits prod.splits)
  have "created = ms"
    using created_as_requested_eq [OF 2(2) rewrite_segments_access [OF 1(3)]] .
  moreover have "\<forall>m\<in>set ms. validSegmentPath (sm_Path m) \<and> sm_ID m \<noteq> []"
    using 2(2) unfolding \<open>created = ms\<close> created_as_requested_def
    by (auto simp: list_all2_same)
  ultimately show thesis using that 1 2 by blast
qed

text \<open>What a player's request for a line means: the path the line stands for.\<close>

definition player_line :: "SegmentMapping list \<Rightarrow> string \<Rightarrow> string option" where
  "player_line mappings l =
     (if hasPrefix ''#'' l then Some l
      else (case splitOn CHR ''/'' l of
        [_, _, _, _, _, _, part] \<Rightarrow>
          (case pathUnescape part of
             None \<Rightarrow> None
           | Some segmentID \<Rightarrow> map_option sm_Path (find (\<lambda>m. sm_ID m = segmentID) mappings))
      | _ \<Rightarrow> None))"

lemma segment_url_split:
  "splitOn CHR ''/'' (segment_url raw sess sid) =
     [[], ''media'', ''v1'', pathEscape raw, pathEscape sess, ''segments'', pathEscape sid]"
proof -
  have "segment_url raw sess sid = joinWith ''/''
      [[], ''media'', ''v1'', pathEscape raw, pathEscape sess, ''segments'', pathEscape sid]"
    by (simp add: segment_url_def)
  moreover have "\<forall>x\<in>set [[], ''media'', ''v1'', pathEscape raw, pathEscape sess, ''segments'', pathEscape sid].
      CHR ''/'' \<notin> set x"
    by (simp add: pathEscape_plain)
  ultimately show ?thesis
    by (metis split_join list.distinct(1))
qed

lemma segment_url_plain:
  "CR \<notin> set (segment_url raw sess sid)" "LF \<notin> set (segment_url raw sess sid)"
  "\<not> hasPrefix ''#'' (segment_url raw sess sid)"
  by (simp_all add: segment_url_def pathEscape_plain hasPrefix_def)

lemma player_line_tag: "hasPrefix ''#'' l \<Longrightarrow> player_line ms l = Some l"
  by (simp add: player_line_def)

lemma player_line_url:
  assumes "m \<in> set ms" "distinct (map sm_ID ms)"
  shows "player_line ms (segment_url raw sess (sm_ID m)) = Some (sm_Path m)"
proof -
  have "find (\<lambda>q. sm_ID q = sm_ID m) ms = Some m"
    using assms by (induction ms) (auto simp: image_iff)
  then show ?thesis
    by (simp add: player_line_def segment_url_split segment_url_plain)
qed

text \<open>Every line of the output against the line it replaces.\<close>

lemma rewritten_lines:
  assumes "segmentLines 0 lines = Inr is" "rewrite_segments ids a raw lines 0 is lines = (ms, rw)"
  shows "length rw = length lines"
    "i < length lines \<Longrightarrow> (hasPrefix ''#'' (lines ! i) \<and> rw ! i = lines ! i) \<or>
       (\<exists>m\<in>set ms. rw ! i = segment_url raw (ma_SessionID a) (sm_ID m) \<and> sm_Path m = lines ! i)"
  using segmentLines_Inr [OF assms(1)] rewrite_segments_lines [OF assms(2)] by auto

lemma rewritten_plain:
  assumes "segmentLines 0 (manifest_lines m) = Inr is"
    "rewrite_segments ids a raw (manifest_lines m) 0 is (manifest_lines m) = (ms, rw)"
  shows "manifest_lines (joinWith [LF] rw @ [LF]) = rw"
proof (rule manifest_lines_join)
  note rl = rewritten_lines [OF assms]
  show "rw \<noteq> []" using rl(1) by auto
  have "CR \<notin> set (rw ! i) \<and> LF \<notin> set (rw ! i)" if i: "i < length rw" for i
  proof -
    have mem: "manifest_lines m ! i \<in> set (manifest_lines m)" using i rl(1) by simp
    then have "CR \<notin> set (manifest_lines m ! i)" "LF \<notin> set (manifest_lines m ! i)"
      using segmentLines_Inr [OF assms(1)] manifest_lines_LF
      by (auto simp: playlist_line_def containsAny_iff)
    then show ?thesis
      using rl(2) [of i] i rl(1) segment_url_plain by auto
  qed
  then show "\<forall>l\<in>set rw. CR \<notin> set l \<and> LF \<notin> set l"
    by (auto simp: in_set_conv_nth)
qed

text \<open>C18: Rewriting a playlist loses nothing: the store is asked to create one mapping per
  segment line, and a player that follows the links of the output through these mappings reads the
  lines of the original playlist (with \<open>CR LF\<close> as \<open>LF\<close> and without the last line end), in order,
  tags unchanged.\<close>

theorem manifest_round_trip:
  assumes "rewriteManifest cfg ids access rawToken manifest s = (Inr output, s')" "inj ids"
  shows "\<exists>store mappings. pc_Mappings cfg = Some store \<and> mm_Create store s mappings = (Inr mappings, s') \<and>
     map (player_line mappings) (manifest_lines output) = map Some (manifest_lines manifest)"
proof -
  obtain store ms "is" rw where 1: "pc_Mappings cfg = Some store"
    "segmentLines 0 (manifest_lines manifest) = Inr is"
    "rewrite_segments ids access rawToken (manifest_lines manifest) 0 is (manifest_lines manifest) = (ms, rw)"
    "output = joinWith [LF] rw @ [LF]" "mm_Create store s ms = (Inr ms, s')"
    using rewriteManifest_ok [OF assms(1)] by metis
  note rl = rewritten_lines [OF 1(2,3)]
  have d: "distinct (map sm_ID ms)"
    using rewrite_segments_ids [OF 1(3)] assms(2) by (simp add: distinct_map inj_on_subset [OF _ subset_UNIV])
  have "map (player_line ms) rw = map Some (manifest_lines manifest)"
  proof (rule nth_equalityI)
    fix i assume "i < length (map (player_line ms) rw)"
    then show "map (player_line ms) rw ! i = map Some (manifest_lines manifest) ! i"
      using rl player_line_tag player_line_url [OF _ d] by fastforce
  qed (simp add: rl(1))
  then show ?thesis
    using 1 rewritten_plain [OF 1(2,3)] by auto
qed

text \<open>A playlist that is served is clean: at most 256 KiB, and every line is an allowed tag
  or the link of a segment of the session the token was checked for. No path, host or key of the
  media provider is in it.\<close>

theorem served_manifest_clean:
  assumes "ReadManifest env cfg now ids rawToken sessionID s = (Inr output, s')"
  shows "length output \<le> MaxManifestBytes \<and>
     (\<forall>l\<in>set (manifest_lines output). allowedManifestTag l \<or>
        (\<exists>segmentID. segmentID \<noteq> [] \<and> l = segment_url rawToken sessionID segmentID))"
proof -
  obtain access manifest s1 where a: "AuthorizeMedia env cfg now rawToken sessionID s = (Inr access, s1)"
    and r: "rewriteManifest cfg ids access rawToken manifest s1 = (Inr output, s')"
    using assms by (auto simp: ReadManifest_def split: prod.splits sum.splits option.splits if_splits)
  have sess: "ma_SessionID access = sessionID"
    using a by (auto simp: AuthorizeMedia_def split: prod.splits sum.splits option.splits if_splits)
  obtain ms "is" rw where 1: "segmentLines 0 (manifest_lines manifest) = Inr is"
    "rewrite_segments ids access rawToken (manifest_lines manifest) 0 is (manifest_lines manifest) = (ms, rw)"
    "output = joinWith [LF] rw @ [LF]" "length output \<le> MaxManifestBytes"
    "\<forall>m\<in>set ms. validSegmentPath (sm_Path m) \<and> sm_ID m \<noteq> []"
    using rewriteManifest_ok [OF r] by metis
  note rl = rewritten_lines [OF 1(1,2)]
  have line: "allowedManifestTag (rw ! i) \<or>
        (\<exists>segmentID. segmentID \<noteq> [] \<and> rw ! i = segment_url rawToken sessionID segmentID)"
    if i: "i < length rw" for i
  proof -
    have "playlist_line (manifest_lines manifest ! i)"
      using segmentLines_Inr [OF 1(1)] i rl(1) by auto
    then show ?thesis
      using rl(2) [of i] i rl(1) 1(5) sess by (auto simp: playlist_line_def)
  qed
  have "manifest_lines output = rw"
    using rewritten_plain [OF 1(1,2)] 1(3) by simp
  moreover have "\<forall>l\<in>set rw. allowedManifestTag l \<or>
        (\<exists>segmentID. segmentID \<noteq> [] \<and> l = segment_url rawToken sessionID segmentID)"
    unfolding all_set_conv_all_nth using line by blast
  ultimately show ?thesis using 1(4) by simp
qed

text \<open>A segment is served only under an access that was authorised for this token and
  session, and only from a path the store has for this identifier, session, stream and source
  version; the path has the provider's shape, so it leaves no directory.\<close>

theorem served_segment_mapped:
  assumes "ReadSegment env cfg now rawToken sessionID segmentID s = (Inr segment, s')"
  shows "\<exists>access s1 store mapping FetchSegment.
     AuthorizeMedia env cfg now rawToken sessionID s = (Inr access, s1) \<and>
     pc_Mappings cfg = Some store \<and> mm_Resolve store s1 sessionID segmentID = (Inr mapping, s') \<and>
     pc_Segments cfg = Some FetchSegment \<and> FetchSegment access (sm_Path mapping) = Inr segment \<and>
     sm_ID mapping = segmentID \<and> sm_SessionID mapping = ma_SessionID access \<and>
     sm_StreamID mapping = ma_StreamID access \<and> sm_SourceVersion mapping = ma_SourceVersion access \<and>
     validSegmentPath (sm_Path mapping) \<and> \<not> strContains ''..'' (sm_Path mapping) \<and>
     \<not> hasPrefix ''/'' (sm_Path mapping) \<and> segment \<noteq> [] \<and> length segment \<le> MaxSegmentBytes"
proof -
  obtain access s1 store mapping FetchSegment where
    1: "AuthorizeMedia env cfg now rawToken sessionID s = (Inr access, s1)"
    "pc_Mappings cfg = Some store" "mm_Resolve store s1 sessionID segmentID = (Inr mapping, s')"
    "pc_Segments cfg = Some FetchSegment" "FetchSegment access (sm_Path mapping) = Inr segment"
    "sm_ID mapping = segmentID" "sm_SessionID mapping = sessionID"
    "sm_StreamID mapping = ma_StreamID access" "sm_SourceVersion mapping = ma_SourceVersion access"
    "validSegmentPath (sm_Path mapping)" "segment \<noteq> []" "length segment \<le> MaxSegmentBytes"
    using assms by (auto simp: ReadSegment_def split: prod.splits sum.splits option.splits if_splits)
  moreover have "ma_SessionID access = sessionID"
    using 1(1) by (auto simp: AuthorizeMedia_def split: prod.splits sum.splits option.splits if_splits)
  ultimately show ?thesis by (auto simp: validSegmentPath_def)
qed

end
