(* ===== verification/Media_Revocation.thy ===== *)
theory Media_Revocation
  imports Media_Run
begin

text \<open>
  More runs of the media store: a session that is over is over for good, whatever calls follow; the
  segment mappings a playlist created are the ones its segments resolve to; and a start job can be
  finished only while a session waits for it.
\<close>

subsection \<open>Sessions that are over\<close>

definition session_over :: "string \<Rightarrow> media_db \<Rightarrow> bool" where
  "session_over sid db \<longleftrightarrow> sid \<in> se_ID ` set (db_sessions db) \<and>
     (\<forall>r \<in> set (db_sessions db). se_ID r = sid \<longrightarrow> \<not> live_state (se_State r))"

text \<open>A pass over the sessions that keeps identifiers and revives none.\<close>

lemma session_over_map:
  assumes "session_over sid db" "db_sessions db' = map f (db_sessions db)"
    "\<And>r. se_ID (f r) = se_ID r" "\<And>r. \<not> live_state (se_State r) \<Longrightarrow> \<not> live_state (se_State (f r))"
  shows "session_over sid db'"
  using assms by (auto simp: session_over_def image_iff)

lemma session_over_same: "session_over sid db \<Longrightarrow> db_sessions db' = db_sessions db \<Longrightarrow> session_over sid db'"
  by (simp add: session_over_def)

lemma filter_map_id:
  "(\<And>r. P (f r) \<longleftrightarrow> P r) \<Longrightarrow> (\<And>r. P r \<Longrightarrow> f r = r) \<Longrightarrow> filter P (map f l) = filter P l"
  by (induction l) auto

lemma share_start_job_others:
  "se_ID (cs_Session i) \<noteq> sid \<Longrightarrow>
   ok (\<lambda>(state, db'). filter (\<lambda>r. se_ID r = sid) (db_sessions db') = filter (\<lambda>r. se_ID r = sid) (db_sessions db))
     (share_start_job e x i streamID db)"
  unfolding share_start_job_def Let_def
  by (intro ok_rules) (auto intro!: filter_map_id)

lemma Create_others_tail:
  assumes "ensureStream e x 5 i db = Inr (streamID, db1)"
    and "insert_session (new_session e i streamID) (db_sessions db1) = Inr sessions"
    and "(if inserted then Inr (se_State (cs_Session i), db1\<lparr>db_sessions := sessions, db_jobs := jobs\<rparr>)
      else share_start_job e x i streamID (db1\<lparr>db_sessions := sessions, db_jobs := jobs\<rparr>)) = Inr (state, db')"
    and "sid \<in> se_ID ` set (db_sessions db)"
  shows "filter (\<lambda>r. se_ID r = sid) (db_sessions db') = filter (\<lambda>r. se_ID r = sid) (db_sessions db)"
proof -
  have same: "db_sessions db1 = db_sessions db"
    using okD[OF ensureStream_ok assms(1)] by auto
  then have s: "sessions = db_sessions db @ [new_session e i streamID]"
    and new: "\<forall>q \<in> set (db_sessions db). se_ID q \<noteq> se_ID (new_session e i streamID)"
    using assms(2) by (auto simp: insert_session_Inr)
  then have ne: "se_ID (cs_Session i) \<noteq> sid"
    using assms(4) by (auto simp: new_session_def Let_def)
  then have "filter (\<lambda>r. se_ID r = sid) sessions = filter (\<lambda>r. se_ID r = sid) (db_sessions db)"
    by (simp add: s new_session_def Let_def)
  then show ?thesis
    using assms(3) okD[OF share_start_job_others[OF ne]] by (fastforce split: if_split_asm)
qed

lemma Create_others:
  assumes "sid \<in> se_ID ` set (db_sessions db)"
  shows "ok (\<lambda>(s, db'). filter (\<lambda>r. se_ID r = sid) (db_sessions db') = filter (\<lambda>r. se_ID r = sid) (db_sessions db))
    (mpg_CreatePlayback e x ctx i db)"
  unfolding mpg_CreatePlayback_def Let_def
  by (intro ok_rules) (simp_all add: Create_others_tail[OF _ _ _ assms])

lemma session_over_filter:
  assumes "filter (\<lambda>r. se_ID r = sid) (db_sessions db') = filter (\<lambda>r. se_ID r = sid) (db_sessions db)"
  shows "session_over sid db' \<longleftrightarrow> session_over sid db"
proof -
  have "session_over sid d \<longleftrightarrow> filter (\<lambda>r. se_ID r = sid) (db_sessions d) \<noteq> [] \<and>
      list_all (\<lambda>r. \<not> live_state (se_State r)) (filter (\<lambda>r. se_ID r = sid) (db_sessions d))" for d
    by (auto simp: session_over_def filter_empty_conv list_all_iff)
  then show ?thesis using assms by simp
qed

lemma Create_over: "session_over sid db \<Longrightarrow> ok (\<lambda>(s, db'). session_over sid db') (mpg_CreatePlayback e x ctx i db)"
proof -
  assume over: "session_over sid db"
  then have "sid \<in> se_ID ` set (db_sessions db)" by (simp add: session_over_def)
  from Create_others[OF this] show ?thesis
    by (rule ok_weaken) (use over session_over_filter in blast)
qed

lemma Stop_over:
  "session_over sid db \<Longrightarrow> ok (\<lambda>(s, db'). session_over sid db') (mpg_StopOwnedPlayback e x ctx i now db)"
proof (rule okI, clarify)
  fix v db' assume over: "session_over sid db" and c: "mpg_StopOwnedPlayback e x ctx i now db = Inr (v, db')"
  let ?upd = "\<lambda>r. if se_ID r = i \<and> live_state (se_State r) then revoke (tx_clock x 4) r else r"
  have "db_sessions db' = db_sessions db \<or> db_sessions db' = map ?upd (db_sessions db)"
    using c by (cases rule: Stop_Inr) simp_all
  then show "session_over sid db'"
    using session_over_same[OF over] session_over_map[OF over, of db' ?upd] by auto
qed

lemma Finish_over:
  "session_over sid db \<Longrightarrow> ok (\<lambda>(u, db'). session_over sid db') (mpg_FinishJob e x l r now db)"
proof (rule okI, clarify)
  fix a db' assume over: "session_over sid db" and "mpg_FinishJob e x l r now db = Inr (a, db')"
  from Finish_effect[OF this(2)] consider "db_sessions db' = db_sessions db"
    | st code where "\<not> live_state st \<or> st = SessionReady"
        "db_sessions db' = end_pending (jb_StreamID l) st code (db_sessions db)"
    | y where "db_sessions db' = revoke_live (jb_StreamID l) y (db_sessions db)"
    by (auto simp: live_state_def)
  then show "session_over sid db'"
  proof cases
    case (2 st code)
    show ?thesis
      by (rule session_over_map[OF over 2(2)[unfolded end_pending_def]]) (auto simp: live_state_def)
  next
    case (3 y)
    show ?thesis
      by (rule session_over_map[OF over 3[unfolded revoke_live_def]]) (auto simp: live_state_def)
  qed (rule session_over_same[OF over])
qed

lemma Claim_over: "session_over sid db \<Longrightarrow> ok (\<lambda>(u, db'). session_over sid db') (mpg_ClaimJob e x token now d w db)"
proof (rule okI, clarify)
  fix l db' assume over: "session_over sid db" and "mpg_ClaimJob e x token now d w db = Inr (l, db')"
  from this(2) have "db_sessions db' = db_sessions db"
    by (cases rule: Claim_Inr) simp_all
  then show "session_over sid db'" by (rule session_over_same[OF over])
qed

lemma Revalidate_over: "session_over sid db \<Longrightarrow> ok (\<lambda>(u, db'). session_over sid db') (mpg_RevalidateJob e x l db)"
proof (rule okI, clarify)
  fix a db' assume over: "session_over sid db" and "mpg_RevalidateJob e x l db = Inr (a, db')"
  then have "db_sessions db' = db_sessions db"
    using Revalidate_Inr by fastforce
  then show "session_over sid db'" by (rule session_over_same[OF over])
qed

lemma Segments_over: "session_over sid db \<Longrightarrow> ok (\<lambda>(u, db'). session_over sid db') (mpg_CreateSegmentMappings e x ms db)"
  by (rule ok_weaken[OF Segments_keeps]) (auto simp: session_over_def)

lemma media_step_over: "session_over sid db \<Longrightarrow> session_over sid (media_step e db c)"
  by (cases c)
    (simp_all add: left_by_ok Create_over Stop_over Claim_over Revalidate_over Finish_over Segments_over)

lemma revoked_over:
  assumes "sess \<in> set (db_sessions db)" "se_ID sess = i"
    "db_sessions db' = map (\<lambda>r. if se_ID r = i \<and> live_state (se_State r) then revoke t r else r) (db_sessions db)"
  shows "session_over i db'"
  unfolding session_over_def
proof
  let ?upd = "\<lambda>r. if se_ID r = i \<and> live_state (se_State r) then revoke t r else r"
  have "se_ID (?upd sess) = i" using assms(2) by simp
  moreover have "?upd sess \<in> set (db_sessions db')"
    unfolding assms(3) set_map using assms(1) by (rule imageI)
  ultimately show "i \<in> se_ID ` set (db_sessions db')" by (metis image_eqI)
  show "\<forall>r\<in>set (db_sessions db'). se_ID r = i \<longrightarrow> \<not> live_state (se_State r)"
  proof (intro ballI impI)
    fix r assume "r \<in> set (db_sessions db')" "se_ID r = i"
    then have "r \<in> ?upd ` set (db_sessions db)" using assms(3) by (metis set_map)
    then obtain q where q: "r = ?upd q" by (rule imageE)
    show "\<not> live_state (se_State r)"
    proof (cases "se_ID q = i \<and> live_state (se_State q)")
      case True
      with q have "r = revoke t q" by metis
      then show ?thesis by simp
    next
      case False
      with q have "r = q" by metis
      with False \<open>se_ID r = i\<close> show ?thesis by blast
    qed
  qed
qed

lemma media_run_over: "session_over sid db \<Longrightarrow> session_over sid (foldl (media_step e) db cs)"
  by (induction cs arbitrary: db) (simp_all add: media_step_over)

lemma over_not_authorized:
  assumes "session_over (mc_SessionID claims) db"
  shows "\<exists>err. mpg_AuthorizeMedia e x claims hash now db = Inl err"
proof (cases "mpg_AuthorizeMedia e x claims hash now db")
  case (Inr access)
  then obtain vs where "find (\<lambda>r. se_ID r = mc_SessionID claims) (db_sessions db) = Some vs"
    and "live_state (se_State vs)"
    by (auto simp: mpg_AuthorizeMedia_def iolink_simps Let_def live_state_def)
  then show ?thesis
    using find_mem[of _ "db_sessions db" vs] assms by (auto simp: session_over_def)
qed simp

text \<open>C19: A viewer that has stopped a playback has closed it: whatever calls of the store follow, by
  anyone and in any order, no request for the media of that session is ever authorised again, with
  whatever claims and token.\<close>

theorem stopped_session_stays_closed:
  assumes "media_inv db" and "mpg_StopOwnedPlayback e x ctx i now db = Inr (v, db1)"
    and "db2 = foldl (media_step e) db1 calls" and "mc_SessionID claims = i"
  shows "\<exists>err. mpg_AuthorizeMedia e x' claims hash now' db2 = Inl err"
proof -
  have pk: "distinct (map se_ID (db_sessions db))"
    using assms(1) by (simp add: media_inv_def keys_ok_def session_key_def o_def)
  have "session_over i db1"
    using assms(2)
  proof (cases rule: Stop_Inr)
    case (1 sess)
    have "r = sess" if "r \<in> set (db_sessions db)" "se_ID r = i" for r
      using inj_onD[OF conjunct2[OF pk[unfolded distinct_map]], of r sess] 1(1,2) that by simp
    then have "\<forall>r\<in>set (db_sessions db). se_ID r = i \<longrightarrow> \<not> live_state (se_State r)" using 1(4) by blast
    moreover have "i \<in> se_ID ` set (db_sessions db)" using 1(1,2) by (metis image_eqI)
    ultimately show ?thesis unfolding session_over_def 1(5) by (rule conjI[rotated])
  next
    case (2 sess)
    then show ?thesis by (intro revoked_over[of sess db i db1 "tx_clock x 4"]) simp_all
  next
    case (3 sess)
    then show ?thesis by (intro revoked_over[of sess db i db1 "tx_clock x 4"]) simp_all
  qed
  then show ?thesis
    using media_run_over over_not_authorized assms(3,4) by metis
qed


subsection \<open>Segment mappings\<close>

lemma map_segments_rows:
  "map_segments e x k ms db = Inr db' \<Longrightarrow> \<exists>rows. db' = db\<lparr>db_segments := db_segments db @ rows\<rparr> \<and>
     list_all2 (\<lambda>m q. sg_session_id q = sm_SessionID m \<and> sg_segment_id q = sm_ID m \<and> sg_provider_name q = sm_Path m \<and>
       (\<exists>r \<in> set (db_sessions db). se_ID r = sm_SessionID m \<and> se_StreamID r = sm_StreamID m \<and>
          se_SourceVersion r = sm_SourceVersion m \<and> sg_expires_at q = se_ExpiresAt r)) ms rows \<and>
     (\<forall>m \<in> set ms. validMapping e m)"
proof (induction ms arbitrary: k db)
  case (Cons m ms)
  from Cons.prems obtain r :: session_row and segs where
    v: "validMapping e m" and
    f: "find (\<lambda>r. se_ID r = sm_SessionID m \<and> se_StreamID r = sm_StreamID m \<and>
          se_SourceVersion r = sm_SourceVersion m \<and> live_state (se_State r) \<and>
          se_ExpiresAt r > tx_clock x (2 * k + 1)) (db_sessions db) = Some r" and
    ins: "insert_segment \<lparr>sg_session_id = sm_SessionID m, sg_segment_id = sm_ID m,
           sg_provider_name = sm_Path m, sg_expires_at = se_ExpiresAt r\<rparr> (db_segments db) = Inr segs"
    and rest: "map_segments e x (k + 1) ms (db\<lparr>db_segments := segs\<rparr>) = Inr db'"
    unfolding map_segments.simps require_Inr take_or_Inr after_Inr by blast
  define q where "q = \<lparr>sg_session_id = sm_SessionID m, sg_segment_id = sm_ID m,
           sg_provider_name = sm_Path m, sg_expires_at = se_ExpiresAt r\<rparr>"
  have segs: "segs = db_segments db @ [q]" using ins by (simp add: insert_segment_Inr q_def)
  from Cons.IH[OF rest] obtain rows where
    IH: "db' = db\<lparr>db_segments := segs @ rows\<rparr>"
    "list_all2 (\<lambda>m q. sg_session_id q = sm_SessionID m \<and> sg_segment_id q = sm_ID m \<and> sg_provider_name q = sm_Path m \<and>
       (\<exists>r \<in> set (db_sessions db). se_ID r = sm_SessionID m \<and> se_StreamID r = sm_StreamID m \<and>
          se_SourceVersion r = sm_SourceVersion m \<and> sg_expires_at q = se_ExpiresAt r)) ms rows"
    "\<forall>m \<in> set ms. validMapping e m" by auto
  show ?case
    by (intro exI[of _ "q # rows"]) (use IH v segs find_mem[OF f] in \<open>auto simp: q_def\<close>)
qed simp

definition segment_key :: "segment_row \<Rightarrow> string \<times> string" where
  "segment_key q = (sg_session_id q, sg_segment_id q)"

lemma map_segments_keys:
  "map_segments e x k ms db = Inr db' \<Longrightarrow> distinct (map segment_key (db_segments db)) \<Longrightarrow>
   distinct (map segment_key (db_segments db'))"
proof (induction ms arbitrary: k db)
  case (Cons m ms)
  from Cons.prems(1) obtain r :: session_row and segs where
    ins: "insert_segment \<lparr>sg_session_id = sm_SessionID m, sg_segment_id = sm_ID m,
           sg_provider_name = sm_Path m, sg_expires_at = se_ExpiresAt r\<rparr> (db_segments db) = Inr segs"
    and rest: "map_segments e x (k + 1) ms (db\<lparr>db_segments := segs\<rparr>) = Inr db'"
    unfolding map_segments.simps require_Inr take_or_Inr after_Inr by blast
  have "distinct (map segment_key segs)"
    using ins Cons.prems(2) unfolding segment_key_def[abs_def] by (auto simp: insert_segment_Inr)
  then show ?case using Cons.IH[OF rest] by simp
qed simp

lemma same_under_key:
  "distinct (map f l) \<Longrightarrow> a \<in> set l \<Longrightarrow> b \<in> set l \<Longrightarrow> f a = f b \<Longrightarrow> a = b"
  by (simp add: distinct_map inj_on_def)

text \<open>The rows \<open>ResolveSegmentMapping\<close> selects are those of one segment and one session.\<close>

lemma resolve_only:
  assumes keys: "distinct (map segment_key (db_segments db))" "distinct (map se_ID (db_sessions db))"
    and sg: "sg \<in> set (db_segments db)" and vs: "vs \<in> set (db_sessions db)" "se_ID vs = sg_session_id sg"
    and live: "live_state (se_State vs)" "se_ExpiresAt vs > now" "sg_expires_at sg > now"
    and grant: "(t, u, c, tm) \<in> set (grant_rows db now vs)" "ca_enabled c" "ca_source_version c = se_SourceVersion vs"
    and ok: "me_validUUID e (sg_session_id sg)" "me_validUUID e (sg_segment_id sg)" "\<not> tx_fails x 0" "tx_clock x 0 = now"
  shows "mpg_ResolveSegmentMapping e x (sg_session_id sg) (sg_segment_id sg) db =
    Inr \<lparr>sm_ID = sg_segment_id sg, sm_SessionID = sg_session_id sg, sm_StreamID = se_StreamID vs,
         sm_SourceVersion = se_SourceVersion vs, sm_Path = sg_provider_name sg\<rparr>"
proof -
  let ?m = "\<lparr>sm_ID = sg_segment_id sg, sm_SessionID = sg_session_id sg, sm_StreamID = se_StreamID vs,
         sm_SourceVersion = se_SourceVersion vs, sm_Path = sg_provider_name sg\<rparr>"
  let ?rows = "[\<lparr>sm_ID = sg_segment_id q, sm_SessionID = sg_session_id q, sm_StreamID = se_StreamID v,
             sm_SourceVersion = se_SourceVersion v, sm_Path = sg_provider_name q\<rparr>.
             q \<leftarrow> db_segments db, sg_session_id q = sg_session_id sg \<and> sg_segment_id q = sg_segment_id sg \<and> sg_expires_at q > now,
             v \<leftarrow> db_sessions db, se_ID v = sg_session_id q \<and> live_state (se_State v) \<and> se_ExpiresAt v > now,
             (t, u, c, tm) \<leftarrow> grant_rows db now v, ca_enabled c \<and> ca_source_version c = se_SourceVersion v]"
  have "?m \<in> set ?rows"
    using sg vs live grant by fastforce
  moreover have "m = ?m" if "m \<in> set ?rows" for m
  proof -
    from that obtain q :: segment_row and v :: session_row where
      q: "q \<in> set (db_segments db)" "sg_session_id q = sg_session_id sg" "sg_segment_id q = sg_segment_id sg"
      and v: "v \<in> set (db_sessions db)" "se_ID v = sg_session_id q"
      and m: "m = \<lparr>sm_ID = sg_segment_id q, sm_SessionID = sg_session_id q, sm_StreamID = se_StreamID v,
             sm_SourceVersion = se_SourceVersion v, sm_Path = sg_provider_name q\<rparr>"
      by (auto split: if_split_asm)
    have "q = sg" by (rule same_under_key[OF keys(1) q(1) sg]) (simp add: segment_key_def q)
    moreover have "v = vs" by (rule same_under_key[OF keys(2) v(1) vs(1)]) (simp add: v q vs)
    ultimately show ?thesis using m by simp
  qed
  ultimately obtain rest where "?rows = ?m # rest"
    by (cases ?rows) (auto simp del: set_concat)
  then show ?thesis
    unfolding mpg_ResolveSegmentMapping_def Let_def ok(4) using ok(1-3) by simp
qed

text \<open>What a playlist maps its segments resolve to: after \<open>CreateSegmentMappings\<close> each mapping
  is found under its session and identifier, exactly as it was created, for as long as the session is
  live and its viewer still has the right to see the camera.\<close>

theorem created_mapping_resolves:
  assumes "mpg_CreateSegmentMappings e x ms db = Inr (res, db1)" and "m \<in> set ms"
    and "distinct (map segment_key (db_segments db))" and "distinct (map se_ID (db_sessions db))"
    and "vs \<in> set (db_sessions db1)" and "se_ID vs = sm_SessionID m"
    and "live_state (se_State vs)" and "tx_clock x' 0 < se_ExpiresAt vs"
    and "(t, u, c, tm) \<in> set (grant_rows db1 (tx_clock x' 0) vs)"
    and "ca_enabled c" and "ca_source_version c = se_SourceVersion vs" and "\<not> tx_fails x' 0"
  shows "mpg_ResolveSegmentMapping e x' (sm_SessionID m) (sm_ID m) db1 = Inr m"
proof -
  have ms: "map_segments e x 0 ms db = Inr db1"
    using assms(1) by (auto simp: mpg_CreateSegmentMappings_def iolink_simps)
  from map_segments_rows[OF ms] obtain rows where rows: "db1 = db\<lparr>db_segments := db_segments db @ rows\<rparr>"
    "list_all2 (\<lambda>m q. sg_session_id q = sm_SessionID m \<and> sg_segment_id q = sm_ID m \<and> sg_provider_name q = sm_Path m \<and>
       (\<exists>r \<in> set (db_sessions db). se_ID r = sm_SessionID m \<and> se_StreamID r = sm_StreamID m \<and>
          se_SourceVersion r = sm_SourceVersion m \<and> sg_expires_at q = se_ExpiresAt r)) ms rows"
    and valid: "validMapping e m" using assms(2) by blast
  from rows(2) assms(2) have "\<exists>q \<in> set rows. sg_session_id q = sm_SessionID m \<and> sg_segment_id q = sm_ID m \<and>
       sg_provider_name q = sm_Path m \<and>
       (\<exists>r \<in> set (db_sessions db). se_ID r = sm_SessionID m \<and> se_StreamID r = sm_StreamID m \<and>
          se_SourceVersion r = sm_SourceVersion m \<and> sg_expires_at q = se_ExpiresAt r)"
    by (induction ms rows rule: list_all2_induct) auto
  then obtain q :: segment_row and r :: session_row where q: "q \<in> set rows"
    "sg_session_id q = sm_SessionID m" "sg_segment_id q = sm_ID m" "sg_provider_name q = sm_Path m"
    and r: "r \<in> set (db_sessions db)" "se_ID r = sm_SessionID m" "se_StreamID r = sm_StreamID m"
      "se_SourceVersion r = sm_SourceVersion m" "sg_expires_at q = se_ExpiresAt r"
    by blast
  have vs: "vs = r"
    using same_under_key[OF assms(4), of vs r] assms(5,6) r rows(1) by simp
  have "mpg_ResolveSegmentMapping e x' (sg_session_id q) (sg_segment_id q) db1 =
    Inr \<lparr>sm_ID = sg_segment_id q, sm_SessionID = sg_session_id q, sm_StreamID = se_StreamID vs,
         sm_SourceVersion = se_SourceVersion vs, sm_Path = sg_provider_name q\<rparr>"
    by (rule resolve_only[OF map_segments_keys[OF ms assms(3)] _ _ assms(5) _ assms(7,8) _ assms(9-11)])
      (use q r vs assms(4,8,12) rows(1) valid in \<open>auto simp: validMapping_def\<close>)
  then show ?thesis using q r vs by simp
qed

end
