(* ===== verification/Playback_System.thy ===== *)
theory Playback_System
  imports Playback_Worker Playback_Manifest Media_Revocation
begin

text \<open>
  The playback service over the PostgreSQL store (\<open>mediapg.Store\<close> implements \<open>media.Store\<close> and
  \<open>media.SegmentMappingStore\<close>) and a provider whose calls are recorded. A call of the store is a
  transaction; what happens to the \<open>n\<close>-th one (its clock, the statements that fail) and the new
  identifiers and tokens are functions of \<open>n\<close>.
\<close>

subsection \<open>The world\<close>

record world =
  w_db :: media_db
  w_n :: nat
  w_calls :: "provider_call list"

record world_env =
  we_media :: media_env
  we_tx :: "nat \<Rightarrow> tx"
  we_newID :: "nat \<Rightarrow> string"
  we_token :: "nat \<Rightarrow> string option"
  we_answer :: "nat \<Rightarrow> media_error option"

definition in_tx ::
  "world_env \<Rightarrow> (tx \<Rightarrow> media_db \<Rightarrow> (media_error, 'a \<times> media_db) result) \<Rightarrow> world \<Rightarrow>
   (media_error, 'a) result \<times> world" where
  "in_tx e f w = (let w' = w\<lparr>w_n := w_n w + 1\<rparr> in
     case f (we_tx e (w_n w)) (w_db w) of
       Inl err \<Rightarrow> (Inl err, w')
     | Inr (v, db) \<Rightarrow> (Inr v, w'\<lparr>w_db := db\<rparr>))"

definition reading :: "(media_db \<Rightarrow> ('e, 'a) result) \<Rightarrow> media_db \<Rightarrow> ('e, 'a \<times> media_db) result" where
  "reading f db = after (f db) (\<lambda>v. Inr (v, db))"

definition error_of :: "('e, unit) result \<times> 's \<Rightarrow> 'e option \<times> 's" where
  "error_of r = (case r of (Inl err, s) \<Rightarrow> (Some err, s) | (Inr (), s) \<Rightarrow> (None, s))"

definition pg_store :: "world_env \<Rightarrow> world media_ops" where
  "pg_store e = (let m = we_media e in
     \<lparr>mo_PreparePlayback = (\<lambda>w ctx cameraID.
        in_tx e (\<lambda>x. reading (mpg_PreparePlayback x ctx (we_newID e (w_n w)) cameraID)) w),
      mo_CreatePlayback = (\<lambda>w ctx i. in_tx e (\<lambda>x. mpg_CreatePlayback m x ctx i) w),
      mo_ReadOwnedPlayback = (\<lambda>w ctx i. in_tx e (\<lambda>x. reading (mpg_ReadOwnedPlayback m x ctx i)) w),
      mo_StopOwnedPlayback = (\<lambda>w ctx i now. error_of (in_tx e (\<lambda>x. mpg_StopOwnedPlayback m x ctx i now) w)),
      mo_ClaimJob = (\<lambda>w now d worker. in_tx e (\<lambda>x. mpg_ClaimJob m x (we_token e (w_n w)) now d worker) w),
      mo_RevalidateJob = (\<lambda>w l. in_tx e (\<lambda>x. mpg_RevalidateJob m x l) w),
      mo_FinishJob = (\<lambda>w l r now. error_of (in_tx e (\<lambda>x. mpg_FinishJob m x l r now) w)),
      mo_AuthorizeMedia = (\<lambda>w claims hash now. in_tx e (\<lambda>x. reading (mpg_AuthorizeMedia m x claims hash now)) w)\<rparr>)"

definition pg_mappings :: "world_env \<Rightarrow> world mapping_ops" where
  "pg_mappings e = (let m = we_media e in
     \<lparr>mm_Create = (\<lambda>w ms. in_tx e (\<lambda>x. mpg_CreateSegmentMappings m x ms) w),
      mm_Resolve = (\<lambda>w i j. in_tx e (\<lambda>x. reading (mpg_ResolveSegmentMapping m x i j)) w)\<rparr>)"

definition recorded_provider :: "world_env \<Rightarrow> world provider_ops" where
  "recorded_provider e =
     (let call = (\<lambda>c w. (we_answer e (length (w_calls w)), w\<lparr>w_calls := w_calls w @ [c]\<rparr>)) in
      \<lparr>pv_Start = (\<lambda>w r. call (CallStart r) w), pv_Stop = (\<lambda>w r. call (CallStop r) w)\<rparr>)"

definition over_pg :: "world_env \<Rightarrow> world playback_config \<Rightarrow> world playback_config" where
  "over_pg e cfg = cfg\<lparr>pc_Store := pg_store e, pc_Provider := Some (recorded_provider e),
     pc_Mappings := Some (pg_mappings e)\<rparr>"

lemma in_tx_calls: "in_tx e f w = (r, w') \<Longrightarrow> w_calls w' = w_calls w"
  by (auto simp: in_tx_def Let_def split: sum.splits prod.splits)

lemma in_tx_Inr:
  "in_tx e f w = (Inr v, w') \<longleftrightarrow>
     (\<exists>db. f (we_tx e (w_n w)) (w_db w) = Inr (v, db) \<and> w' = w\<lparr>w_n := w_n w + 1, w_db := db\<rparr>)"
  by (auto simp: in_tx_def Let_def split: sum.splits prod.splits)

lemma reading_Inr [simp]: "reading f db = Inr (v, db') \<longleftrightarrow> f db = Inr v \<and> db' = db"
  by (auto simp: reading_def iolink_simps)

lemma error_of_calls: "error_of r = (x, w') \<Longrightarrow> w_calls w' = w_calls (snd r)"
  by (cases r; cases "fst r") (auto simp: error_of_def split: unit.splits)

subsection \<open>When the provider may be asked\<close>

text \<open>A start is allowed when a viewer waits for or watches the stream: a session of it that is live
  and unexpired, of an entitled viewer, with the camera enabled at the version of the job.\<close>

definition start_allowed :: "media_db \<Rightarrow> time \<Rightarrow> Lease \<Rightarrow> bool" where
  "start_allowed db now x \<longleftrightarrow>
     (\<exists>s \<in> set (db_sessions db). se_StreamID s = jb_StreamID x \<and> se_CameraID s = jb_CameraID x \<and>
        se_SourceVersion s = jb_SourceVersion x \<and> live_state (se_State s) \<and> se_ExpiresAt s > now \<and>
        entitled db now s \<and>
        (\<exists>c \<in> set (db_cameras db). ca_id c = jb_CameraID x \<and> ca_tenant_id c = se_TenantID s \<and> ca_enabled c \<and>
           ca_source_version c = jb_SourceVersion x))"

text \<open>A stop is due when nobody watches: the stream has no live, unexpired session.\<close>

definition stop_due :: "media_db \<Rightarrow> time \<Rightarrow> Lease \<Rightarrow> bool" where
  "stop_due db now x \<longleftrightarrow>
     (\<exists>st \<in> set (db_streams db). st_id st = jb_StreamID x \<and> st_camera_id st = jb_CameraID x \<and>
        st_source_version st = jb_SourceVersion x \<and>
        \<not> (\<exists>s \<in> set (db_sessions db). se_StreamID s = st_id st \<and> se_CameraID s = st_camera_id st \<and>
             se_TenantID s = st_tenant_id st \<and> se_SourceVersion s = st_source_version st \<and>
             live_state (se_State s) \<and> se_ExpiresAt s > now))"

lemma newest_mem: "newest_session rows = Some r \<Longrightarrow> r \<in> set rows"
proof -
  assume "newest_session rows = Some r"
  then obtain rest where "sort_key (\<lambda>(s, _). - se_CreatedAt s) rows = r # rest"
    by (auto simp: newest_session_def split: list.splits)
  then have "r \<in> set (sort_key (\<lambda>(s, _). - se_CreatedAt s) rows)" by simp
  then show ?thesis by simp
qed

lemma revalidated_start:
  assumes "mpg_RevalidateJob e x l db = Inr (a, db')" "jb_Kind l = JobStart" "ja_Active a" "ja_SourceCurrent a"
  shows "start_allowed db' (tx_clock x 6) l"
proof -
  from assms(1,2) obtain row :: job_row where kind: "jo_kind row = jobStart" and db': "db' = db"
    and auth: "job_authorization x l row (find (\<lambda>c. ca_id c = jb_CameraID l \<and> ca_tenant_id c = jo_tenant_id row)
      (db_cameras db)) False db = Inr a"
    by (auto simp: mpg_RevalidateJob_def iolink_simps)
  from auth assms(3) obtain c :: camera_row and s :: session_row and t u tm where
    c: "find (\<lambda>c. ca_id c = jb_CameraID l \<and> ca_tenant_id c = jo_tenant_id row) (db_cameras db) = Some c"
    and n: "newest_session (job_sessions db (tx_clock x 6) l (jo_tenant_id row) (jo_kind row)) = Some (s, t, u, tm)"
    by (auto simp: job_authorization_def Let_def iolink_simps split: option.splits)
  have en: "ca_enabled c" "ca_source_version c = jb_SourceVersion l"
    using auth assms(3,4) c n by (auto simp: job_authorization_def Let_def iolink_simps)
  obtain cam where s: "s \<in> set (db_sessions db)" "se_StreamID s = jb_StreamID l" "se_CameraID s = jb_CameraID l"
    "se_TenantID s = jo_tenant_id row" "se_SourceVersion s = jb_SourceVersion l" "live_state (se_State s)"
    "se_ExpiresAt s > tx_clock x 6" "(t, u, cam, tm) \<in> set (grant_rows db (tx_clock x 6) s)"
    using newest_mem[OF n] kind by (auto simp: job_sessions_def jobStart_def jobStop_def)
  have "entitled db (tx_clock x 6) s"
    using s(8) by (intro grant_rows_entitled) auto
  then show ?thesis
    unfolding start_allowed_def db'
    using s(1-7) find_mem[OF c] en by (intro bexI[of _ s] conjI bexI[of _ c]) simp_all
qed

lemma revalidated_stop:
  assumes "mpg_RevalidateJob e x l db = Inr (a, db')" "jb_Kind l = JobStop" "\<not> ja_StopSuperseded a"
  shows "stop_due db' (tx_clock x 4) l"
proof -
  from assms(1,2) obtain row :: job_row and b where
    f: "fenceStopStream x 3 l (jo_tenant_id row) db = Inr (b, db')"
    and auth: "job_authorization x l row (find (\<lambda>c. ca_id c = jb_CameraID l \<and> ca_tenant_id c = jo_tenant_id row)
      (db_cameras db)) b db' = Inr a"
    by (auto simp: mpg_RevalidateJob_def iolink_simps)
  have "\<not> b"
    using auth assms(3) by (auto simp: job_authorization_def Let_def iolink_simps split: option.splits)
  then obtain st where st: "find (\<lambda>st. st_id st = jb_StreamID l) (db_streams db) = Some st"
    "st_camera_id st = jb_CameraID l" "st_tenant_id st = jo_tenant_id row" "st_source_version st = jb_SourceVersion l"
    and none: "\<not> list_ex (\<lambda>r. se_StreamID r = jb_StreamID l \<and> se_CameraID r = jb_CameraID l \<and>
            se_TenantID r = jo_tenant_id row \<and> se_SourceVersion r = jb_SourceVersion l \<and>
            live_state (se_State r) \<and> se_ExpiresAt r > tx_clock x 4) (db_sessions db)"
    and db': "db' = db\<lparr>db_streams := set_stream_state (jb_StreamID l) ''stopping'' (db_streams db)\<rparr>"
    using f by (auto simp: fenceStopStream_def iolink_simps split: if_split_asm)
  have "st\<lparr>st_state := ''stopping''\<rparr> \<in> set (db_streams db')"
    using find_mem[OF st(1)] by (auto simp: db' set_stream_state_def intro!: rev_image_eqI)
  then show ?thesis
    unfolding stop_due_def using st none find_mem[OF st(1)]
    by (intro bexI[of _ "st\<lparr>st_state := ''stopping''\<rparr>"]) (auto simp: db' list_ex_iff)
qed

text \<open>The transaction just done is the one that revalidated.\<close>

definition last_tx :: "world_env \<Rightarrow> world \<Rightarrow> tx" where
  "last_tx e w = we_tx e (w_n w - 1)"

interpretation pw: playback_worker "over_pg e cfg" w_calls
  "\<lambda>w x. start_allowed (w_db w) (tx_clock (last_tx e w) 6) x"
  "\<lambda>w x. stop_due (w_db w) (tx_clock (last_tx e w) 4) x" for e cfg
proof
  show "mo_RevalidateJob (pc_Store (over_pg e cfg)) s x = (Inr a, s') \<Longrightarrow> jb_Kind x = JobStart \<Longrightarrow>
      ja_Active a \<Longrightarrow> ja_SourceCurrent a \<Longrightarrow> start_allowed (w_db s') (tx_clock (last_tx e s') 6) x" for s s' x a
    by (auto simp: over_pg_def pg_store_def Let_def in_tx_Inr last_tx_def intro: revalidated_start)
  show "mo_RevalidateJob (pc_Store (over_pg e cfg)) s x = (Inr a, s') \<Longrightarrow> jb_Kind x = JobStop \<Longrightarrow>
      \<not> ja_StopSuperseded a \<Longrightarrow> stop_due (w_db s') (tx_clock (last_tx e s') 4) x" for s s' x a
    by (auto simp: over_pg_def pg_store_def Let_def in_tx_Inr last_tx_def intro: revalidated_stop)
  show "mo_FinishJob (pc_Store (over_pg e cfg)) s x r now = (er, s') \<Longrightarrow> w_calls s' = w_calls s" for s s' x r now er
    by (simp add: over_pg_def pg_store_def Let_def)
      (metis error_of_calls in_tx_calls prod.collapse)
qed (auto simp: over_pg_def pg_store_def recorded_provider_def Let_def dest: in_tx_calls)

lemma over_pg_simps [simp]:
  "pc_Store (over_pg e cfg) = pg_store e" "pc_Provider (over_pg e cfg) = Some (recorded_provider e)"
  "pc_LeaseDuration (over_pg e cfg) = pc_LeaseDuration cfg" "pc_License (over_pg e cfg) = pc_License cfg"
  "pc_Tokens (over_pg e cfg) = pc_Tokens cfg" "pc_Enabled (over_pg e cfg) = pc_Enabled cfg"
  "pc_Mappings (over_pg e cfg) = Some (pg_mappings e)"
  by (simp_all add: over_pg_def)

text \<open>C17: One round of the worker asks the provider for at most one thing, and only for the job it
  has claimed: to start a stream when the database, as the job was revalidated, had an unexpired
  session of an entitled viewer for it, the camera was enabled at the job's version and the license
  allowed video; to stop it when no unexpired session of the stream was left.\<close>

theorem provider_asked_only_when_needed:
  assumes "ProcessMediaJob (over_pg e cfg) now worker w = (r, w')"
  shows "w_calls w' = w_calls w \<or>
    (\<exists>x auth w0 w1. mo_ClaimJob (pg_store e) w now (pc_LeaseDuration cfg) worker = (Inr (Some x), w0) \<and>
       mo_RevalidateJob (pg_store e) w0 x = (Inr auth, w1) \<and>
       ((jb_Kind x = JobStart \<and> start_allowed (w_db w1) (tx_clock (last_tx e w1) 6) x \<and>
         w_calls w' = w_calls w @ [CallStart (media_request x)] \<and>
         (\<exists>guard. pc_License cfg = Some guard \<and> guard (pt_License (ja_Target auth)) = None)) \<or>
        (jb_Kind x = JobStop \<and> stop_due (w_db w1) (tx_clock (last_tx e w1) 4) x \<and>
         w_calls w' = w_calls w @ [CallStop (media_request x)])))"
  using pw.provider_asked[OF assms] by auto

subsection \<open>A start job without a waiting session\<close>

lemma Finish_needs_waiting:
  assumes "mpg_FinishJob e x l r now db = Inr v" "jb_Kind l = JobStart"
  shows "\<exists>q \<in> set (db_sessions db). se_StreamID q = jb_StreamID l \<and> se_State q = SessionPending"
proof -
  have "filter (\<lambda>q. se_ExpiresAt q > tx_clock x 4 \<and> se_State q = SessionPending)
      (filter (\<lambda>q. se_StreamID q = jb_StreamID l) (db_sessions db)) \<noteq> []"
    using assms by (auto simp: mpg_FinishJob_def Let_def iolink_simps)
  then show ?thesis by (auto simp: filter_empty_conv)
qed

lemma in_tx_Inl: "in_tx e f w = (Inl err, w') \<Longrightarrow> w_db w' = w_db w"
  by (auto simp: in_tx_def Let_def split: sum.splits prod.splits)

lemma claimed_running:
  assumes "mpg_ClaimJob e x token now d worker db = Inr (Some l, db')"
  shows "list_ex (\<lambda>j. FormatInt (jo_id j) = jb_ID l \<and> jo_status j = ''running'') (db_jobs db') \<and>
    db_sessions db' = db_sessions db"
  using assms
proof (cases rule: Claim_Inr)
  case (2 row job t until)
  have row: "row \<in> set (db_jobs db)" using next_due_mem[OF 2(1)] by simp
  have number: "FormatInt (jo_id row) = jb_ID l"
    using 2(2,4) by (auto simp: decodeJob_def iolink_simps split: if_split_asm)
  have "db_jobs db' = map (\<lambda>j. if jo_id j = jo_id row then lease_row (worker @ '':'' @ t) until j else j) (db_jobs db)"
    by (subst 2(5)) simp
  then have "lease_row (worker @ '':'' @ t) until row \<in> set (db_jobs db')"
    using row by (auto intro!: rev_image_eqI)
  then have "list_ex (\<lambda>j. FormatInt (jo_id j) = jb_ID l \<and> jo_status j = ''running'') (db_jobs db')"
    unfolding list_ex_iff by (rule bexI[rotated]) (simp add: lease_row_def number)
  moreover have "db_sessions db' = db_sessions db" by (subst 2(5)) simp
  ultimately show ?thesis ..
qed simp

lemma revalidate_start_keeps:
  "mpg_RevalidateJob e x l db = Inr (a, db') \<Longrightarrow> jb_Kind l = JobStart \<Longrightarrow> db' = db"
  by (auto simp: mpg_RevalidateJob_def iolink_simps)

lemma call_provider_db:
  "call_provider cfg (recorded_provider e) x auth w = (out, w') \<Longrightarrow> w_db w' = w_db w \<and> w_n w' = w_n w"
  by (auto simp: call_provider_def recorded_provider_def Let_def split: JobKind.split_asm if_split_asm option.split_asm)

text \<open>When every session of a stream has been stopped, has failed or has become ready, a start
  job for it cannot be finished: the worker that claims it gets an error whatever the provider
  answers, the database stays as the claim left it and the job stays running, also when the worker
  only wants to record that it skipped the job.\<close>

theorem start_without_waiting_session_stays_running:
  assumes "ProcessMediaJob (over_pg e cfg) now worker w = ((took, err), w')"
    and "mo_ClaimJob (pg_store e) w now (pc_LeaseDuration cfg) worker = (Inr (Some x), w0)"
    and "jb_Kind x = JobStart" and "worker \<noteq> []" and "pc_Enabled cfg"
    and "\<forall>q \<in> set (db_sessions (w_db w)). \<not> (se_StreamID q = jb_StreamID x \<and> se_State q = SessionPending)"
  shows "took \<and> err \<noteq> None \<and> w_db w' = w_db w0 \<and>
    list_ex (\<lambda>j. FormatInt (jo_id j) = jb_ID x \<and> jo_status j = ''running'') (db_jobs (w_db w'))"
proof -
  from assms(2) have c: "mpg_ClaimJob (we_media e) (we_tx e (w_n w)) (we_token e (w_n w)) now
      (pc_LeaseDuration cfg) worker (w_db w) = Inr (Some x, w_db w0)"
    by (auto simp: pg_store_def Let_def in_tx_Inr)
  have none: "\<not> (\<exists>q \<in> set (db_sessions (w_db w0)). se_StreamID q = jb_StreamID x \<and> se_State q = SessionPending)"
    using assms(6) claimed_running[OF c] by simp
  have "took \<and> err \<noteq> None \<and> w_db w' = w_db w0"
  proof (cases "mo_RevalidateJob (pg_store e) w0 x")
    case (Pair ra w1)
    show ?thesis
    proof (cases ra)
      case (Inl er)
      then have "w_db w1 = w_db w0" using Pair by (auto simp: pg_store_def Let_def dest: in_tx_Inl)
      then show ?thesis
        using assms(1,2,4,5) Pair Inl by (auto simp: ProcessMediaJob_def)
    next
      case (Inr auth)
      obtain out w2 where out: "call_provider (over_pg e cfg) (recorded_provider e) x auth w1 = (out, w2)"
        by (cases "call_provider (over_pg e cfg) (recorded_provider e) x auth w1") auto
      have db2: "w_db w2 = w_db w0"
        using Pair Inr call_provider_db[OF out] revalidate_start_keeps[OF _ assms(3)]
        by (auto simp: pg_store_def Let_def in_tx_Inr)
      have rec: "took" "record_job (over_pg e cfg) now x out w2 = (err, w')"
        using assms(1,2,4,5) Pair Inr out by (auto simp: ProcessMediaJob_def split: prod.split_asm)
      obtain res ret where "(case out of
            None \<Rightarrow> (\<lparr>jr_Status = JobSkipped, jr_ErrorCode = [], jr_NextAt = now\<rparr>, None)
          | Some providerErr \<Rightarrow> jobResult providerErr (jb_Attempts x) now (jb_Kind x)) = (res, ret)"
        by fastforce
      then have res: "record_job (over_pg e cfg) now x out w2 =
          (case mo_FinishJob (pg_store e) w2 x res now of
             (Some er, s) \<Rightarrow> (Some (if er = MLeaseLost then MLeaseLost else MPersistenceUnknown), s)
           | (None, s) \<Rightarrow> (ret, s))"
        by (simp add: record_job_def Let_def)
      have "\<exists>er w3. mo_FinishJob (pg_store e) w2 x res now = (Some er, w3) \<and> w_db w3 = w_db w2"
      proof (cases "in_tx e (\<lambda>y. mpg_FinishJob (we_media e) y x res now) w2")
        case (Pair rf w3)
        show ?thesis
        proof (cases rf)
          case (Inl er)
          then show ?thesis
            using Pair in_tx_Inl[of e _ w2 er w3] by (simp add: pg_store_def Let_def error_of_def)
        next
          case (Inr u)
          then have "\<exists>v. mpg_FinishJob (we_media e) (we_tx e (w_n w2)) x res now (w_db w2) = Inr v"
            using Pair by (auto simp: in_tx_Inr)
          then show ?thesis using Finish_needs_waiting assms(3) none db2 by metis
        qed
      qed
      then show ?thesis using rec res db2 by auto
    qed
  qed
  then show ?thesis using claimed_running[OF c] by simp
qed

end
