(* ===== verification/Media_Http.thy ===== *)
theory Media_Http
  imports Playback_Manifest
begin

text \<open>
  \<open>internal/mediahttp/handler.go\<close>: the HTTP handler of the media paths. A request is what the handler
  reads of it (\<open>r.URL.Path\<close> is the decoded path, \<open>RawPath\<close> is set only when decoding loses
  something); a response is its status, its headers in the order they are set and its body.
  \<open>uuid.Parse\<close> is an argument.
\<close>

record http_request =
  hr_Method :: string
  hr_Path :: string
  hr_RawPath :: string
  hr_RawQuery :: string
  hr_Fragment :: string

record http_response =
  hs_Status :: nat
  hs_Headers :: "(string \<times> string) list"
  hs_Body :: string

definition noStore :: "(string \<times> string) list" where
  "noStore = [(''Cache-Control'', ''no-store''), (''Referrer-Policy'', ''no-referrer'')]"

text \<open>The JSON encoder ends the value with a line feed; no code or message has a character it escapes.\<close>

definition writeError :: "(string \<times> string) list \<Rightarrow> nat \<Rightarrow> string \<Rightarrow> string \<Rightarrow> http_response" where
  "writeError headers status code message =
     \<lparr>hs_Status = status, hs_Headers = headers @ [(''Content-Type'', ''application/json'')],
      hs_Body = ''{\"code\":\"'' @ code @ ''\",\"message\":\"'' @ message @ ''\"}'' @ [LF]\<rparr>"

definition writeMediaError :: "(string \<times> string) list \<Rightarrow> media_error \<Rightarrow> http_response" where
  "writeMediaError headers err =
     (if err = MInvalid then writeError headers 400 ''invalid_request'' ''invalid media request''
      else if err = MUnauthorized then writeError headers 401 ''unauthorized'' ''media authorization failed''
      else if err = MForbidden then writeError headers 403 ''forbidden'' ''media access forbidden''
      else if err = MNotFound then writeError headers 404 ''not_found'' ''media not found''
      else if err = MConflict then writeError headers 409 ''conflict'' ''media conflict''
      else if err = MPending then
        writeError (headers @ [(''Retry-After'', ''1'')]) 425 ''media_pending'' ''media pending''
      else if err = MBadMedia \<or> err = MUnsupported then
        writeError headers 502 ''bad_media'' ''media source rejected''
      else if err = MUnavailable then writeError headers 503 ''unavailable'' ''media unavailable''
      else writeError headers 500 ''internal_error'' ''media request failed'')"

definition token_byte :: "nat \<Rightarrow> bool" where
  "token_byte r \<longleftrightarrow> (97 \<le> r \<and> r \<le> 122) \<or> (65 \<le> r \<and> r \<le> 90) \<or> (48 \<le> r \<and> r \<le> 57) \<or>
     r = 95 \<or> r = 46 \<or> r = 45"

definition validToken :: "string \<Rightarrow> bool" where
  "validToken token \<longleftrightarrow> \<not> (length token < 16 \<or> length token > 2048) \<and> range_all token_byte token"

definition trimPrefix :: "string \<Rightarrow> string \<Rightarrow> string" where
  "trimPrefix p s = (if hasPrefix p s then drop (length p) s else s)"

definition write_media :: "string \<Rightarrow> (media_error, string) result \<times> 's \<Rightarrow> http_response \<times> 's" where
  "write_media contentType r = (case r of
      (Inl err, s) \<Rightarrow> (writeMediaError noStore err, s)
    | (Inr body, s) \<Rightarrow>
        (\<lparr>hs_Status = 200, hs_Headers = noStore @ [(''Content-Type'', contentType)], hs_Body = body\<rparr>, s))"

text \<open>The handler; \<open>None\<close> stands for a handler without a playback service.\<close>

definition ServeMedia ::
  "(string \<Rightarrow> bool) \<Rightarrow> playback_env \<Rightarrow> 's playback_config option \<Rightarrow> time \<Rightarrow> (nat \<Rightarrow> string) \<Rightarrow> http_request \<Rightarrow> 's \<Rightarrow>
   http_response \<times> 's" where
  "ServeMedia validUUID env playback now ids r s =
     (let badPath = writeError noStore 400 ''invalid_request'' ''invalid media path'' in
      if hr_Method r \<noteq> ''GET'' then (writeError noStore 405 ''invalid_request'' ''method not allowed'', s)
      else (case playback of
        None \<Rightarrow> (badPath, s)
      | Some cfg \<Rightarrow>
          if hr_RawQuery r \<noteq> [] \<or> hr_RawPath r \<noteq> [] \<or> hr_Fragment r \<noteq> [] then (badPath, s)
          else if \<not> hasPrefix ''/media/v1/'' (hr_Path r) then (badPath, s)
          else (let parts = splitOn CHR ''/'' (trimPrefix ''/'' (hr_Path r)) in
            if length parts < 5 \<or> parts ! 0 \<noteq> ''media'' \<or> parts ! 1 \<noteq> ''v1'' \<or> \<not> validToken (parts ! 2) \<or>
               \<not> validUUID (parts ! 3) then (badPath, s)
            else if length parts = 5 \<and> parts ! 4 = ''index.m3u8'' then
              write_media ''application/vnd.apple.mpegurl'' (ReadManifest env cfg now ids (parts ! 2) (parts ! 3) s)
            else if length parts = 6 \<and> parts ! 4 = ''segments'' then
              (if \<not> validUUID (parts ! 5) then (badPath, s)
               else write_media ''video/mp2t'' (ReadSegment env cfg now (parts ! 2) (parts ! 3) (parts ! 5) s))
            else (writeError noStore 404 ''not_found'' ''media not found'', s))))"

subsection \<open>Properties\<close>

lemma writeError_status [simp]: "hs_Status (writeError h n c m) = n" "hs_Headers (writeError h n c m) = h @ [(''Content-Type'', ''application/json'')]"
  by (simp_all add: writeError_def)

lemma writeMediaError_status: "400 \<le> hs_Status (writeMediaError h err)"
  by (simp add: writeMediaError_def)

lemma writeMediaError_headers: "set h \<subseteq> set (hs_Headers (writeMediaError h err))"
  by (auto simp: writeMediaError_def)

lemma write_media_ok:
  "write_media ct r = (resp, s') \<Longrightarrow> hs_Status resp = 200 \<Longrightarrow> r = (Inr (hs_Body resp), s')"
proof -
  assume w: "write_media ct r = (resp, s')" and ok: "hs_Status resp = 200"
  obtain q s'' where r: "r = (q, s'')" by (cases r)
  show "r = (Inr (hs_Body resp), s')"
  proof (cases q)
    case (Inl err)
    then have "resp = writeMediaError noStore err" using w r by (simp add: write_media_def)
    then show ?thesis using ok writeMediaError_status[of noStore err] by simp
  next
    case (Inr b)
    then show ?thesis using w r by (auto simp: write_media_def)
  qed
qed

lemma write_media_headers: "write_media ct r = (resp, s') \<Longrightarrow> set noStore \<subseteq> set (hs_Headers resp)"
  using writeMediaError_headers[of noStore]
  by (cases r; cases "fst r") (auto simp: write_media_def)

text \<open>The parts of a path.\<close>

lemma join5:
  "length xs = 5 \<Longrightarrow> xs ! 0 = ''media'' \<Longrightarrow> xs ! 1 = ''v1'' \<Longrightarrow> xs ! 4 = ''index.m3u8'' \<Longrightarrow>
   ''/'' @ joinWith ''/'' xs = ''/media/v1/'' @ xs ! 2 @ ''/'' @ xs ! 3 @ ''/index.m3u8''"
  by (auto simp: numeral_eq_Suc length_Suc_conv)

lemma join6:
  "length xs = 6 \<Longrightarrow> xs ! 0 = ''media'' \<Longrightarrow> xs ! 1 = ''v1'' \<Longrightarrow> xs ! 4 = ''segments'' \<Longrightarrow>
   ''/'' @ joinWith ''/'' xs = ''/media/v1/'' @ xs ! 2 @ ''/'' @ xs ! 3 @ ''/segments/'' @ xs ! 5"
  by (auto simp: numeral_eq_Suc length_Suc_conv)

lemma media_path_parts:
  assumes "hasPrefix ''/media/v1/'' path" "parts = splitOn CHR ''/'' (trimPrefix ''/'' path)"
  shows "path = ''/'' @ joinWith ''/'' parts"
proof -
  obtain rest where path: "path = ''/'' @ rest" using assms(1) by (auto simp: hasPrefix_iff)
  have "parts = splitOn CHR ''/'' rest" using assms(2) by (simp add: path trimPrefix_def hasPrefix_def)
  then show ?thesis using path by (simp only: join_split)
qed

lemma ServeMedia_headers:
  "ServeMedia validUUID env playback now ids r s = (resp, s') \<Longrightarrow> set noStore \<subseteq> set (hs_Headers resp)"
  by (auto simp: ServeMedia_def Let_def split: if_split_asm option.split_asm
      dest: write_media_headers[THEN subsetD])

lemma read_authorized:
  "ReadManifest env cfg now ids tok sid s = (Inr b, s') \<Longrightarrow>
     \<exists>access s1. AuthorizeMedia env cfg now tok sid s = (Inr access, s1)"
  "ReadSegment env cfg now tok sid seg s = (Inr b, s') \<Longrightarrow>
     \<exists>access s1. AuthorizeMedia env cfg now tok sid s = (Inr access, s1)"
  by (auto simp: ReadManifest_def ReadSegment_def split: prod.splits sum.splits)

text \<open>The handler answers 200 only to a GET for a media path whose token and session the playback
  service has authorised for this request, and then with what the service returned. Every response,
  whatever its status, forbids storing it and sending a referrer.\<close>

theorem media_served_only_authorized:
  assumes "ServeMedia validUUID env playback now ids r s = (resp, s')"
  shows "set noStore \<subseteq> set (hs_Headers resp) \<and>
    (hs_Status resp \<noteq> 200 \<or>
     (\<exists>cfg token sessionID access s1. playback = Some cfg \<and> hr_Method r = ''GET'' \<and> validToken token \<and>
        validUUID sessionID \<and> hr_RawQuery r = [] \<and>
        AuthorizeMedia env cfg now token sessionID s = (Inr access, s1) \<and>
        ((hr_Path r = ''/media/v1/'' @ token @ ''/'' @ sessionID @ ''/index.m3u8'' \<and>
          ReadManifest env cfg now ids token sessionID s = (Inr (hs_Body resp), s')) \<or>
         (\<exists>segmentID. validUUID segmentID \<and>
            hr_Path r = ''/media/v1/'' @ token @ ''/'' @ sessionID @ ''/segments/'' @ segmentID \<and>
            ReadSegment env cfg now token sessionID segmentID s = (Inr (hs_Body resp), s')))))"
proof (cases "hs_Status resp = 200")
  case False
  then show ?thesis
    using ServeMedia_headers[OF assms] by simp
next
  case True
  let ?parts = "splitOn CHR ''/'' (trimPrefix ''/'' (hr_Path r))"
  obtain cfg where cfg: "playback = Some cfg" "hr_Method r = ''GET''" "hr_RawQuery r = []"
    "hasPrefix ''/media/v1/'' (hr_Path r)"
    and parts: "?parts ! 0 = ''media''" "?parts ! 1 = ''v1''" "validToken (?parts ! 2)" "validUUID (?parts ! 3)"
    and body: "(length ?parts = 5 \<and> ?parts ! 4 = ''index.m3u8'' \<and> (resp, s') =
        write_media ''application/vnd.apple.mpegurl'' (ReadManifest env cfg now ids (?parts ! 2) (?parts ! 3) s)) \<or>
      (length ?parts = 6 \<and> ?parts ! 4 = ''segments'' \<and> validUUID (?parts ! 5) \<and> (resp, s') =
        write_media ''video/mp2t'' (ReadSegment env cfg now (?parts ! 2) (?parts ! 3) (?parts ! 5) s))"
    using assms True by (auto simp: ServeMedia_def Let_def split: if_split_asm option.split_asm)
  note path = media_path_parts[OF cfg(4) refl]
  from body show ?thesis
  proof (elim disjE conjE)
    assume len: "length ?parts = 5" and last: "?parts ! 4 = ''index.m3u8''" and w: "(resp, s') =
        write_media ''application/vnd.apple.mpegurl'' (ReadManifest env cfg now ids (?parts ! 2) (?parts ! 3) s)"
    have p: "hr_Path r = ''/media/v1/'' @ ?parts ! 2 @ ''/'' @ ?parts ! 3 @ ''/index.m3u8''"
      by (rule trans[OF path join5[OF len parts(1,2) last]])
    have m: "ReadManifest env cfg now ids (?parts ! 2) (?parts ! 3) s = (Inr (hs_Body resp), s')"
      using write_media_ok[OF w[symmetric] True] .
    obtain access s1 where a: "AuthorizeMedia env cfg now (?parts ! 2) (?parts ! 3) s = (Inr access, s1)"
      using read_authorized(1)[OF m] by blast
    show ?thesis
      by (intro conjI ServeMedia_headers[OF assms] disjI2 exI[of _ cfg] exI[of _ "?parts ! 2"]
          exI[of _ "?parts ! 3"] exI[of _ access] exI[of _ s1] disjI1) (rule cfg parts a p m)+
  next
    assume len: "length ?parts = 6" and last: "?parts ! 4 = ''segments''" and u: "validUUID (?parts ! 5)" and w: "(resp, s') =
        write_media ''video/mp2t'' (ReadSegment env cfg now (?parts ! 2) (?parts ! 3) (?parts ! 5) s)"
    have p: "hr_Path r = ''/media/v1/'' @ ?parts ! 2 @ ''/'' @ ?parts ! 3 @ ''/segments/'' @ ?parts ! 5"
      by (rule trans[OF path join6[OF len parts(1,2) last]])
    have m: "ReadSegment env cfg now (?parts ! 2) (?parts ! 3) (?parts ! 5) s = (Inr (hs_Body resp), s')"
      using write_media_ok[OF w[symmetric] True] .
    obtain access s1 where a: "AuthorizeMedia env cfg now (?parts ! 2) (?parts ! 3) s = (Inr access, s1)"
      using read_authorized(2)[OF m] by blast
    show ?thesis
      by (intro conjI ServeMedia_headers[OF assms] disjI2 exI[of _ cfg] exI[of _ "?parts ! 2"]
          exI[of _ "?parts ! 3"] exI[of _ access] exI[of _ s1] exI[of _ "?parts ! 5"]) (rule cfg parts a p m u)+
  qed
qed

lemma token_plain: "validToken tok \<Longrightarrow> pathEscape tok = tok \<and> CHR ''/'' \<notin> set tok"
proof -
  assume "validToken tok"
  then have t: "list_all (\<lambda>c. token_byte (of_char c)) tok"
    unfolding validToken_def by (subst (asm) range_all_bytes) (auto simp: token_byte_def)
  have "keepPathSegment c \<and> c \<noteq> CHR ''/''" if b: "token_byte (of_char c)" for c
  proof -
    have "(of_char c :: nat) = 95 \<Longrightarrow> c = CHR ''_''" "(of_char c :: nat) = 46 \<Longrightarrow> c = CHR ''.''"
      "(of_char c :: nat) = 45 \<Longrightarrow> c = CHR ''-''"
      using of_char_eq_iff[of c "CHR ''_''", where 'a = nat] of_char_eq_iff[of c "CHR ''.''", where 'a = nat]
        of_char_eq_iff[of c "CHR ''-''", where 'a = nat] by simp_all
    then have "c = CHR ''_'' \<or> c = CHR ''.'' \<or> c = CHR ''-'' \<or> isLowerAZ c \<or> isUpperAZ c \<or> isDigit c"
      using b by (auto simp: token_byte_def isLowerAZ_def isUpperAZ_def isDigit_def)
    then show ?thesis
      by (auto simp: keepPathSegment_def isLowerAZ_def isUpperAZ_def isDigit_def)
  qed
  then have "list_all keepPathSegment tok" "CHR ''/'' \<notin> set tok"
    using t by (auto simp: list_all_iff)
  then show ?thesis by (simp add: pathEscape_id)
qed

text \<open>A link of a playlist leads to its segment: the line that names a segment for a token and a
  session, requested as it stands, makes the handler read exactly that segment with that token and
  session.\<close>

theorem playlist_link_reads_segment:
  assumes "validToken token" "validUUID sessionID" "validUUID segmentID"
    and "list_all keepPathSegment sessionID" "list_all keepPathSegment segmentID"
    and "hr_Method r = ''GET''" "hr_RawQuery r = []" "hr_RawPath r = []" "hr_Fragment r = []"
    and "hr_Path r = segment_url token sessionID segmentID"
  shows "ServeMedia validUUID env (Some cfg) now ids r s =
    write_media ''video/mp2t'' (ReadSegment env cfg now token sessionID segmentID s)"
proof -
  have plain: "pathEscape token = token" "pathEscape sessionID = sessionID" "pathEscape segmentID = segmentID"
    using assms(1,4,5) token_plain pathEscape_id by blast+
  have "splitOn CHR ''/'' (trimPrefix ''/'' (hr_Path r)) = [''media'', ''v1'', token, sessionID, ''segments'', segmentID]"
    using segment_url_split[of token sessionID segmentID] plain
    by (simp add: assms(10) segment_url_def trimPrefix_def hasPrefix_def)
  moreover have "hasPrefix ''/media/v1/'' (hr_Path r)"
    by (simp add: assms(10) segment_url_def hasPrefix_def)
  ultimately show ?thesis
    unfolding ServeMedia_def Let_def using assms(1-3,6-9) by simp
qed

end
