(* ===== verification/Playback_Examples.thy ===== *)
theory Playback_Examples
  imports Media_Examples Playback_System Media_Http
begin

text \<open>
  One playback from the request to a segment, over the store of Media_Examples: the properties of the
  playback theories applied to it.
\<close>

subsection \<open>The configuration\<close>

definition ex_raw :: string where "ex_raw = ''abcdefghijklmnop''"

definition ex_tokens :: token_ops where
  "ex_tokens = \<lparr>to_Issue = (\<lambda>claims. Some \<lparr>it_Raw = ex_raw, it_Claims = claims\<rparr>),
     to_Verify = (\<lambda>raw. if raw = ex_raw then Some (playback_claims
        \<lparr>pt_TenantID = 2, pt_CameraID = 9, pt_SourceVersion = 7, pt_StreamID = ''S'', pt_UserID = 3,
         pt_UserTokenVersion = 1, pt_TenantPermissionVersion = 1, pt_MemberPermissionVersion = 1,
         pt_License = ex_media_license\<rparr> ''p'' ''j'' 9 10) else None)\<rparr>"

definition ex_playback_env :: playback_env where
  "ex_playback_env = \<lparr>pe_ParseURL = (\<lambda>s. Some \<lparr>bu_IsAbs = True, bu_Scheme = ''https'', bu_Host = ''m'',
       bu_Hostname = ''m'', bu_has_User = False, bu_RawQuery = [], bu_Fragment = [], bu_Opaque = []\<rparr>),
     pe_SHA256 = (\<lambda>s. replicate 32 (hd s))\<rparr>"

definition ex_playlist :: string where
  "ex_playlist = ''#EXTM3U'' @ [CR, LF] @ ''#EXTINF:2.0,'' @ [LF] @ ''2026-10-11/05/04-03_1.ts'' @ [LF] @
     ''2026-10-11/05/04-05_2.ts'' @ [LF]"

definition ex_fetch_manifest :: "MediaAccess \<Rightarrow> (media_error, string) result" where
  "ex_fetch_manifest a = Inr ex_playlist"

definition ex_fetch_segment :: "MediaAccess \<Rightarrow> string \<Rightarrow> (media_error, string) result" where
  "ex_fetch_segment a path = Inr (''TS:'' @ path)"

definition ex_world_env :: world_env where
  "ex_world_env = \<lparr>we_media = ex_media_env, we_tx = (\<lambda>n. tx_at (11 + int n)), we_newID = (\<lambda>n. ''S''),
     we_token = (\<lambda>n. Some ''t''), we_answer = (\<lambda>n. None)\<rparr>"

definition ex_config :: "world playback_config" where
  "ex_config = \<lparr>pc_Store = pg_store ex_world_env, pc_License = Some (\<lambda>_. None), pc_Tokens = Some ex_tokens,
     pc_Provider = Some (recorded_provider ex_world_env), pc_Manifest = Some ex_fetch_manifest,
     pc_Segments = Some ex_fetch_segment, pc_Mappings = Some (pg_mappings ex_world_env),
     pc_Enabled = True, pc_ManifestBaseURL = ''https://m/media/v1'', pc_LeaseDuration = 30 * second\<rparr>"

lemma ex_over_pg [simp]: "over_pg ex_world_env ex_config = ex_config"
  by (simp add: over_pg_def ex_config_def)

lemma ex_config_fields:
  "pc_Segments ex_config = Some ex_fetch_segment" "pc_Enabled ex_config" "pc_LeaseDuration ex_config = 30 * second"
  by (simp_all add: ex_config_def)

definition ex_ids :: "nat \<Rightarrow> string" where "ex_ids k = CHR ''s'' # natText k"

lemma ex_ids_inj: "inj ex_ids"
proof (rule injI)
  fix m n assume "ex_ids m = ex_ids n"
  then have "digits_value (natText m) = digits_value (natText n)" by (simp add: ex_ids_def)
  then show "m = n" by simp
qed

subsection \<open>The run\<close>

definition ex_world0 :: world where "ex_world0 = \<lparr>w_db = ex_media_db, w_n = 0, w_calls = []\<rparr>"

definition ex_world1 :: world where
  "ex_world1 = snd (RequestPlayback ex_playback_env ex_config 10 ''p'' ''j'' ex_viewer 9 ex_world0)"

definition ex_world2 :: world where
  "ex_world2 = snd (ProcessMediaJob ex_config 12 ''w'' ex_world1)"

definition ex_world3 :: world where
  "ex_world3 = snd (ReadManifest ex_playback_env ex_config 20 ex_ids ex_raw ''p'' ex_world2)"

lemma ex_request:
  "fst (RequestPlayback ex_playback_env ex_config 10 ''p'' ''j'' ex_viewer 9 ex_world0) =
     Inr \<lparr>gr_SessionID = ''p'', gr_ExpiresAt = 10 + 300 * second,
        gr_ManifestURL = ''https://m/media/v1/abcdefghijklmnop/p/index.m3u8''\<rparr>"
  by code_simp

lemma ex_process: "fst (ProcessMediaJob ex_config 12 ''w'' ex_world1) = (True, None)"
  by code_simp

definition ex_output :: string where
  "ex_output = joinWith [LF] [''#EXTM3U'', ''#EXTINF:2.0,'', ''/media/v1/abcdefghijklmnop/p/segments/s0'',
     ''/media/v1/abcdefghijklmnop/p/segments/s1''] @ [LF]"

lemma ex_manifest: "fst (ReadManifest ex_playback_env ex_config 20 ex_ids ex_raw ''p'' ex_world2) = Inr ex_output"
  by code_simp

lemma ex_segment:
  "fst (ReadSegment ex_playback_env ex_config 30 ex_raw ''p'' ''s1'' ex_world3) = Inr ''TS:2026-10-11/05/04-05_2.ts''"
  by code_simp

subsection \<open>The properties on this run\<close>

definition ex_access :: MediaAccess where
  "ex_access = \<lparr>ma_SessionID = ''p'', ma_StreamID = ''S'', ma_TenantID = 2, ma_CameraID = 9,
     ma_SourceVersion = 7, ma_State = SessionReady, ma_ExpiresAt = 10 + 300 * second\<rparr>"

definition ex_world2a :: world where
  "ex_world2a = snd (AuthorizeMedia ex_playback_env ex_config 20 ex_raw ''p'' ex_world2)"

lemma ex_rewrite:
  "rewriteManifest ex_config ex_ids ex_access ex_raw ex_playlist ex_world2a =
     (Inr ex_output, snd (rewriteManifest ex_config ex_ids ex_access ex_raw ex_playlist ex_world2a))"
proof -
  have "fst (rewriteManifest ex_config ex_ids ex_access ex_raw ex_playlist ex_world2a) = Inr ex_output"
    by code_simp
  then show ?thesis by (metis prod.collapse)
qed

theorem manifest_round_trip_witness:
  "\<exists>mappings. map (player_line mappings) (manifest_lines ex_output) = map Some (manifest_lines ex_playlist)"
  using manifest_round_trip[OF ex_rewrite ex_ids_inj] by blast

lemma ex_manifest_read:
  "ReadManifest ex_playback_env ex_config 20 ex_ids ex_raw ''p'' ex_world2 = (Inr ex_output, ex_world3)"
  using ex_manifest unfolding ex_world3_def by (metis prod.collapse)

theorem served_manifest_clean_witness: "length ex_output \<le> 256 * 1024"
  using served_manifest_clean[OF ex_manifest_read] by (simp add: MaxManifestBytes_def)

lemma ex_segment_read:
  "ReadSegment ex_playback_env ex_config 30 ex_raw ''p'' ''s1'' ex_world3 = (Inr ''TS:2026-10-11/05/04-05_2.ts'',
     snd (ReadSegment ex_playback_env ex_config 30 ex_raw ''p'' ''s1'' ex_world3))"
  using ex_segment by (metis prod.collapse)

theorem served_segment_mapped_witness:
  "\<exists>access s1. \<exists>mapping :: SegmentMapping. AuthorizeMedia ex_playback_env ex_config 30 ex_raw ''p'' ex_world3 = (Inr access, s1) \<and>
     ex_fetch_segment access (sm_Path mapping) = Inr ''TS:2026-10-11/05/04-05_2.ts'' \<and> sm_ID mapping = ''s1''"
proof -
  obtain access :: MediaAccess and s1 and mapping :: SegmentMapping and fetch where
    "AuthorizeMedia ex_playback_env ex_config 30 ex_raw ''p'' ex_world3 = (Inr access, s1)"
    "pc_Segments ex_config = Some fetch" "fetch access (sm_Path mapping) = Inr ''TS:2026-10-11/05/04-05_2.ts''"
    "sm_ID mapping = ''s1''"
    using served_segment_mapped[OF ex_segment_read] by blast
  then show ?thesis using ex_config_fields(1) by (metis option.inject)
qed

theorem job_result_backoff_witness:
  "jr_NextAt (fst (jobResult (Some MRetryable) 3 100 JobStart)) = 100 + 4 * second"
  using job_result_backoff[of "Some MRetryable" 3 100 JobStart, OF prod.collapse[symmetric]]
  by (simp add: jobResult_def maxAttempts_def Let_def)

subsection \<open>Closed sessions and mappings\<close>

theorem stopped_session_stays_closed_witness:
  "\<exists>err. mpg_AuthorizeMedia ex_media_env (tx_at 16) ex_media_claims (replicate 32 CHR ''1'') 16
     (foldl (media_step ex_media_env) (media_step ex_media_env ex_ready (McStop (tx_at 13) ex_viewer ''p'' 13))
       [McCreate (tx_at 14) ex_viewer (ex_create ''q'' ''2'' 14)]) = Inl err"
  by (rule stopped_session_stays_closed[OF ex_ready_inv ex_stop refl]) (simp add: ex_media_claims_def)

definition ex_mapped :: media_db where
  "ex_mapped = media_step ex_media_env ex_ready (McSegments (tx_at 13) [ex_mapping ''a''])"

lemma ex_mapped_keys: "distinct (map segment_key (db_segments ex_ready)) \<and> distinct (map se_ID (db_sessions ex_ready))"
  by code_simp

lemma ex_mapped_session:
  "db_sessions ex_mapped = [hd (db_sessions ex_mapped)] \<and> se_ID (hd (db_sessions ex_mapped)) = ''p'' \<and>
   live_state (se_State (hd (db_sessions ex_mapped))) \<and> 15 < se_ExpiresAt (hd (db_sessions ex_mapped)) \<and>
   se_SourceVersion (hd (db_sessions ex_mapped)) = 7"
  by code_simp

lemma ex_mapped_grant:
  "grant_rows ex_mapped 15 (hd (db_sessions ex_mapped)) = [(hd (db_tenants ex_media_db), hd (db_users ex_media_db),
     hd (db_cameras ex_media_db), hd (db_members ex_media_db))]"
  by code_simp

theorem created_mapping_resolves_witness:
  "mpg_ResolveSegmentMapping ex_media_env (tx_at 15) ''p'' ''a'' ex_mapped = Inr (ex_mapping ''a'')"
proof -
  have s: "hd (db_sessions ex_mapped) \<in> set (db_sessions ex_mapped)"
    by (subst (2) conjunct1[OF ex_mapped_session]) simp
  have "mpg_ResolveSegmentMapping ex_media_env (tx_at 15) (sm_SessionID (ex_mapping ''a'')) (sm_ID (ex_mapping ''a''))
     ex_mapped = Inr (ex_mapping ''a'')"
    using ex_mapped_session ex_mapped_grant ex_mapped_keys
    by (intro created_mapping_resolves[OF ex_segments[folded ex_mapped_def] _ _ _ s,
          where t = "hd (db_tenants ex_media_db)" and u = "hd (db_users ex_media_db)" and
            c = "hd (db_cameras ex_media_db)" and tm = "hd (db_members ex_media_db)"])
      (simp_all add: ex_mapping_def tx_at_def ex_media_db_def)
  then show ?thesis by (simp add: ex_mapping_def)
qed

subsection \<open>The worker\<close>

lemma ex_process_run: "ProcessMediaJob (over_pg ex_world_env ex_config) 12 ''w'' ex_world1 = ((True, None), ex_world2)"
  using ex_process unfolding ex_world2_def by (simp add: prod_eq_iff)

lemma ex_process_calls: "w_calls ex_world1 = [] \<and> w_calls ex_world2 =
    [CallStart \<lparr>mr_CameraID = 9, mr_SourceVersion = 7, mr_StreamID = ''S''\<rparr>]"
  by code_simp

theorem provider_asked_only_when_needed_witness:
  "\<exists>x w1. start_allowed (w_db w1) (tx_clock (last_tx ex_world_env w1) 6) x \<and>
     w_calls ex_world2 = [CallStart (media_request x)]"
  using provider_asked_only_when_needed[OF ex_process_run] ex_process_calls by auto

definition ex_world_stopped :: world where
  "ex_world_stopped = snd (StopPlayback ex_config 11 ex_viewer ''p'' ex_world1)"

definition ex_start_lease :: Lease where
  "ex_start_lease = \<lparr>jb_ID = ''1'', jb_Kind = JobStart, jb_CameraID = 9, jb_SourceVersion = 7, jb_StreamID = ''S'',
     jb_SessionID = ''p'', jb_Attempts = 1, le_LeaseToken = ''w:t'', le_LeasedUntil = 14 + 30 * second\<rparr>"

lemma ex_claim_stopped:
  "fst (mo_ClaimJob (pg_store ex_world_env) ex_world_stopped 12 (30 * second) ''w'') = Inr (Some ex_start_lease)"
  by code_simp

lemma ex_none_waiting:
  "list_all (\<lambda>q. \<not> (se_StreamID q = ''S'' \<and> se_State q = SessionPending)) (db_sessions (w_db ex_world_stopped))"
  by code_simp

theorem start_without_waiting_session_stays_running_witness:
  "snd (fst (ProcessMediaJob ex_config 12 ''w'' ex_world_stopped)) \<noteq> None \<and>
   list_ex (\<lambda>j. jo_status j = ''running'') (db_jobs (w_db (snd (ProcessMediaJob ex_config 12 ''w'' ex_world_stopped))))"
proof -
  obtain took err w' where p: "ProcessMediaJob (over_pg ex_world_env ex_config) 12 ''w'' ex_world_stopped = ((took, err), w')"
    by (metis prod.exhaust)
  obtain w0 where c: "mo_ClaimJob (pg_store ex_world_env) ex_world_stopped 12 (pc_LeaseDuration ex_config) ''w'' =
      (Inr (Some ex_start_lease), w0)"
    using ex_claim_stopped ex_config_fields(3) by (metis prod.collapse)
  have "\<forall>q \<in> set (db_sessions (w_db ex_world_stopped)).
      \<not> (se_StreamID q = jb_StreamID ex_start_lease \<and> se_State q = SessionPending)"
    using ex_none_waiting by (simp add: list_all_iff ex_start_lease_def)
  from start_without_waiting_session_stays_running[OF p c _ _ _ this]
  show ?thesis using p by (auto simp: ex_start_lease_def ex_config_fields list_ex_iff)
qed

subsection \<open>Over HTTP\<close>

definition ex_get :: "string \<Rightarrow> http_request" where
  "ex_get path = \<lparr>hr_Method = ''GET'', hr_Path = path, hr_RawPath = [], hr_RawQuery = [], hr_Fragment = []\<rparr>"

lemma ex_http:
  "ServeMedia (\<lambda>s. s \<noteq> []) ex_playback_env (Some ex_config) 20 ex_ids (ex_get ''/media/v1/abcdefghijklmnop/p/index.m3u8'') ex_world2 =
     (\<lparr>hs_Status = 200, hs_Headers = noStore @ [(''Content-Type'', ''application/vnd.apple.mpegurl'')],
        hs_Body = ex_output\<rparr>, ex_world3)"
proof -
  have "ServeMedia (\<lambda>s. s \<noteq> []) ex_playback_env (Some ex_config) 20 ex_ids (ex_get ''/media/v1/abcdefghijklmnop/p/index.m3u8'') ex_world2 =
    write_media ''application/vnd.apple.mpegurl'' (ReadManifest ex_playback_env ex_config 20 ex_ids ex_raw ''p'' ex_world2)"
    by code_simp
  then show ?thesis by (simp add: ex_manifest_read write_media_def)
qed

theorem media_served_only_authorized_witness:
  "\<exists>token sessionID access s1. AuthorizeMedia ex_playback_env ex_config 20 token sessionID ex_world2 = (Inr access, s1) \<and>
     validToken token"
  using media_served_only_authorized[OF ex_http] by auto

lemma ex_link_plain: "validToken ex_raw \<and> list_all keepPathSegment ''p'' \<and> list_all keepPathSegment ''s1''"
  by code_simp

theorem playlist_link_reads_segment_witness:
  "ServeMedia (\<lambda>s. s \<noteq> []) ex_playback_env (Some ex_config) 30 ex_ids
     (ex_get ''/media/v1/abcdefghijklmnop/p/segments/s1'') ex_world3 =
   write_media ''video/mp2t'' (ReadSegment ex_playback_env ex_config 30 ex_raw ''p'' ''s1'' ex_world3)"
proof (rule playlist_link_reads_segment)
  show "hr_Path (ex_get ''/media/v1/abcdefghijklmnop/p/segments/s1'') = segment_url ex_raw ''p'' ''s1''"
    by code_simp
qed (use ex_link_plain in \<open>simp_all add: ex_get_def\<close>)

end
