(* ===== verification/Mqtt_Topic.thy ===== *)
theory Mqtt_Topic
  imports Complex_Main Go_Strings
begin

text \<open>
  \<open>internal/access/auth.go\<close>, \<open>internal/event/event.go\<close> and \<open>internal/ingestion/application.go\<close>: the
  topic grammar of the MQTT devices and who may use a topic, the events that go from the access
  module to the core, and which events the core takes.
\<close>

subsection \<open>Client identifiers and topics\<close>

definition ValidClientID :: "string \<Rightarrow> bool" where
  "ValidClientID i \<longleftrightarrow> \<not> (i = [] \<or> length i > 128 \<or> containsAny ''+#'' i) \<and> validString i"

datatype topic_error = ErrBadTopic

definition ParseUplinkTopic :: "string \<Rightarrow> (topic_error, string \<times> string) result" where
  "ParseUplinkTopic topic =
     (let parts = splitOn CHR ''/'' topic in
      if length parts \<noteq> 4 \<or> parts ! 0 \<noteq> ''iolink'' \<or> parts ! 1 \<noteq> ''up'' then Inl ErrBadTopic
      else if parts ! 2 = [] \<or> containsAny ''+#'' (parts ! 2) then Inl ErrBadTopic
      else if parts ! 3 = ''properties'' \<or> parts ! 3 = ''ack'' then Inr (parts ! 2, parts ! 3)
      else Inl ErrBadTopic)"

definition DownlinkTopic :: "string \<Rightarrow> string" where
  "DownlinkTopic deviceNo = ''iolink/down/'' @ deviceNo @ ''/cmd''"

definition CheckACL :: "string \<Rightarrow> string \<Rightarrow> bool \<Rightarrow> bool" where
  "CheckACL deviceNo topic write \<longleftrightarrow>
     \<not> (deviceNo = [] \<or> containsAny ''/+#'' deviceNo) \<and>
     (if write then (case ParseUplinkTopic topic of Inl _ \<Rightarrow> False | Inr (d, _) \<Rightarrow> d = deviceNo)
      else topic = DownlinkTopic deviceNo)"

lemma splitOn_join4:
  "splitOn c t = [a, b, d, e] \<longleftrightarrow>
     t = a @ [c] @ b @ [c] @ d @ [c] @ e \<and> c \<notin> set a \<union> set b \<union> set d \<union> set e"
  (is "?l \<longleftrightarrow> ?r")
proof
  assume l: ?l
  then have "t = joinWith [c] [a, b, d, e]" by (metis join_split)
  moreover have "\<forall>x \<in> set [a, b, d, e]. c \<notin> set x" using splitOn_parts[of _ c t] l by auto
  ultimately show ?r by simp
next
  assume r: ?r
  then have "t = joinWith [c] [a, b, d, e]" by simp
  moreover have "splitOn c (joinWith [c] [a, b, d, e]) = [a, b, d, e]"
    by (rule split_join) (use r in auto)
  ultimately show ?l by simp
qed

lemma four_parts: "length l = 4 \<longleftrightarrow> (\<exists>a b c d. l = [a, b, c, d])"
  by (auto simp: numeral_eq_Suc length_Suc_conv)

lemma ParseUplinkTopic_Inr:
  "ParseUplinkTopic topic = Inr (no, kind) \<longleftrightarrow>
     topic = ''iolink/up/'' @ no @ ''/'' @ kind \<and> (kind = ''properties'' \<or> kind = ''ack'') \<and>
     no \<noteq> [] \<and> \<not> containsAny ''/+#'' no" (is "?l \<longleftrightarrow> ?r")
proof
  assume l: ?l
  let ?p = "splitOn CHR ''/'' topic"
  have p: "length ?p = 4" "?p ! 0 = ''iolink''" "?p ! 1 = ''up''" "?p ! 2 = no" "?p ! 3 = kind" "no \<noteq> []"
    "\<not> containsAny ''+#'' no" "kind = ''properties'' \<or> kind = ''ack''"
    using l by (auto simp: ParseUplinkTopic_def Let_def split: if_split_asm)
  then have s: "splitOn CHR ''/'' topic = [''iolink'', ''up'', no, kind]"
    using p(1) by (auto simp: four_parts)
  show ?r
    using s[unfolded splitOn_join4] p(6-8) by (auto simp: containsAny_iff)
next
  assume r: ?r
  then have "splitOn CHR ''/'' topic = [''iolink'', ''up'', no, kind]"
    unfolding splitOn_join4 by (auto simp: containsAny_iff)
  then show ?l
    using r by (auto simp: ParseUplinkTopic_def containsAny_iff)
qed

text \<open>C20: The topics of a device are its own and no one else's. A device may publish to exactly the
  two topics \<open>iolink/up/<device>/properties\<close> and \<open>iolink/up/<device>/ack\<close> and subscribe to exactly
  \<open>iolink/down/<device>/cmd\<close>; a device number with a separator or a wildcard may use none, and no
  topic is allowed to two devices, whether for reading or for writing.\<close>

theorem topic_sandbox:
  "(CheckACL no topic True \<longleftrightarrow> no \<noteq> [] \<and> \<not> containsAny ''/+#'' no \<and>
      (topic = ''iolink/up/'' @ no @ ''/properties'' \<or> topic = ''iolink/up/'' @ no @ ''/ack'')) \<and>
   (CheckACL no topic False \<longleftrightarrow> no \<noteq> [] \<and> \<not> containsAny ''/+#'' no \<and> topic = ''iolink/down/'' @ no @ ''/cmd'') \<and>
   \<not> (CheckACL no topic w \<and> CheckACL no' topic w' \<and> (no, w) \<noteq> (no', w'))"
proof -
  have up: "CheckACL n topic True \<longleftrightarrow> n \<noteq> [] \<and> \<not> containsAny ''/+#'' n \<and>
      (topic = ''iolink/up/'' @ n @ ''/properties'' \<or> topic = ''iolink/up/'' @ n @ ''/ack'')" for n
  proof
    assume "CheckACL n topic True"
    then obtain kind where "ParseUplinkTopic topic = Inr (n, kind)"
      by (auto simp: CheckACL_def split: sum.splits)
    then show "n \<noteq> [] \<and> \<not> containsAny ''/+#'' n \<and>
        (topic = ''iolink/up/'' @ n @ ''/properties'' \<or> topic = ''iolink/up/'' @ n @ ''/ack'')"
      unfolding ParseUplinkTopic_Inr by auto
  next
    assume "n \<noteq> [] \<and> \<not> containsAny ''/+#'' n \<and>
        (topic = ''iolink/up/'' @ n @ ''/properties'' \<or> topic = ''iolink/up/'' @ n @ ''/ack'')"
    then have "ParseUplinkTopic topic = Inr (n, ''properties'') \<or> ParseUplinkTopic topic = Inr (n, ''ack'')"
      unfolding ParseUplinkTopic_Inr by auto
    then show "CheckACL n topic True"
      using \<open>n \<noteq> [] \<and> _\<close> by (auto simp: CheckACL_def)
  qed
  have down: "CheckACL n topic False \<longleftrightarrow> n \<noteq> [] \<and> \<not> containsAny ''/+#'' n \<and> topic = ''iolink/down/'' @ n @ ''/cmd''" for n
    by (auto simp: CheckACL_def DownlinkTopic_def)
  have "no = no' \<and> w = w'" if "CheckACL no topic w" "CheckACL no' topic w'"
  proof (cases w; cases w')
    assume "w" "w'"
    with that have "\<exists>k. ParseUplinkTopic topic = Inr (no, k)" "\<exists>k. ParseUplinkTopic topic = Inr (no', k)"
      by (auto simp: CheckACL_def split: sum.splits)
    then show ?thesis using \<open>w\<close> \<open>w'\<close> by auto
  qed (use that up down in auto)
  then show ?thesis using up down by blast
qed

subsection \<open>Events\<close>

text \<open>A \<open>float64\<close>: a finite value is the rational it stands for (the sign of zero is not kept).\<close>

datatype float64 = Fin rat | NaN | PosInf | NegInf

definition isNaN :: "float64 \<Rightarrow> bool" where "isNaN v \<longleftrightarrow> v = NaN"
definition isInf :: "float64 \<Rightarrow> bool" where "isInf v \<longleftrightarrow> v = PosInf \<or> v = NegInf"

fun float_less :: "float64 \<Rightarrow> float64 \<Rightarrow> bool" where
  "float_less (Fin a) (Fin b) = (a < b)"
| "float_less NaN b = False"
| "float_less a NaN = False"
| "float_less a PosInf = (a \<noteq> PosInf)"
| "float_less PosInf b = False"
| "float_less NegInf b = (b \<noteq> NegInf)"
| "float_less a NegInf = False"

fun trunc :: "float64 \<Rightarrow> float64" where
  "trunc (Fin a) = Fin (if a < 0 then - of_int \<lfloor>- a\<rfloor> else of_int \<lfloor>a\<rfloor>)"
| "trunc v = v"

datatype event_kind = KindProperties | KindStatusChange | OtherEventKind string

text \<open>\<open>json.RawMessage\<close> is its text; a nil map of generic properties is \<open>None\<close>. \<open>Properties != nil\<close> is
  kept apart from being empty.\<close>

record Event =
  ev_Kind :: event_kind
  ev_DeviceNo :: string
  ev_MessageID :: string
  ev_Ts :: time
  ev_Properties :: "(string \<times> float64) list option"
  ev_GenericProperties :: "(string \<times> string) list option"
  ev_Online :: bool

datatype ingestion_error = ErrInvalidEvent | ErrUnknownMetric

definition metricRanges :: "(string \<times> rat \<times> rat) list" where
  "metricRanges = [(''temperature'', 0, 50), (''dissolved_oxygen'', 0, 20), (''ph'', 0, 14), (''turbidity'', 0, 1000),
     (''salinity'', 0, 50), (''battery'', 0, 100), (''signal'', -120, 0)]"

definition MetricRange :: "string \<Rightarrow> (rat \<times> rat) option" where
  "MetricRange name = map_of metricRanges name"

definition out_of_range :: "float64 \<Rightarrow> rat \<Rightarrow> rat \<Rightarrow> bool" where
  "out_of_range v low high \<longleftrightarrow> isNaN v \<or> isInf v \<or> float_less v (Fin low) \<or> float_less (Fin high) v"

text \<open>
  \<open>Validate\<close>; \<open>jsonValid\<close> is \<open>json.Valid\<close>. The loops return the error of the first bad entry; which
  entry comes first in a map is not specified, here it is the first of the list.
\<close>

fun check_generic :: "(string \<Rightarrow> bool) \<Rightarrow> (string \<times> string) list \<Rightarrow> ingestion_error option" where
  "check_generic jsonValid [] = None"
| "check_generic jsonValid ((name, raw) # r) =
     (if name = ''message_id'' \<or> \<not> validString name \<or> length name > 64 then Some ErrInvalidEvent
      else if \<not> jsonValid raw then Some ErrInvalidEvent
      else check_generic jsonValid r)"

fun check_properties :: "(string \<times> float64) list \<Rightarrow> ingestion_error option" where
  "check_properties [] = None"
| "check_properties ((name, v) # r) =
     (case MetricRange name of
        None \<Rightarrow> Some ErrUnknownMetric
      | Some (low, high) \<Rightarrow>
          if out_of_range v low high then Some ErrInvalidEvent
          else if name = ''signal'' \<and> v \<noteq> trunc v then Some ErrInvalidEvent
          else check_properties r)"

definition ValidateEvent :: "(string \<Rightarrow> bool) \<Rightarrow> Event \<Rightarrow> ingestion_error option" where
  "ValidateEvent jsonValid e =
     (if ev_DeviceNo e = [] \<or> \<not> validString (ev_DeviceNo e) \<or> containsAny ''/+#'' (ev_DeviceNo e) \<or> is_zero (ev_Ts e)
      then Some ErrInvalidEvent
      else (case ev_Kind e of
        KindProperties \<Rightarrow>
          (case ev_GenericProperties e of
             Some g \<Rightarrow>
               if (case ev_Properties e of None \<Rightarrow> False | Some p \<Rightarrow> length p \<noteq> 0) \<or> length g = 0 then Some ErrInvalidEvent
               else check_generic jsonValid g
           | None \<Rightarrow>
               if \<not> validString (ev_MessageID e) \<or> runeCount (ev_MessageID e) > 128 then Some ErrInvalidEvent
               else check_properties (case ev_Properties e of None \<Rightarrow> [] | Some p \<Rightarrow> p))
      | KindStatusChange \<Rightarrow>
          if ev_MessageID e \<noteq> [] \<or> ev_Properties e \<noteq> None then Some ErrInvalidEvent else None
      | OtherEventKind _ \<Rightarrow> Some ErrInvalidEvent))"

end
