(* ===== verification/Mqtt_Sessions.thy ===== *)
theory Mqtt_Sessions
  imports Mqtt_Topic
begin

text \<open>
  The sessions of \<open>internal/access/access.go\<close>. Two kinds of lock protect them: \<open>Server.mu\<close> the maps
  \<open>sessions\<close> and \<open>deviceOf\<close>, and each session's own \<open>mu\<close> its fields. What a goroutine does under one
  lock is one definition here; a call that takes locks one after the other is a sequence of steps of
  \<open>mqtt_step\<close>, and between them any other goroutine may run. A client is the identity of its
  \<open>*mqtt.Client\<close>. Whether the core takes a status event is part of the step that sends it. The types
  of \<open>auth\<close> have all optional methods; \<open>interval * OfflineGraceFactor\<close> is taken not to overflow.
\<close>

type_synonym client = nat

record dev_session =
  ds_interval :: duration
  ds_checking :: bool
  ds_client :: "client option"
  ds_lastSeen :: time
  ds_online :: bool
  ds_revision :: int

record access_config =
  ac_ReportInterval :: duration
  ac_OfflineGraceFactor :: int

definition new_config :: "access_config \<Rightarrow> access_config" where
  "new_config cfg =
     (let cfg = (if ac_ReportInterval cfg \<le> 0 then cfg\<lparr>ac_ReportInterval := minute\<rparr> else cfg)
      in if ac_OfflineGraceFactor cfg \<le> 0 then cfg\<lparr>ac_OfflineGraceFactor := 3\<rparr> else cfg)"

text \<open>
  The state: the two maps, the calls in progress (goroutines between two locks), the clients the
  broker has marked as taken over, the clients it has established, and the status events the core
  has taken, in order. A free slot is one of 16 not used by a pending check.
\<close>

datatype access_call =
    Connecting client string duration
  | DisconnectRead client "string option"
  | DisconnectClear client string
  | Checking string time

record access_state =
  as_sessions :: "string \<Rightarrow> dev_session option"
  as_deviceOf :: "client \<Rightarrow> string option"
  as_calls :: "access_call list"
  as_taken :: "client list"
  as_established :: "client list"
  as_log :: "(string \<times> bool) list"

definition new_access :: access_state where
  "new_access = \<lparr>as_sessions = (\<lambda>_. None), as_deviceOf = (\<lambda>_. None), as_calls = [], as_taken = [],
     as_established = [], as_log = []\<rparr>"

subsection \<open>The sections under the locks\<close>

text \<open>\<open>lookup\<close>.\<close>

definition lookup_session :: "access_config \<Rightarrow> string \<Rightarrow> bool \<Rightarrow> access_state \<Rightarrow> access_state" where
  "lookup_session cfg no create st =
     (if as_sessions st no = None \<and> create then
        st\<lparr>as_sessions := (as_sessions st)(no \<mapsto> \<lparr>ds_interval = ac_ReportInterval cfg, ds_checking = False,
          ds_client = None, ds_lastSeen = time_zero, ds_online = False, ds_revision = 0\<rparr>)\<rparr>
      else st)"

text \<open>\<open>transitionWithIngestID\<close> under the lock of session \<open>no\<close>: whether it succeeds, and the state.\<close>

definition transition :: "bool \<Rightarrow> string \<Rightarrow> bool \<Rightarrow> access_state \<Rightarrow> bool \<times> access_state" where
  "transition taken no online st =
     (case as_sessions st no of
        None \<Rightarrow> (False, st)
      | Some ss \<Rightarrow>
          if ds_online ss = online \<and> \<not> online then (True, st)
          else if \<not> taken then (False, st)
          else (True, st\<lparr>as_sessions := (as_sessions st)(no \<mapsto> ss\<lparr>ds_online := online\<rparr>),
                         as_log := as_log st @ [(no, online)]\<rparr>))"

text \<open>\<open>connected\<close> once it holds the session: from the test for a taken-over client.\<close>

definition connect_section ::
  "bool \<Rightarrow> time \<Rightarrow> int \<Rightarrow> client \<Rightarrow> string \<Rightarrow> duration \<Rightarrow> access_state \<Rightarrow> access_state" where
  "connect_section taken now revision cl no interval st =
     (if cl \<in> set (as_taken st) then st
      else if revision < 0 then st
      else (case as_sessions st no of
        None \<Rightarrow> st
      | Some ss \<Rightarrow>
          snd (transition taken no True
            (st\<lparr>as_deviceOf := (as_deviceOf st)(cl \<mapsto> no),
                as_sessions := (as_sessions st)(no \<mapsto> ss\<lparr>ds_revision := revision, ds_client := Some cl,
                   ds_interval := interval, ds_lastSeen := now\<rparr>)\<rparr>))))"

text \<open>\<open>disconnected\<close> once it holds the session.\<close>

definition disconnect_section :: "bool \<Rightarrow> client \<Rightarrow> string \<Rightarrow> access_state \<Rightarrow> access_state" where
  "disconnect_section taken cl no st =
     (case as_sessions st no of
        None \<Rightarrow> st
      | Some ss \<Rightarrow>
          if ds_client ss \<noteq> Some cl \<or> cl \<in> set (as_taken st) then st
          else snd (transition taken no False
                 (st\<lparr>as_sessions := (as_sessions st)(no \<mapsto> ss\<lparr>ds_client := None\<rparr>)\<rparr>)))"

definition isCurrent :: "(string \<Rightarrow> int) \<Rightarrow> client \<Rightarrow> access_state \<Rightarrow> bool" where
  "isCurrent DeviceRevision cl st =
     (case as_deviceOf st cl of
        None \<Rightarrow> False
      | Some no \<Rightarrow>
          (case as_sessions st no of
             None \<Rightarrow> False
           | Some ss \<Rightarrow>
               if ds_client ss \<noteq> Some cl then False
               else \<not> (DeviceRevision no < 0 \<or> DeviceRevision no \<noteq> ds_revision ss)))"

text \<open>The heartbeat of a report: nothing without a session or a client.\<close>

definition heartbeat :: "bool \<Rightarrow> time \<Rightarrow> string \<Rightarrow> access_state \<Rightarrow> bool \<times> access_state" where
  "heartbeat taken ts no st =
     (case as_sessions st no of
        None \<Rightarrow> (True, st)
      | Some ss \<Rightarrow>
          if ds_client ss = None then (True, st)
          else transition taken no True
                 (st\<lparr>as_sessions := (as_sessions st)(no \<mapsto> ss\<lparr>ds_lastSeen := ts\<rparr>)\<rparr>))"

definition quiet :: "access_config \<Rightarrow> time \<Rightarrow> dev_session \<Rightarrow> bool" where
  "quiet cfg now ss \<longleftrightarrow> ds_client ss = None \<or>
     \<not> now < ds_lastSeen ss + ds_interval ss * ac_OfflineGraceFactor cfg"

text \<open>The calls of one kind that are in progress.\<close>

definition pending_checks :: "access_call list \<Rightarrow> string list" where
  "pending_checks calls = concat (map (\<lambda>c. case c of Checking no _ \<Rightarrow> [no] | _ \<Rightarrow> []) calls)"

text \<open>\<open>sweep\<close> on one session it could lock: it starts a check if a slot is free.\<close>

definition sweep_section :: "access_config \<Rightarrow> time \<Rightarrow> string \<Rightarrow> access_state \<Rightarrow> access_state" where
  "sweep_section cfg now no st =
     (case as_sessions st no of
        None \<Rightarrow> st
      | Some ss \<Rightarrow>
          if ds_checking ss \<or> \<not> ds_online ss \<or> \<not> quiet cfg now ss then st
          else if \<not> length (pending_checks (as_calls st)) < 16 then st
          else st\<lparr>as_sessions := (as_sessions st)(no \<mapsto> ss\<lparr>ds_checking := True\<rparr>),
                  as_calls := Checking no now # as_calls st\<rparr>)"

text \<open>The worker of a check.\<close>

definition check_section :: "access_config \<Rightarrow> bool \<Rightarrow> string \<Rightarrow> time \<Rightarrow> access_state \<Rightarrow> access_state" where
  "check_section cfg taken no now st =
     (case as_sessions st no of
        None \<Rightarrow> st
      | Some ss \<Rightarrow>
          (let st = (if quiet cfg now ss then snd (transition taken no False st) else st) in
           case as_sessions st no of
             None \<Rightarrow> st
           | Some ss \<Rightarrow> st\<lparr>as_sessions := (as_sessions st)(no \<mapsto> ss\<lparr>ds_checking := False\<rparr>)\<rparr>))"

subsection \<open>Steps\<close>

definition drop_call :: "access_call \<Rightarrow> access_state \<Rightarrow> access_state" where
  "drop_call c st = st\<lparr>as_calls := remove1 c (as_calls st)\<rparr>"

definition add_call :: "access_call \<Rightarrow> access_state \<Rightarrow> access_state" where
  "add_call c st = st\<lparr>as_calls := c # as_calls st\<rparr>"

text \<open>
  One step of the server. The broker establishes a client once and reports its end once, after
  \<open>OnSessionEstablished\<close> has returned; it may mark any client as taken over at any time. What the
  authenticator answers (the device, its interval and revision) is part of the step.
\<close>

inductive mqtt_step :: "access_config \<Rightarrow> access_state \<Rightarrow> access_state \<Rightarrow> bool" for cfg where
  establish: "cl \<notin> set (as_established st) \<Longrightarrow>
     mqtt_step cfg st (add_call (Connecting cl no interval)
       (lookup_session cfg no True (st\<lparr>as_established := cl # as_established st\<rparr>)))"
| establish_denied: "cl \<notin> set (as_established st) \<Longrightarrow>
     mqtt_step cfg st (st\<lparr>as_established := cl # as_established st\<rparr>)"
| connect: "Connecting cl no interval \<in> set (as_calls st) \<Longrightarrow>
     mqtt_step cfg st (connect_section taken now revision cl no interval (drop_call (Connecting cl no interval) st))"
| disconnect_read: "cl \<in> set (as_established st) \<Longrightarrow> \<forall>c \<in> set (as_calls st). \<forall>no d. c \<noteq> Connecting cl no d \<Longrightarrow>
     mqtt_step cfg st (add_call (DisconnectRead cl (as_deviceOf st cl)) st)"
| disconnect_clear: "DisconnectRead cl (Some no) \<in> set (as_calls st) \<Longrightarrow>
     mqtt_step cfg st (add_call (DisconnectClear cl no)
       ((drop_call (DisconnectRead cl (Some no)) st)\<lparr>as_deviceOf := (as_deviceOf st)(cl := None)\<rparr>))"
| disconnect_unknown: "DisconnectRead cl None \<in> set (as_calls st) \<Longrightarrow>
     mqtt_step cfg st ((drop_call (DisconnectRead cl None) st)\<lparr>as_deviceOf := (as_deviceOf st)(cl := None)\<rparr>)"
| disconnect: "DisconnectClear cl no \<in> set (as_calls st) \<Longrightarrow>
     mqtt_step cfg st (disconnect_section taken cl no (drop_call (DisconnectClear cl no) st))"
| report: "mqtt_step cfg st (snd (heartbeat taken ts no st))"
| sweep: "mqtt_step cfg st (sweep_section cfg now no st)"
| check: "Checking no now \<in> set (as_calls st) \<Longrightarrow>
     mqtt_step cfg st (check_section cfg taken no now (drop_call (Checking no now) st))"
| take_over: "mqtt_step cfg st (st\<lparr>as_taken := cl # as_taken st\<rparr>)"

inductive_cases mqtt_stepE [elim]: "mqtt_step cfg st st'"

inductive mqtt_reach :: "access_config \<Rightarrow> access_state \<Rightarrow> access_state \<Rightarrow> bool" for cfg st where
  refl: "mqtt_reach cfg st st"
| step: "mqtt_reach cfg st st1 \<Longrightarrow> mqtt_step cfg st1 st2 \<Longrightarrow> mqtt_reach cfg st st2"

lemmas section_defs = connect_section_def disconnect_section_def heartbeat_def sweep_section_def
  check_section_def lookup_session_def transition_def drop_call_def add_call_def Let_def

lemma reach_invariant:
  assumes "mqtt_reach cfg st st'" "P st" "\<And>s s'. mqtt_step cfg s s' \<Longrightarrow> P s \<Longrightarrow> P s'"
  shows "P st'"
  using assms by (induction rule: mqtt_reach.induct) blast+

subsection \<open>What the core has been told\<close>

definition online_of :: "access_state \<Rightarrow> string \<Rightarrow> bool" where
  "online_of st no = (case as_sessions st no of None \<Rightarrow> False | Some ss \<Rightarrow> ds_online ss)"

text \<open>The status a log leaves a device in, and logs in which no device goes offline that is not online.\<close>

definition last_status :: "string \<Rightarrow> (string \<times> bool) list \<Rightarrow> bool" where
  "last_status no l = fold (\<lambda>e b. if fst e = no then snd e else b) l False"

fun status_ok :: "(string \<Rightarrow> bool) \<Rightarrow> (string \<times> bool) list \<Rightarrow> bool" where
  "status_ok on [] = True"
| "status_ok on (e # l) = ((snd e \<or> on (fst e)) \<and> status_ok (on(fst e := snd e)) l)"

lemma last_status_append [simp]:
  "last_status no (l @ [e]) = (if fst e = no then snd e else last_status no l)"
  by (simp add: last_status_def)

lemma status_ok_append:
  "status_ok on (l @ [e]) \<longleftrightarrow> status_ok on l \<and> (snd e \<or> fold (\<lambda>e b. if fst e = fst' then snd e else b) l (on fst'))"
  if "fst' = fst e"
  using that by (induction l arbitrary: on) (auto simp: fun_upd_def)

definition told :: "access_state \<Rightarrow> bool" where
  "told st \<longleftrightarrow> status_ok (\<lambda>_. False) (as_log st) \<and> (\<forall>no. online_of st no = last_status no (as_log st))"

lemma told_same:
  "told st \<Longrightarrow> as_log st' = as_log st \<Longrightarrow> (\<And>no. online_of st' no = online_of st no) \<Longrightarrow> told st'"
  by (simp add: told_def)

lemma online_of_update [simp]:
  "online_of (st\<lparr>as_sessions := m\<rparr>) no = (case m no of None \<Rightarrow> False | Some ss \<Rightarrow> ds_online ss)"
  "online_of (st\<lparr>as_calls := cs\<rparr>) = online_of st" "online_of (st\<lparr>as_deviceOf := d\<rparr>) = online_of st"
  "online_of (st\<lparr>as_taken := t\<rparr>) = online_of st" "online_of (st\<lparr>as_established := t\<rparr>) = online_of st"
  "online_of (st\<lparr>as_log := l\<rparr>) = online_of st"
  by (simp_all add: online_of_def fun_eq_iff)

lemma transition_told: "told st \<Longrightarrow> told (snd (transition acc no b st))"
proof (cases "as_sessions st no")
  case (Some ss)
  assume t: "told st"
  show ?thesis
  proof (cases "ds_online ss = b \<and> \<not> b \<or> \<not> acc")
    case True
    then show ?thesis using t Some by (auto simp: transition_def)
  next
    case False
    then have s: "snd (transition acc no b st) = st\<lparr>as_sessions := (as_sessions st)(no \<mapsto> ss\<lparr>ds_online := b\<rparr>),
        as_log := as_log st @ [(no, b)]\<rparr>"
      using Some by (auto simp: transition_def)
    have "b \<or> last_status no (as_log st)"
      using False t Some by (auto simp: told_def online_of_def)
    then have "status_ok (\<lambda>_. False) (as_log st @ [(no, b)])"
      using t status_ok_append[of no "(no, b)" "\<lambda>_. False" "as_log st"] by (simp add: told_def last_status_def)
    then show ?thesis
      using t unfolding s told_def by (auto simp: online_of_def)
  qed
qed (simp add: transition_def)

lemma told_simps [simp]:
  "told (st\<lparr>as_calls := cs\<rparr>) = told st" "told (st\<lparr>as_deviceOf := d\<rparr>) = told st"
  "told (st\<lparr>as_taken := t\<rparr>) = told st" "told (st\<lparr>as_established := t\<rparr>) = told st"
  by (simp_all add: told_def)

lemma told_set:
  assumes "told st" "as_sessions st no = Some ss" "ds_online ss' = ds_online ss"
  shows "told (st\<lparr>as_sessions := (as_sessions st)(no \<mapsto> ss')\<rparr>)"
  by (rule told_same[OF assms(1)]) (use assms(2,3) in \<open>simp_all add: online_of_def\<close>)

text \<open>A session's fields other than \<open>ds_online\<close> do not matter.\<close>

lemma section_told:
  assumes t: "told st"
  shows "told (lookup_session cfg no create st)"
    "told (connect_section acc now revision cl no interval st)"
    "told (disconnect_section acc cl no st)"
    "told (snd (heartbeat acc now no st))"
    "told (sweep_section cfg now no st)"
proof -
  show "told (lookup_session cfg no create st)"
    by (rule told_same[OF t]) (auto simp: lookup_session_def online_of_def)
  show "told (disconnect_section acc cl no st)" "told (snd (heartbeat acc now no st))"
    "told (sweep_section cfg now no st)"
    by (auto simp: disconnect_section_def heartbeat_def sweep_section_def t split: option.split
        intro!: transition_told told_set[OF t])
  have "told (connect_section acc now revision cl no interval st)" if "as_sessions st no = Some ss" for ss
  proof -
    have "told (st\<lparr>as_deviceOf := (as_deviceOf st)(cl \<mapsto> no),
        as_sessions := (as_sessions st)(no \<mapsto> ss\<lparr>ds_revision := revision, ds_client := Some cl,
           ds_interval := interval, ds_lastSeen := now\<rparr>)\<rparr>)"
      using told_set[of "st\<lparr>as_deviceOf := (as_deviceOf st)(cl \<mapsto> no)\<rparr>" no ss] t that by simp
    then show ?thesis using t that by (simp add: connect_section_def transition_told)
  qed
  then show "told (connect_section acc now revision cl no interval st)"
    using t by (cases "as_sessions st no") (simp_all add: connect_section_def)
qed

lemma check_told:
  assumes t: "told st"
  shows "told (check_section cfg acc no now st)"
proof (cases "as_sessions st no")
  case (Some ss)
  let ?st = "if quiet cfg now ss then snd (transition acc no False st) else st"
  have s: "told ?st" using t transition_told by simp
  show ?thesis
  proof (cases "as_sessions ?st no")
    case None
    then show ?thesis using Some s by (simp add: check_section_def Let_def)
  next
    case (Some ss')
    then show ?thesis
      using \<open>as_sessions st no = Some ss\<close> told_set[OF s Some] by (simp add: check_section_def Let_def)
  qed
qed (simp add: check_section_def t)

lemma step_told: "mqtt_step cfg st st' \<Longrightarrow> told st \<Longrightarrow> told st'"
  by (induction rule: mqtt_step.induct)
    (auto simp: add_call_def drop_call_def section_told check_told)

subsection \<open>Checks\<close>

definition checking_of :: "access_state \<Rightarrow> string \<Rightarrow> bool" where
  "checking_of st no = (case as_sessions st no of None \<Rightarrow> False | Some ss \<Rightarrow> ds_checking ss)"

definition checks_ok :: "access_state \<Rightarrow> bool" where
  "checks_ok st \<longleftrightarrow> length (pending_checks (as_calls st)) \<le> 16 \<and> distinct (pending_checks (as_calls st)) \<and>
     (\<forall>no \<in> set (pending_checks (as_calls st)). checking_of st no)"

lemma pending_checks_simps [simp]:
  "pending_checks [] = []"
  "pending_checks (c # cs) = (case c of Checking no _ \<Rightarrow> no # pending_checks cs | _ \<Rightarrow> pending_checks cs)"
  by (simp_all add: pending_checks_def split: access_call.split)

lemma pending_remove1:
  "(\<And>no t. c \<noteq> Checking no t) \<Longrightarrow> pending_checks (remove1 c cs) = pending_checks cs"
  by (induction cs) (auto split: access_call.split)

lemma pending_remove1_check:
  "Checking no t \<in> set cs \<Longrightarrow> distinct (pending_checks cs) \<Longrightarrow>
     no \<notin> set (pending_checks (remove1 (Checking no t) cs)) \<and>
     set (pending_checks (remove1 (Checking no t) cs)) \<subseteq> set (pending_checks cs) \<and>
     distinct (pending_checks (remove1 (Checking no t) cs)) \<and>
     Suc (length (pending_checks (remove1 (Checking no t) cs))) = length (pending_checks cs)"
proof (induction cs)
  case (Cons c cs)
  have mem: "no \<in> set (pending_checks cs)" if "Checking no t \<in> set cs"
    using that by (induction cs) (auto split: access_call.split)
  show ?case using Cons mem by (cases c) (auto split: if_split_asm)
qed simp

lemma calls_kept [simp]:
  "as_calls (snd (transition acc no b st)) = as_calls st" "as_calls (lookup_session cfg no create st) = as_calls st"
  "as_calls (connect_section acc now revision cl no interval st) = as_calls st"
  "as_calls (disconnect_section acc cl no st) = as_calls st" "as_calls (snd (heartbeat acc now no st)) = as_calls st"
  "as_calls (check_section cfg acc no now st) = as_calls st"
  by (auto simp: section_defs split: option.split)

lemma checking_kept [simp]:
  "checking_of (snd (transition acc no b st)) n = checking_of st n"
  "checking_of (lookup_session cfg no create st) n = checking_of st n"
  "checking_of (connect_section acc now revision cl no interval st) n = checking_of st n"
  "checking_of (disconnect_section acc cl no st) n = checking_of st n"
  "checking_of (snd (heartbeat acc now no st)) n = checking_of st n"
  "n \<noteq> no \<Longrightarrow> checking_of (check_section cfg acc no now st) n = checking_of st n"
  by (auto simp: section_defs checking_of_def split: option.split)

lemma checks_ok_same:
  "checks_ok st \<Longrightarrow> pending_checks (as_calls st') = pending_checks (as_calls st) \<Longrightarrow>
   (\<And>no. checking_of st no \<Longrightarrow> checking_of st' no) \<Longrightarrow> checks_ok st'"
  by (simp add: checks_ok_def)

lemma checking_of_simps [simp]:
  "checking_of (st\<lparr>as_calls := cs\<rparr>) = checking_of st" "checking_of (st\<lparr>as_deviceOf := d\<rparr>) = checking_of st"
  "checking_of (st\<lparr>as_taken := t\<rparr>) = checking_of st" "checking_of (st\<lparr>as_established := t\<rparr>) = checking_of st"
  by (simp_all add: checking_of_def fun_eq_iff)

lemma sweep_checks: "checks_ok st \<Longrightarrow> checks_ok (sweep_section cfg now no st)"
  by (auto simp: sweep_section_def checks_ok_def checking_of_def split: option.split)

lemma check_checks:
  assumes "checks_ok st" "Checking no now \<in> set (as_calls st)"
  shows "checks_ok (check_section cfg acc no now (drop_call (Checking no now) st))"
proof -
  let ?cs = "remove1 (Checking no now) (as_calls st)"
  have d: "distinct (pending_checks (as_calls st))" using assms(1) by (simp add: checks_ok_def)
  note r = pending_remove1_check[OF assms(2) d]
  have "checking_of (check_section cfg acc no now (st\<lparr>as_calls := ?cs\<rparr>)) n" if "n \<in> set (pending_checks ?cs)" for n
  proof -
    have "n \<noteq> no" "checking_of st n" using that r assms(1) by (auto simp: checks_ok_def)
    then show ?thesis by simp
  qed
  then show ?thesis using assms(1) r by (simp add: checks_ok_def drop_call_def)
qed

lemma step_checks: "mqtt_step cfg st st' \<Longrightarrow> checks_ok st \<Longrightarrow> checks_ok st'"
proof (induction rule: mqtt_step.induct)
  case (check no now st acc)
  then show ?case by (simp add: check_checks)
next
  case (sweep now no st)
  then show ?case by (simp add: sweep_checks)
qed (auto simp: add_call_def drop_call_def pending_remove1 intro: checks_ok_same)

subsection \<open>Clients that are gone\<close>

definition gone :: "client \<Rightarrow> access_state \<Rightarrow> bool" where
  "gone cl st \<longleftrightarrow> cl \<in> set (as_established st) \<and> (\<forall>c \<in> set (as_calls st). \<forall>no d. c \<noteq> Connecting cl no d) \<and>
     as_deviceOf st cl = None"

lemma deviceOf_kept [simp]:
  "as_deviceOf (snd (transition acc no b st)) = as_deviceOf st" "as_deviceOf (lookup_session cfg no create st) = as_deviceOf st"
  "as_deviceOf (disconnect_section acc cl no st) = as_deviceOf st" "as_deviceOf (snd (heartbeat acc now no st)) = as_deviceOf st"
  "as_deviceOf (sweep_section cfg now no st) = as_deviceOf st" "as_deviceOf (check_section cfg acc no now st) = as_deviceOf st"
  "c \<noteq> cl \<Longrightarrow> as_deviceOf (connect_section acc now revision cl no interval st) c = as_deviceOf st c"
  by (auto simp: section_defs split: option.split)

lemma established_kept [simp]:
  "as_established (snd (transition acc no b st)) = as_established st" "as_established (lookup_session cfg no create st) = as_established st"
  "as_established (disconnect_section acc cl no st) = as_established st" "as_established (snd (heartbeat acc now no st)) = as_established st"
  "as_established (sweep_section cfg now no st) = as_established st" "as_established (check_section cfg acc no now st) = as_established st"
  "as_established (connect_section acc now revision cl no interval st) = as_established st"
  by (auto simp: section_defs split: option.split)

lemma sweep_calls: "c \<in> set (as_calls (sweep_section cfg now no st)) \<Longrightarrow> c \<in> set (as_calls st) \<or> c = Checking no now"
  by (auto simp: sweep_section_def split: option.split_asm if_split_asm)

lemma step_gone: "mqtt_step cfg st st' \<Longrightarrow> gone cl st \<Longrightarrow> gone cl st'"
proof (induction rule: mqtt_step.induct)
  case (sweep now no st)
  then show ?case using sweep_calls by (fastforce simp: gone_def)
next
  case (connect c no interval st acc now revision)
  then have "c \<noteq> cl" by (auto simp: gone_def)
  then show ?case using connect by (auto simp: gone_def drop_call_def dest: set_remove1_subset[THEN subsetD])
qed (auto simp: gone_def add_call_def drop_call_def dest: set_remove1_subset[THEN subsetD])

subsection \<open>Properties\<close>

text \<open>C21: In every state the access module can reach, whatever goroutines interleave and whichever
  status events the core refuses: a session is online exactly when the last status the core has
  taken for its device says so; no device is reported offline that was not online; and at most 16
  checks run at a time, no two for one device.\<close>

theorem device_status_truthful:
  assumes "mqtt_reach cfg new_access st"
  shows "(case as_sessions st no of None \<Rightarrow> False | Some ss \<Rightarrow> ds_online ss) = last_status no (as_log st) \<and>
    status_ok (\<lambda>_. False) (as_log st) \<and>
    length (pending_checks (as_calls st)) \<le> 16 \<and> distinct (pending_checks (as_calls st))"
proof -
  have "told st"
    by (rule reach_invariant[OF assms _ step_told]) (auto simp: told_def new_access_def online_of_def last_status_def)
  moreover have "checks_ok st"
    by (rule reach_invariant[OF assms _ step_checks]) (auto simp: checks_ok_def new_access_def)
  ultimately show ?thesis by (simp add: told_def checks_ok_def online_of_def)
qed

text \<open>A client whose connection has ended is out for good: once its mapping to a device is
  deleted and its \<open>OnSessionEstablished\<close> has returned, it is never again taken for the current
  client of any device, however the calls that are still in progress interleave; and at no time are
  two clients current for one device.\<close>

theorem ended_client_stays_out:
  assumes "mqtt_reach cfg st st'" and "cl \<in> set (as_established st)" and "as_deviceOf st cl = None"
    and "\<forall>c \<in> set (as_calls st). \<forall>no d. c \<noteq> Connecting cl no d"
  shows "\<not> isCurrent revision cl st' \<and>
    \<not> (\<exists>a b. a \<noteq> b \<and> isCurrent revision a st' \<and> isCurrent revision b st' \<and> as_deviceOf st' a = as_deviceOf st' b)"
proof -
  have "gone cl st'"
    by (rule reach_invariant[OF assms(1) _ step_gone]) (use assms in \<open>auto simp: gone_def\<close>)
  then show ?thesis by (auto simp: gone_def isCurrent_def split: option.split_asm if_split_asm)
qed

text \<open>A client that the broker has marked as taken over leaves its device online: when another
  connection, of whatever device, uses the client's identifier, the end of the old connection changes
  nothing but the mapping. In a reachable state with no call in progress the device is then online,
  its last status is online and its session names a client that is gone, while no client at all is
  current.\<close>

theorem takeover_leaves_device_online:
  "\<exists>st ss. mqtt_reach cfg new_access st \<and> as_calls st = [] \<and> gone cl st \<and>
     (\<forall>c. \<not> isCurrent revision c st) \<and> as_sessions st no = Some ss \<and> ds_online ss \<and> ds_client ss = Some cl \<and>
     as_log st = [(no, True)]"
proof -
  define s1 where "s1 = add_call (Connecting cl no minute)
       (lookup_session cfg no True (new_access\<lparr>as_established := cl # as_established new_access\<rparr>))"
  define s2 where "s2 = connect_section True 0 1 cl no minute (drop_call (Connecting cl no minute) s1)"
  define s3 where "s3 = s2\<lparr>as_taken := cl # as_taken s2\<rparr>"
  define s4 where "s4 = add_call (DisconnectRead cl (as_deviceOf s3 cl)) s3"
  define s5 where "s5 = add_call (DisconnectClear cl no)
       ((drop_call (DisconnectRead cl (Some no)) s4)\<lparr>as_deviceOf := (as_deviceOf s4)(cl := None)\<rparr>)"
  define s6 where "s6 = disconnect_section True cl no (drop_call (DisconnectClear cl no) s5)"
  have e1: "s1 = \<lparr>as_sessions = [no \<mapsto> \<lparr>ds_interval = ac_ReportInterval cfg, ds_checking = False, ds_client = None,
      ds_lastSeen = 0, ds_online = False, ds_revision = 0\<rparr>], as_deviceOf = (\<lambda>_. None),
      as_calls = [Connecting cl no minute], as_taken = [], as_established = [cl], as_log = []\<rparr>"
    by (simp add: s1_def add_call_def lookup_session_def new_access_def time_zero_def)
  have e2: "s2 = \<lparr>as_sessions = [no \<mapsto> \<lparr>ds_interval = minute, ds_checking = False, ds_client = Some cl,
      ds_lastSeen = 0, ds_online = True, ds_revision = 1\<rparr>], as_deviceOf = [cl \<mapsto> no],
      as_calls = [], as_taken = [], as_established = [cl], as_log = [(no, True)]\<rparr>"
    by (simp add: s2_def e1 connect_section_def drop_call_def transition_def)
  have e4: "s4 = \<lparr>as_sessions = as_sessions s2, as_deviceOf = [cl \<mapsto> no],
      as_calls = [DisconnectRead cl (Some no)], as_taken = [cl], as_established = [cl], as_log = [(no, True)]\<rparr>"
    by (simp add: s4_def s3_def e2 add_call_def)
  have e6: "s6 = \<lparr>as_sessions = as_sessions s2, as_deviceOf = (\<lambda>_. None), as_calls = [], as_taken = [cl],
      as_established = [cl], as_log = [(no, True)]\<rparr>"
    by (simp add: s6_def s5_def e4 add_call_def drop_call_def disconnect_section_def e2)
  have "mqtt_reach cfg new_access s1"
    unfolding s1_def by (rule mqtt_reach.step[OF mqtt_reach.refl], rule establish) (simp add: new_access_def)
  then have "mqtt_reach cfg new_access s2"
    unfolding s2_def by (rule mqtt_reach.step, intro connect) (simp add: e1)
  then have "mqtt_reach cfg new_access s3"
    unfolding s3_def by (rule mqtt_reach.step, intro take_over)
  then have "mqtt_reach cfg new_access s4"
    unfolding s4_def by (rule mqtt_reach.step, intro disconnect_read) (simp_all add: s3_def e2)
  then have "mqtt_reach cfg new_access s5"
    unfolding s5_def by (rule mqtt_reach.step, intro disconnect_clear) (simp add: e4)
  then have "mqtt_reach cfg new_access s6"
    unfolding s6_def by (rule mqtt_reach.step, intro disconnect) (simp add: s5_def add_call_def)
  then show ?thesis
    by (intro exI[of _ s6] exI) (auto simp: e6 e2 gone_def isCurrent_def)
qed

end
