(* ===== verification/Mqtt_Broker.thy ===== *)
theory Mqtt_Broker
  imports Mqtt_Sessions Go_Strconv
begin

text \<open>
  \<open>internal/access/broker.go\<close> and the reports of \<open>access.go\<close>: what the hooks of the MQTT broker accept
  and which events they hand to the core. A hook is one function of the state of Mqtt_Sessions; the
  interleavings of its heartbeat with the other calls are the steps there. Arguments of the model: the
  authenticator, the parser of \<open>encoding/json\<close> (a value with the raw text of an object's members, in
  their order) and of \<open>strconv.ParseFloat\<close>, and which events the core takes. Log lines and counters
  are left out.
\<close>

datatype json_value =
    JNull | JBool bool | JNum string | JStr string | JArr | JObj "(string \<times> string) list"

record broker_env =
  be_Resolve :: "string \<Rightarrow> string \<Rightarrow> string option"
  be_DeviceRevision :: "string \<Rightarrow> int"
  be_ProductKind :: "string \<Rightarrow> string option"
  be_json :: "string \<Rightarrow> json_value option"
  be_float :: "string \<Rightarrow> float64 option"
  be_takes :: "Event \<Rightarrow> bool"

record packet =
  pk_WillFlag :: bool
  pk_Clean :: bool
  pk_ProtocolVersion :: nat
  pk_SessionExpiryIntervalFlag :: bool
  pk_SessionExpiryInterval :: nat
  pk_Password :: string
  pk_TopicName :: string
  pk_Payload :: string
  pk_Retain :: bool
  pk_Qos :: nat

subsection \<open>Connecting and the ACL\<close>

text \<open>The client is its username and its identifier; \<open>None\<close> for nil.\<close>

definition OnConnectAuthenticate :: "broker_env \<Rightarrow> (string \<times> string) option \<Rightarrow> packet \<Rightarrow> bool" where
  "OnConnectAuthenticate env cl pk =
     (case cl of
        None \<Rightarrow> False
      | Some (username, clientID) \<Rightarrow>
          if pk_WillFlag pk then False
          else if username = [] \<or> \<not> ValidClientID clientID then False
          else if \<not> pk_Clean pk then False
          else if pk_ProtocolVersion pk \<ge> 5 \<and> pk_SessionExpiryIntervalFlag pk \<and> pk_SessionExpiryInterval pk > 0 then False
          else (case be_Resolve env username (pk_Password pk) of
            None \<Rightarrow> False
          | Some deviceNo \<Rightarrow> if be_DeviceRevision env deviceNo < 0 then False else True))"

definition OnACLCheck :: "broker_env \<Rightarrow> access_state \<Rightarrow> client option \<Rightarrow> string \<Rightarrow> bool \<Rightarrow> bool" where
  "OnACLCheck env st cl topic write =
     (case cl of
        None \<Rightarrow> False
      | Some c \<Rightarrow>
          if \<not> isCurrent (be_DeviceRevision env) c st then False
          else (case as_deviceOf st c of None \<Rightarrow> False | Some no \<Rightarrow> CheckACL no topic write))"

subsection \<open>Decoding\<close>

text \<open>\<open>json.Unmarshal\<close> into a map of raw messages: the last member of a name counts; \<open>null\<close> leaves nil.\<close>

definition unmarshal_map :: "broker_env \<Rightarrow> string \<Rightarrow> (string \<times> string) list option" where
  "unmarshal_map env payload =
     (case be_json env payload of
        Some (JObj ms) \<Rightarrow> Some (foldl (\<lambda>m (k, v). AList.update k v m) [] ms)
      | _ \<Rightarrow> None)"

definition unmarshal_string :: "broker_env \<Rightarrow> string \<Rightarrow> string option option" where
  "unmarshal_string env raw =
     (case be_json env raw of Some JNull \<Rightarrow> Some None | Some (JStr s) \<Rightarrow> Some (Some s) | _ \<Rightarrow> None)"

definition unmarshal_float :: "broker_env \<Rightarrow> string \<Rightarrow> float64 option option" where
  "unmarshal_float env raw =
     (case be_json env raw of
        Some JNull \<Rightarrow> Some None
      | Some (JNum l) \<Rightarrow> map_option Some (be_float env l)
      | _ \<Rightarrow> None)"

definition unmarshal_int :: "broker_env \<Rightarrow> string \<Rightarrow> int option option" where
  "unmarshal_int env raw =
     (case be_json env raw of
        Some JNull \<Rightarrow> Some None
      | Some (JNum l) \<Rightarrow> (case ParseInt64 l of (i, fine) \<Rightarrow> if fine then Some (Some i) else None)
      | _ \<Rightarrow> None)"

text \<open>\<open>wire.Report\<close>.\<close>

record Report =
  rp_MessageID :: "string option"
  rp_Temperature :: "float64 option"
  rp_DO :: "float64 option"
  rp_PH :: "float64 option"
  rp_Turbidity :: "float64 option"
  rp_Salinity :: "float64 option"
  rp_Battery :: "float64 option"
  rp_Signal :: "int option"

definition field :: "(string \<Rightarrow> 'a option option) \<Rightarrow> (string \<times> string) list \<Rightarrow> string \<Rightarrow> 'a option option" where
  "field f raw name = (case map_of raw name of None \<Rightarrow> Some None | Some v \<Rightarrow> f v)"

definition unmarshal_report :: "broker_env \<Rightarrow> (string \<times> string) list \<Rightarrow> Report option" where
  "unmarshal_report env raw =
     (case (field (unmarshal_string env) raw ''message_id'', field (unmarshal_float env) raw ''temperature'',
            field (unmarshal_float env) raw ''dissolved_oxygen'', field (unmarshal_float env) raw ''ph'',
            field (unmarshal_float env) raw ''turbidity'', field (unmarshal_float env) raw ''salinity'',
            field (unmarshal_float env) raw ''battery'', field (unmarshal_int env) raw ''signal'') of
        (Some m, Some t, Some o2, Some ph, Some tu, Some sa, Some ba, Some si) \<Rightarrow>
          Some \<lparr>rp_MessageID = m, rp_Temperature = t, rp_DO = o2, rp_PH = ph, rp_Turbidity = tu,
                rp_Salinity = sa, rp_Battery = ba, rp_Signal = si\<rparr>
      | _ \<Rightarrow> None)"

text \<open>\<open>float64(i)\<close>: the nearest value with 53 significant bits, ties to even.\<close>

fun bitLen :: "nat \<Rightarrow> nat" where
  "bitLen n = (if n = 0 then 0 else Suc (bitLen (n div 2)))"

declare bitLen.simps [simp del]

definition round53 :: "nat \<Rightarrow> nat" where
  "round53 n =
     (let k = bitLen n - 53; q = n div 2 ^ k; r = n mod 2 ^ k; half = 2 ^ (k - 1)
      in if k = 0 then n
         else (if r > half \<or> (r = half \<and> odd q) then q + 1 else q) * 2 ^ k)"

definition float_of_int :: "int \<Rightarrow> float64" where
  "float_of_int i = Fin (of_int (if i < 0 then - int (round53 (nat (- i))) else int (round53 (nat i))))"

subsection \<open>Reports\<close>

definition report_properties :: "Report \<Rightarrow> (string \<times> float64) list" where
  "report_properties r =
     concat (map (\<lambda>(k, p). case p of None \<Rightarrow> [] | Some v \<Rightarrow> [(k, v)])
       [(''temperature'', rp_Temperature r), (''dissolved_oxygen'', rp_DO r), (''ph'', rp_PH r),
        (''turbidity'', rp_Turbidity r), (''salinity'', rp_Salinity r), (''battery'', rp_Battery r)]) @
     (case rp_Signal r of None \<Rightarrow> [] | Some i \<Rightarrow> [(''signal'', float_of_int i)])"

definition in_range :: "string \<times> float64 \<Rightarrow> bool" where
  "in_range kv = (case kv of (k, v) \<Rightarrow>
     (case MetricRange k of None \<Rightarrow> False | Some (low, high) \<Rightarrow> \<not> out_of_range v low high))"

text \<open>
  A report returns whether it succeeds, the events it hands to the core as a report, and the state.
  \<open>taken\<close> says whether the core takes a status event of the heartbeat.
\<close>

definition handleReport ::
  "broker_env \<Rightarrow> bool \<Rightarrow> time \<Rightarrow> string \<Rightarrow> Report \<Rightarrow> access_state \<Rightarrow> bool \<times> Event list \<times> access_state" where
  "handleReport env taken now no r st =
     (if (case rp_MessageID r of None \<Rightarrow> False
          | Some m \<Rightarrow> \<not> validString m \<or> runeCount m < 1 \<or> runeCount m > 128) then (False, [], st)
      else (let e = \<lparr>ev_Kind = KindProperties, ev_DeviceNo = no,
                     ev_MessageID = (case rp_MessageID r of None \<Rightarrow> [] | Some m \<Rightarrow> m), ev_Ts = now,
                     ev_Properties = Some (filter in_range (report_properties r)), ev_GenericProperties = None,
                     ev_Online = False\<rparr>
            in case heartbeat taken now no st of
                 (False, st) \<Rightarrow> (False, [], st)
               | (True, st) \<Rightarrow>
                   if ev_Properties e = Some [] then (True, [], st)
                   else (be_takes env e, [e], st)))"

definition handleGenericReport ::
  "broker_env \<Rightarrow> bool \<Rightarrow> time \<Rightarrow> string \<Rightarrow> (string \<times> string) list \<Rightarrow> access_state \<Rightarrow> bool \<times> Event list \<times> access_state" where
  "handleGenericReport env taken now no raw st =
     (case field (unmarshal_string env) raw ''message_id'' of
        None \<Rightarrow> (False, [], st)
      | Some m \<Rightarrow>
          (let e = \<lparr>ev_Kind = KindProperties, ev_DeviceNo = no, ev_MessageID = (case m of None \<Rightarrow> [] | Some s \<Rightarrow> s),
                    ev_Ts = now, ev_Properties = None,
                    ev_GenericProperties = Some (AList.delete ''message_id'' raw), ev_Online = False\<rparr>
           in case heartbeat taken now no st of
                (False, st) \<Rightarrow> (False, [], st)
              | (True, st) \<Rightarrow> (be_takes env e, [e], st)))"

subsection \<open>Publishing\<close>

datatype reject = RSession | RTopic | REnvelope | RJson | RType | RDispatch | RAck

text \<open>
  Field names of a struct match up to case: ASCII letters, and the two other characters that fold to
  ASCII (the Kelvin sign and the long s).
\<close>

fun foldName :: "string \<Rightarrow> string" where
  "foldName [] = []"
| "foldName (a # s) =
     (case s of
        b # t \<Rightarrow>
          if a = CHR 0xC5 \<and> b = CHR 0xBF then CHR ''s'' # foldName t
          else (case t of
            c # u \<Rightarrow>
              if a = CHR 0xE2 \<and> b = CHR 0x84 \<and> c = CHR 0xAA then CHR ''k'' # foldName u
              else lowerChar a # foldName s
          | [] \<Rightarrow> lowerChar a # foldName s)
      | [] \<Rightarrow> [lowerChar a])"

record ack =
  ak_ID :: string
  ak_OK :: "bool option"
  ak_Error :: string

definition ack_member :: "broker_env \<Rightarrow> string \<times> string \<Rightarrow> ack option \<Rightarrow> ack option" where
  "ack_member env kv a =
     (case (a, be_json env (snd kv)) of
        (Some a, Some v) \<Rightarrow>
          if foldName (fst kv) = ''id'' then
            (case v of JStr s \<Rightarrow> Some (a\<lparr>ak_ID := s\<rparr>) | JNull \<Rightarrow> Some a | _ \<Rightarrow> None)
          else if foldName (fst kv) = ''ok'' then
            (case v of JBool b \<Rightarrow> Some (a\<lparr>ak_OK := Some b\<rparr>) | JNull \<Rightarrow> Some (a\<lparr>ak_OK := None\<rparr>) | _ \<Rightarrow> None)
          else if foldName (fst kv) = ''error'' then
            (case v of JStr s \<Rightarrow> Some (a\<lparr>ak_Error := s\<rparr>) | JNull \<Rightarrow> Some a | _ \<Rightarrow> None)
          else Some a
      | _ \<Rightarrow> None)"

definition ack_accepted :: "broker_env \<Rightarrow> string \<Rightarrow> bool" where
  "ack_accepted env payload =
     (case (case be_json env payload of
              Some (JObj ms) \<Rightarrow> fold (ack_member env) ms (Some \<lparr>ak_ID = [], ak_OK = None, ak_Error = []\<rparr>)
            | Some JNull \<Rightarrow> Some \<lparr>ak_ID = [], ak_OK = None, ak_Error = []\<rparr>
            | _ \<Rightarrow> None) of
        None \<Rightarrow> False
      | Some a \<Rightarrow> \<not> (ak_ID a = [] \<or> length (ak_ID a) > 128 \<or>
          (case ak_OK a of None \<Rightarrow> True | Some b \<Rightarrow> \<not> b \<and> ak_Error a = [])))"

definition publish_properties ::
  "broker_env \<Rightarrow> bool \<Rightarrow> time \<Rightarrow> string \<Rightarrow> string \<Rightarrow> access_state \<Rightarrow> reject option \<times> Event list \<times> access_state" where
  "publish_properties env taken now no payload st =
     (let dispatched = (\<lambda>(fine, es, st). (if fine then None else Some RDispatch, es, st)) in
      case unmarshal_map env payload of
        None \<Rightarrow> (Some RJson, [], st)
      | Some raw \<Rightarrow>
          (case be_ProductKind env no of
             None \<Rightarrow> (Some RDispatch, [], st)
           | Some kind \<Rightarrow>
               if kind = ''generic'' then dispatched (handleGenericReport env taken now no raw st)
               else (case unmarshal_report env
                       (filter (\<lambda>(key, _). \<not> (MetricRange key = None \<and> key \<noteq> ''message_id'')) raw) of
                 None \<Rightarrow> (Some RType, [], st)
               | Some r \<Rightarrow> dispatched (handleReport env taken now no r st))))"

definition OnPublish ::
  "broker_env \<Rightarrow> bool \<Rightarrow> time \<Rightarrow> client option \<Rightarrow> packet \<Rightarrow> access_state \<Rightarrow> reject option \<times> Event list \<times> access_state" where
  "OnPublish env taken now cl pk st =
     (case cl of
        None \<Rightarrow> (Some RSession, [], st)
      | Some c \<Rightarrow>
          if \<not> isCurrent (be_DeviceRevision env) c st then (Some RSession, [], st)
          else (case as_deviceOf st c of
            None \<Rightarrow> (Some RSession, [], st)
          | Some no \<Rightarrow>
              (case ParseUplinkTopic (pk_TopicName pk) of
                 Inl _ \<Rightarrow> (Some RTopic, [], st)
               | Inr (noInTopic, kind) \<Rightarrow>
                   if noInTopic \<noteq> no then (Some RTopic, [], st)
                   else if length (pk_Payload pk) > 65536 \<or> pk_Retain pk \<or> pk_Qos pk \<noteq> 1 then (Some REnvelope, [], st)
                   else if \<not> validString (pk_Payload pk) then (Some RJson, [], st)
                   else if kind = ''properties'' then publish_properties env taken now no (pk_Payload pk) st
                   else if \<not> ack_accepted env (pk_Payload pk) then (Some RAck, [], st)
                   else (None, [], st))))"

subsection \<open>Properties\<close>

lemma trunc_of_int [simp]: "trunc (Fin (of_int i)) = Fin (of_int i)"
  by (simp flip: of_int_minus)

lemma float_of_int_trunc: "trunc (float_of_int i) = float_of_int i"
  unfolding float_of_int_def by (rule trunc_of_int)

lemma check_properties_iff:
  "check_properties ps = None \<longleftrightarrow>
     (\<forall>(k, v) \<in> set ps. in_range (k, v) \<and> (k = ''signal'' \<longrightarrow> v = trunc v))"
  by (induction ps rule: check_properties.induct) (auto simp: in_range_def split: option.split if_splits)

lemma report_signal: "(''signal'', v) \<in> set (report_properties r) \<Longrightarrow> v = trunc v"
  by (auto simp: report_properties_def float_of_int_trunc split: option.split_asm)

lemma report_checked: "check_properties (filter in_range (report_properties r)) = None"
  unfolding check_properties_iff using report_signal by auto

text \<open>The event of a report for a device the topics can name.\<close>

lemma handleReport_event:
  assumes "handleReport env taken now no r st = (fine, es, st')" and "e \<in> set es"
    and "no \<noteq> []" "validString no" "\<not> containsAny ''/+#'' no" "\<not> is_zero now"
  shows "ev_DeviceNo e = no \<and> ev_Kind e = KindProperties \<and> ev_Ts e = now \<and> ValidateEvent jsonValid e = None"
proof -
  have e: "e = \<lparr>ev_Kind = KindProperties, ev_DeviceNo = no,
                     ev_MessageID = (case rp_MessageID r of None \<Rightarrow> [] | Some m \<Rightarrow> m), ev_Ts = now,
                     ev_Properties = Some (filter in_range (report_properties r)), ev_GenericProperties = None,
                     ev_Online = False\<rparr>"
    and m: "\<not> (case rp_MessageID r of None \<Rightarrow> False
          | Some m \<Rightarrow> \<not> validString m \<or> runeCount m < 1 \<or> runeCount m > 128)"
    using assms(1,2) by (auto simp: handleReport_def Let_def split: if_split_asm prod.split_asm bool.split_asm)
  have "validString []" "runeCount [] = 0" by code_simp+
  then show ?thesis
    using m assms(3-6) by (auto simp: e ValidateEvent_def report_checked not_less split: option.split_asm)
qed

lemma handleGenericReport_event:
  assumes "handleGenericReport env taken now no raw st = (fine, es, st')" and "e \<in> set es"
  shows "ev_DeviceNo e = no \<and> ev_Kind e = KindProperties \<and> ev_Ts e = now \<and> ev_GenericProperties e \<noteq> None"
  using assms by (auto simp: handleGenericReport_def Let_def split: option.split_asm prod.split_asm bool.split_asm)

lemma publish_properties_event:
  assumes "publish_properties env taken now no payload st = (out, es, st')" and "e \<in> set es"
    and "no \<noteq> []" "validString no" "\<not> containsAny ''/+#'' no" "\<not> is_zero now"
  shows "ev_DeviceNo e = no \<and> ev_Kind e = KindProperties \<and> ev_Ts e = now \<and>
    (ValidateEvent jsonValid e = None \<or> ev_GenericProperties e \<noteq> None)"
proof -
  consider raw fine where "handleGenericReport env taken now no raw st = (fine, es, st')"
    | r fine where "handleReport env taken now no r st = (fine, es, st')"
    using assms(1,2) by (auto simp: publish_properties_def Let_def split: option.split_asm if_split_asm prod.split_asm)
  then show ?thesis
    using handleGenericReport_event[OF _ assms(2)] handleReport_event[OF _ assms(2-6)] by cases blast+
qed

text \<open>C22: An event reaches the core from a published message only when the client is the current one
  of a device and published to that device's own properties topic, with quality of service 1, not
  retained, at most 64 KiB of UTF-8; the event is then a report of that very device, stamped with the
  server's clock, and a report of a water device satisfies everything the core checks of an event.\<close>

theorem publish_event_sound:
  assumes "OnPublish env taken now cl pk st = (out, es, st')" and "e \<in> set es"
    and "\<not> is_zero now" and "validString (pk_TopicName pk)"
  shows "\<exists>c no. cl = Some c \<and> isCurrent (be_DeviceRevision env) c st \<and> as_deviceOf st c = Some no \<and>
    pk_TopicName pk = ''iolink/up/'' @ no @ ''/properties'' \<and> CheckACL no (pk_TopicName pk) True \<and>
    pk_Qos pk = 1 \<and> \<not> pk_Retain pk \<and> length (pk_Payload pk) \<le> 65536 \<and> validString (pk_Payload pk) \<and>
    ev_DeviceNo e = no \<and> ev_Kind e = KindProperties \<and> ev_Ts e = now \<and>
    (ValidateEvent jsonValid e = None \<or> ev_GenericProperties e \<noteq> None)"
proof -
  obtain c no where c: "cl = Some c" "isCurrent (be_DeviceRevision env) c st" "as_deviceOf st c = Some no"
    "ParseUplinkTopic (pk_TopicName pk) = Inr (no, ''properties'')"
    "length (pk_Payload pk) \<le> 65536" "\<not> pk_Retain pk" "pk_Qos pk = 1" "validString (pk_Payload pk)"
    and p: "publish_properties env taken now no (pk_Payload pk) st = (out, es, st')"
    using assms(1,2) by (auto simp: OnPublish_def not_less split: option.split_asm if_split_asm sum.split_asm)
  note t = c(4)[unfolded ParseUplinkTopic_Inr]
  from t have t': "pk_TopicName pk = ''iolink/up/'' @ no @ CHR ''/'' # ''properties''" by simp
  have v: "validString no"
    using assms(4) unfolding t' by (rule validString_between) simp_all
  then have "CheckACL no (pk_TopicName pk) True"
    using c(4) t by (simp add: CheckACL_def)
  with c t publish_properties_event[OF p assms(2) _ v _ assms(3)] show ?thesis by simp
qed

end
