(* ===== verification/Mqtt_Examples.thy ===== *)
theory Mqtt_Examples
  imports Mqtt_Broker
begin

text \<open>
  A device connects, reports its pH and disconnects, and another client of it connects: the
  properties of Mqtt_Sessions and Mqtt_Broker applied to this run.
\<close>

definition ex_access_config :: access_config where
  "ex_access_config = \<lparr>ac_ReportInterval = minute, ac_OfflineGraceFactor = 3\<rparr>"

definition ex_connecting :: "client \<Rightarrow> access_state \<Rightarrow> access_state" where
  "ex_connecting cl st = add_call (Connecting cl ''d1'' minute)
     (lookup_session ex_access_config ''d1'' True (st\<lparr>as_established := cl # as_established st\<rparr>))"

definition ex_connect :: "client \<Rightarrow> access_state \<Rightarrow> access_state" where
  "ex_connect cl st = connect_section True 9 1 cl ''d1'' minute (drop_call (Connecting cl ''d1'' minute) st)"

definition ex_online :: access_state where
  "ex_online = ex_connect 7 (ex_connecting 7 new_access)"

definition ex_reading :: access_state where
  "ex_reading = add_call (DisconnectRead 7 (Some ''d1'')) ex_online"

definition ex_clearing :: access_state where
  "ex_clearing = add_call (DisconnectClear 7 ''d1'')
     ((drop_call (DisconnectRead 7 (Some ''d1'')) ex_reading)\<lparr>as_deviceOf := (as_deviceOf ex_reading)(7 := None)\<rparr>)"

definition ex_ended :: access_state where
  "ex_ended = disconnect_section True 7 ''d1'' (drop_call (DisconnectClear 7 ''d1'') ex_clearing)"

definition ex_again :: access_state where
  "ex_again = ex_connect 8 (ex_connecting 8 ex_ended)"

lemmas ex_defs = ex_again_def ex_ended_def ex_clearing_def ex_reading_def ex_online_def ex_connect_def
  ex_connecting_def ex_access_config_def new_access_def section_defs isCurrent_def

lemma ex_connect_reach:
  assumes "mqtt_reach ex_access_config st0 st" "cl \<notin> set (as_established st)"
  shows "mqtt_reach ex_access_config st0 (ex_connect cl (ex_connecting cl st))"
proof -
  have "mqtt_reach ex_access_config st0 (ex_connecting cl st)"
    unfolding ex_connecting_def by (rule mqtt_reach.step[OF assms(1)]) (rule mqtt_step.establish[OF assms(2)])
  then show ?thesis
    unfolding ex_connect_def
    by (rule mqtt_reach.step) (rule mqtt_step.connect, simp add: ex_connecting_def add_call_def)
qed

lemma ex_online_reach: "mqtt_reach ex_access_config new_access ex_online"
  unfolding ex_online_def by (rule ex_connect_reach[OF mqtt_reach.refl]) (simp add: new_access_def)

lemma ex_end_steps:
  "mqtt_step ex_access_config ex_online ex_reading" "mqtt_step ex_access_config ex_reading ex_clearing"
  "mqtt_step ex_access_config ex_clearing ex_ended"
proof -
  have "as_deviceOf ex_online 7 = Some ''d1''" by (simp add: ex_defs)
  then have e: "ex_reading = add_call (DisconnectRead 7 (as_deviceOf ex_online 7)) ex_online"
    by (simp add: ex_reading_def)
  show "mqtt_step ex_access_config ex_online ex_reading"
    unfolding e by (rule mqtt_step.disconnect_read, simp_all add: ex_defs)
  show "mqtt_step ex_access_config ex_reading ex_clearing"
    unfolding ex_clearing_def by (rule mqtt_step.disconnect_clear) (simp add: ex_reading_def add_call_def)
  show "mqtt_step ex_access_config ex_clearing ex_ended"
    unfolding ex_ended_def by (rule mqtt_step.disconnect) (simp add: ex_clearing_def add_call_def)
qed

lemma ex_ended_reach: "mqtt_reach ex_access_config new_access ex_ended"
  by (rule mqtt_reach.step[OF _ ex_end_steps(3)], rule mqtt_reach.step[OF _ ex_end_steps(2)],
      rule mqtt_reach.step[OF ex_online_reach ex_end_steps(1)])

lemma ex_again_reach: "mqtt_reach ex_access_config ex_ended ex_again"
  unfolding ex_again_def by (rule ex_connect_reach[OF mqtt_reach.refl]) (simp add: ex_defs)

theorem device_status_truthful_witness:
  "online_of ex_ended ''d1'' = last_status ''d1'' [(''d1'', True), (''d1'', False)] \<and>
   status_ok (\<lambda>_. False) [(''d1'', True), (''d1'', False)]"
proof -
  have l: "as_log ex_ended = [(''d1'', True), (''d1'', False)]" by (simp add: ex_defs)
  show ?thesis
    using device_status_truthful[OF ex_ended_reach, of "''d1''"] unfolding online_of_def l by simp
qed

theorem ended_client_stays_out_witness:
  "\<not> isCurrent (\<lambda>_. 1) 7 ex_again \<and> isCurrent (\<lambda>_. 1) 7 ex_online \<and> isCurrent (\<lambda>_. 1) 8 ex_again"
proof -
  have "\<not> isCurrent (\<lambda>_. 1) 7 ex_again"
    using ended_client_stays_out[OF ex_again_reach, of 7] by (simp add: ex_defs)
  then show ?thesis by (simp add: ex_defs)
qed

definition ex_broker_env :: broker_env where
  "ex_broker_env = \<lparr>be_Resolve = (\<lambda>u p. if p = ''secret'' then Some ''d1'' else None), be_DeviceRevision = (\<lambda>_. 1),
     be_ProductKind = (\<lambda>_. Some ''water''),
     be_json = (\<lambda>s. if s = ''{ph:7}'' then Some (JObj [(''ph'', ''7'')]) else if s = ''7'' then Some (JNum ''7'') else None),
     be_float = (\<lambda>s. Some (Fin 7)), be_takes = (\<lambda>_. True)\<rparr>"

definition ex_packet :: packet where
  "ex_packet = \<lparr>pk_WillFlag = False, pk_Clean = True, pk_ProtocolVersion = 4, pk_SessionExpiryIntervalFlag = False,
     pk_SessionExpiryInterval = 0, pk_Password = ''secret'', pk_TopicName = ''iolink/up/d1/properties'',
     pk_Payload = ''{ph:7}'', pk_Retain = False, pk_Qos = 1\<rparr>"

definition ex_event :: Event where
  "ex_event = \<lparr>ev_Kind = KindProperties, ev_DeviceNo = ''d1'', ev_MessageID = [], ev_Ts = 12,
     ev_Properties = Some [(''ph'', Fin 7)], ev_GenericProperties = None, ev_Online = False\<rparr>"

lemma ex_parts:
  "isCurrent (\<lambda>_. 1) 7 ex_online" "as_deviceOf ex_online 7 = Some ''d1''"
  "ParseUplinkTopic ''iolink/up/d1/properties'' = Inr (''d1'', ''properties'')"
  "validString ''{ph:7}''" "validString ''iolink/up/d1/properties''"
  unfolding ParseUplinkTopic_Inr
  by (simp_all add: ex_defs containsAny_def validString_def codes_def decode_rune_ascii)

lemma ex_publish: "\<exists>st'. OnPublish ex_broker_env True 12 (Some 7) ex_packet ex_online = (None, [ex_event], st')"
proof -
  obtain b st' where h: "heartbeat True 12 ''d1'' ex_online = (b, st')" and b: "b"
    by (simp add: heartbeat_def transition_def ex_defs)
  show ?thesis
    using ex_parts h b
    by (simp add: OnPublish_def ex_packet_def ex_broker_env_def publish_properties_def unmarshal_map_def
        unmarshal_report_def field_def unmarshal_float_def handleReport_def report_properties_def in_range_def
        MetricRange_def metricRanges_def out_of_range_def isNaN_def isInf_def ex_event_def)
qed

theorem publish_event_sound_witness:
  "CheckACL ''d1'' ''iolink/up/d1/properties'' True \<and> ValidateEvent (\<lambda>_. True) ex_event = None"
proof -
  obtain st' where p: "OnPublish ex_broker_env True 12 (Some 7) ex_packet ex_online = (None, [ex_event], st')"
    using ex_publish by blast
  have t: "\<not> is_zero (12 :: time)" "validString (pk_TopicName ex_packet)" "ex_event \<in> set [ex_event]"
    using ex_parts by (simp_all add: is_zero_def ex_packet_def time_zero_def)
  show ?thesis
    using publish_event_sound[OF p t(3) t(1) t(2), of "\<lambda>_. True"] ex_parts(2)
    by (auto simp: ex_packet_def ex_event_def)
qed

end
