(* ===== verification/Core_Tables.thy ===== *)
theory Core_Tables
  imports Mqtt_Broker "HOL-Library.List_Lexorder" "HOL-Library.Char_ord"
begin

text \<open>
  The tables the core of the server works on (\<open>internal/migrate/sql\<close>, as far as the ingestion, the
  alarms and the notifications read or write them), and the questions about a device that the access
  module asks (\<open>core/deviceauth.go\<close>). A table is the list of its rows, a query a comprehension over
  the tables it joins. A call is a transaction: \<open>cx_fails n\<close> says that its statement \<open>n\<close> fails for a
  reason of the database, \<open>cx_now\<close> is the start of the transaction (\<open>now()\<close>); a call that fails
  leaves the tables as they were. The statements are numbered by the call that has them. JSON and
  its numbers, the precision of a stored instant, the normal form of a stored JSON value, the hash
  and the text of an alarm are parameters.
\<close>

record core_env =
  ce_json :: "string \<Rightarrow> json_value option"
  ce_float :: "string \<Rightarrow> float64 option"
  ce_marshal :: "float64 \<Rightarrow> string"
  ce_stored :: "string \<Rightarrow> string"
  ce_time :: "time \<Rightarrow> time"
  ce_message :: "string \<Rightarrow> bool \<Rightarrow> float64 \<Rightarrow> string"
  ce_sha256 :: "string \<Rightarrow> string"

record core_tx =
  cx_fails :: "nat \<Rightarrow> bool"
  cx_now :: time

datatype core_error =
    CInvalidEvent | CIngestion ingestion_error | CNoRows | CStore | CDecode | CInvalidModel | CPanic

subsection \<open>Rows\<close>

record ModelField =
  mf_Identifier :: string
  mf_Type :: string
  mf_Unit :: string
  mf_Min :: "float64 option"
  mf_Max :: "float64 option"
  mf_Enum :: "string list"
  mf_Readable :: bool
  mf_Writable :: bool
  mf_Nullable :: bool

record core_device =
  de_id :: int
  de_no :: string
  de_name :: string
  de_model :: string
  de_pond :: int
  de_product :: int
  de_version :: int
  de_disabled :: bool
  de_status :: string
  de_seen :: "time option"
  de_session_version :: int
  de_username :: string
  de_secret_hash :: string
  de_interval :: "int option"

record core_pond =
  po_id :: int
  po_farm :: int
  po_name :: string
  po_area :: "float64 option"

record core_farm =
  fr_id :: int
  fr_tenant :: int
  fr_owner :: "int option"
  fr_name :: string
  fr_location :: string

record core_tenant =
  te_id :: int
  te_name :: string
  te_active :: bool

record core_member =
  mb_tenant :: int
  mb_user :: int
  mb_role :: string
  mb_permission_version :: int
  mb_active :: bool
  mb_expires :: "time option"

record core_user =
  ur_id :: int
  ur_open_id :: string
  ur_authority :: string
  ur_subscribed :: bool
  ur_token_version :: int

record core_product =
  pd_id :: int
  pd_name :: string
  pd_tenant :: int

record core_model =
  md_product :: int
  md_version :: int
  md_published :: bool
  md_fields :: "ModelField list option" \<comment> \<open>\<open>None\<close>: JSON that does not decode\<close>

record AlarmRule =
  ru_ID :: int
  ru_PondID :: int
  ru_Metric :: string
  ru_Min :: "float64 option"
  ru_Max :: "float64 option"
  ru_Level :: string
  ru_Enabled :: bool

record message_row =
  ms_device :: string
  ms_id :: string
  ms_received :: time

record sensor_row =
  sd_ts :: time
  sd_device :: string
  sd_pond :: int
  sd_tenant :: int
  sd_values :: "(string \<times> float64 option) list"
  sd_signal :: "int option"

text \<open>JSON objects in a column are their members with the text of each value.\<close>

record telemetry_row =
  tl_ts :: time
  tl_device :: string
  tl_pond :: int
  tl_tenant :: int
  tl_product :: int
  tl_version :: int
  tl_properties :: "(string \<times> string) list"

record shadow_row =
  sh_device :: string
  sh_last :: "(string \<times> string) list"
  sh_signal :: "int option"
  sh_ts :: time
  sh_pond :: "int option"
  sh_tenant :: int
  sh_stamps :: "(string \<times> time) list"
  sh_version :: int
  sh_product :: int

record Alarm =
  al_ID :: int
  al_DeviceNo :: string
  al_PondID :: int
  al_ProductID :: int
  al_Metric :: string
  al_CurrentValue :: float64
  al_Threshold :: float64
  al_Level :: string
  al_Message :: string
  al_ConfirmedAt :: "time option"
  al_CreatedAt :: time

record outbox_row =
  ob_id :: int
  ob_alarm :: int
  ob_status :: string
  ob_attempts :: int
  ob_next_at :: time
  ob_leased_until :: "time option"
  ob_lease_owner :: "string option"
  ob_last_error :: "string option"
  ob_recipient :: "string option"

record core_db =
  cb_devices :: "core_device list"
  cb_ponds :: "core_pond list"
  cb_farms :: "core_farm list"
  cb_tenants :: "core_tenant list"
  cb_members :: "core_member list"
  cb_users :: "core_user list"
  cb_products :: "core_product list"
  cb_models :: "core_model list"
  cb_rules :: "AlarmRule list"
  cb_messages :: "message_row list"
  cb_sensor :: "sensor_row list"
  cb_telemetry :: "telemetry_row list"
  cb_shadows :: "shadow_row list"
  cb_alarms :: "Alarm list"
  cb_outbox :: "outbox_row list"

text \<open>A value of a column \<open>VARCHAR(n)\<close>: UTF-8 without a zero byte, of at most \<open>n\<close> characters.\<close>

definition pg_varchar :: "nat \<Rightarrow> string \<Rightarrow> bool" where
  "pg_varchar n s \<longleftrightarrow> validString s \<and> 0 \<notin> set (codes s) \<and> runeCount s \<le> n"

text \<open>\<open>GREATEST\<close> leaves NULL out.\<close>

definition greatest :: "time option \<Rightarrow> time \<Rightarrow> time" where
  "greatest a t = (case a of None \<Rightarrow> t | Some s \<Rightarrow> max s t)"

subsection \<open>A device and its place\<close>

text \<open>
  The live devices with the tenant of their farm: devices that are not disabled, of an
  active tenant (the join all statements on a device share).
\<close>

definition live_where :: "(core_device \<Rightarrow> bool) \<Rightarrow> core_db \<Rightarrow> (core_device \<times> core_farm) list" where
  "live_where P db =
     [(d, f). d \<leftarrow> cb_devices db, P d \<and> \<not> de_disabled d,
        p \<leftarrow> cb_ponds db, po_id p = de_pond d,
        f \<leftarrow> cb_farms db, fr_id f = po_farm p,
        t \<leftarrow> cb_tenants db, te_id t = fr_tenant f \<and> te_active t]"

definition live_devices :: "core_db \<Rightarrow> string \<Rightarrow> (core_device \<times> core_farm) list" where
  "live_devices db no = live_where (\<lambda>d. de_no d = no) db"

text \<open>With the published model of the device.\<close>

definition device_scope :: "core_db \<Rightarrow> string \<Rightarrow> (core_device \<times> int \<times> ModelField list option) list" where
  "device_scope db no =
     [(d, fr_tenant f, md_fields m). (d, f) \<leftarrow> live_devices db no,
        m \<leftarrow> cb_models db, md_product m = de_product d \<and> md_version m = de_version d \<and> md_published m]"

definition system_tenant :: string where "system_tenant = ''__iolink_system__''"
definition water_product :: string where "water_product = ''water-quality''"

text \<open>\<open>Resolve\<close>; the secret is compared with the hash in hexadecimal digits.\<close>

definition hexVal :: "char \<Rightarrow> nat option" where
  "hexVal c = (let n = of_char c in
     if 48 \<le> n \<and> n \<le> 57 then Some (n - 48) else if 97 \<le> n \<and> n \<le> 102 then Some (n - 87)
     else if 65 \<le> n \<and> n \<le> 70 then Some (n - 55) else None)"

fun hexDecode :: "string \<Rightarrow> string option" where
  "hexDecode [] = Some []"
| "hexDecode [c] = None"
| "hexDecode (a # b # s) =
     (case (hexVal a, hexVal b, hexDecode s) of
        (Some x, Some y, Some r) \<Rightarrow> Some (char_of (16 * x + y) # r)
      | _ \<Rightarrow> None)"

definition hexDigit :: "nat \<Rightarrow> char" where
  "hexDigit n = char_of (if n < 10 then 48 + n else 87 + n)"

definition hexEncode :: "string \<Rightarrow> string" where
  "hexEncode s = concat (map (\<lambda>c. [hexDigit (of_char c div 16), hexDigit (of_char c mod 16)]) s)"

definition HashDeviceSecret :: "core_env \<Rightarrow> string \<Rightarrow> string" where
  "HashDeviceSecret env secret = hexEncode (ce_sha256 env secret)"

definition core_Resolve :: "core_env \<Rightarrow> core_tx \<Rightarrow> core_db \<Rightarrow> string \<Rightarrow> string \<Rightarrow> string option" where
  "core_Resolve env x db username password =
     (if username = [] then None
      else (let sum = ce_sha256 env password in
        if cx_fails x 0 then None
        else (case live_where (\<lambda>d. de_username d = username) db of
          [] \<Rightarrow> None
        | (d, _) # _ \<Rightarrow>
            (case hexDecode (de_secret_hash d) of
               None \<Rightarrow> None
             | Some stored \<Rightarrow>
                 if length stored \<noteq> length sum \<or> stored \<noteq> sum then None else Some (de_no d)))))"

definition core_ReportInterval :: "duration \<Rightarrow> core_tx \<Rightarrow> core_db \<Rightarrow> string \<Rightarrow> duration" where
  "core_ReportInterval fallback x db no =
     (if cx_fails x 0 then fallback
      else (case live_devices db no of
        [] \<Rightarrow> fallback
      | (d, _) # _ \<Rightarrow> (case de_interval d of None \<Rightarrow> fallback | Some seconds \<Rightarrow> seconds * second)))"

definition core_DeviceRevision :: "core_tx \<Rightarrow> core_db \<Rightarrow> string \<Rightarrow> int" where
  "core_DeviceRevision x db no =
     (if cx_fails x 0 then -1
      else (case live_devices db no of [] \<Rightarrow> -1 | (d, _) # _ \<Rightarrow> de_session_version d))"

text \<open>The join with the product and its tenant, which must be active.\<close>

definition device_products :: "core_db \<Rightarrow> string \<Rightarrow> (core_product \<times> core_tenant) list" where
  "device_products db no =
     [(p, t). (d, _) \<leftarrow> live_devices db no, p \<leftarrow> cb_products db, pd_id p = de_product d,
        t \<leftarrow> cb_tenants db, te_id t = pd_tenant p \<and> te_active t]"

definition is_water :: "core_product \<times> core_tenant \<Rightarrow> bool" where
  "is_water pt \<longleftrightarrow> pd_name (fst pt) = water_product \<and> te_name (snd pt) = system_tenant"

definition GenericProduct :: "core_tx \<Rightarrow> core_db \<Rightarrow> string \<Rightarrow> bool" where
  "GenericProduct x db no =
     (if cx_fails x 0 then False
      else (case device_products db no of [] \<Rightarrow> False | pt # _ \<Rightarrow> \<not> is_water pt))"

definition core_ProductKind :: "core_tx \<Rightarrow> core_db \<Rightarrow> string \<Rightarrow> (core_error, string) result" where
  "core_ProductKind x db no =
     require (\<not> cx_fails x 0) CStore
     (case device_products db no of
        [] \<Rightarrow> Inl CNoRows
      | pt # _ \<Rightarrow> Inr (if is_water pt then ''water'' else ''generic''))"

subsection \<open>Facts\<close>

text \<open>A device authenticates with the secret it was registered with, and with no other of another hash.\<close>

lemma of_char_less_256': "(of_char c :: nat) < 256"
  using nat_of_char_less_256 by simp

lemma hexVal_digit: "n < 16 \<Longrightarrow> hexVal (hexDigit n) = Some n"
  by (auto simp: hexVal_def hexDigit_def Let_def)

lemma hexDecode_hexEncode: "hexDecode (hexEncode s) = Some s"
proof (induction s)
  case (Cons c s)
  have "(of_char c :: nat) < 256" by (rule of_char_less_256')
  then have "(of_char c :: nat) div 16 < 16" by (rule less_mult_imp_div_less[of _ 16 16, simplified])
  with Cons show ?case by (simp add: hexEncode_def hexVal_digit)
qed (simp add: hexEncode_def)

end
