(* ===== verification/Core_Alarm.thy ===== *)
theory Core_Alarm
  imports Core_Tables
begin

text \<open>
  \<open>core/alarm.go\<close>: the checks of an alarm rule and the alarm engine, which evaluates the rules of a
  pond against the values of one event inside the transaction that stores it. Statements 10 (the
  rules), 11 (the product of the device) and, for the \<open>i\<close>-th rule, \<open>12 + 2 * i\<close> and \<open>13 + 2 * i\<close>.
\<close>

definition metricColumns :: "string list" where
  "metricColumns = [''temperature'', ''dissolved_oxygen'', ''ph'', ''turbidity'', ''salinity'']"

definition ValidMetric :: "string \<Rightarrow> bool" where
  "ValidMetric m \<longleftrightarrow> m \<in> set metricColumns"

definition metric_rune :: "nat \<Rightarrow> bool" where
  "metric_rune r \<longleftrightarrow> (97 \<le> r \<and> r \<le> 122) \<or> (48 \<le> r \<and> r \<le> 57) \<or> r = 95"

definition validAlarmMetric :: "string \<Rightarrow> bool" where
  "validAlarmMetric metric =
     (if ValidMetric metric then True
      else (case metric of
        [] \<Rightarrow> False
      | c # r \<Rightarrow>
          if length metric > 64 \<or> of_char c < (97 :: nat) \<or> of_char c > (122 :: nat) then False
          else list_all metric_rune (runes (codes r))))"

definition AlarmWarning :: string where "AlarmWarning = ''warning''"
definition AlarmCritical :: string where "AlarmCritical = ''critical''"

definition validateRule :: "AlarmRule \<Rightarrow> bool" where
  "validateRule r =
     (if \<not> validAlarmMetric (ru_Metric r) \<or> (ru_Level r \<noteq> AlarmWarning \<and> ru_Level r \<noteq> AlarmCritical) \<or>
         (ru_Min r = None \<and> ru_Max r = None) then False
      else if list_ex (\<lambda>p. case p of None \<Rightarrow> False | Some v \<Rightarrow> isNaN v \<or> isInf v) [ru_Min r, ru_Max r] then False
      else (case (ru_Min r, ru_Max r) of
              (Some a, Some b) \<Rightarrow> float_less a b
            | _ \<Rightarrow> True))"

definition below_min :: "AlarmRule \<Rightarrow> float64 \<Rightarrow> bool" where
  "below_min r v = (case ru_Min r of None \<Rightarrow> False | Some m \<Rightarrow> float_less v m)"

definition breached :: "AlarmRule \<Rightarrow> float64 \<Rightarrow> bool" where
  "breached r v \<longleftrightarrow> below_min r v \<or> (case ru_Max r of None \<Rightarrow> False | Some m \<Rightarrow> float_less m v)"

text \<open>The threshold that is broken, \<open>None\<close> where the code would follow a nil pointer.\<close>

definition threshold_of :: "AlarmRule \<Rightarrow> float64 \<Rightarrow> float64 option" where
  "threshold_of r v = (if below_min r v then ru_Min r else ru_Max r)"

subsection \<open>The engine\<close>

definition open_alarm :: "string \<Rightarrow> int \<Rightarrow> int \<Rightarrow> string \<Rightarrow> Alarm \<Rightarrow> bool" where
  "open_alarm dev pond product metric a \<longleftrightarrow> al_DeviceNo a = dev \<and> al_PondID a = pond \<and>
     al_ProductID a = product \<and> al_Metric a = metric \<and> al_ConfirmedAt a = None"

definition next_alarm_id :: "Alarm list \<Rightarrow> int" where
  "next_alarm_id as = foldr (\<lambda>a. max (al_ID a)) as 0 + 1"

definition next_outbox_id :: "outbox_row list \<Rightarrow> int" where
  "next_outbox_id os = foldr (\<lambda>o1. max (ob_id o1)) os 0 + 1"

definition new_outbox :: "core_tx \<Rightarrow> int \<Rightarrow> outbox_row list \<Rightarrow> outbox_row" where
  "new_outbox x alarm os = \<lparr>ob_id = next_outbox_id os, ob_alarm = alarm, ob_status = ''pending'',
     ob_attempts = 0, ob_next_at = cx_now x, ob_leased_until = None, ob_lease_owner = None,
     ob_last_error = None, ob_recipient = None\<rparr>"

definition new_alarm ::
  "core_env \<Rightarrow> Event \<Rightarrow> int \<Rightarrow> int \<Rightarrow> AlarmRule \<Rightarrow> float64 \<Rightarrow> float64 \<Rightarrow> Alarm list \<Rightarrow> Alarm" where
  "new_alarm env e pond product r v threshold as =
     \<lparr>al_ID = next_alarm_id as, al_DeviceNo = ev_DeviceNo e, al_PondID = pond, al_ProductID = product,
      al_Metric = ru_Metric r, al_CurrentValue = v, al_Threshold = threshold, al_Level = ru_Level r,
      al_Message = ce_message env (ru_Metric r) (below_min r v) threshold, al_ConfirmedAt = None,
      al_CreatedAt = ce_time env (ev_Ts e)\<rparr>"

text \<open>The loop over the rules, from statement \<open>n\<close>; with the alarms it has raised.\<close>

fun raise_alarms ::
  "core_env \<Rightarrow> core_tx \<Rightarrow> nat \<Rightarrow> Event \<Rightarrow> (string \<times> float64) list \<Rightarrow> int \<Rightarrow> int \<Rightarrow> AlarmRule list \<Rightarrow> core_db \<Rightarrow>
   (core_error, Alarm list \<times> core_db) result" where
  "raise_alarms env x n e props pond product [] db = Inr ([], db)"
| "raise_alarms env x n e props pond product (r # rules) db =
     (case map_of props (ru_Metric r) of
        None \<Rightarrow> raise_alarms env x (n + 2) e props pond product rules db
      | Some v \<Rightarrow>
          if \<not> breached r v then raise_alarms env x (n + 2) e props pond product rules db
          else take_or (threshold_of r v) CPanic (\<lambda>threshold.
            require (\<not> cx_fails x n) CStore
            (if list_ex (open_alarm (ev_DeviceNo e) pond product (ru_Metric r)) (cb_alarms db)
             then raise_alarms env x (n + 2) e props pond product rules db
             else (let al = new_alarm env e pond product r v threshold (cb_alarms db) in
               require (\<not> cx_fails x (n + 1) \<and> \<not> list_ex (\<lambda>o1. ob_alarm o1 = al_ID al) (cb_outbox db)) CStore
               (after (raise_alarms env x (n + 2) e props pond product rules
                   (db\<lparr>cb_alarms := cb_alarms db @ [al],
                       cb_outbox := cb_outbox db @ [new_outbox x (al_ID al) (cb_outbox db)]\<rparr>)) (\<lambda>(out, db).
                Inr (al # out, db)))))))"

text \<open>
  \<open>evaluate\<close>; \<open>productID\<close> is the product the event carries (0 for none), \<open>props\<close> its values.
\<close>

definition evaluate ::
  "core_env \<Rightarrow> core_tx \<Rightarrow> Event \<Rightarrow> (string \<times> float64) list \<Rightarrow> int \<Rightarrow> int \<Rightarrow> core_db \<Rightarrow>
   (core_error, Alarm list \<times> core_db) result" where
  "evaluate env x e props productID pond db =
     after (if productID = 0 then
              require (\<not> cx_fails x 11) CStore
              (case filter (\<lambda>d. de_no d = ev_DeviceNo e) (cb_devices db) of
                 [] \<Rightarrow> Inl CNoRows
               | d # _ \<Rightarrow> Inr (de_product d))
            else Inr productID) (\<lambda>product.
     require (\<not> cx_fails x 10) CStore
     (raise_alarms env x 12 e props pond product
        (filter (\<lambda>r. ru_PondID r = pond \<and> ru_Enabled r) (cb_rules db)) db))"

subsection \<open>What the engine does\<close>

lemma threshold_exists: "breached r v \<Longrightarrow> threshold_of r v \<noteq> None"
  by (auto simp: breached_def threshold_of_def below_min_def split: option.splits)

lemma next_alarm_id_fresh: "a \<in> set as \<Longrightarrow> al_ID a < next_alarm_id as"
  by (induction as) (auto simp: next_alarm_id_def)

lemma next_outbox_id_fresh: "o1 \<in> set os \<Longrightarrow> ob_id o1 < next_outbox_id os"
  by (induction os) (auto simp: next_outbox_id_def)

text \<open>
  The alarms and the queue fit: alarm identifiers are unique, every alarm has exactly one entry in
  the queue and every entry its alarm, and no two open alarms are for one metric of one device in
  one pond.
\<close>

definition same_open :: "Alarm \<Rightarrow> Alarm \<Rightarrow> bool" where
  "same_open a b \<longleftrightarrow> al_ConfirmedAt a = None \<and> open_alarm (al_DeviceNo a) (al_PondID a) (al_ProductID a) (al_Metric a) b"

definition alarms_queued :: "core_db \<Rightarrow> bool" where
  "alarms_queued db \<longleftrightarrow> map ob_alarm (cb_outbox db) = map al_ID (cb_alarms db) \<and>
     distinct (map al_ID (cb_alarms db)) \<and> distinct (map ob_id (cb_outbox db)) \<and>
     (\<forall>i < length (cb_alarms db). \<forall>j < i. \<not> same_open (cb_alarms db ! j) (cb_alarms db ! i))"

lemma alarms_queued_snoc:
  fixes env :: core_env
  assumes "alarms_queued db"
    and "\<not> list_ex (open_alarm (ev_DeviceNo e) pond product (ru_Metric r)) (cb_alarms db)"
  shows "alarms_queued (db\<lparr>cb_alarms := cb_alarms db @ [new_alarm env e pond product r v t (cb_alarms db)],
     cb_outbox := cb_outbox db @ [new_outbox x (next_alarm_id (cb_alarms db)) (cb_outbox db)]\<rparr>)"
proof -
  have "next_alarm_id (cb_alarms db) \<notin> al_ID ` set (cb_alarms db)"
    using next_alarm_id_fresh by fastforce
  moreover have "next_outbox_id (cb_outbox db) \<notin> ob_id ` set (cb_outbox db)"
    using next_outbox_id_fresh by fastforce
  moreover have "\<not> same_open a (new_alarm env e pond product r v t (cb_alarms db))" if "a \<in> set (cb_alarms db)" for a
    using assms(2) that by (auto simp: same_open_def open_alarm_def new_alarm_def list_ex_iff)
  ultimately show ?thesis
    using assms(1) by (auto simp: alarms_queued_def nth_append new_alarm_def new_outbox_def less_Suc_eq)
qed

text \<open>
  The engine never follows a nil pointer, adds only new open alarms of breached rules with their
  entries, and leaves every other table alone.
\<close>

definition raised :: "core_env \<Rightarrow> Event \<Rightarrow> (string \<times> float64) list \<Rightarrow> int \<Rightarrow> int \<Rightarrow> AlarmRule list \<Rightarrow> core_db \<Rightarrow>
    Alarm list \<times> core_db \<Rightarrow> bool" where
  "raised env e props pond product rules db res \<longleftrightarrow> (\<exists>out os.
     res = (out, db\<lparr>cb_alarms := cb_alarms db @ out, cb_outbox := cb_outbox db @ os\<rparr>) \<and>
     (alarms_queued db \<longrightarrow> alarms_queued (snd res)) \<and>
     (\<forall>o1 \<in> set os. ob_status o1 = ''pending'' \<and> ob_attempts o1 = 0 \<and> ob_leased_until o1 = None \<and>
        ob_lease_owner o1 = None) \<and>
     (\<forall>a \<in> set out. al_DeviceNo a = ev_DeviceNo e \<and> al_PondID a = pond \<and> al_ProductID a = product \<and>
        al_ConfirmedAt a = None \<and> (\<exists>r \<in> set rules. al_Metric a = ru_Metric r \<and> al_Level a = ru_Level r \<and>
          map_of props (ru_Metric r) = Some (al_CurrentValue a) \<and> breached r (al_CurrentValue a))) \<and>
     (\<forall>r \<in> set rules. \<forall>v. map_of props (ru_Metric r) = Some v \<longrightarrow> breached r v \<longrightarrow>
        list_ex (open_alarm (ev_DeviceNo e) pond product (ru_Metric r)) (cb_alarms db @ out)))"

lemma raised_skip:
  assumes "raised env e props pond product rules db res"
    and skip: "\<And>v. map_of props (ru_Metric r) = Some v \<Longrightarrow> breached r v \<Longrightarrow>
      list_ex (open_alarm (ev_DeviceNo e) pond product (ru_Metric r)) (cb_alarms db)"
  shows "raised env e props pond product (r # rules) db res"
proof -
  obtain out os where
    1: "res = (out, db\<lparr>cb_alarms := cb_alarms db @ out, cb_outbox := cb_outbox db @ os\<rparr>)"
      "alarms_queued db \<longrightarrow> alarms_queued (snd res)" and
    2: "\<forall>o1 \<in> set os. ob_status o1 = ''pending'' \<and> ob_attempts o1 = 0 \<and> ob_leased_until o1 = None \<and>
        ob_lease_owner o1 = None" and
    3: "\<forall>a \<in> set out. al_DeviceNo a = ev_DeviceNo e \<and> al_PondID a = pond \<and> al_ProductID a = product \<and>
        al_ConfirmedAt a = None \<and> (\<exists>r \<in> set rules. al_Metric a = ru_Metric r \<and> al_Level a = ru_Level r \<and>
          map_of props (ru_Metric r) = Some (al_CurrentValue a) \<and> breached r (al_CurrentValue a))" and
    4: "\<forall>r \<in> set rules. \<forall>v. map_of props (ru_Metric r) = Some v \<longrightarrow> breached r v \<longrightarrow>
        list_ex (open_alarm (ev_DeviceNo e) pond product (ru_Metric r)) (cb_alarms db @ out)"
    using assms(1) unfolding raised_def by blast
  from 3 have 3: "\<forall>a \<in> set out. al_DeviceNo a = ev_DeviceNo e \<and> al_PondID a = pond \<and> al_ProductID a = product \<and>
        al_ConfirmedAt a = None \<and> (\<exists>r \<in> set (r # rules). al_Metric a = ru_Metric r \<and> al_Level a = ru_Level r \<and>
          map_of props (ru_Metric r) = Some (al_CurrentValue a) \<and> breached r (al_CurrentValue a))"
    by (meson list.set_intros(2))
  from 4 skip have 4: "\<forall>r \<in> set (r # rules). \<forall>v. map_of props (ru_Metric r) = Some v \<longrightarrow> breached r v \<longrightarrow>
        list_ex (open_alarm (ev_DeviceNo e) pond product (ru_Metric r)) (cb_alarms db @ out)"
    by simp
  show ?thesis unfolding raised_def by (intro exI conjI) (fact 1 2 3 4)+
qed

lemma raised_new:
  fixes db :: core_db
  assumes "raised env e props pond product rules (db\<lparr>cb_alarms := cb_alarms db @ [al],
      cb_outbox := cb_outbox db @ [new_outbox x (al_ID al) (cb_outbox db)]\<rparr>) (out, db')"
    and al: "al = new_alarm env e pond product r v t (cb_alarms db)"
    and r: "map_of props (ru_Metric r) = Some v" "breached r v"
    and n: "\<not> list_ex (open_alarm (ev_DeviceNo e) pond product (ru_Metric r)) (cb_alarms db)"
  shows "raised env e props pond product (r # rules) db (al # out, db')"
proof -
  let ?db = "db\<lparr>cb_alarms := cb_alarms db @ [al], cb_outbox := cb_outbox db @ [new_outbox x (al_ID al) (cb_outbox db)]\<rparr>"
  have id: "al_ID al = next_alarm_id (cb_alarms db)" by (simp add: al new_alarm_def)
  have q: "alarms_queued db \<Longrightarrow> alarms_queued ?db"
    unfolding id using alarms_queued_snoc[OF _ n, where env = env and v = v and t = t and x = x] by (simp only: al)
  obtain os where os: "db' = ?db\<lparr>cb_alarms := cb_alarms db @ al # out,
      cb_outbox := cb_outbox db @ new_outbox x (al_ID al) (cb_outbox db) # os\<rparr>"
    and o1: "\<forall>o1 \<in> set os. ob_status o1 = ''pending'' \<and> ob_attempts o1 = 0 \<and> ob_leased_until o1 = None \<and>
        ob_lease_owner o1 = None"
    using assms(1) unfolding raised_def by auto
  show ?thesis
    unfolding raised_def
  proof (intro exI conjI)
    show "(al # out, db') = (al # out, db\<lparr>cb_alarms := cb_alarms db @ al # out,
        cb_outbox := cb_outbox db @ new_outbox x (al_ID al) (cb_outbox db) # os\<rparr>)"
      by (simp add: os)
    show "alarms_queued db \<longrightarrow> alarms_queued (snd (al # out, db'))"
      using q assms(1) unfolding raised_def by auto
    show "\<forall>o1 \<in> set (new_outbox x (al_ID al) (cb_outbox db) # os). ob_status o1 = ''pending'' \<and>
        ob_attempts o1 = 0 \<and> ob_leased_until o1 = None \<and> ob_lease_owner o1 = None"
      using o1 by (simp add: new_outbox_def)
    show "\<forall>a \<in> set (al # out). al_DeviceNo a = ev_DeviceNo e \<and> al_PondID a = pond \<and> al_ProductID a = product \<and>
        al_ConfirmedAt a = None \<and> (\<exists>r \<in> set (r # rules). al_Metric a = ru_Metric r \<and> al_Level a = ru_Level r \<and>
          map_of props (ru_Metric r) = Some (al_CurrentValue a) \<and> breached r (al_CurrentValue a))"
      using assms(1) r unfolding raised_def by (fastforce simp: al new_alarm_def)
    show "\<forall>r \<in> set (r # rules). \<forall>v. map_of props (ru_Metric r) = Some v \<longrightarrow> breached r v \<longrightarrow>
        list_ex (open_alarm (ev_DeviceNo e) pond product (ru_Metric r)) (cb_alarms db @ al # out)"
      using assms(1) unfolding raised_def by (auto simp: al new_alarm_def open_alarm_def)
  qed
qed

lemma raise_alarms_raised:
  "ok (raised env e props pond product rules db) (raise_alarms env x n e props pond product rules db)"
proof (induction rules arbitrary: n db)
  case Nil
  have "raised env e props pond product [] db ([], db)"
    unfolding raised_def by (rule exI[of _ "[]"], rule exI[of _ "[]"]) simp
  then show ?case by simp
next
  case (Cons r rules)
  let ?open = "list_ex (open_alarm (ev_DeviceNo e) pond product (ru_Metric r)) (cb_alarms db)"
  have skip: "ok (raised env e props pond product (r # rules) db)
      (raise_alarms env x (n + 2) e props pond product rules db)"
    if "\<And>v. map_of props (ru_Metric r) = Some v \<Longrightarrow> breached r v \<Longrightarrow> ?open"
    by (rule ok_weaken[OF Cons.IH]) (erule raised_skip, erule (1) that)
  have new: "ok (raised env e props pond product (r # rules) db)
      (after (raise_alarms env x (n + 2) e props pond product rules
         (db\<lparr>cb_alarms := cb_alarms db @ [al], cb_outbox := cb_outbox db @ [new_outbox x (al_ID al) (cb_outbox db)]\<rparr>))
        (\<lambda>(out, db). Inr (al # out, db)))"
    if "map_of props (ru_Metric r) = Some v" "breached r v" "\<not> ?open"
      and "al = new_alarm env e pond product r v t (cb_alarms db)" for v t al
  proof (intro ok_rules)
    fix y out db1
    assume y: "raise_alarms env x (n + 2) e props pond product rules
       (db\<lparr>cb_alarms := cb_alarms db @ [al], cb_outbox := cb_outbox db @ [new_outbox x (al_ID al) (cb_outbox db)]\<rparr>) = Inr y"
      "y = (out, db1)"
    show "raised env e props pond product (r # rules) db (al # out, db1)"
      by (rule raised_new[OF okD[OF Cons.IH y(1)[unfolded y(2)]] that(4,1,2,3)])
  qed
  show ?case
  proof (cases "map_of props (ru_Metric r)")
    case None
    with skip show ?thesis by simp
  next
    case (Some v)
    show ?thesis
    proof (cases "breached r v \<and> \<not> ?open")
      case True
      with Some new show ?thesis by (auto simp: Let_def intro!: ok_require ok_take_or)
    next
      case False
      with Some skip show ?thesis by (auto intro!: ok_require ok_take_or)
    qed
  qed
qed

text \<open>The engine never follows a nil pointer, and returns when no statement fails.\<close>

lemma raise_alarms_no_panic: "raise_alarms env x n e props pond product rules db \<noteq> Inl CPanic"
proof (induction rules arbitrary: n db)
  case (Cons r rules)
  show ?case
    using Cons.IH
    by (auto simp: take_or_def require_def after_def Let_def split: option.split sum.split prod.split
        dest!: threshold_exists)
qed simp

lemma raise_alarms_returns:
  assumes "\<And>n. \<not> cx_fails x n"
  shows "alarms_queued db \<Longrightarrow> \<exists>res. raise_alarms env x n e props pond product rules db = Inr res"
proof (induction rules arbitrary: n db)
  case (Cons r rules)
  let ?open = "list_ex (open_alarm (ev_DeviceNo e) pond product (ru_Metric r)) (cb_alarms db)"
  have fresh: "\<not> list_ex (\<lambda>o1. ob_alarm o1 = next_alarm_id (cb_alarms db)) (cb_outbox db)"
  proof -
    have "ob_alarm ` set (cb_outbox db) = al_ID ` set (cb_alarms db)"
      using Cons.prems unfolding alarms_queued_def by (metis image_set)
    moreover have "next_alarm_id (cb_alarms db) \<notin> al_ID ` set (cb_alarms db)"
      using next_alarm_id_fresh by fastforce
    ultimately show ?thesis by (force simp: list_ex_iff)
  qed
  have id: "al_ID (new_alarm env e pond product r v t (cb_alarms db)) = next_alarm_id (cb_alarms db)" for v t
    by (simp add: new_alarm_def)
  have skip: "\<exists>res. raise_alarms env x (n + 2) e props pond product rules db = Inr res" for n
    by (rule Cons.IH[OF Cons.prems])
  show ?case
  proof (cases "map_of props (ru_Metric r)")
    case (Some v)
    show ?thesis
    proof (cases "breached r v \<and> \<not> ?open")
      case True
      then obtain t where t: "threshold_of r v = Some t" using threshold_exists by blast
      obtain out db' where "raise_alarms env x (n + 2) e props pond product rules
          (db\<lparr>cb_alarms := cb_alarms db @ [new_alarm env e pond product r v t (cb_alarms db)],
             cb_outbox := cb_outbox db @ [new_outbox x (next_alarm_id (cb_alarms db)) (cb_outbox db)]\<rparr>) = Inr (out, db')"
        using Cons.IH[OF alarms_queued_snoc[OF Cons.prems]] True by force
      then show ?thesis using True Some t fresh assms by (simp add: id Let_def)
    next
      case False
      then show ?thesis using Some skip threshold_exists[of r v] assms by auto
    qed
  qed (use skip in simp)
qed simp

lemma evaluate_raised:
  assumes "evaluate env x e props product pond db = Inr res" and "product \<noteq> 0"
  shows "raised env e props pond product (filter (\<lambda>r. ru_PondID r = pond \<and> ru_Enabled r) (cb_rules db)) db res"
  using assms by (auto simp: evaluate_def require_Inr intro: okD[OF raise_alarms_raised])

end
