(* ===== verification/Core_Ingest.thy ===== *)
theory Core_Ingest
  imports Core_Alarm
begin

text \<open>
  The ingestion of \<open>internal/core\<close>: \<open>HandleEvent\<close> (\<open>service.go\<close>), the storing of water readings and
  of status changes (\<open>pipeline.go\<close>), of generic readings (\<open>generic_ingestion.go\<close>), and the checks of
  generic values against a product model (\<open>domain/m6a.go\<close>). A success returns the tables after the
  commit. Log lines and counters are left out. The columns \<open>last\<close> and \<open>timestamps\<close> of a shadow are
  JSON objects of values and of instants, as this code writes them.
\<close>

definition ev_props :: "Event \<Rightarrow> (string \<times> float64) list" where
  "ev_props e = (case ev_Properties e of None \<Rightarrow> [] | Some p \<Rightarrow> p)"

text \<open>\<open>int(v)\<close> of a finite value, and \<open>json.Unmarshal\<close> into a \<open>float64\<close> that is 0.\<close>

definition go_int :: "float64 \<Rightarrow> int" where
  "go_int v = (case v of Fin a \<Rightarrow> (if a < 0 then - \<lfloor>- a\<rfloor> else \<lfloor>a\<rfloor>) | _ \<Rightarrow> 0)"

definition number_of :: "core_env \<Rightarrow> string \<Rightarrow> float64 option" where
  "number_of env raw =
     (case ce_json env raw of
        Some JNull \<Rightarrow> Some (Fin 0)
      | Some (JNum l) \<Rightarrow> ce_float env l
      | _ \<Rightarrow> None)"

subsection \<open>Generic values\<close>

definition telemetry_identifier :: "string \<Rightarrow> bool" where
  "telemetry_identifier s = (case s of
     [] \<Rightarrow> False
   | c # r \<Rightarrow> (97 :: nat) \<le> of_char c \<and> of_char c \<le> (122 :: nat) \<and> length r \<le> 63 \<and>
       list_all (\<lambda>c. metric_rune (of_char c)) r)"

definition validateTelemetryValue :: "core_env \<Rightarrow> ModelField \<Rightarrow> string \<Rightarrow> string" where
  "validateTelemetryValue env fld raw =
     (if trimSpace raw = ''null'' then (if mf_Nullable fld then [] else ''not_nullable'')
      else (case ce_json env raw of
        None \<Rightarrow> ''invalid_type''
      | Some value \<Rightarrow>
          if mf_Type fld = ''number'' \<or> mf_Type fld = ''integer'' then
            (case value of
               JNum l \<Rightarrow>
                 (case ce_float env l of
                    None \<Rightarrow> ''invalid_type''
                  | Some f \<Rightarrow>
                      if isNaN f \<or> isInf f \<or> (mf_Type fld = ''integer'' \<and> f \<noteq> trunc f) then ''invalid_type''
                      else if (case mf_Min fld of None \<Rightarrow> False | Some m \<Rightarrow> float_less f m) \<or>
                              (case mf_Max fld of None \<Rightarrow> False | Some m \<Rightarrow> float_less m f) then ''out_of_range''
                      else if length (mf_Enum fld) > 0 then ''invalid_enum''
                      else [])
             | _ \<Rightarrow> ''invalid_type'')
          else if mf_Type fld = ''boolean'' then
            (case value of JBool _ \<Rightarrow> [] | _ \<Rightarrow> ''invalid_type'')
          else if mf_Type fld = ''string'' then
            (case value of
               JStr s \<Rightarrow>
                 if length (mf_Enum fld) > 0 \<and> s \<notin> set (mf_Enum fld) then ''invalid_enum'' else []
             | _ \<Rightarrow> ''invalid_type'')
          else ''invalid_type''))"

definition telemetry_reason :: "core_env \<Rightarrow> ModelField list \<Rightarrow> string \<times> string \<Rightarrow> string" where
  "telemetry_reason env mfs p =
     (case map_of (rev (map (\<lambda>f. (mf_Identifier f, f)) mfs)) (fst p) of
        None \<Rightarrow> ''unknown_identifier''
      | Some fld \<Rightarrow>
          if \<not> telemetry_identifier (fst p) then ''unknown_identifier''
          else validateTelemetryValue env fld (snd p))"

definition ValidateTelemetryProperties ::
  "core_env \<Rightarrow> ModelField list \<Rightarrow> (string \<times> string) list \<Rightarrow> (string \<times> string) list \<times> (string \<times> string) list" where
  "ValidateTelemetryProperties env mfs properties =
     (filter (\<lambda>p. telemetry_reason env mfs p = []) properties,
      sort_key fst (map (\<lambda>p. (fst p, telemetry_reason env mfs p))
        (filter (\<lambda>p. telemetry_reason env mfs p \<noteq> []) properties)))"

subsection \<open>Deduplication\<close>

text \<open>Statements 2 and 3: whether the message is new.\<close>

definition dedup :: "core_tx \<Rightarrow> string \<Rightarrow> string \<Rightarrow> core_db \<Rightarrow> (core_error, bool \<times> core_db) result" where
  "dedup x dev msg db =
     require (\<not> cx_fails x 2) CStore
     (let ms = filter (\<lambda>m. \<not> ms_received m \<le> cx_now x - 24 * hour) (cb_messages db) in
      require (\<not> cx_fails x 3 \<and> pg_varchar 64 dev \<and> pg_varchar 128 msg) CStore
      (if list_ex (\<lambda>m. ms_device m = dev \<and> ms_id m = msg) ms then Inr (False, db\<lparr>cb_messages := ms\<rparr>)
       else Inr (True, db\<lparr>cb_messages := ms @ [\<lparr>ms_device = dev, ms_id = msg, ms_received = cx_now x\<rparr>]\<rparr>)))"

subsection \<open>The shadow\<close>

text \<open>The merge of one event into the values and their instants: a value older than the one it has is ignored.\<close>

fun merge_values ::
  "time \<Rightarrow> (string \<times> 'v) list \<Rightarrow> (string \<times> 'v) list \<times> (string \<times> time) list \<Rightarrow> (string \<times> 'v) list \<times> (string \<times> time) list" where
  "merge_values ts [] vs = vs"
| "merge_values ts ((k, v) # r) (values, stamps) =
     merge_values ts r
       (if (case map_of stamps k of None \<Rightarrow> True | Some previous \<Rightarrow> \<not> ts < previous)
        then (AList.update k v values, AList.update k ts stamps) else (values, stamps))"

fun decode_numbers :: "core_env \<Rightarrow> (string \<times> string) list \<Rightarrow> (string \<times> float64) list option" where
  "decode_numbers env [] = Some []"
| "decode_numbers env ((k, raw) # r) =
     (case (number_of env raw, decode_numbers env r) of
        (Some v, Some vs) \<Rightarrow> Some ((k, v) # vs)
      | _ \<Rightarrow> None)"

definition encode_numbers :: "core_env \<Rightarrow> (string \<times> float64) list \<Rightarrow> (string \<times> string) list" where
  "encode_numbers env vs = map (\<lambda>(k, v). (k, ce_stored env (ce_marshal env v))) vs"

definition put_shadow :: "shadow_row \<Rightarrow> core_db \<Rightarrow> core_db" where
  "put_shadow row db = db\<lparr>cb_shadows :=
     (if list_ex (\<lambda>s. sh_device s = sh_device row) (cb_shadows db)
      then map (\<lambda>s. if sh_device s = sh_device row then row else s) (cb_shadows db)
      else cb_shadows db @ [row])\<rparr>"

definition shadow_of :: "core_db \<Rightarrow> string \<Rightarrow> shadow_row option" where
  "shadow_of db dev = find (\<lambda>s. sh_device s = dev) (cb_shadows db)"

text \<open>Statements 6 and 7.\<close>

definition shadowUpsert ::
  "core_env \<Rightarrow> core_tx \<Rightarrow> Event \<Rightarrow> int \<Rightarrow> int \<Rightarrow> int \<Rightarrow> int \<Rightarrow> core_db \<Rightarrow> (core_error, core_db) result" where
  "shadowUpsert env x e pond tenant product version db =
     require (\<not> cx_fails x 6) CStore
     (after (case shadow_of db (ev_DeviceNo e) of
               None \<Rightarrow> Inr ([], [], ev_Ts e)
             | Some row \<Rightarrow>
                 if sh_pond row = Some pond \<and> sh_product row = product then
                   take_or (decode_numbers env (sh_last row)) CDecode (\<lambda>values. Inr (values, sh_stamps row, sh_ts row))
                 else Inr ([], [], ev_Ts e)) (\<lambda>(values, stamps, latest).
      case merge_values (ev_Ts e) (ev_props e) (values, stamps) of (values, stamps) \<Rightarrow>
      (let latest = (if ev_Ts e > latest then ev_Ts e else latest) in
       require (\<not> cx_fails x 7) CStore
       (Inr (put_shadow \<lparr>sh_device = ev_DeviceNo e, sh_last = encode_numbers env values,
          sh_signal = map_option go_int (map_of values ''signal''), sh_ts = ce_time env latest, sh_pond = Some pond,
          sh_tenant = tenant, sh_stamps = stamps, sh_version = version, sh_product = product\<rparr> db)))))"

definition genericShadowUpsert ::
  "core_env \<Rightarrow> core_tx \<Rightarrow> string \<Rightarrow> time \<Rightarrow> int \<Rightarrow> int \<Rightarrow> int \<Rightarrow> int \<Rightarrow> (string \<times> string) list \<Rightarrow> core_db \<Rightarrow>
   (core_error, core_db) result" where
  "genericShadowUpsert env x dev ts pond tenant product version accepted db =
     require (\<not> cx_fails x 6) CStore
     (let old = shadow_of db dev;
          start = (case old of
             None \<Rightarrow> ([], [])
           | Some row \<Rightarrow>
               if sh_pond row = Some pond \<and> sh_product row = product then (sh_last row, sh_stamps row) else ([], []))
      in case merge_values ts accepted start of (values, stamps) \<Rightarrow>
        require (\<not> cx_fails x 7) CStore
        (Inr (put_shadow \<lparr>sh_device = dev, sh_last = map (\<lambda>(k, v). (k, ce_stored env v)) values,
          sh_signal = (case old of None \<Rightarrow> None | Some row \<Rightarrow> sh_signal row),
          sh_ts = greatest (map_option sh_ts old) (ce_time env ts), sh_pond = Some pond,
          sh_tenant = tenant, sh_stamps = stamps, sh_version = version, sh_product = product\<rparr> db)))"

subsection \<open>Rows of the time series\<close>

definition sensor_columns :: "string list" where
  "sensor_columns = [''temperature'', ''dissolved_oxygen'', ''ph'', ''turbidity'', ''salinity'', ''battery'']"

definition sensor_of :: "core_env \<Rightarrow> Event \<Rightarrow> int \<Rightarrow> int \<Rightarrow> sensor_row" where
  "sensor_of env e pond tenant = \<lparr>sd_ts = ce_time env (ev_Ts e), sd_device = ev_DeviceNo e, sd_pond = pond,
     sd_tenant = tenant, sd_values = map (\<lambda>k. (k, map_of (ev_props e) k)) sensor_columns,
     sd_signal = map_option go_int (map_of (ev_props e) ''signal'')\<rparr>"

text \<open>\<open>INSERT INTO telemetry ... ON CONFLICT (ts,device_no) DO NOTHING\<close>.\<close>

definition insert_telemetry :: "telemetry_row \<Rightarrow> core_db \<Rightarrow> core_db" where
  "insert_telemetry row db =
     (if list_ex (\<lambda>t. tl_ts t = tl_ts row \<and> tl_device t = tl_device row) (cb_telemetry db) then db
      else db\<lparr>cb_telemetry := cb_telemetry db @ [row]\<rparr>)"

definition touch_device :: "core_env \<Rightarrow> string \<Rightarrow> time \<Rightarrow> core_db \<Rightarrow> core_db" where
  "touch_device env dev ts db = db\<lparr>cb_devices :=
     map (\<lambda>d. if de_no d = dev then d\<lparr>de_seen := Some (greatest (de_seen d) (ce_time env ts))\<rparr> else d) (cb_devices db)\<rparr>"

subsection \<open>Storing\<close>

text \<open>
  \<open>storeReading\<close> from the row of the device on. Statements: 4 the wide row, 5 the telemetry, 6 and 7
  the shadow, 10 and on the alarms, 8 the device, 9 the commit.
\<close>

definition store_values ::
  "core_env \<Rightarrow> core_tx \<Rightarrow> Event \<Rightarrow> core_device \<Rightarrow> int \<Rightarrow> ModelField list option \<Rightarrow> core_db \<Rightarrow> (core_error, core_db) result" where
  "store_values env x e d tenant schema db =
     require (\<not> cx_fails x 4) CStore
     (let db = db\<lparr>cb_sensor := cb_sensor db @ [sensor_of env e (de_pond d) tenant]\<rparr> in
      take_or schema CDecode (\<lambda>mfs.
      let generic = filter (\<lambda>(name, _). name \<in> mf_Identifier ` set mfs) (ev_props e) in
      after (if length generic > 0 then
               require (\<not> cx_fails x 5) CStore
               (Inr (insert_telemetry \<lparr>tl_ts = ce_time env (ev_Ts e), tl_device = ev_DeviceNo e, tl_pond = de_pond d,
                  tl_tenant = tenant, tl_product = de_product d, tl_version = de_version d,
                  tl_properties = encode_numbers env generic\<rparr> db))
             else Inr db) (\<lambda>db.
      after (shadowUpsert env x e (de_pond d) tenant (de_product d) (de_version d) db) (\<lambda>db.
      after (evaluate env x e (ev_props e) (de_product d) (de_pond d) db) (\<lambda>(alarms, db).
      require (\<not> cx_fails x 8) CStore
      (require (\<not> cx_fails x 9) CStore (Inr (touch_device env (ev_DeviceNo e) (ev_Ts e) db))))))))"

definition storeReading :: "core_env \<Rightarrow> core_tx \<Rightarrow> Event \<Rightarrow> core_db \<Rightarrow> (core_error, core_db) result" where
  "storeReading env x e db =
     (if length (ev_props e) = 0 then Inr db
      else if is_zero (ev_Ts e) \<or> \<not> validString (ev_MessageID e) \<or> runeCount (ev_MessageID e) > 128 then Inl CInvalidEvent
      else if list_ex (\<lambda>(k, v). case MetricRange k of
                None \<Rightarrow> True
              | Some (low, high) \<Rightarrow> out_of_range v low high \<or> (k = ''signal'' \<and> v \<noteq> trunc v)) (ev_props e)
      then Inl CInvalidEvent
      else require (\<not> cx_fails x 0 \<and> \<not> cx_fails x 1) CStore
        (case device_scope db (ev_DeviceNo e) of
           [] \<Rightarrow> Inl CNoRows
         | (d, tenant, schema) # _ \<Rightarrow>
             if ev_MessageID e \<noteq> [] then
               after (dedup x (ev_DeviceNo e) (ev_MessageID e) db) (\<lambda>(fresh, db).
                 if \<not> fresh then require (\<not> cx_fails x 9) CStore (Inr db)
                 else store_values env x e d tenant schema db)
             else store_values env x e d tenant schema db))"

text \<open>\<open>storeGenericReading\<close>, its numbers as \<open>storeReading\<close> (1 the row of the device).\<close>

definition numeric_values :: "core_env \<Rightarrow> (string \<times> string) list \<Rightarrow> (string \<times> float64) list" where
  "numeric_values env accepted =
     concat (map (\<lambda>(name, value).
       if trimSpace value = ''null'' then []
       else (case number_of env value of None \<Rightarrow> [] | Some n \<Rightarrow> [(name, n)])) accepted)"

definition store_generic_values ::
  "core_env \<Rightarrow> core_tx \<Rightarrow> Event \<Rightarrow> (string \<times> string) list \<Rightarrow> core_db \<Rightarrow> (core_error, core_db) result" where
  "store_generic_values env x e properties db =
     require (\<not> cx_fails x 1) CStore
     (case device_scope db (ev_DeviceNo e) of
        [] \<Rightarrow> Inl CNoRows
      | (d, tenant, schema) # _ \<Rightarrow>
          take_or schema CDecode (\<lambda>mfs.
          case ValidateTelemetryProperties env mfs properties of (accepted, rejected) \<Rightarrow>
          if length rejected > 0 \<or> length accepted = 0 then Inl CInvalidModel
          else require (\<not> cx_fails x 5) CStore
            (let db = insert_telemetry \<lparr>tl_ts = ce_time env (ev_Ts e), tl_device = ev_DeviceNo e, tl_pond = de_pond d,
                  tl_tenant = tenant, tl_product = de_product d, tl_version = de_version d,
                  tl_properties = map (\<lambda>(k, v). (k, ce_stored env v)) accepted\<rparr> db in
             after (genericShadowUpsert env x (ev_DeviceNo e) (ev_Ts e) (de_pond d) tenant (de_product d)
                      (de_version d) accepted db) (\<lambda>db.
             after (evaluate env x e (numeric_values env accepted) (de_product d) (de_pond d) db) (\<lambda>(alarms, db).
             require (\<not> cx_fails x 8) CStore
             (require (\<not> cx_fails x 9) CStore (Inr (touch_device env (ev_DeviceNo e) (ev_Ts e) db))))))))"

definition storeGenericReading ::
  "core_env \<Rightarrow> core_tx \<Rightarrow> Event \<Rightarrow> (string \<times> string) list \<Rightarrow> core_db \<Rightarrow> (core_error, core_db) result" where
  "storeGenericReading env x e properties db =
     require (\<not> cx_fails x 0) CStore
     (if ev_MessageID e \<noteq> [] then
        after (dedup x (ev_DeviceNo e) (ev_MessageID e) db) (\<lambda>(fresh, db).
          if \<not> fresh then require (\<not> cx_fails x 9) CStore (Inr db)
          else store_generic_values env x e properties db)
      else store_generic_values env x e properties db)"

text \<open>\<open>storeStatus\<close>: statement 1 reads the device, 8 updates it, 9 commits.\<close>

definition set_status :: "core_env \<Rightarrow> string \<Rightarrow> string \<Rightarrow> time \<Rightarrow> core_device \<Rightarrow> core_device" where
  "set_status env dev status ts d =
     d\<lparr>de_status := status,
       de_seen := (if status = ''online'' then Some (greatest (de_seen d) (ce_time env ts)) else de_seen d)\<rparr>"

definition storeStatus :: "core_env \<Rightarrow> core_tx \<Rightarrow> Event \<Rightarrow> core_db \<Rightarrow> (core_error, core_db) result" where
  "storeStatus env x e db =
     (let status = (if ev_Online e then ''online'' else ''offline'') in
      require (\<not> cx_fails x 0 \<and> \<not> cx_fails x 1) CStore
      (if live_devices db (ev_DeviceNo e) = [] then Inl CNoRows
       else require (\<not> cx_fails x 8 \<and> \<not> cx_fails x 9) CStore
         (Inr (db\<lparr>cb_devices := map (\<lambda>d. if d \<in> fst ` set (live_devices db (ev_DeviceNo e))
            then set_status env (ev_DeviceNo e) status (ev_Ts e) d else d) (cb_devices db)\<rparr>))))"

definition HandleEvent :: "core_env \<Rightarrow> core_tx \<Rightarrow> Event \<Rightarrow> core_db \<Rightarrow> (core_error, core_db) result" where
  "HandleEvent env x e db =
     (case ValidateEvent (\<lambda>raw. ce_json env raw \<noteq> None) e of
        Some err \<Rightarrow> Inl (CIngestion err)
      | None \<Rightarrow>
          (case ev_Kind e of
             KindProperties \<Rightarrow>
               (case ev_GenericProperties e of
                  Some properties \<Rightarrow> storeGenericReading env x e properties db
                | None \<Rightarrow> storeReading env x e db)
           | KindStatusChange \<Rightarrow> storeStatus env x e db
           | OtherEventKind _ \<Rightarrow> Inr db))"

text \<open>\<open>New\<close>: sessions do not survive a restart.\<close>

definition NewService :: "core_tx \<Rightarrow> core_db \<Rightarrow> (core_error, core_db) result" where
  "NewService x db =
     require (\<not> cx_fails x 0) CStore
     (Inr (db\<lparr>cb_devices := map (\<lambda>d. if de_status d = ''online'' then d\<lparr>de_status := ''offline''\<rparr> else d) (cb_devices db)\<rparr>))"

text \<open>\<open>alarmRepo.Confirm\<close>.\<close>

definition confirm_row :: "time \<Rightarrow> int \<Rightarrow> Alarm \<Rightarrow> Alarm" where
  "confirm_row now i a =
     (if al_ID a = i \<and> al_ConfirmedAt a = None then a\<lparr>al_ConfirmedAt := Some now\<rparr> else a)"

definition ConfirmAlarm :: "core_tx \<Rightarrow> int \<Rightarrow> core_db \<Rightarrow> (core_error, core_db) result" where
  "ConfirmAlarm x i db =
     require (\<not> cx_fails x 0) CStore
     (Inr (db\<lparr>cb_alarms := map (confirm_row (cx_now x) i) (cb_alarms db)\<rparr>))"

end
