(* ===== verification/Notify_Worker.thy ===== *)
theory Notify_Worker
  imports Mqtt_Topic
begin

text \<open>
  \<open>internal/notifications/worker.go\<close>: the worker that delivers alarms. The delivery store is a record
  of operations on its state, what they promise the locale \<open>delivery_store\<close>; the sender a function
  from a delivery to its error. One round (\<open>RunOnce\<close>) is a function of the state; \<open>burst\<close> is what one
  goroutine of \<open>Run\<close> does between two waits. Metrics, logging and the callbacks are left out; the
  timeout of a send is part of the sender's answer.
\<close>

datatype notify_error = NLeaseLost | NStore

record Delivery =
  dl_AlarmID :: int
  dl_RecipientID :: string
  dl_DeviceNo :: string
  dl_PondID :: int
  dl_Metric :: string
  dl_CurrentValue :: float64
  dl_Threshold :: float64
  dl_Level :: string
  dl_Message :: string
  dl_CreatedAt :: time

record NotifyClaim =
  nc_ID :: int
  nc_Attempts :: int
  nc_LeaseToken :: string
  nc_Delivery :: Delivery

record NotifyResult =
  nr_Status :: string
  nr_NextAt :: time
  nr_LastError :: string

record 's delivery_ops =
  do_Claim :: "'s \<Rightarrow> time \<Rightarrow> duration \<Rightarrow> int \<Rightarrow> (NotifyClaim \<times> bool \<times> notify_error option) \<times> 's"
  do_Finish :: "'s \<Rightarrow> NotifyClaim \<Rightarrow> NotifyResult \<Rightarrow> time \<Rightarrow> notify_error option \<times> 's"

text \<open>An error of the sender: the sentinels it wraps, and its text.\<close>

datatype sentinel = ErrDisabled | ErrPermanent | ErrUnknown | ErrRetryable | Canceled | DeadlineExceeded

record send_error =
  sx_is :: "sentinel list"
  sx_text :: string

definition disabled_error :: send_error where
  "disabled_error = \<lparr>sx_is = [ErrDisabled], sx_text = ''notification provider disabled''\<rparr>"

subsection \<open>Configuration\<close>

record notify_config =
  nw_LeaseDuration :: duration
  nw_DeliveryTimeout :: duration
  nw_PollInterval :: duration
  nw_MaxAttempts :: int
  nw_Concurrency :: int

datatype config_error = NoStore | LeaseTooShort | TooManyAttempts | TooConcurrent

definition NewWorker :: "bool \<Rightarrow> notify_config \<Rightarrow> (config_error, notify_config) result" where
  "NewWorker has_store cfg =
     require has_store NoStore
     (let cfg = (if nw_DeliveryTimeout cfg \<le> 0 then cfg\<lparr>nw_DeliveryTimeout := 20 * second\<rparr> else cfg);
          cfg = (if nw_LeaseDuration cfg \<le> 0 then cfg\<lparr>nw_LeaseDuration := 2 * minute\<rparr> else cfg) in
      require (\<not> nw_LeaseDuration cfg \<le> nw_DeliveryTimeout cfg) LeaseTooShort
      (let cfg = (if nw_PollInterval cfg \<le> 0 then cfg\<lparr>nw_PollInterval := second\<rparr> else cfg);
           cfg = (if nw_MaxAttempts cfg \<le> 0 then cfg\<lparr>nw_MaxAttempts := 6\<rparr> else cfg) in
       require (\<not> nw_MaxAttempts cfg > 6) TooManyAttempts
       (let cfg = (if nw_Concurrency cfg \<le> 0 then cfg\<lparr>nw_Concurrency := 2\<rparr> else cfg) in
        require (\<not> nw_Concurrency cfg > 32) TooConcurrent
        (Inr cfg))))"

definition worker_config :: "notify_config \<Rightarrow> bool" where
  "worker_config cfg \<longleftrightarrow> 0 < nw_DeliveryTimeout cfg \<and> nw_DeliveryTimeout cfg < nw_LeaseDuration cfg \<and>
     0 < nw_PollInterval cfg \<and> 1 \<le> nw_MaxAttempts cfg \<and> nw_MaxAttempts cfg \<le> 6 \<and>
     1 \<le> nw_Concurrency cfg \<and> nw_Concurrency cfg \<le> 32"

lemma NewWorker_config: "NewWorker b cfg = Inr cfg' \<Longrightarrow> worker_config cfg'"
  by (auto simp: NewWorker_def worker_config_def require_def Let_def duration_defs split: if_split_asm)

subsection \<open>One round\<close>

text \<open>
  The result of an attempt. \<open>1<<uint(c.Attempts-1)\<close> is written for the attempts that reach it, from
  1 to \<open>MaxAttempts - 1 \<le> 5\<close>; a shift by a negative number, as an unsigned one, gives 0.
\<close>

definition retry_delay :: "int \<Rightarrow> duration" where
  "retry_delay attempts = (if attempts < 1 then 0 else 2 ^ nat (attempts - 1)) * minute"

definition delivery_result :: "notify_config \<Rightarrow> time \<Rightarrow> int \<Rightarrow> send_error option \<Rightarrow> NotifyResult" where
  "delivery_result cfg now attempts sendErr =
     (let result = \<lparr>nr_Status = ''sent'', nr_NextAt = now, nr_LastError = []\<rparr> in
      case sendErr of
        None \<Rightarrow> result
      | Some err \<Rightarrow>
          (let result = result\<lparr>nr_LastError := sx_text err\<rparr>;
               retry = (if attempts < nw_MaxAttempts cfg
                 then result\<lparr>nr_Status := ''retryable'', nr_NextAt := now + retry_delay attempts\<rparr>
                 else result\<lparr>nr_Status := ''failed''\<rparr>)
           in if ErrDisabled \<in> set (sx_is err) then result\<lparr>nr_Status := ''disabled''\<rparr>
              else if ErrPermanent \<in> set (sx_is err) then result\<lparr>nr_Status := ''failed''\<rparr>
              else if ErrUnknown \<in> set (sx_is err) \<or> Canceled \<in> set (sx_is err) \<or> DeadlineExceeded \<in> set (sx_is err)
              then result\<lparr>nr_Status := ''unknown''\<rparr>
              else if ErrRetryable \<in> set (sx_is err) then retry
              else retry))"

datatype round_error = RoundStore notify_error | RoundSend string send_error

text \<open>The clock is read before the claim and after the send. The deliveries handed to the sender are returned.\<close>

definition attempt_send ::
  "(Delivery \<Rightarrow> send_error option) option \<Rightarrow> Delivery \<Rightarrow> send_error option \<times> Delivery list" where
  "attempt_send sender d =
     (case sender of
        None \<Rightarrow> (Some disabled_error, [])
      | Some send \<Rightarrow> if dl_RecipientID d = [] then (Some disabled_error, []) else (send d, [d]))"

definition RunOnce ::
  "notify_config \<Rightarrow> 's delivery_ops \<Rightarrow> (Delivery \<Rightarrow> send_error option) option \<Rightarrow> time \<Rightarrow> time \<Rightarrow> 's \<Rightarrow>
   (bool \<times> round_error option \<times> Delivery list) \<times> 's" where
  "RunOnce cfg store sender claimed_at finished_at s =
     (case do_Claim store s claimed_at (nw_LeaseDuration cfg) (nw_MaxAttempts cfg) of
        ((c, found, Some err), s) \<Rightarrow> ((found, Some (RoundStore err), []), s)
      | ((c, found, None), s) \<Rightarrow>
          if \<not> found then ((False, None, []), s)
          else (case attempt_send sender (nc_Delivery c) of (sendErr, sent) \<Rightarrow>
            (let result = delivery_result cfg finished_at (nc_Attempts c) sendErr in
             case do_Finish store s c result finished_at of
               (Some err, s) \<Rightarrow> ((True, Some (RoundStore err), sent), s)
             | (None, s) \<Rightarrow>
                 (case sendErr of
                    Some err \<Rightarrow> ((True, Some (RoundSend (nr_Status result) err), sent), s)
                  | None \<Rightarrow> ((True, None, sent), s)))))"

text \<open>
  The loop of \<open>Run\<close> goes on without waiting after a round that delivered something; \<open>env i\<close> gives
  what the \<open>i\<close>-th round meets: the store (whose statements may fail), the sender and the two clocks.
\<close>

record 's round_env =
  re_store :: "'s delivery_ops"
  re_sender :: "(Delivery \<Rightarrow> send_error option) option"
  re_claimed_at :: time
  re_finished_at :: time

definition round_in :: "notify_config \<Rightarrow> 's round_env \<Rightarrow> 's \<Rightarrow> (bool \<times> round_error option \<times> Delivery list) \<times> 's" where
  "round_in cfg e s = RunOnce cfg (re_store e) (re_sender e) (re_claimed_at e) (re_finished_at e) s"

partial_function (option) burst :: "notify_config \<Rightarrow> (nat \<Rightarrow> 's round_env) \<Rightarrow> nat \<Rightarrow> 's \<Rightarrow> (nat \<times> 's) option" where
  "burst cfg env i s =
     (case round_in cfg (env i) s of
        ((found, err, sent), s') \<Rightarrow>
          if found \<and> err = None then burst cfg env (Suc i) s' else Some (i, s'))"

subsection \<open>What the worker relies on\<close>

definition final_status :: "string \<Rightarrow> bool" where
  "final_status st \<longleftrightarrow> st \<noteq> ''pending'' \<and> st \<noteq> ''retryable'' \<and> st \<noteq> ''processing''"

text \<open>
  \<open>final s k\<close>: entry \<open>k\<close> of the queue has its last result; \<open>tries s k\<close> how often it was claimed. The
  store grants an entry at most \<open>max\<close> times and never a final one, and only the holder of the lease
  records a result.
\<close>

locale delivery_store =
  fixes ops :: "'x \<Rightarrow> 's delivery_ops"
    and inv :: "'s \<Rightarrow> bool"
    and entries :: "'s \<Rightarrow> int set"
    and tries :: "'s \<Rightarrow> int \<Rightarrow> int"
    and final :: "'s \<Rightarrow> int \<Rightarrow> bool"
    and holder :: "'s \<Rightarrow> int \<Rightarrow> string option"
  assumes finite_entries: "inv s \<Longrightarrow> finite (entries s)"
    and claim_error: "do_Claim (ops x) s now lease m = ((c, found, Some e), s') \<Longrightarrow> s' = s"
    and claim_keeps: "inv s \<Longrightarrow> do_Claim (ops x) s now lease m = (res, s') \<Longrightarrow>
      inv s' \<and> entries s' = entries s \<and> (final s k \<longrightarrow> final s' k)"
    and claim_granted: "inv s \<Longrightarrow> do_Claim (ops x) s now lease m = ((c, True, None), s') \<Longrightarrow>
      nc_ID c \<in> entries s \<and> \<not> final s (nc_ID c) \<and> tries s (nc_ID c) < m \<and>
      nc_Attempts c = tries s (nc_ID c) + 1 \<and> tries s' = (tries s)(nc_ID c := tries s (nc_ID c) + 1) \<and>
      holder s' (nc_ID c) = Some (nc_LeaseToken c)"
    and claim_empty: "inv s \<Longrightarrow> do_Claim (ops x) s now lease m = ((c, False, None), s') \<Longrightarrow> tries s' = tries s"
    and finish_error: "do_Finish (ops x) s c r now = (Some e, s') \<Longrightarrow> s' = s"
    and finish_keeps: "inv s \<Longrightarrow> do_Finish (ops x) s c r now = (err, s') \<Longrightarrow>
      inv s' \<and> entries s' = entries s \<and> tries s' = tries s \<and> (final s k \<longrightarrow> final s' k)"
    and finish_recorded: "inv s \<Longrightarrow> do_Finish (ops x) s c r now = (None, s') \<Longrightarrow>
      holder s (nc_ID c) = Some (nc_LeaseToken c) \<and> (final_status (nr_Status r) \<longrightarrow> final s' (nc_ID c))"
begin

text \<open>The attempts that are left, over all entries.\<close>

definition left_over :: "int \<Rightarrow> 's \<Rightarrow> nat" where
  "left_over m s = (\<Sum>k \<in> entries s. nat (m - tries s k))"

lemma granted_less:
  assumes "inv s" and "do_Claim (ops x) s now lease m = ((c, True, None), s')"
  shows "left_over m s' < left_over m s"
proof -
  note g = claim_granted[OF assms]
  have "(\<Sum>k \<in> entries s. nat (m - tries s' k)) < (\<Sum>k \<in> entries s. nat (m - tries s k))"
    by (rule sum_strict_mono_ex1) (use g finite_entries[OF assms(1)] in auto)
  then show ?thesis using claim_keeps[OF assms] by (simp add: left_over_def)
qed

text \<open>A round keeps the contract, never undoes a final result and uses up an attempt for every delivery.\<close>

lemma RunOnce_cases:
  assumes "RunOnce cfg (ops x) sender t1 t2 s = ((found, err, sent), s')"
  obtains (failed) e where "err = Some (RoundStore e)" "sent = []" "s' = s"
  | (empty) c where "do_Claim (ops x) s t1 (nw_LeaseDuration cfg) (nw_MaxAttempts cfg) = ((c, False, None), s')"
      "found = False" "err = None" "sent = []"
  | (granted) c s1 e1 e2 where
      "do_Claim (ops x) s t1 (nw_LeaseDuration cfg) (nw_MaxAttempts cfg) = ((c, True, None), s1)" "found"
      "attempt_send sender (nc_Delivery c) = (e1, sent)"
      "do_Finish (ops x) s1 c (delivery_result cfg t2 (nc_Attempts c) e1) t2 = (e2, s')"
      "err = None \<longleftrightarrow> e1 = None \<and> e2 = None"
proof -
  obtain c fd ce s1 where cl: "do_Claim (ops x) s t1 (nw_LeaseDuration cfg) (nw_MaxAttempts cfg) = ((c, fd, ce), s1)"
    by (metis prod.collapse)
  consider (a) e where "ce = Some e" | (b) "ce = None" "\<not> fd" | (c) "ce = None" "fd" by blast
  then show ?thesis
  proof cases
    case a
    then show ?thesis using assms cl claim_error failed by (auto simp: RunOnce_def)
  next
    case b
    then show ?thesis using assms cl empty by (auto simp: RunOnce_def)
  next
    case c
    obtain e1 sn where sd: "attempt_send sender (nc_Delivery c) = (e1, sn)" by (metis prod.collapse)
    obtain e2 s2 where fi: "do_Finish (ops x) s1 c (delivery_result cfg t2 (nc_Attempts c) e1) t2 = (e2, s2)"
      by (metis prod.collapse)
    have "found \<and> sent = sn \<and> s' = s2 \<and> (err = None \<longleftrightarrow> e1 = None \<and> e2 = None)"
      using assms cl c sd fi by (auto simp: RunOnce_def Let_def split: option.split_asm)
    then show ?thesis using granted[of c s1 e1 e2] cl c sd fi by simp
  qed
qed

lemma RunOnce_keeps:
  assumes "inv s" and "RunOnce cfg (ops x) sender t1 t2 s = ((found, err, sent), s')"
  shows "inv s' \<and> entries s' = entries s \<and> (final s k \<longrightarrow> final s' k) \<and>
    left_over (nw_MaxAttempts cfg) s' + length sent \<le> left_over (nw_MaxAttempts cfg) s"
  using assms(2)
proof (cases rule: RunOnce_cases)
  case (empty c)
  then show ?thesis
    using claim_keeps[OF assms(1) empty(1)] claim_empty[OF assms(1) empty(1)] by (simp add: left_over_def)
next
  case (granted c s1 e1 e2)
  have i: "inv s1" "entries s1 = entries s" "final s k \<longrightarrow> final s1 k" using claim_keeps[OF assms(1) granted(1)] by auto
  have f: "inv s'" "entries s' = entries s1" "tries s' = tries s1" "final s1 k \<longrightarrow> final s' k"
    using finish_keeps[OF i(1) granted(4)] by auto
  have "length sent \<le> 1" using granted(3) by (auto simp: attempt_send_def split: option.split_asm if_split_asm)
  moreover have "left_over (nw_MaxAttempts cfg) s' = left_over (nw_MaxAttempts cfg) s1" using f by (simp add: left_over_def)
  ultimately show ?thesis using granted_less[OF assms(1) granted(1)] i f by auto
qed (use assms(1) in auto)

text \<open>A burst ends, after at most as many rounds as there are attempts left.\<close>

lemma burst_ends:
  assumes "inv s" and "\<And>i. \<exists>x. re_store (env i) = ops x"
  shows "\<exists>j s'. burst cfg env i s = Some (j, s') \<and> inv s' \<and> j \<le> i + left_over (nw_MaxAttempts cfg) s"
  using assms(1)
proof (induction "left_over (nw_MaxAttempts cfg) s" arbitrary: i s rule: less_induct)
  case less
  obtain x where x: "re_store (env i) = ops x" using assms(2) by blast
  obtain found err sent s' where r: "round_in cfg (env i) s = ((found, err, sent), s')" by (metis prod.collapse)
  note k = RunOnce_keeps[OF less(2) r[unfolded round_in_def x], where k = 0]
  show ?case
  proof (cases "found \<and> err = None")
    case True
    have "length sent = 1"
      using r[unfolded round_in_def x]
      by (cases rule: RunOnce_cases)
         (use True in \<open>auto simp: attempt_send_def disabled_error_def split: option.split_asm if_split_asm\<close>)
    with k have l: "left_over (nw_MaxAttempts cfg) s' < left_over (nw_MaxAttempts cfg) s" by simp
    with less(1)[OF l, of "Suc i"] k True r show ?thesis
      by (subst burst.simps) force
  next
    case False
    with k r show ?thesis by (subst burst.simps) force
  qed
qed

end

end
