(* ===== verification/Notify_Store.thy ===== *)
theory Notify_Store
  imports Core_Ingest Notify_Worker "HOL-Library.Product_Lexorder"
begin

text \<open>
  \<open>persistence/notifications.go\<close>: the queue of notifications over the tables of the core, a delivery
  store of the worker. Statements: 0 the begin, 1 the expired leases, 2 the claim, 3 the delivery, 4
  the commit. \<open>skip\<close> are the rows other transactions have locked (\<open>SKIP LOCKED\<close>), the token is an
  argument.
\<close>

record notify_tx =
  nx_env :: core_env
  nx_tx :: core_tx
  nx_skip :: "int \<Rightarrow> bool"
  nx_token :: string

definition no_delivery :: Delivery where
  "no_delivery = \<lparr>dl_AlarmID = 0, dl_RecipientID = [], dl_DeviceNo = [], dl_PondID = 0, dl_Metric = [],
     dl_CurrentValue = Fin 0, dl_Threshold = Fin 0, dl_Level = [], dl_Message = [], dl_CreatedAt = time_zero\<rparr>"

definition no_claim :: "string \<Rightarrow> NotifyClaim" where
  "no_claim token = \<lparr>nc_ID = 0, nc_Attempts = 0, nc_LeaseToken = token, nc_Delivery = no_delivery\<rparr>"

definition lease_over :: "time \<Rightarrow> outbox_row \<Rightarrow> bool" where
  "lease_over now o1 \<longleftrightarrow> (case ob_leased_until o1 of None \<Rightarrow> True | Some t \<Rightarrow> t \<le> now)"

definition give_up :: "time \<Rightarrow> int \<Rightarrow> outbox_row \<Rightarrow> outbox_row" where
  "give_up now m o1 =
     (if ob_status o1 = ''processing'' \<and> lease_over now o1 \<and> ob_attempts o1 \<ge> m
      then o1\<lparr>ob_status := ''unknown'',
        ob_last_error := Some ''lease expired after maximum attempts; delivery may have occurred'',
        ob_leased_until := None, ob_lease_owner := None\<rparr>
      else o1)"

text \<open>The places of an alarm: its pond, farm and tenant, and whether its owner's membership is in force.\<close>

definition alarm_places :: "core_db \<Rightarrow> Alarm \<Rightarrow> (core_farm \<times> core_tenant) list" where
  "alarm_places db a =
     [(f, t). p \<leftarrow> cb_ponds db, po_id p = al_PondID a, f \<leftarrow> cb_farms db, fr_id f = po_farm p,
        t \<leftarrow> cb_tenants db, te_id t = fr_tenant f]"

definition member_in_force :: "core_db \<Rightarrow> time \<Rightarrow> int \<Rightarrow> int \<Rightarrow> bool" where
  "member_in_force db now tenant user \<longleftrightarrow>
     list_ex (\<lambda>m. mb_tenant m = tenant \<and> mb_user m = user \<and> mb_active m \<and>
       (case mb_expires m of None \<Rightarrow> True | Some t \<Rightarrow> t > now)) (cb_members db)"

definition deliverable :: "core_db \<Rightarrow> time \<Rightarrow> outbox_row \<Rightarrow> bool" where
  "deliverable db now o1 \<longleftrightarrow>
     list_ex (\<lambda>a. al_ID a = ob_alarm o1 \<and>
       list_ex (\<lambda>(f, t). te_active t \<and>
         (case fr_owner f of None \<Rightarrow> True | Some user \<Rightarrow> member_in_force db now (fr_tenant f) user))
         (alarm_places db a)) (cb_alarms db)"

definition due_entry :: "time \<Rightarrow> int \<Rightarrow> outbox_row \<Rightarrow> bool" where
  "due_entry now m o1 \<longleftrightarrow> ob_attempts o1 < m \<and>
     (((ob_status o1 = ''pending'' \<or> ob_status o1 = ''retryable'') \<and> ob_next_at o1 \<le> now) \<or>
      (ob_status o1 = ''processing'' \<and> lease_over now o1))"

definition candidates :: "notify_tx \<Rightarrow> time \<Rightarrow> int \<Rightarrow> core_db \<Rightarrow> outbox_row list" where
  "candidates x now m db =
     sort_key (\<lambda>o1. (ob_next_at o1, ob_id o1))
       (filter (\<lambda>o1. due_entry now m o1 \<and> deliverable db (cx_now (nx_tx x)) o1 \<and> \<not> nx_skip x (ob_id o1)) (cb_outbox db))"

definition lease_entry :: "int \<Rightarrow> time \<Rightarrow> string \<Rightarrow> outbox_row \<Rightarrow> outbox_row" where
  "lease_entry i until token o1 =
     (if ob_id o1 = i then o1\<lparr>ob_status := ''processing'', ob_attempts := ob_attempts o1 + 1,
        ob_leased_until := Some until, ob_lease_owner := Some token\<rparr> else o1)"

text \<open>The recipient: the owner of the farm, if a subscribed user whose membership is in force.\<close>

definition recipient_of :: "core_db \<Rightarrow> time \<Rightarrow> core_farm \<times> core_tenant \<Rightarrow> string option" where
  "recipient_of db now ft =
     (case fr_owner (fst ft) of
        None \<Rightarrow> None
      | Some owner \<Rightarrow>
          map_option ur_open_id (find (\<lambda>u. ur_id u = owner \<and> ur_authority u = ''USER'' \<and> ur_open_id u \<noteq> [] \<and>
            ur_open_id u \<noteq> ''internal-admin'' \<and> ur_subscribed u \<and> te_active (snd ft) \<and>
            member_in_force db now (fr_tenant (fst ft)) (ur_id u)) (cb_users db)))"

definition delivery_of :: "core_db \<Rightarrow> time \<Rightarrow> int \<Rightarrow> Delivery option" where
  "delivery_of db now alarm =
     (case [(a, ft). a \<leftarrow> cb_alarms db, al_ID a = alarm, ft \<leftarrow> alarm_places db a] of
        [] \<Rightarrow> None
      | (a, ft) # _ \<Rightarrow>
          Some \<lparr>dl_AlarmID = alarm,
             dl_RecipientID = (case recipient_of db now ft of None \<Rightarrow> [] | Some r \<Rightarrow> trimSpace r),
             dl_DeviceNo = al_DeviceNo a, dl_PondID = al_PondID a, dl_Metric = al_Metric a,
             dl_CurrentValue = al_CurrentValue a, dl_Threshold = al_Threshold a, dl_Level = al_Level a,
             dl_Message = al_Message a, dl_CreatedAt = al_CreatedAt a\<rparr>)"

definition npg_Claim ::
  "notify_tx \<Rightarrow> core_db \<Rightarrow> time \<Rightarrow> duration \<Rightarrow> int \<Rightarrow> (NotifyClaim \<times> bool \<times> notify_error option) \<times> core_db" where
  "npg_Claim x s now lease m =
     (let fails = cx_fails (nx_tx x); stamp = ce_time (nx_env x) now in
      if fails 0 \<or> fails 1 then ((no_claim [], False, Some NStore), s)
      else (let db = s\<lparr>cb_outbox := map (give_up stamp m) (cb_outbox s)\<rparr>; c = no_claim (nx_token x) in
        if fails 2 then ((c, False, Some NStore), s)
        else (case candidates x stamp m db of
          [] \<Rightarrow> if fails 4 then ((c, False, Some NStore), s) else ((c, False, None), db)
        | o1 # _ \<Rightarrow>
            (let db = db\<lparr>cb_outbox := map (lease_entry (ob_id o1) (ce_time (nx_env x) (now + lease)) (nx_token x))
                   (cb_outbox db)\<rparr>;
                 c = c\<lparr>nc_ID := ob_id o1, nc_Attempts := ob_attempts o1 + 1,
                       nc_Delivery := no_delivery\<lparr>dl_AlarmID := ob_alarm o1\<rparr>\<rparr> in
             if fails 3 then ((c, False, Some NStore), s)
             else (case delivery_of db (cx_now (nx_tx x)) (ob_alarm o1) of
               None \<Rightarrow> ((c, False, Some NStore), s)
             | Some d \<Rightarrow>
                 if fails 4 then ((c\<lparr>nc_Delivery := d\<rparr>, True, Some NStore), s)
                 else ((c\<lparr>nc_Delivery := d\<rparr>, True, None), db))))))"

definition nonempty :: "string \<Rightarrow> string option" where
  "nonempty s = (if s = [] then None else Some s)"

definition held_by :: "NotifyClaim \<Rightarrow> outbox_row \<Rightarrow> bool" where
  "held_by c o1 \<longleftrightarrow> ob_id o1 = nc_ID c \<and> ob_status o1 = ''processing'' \<and> ob_lease_owner o1 = Some (nc_LeaseToken c)"

definition finish_entry :: "core_env \<Rightarrow> NotifyClaim \<Rightarrow> NotifyResult \<Rightarrow> outbox_row \<Rightarrow> outbox_row" where
  "finish_entry env c r o1 =
     (if held_by c o1
      then o1\<lparr>ob_status := nr_Status r, ob_next_at := ce_time env (nr_NextAt r), ob_leased_until := None,
        ob_lease_owner := None, ob_last_error := nonempty (nr_LastError r),
        ob_recipient := nonempty (dl_RecipientID (nc_Delivery c))\<rparr>
      else o1)"

definition npg_Finish ::
  "notify_tx \<Rightarrow> core_db \<Rightarrow> NotifyClaim \<Rightarrow> NotifyResult \<Rightarrow> time \<Rightarrow> notify_error option \<times> core_db" where
  "npg_Finish x s c r now =
     (if cx_fails (nx_tx x) 0 then (Some NStore, s)
      else if length (filter (held_by c) (cb_outbox s)) \<noteq> 1 then (Some NLeaseLost, s)
      else (None, s\<lparr>cb_outbox := map (finish_entry (nx_env x) c r) (cb_outbox s)\<rparr>))"

definition npg_QueueDepth :: "notify_tx \<Rightarrow> core_db \<Rightarrow> (notify_error, nat) result" where
  "npg_QueueDepth x db =
     (if cx_fails (nx_tx x) 0 then Inl NStore
      else Inr (length (filter (\<lambda>o1. (ob_status o1 = ''pending'' \<or> ob_status o1 = ''retryable'' \<or> ob_status o1 = ''processing'') \<and>
        ob_next_at o1 \<le> cx_now (nx_tx x)) (cb_outbox db))))"

definition npg_ops :: "notify_tx \<Rightarrow> core_db delivery_ops" where
  "npg_ops x = \<lparr>do_Claim = npg_Claim x, do_Finish = npg_Finish x\<rparr>"

subsection \<open>The contract\<close>

definition entry_of :: "core_db \<Rightarrow> int \<Rightarrow> outbox_row option" where
  "entry_of db k = find (\<lambda>o1. ob_id o1 = k) (cb_outbox db)"

definition npg_inv :: "core_db \<Rightarrow> bool" where
  "npg_inv db \<longleftrightarrow> distinct (map ob_id (cb_outbox db))"

definition npg_entries :: "core_db \<Rightarrow> int set" where
  "npg_entries db = ob_id ` set (cb_outbox db)"

definition npg_tries :: "core_db \<Rightarrow> int \<Rightarrow> int" where
  "npg_tries db k = (case entry_of db k of None \<Rightarrow> 0 | Some o1 \<Rightarrow> ob_attempts o1)"

definition npg_final :: "core_db \<Rightarrow> int \<Rightarrow> bool" where
  "npg_final db k \<longleftrightarrow> (case entry_of db k of None \<Rightarrow> False | Some o1 \<Rightarrow> final_status (ob_status o1))"

definition npg_holder :: "core_db \<Rightarrow> int \<Rightarrow> string option" where
  "npg_holder db k = (case entry_of db k of None \<Rightarrow> None | Some o1 \<Rightarrow> ob_lease_owner o1)"

lemma find_map_id:
  assumes "\<And>o1. ob_id (f o1) = ob_id o1"
  shows "find (\<lambda>o1. ob_id o1 = k) (map f os) = map_option f (find (\<lambda>o1. ob_id o1 = k) os)"
  by (induction os) (simp_all add: assms)

lemma entry_of_map [simp]:
  assumes "\<And>o1. ob_id (f o1) = ob_id o1"
  shows "entry_of (db\<lparr>cb_outbox := map f os\<rparr>) k = map_option f (find (\<lambda>o1. ob_id o1 = k) os)"
  by (simp add: entry_of_def find_map_id[of f, OF assms])

lemma id_kept [simp]: "ob_id (give_up now m o1) = ob_id o1" "ob_id (lease_entry i u t o1) = ob_id o1"
  "ob_alarm (give_up now m o1) = ob_alarm o1" "ob_alarm (lease_entry i u t o1) = ob_alarm o1"
  "ob_attempts (give_up now m o1) = ob_attempts o1"
  by (simp_all add: give_up_def lease_entry_def)

lemma finish_entry_kept [simp]:
  "ob_id (finish_entry env c r o1) = ob_id o1" "ob_attempts (finish_entry env c r o1) = ob_attempts o1"
  by (simp_all add: finish_entry_def)

lemma finish_entry_final: "final_status (ob_status o1) \<Longrightarrow> finish_entry env c r o1 = o1"
  by (simp add: finish_entry_def held_by_def final_status_def)

lemma lease_entry_attempts: "ob_attempts (lease_entry i u t o1) = (if ob_id o1 = i then ob_attempts o1 + 1 else ob_attempts o1)"
  by (simp add: lease_entry_def)

lemma lease_entry_owner: "ob_id o1 = i \<Longrightarrow> ob_lease_owner (lease_entry i u t o1) = Some t"
  by (simp add: lease_entry_def)

lemma candidate_in: "o1 # r = candidates x now m db \<Longrightarrow>
  o1 \<in> set (cb_outbox db) \<and> due_entry now m o1 \<and> deliverable db (cx_now (nx_tx x)) o1 \<and> \<not> nx_skip x (ob_id o1)"
proof -
  assume "o1 # r = candidates x now m db"
  then have "o1 \<in> set (candidates x now m db)" by (metis list.set_intros(1))
  then show ?thesis by (simp add: candidates_def)
qed

lemma entry_of_in: "npg_inv db \<Longrightarrow> o1 \<in> set (cb_outbox db) \<Longrightarrow> entry_of db (ob_id o1) = Some o1"
proof -
  have "distinct (map ob_id os) \<Longrightarrow> o1 \<in> set os \<Longrightarrow> find (\<lambda>p. ob_id p = ob_id o1) os = Some o1" for os :: "outbox_row list"
    by (induction os) (auto simp: image_iff)
  then show "npg_inv db \<Longrightarrow> o1 \<in> set (cb_outbox db) \<Longrightarrow> entry_of db (ob_id o1) = Some o1"
    by (simp add: npg_inv_def entry_of_def)
qed

lemma npg_Claim_cases:
  assumes "npg_Claim x s now lease m = ((c, found, err), s')"
  obtains (error) e where "err = Some e" "s' = s"
  | (empty) "found = False" "err = None"
      "s' = s\<lparr>cb_outbox := map (give_up (ce_time (nx_env x) now) m) (cb_outbox s)\<rparr>"
      "candidates x (ce_time (nx_env x) now) m s' = []"
  | (granted) o1 d r where "found" "err = None"
      "o1 # r = candidates x (ce_time (nx_env x) now) m
         (s\<lparr>cb_outbox := map (give_up (ce_time (nx_env x) now) m) (cb_outbox s)\<rparr>)"
      "s' = s\<lparr>cb_outbox := map (lease_entry (ob_id o1) (ce_time (nx_env x) (now + lease)) (nx_token x))
         (map (give_up (ce_time (nx_env x) now) m) (cb_outbox s))\<rparr>"
      "c = \<lparr>nc_ID = ob_id o1, nc_Attempts = ob_attempts o1 + 1, nc_LeaseToken = nx_token x, nc_Delivery = d\<rparr>"
      "delivery_of s' (cx_now (nx_tx x)) (ob_alarm o1) = Some d"
proof -
  let ?db = "s\<lparr>cb_outbox := map (give_up (ce_time (nx_env x) now) m) (cb_outbox s)\<rparr>"
  have eq: "npg_Claim x s now lease m = ((c, found, err), s')" by (rule assms)
  show ?thesis
  proof (cases err)
    case (Some e)
    with eq have "s' = s"
      by (auto simp: npg_Claim_def Let_def split: if_split_asm list.split_asm option.split_asm)
    with Some show ?thesis by (rule error)
  next
    case None
    show ?thesis
    proof (cases "candidates x (ce_time (nx_env x) now) m ?db")
      case Nil
      with eq None show ?thesis
        by (intro empty) (auto simp: npg_Claim_def Let_def split: if_split_asm)
    next
      case (Cons o1 r)
      let ?s = "s\<lparr>cb_outbox := map (lease_entry (ob_id o1) (ce_time (nx_env x) (now + lease)) (nx_token x))
         (map (give_up (ce_time (nx_env x) now) m) (cb_outbox s))\<rparr>"
      from eq None Cons obtain d where "delivery_of ?s (cx_now (nx_tx x)) (ob_alarm o1) = Some d" "s' = ?s" "found"
        "c = \<lparr>nc_ID = ob_id o1, nc_Attempts = ob_attempts o1 + 1, nc_LeaseToken = nx_token x, nc_Delivery = d\<rparr>"
        by (auto simp: npg_Claim_def Let_def no_claim_def split: if_split_asm option.split_asm)
      with None Cons show ?thesis by (intro granted[of o1 r d]) simp_all
    qed
  qed
qed

lemma npg_Claim_granted:
  assumes "npg_Claim x s now lease m = ((c, True, None), s')"
  shows "\<exists>o1 d r. o1 # r = candidates x (ce_time (nx_env x) now) m
      (s\<lparr>cb_outbox := map (give_up (ce_time (nx_env x) now) m) (cb_outbox s)\<rparr>) \<and>
    s' = s\<lparr>cb_outbox := map (lease_entry (ob_id o1) (ce_time (nx_env x) (now + lease)) (nx_token x))
         (map (give_up (ce_time (nx_env x) now) m) (cb_outbox s))\<rparr> \<and>
    c = \<lparr>nc_ID = ob_id o1, nc_Attempts = ob_attempts o1 + 1, nc_LeaseToken = nx_token x, nc_Delivery = d\<rparr> \<and>
    delivery_of s' (cx_now (nx_tx x)) (ob_alarm o1) = Some d"
  using assms
proof (cases rule: npg_Claim_cases)
  case (granted o1 d r)
  then show ?thesis by (intro exI conjI)
qed (simp_all only: simp_thms option.distinct bool_simps)

lemma npg_inv_map: "(\<And>o1. ob_id (f o1) = ob_id o1) \<Longrightarrow> npg_inv (db\<lparr>cb_outbox := map f (cb_outbox db)\<rparr>) = npg_inv db"
  by (simp add: npg_inv_def comp_def)

lemma npg_entries_map: "(\<And>o1. ob_id (f o1) = ob_id o1) \<Longrightarrow> npg_entries (db\<lparr>cb_outbox := map f (cb_outbox db)\<rparr>) = npg_entries db"
  by (simp add: npg_entries_def image_image)

lemma entry_of_some: "entry_of db k = Some o1 \<Longrightarrow> ob_id o1 = k \<and> o1 \<in> set (cb_outbox db)"
  by (auto simp: entry_of_def find_Some_iff)

lemma give_up_final: "final_status (ob_status o1) \<Longrightarrow> give_up now m o1 = o1"
  by (simp add: give_up_def final_status_def)

lemma due_not_final: "due_entry now m o1 \<Longrightarrow> \<not> final_status (ob_status o1)"
  by (auto simp: due_entry_def final_status_def)

text \<open>A statement that keeps identifiers, attempts and final entries keeps what the contract speaks of.\<close>

lemma map_entries_keep:
  assumes "npg_inv s"
    and "\<And>o1. ob_id (f o1) = ob_id o1" "\<And>o1. ob_attempts (f o1) = ob_attempts o1"
    and "\<And>o1. final_status (ob_status o1) \<Longrightarrow> f o1 = o1"
  shows "npg_inv (s\<lparr>cb_outbox := map f (cb_outbox s)\<rparr>) \<and>
    npg_entries (s\<lparr>cb_outbox := map f (cb_outbox s)\<rparr>) = npg_entries s \<and>
    npg_tries (s\<lparr>cb_outbox := map f (cb_outbox s)\<rparr>) = npg_tries s \<and>
    (npg_final s k \<longrightarrow> npg_final (s\<lparr>cb_outbox := map f (cb_outbox s)\<rparr>) k)"
proof -
  have e: "entry_of (s\<lparr>cb_outbox := map f (cb_outbox s)\<rparr>) k = map_option f (entry_of s k)" for k
    by (simp add: entry_of_def find_map_id[of f, OF assms(2)])
  have "npg_tries (s\<lparr>cb_outbox := map f (cb_outbox s)\<rparr>) = npg_tries s"
    by (rule ext) (simp add: npg_tries_def e assms(3) split: option.split)
  then show ?thesis
    using assms by (simp add: npg_inv_map npg_entries_map npg_final_def e split: option.split)
qed

interpretation npg: delivery_store npg_ops npg_inv npg_entries npg_tries npg_final npg_holder
proof
  show "npg_inv s \<Longrightarrow> finite (npg_entries s)" for s by (simp add: npg_entries_def)
next
  fix x s now lease m c found e s'
  assume "do_Claim (npg_ops x) s now lease m = ((c, found, Some e), s')"
  then show "s' = s" by (auto simp: npg_ops_def elim: npg_Claim_cases)
next
  fix s x now lease m res s' k
  assume i: "npg_inv s" and "do_Claim (npg_ops x) s now lease m = (res, s')"
  then obtain c found err where "npg_Claim x s now lease m = ((c, found, err), s')"
    by (cases res) (auto simp: npg_ops_def)
  then show "npg_inv s' \<and> npg_entries s' = npg_entries s \<and> (npg_final s k \<longrightarrow> npg_final s' k)"
  proof (cases rule: npg_Claim_cases)
    case empty
    then show ?thesis
      using map_entries_keep[OF i, of "give_up (ce_time (nx_env x) now) m" k] by (simp add: give_up_final)
  next
    case (granted o1 d r)
    let ?db = "s\<lparr>cb_outbox := map (give_up (ce_time (nx_env x) now) m) (cb_outbox s)\<rparr>"
    have "npg_final s' k" if f: "npg_final s k"
    proof -
      obtain e where e: "entry_of s k = Some e" "final_status (ob_status e)"
        using f by (auto simp: npg_final_def split: option.split_asm)
      then have "entry_of ?db k = Some e" by (simp add: entry_of_def[of s] give_up_final)
      moreover have "npg_inv ?db" using i by (simp add: npg_inv_map)
      ultimately have "ob_id o1 \<noteq> k"
        using candidate_in[OF granted(3)] entry_of_in[of ?db o1] e(2) due_not_final by auto
      then show ?thesis
        using e entry_of_some[OF e(1)]
        by (simp add: npg_final_def granted(4) entry_of_def[of s] find_map_id give_up_final lease_entry_def)
    qed
    then show ?thesis using i granted(4) by (simp add: npg_inv_def npg_entries_def comp_def image_image)
  qed (use i in auto)
next
  fix s x now lease m c s'
  assume i: "npg_inv s" and "do_Claim (npg_ops x) s now lease m = ((c, True, None), s')"
  then have "npg_Claim x s now lease m = ((c, True, None), s')" by (simp add: npg_ops_def)
  from npg_Claim_granted[OF this] obtain o1 d r where g:
    "o1 # r = candidates x (ce_time (nx_env x) now) m (s\<lparr>cb_outbox := map (give_up (ce_time (nx_env x) now) m) (cb_outbox s)\<rparr>)"
    "s' = s\<lparr>cb_outbox := map (lease_entry (ob_id o1) (ce_time (nx_env x) (now + lease)) (nx_token x))
         (map (give_up (ce_time (nx_env x) now) m) (cb_outbox s))\<rparr>"
    "c = \<lparr>nc_ID = ob_id o1, nc_Attempts = ob_attempts o1 + 1, nc_LeaseToken = nx_token x, nc_Delivery = d\<rparr>"
    by blast
  let ?g = "give_up (ce_time (nx_env x) now) m"
  note o1 = candidate_in[OF g(1)]
  then obtain e where e: "e \<in> set (cb_outbox s)" "o1 = ?g e" by auto
  have "\<not> final_status (ob_status e)" using o1 e(2) give_up_final due_not_final by metis
  moreover have "ob_attempts e < m" using o1 e(2) by (simp add: due_entry_def)
  moreover have t: "entry_of s' k = map_option (\<lambda>o2. lease_entry (ob_id o1) (ce_time (nx_env x) (now + lease))
      (nx_token x) (?g o2)) (entry_of s k)" for k
    unfolding g(2) map_map by (simp add: entry_of_def find_map_id comp_def)
  have id: "nc_ID c = ob_id e" "nc_Attempts c = ob_attempts e + 1" "nc_LeaseToken c = nx_token x"
    using e(2) by (simp_all add: g(3))
  have i1: "ob_id o1 = ob_id e" using e(2) by simp
  have es: "entry_of s (ob_id e) = Some e" using entry_of_in[OF i e(1)] .
  have "npg_tries s' = (npg_tries s)(nc_ID c := npg_tries s (nc_ID c) + 1)"
  proof
    fix k
    show "npg_tries s' k = ((npg_tries s)(nc_ID c := npg_tries s (nc_ID c) + 1)) k"
    proof (cases "k = ob_id e")
      case True
      have "npg_tries s' (ob_id e) = npg_tries s (ob_id e) + 1"
        unfolding npg_tries_def t es by (simp add: lease_entry_attempts i1)
      then show ?thesis by (simp only: True id fun_upd_same)
    next
      case False
      have "npg_tries s' k = npg_tries s k"
      proof (cases "entry_of s k")
        case (Some f)
        then have "ob_id f \<noteq> ob_id e" using False entry_of_some[OF Some] by simp
        then show ?thesis unfolding npg_tries_def t Some by (simp add: lease_entry_attempts i1)
      next
        case None
        show ?thesis unfolding npg_tries_def t None by simp
      qed
      with False show ?thesis by (simp add: id)
    qed
  qed
  moreover have "npg_holder s' (nc_ID c) = Some (nc_LeaseToken c)"
    unfolding npg_holder_def t id es by (simp add: lease_entry_owner i1)
  ultimately show "nc_ID c \<in> npg_entries s \<and> \<not> npg_final s (nc_ID c) \<and> npg_tries s (nc_ID c) < m \<and>
      nc_Attempts c = npg_tries s (nc_ID c) + 1 \<and>
      npg_tries s' = (npg_tries s)(nc_ID c := npg_tries s (nc_ID c) + 1) \<and>
      npg_holder s' (nc_ID c) = Some (nc_LeaseToken c)"
    using es e(1) by (simp add: id npg_entries_def npg_final_def npg_tries_def)
next
  fix s x now lease m c s'
  assume i: "npg_inv s" and "do_Claim (npg_ops x) s now lease m = ((c, False, None), s')"
  then have "npg_Claim x s now lease m = ((c, False, None), s')" by (simp add: npg_ops_def)
  then show "npg_tries s' = npg_tries s"
  proof (cases rule: npg_Claim_cases)
    case empty
    then show ?thesis using map_entries_keep[OF i, of "give_up (ce_time (nx_env x) now) m"] by (simp add: give_up_final)
  qed simp_all
next
  fix x s c r now e s'
  assume "do_Finish (npg_ops x) s c r now = (Some e, s')"
  then show "s' = s" by (auto simp: npg_ops_def npg_Finish_def split: if_split_asm)
next
  fix s x c r now err s' k
  assume i: "npg_inv s" and "do_Finish (npg_ops x) s c r now = (err, s')"
  then have "s' = s \<or> s' = s\<lparr>cb_outbox := map (finish_entry (nx_env x) c r) (cb_outbox s)\<rparr>"
    by (simp add: npg_ops_def npg_Finish_def split: if_split_asm)
  then show "npg_inv s' \<and> npg_entries s' = npg_entries s \<and> npg_tries s' = npg_tries s \<and> (npg_final s k \<longrightarrow> npg_final s' k)"
    using map_entries_keep[OF i, of "finish_entry (nx_env x) c r" k] i by (auto simp: finish_entry_final)
next
  fix s x c r now s'
  assume i: "npg_inv s" and "do_Finish (npg_ops x) s c r now = (None, s')"
  then have h: "length (filter (held_by c) (cb_outbox s)) = 1"
    and s': "s' = s\<lparr>cb_outbox := map (finish_entry (nx_env x) c r) (cb_outbox s)\<rparr>"
    by (simp_all add: npg_ops_def npg_Finish_def split: if_split_asm)
  from h obtain e where e: "e \<in> set (cb_outbox s)" "held_by c e"
    by (metis filter_empty_conv list.size(3) zero_neq_one)
  have f: "entry_of s (nc_ID c) = Some e" using entry_of_in[OF i e(1)] e(2) by (simp add: held_by_def)
  have "entry_of s' (nc_ID c) = Some (finish_entry (nx_env x) c r e)"
    using f by (simp add: s' entry_of_def find_map_id)
  then show "npg_holder s (nc_ID c) = Some (nc_LeaseToken c) \<and> (final_status (nr_Status r) \<longrightarrow> npg_final s' (nc_ID c))"
    using e(2) by (simp add: f npg_holder_def npg_final_def finish_entry_def) (simp add: held_by_def)
qed

end
