(* ===== verification/Core_Run.thy ===== *)
theory Core_Run
  imports Notify_Store
begin

text \<open>
  What the core does over its life: events, confirmations, restarts, and the calls of the notification
  workers, in any order. The alarms and the queue of notifications stay matched, and no alarm is
  handed out more often than the workers' configuration allows.
\<close>

subsection \<open>Taking a call apart\<close>

lemma ok_after_pair: "(\<And>a b. r = Inr (a, b) \<Longrightarrow> ok P (k a b)) \<Longrightarrow> ok P (after r (\<lambda>(a, b). k a b))"
  by (cases r) auto

lemma ok_list:
  "(l = [] \<Longrightarrow> ok P x) \<Longrightarrow> (\<And>h t. l = h # t \<Longrightarrow> ok P (k h t)) \<Longrightarrow> ok P (case l of [] \<Rightarrow> x | h # t \<Rightarrow> k h t)"
  by (cases l) simp_all

subsection \<open>The effect of an event on the alarms\<close>

definition adds_alarms :: "core_db \<Rightarrow> core_db \<Rightarrow> bool" where
  "adds_alarms db db' \<longleftrightarrow> (alarms_queued db \<longrightarrow> alarms_queued db') \<and>
     (\<exists>out os. cb_alarms db' = cb_alarms db @ out \<and> cb_outbox db' = cb_outbox db @ os \<and>
       (\<forall>o1 \<in> set os. ob_status o1 = ''pending'' \<and> ob_attempts o1 = 0 \<and> ob_leased_until o1 = None \<and>
          ob_lease_owner o1 = None))"

lemma alarms_queued_cong:
  "cb_alarms a = cb_alarms b \<Longrightarrow> cb_outbox a = cb_outbox b \<Longrightarrow> alarms_queued a = alarms_queued b"
  by (simp add: alarms_queued_def)

lemma adds_nothing: "cb_alarms db' = cb_alarms db \<Longrightarrow> cb_outbox db' = cb_outbox db \<Longrightarrow> adds_alarms db db'"
  using alarms_queued_cong[of db' db] by (auto simp: adds_alarms_def)

lemma adds_alarms_cong:
  "adds_alarms db db' \<Longrightarrow> cb_alarms db' = cb_alarms db2 \<Longrightarrow> cb_outbox db' = cb_outbox db2 \<Longrightarrow>
   cb_alarms db = cb_alarms db0 \<Longrightarrow> cb_outbox db = cb_outbox db0 \<Longrightarrow> adds_alarms db0 db2"
  using alarms_queued_cong[of db' db2] alarms_queued_cong[of db db0] by (auto simp: adds_alarms_def)

lemma raised_adds: "raised env e props pond product rules db (out, db') \<Longrightarrow> adds_alarms db db'"
  unfolding raised_def adds_alarms_def by auto

lemma evaluate_adds: "evaluate env x e props product pond db = Inr (out, db') \<Longrightarrow> adds_alarms db db'"
proof -
  assume a: "evaluate env x e props product pond db = Inr (out, db')"
  then obtain p where "raise_alarms env x 12 e props pond p
      (filter (\<lambda>r. ru_PondID r = pond \<and> ru_Enabled r) (cb_rules db)) db = Inr (out, db')"
    by (auto simp: evaluate_def after_Inr require_Inr)
  then show ?thesis using okD[OF raise_alarms_raised] raised_adds by blast
qed

lemma put_shadow_tables [simp]:
  "cb_alarms (put_shadow row db) = cb_alarms db" "cb_outbox (put_shadow row db) = cb_outbox db"
  "cb_rules (put_shadow row db) = cb_rules db" "cb_sensor (put_shadow row db) = cb_sensor db"
  "cb_messages (put_shadow row db) = cb_messages db" "cb_telemetry (put_shadow row db) = cb_telemetry db"
  by (simp_all add: put_shadow_def)

lemma insert_telemetry_tables [simp]:
  "cb_alarms (insert_telemetry row db) = cb_alarms db" "cb_outbox (insert_telemetry row db) = cb_outbox db"
  "cb_rules (insert_telemetry row db) = cb_rules db" "cb_sensor (insert_telemetry row db) = cb_sensor db"
  "cb_messages (insert_telemetry row db) = cb_messages db" "cb_shadows (insert_telemetry row db) = cb_shadows db"
  by (simp_all add: insert_telemetry_def)

lemma touch_device_tables [simp]:
  "cb_alarms (touch_device env dev ts db) = cb_alarms db" "cb_outbox (touch_device env dev ts db) = cb_outbox db"
  "cb_rules (touch_device env dev ts db) = cb_rules db" "cb_sensor (touch_device env dev ts db) = cb_sensor db"
  "cb_messages (touch_device env dev ts db) = cb_messages db" "cb_shadows (touch_device env dev ts db) = cb_shadows db"
  by (simp_all add: touch_device_def)

lemma shadowUpsert_puts:
  "shadowUpsert env x e pond tenant product version db = Inr db' \<Longrightarrow> \<exists>row. db' = put_shadow row db"
proof -
  have "ok (\<lambda>db'. \<exists>row. db' = put_shadow row db) (shadowUpsert env x e pond tenant product version db)"
    unfolding shadowUpsert_def Let_def by (intro ok_rules) blast+
  then show "shadowUpsert env x e pond tenant product version db = Inr db' \<Longrightarrow> \<exists>row. db' = put_shadow row db"
    by (rule okD)
qed

lemma genericShadowUpsert_puts:
  "genericShadowUpsert env x dev ts pond tenant product version acc db = Inr db' \<Longrightarrow> \<exists>row. db' = put_shadow row db"
proof -
  have "ok (\<lambda>db'. \<exists>row. db' = put_shadow row db) (genericShadowUpsert env x dev ts pond tenant product version acc db)"
    unfolding genericShadowUpsert_def Let_def by (intro ok_rules) blast+
  then show "genericShadowUpsert env x dev ts pond tenant product version acc db = Inr db' \<Longrightarrow> \<exists>row. db' = put_shadow row db"
    by (rule okD)
qed

lemma adds_through:
  assumes "evaluate env x e props product pond db2 = Inr (out, db3)"
    and "\<exists>row. db2 = put_shadow row db1" and "cb_alarms db1 = cb_alarms db \<and> cb_outbox db1 = cb_outbox db"
  shows "adds_alarms db (touch_device env dev ts db3)"
  using adds_alarms_cong[OF evaluate_adds[OF assms(1)], of "touch_device env dev ts db3" db] assms(2,3) by auto

lemma store_values_adds: "ok (adds_alarms db) (store_values env x e d tenant schema db)"
  unfolding store_values_def Let_def
  by (rule ok_require ok_take_or ok_after_pair ok_after ok_return |
      (erule adds_through, erule shadowUpsert_puts, (auto simp: require_Inr split: if_split_asm)[1]))+

lemma store_generic_adds: "ok (adds_alarms db) (store_generic_values env x e properties db)"
  unfolding store_generic_values_def Let_def
  by (rule ok_require ok_list ok_pair ok_error ok_if ok_take_or ok_after_pair ok_after ok_return |
      (erule adds_through, erule genericShadowUpsert_puts, simp))+

lemma dedup_adds:
  "ok (\<lambda>(fresh, db'). cb_alarms db' = cb_alarms db \<and> cb_outbox db' = cb_outbox db) (dedup x dev msg db)"
  by (auto simp: dedup_def Let_def require_def)

lemma dedup_then:
  assumes "\<And>fresh db1. ok (adds_alarms db1) (k fresh db1)"
  shows "ok (adds_alarms db) (after (dedup x dev msg db) (\<lambda>(fresh, db). k fresh db))"
proof (rule ok_after_pair)
  fix fresh db1
  assume "dedup x dev msg db = Inr (fresh, db1)"
  with dedup_adds[of db x dev msg] have "cb_alarms db1 = cb_alarms db" "cb_outbox db1 = cb_outbox db" by auto
  then show "ok (adds_alarms db) (k fresh db1)"
    by (intro ok_weaken[OF assms]) (erule adds_alarms_cong, simp_all)
qed

lemma adds_refl: "adds_alarms db db"
  by (rule adds_nothing) simp_all

lemma storeReading_adds: "ok (adds_alarms db) (storeReading env x e db)"
  unfolding storeReading_def
  by (rule ok_if ok_return ok_error ok_require ok_list ok_pair dedup_then store_values_adds adds_refl)+

lemma storeGenericReading_adds: "ok (adds_alarms db) (storeGenericReading env x e p db)"
  unfolding storeGenericReading_def
  by (rule ok_if ok_return ok_error ok_require ok_list ok_pair dedup_then store_generic_adds adds_refl)+

lemma storeStatus_adds: "ok (adds_alarms db) (storeStatus env x e db)"
  unfolding storeStatus_def Let_def
  by (auto simp: require_def intro: adds_nothing)

lemma HandleEvent_adds: "ok (adds_alarms db) (HandleEvent env x e db)"
  unfolding HandleEvent_def
  using storeReading_adds storeGenericReading_adds storeStatus_adds adds_refl
  by (auto split: option.split event_kind.split)

subsection \<open>Runs\<close>

text \<open>
  A run from \<open>db\<close>: events from the access module, confirmations, restarts, any change of the tables
  other than \<open>alarms\<close> and \<open>notification_outbox\<close> by the rest of the server, and the claims and results of
  any number of notification workers with \<open>MaxAttempts\<close> \<open>m\<close>. The list holds the claims granted.
\<close>

inductive core_run :: "core_env \<Rightarrow> int \<Rightarrow> core_db \<Rightarrow> NotifyClaim list \<Rightarrow> core_db \<Rightarrow> bool" for env m db where
  start: "core_run env m db [] db"
| event: "core_run env m db gs s \<Longrightarrow> HandleEvent env x e s = Inr s' \<Longrightarrow> core_run env m db gs s'"
| confirm: "core_run env m db gs s \<Longrightarrow> ConfirmAlarm x i s = Inr s' \<Longrightarrow> core_run env m db gs s'"
| restart: "core_run env m db gs s \<Longrightarrow> NewService x s = Inr s' \<Longrightarrow> core_run env m db gs s'"
| others: "core_run env m db gs s \<Longrightarrow> cb_alarms s' = cb_alarms s \<Longrightarrow> cb_outbox s' = cb_outbox s \<Longrightarrow> core_run env m db gs s'"
| claim: "core_run env m db gs s \<Longrightarrow> npg_Claim x s now lease m = ((c, True, None), s') \<Longrightarrow> core_run env m db (gs @ [c]) s'"
| no_claim: "core_run env m db gs s \<Longrightarrow> npg_Claim x s now lease m = ((c, found, err), s') \<Longrightarrow> \<not> found \<or> err \<noteq> None \<Longrightarrow>
    core_run env m db gs s'"
| finish: "core_run env m db gs s \<Longrightarrow> npg_Finish x s c r now = (err, s') \<Longrightarrow> core_run env m db gs s'"

lemma alarms_queued_map:
  assumes "alarms_queued db" and "map ob_id os = map ob_id (cb_outbox db)" "map ob_alarm os = map ob_alarm (cb_outbox db)"
  shows "alarms_queued (db\<lparr>cb_outbox := os\<rparr>)"
  using assms by (simp add: alarms_queued_def)

lemma alarms_queued_confirm:
  assumes "alarms_queued db" and f: "\<And>a. al_ID (f a) = al_ID a" "\<And>a b. same_open (f a) (f b) \<Longrightarrow> same_open a b"
  shows "alarms_queued (db\<lparr>cb_alarms := map f (cb_alarms db)\<rparr>)"
proof -
  have "al_ID \<circ> f = al_ID" using f(1) by auto
  then show ?thesis using assms(1) f(2) by (auto simp: alarms_queued_def)
qed

lemma npg_inv_queued: "alarms_queued db \<Longrightarrow> npg_inv db"
  by (simp add: alarms_queued_def npg_inv_def)

lemma claim_outbox:
  assumes "npg_Claim x s now lease m = (res, s')"
  shows "\<exists>f. s' = s\<lparr>cb_outbox := map f (cb_outbox s)\<rparr> \<and> (\<forall>o1. ob_id (f o1) = ob_id o1 \<and> ob_alarm (f o1) = ob_alarm o1)"
proof -
  obtain c found err where r: "res = (c, found, err)" by (cases res)
  from assms[unfolded r] show ?thesis
  proof (cases rule: npg_Claim_cases)
    case (error e)
    then show ?thesis by (intro exI[of _ id]) simp
  next
    case empty
    then show ?thesis by (intro exI[of _ "give_up (ce_time (nx_env x) now) m"]) simp
  next
    case (granted o1 d r)
    then show ?thesis
      by (intro exI[of _ "lease_entry (ob_id o1) (ce_time (nx_env x) (now + lease)) (nx_token x) \<circ>
            give_up (ce_time (nx_env x) now) m"]) simp
  qed
qed

lemma finish_outbox:
  assumes "npg_Finish x s c r now = (err, s')"
  shows "\<exists>f. s' = s\<lparr>cb_outbox := map f (cb_outbox s)\<rparr> \<and> (\<forall>o1. ob_id (f o1) = ob_id o1 \<and> ob_alarm (f o1) = ob_alarm o1)"
proof -
  have "s' = s \<or> s' = s\<lparr>cb_outbox := map (finish_entry (nx_env x) c r) (cb_outbox s)\<rparr>"
    using assms by (simp add: npg_Finish_def split: if_split_asm)
  then consider "s' = s" | "s' = s\<lparr>cb_outbox := map (finish_entry (nx_env x) c r) (cb_outbox s)\<rparr>" by blast
  then show ?thesis
  proof cases
    case 1
    then show ?thesis by (intro exI[of _ id]) simp
  next
    case 2
    then show ?thesis by (intro exI[of _ "finish_entry (nx_env x) c r"]) (simp add: finish_entry_def)
  qed
qed

lemma find_append: "find P (xs @ ys) = (case find P xs of None \<Rightarrow> find P ys | Some x \<Rightarrow> Some x)"
  by (induction xs) auto

lemma adds_entries:
  assumes "adds_alarms s s'"
  shows "npg_tries s' = npg_tries s \<and> (npg_final s k \<longrightarrow> npg_final s' k)"
proof -
  obtain os where os: "cb_outbox s' = cb_outbox s @ os" "\<forall>o1 \<in> set os. ob_attempts o1 = 0"
    using assms(1) by (auto simp: adds_alarms_def)
  have e: "entry_of s' k = (case entry_of s k of None \<Rightarrow> find (\<lambda>o1. ob_id o1 = k) os | Some o1 \<Rightarrow> Some o1)" for k
    by (simp add: entry_of_def os(1) find_append)
  have "npg_tries s' k = npg_tries s k" for k
    using os(2) by (auto simp: npg_tries_def e find_Some_iff split: option.split)
  then show ?thesis by (auto simp: npg_final_def e split: option.split_asm)
qed

text \<open>What a run keeps: the counts of the claims add up.\<close>

definition grants_of :: "int \<Rightarrow> NotifyClaim list \<Rightarrow> nat" where
  "grants_of k gs = length (filter (\<lambda>c. nc_ID c = k) gs)"

definition run_ok :: "int \<Rightarrow> core_db \<Rightarrow> NotifyClaim list \<Rightarrow> core_db \<Rightarrow> bool" where
  "run_ok m db gs s \<longleftrightarrow> alarms_queued s \<and> (\<forall>k. npg_tries s k = npg_tries db k + int (grants_of k gs) \<and>
     (0 < grants_of k gs \<longrightarrow> npg_tries s k \<le> m) \<and> (npg_final db k \<longrightarrow> npg_final s k \<and> grants_of k gs = 0))"

lemma run_ok_step:
  assumes "run_ok m db gs s" and "alarms_queued s'" and "npg_tries s' = npg_tries s"
    and "\<And>k. npg_final s k \<Longrightarrow> npg_final s' k"
  shows "run_ok m db gs s'"
  using assms unfolding run_ok_def by metis

lemma run_ok_same_outbox:
  assumes "run_ok m db gs s" and "alarms_queued s'" and "cb_outbox s' = cb_outbox s"
  shows "run_ok m db gs s'"
  using assms(3) by (intro run_ok_step[OF assms(1,2)]) (simp_all add: fun_eq_iff npg_tries_def npg_final_def entry_of_def)

lemma run_keeps:
  assumes "core_run env m db gs s" and "alarms_queued db"
  shows "run_ok m db gs s"
  using assms(1)
proof (induction rule: core_run.induct)
  case start
  then show ?case using assms(2) by (simp add: run_ok_def grants_of_def)
next
  case (event gs s x e s')
  have "adds_alarms s s'" using HandleEvent_adds event(2) by (metis okD)
  then show ?case using adds_entries event(3) by (intro run_ok_step[OF event(3)]) (auto simp: adds_alarms_def run_ok_def)
next
  case (confirm gs s x i s')
  have "alarms_queued (s\<lparr>cb_alarms := map (confirm_row (cx_now x) i) (cb_alarms s)\<rparr>)"
    using confirm(3) by (intro alarms_queued_confirm)
      (auto simp: run_ok_def confirm_row_def same_open_def open_alarm_def split: if_split_asm)
  then have "alarms_queued s'" using confirm(2) by (auto simp: ConfirmAlarm_def require_Inr)
  then show ?case using confirm(2)
    by (intro run_ok_same_outbox[OF confirm(3)]) (auto simp: ConfirmAlarm_def require_Inr)
next
  case (restart gs s x s')
  then have "alarms_queued s'" "cb_outbox s' = cb_outbox s"
    by (auto simp: NewService_def require_Inr run_ok_def alarms_queued_def)
  then show ?case by (rule run_ok_same_outbox[OF restart(3)])
next
  case (others gs s s')
  then have "alarms_queued s'" by (simp add: run_ok_def alarms_queued_def)
  then show ?case by (rule run_ok_same_outbox[OF others(4) _ others(3)])
next
  case (claim gs s x now lease c s')
  have i: "npg_inv s" using claim(3) npg_inv_queued by (simp add: run_ok_def)
  have cl: "do_Claim (npg_ops x) s now lease m = ((c, True, None), s')" using claim(2) by (simp add: npg_ops_def)
  note g = npg.claim_granted[OF i cl]
  obtain f where "s' = s\<lparr>cb_outbox := map f (cb_outbox s)\<rparr>" "\<And>o1. ob_id (f o1) = ob_id o1 \<and> ob_alarm (f o1) = ob_alarm o1"
    using claim_outbox[OF claim(2)] by blast
  then have q: "alarms_queued s'" using claim(3) by (auto simp: run_ok_def intro: alarms_queued_map)
  have "npg_final s k \<longrightarrow> npg_final s' k" for k using npg.claim_keeps[OF i cl] by blast
  then show ?case
    using claim(3) g q unfolding run_ok_def grants_of_def by fastforce
next
  case (no_claim gs s x now lease c found err s')
  have i: "npg_inv s" using no_claim(4) npg_inv_queued by (simp add: run_ok_def)
  have cl: "do_Claim (npg_ops x) s now lease m = ((c, found, err), s')" using no_claim(2) by (simp add: npg_ops_def)
  obtain f where "s' = s\<lparr>cb_outbox := map f (cb_outbox s)\<rparr>" "\<And>o1. ob_id (f o1) = ob_id o1 \<and> ob_alarm (f o1) = ob_alarm o1"
    using claim_outbox[OF no_claim(2)] by blast
  then have q: "alarms_queued s'" using no_claim(4) by (auto simp: run_ok_def intro: alarms_queued_map)
  have "npg_tries s' = npg_tries s"
    using no_claim(3) cl npg.claim_error[of x s now lease m c found _ s'] npg.claim_empty[OF i, of x now lease m c s']
    by (cases err) auto
  moreover have "npg_final s k \<Longrightarrow> npg_final s' k" for k using npg.claim_keeps[OF i cl] by blast
  ultimately show ?case by (intro run_ok_step[OF no_claim(4) q])
next
  case (finish gs s x c r now err s')
  have i: "npg_inv s" using finish(3) npg_inv_queued by (simp add: run_ok_def)
  have fi: "do_Finish (npg_ops x) s c r now = (err, s')" using finish(2) by (simp add: npg_ops_def)
  obtain f where "s' = s\<lparr>cb_outbox := map f (cb_outbox s)\<rparr>" "\<And>o1. ob_id (f o1) = ob_id o1 \<and> ob_alarm (f o1) = ob_alarm o1"
    using finish_outbox[OF finish(2)] by blast
  then have q: "alarms_queued s'" using finish(3) by (auto simp: run_ok_def intro: alarms_queued_map)
  show ?case
    by (rule run_ok_step[OF finish(3) q]) (use npg.finish_keeps[OF i fi] in auto)
qed

text \<open>C23: Over any run of the core with any number of notification workers (\<open>MaxAttempts\<close> \<open>m\<close>, at most 6):
  every alarm keeps exactly one entry in the queue of notifications, in the order they were raised, and
  no two open alarms are for one metric of one device in one pond with one product; an entry is handed to a worker at
  most \<open>m\<close> times over its life, and never again once it is sent, failed, disabled or unknown; each
  claim raises its attempts by one.\<close>

theorem alarm_queued_and_bounded:
  assumes "core_run env m db gs db'" and "alarms_queued db"
  shows "map ob_alarm (cb_outbox db') = map al_ID (cb_alarms db') \<and> distinct (map al_ID (cb_alarms db')) \<and>
    \<not> (\<exists>i j. i < j \<and> j < length (cb_alarms db') \<and> same_open (cb_alarms db' ! i) (cb_alarms db' ! j)) \<and>
    npg_tries db' k = npg_tries db k + int (grants_of k gs) \<and>
    (grants_of k gs = 0 \<or> npg_tries db' k \<le> m) \<and>
    \<not> (npg_final db k \<and> 0 < grants_of k gs)"
  using run_keeps[OF assms] by (auto simp: run_ok_def alarms_queued_def)

end
