(* ===== verification/Core_Facts.thy ===== *)
theory Core_Facts
  imports Core_Run
begin

text \<open>
  What the core promises of a report: what it stores and which alarms it raises, that a report
  delivered again is stored once, and that the shadow of a device has the newest value of each metric in
  whatever order the reports arrive.
\<close>

subsection \<open>A stored reading\<close>

definition reading_effect :: "core_env \<Rightarrow> Event \<Rightarrow> core_device \<Rightarrow> int \<Rightarrow> core_db \<Rightarrow> core_db \<Rightarrow> bool" where
  "reading_effect env e d tenant db db' \<longleftrightarrow>
     cb_sensor db' = cb_sensor db @ [sensor_of env e (de_pond d) tenant] \<and>
     (\<forall>r \<in> set (cb_rules db). \<forall>v. ru_PondID r = de_pond d \<longrightarrow> ru_Enabled r \<longrightarrow>
        map_of (ev_props e) (ru_Metric r) = Some v \<longrightarrow> breached r v \<longrightarrow>
        list_ex (open_alarm (ev_DeviceNo e) (de_pond d) (de_product d) (ru_Metric r)) (cb_alarms db')) \<and>
     (\<exists>out. cb_alarms db' = cb_alarms db @ out \<and>
        (\<forall>a \<in> set out. al_DeviceNo a = ev_DeviceNo e \<and> al_PondID a = de_pond d \<and>
           (\<exists>r \<in> set (cb_rules db). ru_PondID r = de_pond d \<and> ru_Enabled r \<and> al_Metric a = ru_Metric r \<and>
              map_of (ev_props e) (ru_Metric r) = Some (al_CurrentValue a) \<and> breached r (al_CurrentValue a))))"

lemma effect_through:
  assumes "evaluate env x e (ev_props e) (de_product d) (de_pond d) db2 = Inr (out, db3)" and "de_product d \<noteq> 0"
    and "\<exists>row. db2 = put_shadow row db1"
    and "cb_alarms db1 = cb_alarms db \<and> cb_rules db1 = cb_rules db \<and>
      cb_sensor db1 = cb_sensor db @ [sensor_of env e (de_pond d) tenant]"
  shows "reading_effect env e d tenant db (touch_device env dev ts db3)"
proof -
  obtain os where r: "db3 = db2\<lparr>cb_alarms := cb_alarms db2 @ out, cb_outbox := cb_outbox db2 @ os\<rparr>"
    and n: "\<forall>a \<in> set out. al_DeviceNo a = ev_DeviceNo e \<and> al_PondID a = de_pond d \<and> al_ProductID a = de_product d \<and>
        al_ConfirmedAt a = None \<and> (\<exists>r \<in> set (filter (\<lambda>r. ru_PondID r = de_pond d \<and> ru_Enabled r) (cb_rules db2)).
          al_Metric a = ru_Metric r \<and> al_Level a = ru_Level r \<and>
          map_of (ev_props e) (ru_Metric r) = Some (al_CurrentValue a) \<and> breached r (al_CurrentValue a))"
    and b: "\<forall>r \<in> set (filter (\<lambda>r. ru_PondID r = de_pond d \<and> ru_Enabled r) (cb_rules db2)). \<forall>v.
        map_of (ev_props e) (ru_Metric r) = Some v \<longrightarrow> breached r v \<longrightarrow>
        list_ex (open_alarm (ev_DeviceNo e) (de_pond d) (de_product d) (ru_Metric r)) (cb_alarms db2 @ out)"
    using evaluate_raised[OF assms(1,2)] unfolding raised_def by auto
  have t: "cb_alarms db2 = cb_alarms db" "cb_rules db2 = cb_rules db"
    "cb_sensor db2 = cb_sensor db @ [sensor_of env e (de_pond d) tenant]"
    using assms(3,4) by auto
  show ?thesis
    unfolding reading_effect_def
  proof (intro conjI exI)
    show "cb_alarms (touch_device env dev ts db3) = cb_alarms db @ out" by (simp add: r t)
  qed (use b n in \<open>auto simp: r t\<close>)
qed

lemma store_values_effect:
  assumes "de_product d \<noteq> 0"
  shows "ok (\<lambda>db'. reading_effect env e d tenant db db' \<and> schema \<noteq> None) (store_values env x e d tenant schema db)"
  unfolding store_values_def Let_def
  by (rule ok_require ok_take_or ok_after_pair ok_after ok_return conjI |
      (erule effect_through, rule assms, erule shadowUpsert_puts, (auto simp: require_Inr split: if_split_asm)[1]) | simp)+

lemma reading_effect_messages:
  "reading_effect env e d tenant (db\<lparr>cb_messages := ms\<rparr>) db' = reading_effect env e d tenant db db'"
  by (simp add: reading_effect_def)

definition seen_message :: "time \<Rightarrow> string \<Rightarrow> string \<Rightarrow> core_db \<Rightarrow> bool" where
  "seen_message now dev msg db \<longleftrightarrow>
     list_ex (\<lambda>m. ms_device m = dev \<and> ms_id m = msg \<and> ms_received m > now - 24 * hour) (cb_messages db)"

lemma dedup_result:
  assumes "dedup x dev msg db = Inr (fresh, db')"
  shows "(fresh \<longleftrightarrow> \<not> seen_message (cx_now x) dev msg db) \<and> db' = db\<lparr>cb_messages := cb_messages db'\<rparr> \<and>
    (fresh \<longrightarrow> \<lparr>ms_device = dev, ms_id = msg, ms_received = cx_now x\<rparr> \<in> set (cb_messages db'))"
  using assms
  by (auto simp: dedup_def Let_def require_Inr seen_message_def list_ex_iff not_le split: if_split_asm)

text \<open>C24: What a water report does that is not a duplicate and that the core takes: the device is live and
  its model published, one row of samples is appended at the place of the device, for every enabled rule of its
  pond that a reported value breaks there is then an open alarm, and every alarm it raises is for a
  value it reports that breaks such a rule.\<close>

theorem reading_stored_and_alarmed:
  assumes "HandleEvent env x e db = Inr db'" and "ev_Kind e = KindProperties" and "ev_GenericProperties e = None"
    and "ev_props e \<noteq> []" and "ev_MessageID e = [] \<or> \<not> seen_message (cx_now x) (ev_DeviceNo e) (ev_MessageID e) db"
    and "\<forall>d \<in> set (cb_devices db). de_product d \<noteq> 0"
  shows "\<exists>d tenant mfs rest. device_scope db (ev_DeviceNo e) = (d, tenant, Some mfs) # rest \<and>
    reading_effect env e d tenant db db'"
proof -
  have s: "storeReading env x e db = Inr db'"
    using assms(1-3) by (simp add: HandleEvent_def split: option.split_asm)
  obtain d tenant schema rest where sc: "device_scope db (ev_DeviceNo e) = (d, tenant, schema) # rest"
    using s assms(4) by (auto simp: storeReading_def require_Inr split: if_split_asm list.split_asm)
  have "d \<in> set (cb_devices db)"
  proof -
    have "(d, tenant, schema) \<in> set (device_scope db (ev_DeviceNo e))" using sc by simp
    then show ?thesis by (auto simp: device_scope_def live_devices_def live_where_def)
  qed
  then have p: "de_product d \<noteq> 0" using assms(6) by blast
  have "reading_effect env e d tenant db db' \<and> schema \<noteq> None"
  proof (cases "ev_MessageID e = []")
    case True
    then have "store_values env x e d tenant schema db = Inr db'"
      using s sc assms(4) by (auto simp: storeReading_def require_Inr split: if_split_asm)
    then show ?thesis using okD[OF store_values_effect[OF p]] by blast
  next
    case False
    then obtain fresh db1 where d: "dedup x (ev_DeviceNo e) (ev_MessageID e) db = Inr (fresh, db1)"
      and k: "(if \<not> fresh then require (\<not> cx_fails x 9) CStore (Inr db1)
         else store_values env x e d tenant schema db1) = Inr db'"
      using s sc assms(4) by (auto simp: storeReading_def iolink_simps split: if_split_asm)
    have f: fresh and m: "db1 = db\<lparr>cb_messages := cb_messages db1\<rparr>"
      using dedup_result[OF d] assms(5) False by auto
    have "reading_effect env e d tenant db1 db' \<and> schema \<noteq> None"
      using k f okD[OF store_values_effect[OF p]] by simp
    then show ?thesis using reading_effect_messages m by metis
  qed
  then show ?thesis using sc by blast
qed

subsection \<open>A report delivered again\<close>

lemma dedup_seen:
  assumes "seen_message (cx_now x) dev msg db" and "\<not> cx_fails x 2" "\<not> cx_fails x 3" "pg_varchar 64 dev" "pg_varchar 128 msg"
  shows "dedup x dev msg db = Inr (False, db\<lparr>cb_messages := filter (\<lambda>m. \<not> ms_received m \<le> cx_now x - 24 * hour) (cb_messages db)\<rparr>)"
  using assms by (auto simp: dedup_def Let_def seen_message_def list_ex_iff)

lemma dedup_columns:
  "dedup x dev msg db = Inr res \<Longrightarrow> pg_varchar 64 dev \<and> pg_varchar 128 msg"
  by (auto simp: dedup_def Let_def require_Inr)

definition has_values :: "Event \<Rightarrow> bool" where
  "has_values e \<longleftrightarrow> ev_GenericProperties e \<noteq> None \<or> ev_props e \<noteq> []"

lemma store_values_messages:
  "ok (\<lambda>db'. cb_messages db' = cb_messages db) (store_values env x e d tenant schema db)"
  "ok (\<lambda>db'. cb_messages db' = cb_messages db) (store_generic_values env x e properties db)"
proof -
  have ev: "cb_messages db3 = cb_messages db2" if ev: "evaluate env x e props product pond db2 = Inr (out, db3)"
    for props product pond db2 out and db3 :: core_db
  proof -
    obtain p where "raise_alarms env x 12 e props pond p
        (filter (\<lambda>r. ru_PondID r = pond \<and> ru_Enabled r) (cb_rules db2)) db2 = Inr (out, db3)"
      using ev by (auto simp: evaluate_def after_Inr require_Inr)
    then show ?thesis using okD[OF raise_alarms_raised] unfolding raised_def by fastforce
  qed
  show "ok (\<lambda>db'. cb_messages db' = cb_messages db) (store_values env x e d tenant schema db)"
    unfolding store_values_def Let_def
    by (rule ok_require ok_take_or ok_after_pair ok_after ok_return |
        (drule ev, drule shadowUpsert_puts, (auto simp: require_Inr split: if_split_asm)[1]))+
  show "ok (\<lambda>db'. cb_messages db' = cb_messages db) (store_generic_values env x e properties db)"
    unfolding store_generic_values_def Let_def
    by (rule ok_require ok_list ok_pair ok_error ok_if ok_take_or ok_after_pair ok_after ok_return |
        (drule ev, drule genericShadowUpsert_puts, auto))+
qed

lemma stored_message_seen:
  assumes "HandleEvent env x e db = Inr db'" and "ev_Kind e = KindProperties" and "has_values e" and "ev_MessageID e \<noteq> []"
    and "\<not> seen_message (cx_now x) (ev_DeviceNo e) (ev_MessageID e) db"
  shows "\<lparr>ms_device = ev_DeviceNo e, ms_id = ev_MessageID e, ms_received = cx_now x\<rparr> \<in> set (cb_messages db') \<and>
    pg_varchar 64 (ev_DeviceNo e) \<and> pg_varchar 128 (ev_MessageID e)"
proof -
  have v: "ValidateEvent (\<lambda>raw. ce_json env raw \<noteq> None) e = None"
    using assms(1) by (auto simp: HandleEvent_def split: option.split_asm)
  obtain fresh db1 where d: "dedup x (ev_DeviceNo e) (ev_MessageID e) db = Inr (fresh, db1)"
    and k: "fresh \<Longrightarrow> cb_messages db' = cb_messages db1"
  proof (cases "ev_GenericProperties e")
    case (Some g)
    then have "storeGenericReading env x e g db = Inr db'" using assms(1,2) v by (simp add: HandleEvent_def)
    then show ?thesis using assms(4) that okD[OF store_values_messages(2)]
      by (auto simp: storeGenericReading_def iolink_simps split: if_split_asm)
  next
    case None
    then have "storeReading env x e db = Inr db'" using assms(1,2) v by (simp add: HandleEvent_def)
    then show ?thesis using assms(3,4) None that okD[OF store_values_messages(1)]
      by (auto simp: storeReading_def has_values_def iolink_simps split: if_split_asm list.split_asm)
  qed
  then show ?thesis using dedup_result[OF d] dedup_columns[OF d] assms(5) by auto
qed

lemma validate_at:
  assumes "\<not> is_zero t"
  shows "ValidateEvent J e = None \<Longrightarrow> ValidateEvent J (e\<lparr>ev_Ts := t\<rparr>) = None"
proof -
  have sel: "ev_Kind (e\<lparr>ev_Ts := t\<rparr>) = ev_Kind e" "ev_DeviceNo (e\<lparr>ev_Ts := t\<rparr>) = ev_DeviceNo e"
    "ev_MessageID (e\<lparr>ev_Ts := t\<rparr>) = ev_MessageID e" "ev_Properties (e\<lparr>ev_Ts := t\<rparr>) = ev_Properties e"
    "ev_GenericProperties (e\<lparr>ev_Ts := t\<rparr>) = ev_GenericProperties e" "ev_Ts (e\<lparr>ev_Ts := t\<rparr>) = t"
    by simp_all
  show "ValidateEvent J e = None \<Longrightarrow> ValidateEvent J (e\<lparr>ev_Ts := t\<rparr>) = None"
    unfolding ValidateEvent_def sel using assms by (auto split: if_split_asm)
qed

text \<open>C25: A report with a message identifier is stored once: when it arrives again within 24 hours of its
  first receipt, whatever else has happened to the tables in between as long as the device still has a
  live place and its message is remembered, it is answered as a success and changes nothing but that
  messages older than 24 hours are forgotten.\<close>

theorem repeated_report_stored_once:
  assumes "HandleEvent env x e db = Inr db1" and "ev_Kind e = KindProperties" and "has_values e" and "ev_MessageID e \<noteq> []"
    and "\<not> seen_message (cx_now x) (ev_DeviceNo e) (ev_MessageID e) db"
    and "set (cb_messages db1) \<subseteq> set (cb_messages s)" and "device_scope s (ev_DeviceNo e) \<noteq> []"
    and "cx_now x' < cx_now x + 24 * hour" and "\<And>n. \<not> cx_fails x' n" and "\<not> is_zero t"
  shows "HandleEvent env x' (e\<lparr>ev_Ts := t\<rparr>) s =
    Inr (s\<lparr>cb_messages := filter (\<lambda>m. \<not> ms_received m \<le> cx_now x' - 24 * hour) (cb_messages s)\<rparr>)"
proof -
  have c: "pg_varchar 64 (ev_DeviceNo e)" "pg_varchar 128 (ev_MessageID e)"
    using stored_message_seen[OF assms(1-5)] by auto
  have "seen_message (cx_now x') (ev_DeviceNo e) (ev_MessageID e) s"
    using stored_message_seen[OF assms(1-5)] assms(6,8) by (force simp: seen_message_def list_ex_iff)
  then have d: "dedup x' (ev_DeviceNo e) (ev_MessageID e) s =
      Inr (False, s\<lparr>cb_messages := filter (\<lambda>m. \<not> ms_received m \<le> cx_now x' - 24 * hour) (cb_messages s)\<rparr>)"
    using dedup_seen[of x'] c assms(9) by blast
  have v: "ValidateEvent (\<lambda>raw. ce_json env raw \<noteq> None) e = None"
    using assms(1) by (auto simp: HandleEvent_def split: option.split_asm)
  then have v': "ValidateEvent (\<lambda>raw. ce_json env raw \<noteq> None) (e\<lparr>ev_Ts := t\<rparr>) = None"
    using validate_at[OF assms(10)] by blast
  show ?thesis
  proof (cases "ev_GenericProperties e")
    case (Some g)
    then show ?thesis using v' assms(2,4,9) d by (simp add: HandleEvent_def storeGenericReading_def)
  next
    case None
    have "storeReading env x e db = Inr db1" using assms(1,2) None v by (simp add: HandleEvent_def)
    then show ?thesis
      using v' assms(2,3,4,7,9,10) None d
      by (auto simp: HandleEvent_def storeReading_def has_values_def ev_props_def require_Inr
          split: if_split_asm list.split option.split_asm)
  qed
qed

subsection \<open>The shadow\<close>

fun upsert_all ::
  "core_env \<Rightarrow> int \<Rightarrow> int \<Rightarrow> (core_tx \<times> Event \<times> int \<times> int) list \<Rightarrow> core_db \<Rightarrow> (core_error, core_db) result" where
  "upsert_all env pond product [] db = Inr db"
| "upsert_all env pond product ((x, e, tenant, version) # r) db =
     after (shadowUpsert env x e pond tenant product version db) (\<lambda>db. upsert_all env pond product r db)"

lemma merge_values_of:
  assumes "wf_map props"
  shows "merge_values ts props (vals, stamps) = (vals', stamps') \<Longrightarrow>
    map_of vals' k = (case map_of props k of None \<Rightarrow> map_of vals k
      | Some v \<Rightarrow> if (case map_of stamps k of None \<Rightarrow> False | Some p \<Rightarrow> ts < p) then map_of vals k else Some v) \<and>
    map_of stamps' k = (case map_of props k of None \<Rightarrow> map_of stamps k
      | Some v \<Rightarrow> if (case map_of stamps k of None \<Rightarrow> False | Some p \<Rightarrow> ts < p) then map_of stamps k else Some ts)"
  using assms
proof (induction props arbitrary: vals stamps)
  case (Cons kv r)
  obtain k' v where kv: "kv = (k', v)" by (cases kv)
  have w: "wf_map r" "map_of r k' = None" using Cons(3) by (auto simp: kv wf_map_def map_of_eq_None_iff)
  show ?case
  proof (cases "case map_of stamps k' of None \<Rightarrow> True | Some p \<Rightarrow> \<not> ts < p")
    case True
    then have "merge_values ts r (AList.update k' v vals, AList.update k' ts stamps) = (vals', stamps')"
      using Cons(2) by (simp add: kv)
    from Cons(1)[OF this w(1)] True show ?thesis using w(2) by (auto simp: kv split: option.splits)
  next
    case False
    then have "merge_values ts r (vals, stamps) = (vals', stamps')" using Cons(2) by (simp add: kv)
    from Cons(1)[OF this w(1)] False show ?thesis using w(2) by (auto simp: kv split: option.splits)
  qed
qed simp

text \<open>Event \<open>i\<close> has the newest value of metric \<open>k\<close>: the latest instant, and the last to arrive of those.\<close>

definition newest_at :: "Event list \<Rightarrow> string \<Rightarrow> nat \<Rightarrow> bool" where
  "newest_at es k i \<longleftrightarrow> i < length es \<and> map_of (ev_props (es ! i)) k \<noteq> None \<and>
     (\<forall>j < length es. map_of (ev_props (es ! j)) k \<noteq> None \<longrightarrow>
        ev_Ts (es ! j) < ev_Ts (es ! i) \<or> ev_Ts (es ! j) = ev_Ts (es ! i) \<and> j \<le> i)"

definition newest_of :: "Event list \<Rightarrow> (string \<times> float64) list \<Rightarrow> (string \<times> time) list \<Rightarrow> bool" where
  "newest_of es vals stamps \<longleftrightarrow> (\<forall>k. case map_of stamps k of
       None \<Rightarrow> map_of vals k = None \<and> (\<forall>e \<in> set es. map_of (ev_props e) k = None)
     | Some t \<Rightarrow> \<exists>i. newest_at es k i \<and> t = ev_Ts (es ! i) \<and> map_of vals k = map_of (ev_props (es ! i)) k)"

lemma newest_step:
  assumes "newest_of es vals stamps" and "wf_map (ev_props e)"
    and m: "merge_values (ev_Ts e) (ev_props e) (vals, stamps) = (vals', stamps')"
  shows "newest_of (es @ [e]) vals' stamps'"
  unfolding newest_of_def
proof
  fix k
  note mo = merge_values_of[OF assms(2) m, of k]
  have old: "case map_of stamps k of
       None \<Rightarrow> map_of vals k = None \<and> (\<forall>e \<in> set es. map_of (ev_props e) k = None)
     | Some t \<Rightarrow> \<exists>i. newest_at es k i \<and> t = ev_Ts (es ! i) \<and> map_of vals k = map_of (ev_props (es ! i)) k"
    using assms(1) by (simp add: newest_of_def)
  show "case map_of stamps' k of
       None \<Rightarrow> map_of vals' k = None \<and> (\<forall>e \<in> set (es @ [e]). map_of (ev_props e) k = None)
     | Some t \<Rightarrow> \<exists>i. newest_at (es @ [e]) k i \<and> t = ev_Ts ((es @ [e]) ! i) \<and>
         map_of vals' k = map_of (ev_props ((es @ [e]) ! i)) k"
  proof (cases "map_of (ev_props e) k")
    case None
    have "newest_at es k i \<Longrightarrow> newest_at (es @ [e]) k i \<and> (es @ [e]) ! i = es ! i" for i
      using None by (auto simp: newest_at_def nth_append less_Suc_eq)
    with old mo None show ?thesis by (auto split: option.splits) metis
  next
    case (Some v)
    show ?thesis
    proof (cases "case map_of stamps k of None \<Rightarrow> False | Some p \<Rightarrow> ev_Ts e < p")
      case True
      then obtain p i where p: "map_of stamps k = Some p" "ev_Ts e < p" "newest_at es k i" "p = ev_Ts (es ! i)"
        "map_of vals k = map_of (ev_props (es ! i)) k"
        using old by (auto split: option.splits)
      then have "newest_at (es @ [e]) k i \<and> (es @ [e]) ! i = es ! i"
        by (auto simp: newest_at_def nth_append less_Suc_eq)
      moreover have "map_of stamps' k = Some p" "map_of vals' k = map_of vals k" using mo Some True p(1) by simp_all
      ultimately show ?thesis using p(4,5) by auto
    next
      case False
      have "newest_at (es @ [e]) k (length es)"
      proof -
        have "ev_Ts (es ! j) < ev_Ts e \<or> ev_Ts (es ! j) = ev_Ts e"
          if "j < length es" "map_of (ev_props (es ! j)) k \<noteq> None" for j
        proof (cases "map_of stamps k")
          case None
          with old have "\<forall>e \<in> set es. map_of (ev_props e) k = None" by simp
          then have "map_of (ev_props (es ! j)) k = None" using that(1) by simp
          with that(2) show ?thesis by simp
        next
          case (Some p)
          with old obtain i where "newest_at es k i" "p = ev_Ts (es ! i)" by auto
          then have "ev_Ts (es ! j) \<le> p" using that by (auto simp: newest_at_def)
          moreover have "\<not> ev_Ts e < p" using False Some by simp
          ultimately show ?thesis by linarith
        qed
        with Some show ?thesis by (auto simp: newest_at_def nth_append less_Suc_eq)
      qed
      moreover have "map_of stamps' k = Some (ev_Ts e)" "map_of vals' k = Some v" using mo Some False by simp_all
      ultimately show ?thesis using Some by (auto intro!: exI[of _ "length es"])
    qed
  qed
qed

lemma decode_encode:
  "\<forall>kv \<in> set vs. number_of env (ce_stored env (ce_marshal env (snd kv))) = Some (snd kv) \<Longrightarrow>
   decode_numbers env (encode_numbers env vs) = Some vs"
  by (induction vs) (auto simp: encode_numbers_def split_beta)

lemma merge_values_from:
  "merge_values ts props (vals, stamps) = (vals', stamps') \<Longrightarrow> snd ` set vals' \<subseteq> snd ` set vals \<union> snd ` set props"
proof (induction props arbitrary: vals stamps)
  case (Cons kv r)
  have u: "snd ` set (AList.update k v m) \<subseteq> insert v (snd ` set m)" for k and v :: 'a and m :: "(string \<times> 'a) list"
    by (induction m) auto
  obtain k v where kv: "kv = (k, v)" by (cases kv)
  obtain vals1 stamps1 where n: "merge_values ts r (vals1, stamps1) = (vals', stamps')"
    and v1: "vals1 = vals \<or> vals1 = AList.update k v vals"
    using Cons(2) by (auto simp: kv split: if_split_asm)
  show ?case using Cons(1)[OF n] v1 u[of k v vals] by (auto simp: kv)
qed simp

lemma shadow_of_put: "sh_device row = dev \<Longrightarrow> shadow_of (put_shadow row db) dev = Some row"
proof -
  have "list_ex (\<lambda>s. sh_device s = sh_device row) l \<Longrightarrow>
      find (\<lambda>s. sh_device s = sh_device row) (map (\<lambda>s. if sh_device s = sh_device row then row else s) l) = Some row"
    and "\<not> list_ex (\<lambda>s. sh_device s = sh_device row) l \<Longrightarrow>
      find (\<lambda>s. sh_device s = sh_device row) (l @ [row]) = Some row" for l :: "shadow_row list"
    by (induction l) auto
  then show "sh_device row = dev \<Longrightarrow> shadow_of (put_shadow row db) dev = Some row"
    by (auto simp: shadow_of_def put_shadow_def)
qed

text \<open>What the shadow of a device holds after the events \<open>es\<close> at one place.\<close>

definition shadow_holds :: "core_env \<Rightarrow> string \<Rightarrow> int \<Rightarrow> int \<Rightarrow> Event list \<Rightarrow> core_db \<Rightarrow> bool" where
  "shadow_holds env dev pond product es db \<longleftrightarrow>
     (case shadow_of db dev of
        None \<Rightarrow> es = []
      | Some row \<Rightarrow>
          if sh_pond row = Some pond \<and> sh_product row = product then
            (\<exists>vals. decode_numbers env (sh_last row) = Some vals \<and> newest_of es vals (sh_stamps row) \<and>
               snd ` set vals \<subseteq> (\<Union>e \<in> set es. snd ` set (ev_props e)))
          else es = [])"

lemma newest_of_nil [simp]: "newest_of [] [] []"
  by (simp add: newest_of_def)

lemma shadow_step:
  assumes "shadowUpsert env x e pond tenant product version db = Inr db'" and "shadow_holds env (ev_DeviceNo e) pond product es db"
    and "wf_map (ev_props e)"
    and json: "\<And>v. v \<in> snd ` set (ev_props e) \<union> (\<Union>e \<in> set es. snd ` set (ev_props e)) \<Longrightarrow>
      number_of env (ce_stored env (ce_marshal env v)) = Some v"
  shows "shadow_holds env (ev_DeviceNo e) pond product (es @ [e]) db'"
proof -
  obtain vals stamps latest where st: "(case shadow_of db (ev_DeviceNo e) of
               None \<Rightarrow> Inr ([], [], ev_Ts e)
             | Some row \<Rightarrow>
                 if sh_pond row = Some pond \<and> sh_product row = product then
                   take_or (decode_numbers env (sh_last row)) CDecode (\<lambda>values. Inr (values, sh_stamps row, sh_ts row))
                 else Inr ([], [], ev_Ts e)) = Inr (vals, stamps, latest)"
    using assms(1) by (auto simp: shadowUpsert_def require_Inr after_Inr)
  obtain vals' stamps' where m: "merge_values (ev_Ts e) (ev_props e) (vals, stamps) = (vals', stamps')"
    by (metis prod.collapse)
  have db': "\<exists>ts sig. db' = put_shadow \<lparr>sh_device = ev_DeviceNo e, sh_last = encode_numbers env vals', sh_signal = sig,
      sh_ts = ts, sh_pond = Some pond, sh_tenant = tenant, sh_stamps = stamps', sh_version = version, sh_product = product\<rparr> db"
    using assms(1) st m by (auto simp: shadowUpsert_def require_Inr)
  have old: "newest_of es vals stamps \<and> snd ` set vals \<subseteq> (\<Union>e \<in> set es. snd ` set (ev_props e))"
  proof (cases "shadow_of db (ev_DeviceNo e)")
    case None
    with assms(2) st show ?thesis by (simp add: shadow_holds_def)
  next
    case (Some row)
    show ?thesis
    proof (cases "sh_pond row = Some pond \<and> sh_product row = product")
      case True
      with Some assms(2) st show ?thesis by (auto simp: shadow_holds_def take_or_Inr)
    next
      case False
      with Some have "vals = [] \<and> stamps = []" "es = []" using assms(2) st by (auto simp: shadow_holds_def)
      then show ?thesis by simp
    qed
  qed
  have "newest_of (es @ [e]) vals' stamps'" using newest_step[OF _ assms(3) m] old by blast
  moreover have sub: "snd ` set vals' \<subseteq> (\<Union>e \<in> set (es @ [e]). snd ` set (ev_props e))"
  proof -
    have "snd ` set vals' \<subseteq> (\<Union>e \<in> set es. snd ` set (ev_props e)) \<union> snd ` set (ev_props e)"
      by (rule order_trans[OF merge_values_from[OF m]], rule Un_mono[OF conjunct2[OF old] order_refl])
    then show ?thesis by (simp add: Un_commute)
  qed
  moreover have "decode_numbers env (encode_numbers env vals') = Some vals'"
  proof (rule decode_encode, rule ballI, rule json)
    fix kv assume "kv \<in> set vals'"
    then have "snd kv \<in> (\<Union>e \<in> set (es @ [e]). snd ` set (ev_props e))" using sub by blast
    then show "snd kv \<in> snd ` set (ev_props e) \<union> (\<Union>e \<in> set es. snd ` set (ev_props e))" by auto
  qed
  ultimately show ?thesis using db' shadow_of_put by (auto simp: shadow_holds_def)
qed

text \<open>C26: The shadow of a device has the newest value of each metric, in whatever order the reports arrive:
  after any sequence of upserts for one device at one pond and product, starting without a shadow there,
  the instant of a metric is the latest of the reports that carry it and its value the one of the last
  report with that instant; a metric no report carried has no value. (JSON and the database give back
  the numbers the reports carry.)\<close>

theorem shadow_keeps_newest:
  assumes "upsert_all env pond product calls db = Inr db'" and "calls \<noteq> []"
    and "shadow_of db dev = None \<or> (\<exists>row. shadow_of db dev = Some row \<and> (sh_pond row \<noteq> Some pond \<or> sh_product row \<noteq> product))"
    and "\<forall>(x, e, tenant, version) \<in> set calls. ev_DeviceNo e = dev \<and> wf_map (ev_props e) \<and>
      (\<forall>(k, v) \<in> set (ev_props e). number_of env (ce_stored env (ce_marshal env v)) = Some v)"
  shows "\<exists>row vals. shadow_of db' dev = Some row \<and> sh_pond row = Some pond \<and> sh_product row = product \<and>
    decode_numbers env (sh_last row) = Some vals \<and>
    newest_of (map (\<lambda>(x, e, tenant, version). e) calls) vals (sh_stamps row)"
proof -
  have "shadow_holds env dev pond product (es @ map (\<lambda>(x, e, tenant, version). e) calls) db'"
    if "upsert_all env pond product calls db = Inr db'" "shadow_holds env dev pond product es db"
      "\<forall>(x, e, tenant, version) \<in> set calls. ev_DeviceNo e = dev \<and> wf_map (ev_props e) \<and>
        (\<forall>(k, v) \<in> set (ev_props e). number_of env (ce_stored env (ce_marshal env v)) = Some v)"
      "\<forall>e \<in> set es. \<forall>(k, v) \<in> set (ev_props e). number_of env (ce_stored env (ce_marshal env v)) = Some v" for es
    using that
  proof (induction calls arbitrary: es db)
    case (Cons c calls)
    obtain x e tenant version where c: "c = (x, e, tenant, version)" by (cases c)
    obtain db1 where db1: "shadowUpsert env x e pond tenant product version db = Inr db1"
      "upsert_all env pond product calls db1 = Inr db'"
      using Cons.prems(1) by (auto simp: c after_Inr)
    have e: "ev_DeviceNo e = dev" "wf_map (ev_props e)"
      "\<forall>(k, v) \<in> set (ev_props e). number_of env (ce_stored env (ce_marshal env v)) = Some v"
      using Cons.prems(3) by (auto simp: c)
    have "shadow_holds env dev pond product (es @ [e]) db1"
      using shadow_step[OF db1(1) _ e(2)] Cons.prems(2,4) e by fastforce
    from Cons.IH[OF db1(2) this] Cons.prems(3,4) e show ?case by (auto simp: c)
  qed simp
  note run = this
  have "shadow_holds env dev pond product [] db" using assms(3) by (auto simp: shadow_holds_def)
  from run[OF assms(1) this assms(4)]
  have h: "shadow_holds env dev pond product (map (\<lambda>(x, e, tenant, version). e) calls) db'" by simp
  then show ?thesis using assms(2) by (auto simp: shadow_holds_def split: option.split_asm if_split_asm)
qed

end
