(* ===== verification/Alarm_Delivery.thy ===== *)
theory Alarm_Delivery
  imports Core_Facts
begin

text \<open>
  The notification workers over the queue of the core: a claim takes the first entry that is due, no
  entry stays with a worker that is gone, a burst of rounds ends, and an alarm that is due reaches the
  sender, together with the way of a report from the broker to the queue.
\<close>

subsection \<open>What a claim takes\<close>

lemma candidates_first:
  assumes "o1 # r = candidates x now m db" and "o2 \<in> set (cb_outbox db)" "due_entry now m o2"
    "deliverable db (cx_now (nx_tx x)) o2" "\<not> nx_skip x (ob_id o2)"
  shows "(ob_next_at o1, ob_id o1) \<le> (ob_next_at o2, ob_id o2)"
proof -
  have "o2 \<in> set (o1 # r)" using assms(2-5) by (simp add: assms(1) candidates_def)
  moreover have "sorted (map (\<lambda>o1. (ob_next_at o1, ob_id o1)) (o1 # r))"
    unfolding assms(1) candidates_def by (rule sorted_sort_key)
  ultimately show ?thesis by auto
qed

lemma candidates_none:
  "candidates x now m db = [] \<Longrightarrow> o2 \<in> set (cb_outbox db) \<Longrightarrow> due_entry now m o2 \<Longrightarrow>
   deliverable db (cx_now (nx_tx x)) o2 \<Longrightarrow> nx_skip x (ob_id o2)"
proof (rule ccontr)
  assume c: "candidates x now m db = []" and due: "o2 \<in> set (cb_outbox db)" "due_entry now m o2"
    "deliverable db (cx_now (nx_tx x)) o2" "\<not> nx_skip x (ob_id o2)"
  from due have "o2 \<in> set (candidates x now m db)" unfolding candidates_def by simp
  then show False unfolding c by simp
qed

lemma deliverable_cong:
  assumes "cb_alarms a = cb_alarms b" "cb_ponds a = cb_ponds b" "cb_farms a = cb_farms b"
    "cb_tenants a = cb_tenants b" "cb_members a = cb_members b" "ob_alarm o1 = ob_alarm o2"
  shows "deliverable a now o1 = deliverable b now o2"
  unfolding deliverable_def alarm_places_def member_in_force_def assms ..

lemma deliverable_outbox [simp]: "deliverable (db\<lparr>cb_outbox := os\<rparr>) now o1 = deliverable db now o1"
  by (rule deliverable_cong) simp_all

lemma due_not_given_up: "due_entry now m o1 \<Longrightarrow> give_up now m o1 = o1"
  by (auto simp: due_entry_def give_up_def)

lemma give_up_due: "due_entry now m (give_up now m o1) \<Longrightarrow> give_up now m o1 = o1"
  by (auto simp: due_entry_def give_up_def split: if_split_asm)

text \<open>A claim that the database carries out takes, of the entries that are due and not locked by another
  worker, the one with the least next instant and identifier, and with it the next attempt, or finds
  that there is none; and no other entry is left with a lease that is over and no attempt left: the
  worker that had it is given up and its entry ends as unknown.\<close>

theorem claim_takes_first_due_entry:
  assumes "npg_Claim x s now lease m = ((c, found, None), s')"
  shows "(\<forall>o1 \<in> set (cb_outbox s). due_entry (ce_time (nx_env x) now) m o1 \<longrightarrow> deliverable s (cx_now (nx_tx x)) o1 \<longrightarrow>
      \<not> nx_skip x (ob_id o1) \<longrightarrow>
      found \<and> (\<exists>o2 \<in> set (cb_outbox s). ob_id o2 = nc_ID c \<and> nc_Attempts c = ob_attempts o2 + 1 \<and>
        (ob_next_at o2, ob_id o2) \<le> (ob_next_at o1, ob_id o1))) \<and>
    (\<forall>o1 \<in> set (cb_outbox s'). \<not> (found \<and> ob_id o1 = nc_ID c) \<longrightarrow>
      \<not> (ob_status o1 = ''processing'' \<and> lease_over (ce_time (nx_env x) now) o1 \<and> m \<le> ob_attempts o1))"
proof -
  let ?now = "ce_time (nx_env x) now"
  let ?db = "s\<lparr>cb_outbox := map (give_up ?now m) (cb_outbox s)\<rparr>"
  have gone: "\<not> (ob_status (give_up ?now m o1) = ''processing'' \<and> lease_over ?now (give_up ?now m o1) \<and>
      m \<le> ob_attempts (give_up ?now m o1))" for o1
    by (auto simp: give_up_def)
  have same: "o1 \<in> set (cb_outbox ?db)" if "o1 \<in> set (cb_outbox s)" "due_entry ?now m o1" for o1
    using that due_not_given_up[OF that(2)] by force
  from assms show ?thesis
  proof (cases rule: npg_Claim_cases)
    case empty
    then show ?thesis
      using candidates_none[of x ?now m ?db] same gone by auto
  next
    case (granted o1 d r)
    have "ob_id o1 = nc_ID c" "nc_Attempts c = ob_attempts o1 + 1" using granted(5) by simp_all
    moreover have "o1 \<in> set (cb_outbox s)"
    proof -
      obtain e where "o1 = give_up ?now m e" "e \<in> set (cb_outbox s)" "due_entry ?now m o1"
        using candidate_in[OF granted(3)] by auto
      then show ?thesis using give_up_due by metis
    qed
    moreover have "(ob_next_at o1, ob_id o1) \<le> (ob_next_at o2, ob_id o2)"
      if "o2 \<in> set (cb_outbox s)" "due_entry ?now m o2" "deliverable s (cx_now (nx_tx x)) o2" "\<not> nx_skip x (ob_id o2)" for o2
      using candidates_first[OF granted(3) same[OF that(1,2)] that(2) _ that(4)] that(3) by simp
    moreover have "\<not> (ob_status o2 = ''processing'' \<and> lease_over ?now o2 \<and> m \<le> ob_attempts o2)"
      if "o2 \<in> set (cb_outbox s')" "\<not> (found \<and> ob_id o2 = nc_ID c)" for o2
    proof -
      obtain e where e: "o2 = lease_entry (ob_id o1) (ce_time (nx_env x) (now + lease)) (nx_token x) (give_up ?now m e)"
        using \<open>o2 \<in> set (cb_outbox s')\<close> unfolding granted(4) by auto
      have "ob_id e \<noteq> ob_id o1" using that(2) e granted(1) \<open>ob_id o1 = nc_ID c\<close> by auto
      then have "o2 = give_up ?now m e" unfolding e lease_entry_def by simp
      then show ?thesis using gone[of e] by simp
    qed
    ultimately show ?thesis using granted(1) by blast
  qed simp
qed

subsection \<open>A round that meets no failure\<close>

lemma deliverable_delivery: "deliverable db now o1 \<Longrightarrow> \<exists>d. delivery_of db now (ob_alarm o1) = Some d \<and> dl_AlarmID d = ob_alarm o1"
proof -
  assume "deliverable db now o1"
  then obtain a ft where "a \<in> set (cb_alarms db)" "al_ID a = ob_alarm o1" "ft \<in> set (alarm_places db a)"
    by (auto simp: deliverable_def list_ex_iff)
  then have "(a, ft) \<in> set [(a, ft). a \<leftarrow> cb_alarms db, al_ID a = ob_alarm o1, ft \<leftarrow> alarm_places db a]" by auto
  then show ?thesis
    unfolding delivery_of_def by (cases "[(a, ft). a \<leftarrow> cb_alarms db, al_ID a = ob_alarm o1, ft \<leftarrow> alarm_places db a]") auto
qed

lemma places_outbox: "alarm_places (db\<lparr>cb_outbox := os\<rparr>) a = alarm_places db a"
  "member_in_force (db\<lparr>cb_outbox := os\<rparr>) now t u = member_in_force db now t u"
  by (simp_all add: alarm_places_def member_in_force_def cong del: if_weak_cong)

lemma recipient_outbox: "recipient_of (db\<lparr>cb_outbox := os\<rparr>) now ft = recipient_of db now ft"
  unfolding recipient_of_def places_outbox by (simp cong: option.case_cong)

lemma delivery_of_outbox [simp]: "delivery_of (db\<lparr>cb_outbox := os\<rparr>) now alarm = delivery_of db now alarm"
  unfolding delivery_of_def places_outbox recipient_outbox by simp

lemma held_once:
  assumes "distinct (map ob_id os)" "o1 \<in> set os" "ob_id o1 = nc_ID c"
  shows "length (filter (held_by c) (map (lease_entry (nc_ID c) until (nc_LeaseToken c)) os)) = 1"
proof -
  have "filter (held_by c \<circ> lease_entry (nc_ID c) until (nc_LeaseToken c)) os = filter (\<lambda>o2. ob_id o2 = nc_ID c) os"
    by (rule filter_cong) (auto simp: held_by_def lease_entry_def)
  moreover have "length (filter (\<lambda>o2. ob_id o2 = nc_ID c) os) = 1"
    using assms by (induction os) (auto simp: filter_empty_conv image_iff)
  ultimately show ?thesis by (simp add: filter_map)
qed

text \<open>The entry a sender that does not fail has been given, or that has no recipient, and the others after the round.\<close>

definition settled :: "core_env \<Rightarrow> time \<Rightarrow> Delivery \<Rightarrow> outbox_row \<Rightarrow> outbox_row" where
  "settled env t2 d o1 =
     o1\<lparr>ob_status := (if dl_RecipientID d = [] then ''disabled'' else ''sent''), ob_attempts := ob_attempts o1 + 1,
        ob_next_at := ce_time env t2, ob_leased_until := None, ob_lease_owner := None,
        ob_last_error := (if dl_RecipientID d = [] then Some (sx_text disabled_error) else None),
        ob_recipient := nonempty (dl_RecipientID d)\<rparr>"

definition settle :: "core_env \<Rightarrow> time \<Rightarrow> int \<Rightarrow> time \<Rightarrow> Delivery \<Rightarrow> int \<Rightarrow> outbox_row \<Rightarrow> outbox_row" where
  "settle env now m t2 d k o1 = (if ob_id o1 = k then settled env t2 d (give_up now m o1) else give_up now m o1)"

text \<open>No statement fails, no row is locked and the sender accepts what it is given.\<close>

definition clean_round :: "notify_tx \<Rightarrow> core_db round_env \<Rightarrow> bool" where
  "clean_round x e \<longleftrightarrow> cx_fails (nx_tx x) = (\<lambda>_. False) \<and> nx_skip x = (\<lambda>_. False) \<and> re_store e = npg_ops x \<and>
     re_sender e = Some (\<lambda>_. None)"

lemma clean_round_settles:
  assumes i: "npg_inv s" and c: "clean_round x e" and o1: "o1 \<in> set (cb_outbox s)"
    "due_entry (ce_time (nx_env x) (re_claimed_at e)) (nw_MaxAttempts cfg) o1" "deliverable s (cx_now (nx_tx x)) o1"
    and r: "round_in cfg e s = ((found, err, sent), s')"
  shows "\<exists>o2 d. o2 \<in> set (cb_outbox s) \<and> (ob_next_at o2, ob_id o2) \<le> (ob_next_at o1, ob_id o1) \<and>
    \<not> final_status (ob_status o2) \<and> found \<and>
    delivery_of s (cx_now (nx_tx x)) (ob_alarm o2) = Some d \<and> dl_AlarmID d = ob_alarm o2 \<and>
    sent = (if dl_RecipientID d = [] then [] else [d]) \<and>
    s' = s\<lparr>cb_outbox := map (settle (nx_env x) (ce_time (nx_env x) (re_claimed_at e)) (nw_MaxAttempts cfg)
      (re_finished_at e) d (ob_id o2)) (cb_outbox s)\<rparr>"
proof -
  let ?now = "ce_time (nx_env x) (re_claimed_at e)" and ?m = "nw_MaxAttempts cfg"
  let ?db = "s\<lparr>cb_outbox := map (give_up ?now ?m) (cb_outbox s)\<rparr>"
  have in_db: "o1 \<in> set (cb_outbox ?db)" using o1(1) due_not_given_up[OF o1(2)] by force
  have nf: "cx_fails (nx_tx x) k = False" "nx_skip x k' = False" for k k' using c by (simp_all add: clean_round_def)
  obtain o2 r2 where cand: "o2 # r2 = candidates x ?now ?m ?db"
    using candidates_none[OF _ in_db o1(2)] o1(3) nf by (cases "candidates x ?now ?m ?db") auto
  have le: "(ob_next_at o2, ob_id o2) \<le> (ob_next_at o1, ob_id o1)"
    using candidates_first[OF cand in_db o1(2)] o1(3) nf by simp
  obtain f where f: "o2 = give_up ?now ?m f" "f \<in> set (cb_outbox s)" "due_entry ?now ?m o2" "deliverable s (cx_now (nx_tx x)) o2"
    using candidate_in[OF cand] by auto
  then have in_s: "o2 \<in> set (cb_outbox s)" using give_up_due by metis
  obtain d where d: "delivery_of s (cx_now (nx_tx x)) (ob_alarm o2) = Some d" "dl_AlarmID d = ob_alarm o2"
    using deliverable_delivery[OF f(4)] by blast
  let ?c = "\<lparr>nc_ID = ob_id o2, nc_Attempts = ob_attempts o2 + 1, nc_LeaseToken = nx_token x, nc_Delivery = d\<rparr>"
  let ?sent = "fst (attempt_send (Some (\<lambda>_. None)) d)"
  let ?until = "ce_time (nx_env x) (re_claimed_at e + nw_LeaseDuration cfg)"
  let ?s1 = "s\<lparr>cb_outbox := map (lease_entry (ob_id o2) ?until (nx_token x)) (map (give_up ?now ?m) (cb_outbox s))\<rparr>"
  have claim: "npg_Claim x s (re_claimed_at e) (nw_LeaseDuration cfg) ?m = ((?c, True, None), ?s1)"
    by (simp add: npg_Claim_def nf Let_def cand[symmetric] d(1) no_claim_def)
  have "distinct (map ob_id (cb_outbox ?db))" using i by (simp add: npg_inv_def comp_def)
  then have once: "length (filter (held_by ?c) (cb_outbox ?s1)) = 1"
    using held_once[of "cb_outbox ?db" o2 ?c ?until] candidate_in[OF cand] by simp
  have fin: "finish_entry (nx_env x) ?c (delivery_result cfg (re_finished_at e) (ob_attempts o2 + 1) ?sent) (lease_entry (ob_id o2) ?until (nx_token x) (give_up ?now ?m o3)) =
      settle (nx_env x) ?now ?m (re_finished_at e) d (ob_id o2) o3" for o3
    by (simp add: settle_def settled_def finish_entry_def held_by_def lease_entry_def delivery_result_def attempt_send_def
        disabled_error_def nonempty_def)
  let ?s2 = "s\<lparr>cb_outbox := map (settle (nx_env x) ?now ?m (re_finished_at e) d (ob_id o2)) (cb_outbox s)\<rparr>"
  have finish: "npg_Finish x ?s1 ?c (delivery_result cfg (re_finished_at e) (ob_attempts o2 + 1) ?sent) (re_finished_at e) =
      (None, ?s2)"
    unfolding npg_Finish_def nf once by (simp add: fin)
  have "round_in cfg e s = ((True, err, if dl_RecipientID d = [] then [] else [d]), s') \<and> s' = s\<lparr>cb_outbox := map
      (settle (nx_env x) ?now ?m (re_finished_at e) d (ob_id o2)) (cb_outbox s)\<rparr>"
  proof (cases "dl_RecipientID d = []")
    case True
    with finish claim show ?thesis using r c
      by (simp add: round_in_def RunOnce_def clean_round_def npg_ops_def attempt_send_def Let_def)
  next
    case False
    with finish claim show ?thesis using r c
      by (simp add: round_in_def RunOnce_def clean_round_def npg_ops_def attempt_send_def Let_def)
  qed
  with r have "found" "sent = (if dl_RecipientID d = [] then [] else [d])" "s' = s\<lparr>cb_outbox := map
      (settle (nx_env x) ?now ?m (re_finished_at e) d (ob_id o2)) (cb_outbox s)\<rparr>" by (simp_all del: if_splits)
  then show ?thesis using in_s le due_not_final[OF f(3)] d by (intro exI conjI)
qed

lemma filter_shorter:
  assumes "\<And>y. y \<in> set ys \<Longrightarrow> Q y \<Longrightarrow> P y" and "z \<in> set ys" "P z" "\<not> Q z"
  shows "length (filter Q ys) < length (filter P ys)"
proof -
  have "filter Q ys = filter Q (filter P ys)" unfolding filter_filter by (rule filter_cong) (use assms(1) in auto)
  moreover have "length (filter Q (filter P ys)) < length (filter P ys)"
    by (rule length_filter_less[of z]) (use assms in simp_all)
  ultimately show ?thesis by simp
qed

subsection \<open>Every due alarm is reached\<close>

text \<open>The entries before one in the queue; the queue after some rounds of the loop of \<open>Run\<close>, which waits but does not stop.\<close>

definition earlier :: "outbox_row \<Rightarrow> core_db \<Rightarrow> nat" where
  "earlier o1 s = length (filter (\<lambda>o2. \<not> final_status (ob_status o2) \<and> (ob_next_at o2, ob_id o2) < (ob_next_at o1, ob_id o1))
     (cb_outbox s))"

primrec after_rounds :: "notify_config \<Rightarrow> (nat \<Rightarrow> 's round_env) \<Rightarrow> nat \<Rightarrow> 's \<Rightarrow> 's" where
  "after_rounds cfg env 0 s = s"
| "after_rounds cfg env (Suc n) s = after_rounds cfg (\<lambda>i. env (Suc i)) n (snd (round_in cfg (env 0) s))"

lemma settle_keeps:
  "ob_id (settle env now m t2 d k o1) = ob_id o1"
  "ob_id o1 \<noteq> k \<Longrightarrow> settle env now m t2 d k o1 = give_up now m o1"
  "ob_next_at (give_up now m o1) = ob_next_at o1"
  "ob_id o1 = k \<Longrightarrow> ob_status (settle env now m t2 d k o1) = (if dl_RecipientID d = [] then ''disabled'' else ''sent'')"
  by (simp_all add: settle_def settled_def give_up_def)

lemma earlier_less:
  assumes "o2 \<in> set (cb_outbox s)" "\<not> final_status (ob_status o2)" "(ob_next_at o2, ob_id o2) < (ob_next_at o1, ob_id o1)"
  shows "earlier o1 (s\<lparr>cb_outbox := map (settle env now m t2 d (ob_id o2)) (cb_outbox s)\<rparr>) < earlier o1 s"
proof -
  have "\<not> final_status (ob_status e) \<and> (ob_next_at e, ob_id e) < (ob_next_at o1, ob_id o1)"
    if "\<not> final_status (ob_status (settle env now m t2 d (ob_id o2) e))"
      "(ob_next_at (settle env now m t2 d (ob_id o2) e), ob_id e) < (ob_next_at o1, ob_id o1)" for e
  proof (cases "ob_id e = ob_id o2")
    case True
    then show ?thesis using that(1) settle_keeps(4)[OF True] by (simp add: final_status_def split: if_split_asm)
  next
    case False
    show ?thesis using that give_up_final[of e now m] unfolding settle_keeps(2)[OF False] settle_keeps(3) by metis
  qed
  moreover have "final_status (ob_status (settle env now m t2 d (ob_id o2) o2))"
    by (simp add: settle_keeps(4) final_status_def)
  moreover have "earlier o1 (s\<lparr>cb_outbox := map (settle env now m t2 d (ob_id o2)) (cb_outbox s)\<rparr>) =
      length (filter (\<lambda>e. \<not> final_status (ob_status (settle env now m t2 d (ob_id o2) e)) \<and>
        (ob_next_at (settle env now m t2 d (ob_id o2) e), ob_id e) < (ob_next_at o1, ob_id o1)) (cb_outbox s))"
    by (simp add: earlier_def filter_map comp_def settle_keeps(1))
  ultimately show ?thesis
    unfolding earlier_def[of o1 s] by (simp only:) (rule filter_shorter[of _ _ _ o2], use assms in blast, use assms in simp_all)
qed

lemma reaches_due_entry:
  assumes "npg_inv s" "o1 \<in> set (cb_outbox s)"
    and "\<And>i. i \<le> earlier o1 s \<Longrightarrow> clean_round (x i) (env i)"
    and "\<And>i. i \<le> earlier o1 s \<Longrightarrow> due_entry (ce_time (nx_env (x i)) (re_claimed_at (env i))) (nw_MaxAttempts cfg) o1"
    and "\<And>i. i \<le> earlier o1 s \<Longrightarrow> deliverable s (cx_now (nx_tx (x i))) o1"
  shows "\<exists>i err d s2. i \<le> earlier o1 s \<and>
    round_in cfg (env i) (after_rounds cfg env i s) = ((True, err, if dl_RecipientID d = [] then [] else [d]), s2) \<and>
    delivery_of s (cx_now (nx_tx (x i))) (ob_alarm o1) = Some d \<and> dl_AlarmID d = ob_alarm o1 \<and>
    map_option ob_status (entry_of s2 (ob_id o1)) = Some (if dl_RecipientID d = [] then ''disabled'' else ''sent'')"
  using assms
proof (induction "earlier o1 s" arbitrary: s x env rule: less_induct)
  case less
  let ?now = "ce_time (nx_env (x 0)) (re_claimed_at (env 0))"
  obtain found err sent s' where r: "round_in cfg (env 0) s = ((found, err, sent), s')" by (metis prod.collapse)
  from clean_round_settles[OF less(2) less(4)[of 0] less(3) less(5)[of 0] less(6)[of 0] r] obtain o2 d where
    o2: "o2 \<in> set (cb_outbox s)" "(ob_next_at o2, ob_id o2) \<le> (ob_next_at o1, ob_id o1)" "\<not> final_status (ob_status o2)"
    and f: "found" "delivery_of s (cx_now (nx_tx (x 0))) (ob_alarm o2) = Some d" "dl_AlarmID d = ob_alarm o2"
      "sent = (if dl_RecipientID d = [] then [] else [d])"
    and s': "s' = s\<lparr>cb_outbox := map (settle (nx_env (x 0)) ?now (nw_MaxAttempts cfg) (re_finished_at (env 0)) d (ob_id o2))
      (cb_outbox s)\<rparr>" by blast
  have e: "entry_of s' (ob_id o1) = Some (settle (nx_env (x 0)) ?now (nw_MaxAttempts cfg) (re_finished_at (env 0)) d (ob_id o2) o1)"
    unfolding s' entry_of_map[of "settle _ _ _ _ _ _", OF settle_keeps(1)]
    using entry_of_in[OF less(2,3)] by (simp add: entry_of_def)
  show ?case
  proof (cases "ob_id o2 = ob_id o1")
    case True
    then have "o2 = o1" using entry_of_in[OF less(2,3)] entry_of_in[OF less(2) o2(1)] by simp
    then show ?thesis using r f e by (intro exI[of _ 0] exI[of _ err] exI[of _ d] exI[of _ s']) (simp add: settle_keeps(4))
  next
    case False
    then have "(ob_next_at o2, ob_id o2) < (ob_next_at o1, ob_id o1)" using o2(2) by auto
    then have l: "earlier o1 s' < earlier o1 s" unfolding s' by (rule earlier_less[OF o2(1,3)])
    have "npg_inv s'" using less(2) unfolding s' by (simp add: npg_inv_map settle_keeps(1))
    moreover have "settle (nx_env (x 0)) ?now (nw_MaxAttempts cfg) (re_finished_at (env 0)) d (ob_id o2) o1 = o1"
      using False due_not_given_up[OF less(5)[of 0]] by (simp add: settle_def)
    then have "o1 \<in> set (cb_outbox s')" using entry_of_some[OF e] by simp
    moreover have "Suc i \<le> earlier o1 s" if "i \<le> earlier o1 s'" for i using that l by simp
    moreover have "deliverable s' now o1 = deliverable s now o1" for now by (simp add: s')
    ultimately obtain i err' d' s2 where
      "i \<le> earlier o1 s'" "round_in cfg (env (Suc i)) (after_rounds cfg (\<lambda>i. env (Suc i)) i s') =
         ((True, err', if dl_RecipientID d' = [] then [] else [d']), s2)"
      "delivery_of s' (cx_now (nx_tx (x (Suc i)))) (ob_alarm o1) = Some d'" "dl_AlarmID d' = ob_alarm o1"
      "map_option ob_status (entry_of s2 (ob_id o1)) = Some (if dl_RecipientID d' = [] then ''disabled'' else ''sent'')"
      using less(1)[OF l, of "\<lambda>i. x (Suc i)" "\<lambda>i. env (Suc i)"] less(4-6) by force
    then show ?thesis using l r
      by (intro exI[of _ "Suc i"] exI[of _ err'] exI[of _ d'] exI[of _ s2]) (simp add: s')
  qed
qed

text \<open>C27: The loop of the worker comes to rest: whatever fails and whatever the sender answers, a burst of rounds
  ends, after no more rounds than there are attempts left over all entries of the queue.\<close>

theorem worker_burst_ends:
  assumes "npg_inv s" and "\<forall>i. \<exists>x. re_store (env i) = npg_ops x"
  shows "\<exists>j s'. burst cfg env 0 s = Some (j, s') \<and> j \<le> (\<Sum>k \<in> npg_entries s. nat (nw_MaxAttempts cfg - npg_tries s k))"
  using npg.burst_ends[of s env cfg 0] assms by (auto simp: npg.left_over_def)

text \<open>C28: A due alarm is delivered: while the database and the sender do their work and the clock keeps the entry
  due, one of the next rounds takes it, after no more rounds than there are open entries before it: the sender
  is given its alarm if it has a recipient, and its entry ends as sent, or as disabled if it has none.\<close>

theorem due_alarm_is_delivered:
  assumes "npg_inv s" "o1 \<in> set (cb_outbox s)"
    and "\<forall>i \<le> earlier o1 s. clean_round (x i) (env i) \<and>
      due_entry (ce_time (nx_env (x i)) (re_claimed_at (env i))) (nw_MaxAttempts cfg) o1 \<and>
      deliverable s (cx_now (nx_tx (x i))) o1"
  shows "\<exists>i err d s2. i \<le> earlier o1 s \<and>
    round_in cfg (env i) (after_rounds cfg env i s) = ((True, err, if dl_RecipientID d = [] then [] else [d]), s2) \<and>
    delivery_of s (cx_now (nx_tx (x i))) (ob_alarm o1) = Some d \<and> dl_AlarmID d = ob_alarm o1 \<and>
    map_option ob_status (entry_of s2 (ob_id o1)) = Some (if dl_RecipientID d = [] then ''disabled'' else ''sent'')"
  using reaches_due_entry[OF assms(1,2), of x env] assms(3) by blast

end
