(* ===== verification/Core_Examples.thy ===== *)
theory Core_Examples
  imports Alarm_Delivery "HOL-Library.Code_Target_Nat" "HOL-Library.Code_Target_Int"
begin

text \<open>
  One device \<open>d1\<close> in one pond: it reports a temperature above the rule of the pond, the alarm is queued,
  a worker delivers it. The properties of the core and of the notifications applied to this run.
\<close>

definition ex_env :: core_env where
  "ex_env = \<lparr>ce_json = (\<lambda>s. if s = ''42'' then Some (JNum ''42'') else None),
     ce_float = (\<lambda>s. if s = ''42'' then Some (Fin 42) else None), ce_marshal = (\<lambda>_. ''42''), ce_stored = (\<lambda>s. s),
     ce_time = (\<lambda>t. t), ce_message = (\<lambda>metric below t. metric @ '' out of range''), ce_sha256 = (\<lambda>s. s)\<rparr>"

definition ex_tx :: "time \<Rightarrow> core_tx" where
  "ex_tx now = \<lparr>cx_fails = (\<lambda>_. False), cx_now = now\<rparr>"

definition ex_device :: core_device where
  "ex_device = \<lparr>de_id = 1, de_no = ''d1'', de_name = [], de_model = [], de_pond = 1, de_product = 1, de_version = 1, de_disabled = False, de_status = ''online'',
     de_seen = None, de_session_version = 1, de_username = ''u1'', de_secret_hash = ''00'', de_interval = None\<rparr>"

definition ex_rule :: AlarmRule where
  "ex_rule = \<lparr>ru_ID = 1, ru_PondID = 1, ru_Metric = ''temperature'', ru_Min = None, ru_Max = Some (Fin 30),
     ru_Level = ''warning'', ru_Enabled = True\<rparr>"

definition ex_db :: core_db where
  "ex_db = \<lparr>cb_devices = [ex_device], cb_ponds = [\<lparr>po_id = 1, po_farm = 1, po_name = ''p'', po_area = None\<rparr>],
     cb_farms = [\<lparr>fr_id = 1, fr_tenant = 1, fr_owner = Some 1, fr_name = ''f'', fr_location = []\<rparr>],
     cb_tenants = [\<lparr>te_id = 1, te_name = ''t'', te_active = True\<rparr>],
     cb_members = [\<lparr>mb_tenant = 1, mb_user = 1, mb_role = ''owner'', mb_permission_version = 0, mb_active = True, mb_expires = None\<rparr>],
     cb_users = [\<lparr>ur_id = 1, ur_open_id = ''wx1'', ur_authority = ''USER'', ur_subscribed = True, ur_token_version = 0\<rparr>],
     cb_products = [\<lparr>pd_id = 1, pd_name = ''water-quality'', pd_tenant = 1\<rparr>],
     cb_models = [\<lparr>md_product = 1, md_version = 1, md_published = True, md_fields = Some []\<rparr>],
     cb_rules = [ex_rule], cb_messages = [], cb_sensor = [], cb_telemetry = [], cb_shadows = [], cb_alarms = [],
     cb_outbox = []\<rparr>"

definition ex_report :: Event where
  "ex_report = \<lparr>ev_Kind = KindProperties, ev_DeviceNo = ''d1'', ev_MessageID = ''m1'', ev_Ts = 12,
     ev_Properties = Some [(''temperature'', Fin 42)], ev_GenericProperties = None, ev_Online = False\<rparr>"

definition ex_alarm :: Alarm where
  "ex_alarm = \<lparr>al_ID = 1, al_DeviceNo = ''d1'', al_PondID = 1, al_ProductID = 1, al_Metric = ''temperature'',
     al_CurrentValue = Fin 42, al_Threshold = Fin 30, al_Level = ''warning'', al_Message = ''temperature out of range'',
     al_ConfirmedAt = None, al_CreatedAt = 12\<rparr>"

definition ex_entry :: outbox_row where
  "ex_entry = \<lparr>ob_id = 1, ob_alarm = 1, ob_status = ''pending'', ob_attempts = 0, ob_next_at = 13, ob_leased_until = None,
     ob_lease_owner = None, ob_last_error = None, ob_recipient = None\<rparr>"

definition ex_shadow :: shadow_row where
  "ex_shadow = \<lparr>sh_device = ''d1'', sh_last = [(''temperature'', ''42'')], sh_signal = None, sh_ts = 12, sh_pond = Some 1,
     sh_tenant = 1, sh_stamps = [(''temperature'', 12)], sh_version = 1, sh_product = 1\<rparr>"

definition ex_stored :: core_db where
  "ex_stored = ex_db\<lparr>cb_devices := [ex_device\<lparr>de_seen := Some 12\<rparr>],
     cb_messages := [\<lparr>ms_device = ''d1'', ms_id = ''m1'', ms_received = 13\<rparr>],
     cb_sensor := [\<lparr>sd_ts = 12, sd_device = ''d1'', sd_pond = 1, sd_tenant = 1,
       sd_values = [(''temperature'', Some (Fin 42)), (''dissolved_oxygen'', None), (''ph'', None), (''turbidity'', None),
         (''salinity'', None), (''battery'', None)], sd_signal = None\<rparr>],
     cb_shadows := [ex_shadow], cb_alarms := [ex_alarm], cb_outbox := [ex_entry]\<rparr>"

lemma ex_valid: "validString ''d1''" "validString ''m1''" "pg_varchar 64 ''d1''" "pg_varchar 128 ''m1''"
    "runeCount ''m1'' = 2"
  by (simp_all add: validString_def pg_varchar_def codes_def decode_rune_ascii runeCount_def)

lemma ex_scope: "device_scope ex_db ''d1'' = [(ex_device, 1, Some [])]"
  by (simp add: device_scope_def live_devices_def live_where_def ex_db_def ex_device_def)

lemmas ex_rows = ex_env_def ex_tx_def ex_device_def ex_rule_def ex_report_def ex_alarm_def ex_entry_def ex_shadow_def
lemmas float_defs = out_of_range_def isNaN_def isInf_def

lemma ex_ValidateEvent: "ValidateEvent v ex_report = None"
  by (simp add: ValidateEvent_def ex_report_def ex_valid containsAny_def is_zero_def time_zero_def
      MetricRange_def metricRanges_def float_defs)

lemma ex_dedup: "dedup (ex_tx 13) ''d1'' ''m1'' ex_db =
    Inr (True, ex_db\<lparr>cb_messages := [\<lparr>ms_device = ''d1'', ms_id = ''m1'', ms_received = 13\<rparr>]\<rparr>)"
  by (simp add: dedup_def ex_valid ex_tx_def require_def Let_def ex_db_def)

lemma ex_upsert: "cb_shadows db = [] \<Longrightarrow> shadowUpsert ex_env (ex_tx t) ex_report 1 1 1 1 db =
    Inr (db\<lparr>cb_shadows := [ex_shadow]\<rparr>)"
  by (simp add: shadowUpsert_def shadow_of_def put_shadow_def ex_rows ev_props_def require_def Let_def encode_numbers_def
      after_def)

lemma ex_evaluate: "cb_rules db = [ex_rule] \<Longrightarrow> cb_alarms db = [] \<Longrightarrow> cb_outbox db = [] \<Longrightarrow>
    evaluate ex_env (ex_tx 13) ex_report [(''temperature'', Fin 42)] 1 1 db =
    Inr ([ex_alarm], db\<lparr>cb_alarms := [ex_alarm], cb_outbox := [ex_entry]\<rparr>)"
  by (simp add: evaluate_def after_def require_def take_or_def ex_rows breached_def threshold_of_def below_min_def float_defs
      open_alarm_def new_alarm_def new_outbox_def next_alarm_id_def next_outbox_id_def Let_def)

lemma ex_fields: "ev_Kind ex_report = KindProperties" "ev_GenericProperties ex_report = None" "ev_MessageID ex_report = ''m1''"
    "ev_props ex_report = [(''temperature'', Fin 42)]" "ev_DeviceNo ex_report = ''d1''" "ev_Ts ex_report = 12"
    "cx_fails (ex_tx t) n = False" "de_pond ex_device = 1" "de_product ex_device = 1" "de_version ex_device = 1"
    "cb_shadows ex_db = []" "cb_rules ex_db = [ex_rule]" "cb_alarms ex_db = []" "cb_outbox ex_db = []"
  by (simp_all add: ex_rows ex_db_def ev_props_def)

lemma ex_store: "store_values ex_env (ex_tx 13) ex_report ex_device 1 (Some [])
    (ex_db\<lparr>cb_messages := [\<lparr>ms_device = ''d1'', ms_id = ''m1'', ms_received = 13\<rparr>]\<rparr>) = Inr ex_stored"
  by (simp add: store_values_def ex_fields require_def after_def take_or_def Let_def ex_upsert ex_evaluate)
    (simp add: ex_stored_def touch_device_def ex_db_def sensor_of_def sensor_columns_def ex_rows greatest_def ev_props_def)

lemma ex_HandleEvent: "HandleEvent ex_env (ex_tx 13) ex_report ex_db = Inr ex_stored"
  using ex_valid
  by (simp add: HandleEvent_def ex_ValidateEvent storeReading_def ex_fields ex_scope ex_dedup MetricRange_def metricRanges_def
      is_zero_def time_zero_def float_defs require_def after_def ex_store)

subsection \<open>The report\<close>

theorem reading_stored_and_alarmed_witness:
  "reading_effect ex_env ex_report ex_device 1 ex_db ex_stored"
  using reading_stored_and_alarmed[OF ex_HandleEvent]
  by (simp add: ex_fields ex_scope seen_message_def) (simp add: ex_db_def ex_device_def)

theorem repeated_report_stored_once_witness:
  "HandleEvent ex_env (ex_tx 14) (ex_report\<lparr>ev_Ts := 15\<rparr>) ex_stored = Inr ex_stored"
proof -
  have scope: "device_scope ex_stored ''d1'' \<noteq> []"
    by (simp add: device_scope_def live_devices_def live_where_def ex_stored_def ex_db_def ex_device_def)
  have "HandleEvent ex_env (ex_tx 14) (ex_report\<lparr>ev_Ts := 15\<rparr>) ex_stored =
      Inr (ex_stored\<lparr>cb_messages := filter (\<lambda>m. \<not> ms_received m \<le> cx_now (ex_tx 14) - 24 * hour) (cb_messages ex_stored)\<rparr>)"
    by (rule repeated_report_stored_once[OF ex_HandleEvent])
      (use scope in \<open>simp_all add: ex_fields has_values_def seen_message_def ex_db_def ex_tx_def duration_defs is_zero_def time_zero_def\<close>)
  then show ?thesis by (simp add: ex_stored_def ex_db_def ex_tx_def duration_defs)
qed

theorem shadow_keeps_newest_witness:
  "list_ex (\<lambda>row. sh_device row = ''d1'' \<and> map_of (sh_stamps row) ''temperature'' = Some 12) [ex_shadow] \<and>
   newest_of [ex_report] [(''temperature'', Fin 42)] (sh_stamps ex_shadow)"
proof -
  have u: "upsert_all ex_env 1 1 [(ex_tx 13, ex_report, 1, 1)] ex_db = Inr (ex_db\<lparr>cb_shadows := [ex_shadow]\<rparr>)"
    by (simp add: ex_upsert ex_fields after_def)
  have n: "shadow_of ex_db ''d1'' = None" "wf_map [(''temperature'', Fin 42)]"
    by (simp_all add: shadow_of_def ex_fields wf_map_def)
  have m: "number_of ex_env (ce_stored ex_env (ce_marshal ex_env (Fin 42))) = Some (Fin 42)"
    by (simp add: number_of_def ex_env_def)
  have s: "shadow_of (ex_db\<lparr>cb_shadows := [ex_shadow]\<rparr>) ''d1'' = Some ex_shadow"
    "decode_numbers ex_env (sh_last ex_shadow) = Some [(''temperature'', Fin 42)]"
    by (simp_all add: shadow_of_def ex_shadow_def number_of_def ex_env_def)
  have "newest_of [ex_report] [(''temperature'', Fin 42)] (sh_stamps ex_shadow)"
    using shadow_keeps_newest[OF u, of "''d1''"] by (simp add: n m s ex_fields)
  then show ?thesis by (simp add: ex_shadow_def)
qed

subsection \<open>The worker\<close>

definition ex_cfg :: notify_config where
  "ex_cfg = \<lparr>nw_LeaseDuration = 2 * minute, nw_DeliveryTimeout = 20 * second, nw_PollInterval = second,
     nw_MaxAttempts = 6, nw_Concurrency = 2\<rparr>"

definition ex_ntx :: notify_tx where
  "ex_ntx = \<lparr>nx_env = ex_env, nx_tx = ex_tx 20, nx_skip = (\<lambda>_. False), nx_token = ''w1''\<rparr>"

definition ex_round :: "core_db round_env" where
  "ex_round = \<lparr>re_store = npg_ops ex_ntx, re_sender = Some (\<lambda>_. None), re_claimed_at = 20, re_finished_at = 21\<rparr>"

definition ex_delivery :: Delivery where
  "ex_delivery = \<lparr>dl_AlarmID = 1, dl_RecipientID = ''wx1'', dl_DeviceNo = ''d1'', dl_PondID = 1, dl_Metric = ''temperature'',
     dl_CurrentValue = Fin 42, dl_Threshold = Fin 30, dl_Level = ''warning'', dl_Message = ''temperature out of range'',
     dl_CreatedAt = 12\<rparr>"

lemma ex_due: "due_entry 20 6 ex_entry" "deliverable ex_stored 20 ex_entry" "cb_outbox ex_stored = [ex_entry]"
    "ob_id ex_entry = 1" "ob_alarm ex_entry = 1"
  by (simp_all add: due_entry_def ex_entry_def deliverable_def alarm_places_def member_in_force_def ex_stored_def ex_db_def
      ex_alarm_def)

lemma ex_trim: "trimSpace ''wx1'' = ''wx1''"
  by code_simp

lemma ex_delivery_of: "delivery_of ex_stored 20 1 = Some ex_delivery"
  by (simp add: delivery_of_def alarm_places_def recipient_of_def member_in_force_def ex_stored_def ex_db_def ex_alarm_def
      ex_delivery_def ex_trim)

lemma ex_clean: "clean_round ex_ntx ex_round"
  by (simp add: clean_round_def ex_ntx_def ex_round_def ex_tx_def)

lemma ex_ntx_fields: "nx_env ex_ntx = ex_env" "nx_tx ex_ntx = ex_tx 20" "cx_now (ex_tx t) = t" "ce_time ex_env u = u"
    "re_claimed_at ex_round = 20" "nw_MaxAttempts ex_cfg = 6" "nx_skip ex_ntx k = False"
  by (simp_all add: ex_ntx_def ex_tx_def ex_env_def ex_round_def ex_cfg_def)

lemma ex_inv: "npg_inv ex_stored"
  by (simp add: npg_inv_def ex_due)

theorem due_alarm_is_delivered_witness:
  "\<exists>err s2. round_in ex_cfg ex_round ex_stored = ((True, err, [ex_delivery]), s2) \<and>
     map_option ob_status (entry_of s2 1) = Some ''sent''"
proof -
  have e: "earlier ex_entry ex_stored = 0" "dl_RecipientID ex_delivery \<noteq> []" by (simp_all add: earlier_def ex_due ex_delivery_def)
  show ?thesis
    using due_alarm_is_delivered[of ex_stored ex_entry "\<lambda>_. ex_ntx" "\<lambda>_. ex_round" ex_cfg]
    by (auto simp: e ex_inv ex_due ex_clean ex_ntx_fields ex_delivery_of)
qed

theorem worker_burst_ends_witness:
  "\<exists>j s'. burst ex_cfg (\<lambda>_. ex_round) 0 ex_stored = Some (j, s') \<and> j \<le> 6"
proof -
  have "npg_entries ex_stored = {1}" "npg_tries ex_stored 1 = 0"
    by (simp_all add: npg_entries_def npg_tries_def entry_of_def ex_due) (simp add: ex_entry_def)
  moreover have "\<exists>x. re_store ex_round = npg_ops x" by (auto simp: ex_round_def)
  ultimately show ?thesis
    using worker_burst_ends[OF ex_inv, of "\<lambda>_. ex_round" ex_cfg] by (simp add: ex_ntx_fields)
qed

definition ex_claim :: NotifyClaim where
  "ex_claim = \<lparr>nc_ID = 1, nc_Attempts = 1, nc_LeaseToken = ''w1'', nc_Delivery = ex_delivery\<rparr>"

definition ex_leased :: core_db where
  "ex_leased = ex_stored\<lparr>cb_outbox := [ex_entry\<lparr>ob_status := ''processing'', ob_attempts := 1,
     ob_leased_until := Some (20 + 2 * minute), ob_lease_owner := Some ''w1''\<rparr>]\<rparr>"

lemma ex_Claim: "npg_Claim ex_ntx ex_stored 20 (2 * minute) 6 = ((ex_claim, True, None), ex_leased)"
proof -
  have f: "cx_fails (ex_tx 20) n = False" "nx_token ex_ntx = ''w1''" for n by (simp_all add: ex_ntx_def ex_tx_def)
  have g: "give_up 20 6 ex_entry = ex_entry" by (simp add: give_up_def ex_entry_def)
  have s: "ex_stored\<lparr>cb_outbox := [ex_entry]\<rparr> = ex_stored" by (simp add: ex_stored_def)
  have c: "candidates ex_ntx 20 6 ex_stored = [ex_entry]" by (simp add: candidates_def ex_due ex_ntx_fields)
  show ?thesis
    by (simp add: npg_Claim_def f ex_ntx_fields Let_def ex_due g s c ex_delivery_of no_claim_def ex_claim_def)
      (simp add: ex_leased_def ex_entry_def lease_entry_def)
qed

theorem claim_takes_first_due_entry_witness:
  "nc_ID ex_claim = ob_id ex_entry \<and> nc_Attempts ex_claim = ob_attempts ex_entry + 1"
  using claim_takes_first_due_entry[OF ex_Claim]
  by (simp add: ex_due ex_ntx_fields)

theorem alarm_queued_and_bounded_witness:
  "map ob_alarm (cb_outbox ex_leased) = [1] \<and> npg_tries ex_leased 1 = 1"
proof -
  have q: "alarms_queued ex_db" by (simp add: alarms_queued_def ex_fields)
  have "core_run ex_env 6 ex_db [ex_claim] ex_leased"
    using core_run.claim[OF core_run.event[OF core_run.start ex_HandleEvent] ex_Claim] by simp
  from alarm_queued_and_bounded[OF this q, of 1] show ?thesis
    by (simp add: ex_leased_def ex_stored_def ex_alarm_def npg_tries_def entry_of_def ex_fields grants_of_def ex_claim_def)
qed

end
