(* ===== verification/Go_Base64.thy ===== *)
theory Go_Base64
  imports Go_Strings
begin

text \<open>
  \<open>base64.StdEncoding\<close>: with padding; the decoder leaves out carriage returns and newlines and ignores
  the bits of the last character that are not used, as the standard library does.
\<close>

definition b64stdAlphabet :: string where
  "b64stdAlphabet = ''ABCDEFGHIJKLMNOPQRSTUVWXYZabcdefghijklmnopqrstuvwxyz0123456789+/''"

definition b64stdChar :: "nat \<Rightarrow> char" where
  "b64stdChar n = b64stdAlphabet ! n"

definition b64stdVal :: "char \<Rightarrow> nat option" where
  "b64stdVal c = (let r = takeWhile (\<lambda>d. d \<noteq> c) b64stdAlphabet in if length r < 64 then Some (length r) else None)"

fun b64std :: "nat list \<Rightarrow> string" where
  "b64std [] = []"
| "b64std [a] = [b64stdChar (a div 4), b64stdChar ((a mod 4) * 16), CHR ''='', CHR ''='']"
| "b64std [a, b] =
     [b64stdChar (a div 4), b64stdChar ((a mod 4) * 16 + b div 16), b64stdChar ((b mod 16) * 4), CHR ''='']"
| "b64std (a # b # c # r) =
     b64stdChar (a div 4) # b64stdChar ((a mod 4) * 16 + b div 16) # b64stdChar ((b mod 16) * 4 + c div 64) #
     b64stdChar (c mod 64) # b64std r"

fun b64std_groups :: "string \<Rightarrow> nat list option" where
  "b64std_groups [] = Some []"
| "b64std_groups (a # b # c # d # r) =
     (case (b64stdVal a, b64stdVal b) of
        (Some x, Some y) \<Rightarrow>
          (case (b64stdVal c, b64stdVal d) of
             (Some z, Some w) \<Rightarrow>
               map_option (\<lambda>t. (x * 4 + y div 16) # ((y mod 16) * 16 + z div 4) # ((z mod 4) * 64 + w) # t) (b64std_groups r)
           | (Some z, None) \<Rightarrow>
               if d = CHR ''='' \<and> r = [] then Some [x * 4 + y div 16, (y mod 16) * 16 + z div 4] else None
           | (None, None) \<Rightarrow>
               if c = CHR ''='' \<and> d = CHR ''='' \<and> r = [] then Some [x * 4 + y div 16] else None
           | (None, Some _) \<Rightarrow> None)
      | _ \<Rightarrow> None)"
| "b64std_groups _ = None"

definition b64Encode :: "string \<Rightarrow> string" where
  "b64Encode s = b64std (codes s)"

definition b64Decode :: "string \<Rightarrow> string option" where
  "b64Decode s = map_option (map char_of) (b64std_groups (filter (\<lambda>c. c \<noteq> CHR 0x0A \<and> c \<noteq> CHR 0x0D) s))"

lemma b64stdVal_char: "n < 64 \<Longrightarrow> b64stdVal (b64stdChar n) = Some n"
proof -
  have "list_all (\<lambda>n. b64stdVal (b64stdChar n) = Some n) [0..<64]" by code_simp
  then show "n < 64 \<Longrightarrow> ?thesis" by (simp add: list_all_iff)
qed

lemma b64stdVal_pad [simp]: "b64stdVal CHR ''='' = None"
  by code_simp

lemma sextets:
  fixes a b c :: nat
  assumes "a < 256"
  shows "a div 4 < 64" "(a mod 4) * 16 < 64" "a mod 64 < 64" "(a mod 16) * 4 < 64"
    "b < 256 \<Longrightarrow> (a mod 4) * 16 + b div 16 < 64" "b < 256 \<Longrightarrow> (a mod 16) * 4 + b div 64 < 64"
proof -
  have a4: "a mod 4 \<le> 3" "a mod 16 \<le> 15" by (simp_all add: mod_less_divisor less_Suc_eq_le[symmetric])
  show "a div 4 < 64" "(a mod 4) * 16 < 64" "a mod 64 < 64" "(a mod 16) * 4 < 64" using assms a4 by simp_all
  show "b < 256 \<Longrightarrow> (a mod 4) * 16 + b div 16 < 64"
    using a4(1) less_mult_imp_div_less[of b 16 16] by simp
  show "b < 256 \<Longrightarrow> (a mod 16) * 4 + b div 64 < 64"
    using a4(2) less_mult_imp_div_less[of b 4 64] by simp
qed

lemma b64std_lines: "list_all (\<lambda>b. b < 256) l \<Longrightarrow> filter (\<lambda>c. c \<noteq> CHR 0x0A \<and> c \<noteq> CHR 0x0D) (b64std l) = b64std l"
proof -
  have p: "b64stdChar n \<noteq> CHR 0x0A" "b64stdChar n \<noteq> CHR 0x0D" if "n < 64" for n
  proof -
    have "list_all (\<lambda>n. b64stdChar n \<noteq> CHR 0x0A \<and> b64stdChar n \<noteq> CHR 0x0D) [0..<64]" by code_simp
    then show "b64stdChar n \<noteq> CHR 0x0A" "b64stdChar n \<noteq> CHR 0x0D" using that by (simp_all add: list_all_iff)
  qed
  show "list_all (\<lambda>b. b < 256) l \<Longrightarrow> ?thesis"
  proof (induction l rule: b64std.induct)
    case (2 a)
    then show ?case using p[of "a div 4"] p[of "(a mod 4) * 16"] by simp
  next
    case (3 a b)
    then show ?case
      using p[of "a div 4"] p[of "(a mod 4) * 16 + b div 16"] p[of "(b mod 16) * 4"] by (simp add: sextets)
  next
    case (4 a b c r)
    then show ?case
      using p[of "a div 4"] p[of "(a mod 4) * 16 + b div 16"] p[of "(b mod 16) * 4 + c div 64"] p[of "c mod 64"]
      by (simp add: sextets)
  qed simp
qed

lemma b64std_groups_std: "list_all (\<lambda>b. b < 256) l \<Longrightarrow> b64std_groups (b64std l) = Some l"
proof (induction l rule: b64std.induct)
  case (2 a)
  then have "a div 4 < 64" "(a mod 4) * 16 < 64" by (simp_all add: sextets)
  then show ?case by (simp add: b64stdVal_char)
next
  case (3 a b)
  then have "a div 4 < 64" "(a mod 4) * 16 + b div 16 < 64" "(b mod 16) * 4 < 64" by (simp_all add: sextets)
  moreover have "b div 16 < 16" using 3 less_mult_imp_div_less[of b 16 16] by simp
  ultimately show ?case using 3 by (simp add: b64stdVal_char)
next
  case (4 a b c r)
  then have "a div 4 < 64" "(a mod 4) * 16 + b div 16 < 64" "(b mod 16) * 4 + c div 64 < 64" "c mod 64 < 64" by (simp_all add: sextets)
  moreover have "b div 16 < 16" "c div 64 < 4"
    using 4 less_mult_imp_div_less[of b 16 16] less_mult_imp_div_less[of c 4 64] by simp_all
  ultimately show ?case using 4 by (simp add: b64stdVal_char)
qed simp

text \<open>Decoding gives back what was encoded.\<close>

lemma b64Decode_Encode: "b64Decode (b64Encode s) = Some s"
proof -
  have l: "list_all (\<lambda>b. b < 256) (codes s)" by (simp add: codes_def list_all_iff)
  show ?thesis
    unfolding b64Decode_def b64Encode_def b64std_lines[OF l] b64std_groups_std[OF l] by (simp add: codes_def comp_def)
qed

end
