(* ===== verification/License.thy ===== *)
theory License
  imports Core_Tables Go_Base64 Go_Strconv
begin

text \<open>
  \<open>internal/license\<close>: the states of a license, what it allows, its payload and its signature. JSON
  (which texts are valid, their tokens, the members of an object, the two structures), the parser of
  instants, SHA-256 and the RSA-PSS verification under a public key are parameters. The errors of
  \<open>ParsePayload\<close> and \<open>ParseEnvelope\<close> are told apart by their sentinels.
\<close>

datatype license_error =
    InvalidEnvelope | InvalidSignature | InvalidPayload | InstanceMismatch | LicenseUnavailable | LicenseRequired
  | QuotaExceeded | FeatureDenied | ClockError | NotBefore | LicenseExpired

datatype license_state =
    StateMissing | StateValid | StatePermanent | StateNotBefore | StateExpired | StateInvalid
  | StateInstanceMismatch | StateClockError | StateOverage

definition knownFeatures :: "string list" where
  "knownFeatures = [''video'', ''openapi'', ''automation'', ''reports'']"

definition MaxPayloadBytes :: nat where "MaxPayloadBytes = 45 * 1024"
definition MaxEnvelopeBytes :: nat where "MaxEnvelopeBytes = 64 * 1024"
definition MaxPayloadB64Chars :: nat where "MaxPayloadB64Chars = 62000"
definition MaxSignatureB64Chars :: nat where "MaxSignatureB64Chars = 1500"

record Envelope =
  ev_PayloadB64 :: string
  ev_SignatureB64 :: string

record Payload =
  lp_LicenseID :: string
  lp_DeploymentID :: string
  lp_IssuedAt :: time
  lp_NotBefore :: time
  lp_ExpiresAt :: "time option"
  lp_MaxDevices :: int
  lp_Features :: "string list"
  lp_KeyID :: string

record Verified =
  vf_Payload :: Payload
  vf_PayloadRaw :: string
  vf_Signature :: string
  vf_SHA256 :: string

record license_status =
  ls_State :: license_state
  ls_LicenseID :: "string option"
  ls_DeploymentID :: "string option"
  ls_KeyID :: "string option"
  ls_IssuedAt :: "time option"
  ls_NotBefore :: "time option"
  ls_ExpiresAt :: "time option"
  ls_MaxDevices :: int
  ls_Features :: "string list"
  ls_UsedDevices :: int
  ls_Overage :: int
  ls_PayloadSHA256 :: "string option"

subsection \<open>What a license allows\<close>

definition AllowsExisting :: "license_status \<Rightarrow> bool" where
  "AllowsExisting s \<longleftrightarrow> ls_State s \<in> {StateValid, StatePermanent, StateOverage, StateExpired, StateNotBefore,
     StateMissing, StateInvalid, StateInstanceMismatch, StateClockError}"

definition AllowsDeviceAdmission :: "license_status \<Rightarrow> license_error option" where
  "AllowsDeviceAdmission s =
     (if ls_State s = StateOverage then Some QuotaExceeded
      else if ls_State s \<noteq> StateValid \<and> ls_State s \<noteq> StatePermanent then Some LicenseRequired
      else if ls_Overage s > 0 \<or> ls_UsedDevices s \<ge> ls_MaxDevices s then Some QuotaExceeded
      else None)"

definition AllowsFeature :: "license_status \<Rightarrow> string \<Rightarrow> license_error option" where
  "AllowsFeature s feature =
     (if ls_State s \<noteq> StateValid \<and> ls_State s \<noteq> StatePermanent \<and> ls_State s \<noteq> StateOverage then Some FeatureDenied
      else if feature \<in> set (ls_Features s) then None
      else Some FeatureDenied)"

definition EvaluateLicense :: "Payload \<Rightarrow> string \<Rightarrow> time \<Rightarrow> time \<Rightarrow> bool \<Rightarrow> license_state" where
  "EvaluateLicense payload deploymentID now maxSeen clockError =
     (if clockError \<or> (\<not> is_zero maxSeen \<and> now < maxSeen + - 5 * minute) then StateClockError
      else if lp_DeploymentID payload \<noteq> deploymentID then StateInstanceMismatch
      else if now < lp_NotBefore payload then StateNotBefore
      else (case lp_ExpiresAt payload of
              None \<Rightarrow> StatePermanent
            | Some expires \<Rightarrow> if \<not> now < expires then StateExpired else StateValid))"

subsection \<open>Duplicate keys\<close>

text \<open>
  The tokens of a decoder. \<open>walk_value n\<close> reads one value; a \<open>Token\<close> that fails ends the walk, and
  \<open>More\<close> is false at the end and before a closing token. In the place of a key the decoder of a
  valid text has a string. Of two calls one reads a token, so a budget of twice the tokens and one is enough.
\<close>

datatype json_token = ObjOpen | ObjClose | ArrOpen | ArrClose | StrToken string | OtherToken

definition more_tokens :: "json_token list \<Rightarrow> bool" where
  "more_tokens ts \<longleftrightarrow> ts \<noteq> [] \<and> hd ts \<noteq> ObjClose \<and> hd ts \<noteq> ArrClose"

fun walk_value :: "nat \<Rightarrow> json_token list \<Rightarrow> bool \<times> json_token list"
  and walk_members :: "nat \<Rightarrow> string set \<Rightarrow> json_token list \<Rightarrow> bool \<times> json_token list"
  and walk_items :: "nat \<Rightarrow> json_token list \<Rightarrow> bool \<times> json_token list" where
  "walk_value 0 ts = (False, ts)"
| "walk_value (Suc n) ts =
     (case ts of
        [] \<Rightarrow> (False, [])
      | ObjOpen # r \<Rightarrow> walk_members n {} r
      | ArrOpen # r \<Rightarrow> walk_items n r
      | _ # r \<Rightarrow> (False, r))"
| "walk_members 0 seen ts = (False, ts)"
| "walk_members (Suc n) seen ts =
     (if more_tokens ts then
        (case ts of
           StrToken key # r \<Rightarrow>
             if key \<in> seen then (True, r)
             else (case walk_value n r of
                     (True, r) \<Rightarrow> (True, r)
                   | (False, r) \<Rightarrow> walk_members n (insert key seen) r)
         | _ \<Rightarrow> (False, drop 1 ts))
      else (False, drop 1 ts))"
| "walk_items 0 ts = (False, ts)"
| "walk_items (Suc n) ts =
     (if more_tokens ts then
        (case walk_value n ts of
           (True, r) \<Rightarrow> (True, r)
         | (False, r) \<Rightarrow> walk_items n r)
      else (False, drop 1 ts))"

definition hasDuplicateJSONKeys :: "json_token list \<Rightarrow> bool" where
  "hasDuplicateJSONKeys ts = fst (walk_value (Suc (2 * length ts)) ts)"

subsection \<open>Payload and envelope\<close>

record license_env =
  le_valid :: "string \<Rightarrow> bool"
  le_tokens :: "string \<Rightarrow> json_token list"
  le_object :: "string \<Rightarrow> (string \<times> string) list option"
  le_string :: "string \<Rightarrow> string option"
  le_envelope :: "string \<Rightarrow> Envelope option"
  le_payload :: "string \<Rightarrow> Payload option"
  le_instant :: "string \<Rightarrow> bool"
  le_sha256 :: "string \<Rightarrow> string"
  le_verify :: "string \<Rightarrow> string \<Rightarrow> string \<Rightarrow> bool"

definition validIdentifier :: "string \<Rightarrow> bool" where
  "validIdentifier v \<longleftrightarrow> length v > 0 \<and> length v \<le> 128 \<and> trimSpace v = v"

definition ValidatePayload :: "Payload \<Rightarrow> license_error option" where
  "ValidatePayload p =
     (if \<not> validIdentifier (lp_LicenseID p) \<or> \<not> validIdentifier (lp_DeploymentID p) \<or> \<not> validIdentifier (lp_KeyID p)
      then Some InvalidPayload
      else if is_zero (lp_IssuedAt p) \<or> is_zero (lp_NotBefore p) \<or> lp_MaxDevices p < 0 \<or> lp_IssuedAt p > lp_NotBefore p
      then Some InvalidPayload
      else if (case lp_ExpiresAt p of None \<Rightarrow> False | Some t \<Rightarrow> \<not> t > lp_NotBefore p) then Some InvalidPayload
      else if \<not> list_all (\<lambda>f. f \<in> set knownFeatures) (lp_Features p) \<or> \<not> distinct (lp_Features p)
      then Some InvalidPayload
      else None)"

definition payload_members :: "string list" where
  "payload_members = [''license_id'', ''deployment_id'', ''issued_at'', ''not_before'', ''expires_at'', ''max_devices'',
     ''features'', ''key_id'']"

definition member :: "(string \<times> string) list \<Rightarrow> string \<Rightarrow> string" where
  "member ms name = (case map_of ms name of None \<Rightarrow> [] | Some raw \<Rightarrow> raw)"

definition strictUTCTimestamp :: "license_env \<Rightarrow> string \<Rightarrow> bool" where
  "strictUTCTimestamp env raw =
     (case le_string env raw of
        None \<Rightarrow> False
      | Some v \<Rightarrow> hasSuffix ''Z'' v \<and> le_instant env v)"

text \<open>An instant written with \<open>Z\<close> is parsed in UTC, so the check of its location never fails.\<close>

definition ParsePayload :: "license_env \<Rightarrow> string \<Rightarrow> (license_error, Payload) result" where
  "ParsePayload env raw =
     (if length raw = 0 \<or> length raw > MaxPayloadBytes \<or> \<not> validString raw \<or> \<not> le_valid env raw \<or>
         hasDuplicateJSONKeys (le_tokens env raw) then Inl InvalidPayload
      else take_or (le_payload env raw) InvalidPayload (\<lambda>payload.
        take_or (le_object env raw) InvalidPayload (\<lambda>ms.
        if length ms \<noteq> 8 then Inl InvalidPayload
        else if \<not> list_all (\<lambda>name. map_of ms name \<noteq> None) payload_members then Inl InvalidPayload
        else if member ms ''features'' = ''null'' then Inl InvalidPayload
        else if \<not> snd (ParseInt64 (member ms ''max_devices'')) then Inl InvalidPayload
        else if \<not> strictUTCTimestamp env (member ms ''issued_at'') \<or> \<not> strictUTCTimestamp env (member ms ''not_before'')
        then Inl InvalidPayload
        else if member ms ''expires_at'' \<noteq> ''null'' \<and> \<not> strictUTCTimestamp env (member ms ''expires_at'')
        then Inl InvalidPayload
        else (case ValidatePayload payload of Some err \<Rightarrow> Inl err | None \<Rightarrow> Inr payload))))"

definition envelope_shape :: "Envelope \<Rightarrow> bool" where
  "envelope_shape e \<longleftrightarrow> trimSpace (ev_PayloadB64 e) \<noteq> [] \<and> trimSpace (ev_SignatureB64 e) \<noteq> [] \<and>
     length (ev_PayloadB64 e) \<le> MaxPayloadB64Chars \<and> length (ev_SignatureB64 e) \<le> MaxSignatureB64Chars"

definition ParseEnvelope :: "license_env \<Rightarrow> string \<Rightarrow> (license_error, Envelope) result" where
  "ParseEnvelope env raw =
     (if length raw = 0 \<or> length raw > MaxEnvelopeBytes \<or> \<not> validString raw \<or> \<not> le_valid env raw \<or>
         hasDuplicateJSONKeys (le_tokens env raw) then Inl InvalidEnvelope
      else take_or (le_object env raw) InvalidEnvelope (\<lambda>ms.
        if length ms \<noteq> 2 \<or> map_of ms ''payload_b64'' = None \<or> map_of ms ''signature_b64'' = None
        then Inl InvalidEnvelope
        else take_or (le_envelope env raw) InvalidEnvelope (\<lambda>e.
          require (envelope_shape e) InvalidEnvelope (Inr e))))"

definition VerifyLicense :: "license_env \<Rightarrow> Envelope \<Rightarrow> string option \<Rightarrow> (license_error, Verified) result" where
  "VerifyLicense env e publicKey =
     take_or publicKey InvalidEnvelope (\<lambda>key.
     require (envelope_shape e) InvalidEnvelope
     (take_or (b64Decode (ev_PayloadB64 e)) InvalidEnvelope (\<lambda>payloadRaw.
      if length payloadRaw = 0 \<or> length payloadRaw > MaxPayloadBytes \<or> \<not> validString payloadRaw \<or>
         \<not> le_valid env payloadRaw then Inl InvalidEnvelope
      else take_or (b64Decode (ev_SignatureB64 e)) InvalidEnvelope (\<lambda>signature.
        require (length signature \<noteq> 0) InvalidEnvelope
        (let digest = le_sha256 env payloadRaw in
         require (le_verify env key digest signature) InvalidSignature
         (after (ParsePayload env payloadRaw) (\<lambda>payload.
          Inr \<lparr>vf_Payload = payload, vf_PayloadRaw = payloadRaw, vf_Signature = signature,
               vf_SHA256 = hexEncode digest\<rparr>)))))))"

subsection \<open>Facts\<close>

text \<open>The walk finds a duplicate exactly where some object of the value has one.\<close>

datatype json_tree = JObject "(string \<times> json_tree) list" | JArray "json_tree list" | JString string | JOther

fun tokens_of :: "json_tree \<Rightarrow> json_token list" where
  "tokens_of (JObject ms) = ObjOpen # concat (map (\<lambda>(k, t). StrToken k # tokens_of t) ms) @ [ObjClose]"
| "tokens_of (JArray ts) = ArrOpen # concat (map tokens_of ts) @ [ArrClose]"
| "tokens_of (JString s) = [StrToken s]"
| "tokens_of JOther = [OtherToken]"

fun repeats_key :: "json_tree \<Rightarrow> bool" where
  "repeats_key (JObject ms) \<longleftrightarrow> \<not> distinct (map fst ms) \<or> list_ex (\<lambda>(k, t). repeats_key t) ms"
| "repeats_key (JArray ts) \<longleftrightarrow> list_ex repeats_key ts"
| "repeats_key (JString s) \<longleftrightarrow> False"
| "repeats_key JOther \<longleftrightarrow> False"

lemma more_tokens_value [simp]: "more_tokens (tokens_of t @ r)"
  by (cases t) (simp_all add: more_tokens_def)

lemma walk_spec:
  "2 * length (tokens_of t) < n \<Longrightarrow>
     fst (walk_value n (tokens_of t @ r)) = repeats_key t \<and>
     (\<not> repeats_key t \<longrightarrow> snd (walk_value n (tokens_of t @ r)) = r)"
  "2 * length (concat (map (\<lambda>(k, t). StrToken k # tokens_of t) ms)) < n \<Longrightarrow>
     fst (walk_members n seen (concat (map (\<lambda>(k, t). StrToken k # tokens_of t) ms) @ ObjClose # r)) =
       (\<not> distinct (map fst ms) \<or> fst ` set ms \<inter> seen \<noteq> {} \<or> list_ex (\<lambda>(k, t). repeats_key t) ms) \<and>
     (\<not> (\<not> distinct (map fst ms) \<or> fst ` set ms \<inter> seen \<noteq> {} \<or> list_ex (\<lambda>(k, t). repeats_key t) ms) \<longrightarrow>
       snd (walk_members n seen (concat (map (\<lambda>(k, t). StrToken k # tokens_of t) ms) @ ObjClose # r)) = r)"
  "2 * length (concat (map tokens_of ts)) + 1 < n \<Longrightarrow>
     fst (walk_items n (concat (map tokens_of ts) @ ArrClose # r)) = list_ex repeats_key ts \<and>
     (\<not> list_ex repeats_key ts \<longrightarrow> snd (walk_items n (concat (map tokens_of ts) @ ArrClose # r)) = r)"
proof (induction n arbitrary: t ms ts seen r)
  case (Suc n)
  {
    case 1
    show ?case
    proof (cases t)
      case (JObject ms)
      then show ?thesis using 1 Suc(2)[of ms "{}" r] by simp
    next
      case (JArray ts)
      then show ?thesis using 1 Suc(3)[of ts r] by simp
    qed simp_all
  next
    case 2
    show ?case
    proof (cases ms)
      case Nil
      then show ?thesis by (simp add: more_tokens_def)
    next
      case (Cons m ms')
      obtain k t where m: "m = (k, t)" by (cases m)
      show ?thesis
        using 2 Suc(1)[of t "concat (map (\<lambda>(k, t). StrToken k # tokens_of t) ms') @ ObjClose # r"] Suc(2)[of ms' "insert k seen" r]
        by (auto simp: Cons m more_tokens_def split: prod.split bool.split)
    qed
  next
    case 3
    show ?case
    proof (cases ts)
      case Nil
      then show ?thesis by (simp add: more_tokens_def)
    next
      case (Cons t ts')
      have "Suc 0 \<le> length (tokens_of t)" by (cases t) simp_all
      then have "2 * length (tokens_of t) < n" "Suc (2 * length (concat (map tokens_of ts'))) < n"
        using 3 unfolding Cons list.map concat.simps length_append by - (arith+)
      then show ?thesis
        using Suc(1)[of t "concat (map tokens_of ts') @ ArrClose # r"] Suc(3)[of ts' r]
        by (auto simp: Cons split: prod.split bool.split)
    qed
  }
qed simp_all

text \<open>
  C35: The walk over the tokens of a JSON value, which the parser of payloads and envelopes makes before it
  decodes, finds a duplicate key exactly when some object of the value, at any depth, has one.
\<close>

theorem duplicates_found: "hasDuplicateJSONKeys (tokens_of t) = repeats_key t"
  using walk_spec(1)[of t "Suc (2 * length (tokens_of t))" "[]"] by (simp add: hasDuplicateJSONKeys_def)

end
