(* ===== verification/Tenant_Access.thy ===== *)
theory Tenant_Access
  imports License
begin

text \<open>
  Who may do what in a tenant: the actor a request carries (\<open>domain/tenant_context.go\<close>,
  \<open>domain/platform_context.go\<close>), the roles and what they may do (\<open>authorization/policy.go\<close>), the check
  of a write inside its transaction (\<open>persistence/tenant_authorization.go\<close>) and the farms a reader sees
  (\<open>core/admin_store.go\<close>, \<open>core/app_resource_scope.go\<close>); with the tables of the administration.
\<close>

subsection \<open>Tables\<close>

record farm_member_row =
  fm_tenant :: int
  fm_farm :: int
  fm_user :: int
  fm_role :: string
  fm_active :: bool
  fm_expires :: "time option"

record audit_row =
  au_tenant :: "int option"
  au_actor :: "int option"
  au_action :: string
  au_type :: string
  au_id :: string

record api_key =
  ak_KeyID :: string
  ak_Tenant :: int
  ak_Name :: string
  ak_Scopes :: "string list"
  ak_Farms :: "int list"
  ak_Ponds :: "int list"
  ak_Devices :: "string list"
  ak_Encrypted :: string
  ak_SecretNonce :: string
  ak_CreatedBy :: int
  ak_Created :: time
  ak_Revoked :: "time option"
  ak_RotatedFrom :: "string option"
  ak_Tokens :: rat
  ak_Refill :: time

record nonce_row =
  nr_key :: string
  nr_hash :: string
  nr_expires :: time

text \<open>
  \<open>license_state\<close> has its payload, signature and hash or none of them (its CHECK); the clock row is its
  high-water mark and its latch.
\<close>

record admin_db =
  ab_core :: core_db
  ab_farm_members :: "farm_member_row list"
  ab_audit :: "audit_row list"
  ab_deployment :: string
  ab_license :: "(string \<times> string \<times> string) option"
  ab_max_seen :: "time option"
  ab_clock_error :: bool
  ab_keys :: "api_key list"
  ab_nonces :: "nonce_row list"

datatype admin_error =
    AForbidden | ANotFound | AConflict | AInvalidRange | AInvalidRule | AInvalidProductModel
  | APondHasDevices | AFarmHasPonds | AOpenUnavailable | AOpenUnauthorized | AOpenReplay | ARateLimited nat
  | AInvalidAPIKey | ALicense license_error | AStore

subsection \<open>The actor of a request\<close>

record actor_ctx =
  ax_Tenant :: "int option"
  ax_Role :: "string option"
  ax_User :: "int option"
  ax_Version :: "int option"
  ax_Platform :: "(int \<times> int) option"

definition TenantID :: "actor_ctx \<Rightarrow> int option" where
  "TenantID c = (case ax_Tenant c of None \<Rightarrow> None | Some t \<Rightarrow> if t > 0 then Some t else None)"

definition TenantRole :: "actor_ctx \<Rightarrow> string" where
  "TenantRole c = (case ax_Role c of None \<Rightarrow> [] | Some r \<Rightarrow> r)"

definition TenantUserID :: "actor_ctx \<Rightarrow> int option" where
  "TenantUserID c = (case ax_User c of None \<Rightarrow> None | Some u \<Rightarrow> if u > 0 then Some u else None)"

definition HasTenantScope :: "actor_ctx \<Rightarrow> bool" where
  "HasTenantScope c \<longleftrightarrow> ax_Tenant c \<noteq> None \<or> ax_Role c \<noteq> None \<or> ax_User c \<noteq> None \<or> ax_Version c \<noteq> None"

subsection \<open>Roles\<close>

text \<open>
  \<open>domain.PermissionPolicy\<close>: its one method may fail. Then the rules of the enforcer that \<open>New\<close> makes, and its
  matcher: an action of a rule, or \<open>*\<close>; the evaluation of this matcher on three strings does not fail.
\<close>

type_synonym permission_policy = "string \<Rightarrow> string \<Rightarrow> string \<Rightarrow> (admin_error, bool) result"

definition policy_rules :: "(string \<times> string \<times> string) list" where
  "policy_rules =
     concat (map (\<lambda>role. map (\<lambda>res. (role, res, ''*''))
       [''farms'', ''farm_members'', ''users'', ''ponds'', ''devices'', ''alarm_rules'', ''alarms'', ''stats'', ''products'',
        ''tenant_members'', ''telemetry'', ''api-keys'']) [''owner'', ''admin'']) @
     concat (map (\<lambda>role. map (\<lambda>res. (role, res, ''read''))
       [''farms'', ''ponds'', ''devices'', ''alarm_rules'', ''alarms'', ''stats'', ''products'']) [''member'', ''viewer'', ''support'']) @
     map (\<lambda>role. (role, ''alarms'', ''confirm'')) [''member'', ''support'']"

definition Allow :: permission_policy where
  "Allow role res act = Inr (list_ex (\<lambda>(s, obj, a). role = s \<and> res = obj \<and> (act = a \<or> a = ''*'')) policy_rules)"

subsection \<open>Memberships in force\<close>

definition in_force :: "time \<Rightarrow> bool \<Rightarrow> time option \<Rightarrow> bool" where
  "in_force now active expires \<longleftrightarrow> active \<and> (case expires of None \<Rightarrow> True | Some t \<Rightarrow> t > now)"

text \<open>The live membership of a user with the user: an administrator only as support with an end.\<close>

definition live_memberships :: "core_db \<Rightarrow> time \<Rightarrow> int \<Rightarrow> int \<Rightarrow> (core_member \<times> core_user) list" where
  "live_memberships db now tenant user =
     [(m, u). m \<leftarrow> cb_members db, mb_tenant m = tenant \<and> mb_user m = user \<and> in_force now (mb_active m) (mb_expires m),
        u \<leftarrow> cb_users db, ur_id u = user \<and> (ur_authority u = ''USER'' \<or>
          (ur_authority u = ''ADMIN'' \<and> mb_role m = ''support'' \<and> mb_expires m \<noteq> None))]"

definition tenant_active :: "core_db \<Rightarrow> int \<Rightarrow> bool" where
  "tenant_active db t \<longleftrightarrow> list_ex (\<lambda>r. te_id r = t \<and> te_active r) (cb_tenants db)"

text \<open>Statements 50 (the tenant) and 51 (the membership).\<close>

definition AuthorizeTenantWrite ::
  "permission_policy option \<Rightarrow> actor_ctx \<Rightarrow> core_tx \<Rightarrow> string \<Rightarrow> string \<Rightarrow> core_db \<Rightarrow> (admin_error, unit) result" where
  "AuthorizeTenantWrite policy c x res act db =
     (if \<not> HasTenantScope c then (if ax_Platform c \<noteq> None then Inl AForbidden else Inr ())
      else (case (TenantID c, TenantUserID c, policy) of
        (Some tenant, Some actor, Some allow) \<Rightarrow>
          if TenantRole c = [] then Inl AForbidden
          else require (\<not> cx_fails x 50) AStore
            (require (tenant_active db tenant) AForbidden
            (require (\<not> cx_fails x 51) AStore
            (case live_memberships db (cx_now x) tenant actor of
               [] \<Rightarrow> Inl AForbidden
             | (m, u) # _ \<Rightarrow>
                 if mb_role m \<noteq> TenantRole c then Inl AForbidden
                 else if (case ax_Version c of None \<Rightarrow> False | Some v \<Rightarrow> v \<noteq> mb_permission_version m) then Inl AForbidden
                 else after (allow (mb_role m) res act) (\<lambda>allowed. require allowed AForbidden (Inr ())))))
      | _ \<Rightarrow> Inl AForbidden))"

definition AuthorizePlatformWrite :: "actor_ctx \<Rightarrow> core_tx \<Rightarrow> int \<Rightarrow> core_db \<Rightarrow> (admin_error, unit) result" where
  "AuthorizePlatformWrite c x actorID db =
     (case ax_Platform c of
        None \<Rightarrow> if HasTenantScope c then Inl AForbidden else Inr ()
      | Some (actor, version) \<Rightarrow>
          if actor \<le> 0 \<or> actor \<noteq> actorID then Inl AForbidden
          else require (\<not> cx_fails x 50) AStore
            (case filter (\<lambda>u. ur_id u = actorID \<and> ur_authority u = ''ADMIN'') (cb_users db) of
               [] \<Rightarrow> Inl AForbidden
             | u # _ \<Rightarrow> require (version = ur_token_version u) AForbidden (Inr ())))"

subsection \<open>The farms a reader sees\<close>

text \<open>\<open>tenantFilter\<close>: a reader that is not owner or admin sees the farms it is a member of.\<close>

definition farm_membership :: "admin_db \<Rightarrow> time \<Rightarrow> core_farm \<Rightarrow> int \<Rightarrow> bool" where
  "farm_membership db now f user \<longleftrightarrow>
     list_ex (\<lambda>m. fm_farm m = fr_id f \<and> fm_tenant m = fr_tenant f \<and> fm_user m = user \<and>
       in_force now (fm_active m) (fm_expires m) \<and>
       list_ex (\<lambda>u. ur_id u = user \<and> (ur_authority u = ''USER'' \<or>
         (ur_authority u = ''ADMIN'' \<and> fm_role m = ''support'' \<and> fm_expires m \<noteq> None))) (cb_users (ab_core db)))
       (ab_farm_members db)"

definition tenantFilter :: "actor_ctx \<Rightarrow> time \<Rightarrow> admin_db \<Rightarrow> core_farm \<Rightarrow> bool" where
  "tenantFilter c now db f =
     (case TenantID c of
        None \<Rightarrow> True
      | Some t \<Rightarrow> fr_tenant f = t \<and>
          (if TenantRole c \<noteq> [] \<and> TenantRole c \<noteq> ''owner'' \<and> TenantRole c \<noteq> ''admin''
           then (case TenantUserID c of None \<Rightarrow> False | Some actor \<Rightarrow> farm_membership db now f actor)
           else True))"

text \<open>\<open>appFarmScope\<close> and \<open>appFarmConfirmScope\<close> for the user the query is asked for.\<close>

definition appFarmScope :: "actor_ctx \<Rightarrow> time \<Rightarrow> admin_db \<Rightarrow> int \<Rightarrow> core_farm \<Rightarrow> bool" where
  "appFarmScope c now db user f \<longleftrightarrow> tenant_active (ab_core db) (fr_tenant f) \<and>
     (case TenantUserID c of None \<Rightarrow> True | Some actor \<Rightarrow> user = actor) \<and>
     list_ex (\<lambda>(m, u).
       (TenantID c \<noteq> None \<and> TenantUserID c = Some user \<and> (TenantRole c = ''owner'' \<or> TenantRole c = ''admin'') \<and>
          ur_authority u = ''USER'' \<and> mb_role m = TenantRole c) \<or>
       (fr_owner f = Some user \<and> ur_authority u = ''USER'') \<or>
       list_ex (\<lambda>fm. fm_farm fm = fr_id f \<and> fm_tenant fm = fr_tenant f \<and> fm_user fm = user \<and>
         in_force now (fm_active fm) (fm_expires fm) \<and>
         (ur_authority u = ''USER'' \<or> (fm_role fm = ''support'' \<and> fm_expires fm \<noteq> None))) (ab_farm_members db))
       (live_memberships (ab_core db) now (fr_tenant f) user)"

definition appFarmConfirmScope :: "actor_ctx \<Rightarrow> time \<Rightarrow> admin_db \<Rightarrow> int \<Rightarrow> core_farm \<Rightarrow> bool" where
  "appFarmConfirmScope c now db user f \<longleftrightarrow> appFarmScope c now db user f \<and>
     list_ex (\<lambda>m. mb_tenant m = fr_tenant f \<and> mb_user m = user \<and>
       (if TenantRole c = [] then mb_role m \<in> {''owner'', ''admin'', ''member'', ''support''}
        else if TenantRole c \<in> {''owner'', ''admin'', ''member'', ''support''} then mb_role m = TenantRole c
        else False) \<and>
       (case ax_Version c of None \<Rightarrow> True | Some v \<Rightarrow> mb_permission_version m = v)) (cb_members (ab_core db))"

text \<open>The farm of a pond.\<close>

definition farm_of_pond :: "core_db \<Rightarrow> int \<Rightarrow> core_farm list" where
  "farm_of_pond db pond = [f. p \<leftarrow> cb_ponds db, po_id p = pond, f \<leftarrow> cb_farms db, fr_id f = po_farm p]"

text \<open>The condition \<open>f.tenant_id=$\<close> of a statement, present when the actor has a tenant.\<close>

definition own_farm :: "actor_ctx \<Rightarrow> core_farm \<Rightarrow> bool" where
  "own_farm c f \<longleftrightarrow> (case TenantID c of None \<Rightarrow> True | Some t \<Rightarrow> fr_tenant f = t)"

definition own_pond :: "actor_ctx \<Rightarrow> core_db \<Rightarrow> int \<Rightarrow> bool" where
  "own_pond c db pond \<longleftrightarrow> list_ex (own_farm c) (farm_of_pond db pond)"

subsection \<open>Facts\<close>

lemma Allow_write: "Allow role res ''write'' = Inr True \<Longrightarrow> role = ''owner'' \<or> role = ''admin''"
  by (auto simp: Allow_def policy_rules_def)

text \<open>A write in a tenant is allowed to its live owners and administrators only.\<close>

definition write_authorized :: "actor_ctx \<Rightarrow> time \<Rightarrow> core_db \<Rightarrow> bool" where
  "write_authorized c now db \<longleftrightarrow> (\<exists>tenant actor m u. TenantID c = Some tenant \<and> TenantUserID c = Some actor \<and>
     tenant_active db tenant \<and> m \<in> set (cb_members db) \<and> mb_tenant m = tenant \<and> mb_user m = actor \<and>
     in_force now (mb_active m) (mb_expires m) \<and> mb_role m = TenantRole c \<and> (mb_role m = ''owner'' \<or> mb_role m = ''admin'') \<and>
     u \<in> set (cb_users db) \<and> ur_id u = actor \<and> ur_authority u = ''USER'' \<and>
     (\<forall>v. ax_Version c = Some v \<longrightarrow> v = mb_permission_version m))"

lemma AuthorizeTenantWrite_Inr:
  assumes "AuthorizeTenantWrite (Some Allow) c x res ''write'' db = Inr r" and "HasTenantScope c"
  shows "write_authorized c (cx_now x) db"
proof -
  obtain tenant actor where t: "TenantID c = Some tenant" "TenantUserID c = Some actor"
    using assms by (auto simp: AuthorizeTenantWrite_def split: option.split_asm)
  obtain m u r2 where m: "live_memberships db (cx_now x) tenant actor = (m, u) # r2" "tenant_active db tenant"
      "mb_role m = TenantRole c" "Allow (mb_role m) res ''write'' = Inr True"
      "\<forall>v. ax_Version c = Some v \<longrightarrow> v = mb_permission_version m"
    using assms t by (auto simp: AuthorizeTenantWrite_def require_Inr after_Inr split: if_split_asm list.split_asm option.split_asm)
  have "(m, u) \<in> set (live_memberships db (cx_now x) tenant actor)" using m(1) by simp
  then have "m \<in> set (cb_members db)" "mb_tenant m = tenant" "mb_user m = actor"
      "in_force (cx_now x) (mb_active m) (mb_expires m)" "u \<in> set (cb_users db)" "ur_id u = actor"
      "ur_authority u = ''USER'' \<or> mb_role m = ''support''"
    by (auto simp: live_memberships_def)
  moreover have "mb_role m = ''owner'' \<or> mb_role m = ''admin''" by (rule Allow_write[OF m(4)])
  ultimately show ?thesis unfolding write_authorized_def using t m by force
qed

end
