(* ===== verification/License_Runtime.thy ===== *)
theory License_Runtime
  imports Tenant_Access
begin

text \<open>
  \<open>core/license_clock.go\<close>, \<open>core/license_runtime.go\<close>, \<open>core/license_import.go\<close> and
  \<open>core/license_audit.go\<close>: the high-water mark of the process clock and its latch, the status of the
  license, the admission of a device and the import of a license. The clock is read where the code reads
  it; each reading is an argument. A transaction that fails leaves the tables as they were. Statements:
  60 to 63 the clock (begin, read, write, commit), 70 on the license.
\<close>

record license_runtime =
  lr_PublicKey :: "string option"
  lr_KeyID :: string

record license_setup =
  lx_env :: license_env
  lx_core :: core_env
  lx_runtime :: "license_runtime option"

definition behind :: "time option \<Rightarrow> time \<Rightarrow> bool" where
  "behind maxSeen now \<longleftrightarrow> (case maxSeen of None \<Rightarrow> False | Some t \<Rightarrow> now < t + - 5 * minute)"

subsection \<open>The clock\<close>

definition observeLicenseClock ::
  "license_setup \<Rightarrow> core_tx \<Rightarrow> time \<Rightarrow> admin_db \<Rightarrow> admin_error option \<times> admin_db" where
  "observeLicenseClock w x now db =
     (if cx_fails x 60 \<or> cx_fails x 61 then (Some AStore, db)
      else if ab_clock_error db \<or> behind (ab_max_seen db) now then
        (if \<not> ab_clock_error db \<and> cx_fails x 62 then (Some AStore, db)
         else if cx_fails x 63 then (Some AStore, db)
         else (Some (ALicense ClockError), db\<lparr>ab_clock_error := True\<rparr>))
      else if (case ab_max_seen db of None \<Rightarrow> True | Some t \<Rightarrow> now > t) then
        (if cx_fails x 62 \<or> cx_fails x 63 then (Some AStore, db)
         else (None, db\<lparr>ab_max_seen := Some (ce_time (lx_core w) now)\<rparr>))
      else if cx_fails x 63 then (Some AStore, db)
      else (None, db))"

definition add_audit :: "string \<Rightarrow> int option \<Rightarrow> string \<Rightarrow> string \<Rightarrow> int option \<Rightarrow> admin_db \<Rightarrow> admin_db" where
  "add_audit act tenant typ res actor db =
     db\<lparr>ab_audit := ab_audit db @ [\<lparr>au_tenant = tenant, au_actor = actor, au_action = act, au_type = typ, au_id = res\<rparr>]\<rparr>"

definition system_tenant_id :: "core_db \<Rightarrow> int option" where
  "system_tenant_id db = map_option te_id (find (\<lambda>t. te_name t = system_tenant) (cb_tenants db))"

definition ReconcileLicenseClock :: "core_tx \<Rightarrow> time \<Rightarrow> int \<Rightarrow> admin_db \<Rightarrow> admin_error option \<times> admin_db" where
  "ReconcileLicenseClock x now actorID db =
     (if cx_fails x 60 \<or> cx_fails x 61 then (Some AStore, db)
      else if (case ab_max_seen db of None \<Rightarrow> False | Some t \<Rightarrow> now < t) then (Some (ALicense ClockError), db)
      else if \<not> ab_clock_error db then (None, db)
      else if cx_fails x 62 \<or> cx_fails x 64 \<or> cx_fails x 63 then (Some AStore, db)
      else (None, add_audit ''license.clock_reconciled'' (system_tenant_id (ab_core db)) ''license'' ''clock'' (Some actorID)
        (db\<lparr>ab_clock_error := False\<rparr>)))"

definition checkLicenseClock :: "core_tx \<Rightarrow> time \<Rightarrow> admin_db \<Rightarrow> (admin_error, unit) result" where
  "checkLicenseClock x now db =
     require (\<not> cx_fails x 71) AStore
     (require (\<not> (ab_clock_error db \<or> behind (ab_max_seen db) now)) (ALicense ClockError) (Inr ()))"

subsection \<open>The license in force\<close>

definition enclose :: "string \<Rightarrow> string \<Rightarrow> Envelope" where
  "enclose payload signature = \<lparr>ev_PayloadB64 = b64Encode payload, ev_SignatureB64 = b64Encode signature\<rparr>"

definition stored_license :: "admin_db \<Rightarrow> string \<times> string \<times> string" where
  "stored_license db = (case ab_license db of None \<Rightarrow> ([], [], []) | Some row \<Rightarrow> row)"

text \<open>The stored license under the key of the deployment.\<close>

definition verified_license :: "license_setup \<Rightarrow> string option \<Rightarrow> string \<Rightarrow> admin_db \<Rightarrow> Verified option" where
  "verified_license w key keyID db =
     (case stored_license db of (payload, signature, sha) \<Rightarrow>
      case VerifyLicense (lx_env w) (enclose payload signature) key of
        Inl _ \<Rightarrow> None
      | Inr v \<Rightarrow> if vf_SHA256 v = sha \<and> lp_KeyID (vf_Payload v) = keyID then Some v else None)"

definition live_count :: "core_db \<Rightarrow> int" where
  "live_count db = int (length (filter (\<lambda>d. \<not> de_disabled d) (cb_devices db)))"

definition bare_status :: "admin_db \<Rightarrow> license_status" where
  "bare_status db = \<lparr>ls_State = StateInvalid, ls_LicenseID = None, ls_DeploymentID = Some (ab_deployment db),
     ls_KeyID = None, ls_IssuedAt = None, ls_NotBefore = None, ls_ExpiresAt = None, ls_MaxDevices = 0, ls_Features = [],
     ls_UsedDevices = 0, ls_Overage = 0, ls_PayloadSHA256 = None\<rparr>"

definition described :: "Verified \<Rightarrow> license_state \<Rightarrow> license_status \<Rightarrow> license_status" where
  "described v st s = s\<lparr>ls_LicenseID := Some (lp_LicenseID (vf_Payload v)), ls_KeyID := Some (lp_KeyID (vf_Payload v)),
     ls_IssuedAt := Some (lp_IssuedAt (vf_Payload v)), ls_NotBefore := Some (lp_NotBefore (vf_Payload v)),
     ls_ExpiresAt := lp_ExpiresAt (vf_Payload v), ls_MaxDevices := lp_MaxDevices (vf_Payload v),
     ls_Features := lp_Features (vf_Payload v), ls_PayloadSHA256 := Some (vf_SHA256 v), ls_State := st\<rparr>"

definition current_status :: "license_setup \<Rightarrow> time \<Rightarrow> admin_db \<Rightarrow> license_status" where
  "current_status w now db =
     (let s = bare_status db; (payload, signature, sha) = stored_license db in
      if length payload = 0 \<and> length signature = 0
      then s\<lparr>ls_State := (if ab_clock_error db then StateClockError else StateMissing)\<rparr>
      else (case lx_runtime w of
        None \<Rightarrow> s
      | Some r \<Rightarrow>
          if lr_PublicKey r = None \<or> length payload = 0 \<or> length signature = 0 then s
          else (case verified_license w (lr_PublicKey r) (lr_KeyID r) db of
            Some v \<Rightarrow> described v (EvaluateLicense (vf_Payload v) (ab_deployment db) now
                (case ab_max_seen db of None \<Rightarrow> time_zero | Some t \<Rightarrow> t) (ab_clock_error db)) s
          | None \<Rightarrow> if ab_clock_error db then s\<lparr>ls_State := StateClockError\<rparr> else s)))"

definition with_usage :: "int \<Rightarrow> license_status \<Rightarrow> license_status" where
  "with_usage used s =
     (let s = s\<lparr>ls_UsedDevices := used\<rparr> in
      if used > ls_MaxDevices s
      then s\<lparr>ls_Overage := used - ls_MaxDevices s,
             ls_State := (if ls_State s = StateValid \<or> ls_State s = StatePermanent then StateOverage else ls_State s)\<rparr>
      else s)"

text \<open>The administrator of the platform in the context, if there is one, as the token saw it.\<close>

definition platform_actor_live :: "actor_ctx \<Rightarrow> core_tx \<Rightarrow> core_db \<Rightarrow> (admin_error, unit) result" where
  "platform_actor_live c x db =
     (case ax_Platform c of
        None \<Rightarrow> Inr ()
      | Some (actor, version) \<Rightarrow>
          require (\<not> cx_fails x 73) AStore
          (case filter (\<lambda>u. ur_id u = actor \<and> ur_authority u = ''ADMIN'') (cb_users db) of
             [] \<Rightarrow> Inl AForbidden
           | u # _ \<Rightarrow> require (ur_token_version u = version) AForbidden (Inr ())))"

definition LicenseStatus ::
  "license_setup \<Rightarrow> actor_ctx \<Rightarrow> core_tx \<Rightarrow> time \<Rightarrow> time \<Rightarrow> admin_db \<Rightarrow> (admin_error, license_status) result \<times> admin_db" where
  "LicenseStatus w c x seen now db =
     (case observeLicenseClock w x seen db of (err, db) \<Rightarrow>
      if err \<noteq> None \<and> err \<noteq> Some (ALicense ClockError) then (Inl AStore, db)
      else (require (\<not> cx_fails x 72) AStore
        (after (platform_actor_live c x (ab_core db)) (\<lambda>_.
         require (\<not> cx_fails x 74 \<and> \<not> cx_fails x 71 \<and> \<not> cx_fails x 75 \<and> \<not> cx_fails x 76) AStore
         (Inr (with_usage (live_count (ab_core db)) (current_status w now db))))), db))"

definition license_ready :: "license_setup \<Rightarrow> bool" where
  "license_ready w \<longleftrightarrow> (case lx_runtime w of None \<Rightarrow> False | Some r \<Rightarrow> lr_PublicKey r \<noteq> None \<and> lr_KeyID r \<noteq> [])"

definition RequireLicenseFeature ::
  "license_setup \<Rightarrow> actor_ctx \<Rightarrow> core_tx \<Rightarrow> time \<Rightarrow> time \<Rightarrow> string \<Rightarrow> admin_db \<Rightarrow> (admin_error, unit) result \<times> admin_db" where
  "RequireLicenseFeature w c x seen now feature db =
     (if \<not> license_ready w then (Inl (ALicense LicenseUnavailable), db)
      else (case LicenseStatus w c x seen now db of
        (Inl err, db) \<Rightarrow> (Inl err, db)
      | (Inr s, db) \<Rightarrow> (case AllowsFeature s feature of None \<Rightarrow> (Inr (), db) | Some err \<Rightarrow> (Inl (ALicense err), db))))"

subsection \<open>Admission of a device\<close>

text \<open>\<open>lockLicenseState\<close> reads the row, which always exists; \<open>checked\<close> and \<open>now\<close> are the two readings of the clock.\<close>

definition lockLicenseState :: "core_tx \<Rightarrow> (admin_error, unit) result" where
  "lockLicenseState x = require (\<not> cx_fails x 70) AStore (Inr ())"

definition checkDeviceAdmission ::
  "license_setup \<Rightarrow> core_tx \<Rightarrow> time \<Rightarrow> time \<Rightarrow> admin_db \<Rightarrow> (admin_error, unit) result" where
  "checkDeviceAdmission w x checked now db =
     take_or (lx_runtime w) (ALicense LicenseUnavailable) (\<lambda>r.
     require (lr_PublicKey r \<noteq> None \<and> lr_KeyID r \<noteq> []) (ALicense LicenseUnavailable)
     (after (lockLicenseState x) (\<lambda>_.
      after (checkLicenseClock x checked db) (\<lambda>_.
      require (\<not> cx_fails x 74 \<and> \<not> cx_fails x 75) AStore
      (take_or (verified_license w (lr_PublicKey r) (lr_KeyID r) db) (ALicense LicenseRequired) (\<lambda>v.
       require (EvaluateLicense (vf_Payload v) (ab_deployment db) now time_zero False \<in> {StateValid, StatePermanent})
         (ALicense LicenseRequired)
       (require (\<not> cx_fails x 76) AStore
       (require (\<not> live_count (ab_core db) \<ge> lp_MaxDevices (vf_Payload v)) (ALicense QuotaExceeded) (Inr ())))))))))"

text \<open>
  What \<open>finishLicenseTransaction\<close> does after a call that ends with \<open>err\<close>: a clock error is observed once
  more, in a transaction of its own. When that fails the code joins the second error to the first.
\<close>

definition finishLicenseTransaction ::
  "license_setup \<Rightarrow> core_tx \<Rightarrow> time \<Rightarrow> admin_error option \<Rightarrow> admin_db \<Rightarrow> admin_error option \<times> admin_db" where
  "finishLicenseTransaction w x now err db =
     (err, if err = Some (ALicense ClockError) then snd (observeLicenseClock w x now db) else db)"

subsection \<open>Import\<close>

definition RecordLicenseRejection :: "license_setup \<Rightarrow> core_tx \<Rightarrow> string \<Rightarrow> int \<Rightarrow> admin_db \<Rightarrow> (admin_error, admin_db) result" where
  "RecordLicenseRejection w x raw actorID db =
     require (\<not> cx_fails x 80) AStore
     (Inr (add_audit ''license.import_rejected'' (system_tenant_id (ab_core db)) ''license''
        (hexEncode (le_sha256 (lx_env w) raw)) (Some actorID) db))"

definition reject_import ::
  "license_setup \<Rightarrow> core_tx \<Rightarrow> string \<Rightarrow> int \<Rightarrow> admin_error \<Rightarrow> admin_db \<Rightarrow> admin_error option \<times> admin_db" where
  "reject_import w x raw actorID cause db =
     (case RecordLicenseRejection w x raw actorID db of
        Inl err \<Rightarrow> (Some err, db)
      | Inr db \<Rightarrow> (Some cause, db))"

definition import_result ::
  "license_setup \<Rightarrow> license_runtime \<Rightarrow> core_tx \<Rightarrow> time \<Rightarrow> time \<Rightarrow> Envelope \<Rightarrow> admin_db \<Rightarrow> (admin_error, Verified) result" where
  "import_result w r x checked now envelope db =
     after (checkLicenseClock x checked db) (\<lambda>_.
     case VerifyLicense (lx_env w) envelope (lr_PublicKey r) of
       Inl err \<Rightarrow> Inl (ALicense err)
     | Inr v \<Rightarrow>
         require (lp_KeyID (vf_Payload v) = lr_KeyID r) (ALicense InvalidPayload)
         (case EvaluateLicense (vf_Payload v) (ab_deployment db) now time_zero False of
            StateInstanceMismatch \<Rightarrow> Inl (ALicense InstanceMismatch)
          | StateClockError \<Rightarrow> Inl (ALicense InvalidPayload)
          | StateNotBefore \<Rightarrow> Inl (ALicense NotBefore)
          | StateExpired \<Rightarrow> Inl (ALicense LicenseExpired)
          | _ \<Rightarrow> Inr v))"

definition store_license :: "core_tx \<Rightarrow> Verified \<Rightarrow> int \<Rightarrow> admin_db \<Rightarrow> (admin_error, admin_db) result" where
  "store_license x v actorID db =
     require (\<not> cx_fails x 75) AStore
     (if (case stored_license db of (_, _, sha) \<Rightarrow> sha = vf_SHA256 v)
      then require (\<not> cx_fails x 79) AStore (Inr db)
      else require (\<not> cx_fails x 77 \<and> \<not> cx_fails x 78 \<and> \<not> cx_fails x 79) AStore
        (Inr (add_audit ''license.imported'' (system_tenant_id (ab_core db)) ''license''
           (lp_LicenseID (vf_Payload v)) (Some actorID)
           (db\<lparr>ab_license := Some (vf_PayloadRaw v, vf_Signature v, vf_SHA256 v)\<rparr>))))"

text \<open>\<open>xo\<close> and \<open>xe\<close> are the transactions of the two observations, \<open>seen\<close> and \<open>ended\<close> their clocks.\<close>

definition ImportLicenseRaw ::
  "license_setup \<Rightarrow> actor_ctx \<Rightarrow> core_tx \<Rightarrow> core_tx \<Rightarrow> core_tx \<Rightarrow> time \<Rightarrow> time \<Rightarrow> time \<Rightarrow> time \<Rightarrow> string \<Rightarrow> Envelope \<Rightarrow> int \<Rightarrow>
   admin_db \<Rightarrow> admin_error option \<times> admin_db" where
  "ImportLicenseRaw w c xo x xe seen checked now ended raw envelope actorID db =
     (case lx_runtime w of
        None \<Rightarrow> (Some (ALicense LicenseUnavailable), db)
      | Some r \<Rightarrow>
          if lr_PublicKey r = None \<or> lr_KeyID r = [] then (Some (ALicense LicenseUnavailable), db)
          else (case observeLicenseClock w xo seen db of
            (Some err, db) \<Rightarrow>
              if err = ALicense ClockError then reject_import w x raw actorID err db else (Some err, db)
          | (None, db) \<Rightarrow>
              if cx_fails x 72 then (Some AStore, db)
              else (case platform_actor_live c x (ab_core db) of
                Inl err \<Rightarrow> (Some err, db)
              | Inr _ \<Rightarrow>
                  if cx_fails x 74 \<or> cx_fails x 70 then (Some AStore, db)
                  else (case import_result w r x checked now envelope db of
                    Inl cause \<Rightarrow> (case reject_import w x raw actorID cause db of (err, db) \<Rightarrow>
                      finishLicenseTransaction w xe ended err db)
                  | Inr v \<Rightarrow> (case store_license x v actorID db of
                      Inl err \<Rightarrow> (Some err, db)
                    | Inr db \<Rightarrow> (None, db))))))"

end
