(* ===== verification/License_Clock.thy ===== *)
theory License_Clock
  imports License_Runtime
begin

text \<open>
  What the license and its clock keep over any run of calls: the high-water mark never goes back, a
  latched clock error stays until it is reconciled at the mark or later, and while it stays no device is
  admitted, no feature is granted and no license is replaced. Then what an admission and an import
  rest on.
\<close>

subsection \<open>Runs\<close>

datatype license_call =
    ObserveClock core_tx time
  | ReadStatus actor_ctx core_tx time time
  | UseFeature actor_ctx core_tx time time string
  | ImportLicense actor_ctx core_tx core_tx core_tx time time time time string Envelope int
  | RejectRaw core_tx string int
  | Reconcile core_tx time int

fun license_step :: "license_setup \<Rightarrow> license_call \<Rightarrow> admin_db \<Rightarrow> admin_db" where
  "license_step w (ObserveClock x now) db = snd (observeLicenseClock w x now db)"
| "license_step w (ReadStatus c x seen now) db = snd (LicenseStatus w c x seen now db)"
| "license_step w (UseFeature c x seen now feature) db = snd (RequireLicenseFeature w c x seen now feature db)"
| "license_step w (ImportLicense c xo x xe seen checked now ended raw e actor) db =
     snd (ImportLicenseRaw w c xo x xe seen checked now ended raw e actor db)"
| "license_step w (RejectRaw x raw actor) db =
     (case RecordLicenseRejection w x raw actor db of Inl _ \<Rightarrow> db | Inr db' \<Rightarrow> db')"
| "license_step w (Reconcile x now actor) db = snd (ReconcileLicenseClock x now actor db)"

definition license_run :: "license_setup \<Rightarrow> license_call list \<Rightarrow> admin_db \<Rightarrow> admin_db" where
  "license_run w cs db = fold (license_step w) cs db"

text \<open>A reconciliation with a clock that has reached the mark.\<close>

fun reconciles :: "time option \<Rightarrow> license_call \<Rightarrow> bool" where
  "reconciles m (Reconcile x now actor) \<longleftrightarrow> (case m of None \<Rightarrow> True | Some t \<Rightarrow> t \<le> now)"
| "reconciles m _ \<longleftrightarrow> False"

subsection \<open>What each call changes\<close>

text \<open>The license part of the tables: the mark, the latch and the license.\<close>

definition clock_part :: "admin_db \<Rightarrow> time option \<times> bool \<times> (string \<times> string \<times> string) option" where
  "clock_part db = (ab_max_seen db, ab_clock_error db, ab_license db)"

lemma add_audit_keeps [simp]:
  "ab_max_seen (add_audit a t ty r u db) = ab_max_seen db" "ab_clock_error (add_audit a t ty r u db) = ab_clock_error db"
  "ab_license (add_audit a t ty r u db) = ab_license db" "ab_core (add_audit a t ty r u db) = ab_core db"
  "ab_deployment (add_audit a t ty r u db) = ab_deployment db"
  by (simp_all add: add_audit_def)

lemma observe_latched: "ab_clock_error db \<Longrightarrow> clock_part (snd (observeLicenseClock w x now db)) = clock_part db"
  by (auto simp: observeLicenseClock_def clock_part_def)

lemma observe_latched_error: "ab_clock_error db \<Longrightarrow> fst (observeLicenseClock w x now db) \<noteq> None"
  by (auto simp: observeLicenseClock_def)

lemma reject_keeps: "clock_part (snd (reject_import w x raw actor cause db)) = clock_part db"
  by (simp add: reject_import_def RecordLicenseRejection_def require_def clock_part_def)

lemma status_observes: "snd (LicenseStatus w c x seen now db) = snd (observeLicenseClock w x seen db)"
  by (auto simp: LicenseStatus_def split: prod.split)

lemma feature_observes:
  "snd (RequireLicenseFeature w c x seen now feature db) = (if license_ready w then snd (observeLicenseClock w x seen db) else db)"
proof (cases "LicenseStatus w c x seen now db")
  case (Pair r db')
  with status_observes[of w c x seen now db] show ?thesis
    by (cases r) (auto simp: RequireLicenseFeature_def split: option.split)
qed

lemma latched_step:
  assumes "ab_clock_error db" and "\<not> reconciles (ab_max_seen db) call"
  shows "clock_part (license_step w call db) = clock_part db"
proof (cases call)
  case (ImportLicense c xo x xe seen checked now ended raw e actor)
  obtain err db' where o: "observeLicenseClock w xo seen db = (Some err, db')"
    using observe_latched_error[OF assms(1), of w xo seen] by (cases "observeLicenseClock w xo seen db") auto
  have "clock_part db' = clock_part db" using observe_latched[OF assms(1), of w xo seen] o by simp
  then show ?thesis
    by (simp add: ImportLicense ImportLicenseRaw_def o reject_keeps split: option.split)
next
  case (Reconcile x now actor)
  then show ?thesis using assms(2) by (auto simp: ReconcileLicenseClock_def split: option.split_asm)
next
  case (RejectRaw x raw actor)
  then show ?thesis by (simp add: RecordLicenseRejection_def require_def clock_part_def)
qed (use assms in \<open>simp_all add: observe_latched status_observes feature_observes\<close>)

lemma latched_run:
  "ab_clock_error db \<Longrightarrow> list_all (\<lambda>call. \<not> reconciles (ab_max_seen db) call) cs \<Longrightarrow>
   clock_part (license_run w cs db) = clock_part db"
proof (induction cs arbitrary: db)
  case (Cons call cs)
  have c: "clock_part (license_step w call db) = clock_part db" using latched_step Cons(2,3) by simp
  with Cons(1)[of "license_step w call db"] Cons(2,3) show ?case by (simp add: license_run_def clock_part_def)
qed (simp add: license_run_def)

lemma latched_admits_nothing: "ab_clock_error db \<Longrightarrow> \<not> is_ok (checkDeviceAdmission w x checked now db)"
  by (auto simp: is_ok_iff checkDeviceAdmission_def checkLicenseClock_def iolink_simps)

lemma latched_state: "ab_clock_error db \<Longrightarrow> ls_State (current_status w now db) \<in> {StateClockError, StateInvalid}"
  by (auto simp: current_status_def Let_def bare_status_def described_def EvaluateLicense_def split: prod.split option.split)

lemma with_usage_state: "ls_State s \<in> {StateClockError, StateInvalid} \<Longrightarrow> ls_State (with_usage n s) = ls_State s"
  by (auto simp: with_usage_def Let_def)

lemma latched_grants_nothing:
  assumes "ab_clock_error db"
  shows "\<not> is_ok (fst (RequireLicenseFeature w c x seen now feature db))"
proof -
  obtain err db' where o: "observeLicenseClock w x seen db = (err, db')" by (cases "observeLicenseClock w x seen db")
  have l: "ab_clock_error db'" using observe_latched[OF assms, of w x seen] assms by (simp add: o clock_part_def)
  then have st: "ls_State (with_usage n (current_status w now db')) \<notin> {StateValid, StatePermanent, StateOverage}" for n
    using latched_state[OF l, of w now] with_usage_state[of "current_status w now db'" n] by auto
  then have af: "AllowsFeature (with_usage n (current_status w now db')) feature \<noteq> None" for n
    by (auto simp: AllowsFeature_def)
  show ?thesis
  proof (rule notI, unfold is_ok_iff, elim exE)
    fix u assume "fst (RequireLicenseFeature w c x seen now feature db) = Inr u"
    then obtain s where "fst (LicenseStatus w c x seen now db) = Inr s" "AllowsFeature s feature = None"
      by (auto simp: RequireLicenseFeature_def split: if_split_asm sum.split_asm prod.split_asm option.split_asm)
    then show False using af[of "live_count (ab_core db')"] by (auto simp: LicenseStatus_def o iolink_simps split: if_split_asm)
  qed
qed

subsection \<open>The latch\<close>

text \<open>
  C33: Once the license clock is latched, no sequence of observations, status reads, feature checks, imports
  and reconciliations with a clock before the high-water mark releases it, moves the mark or replaces
  the license; no device is admitted and no feature granted after it.
\<close>

theorem latched_clock_denies_all:
  assumes "ab_clock_error db"
    and "list_all (\<lambda>call. \<not> reconciles (ab_max_seen db) call) cs"
  shows "clock_part (license_run w cs db) = clock_part db \<and>
    \<not> is_ok (checkDeviceAdmission w x checked now (license_run w cs db)) \<and>
    \<not> is_ok (fst (RequireLicenseFeature w c x seen now feature (license_run w cs db)))"
proof -
  have "clock_part (license_run w cs db) = clock_part db" using latched_run assms by blast
  moreover from this assms(1) have "ab_clock_error (license_run w cs db)" by (simp add: clock_part_def)
  ultimately show ?thesis using latched_admits_nothing latched_grants_nothing by blast
qed

subsection \<open>The mark\<close>

definition mark_reached :: "core_env \<Rightarrow> time \<Rightarrow> admin_db \<Rightarrow> bool" where
  "mark_reached env m db \<longleftrightarrow> (\<exists>t. ab_max_seen db = Some t \<and> m \<le> t \<and> ce_time env t = t)"

text \<open>The database keeps instants rounded: rounding is monotone, and a rounded instant is kept as it is.\<close>

definition rounds_time :: "core_env \<Rightarrow> bool" where
  "rounds_time env \<longleftrightarrow> mono (ce_time env) \<and> (\<forall>t. ce_time env (ce_time env t) = ce_time env t)"

lemma mark_reached_cong: "ab_max_seen db' = ab_max_seen db \<Longrightarrow> mark_reached env m db' = mark_reached env m db"
  by (simp add: mark_reached_def)

lemma rounds_above: "rounds_time env \<Longrightarrow> ce_time env t = t \<Longrightarrow> t \<le> now \<Longrightarrow> t \<le> ce_time env now"
  unfolding rounds_time_def by (metis monoD)

lemma observe_mark:
  assumes "rounds_time (lx_core w)" and "mark_reached (lx_core w) m db"
  shows "mark_reached (lx_core w) m (snd (observeLicenseClock w x now db))"
proof -
  obtain t where t: "ab_max_seen db = Some t" "m \<le> t" "ce_time (lx_core w) t = t" using assms(2) by (auto simp: mark_reached_def)
  have "ab_max_seen (snd (observeLicenseClock w x now db)) = Some t \<or>
      (ab_max_seen (snd (observeLicenseClock w x now db)) = Some (ce_time (lx_core w) now) \<and> t \<le> now)"
    using t(1) by (simp add: observeLicenseClock_def)
  then show ?thesis
    using rounds_above[OF assms(1) t(3), of now] t assms(1) by (auto simp: mark_reached_def rounds_time_def)
qed

lemma reconcile_keeps_mark: "ab_max_seen (snd (ReconcileLicenseClock x now actor db)) = ab_max_seen db"
  by (simp add: ReconcileLicenseClock_def split: option.split)

lemma reject_keeps_mark: "ab_max_seen (snd (reject_import w x raw actor cause db)) = ab_max_seen db"
  using reject_keeps[of w x raw actor cause db] by (simp add: clock_part_def)

lemma store_license_keeps: "store_license x v actor db = Inr db' \<Longrightarrow>
    ab_max_seen db' = ab_max_seen db \<and> ab_core db' = ab_core db \<and> ab_clock_error db' = ab_clock_error db \<and>
    ab_deployment db' = ab_deployment db"
  by (auto simp: store_license_def iolink_simps split: if_split_asm)

text \<open>The ways an import ends.\<close>

lemma import_cases:
  assumes "observeLicenseClock w xo seen db = (oerr, db1)"
    and "\<And>err. Q (Some err, db)" and "\<And>err. Q (Some err, db1)"
    and "\<And>cause. Q (reject_import w x raw actor cause db1)"
    and "\<And>cause. Q (finishLicenseTransaction w xe ended (fst (reject_import w x raw actor cause db1))
           (snd (reject_import w x raw actor cause db1)))"
    and "\<And>r v db2. lx_runtime w = Some r \<Longrightarrow> import_result w r x checked now e db1 = Inr v \<Longrightarrow>
           store_license x v actor db1 = Inr db2 \<Longrightarrow> Q (None, db2)"
  shows "Q (ImportLicenseRaw w c xo x xe seen checked now ended raw e actor db)"
  unfolding ImportLicenseRaw_def assms(1) case_prod_unfold
  using assms(2-) by (simp split: option.split sum.split)

lemma import_mark:
  assumes "rounds_time (lx_core w)" and "mark_reached (lx_core w) m db"
  shows "mark_reached (lx_core w) m (snd (ImportLicenseRaw w c xo x xe seen checked now ended raw e actor db))"
proof -
  obtain oerr db1 where o: "observeLicenseClock w xo seen db = (oerr, db1)" by (cases "observeLicenseClock w xo seen db")
  have m1: "mark_reached (lx_core w) m db1" using observe_mark[OF assms, of xo seen] o by simp
  have m2: "mark_reached (lx_core w) m (snd (reject_import w x raw actor cause db1))" for cause
    using m1 mark_reached_cong[OF reject_keeps_mark] by blast
  have m3: "mark_reached (lx_core w) m (snd (finishLicenseTransaction w xe ended err2 db2))" if "mark_reached (lx_core w) m db2" for err2 db2
    using that observe_mark[OF assms(1) that] by (simp add: finishLicenseTransaction_def)
  have m4: "mark_reached (lx_core w) m db2" if "store_license x v actor db1 = Inr db2" for v db2
    using m1 mark_reached_cong store_license_keeps[OF that] by metis
  show ?thesis
    by (rule import_cases[OF o, where Q = "\<lambda>res. mark_reached (lx_core w) m (snd res)"])
      (simp_all add: assms(2) m1 m2 m3 m4)
qed

lemma step_mark:
  assumes "rounds_time (lx_core w)" and "mark_reached (lx_core w) m db"
  shows "mark_reached (lx_core w) m (license_step w call db)"
proof (cases call)
  case (Reconcile x now actor)
  then show ?thesis using assms(2) mark_reached_cong[OF reconcile_keeps_mark] by simp
next
  case (RejectRaw x raw actor)
  have "ab_max_seen (license_step w call db) = ab_max_seen db"
    by (simp add: RejectRaw RecordLicenseRejection_def require_def)
  then show ?thesis using assms(2) mark_reached_cong by blast
qed (use assms in \<open>simp_all add: observe_mark status_observes feature_observes import_mark\<close>)

lemma run_mark:
  "rounds_time (lx_core w) \<Longrightarrow> mark_reached (lx_core w) m db \<Longrightarrow> mark_reached (lx_core w) m (license_run w cs db)"
  by (induction cs arbitrary: db) (simp_all add: license_run_def step_mark)

lemma accepted_observation_marks:
  assumes "rounds_time (lx_core w)" and "observeLicenseClock w x n db = (None, db')"
    and "\<And>t. ab_max_seen db = Some t \<Longrightarrow> ce_time (lx_core w) t = t"
  shows "mark_reached (lx_core w) (ce_time (lx_core w) n) db'"
  using assms unfolding rounds_time_def
  by (auto simp: observeLicenseClock_def mark_reached_def split: if_split_asm option.split_asm) (metis monoD not_less)

lemma before_mark_latches:
  assumes "mark_reached env m db" and "seen < m - 5 * minute"
  shows "fst (observeLicenseClock w x seen db) = Some AStore \<or> ab_clock_error (snd (observeLicenseClock w x seen db))"
  using assms by (auto simp: observeLicenseClock_def mark_reached_def behind_def)

lemma unobserved_grants_nothing: "fst (observeLicenseClock w x seen db) = Some AStore \<Longrightarrow>
    \<not> is_ok (fst (RequireLicenseFeature w c x seen now feature db))"
  by (auto simp: RequireLicenseFeature_def LicenseStatus_def is_ok_iff split: prod.splits)

text \<open>What a check of a feature answers depends on the tables after its observation.\<close>

lemma observed_latch_grants_nothing:
  assumes "ab_clock_error (snd (observeLicenseClock w x seen db))"
  shows "\<not> is_ok (fst (RequireLicenseFeature w c x seen now feature db))"
proof -
  obtain err db' where o: "observeLicenseClock w x seen db = (err, db')" by (cases "observeLicenseClock w x seen db")
  then have l: "ab_clock_error db'" using assms by simp
  have st: "ls_State (with_usage n (current_status w now db')) \<notin> {StateValid, StatePermanent, StateOverage}" for n
    using latched_state[OF l, of w now] with_usage_state[of "current_status w now db'" n] by auto
  then have af: "AllowsFeature (with_usage n (current_status w now db')) feature \<noteq> None" for n
    by (auto simp: AllowsFeature_def)
  show ?thesis
  proof (rule notI, unfold is_ok_iff, elim exE)
    fix u assume "fst (RequireLicenseFeature w c x seen now feature db) = Inr u"
    then obtain s where "fst (LicenseStatus w c x seen now db) = Inr s" "AllowsFeature s feature = None"
      by (auto simp: RequireLicenseFeature_def split: if_split_asm sum.split_asm prod.split_asm option.split_asm)
    then show False using af[of "live_count (ab_core db')"] by (auto simp: LicenseStatus_def o iolink_simps split: if_split_asm)
  qed
qed

text \<open>
  C32: After the license clock has been observed at \<open>n\<close>, a process whose clock has gone back more than five
  minutes before \<open>n\<close> is admitted no device and granted no feature, whatever calls, reconciliations
  included, came in between.
\<close>

theorem rolled_back_clock_denied:
  assumes "rounds_time (lx_core w)"
    and "\<And>t. ab_max_seen db = Some t \<Longrightarrow> ce_time (lx_core w) t = t"
    and "observeLicenseClock w x n db = (None, db1)"
    and "back < ce_time (lx_core w) n - 5 * minute"
  shows "\<not> is_ok (checkDeviceAdmission w y back now (license_run w cs db1)) \<and>
    \<not> is_ok (fst (RequireLicenseFeature w c y back now feature (license_run w cs db1)))"
proof -
  have m: "mark_reached (lx_core w) (ce_time (lx_core w) n) (license_run w cs db1)"
    using run_mark[OF assms(1) accepted_observation_marks[OF assms(1,3,2)]] by simp
  then have "behind (ab_max_seen (license_run w cs db1)) back" using assms(4) by (auto simp: mark_reached_def behind_def)
  then have "\<not> is_ok (checkDeviceAdmission w y back now (license_run w cs db1))"
    by (auto simp: is_ok_iff checkDeviceAdmission_def checkLicenseClock_def iolink_simps)
  then show ?thesis
    using before_mark_latches[OF m assms(4)] unobserved_grants_nothing observed_latch_grants_nothing by blast
qed

subsection \<open>Admission\<close>

lemma VerifyLicense_enclosed:
  assumes "VerifyLicense env (enclose payload signature) (Some key) = Inr v"
  shows "vf_PayloadRaw v = payload \<and> vf_Signature v = signature \<and> vf_SHA256 v = hexEncode (le_sha256 env payload) \<and>
    le_verify env key (le_sha256 env payload) signature \<and> ParsePayload env payload = Inr (vf_Payload v)"
  using assms by (auto simp: VerifyLicense_def enclose_def b64Decode_Encode iolink_simps Let_def split: if_split_asm)

text \<open>The license of the tables lets one more device in at \<open>now\<close>, the clock of the check being \<open>checked\<close>.\<close>

definition license_admits :: "license_setup \<Rightarrow> time \<Rightarrow> time \<Rightarrow> admin_db \<Rightarrow> Payload \<Rightarrow> bool" where
  "license_admits w checked now db p \<longleftrightarrow> (\<exists>r key payload signature.
     lx_runtime w = Some r \<and> lr_PublicKey r = Some key \<and> lr_KeyID r = lp_KeyID p \<and>
     stored_license db = (payload, signature, hexEncode (le_sha256 (lx_env w) payload)) \<and>
     le_verify (lx_env w) key (le_sha256 (lx_env w) payload) signature \<and> ParsePayload (lx_env w) payload = Inr p \<and>
     lp_DeploymentID p = ab_deployment db \<and> lp_NotBefore p \<le> now \<and>
     (case lp_ExpiresAt p of None \<Rightarrow> True | Some t \<Rightarrow> now < t) \<and>
     \<not> ab_clock_error db \<and> (case ab_max_seen db of None \<Rightarrow> True | Some t \<Rightarrow> t \<le> checked + 5 * minute) \<and>
     live_count (ab_core db) < lp_MaxDevices p)"

lemma EvaluateLicense_live:
  "EvaluateLicense p dep now time_zero False \<in> {StateValid, StatePermanent} \<longleftrightarrow>
   lp_DeploymentID p = dep \<and> lp_NotBefore p \<le> now \<and> (case lp_ExpiresAt p of None \<Rightarrow> True | Some t \<Rightarrow> now < t)"
  by (auto simp: EvaluateLicense_def is_zero_def split: option.split)

text \<open>
  A device is admitted only under a license whose payload is signed under the key of the deployment, is
  for this deployment, is in its period of validity, with the license clock neither latched nor ahead by
  more than five minutes, and with fewer live devices than the license allows.
\<close>

theorem admission_rests_on_license:
  assumes "checkDeviceAdmission w x checked now db = Inr r"
  shows "\<exists>p. license_admits w checked now db p"
proof -
  obtain rt v where rt: "lx_runtime w = Some rt" and v: "verified_license w (lr_PublicKey rt) (lr_KeyID rt) db = Some v"
      and key: "lr_PublicKey rt \<noteq> None"
      and ev: "EvaluateLicense (vf_Payload v) (ab_deployment db) now time_zero False \<in> {StateValid, StatePermanent}"
      and clk: "\<not> ab_clock_error db" "\<not> behind (ab_max_seen db) checked"
      and used: "live_count (ab_core db) < lp_MaxDevices (vf_Payload v)"
    using assms unfolding checkDeviceAdmission_def checkLicenseClock_def iolink_simps not_le by blast
  obtain k where k: "lr_PublicKey rt = Some k" using key by auto
  obtain payload signature sha where st: "stored_license db = (payload, signature, sha)" by (cases "stored_license db")
  have vl: "VerifyLicense (lx_env w) (enclose payload signature) (Some k) = Inr v" "vf_SHA256 v = sha" "lp_KeyID (vf_Payload v) = lr_KeyID rt"
    using v by (auto simp: verified_license_def st k split: sum.split_asm if_split_asm)
  have "license_admits w checked now db (vf_Payload v)"
    unfolding license_admits_def
    using rt k st vl VerifyLicense_enclosed[OF vl(1)] ev[unfolded EvaluateLicense_live] clk used
    by (auto simp: behind_def split: option.split_asm)
  then show ?thesis ..
qed

lemma observe_keeps: "ab_license (snd (observeLicenseClock w x now db)) = ab_license db \<and>
    ab_audit (snd (observeLicenseClock w x now db)) = ab_audit db \<and>
    ab_deployment (snd (observeLicenseClock w x now db)) = ab_deployment db"
  by (simp add: observeLicenseClock_def)

lemma reject_license: "ab_license (snd (reject_import w x raw actor cause db)) = ab_license db \<and>
    fst (reject_import w x raw actor cause db) \<noteq> None"
  by (simp add: reject_import_def RecordLicenseRejection_def require_def)

lemma finish_license: "ab_license (snd (finishLicenseTransaction w x now err db)) = ab_license db \<and>
    fst (finishLicenseTransaction w x now err db) = err"
  using observe_keeps by (simp add: finishLicenseTransaction_def)

definition license_replaced :: "license_setup \<Rightarrow> time \<Rightarrow> Envelope \<Rightarrow> admin_db \<Rightarrow> admin_db \<Rightarrow> bool" where
  "license_replaced w now e db db' \<longleftrightarrow> (\<exists>r v. lx_runtime w = Some r \<and> VerifyLicense (lx_env w) e (lr_PublicKey r) = Inr v \<and>
     lp_KeyID (vf_Payload v) = lr_KeyID r \<and>
     EvaluateLicense (vf_Payload v) (ab_deployment db) now time_zero False \<in> {StateValid, StatePermanent} \<and>
     (if snd (snd (stored_license db)) = vf_SHA256 v then ab_license db' = ab_license db \<and> ab_audit db' = ab_audit db
      else ab_license db' = Some (vf_PayloadRaw v, vf_Signature v, vf_SHA256 v) \<and>
        length (ab_audit db') = Suc (length (ab_audit db))))"

lemma import_result_Inr:
  assumes "import_result w r x checked now e db = Inr v"
  shows "VerifyLicense (lx_env w) e (lr_PublicKey r) = Inr v \<and> lp_KeyID (vf_Payload v) = lr_KeyID r \<and>
    EvaluateLicense (vf_Payload v) (ab_deployment db) now time_zero False \<in> {StateValid, StatePermanent}"
proof -
  have "EvaluateLicense p dep now time_zero False \<notin> {StateMissing, StateInvalid, StateOverage}" for p dep
    by (auto simp: EvaluateLicense_def is_zero_def split: option.split)
  with assms show ?thesis
    by (auto simp: import_result_def iolink_simps split: sum.split_asm license_state.split_asm)
qed

text \<open>
  C34: An import that succeeds leaves a license in the tables whose hash is that of a payload signed under the
  key of the deployment, for this deployment and in force now; it writes one audit row exactly when it
  replaces the license. One that fails leaves the license as it was.
\<close>

theorem import_stores_verified_license:
  "case ImportLicenseRaw w c xo x xe seen checked now ended raw e actor db of
     (None, db') \<Rightarrow> license_replaced w now e db db'
   | (Some err, db') \<Rightarrow> ab_license db' = ab_license db"
proof -
  obtain err db1 where o: "observeLicenseClock w xo seen db = (err, db1)" by (cases "observeLicenseClock w xo seen db")
  have k: "ab_license db1 = ab_license db" "ab_audit db1 = ab_audit db" "ab_deployment db1 = ab_deployment db"
    using observe_keeps[of w xo seen db] by (simp_all add: o)
  have st: "stored_license db1 = stored_license db" by (simp add: stored_license_def k)
  have rj: "(fst (reject_import w x raw actor cause db1) = None) = False"
      "ab_license (snd (reject_import w x raw actor cause db1)) = ab_license db" for cause
    using reject_license[of w x raw actor cause db1] k by simp_all
  have fn: "fst (finishLicenseTransaction w xe ended err2 db2) = err2 \<and>
      ab_license (snd (finishLicenseTransaction w xe ended err2 db2)) = ab_license db2" for err2 db2
    using finish_license by blast
  have sl: "license_replaced w now e db db2"
    if "lx_runtime w = Some r" "import_result w r x checked now e db1 = Inr v" "store_license x v actor db1 = Inr db2" for r v db2
    unfolding license_replaced_def
    using that(1,3) import_result_Inr[OF that(2)] k st
    by (intro exI[of _ r] exI[of _ v])
      (auto simp: store_license_def iolink_simps add_audit_def split: if_split_asm prod.split_asm)
  show ?thesis
    by (rule import_cases[OF o, where Q = "\<lambda>res. case res of (None, db') \<Rightarrow> license_replaced w now e db db'
        | (Some err, db') \<Rightarrow> ab_license db' = ab_license db"])
      (use sl in \<open>auto simp: k rj fn case_prod_unfold simp del: not_None_eq split: option.split\<close>)
qed

end
