(* ===== verification/Admin_Farms.thy ===== *)
theory Admin_Farms
  imports License_Clock
begin

text \<open>
  \<open>core/admin_store.go\<close>, farms and ponds: who may read and write them. A write is one transaction: statement
  49 begins it, the statements of the check of the actor are 50 and 51, its own are numbered in the
  order of the code; a failing statement stands for any refusal of the database that the model does not
  name (the width of a text among them). New rows take the next number of their table's sequence, an
  argument. The tables of the media part that refer to farms and ponds are parameters.
\<close>

record admin_env =
  ae_setup :: license_setup
  ae_policy :: "permission_policy option"
  ae_defaultInterval :: int
  ae_media_farm :: "int \<Rightarrow> bool"
  ae_media_pond :: "int \<Rightarrow> bool"
  ae_ilike :: "string \<Rightarrow> string \<Rightarrow> bool"

definition beginTenantWrite :: "admin_env \<Rightarrow> actor_ctx \<Rightarrow> core_tx \<Rightarrow> string \<Rightarrow> admin_db \<Rightarrow> (admin_error, unit) result" where
  "beginTenantWrite w c x res db =
     require (\<not> cx_fails x 49) AStore (AuthorizeTenantWrite (ae_policy w) c x res ''write'' (ab_core db))"

definition authorizeTenantWrite :: "admin_env \<Rightarrow> actor_ctx \<Rightarrow> core_tx \<Rightarrow> string \<Rightarrow> admin_db \<Rightarrow> (admin_error, unit) result" where
  "authorizeTenantWrite w c x res db = AuthorizeTenantWrite (ae_policy w) c x res ''write'' (ab_core db)"

definition map_core :: "(core_db \<Rightarrow> core_db) \<Rightarrow> admin_db \<Rightarrow> admin_db" where
  "map_core g db = db\<lparr>ab_core := g (ab_core db)\<rparr>"

subsection \<open>Farms\<close>

definition ListFarms :: "actor_ctx \<Rightarrow> core_tx \<Rightarrow> admin_db \<Rightarrow> (admin_error, core_farm list) result" where
  "ListFarms c x db =
     require (\<not> cx_fails x 0) AStore
     (Inr (sort_key fr_id (filter (tenantFilter c (cx_now x) db) (cb_farms (ab_core db)))))"

definition FarmExists :: "actor_ctx \<Rightarrow> core_tx \<Rightarrow> int \<Rightarrow> admin_db \<Rightarrow> (admin_error, bool) result" where
  "FarmExists c x farm db =
     require (\<not> cx_fails x 0) AStore
     (Inr (list_ex (\<lambda>f. fr_id f = farm \<and> own_farm c f) (cb_farms (ab_core db))))"

definition system_tenant_active :: "core_db \<Rightarrow> int option" where
  "system_tenant_active db = map_option te_id (find (\<lambda>t. te_name t = system_tenant \<and> te_active t) (cb_tenants db))"

definition wechat_user :: "core_db \<Rightarrow> int \<Rightarrow> bool" where
  "wechat_user db user \<longleftrightarrow> list_ex (\<lambda>u. ur_id u = user \<and> ur_authority u = ''USER'' \<and> ur_open_id u \<noteq> []) (cb_users db)"

definition membership_live :: "time \<Rightarrow> int \<Rightarrow> int \<Rightarrow> core_member \<Rightarrow> bool" where
  "membership_live now tenant user m \<longleftrightarrow> mb_tenant m = tenant \<and> mb_user m = user \<and> in_force now (mb_active m) (mb_expires m)"

definition new_member :: "int \<Rightarrow> int \<Rightarrow> core_member" where
  "new_member tenant user = \<lparr>mb_tenant = tenant, mb_user = user, mb_role = ''member'', mb_permission_version = 0,
     mb_active = True, mb_expires = None\<rparr>"

text \<open>
  The upsert of a membership in \<open>CreateFarm\<close>: a live one loses its end, which the CHECK of the table refuses
  for support; one that is not live is no row.
\<close>

definition keep_member :: "time \<Rightarrow> int \<Rightarrow> int \<Rightarrow> core_db \<Rightarrow> (admin_error, core_db) result" where
  "keep_member now tenant user db =
     (if list_ex (\<lambda>m. mb_tenant m = tenant \<and> mb_user m = user) (cb_members db) then
        (if \<not> list_ex (membership_live now tenant user) (cb_members db) then Inl AConflict
         else if list_ex (\<lambda>m. membership_live now tenant user m \<and> mb_role m = ''support'') (cb_members db) then Inl AStore
         else Inr (db\<lparr>cb_members := map (\<lambda>m. if membership_live now tenant user m then m\<lparr>mb_expires := None\<rparr> else m)
           (cb_members db)\<rparr>))
      else Inr (db\<lparr>cb_members := cb_members db @ [new_member tenant user]\<rparr>))"

text \<open>The tenant of the new farm and the tables after the membership of its owner.\<close>

definition farm_tenant :: "actor_ctx \<Rightarrow> core_tx \<Rightarrow> int option \<Rightarrow> core_db \<Rightarrow> (admin_error, int \<times> core_db) result" where
  "farm_tenant c x owner db =
     (case owner of
        Some user \<Rightarrow>
          require (\<not> cx_fails x 0) AStore
          (require (wechat_user db user) ANotFound
          (require (\<not> cx_fails x 1) AStore
          (let ms = filter (\<lambda>m. mb_user m = user \<and> tenant_active db (mb_tenant m) \<and>
             in_force (cx_now x) (mb_active m) (mb_expires m)) (cb_members db) in
           after (case TenantID c of
               Some t \<Rightarrow> require (list_ex (\<lambda>m. mb_tenant m = t) ms) AConflict (Inr t)
             | None \<Rightarrow>
                 (case ms of
                    [] \<Rightarrow> take_or (system_tenant_active db) AStore Inr
                  | [m] \<Rightarrow> Inr (mb_tenant m)
                  | _ \<Rightarrow> Inl AConflict)) (\<lambda>tenant.
           require (\<not> cx_fails x 2) AStore
           (after (keep_member (cx_now x) tenant user db) (\<lambda>db. Inr (tenant, db)))))))
      | None \<Rightarrow>
          (case TenantID c of
             Some t \<Rightarrow> Inr (t, db)
           | None \<Rightarrow> require (\<not> cx_fails x 3) AStore
               (take_or (system_tenant_active db) ANotFound (\<lambda>t. Inr (t, db)))))"

definition CreateFarm ::
  "admin_env \<Rightarrow> actor_ctx \<Rightarrow> core_tx \<Rightarrow> int \<Rightarrow> int option \<Rightarrow> string \<Rightarrow> string \<Rightarrow> admin_db \<Rightarrow>
   (admin_error, core_farm \<times> admin_db) result" where
  "CreateFarm w c x newid owner name location db =
     after (beginTenantWrite w c x ''farms'' db) (\<lambda>_.
     after (farm_tenant c x owner (ab_core db)) (\<lambda>(tenant, core).
     require (tenant \<noteq> 0) ANotFound
     (require (\<not> cx_fails x 4 \<and> \<not> cx_fails x 5) AStore
     (let f = \<lparr>fr_id = newid, fr_tenant = tenant, fr_owner = owner, fr_name = name, fr_location = location\<rparr> in
      Inr (f, db\<lparr>ab_core := core\<lparr>cb_farms := cb_farms core @ [f]\<rparr>\<rparr>)))))"

definition UpdateFarm ::
  "admin_env \<Rightarrow> actor_ctx \<Rightarrow> core_tx \<Rightarrow> int \<Rightarrow> string \<Rightarrow> string \<Rightarrow> admin_db \<Rightarrow> (admin_error, admin_db) result" where
  "UpdateFarm w c x farm name location db =
     after (beginTenantWrite w c x ''farms'' db) (\<lambda>_.
     require (\<not> cx_fails x 0) AStore
     (require (list_ex (\<lambda>f. fr_id f = farm \<and> own_farm c f) (cb_farms (ab_core db))) ANotFound
     (require (\<not> cx_fails x 1) AStore
     (Inr (map_core (\<lambda>core. core\<lparr>cb_farms := map (\<lambda>f. if fr_id f = farm \<and> own_farm c f
        then f\<lparr>fr_name := name, fr_location := location\<rparr> else f) (cb_farms core)\<rparr>) db)))))"

text \<open>The memberships of a farm go with it.\<close>

definition DeleteFarm :: "admin_env \<Rightarrow> actor_ctx \<Rightarrow> core_tx \<Rightarrow> int \<Rightarrow> admin_db \<Rightarrow> (admin_error, admin_db) result" where
  "DeleteFarm w c x farm db =
     after (beginTenantWrite w c x ''farms'' db) (\<lambda>_.
     require (\<not> cx_fails x 0) AStore
     (require (\<not> list_ex (\<lambda>p. po_farm p = farm \<and> list_ex (\<lambda>f. fr_id f = farm \<and> own_farm c f) (cb_farms (ab_core db)))
        (cb_ponds (ab_core db))) AFarmHasPonds
     (require (\<not> cx_fails x 1) AStore
     (require (list_ex (\<lambda>f. fr_id f = farm \<and> own_farm c f) (cb_farms (ab_core db))) ANotFound
     (require (\<not> ae_media_farm w farm \<and> \<not> cx_fails x 2) AStore
     (Inr (map_core (\<lambda>core. core\<lparr>cb_farms := filter (\<lambda>f. \<not> (fr_id f = farm \<and> own_farm c f)) (cb_farms core)\<rparr>)
        (db\<lparr>ab_farm_members := filter (\<lambda>m. fm_farm m \<noteq> farm) (ab_farm_members db)\<rparr>))))))))"

subsection \<open>Members and owner of a farm\<close>

definition ListFarmMembers ::
  "admin_env \<Rightarrow> actor_ctx \<Rightarrow> core_tx \<Rightarrow> int \<Rightarrow> admin_db \<Rightarrow> (admin_error, farm_member_row list) result" where
  "ListFarmMembers w c x farm db =
     (case (TenantID c, TenantUserID c, ae_policy w) of
        (Some tenant, Some actor, Some allow) \<Rightarrow>
          after (allow (TenantRole c) ''farm_members'' ''read'') (\<lambda>allowed. require allowed AForbidden
          (require (\<not> cx_fails x 0) AStore
          (require (tenant_active (ab_core db) tenant \<and>
             list_ex (\<lambda>m. membership_live (cx_now x) tenant actor m \<and> mb_role m = TenantRole c) (cb_members (ab_core db)))
             AForbidden
          (require (\<not> cx_fails x 1) AStore
          (require (list_ex (\<lambda>f. fr_id f = farm \<and> fr_tenant f = tenant) (cb_farms (ab_core db))) ANotFound
          (require (\<not> cx_fails x 2) AStore
          (Inr (sort_key fm_user (filter (\<lambda>m. fm_farm m = farm \<and> in_force (cx_now x) (fm_active m) (fm_expires m))
             (ab_farm_members db))))))))))
      | _ \<Rightarrow> Inl AForbidden)"

definition put_farm_member :: "farm_member_row \<Rightarrow> admin_db \<Rightarrow> admin_db" where
  "put_farm_member m db = db\<lparr>ab_farm_members :=
     (if list_ex (\<lambda>r. fm_farm r = fm_farm m \<and> fm_user r = fm_user m) (ab_farm_members db)
      then map (\<lambda>r. if fm_farm r = fm_farm m \<and> fm_user r = fm_user m then m else r) (ab_farm_members db)
      else ab_farm_members db @ [m])\<rparr>"

definition SetFarmMember ::
  "admin_env \<Rightarrow> actor_ctx \<Rightarrow> core_tx \<Rightarrow> time \<Rightarrow> int \<Rightarrow> int \<Rightarrow> string \<Rightarrow> bool \<Rightarrow> time option \<Rightarrow> int \<Rightarrow> admin_db \<Rightarrow>
   (admin_error, admin_db) result" where
  "SetFarmMember w c x now farm user role active expires actor db =
     require (role \<in> {''owner'', ''admin'', ''member'', ''viewer'', ''support''}) AInvalidProductModel
     (require (\<not> (role = ''support'' \<and> (case expires of None \<Rightarrow> True | Some t \<Rightarrow> \<not> t > now))) AInvalidProductModel
     (let expires = (if role \<noteq> ''support'' then None else expires) in
      require (\<not> cx_fails x 49 \<and> \<not> cx_fails x 0) AStore
      (take_or (find (\<lambda>f. fr_id f = farm \<and> own_farm c f) (cb_farms (ab_core db))) ANotFound (\<lambda>f.
       require (\<not> cx_fails x 1) AStore
       (require (list_ex (\<lambda>u. ur_id u = user \<and> (ur_authority u = ''USER'' \<or> (ur_authority u = ''ADMIN'' \<and> role = ''support'')))
          (cb_users (ab_core db))) ANotFound
       (require (\<not> cx_fails x 2) AStore
       (require (list_ex (membership_live (cx_now x) (fr_tenant f) user) (cb_members (ab_core db))) ANotFound
       (after (authorizeTenantWrite w c x ''farm_members'' db) (\<lambda>_.
        require (\<not> cx_fails x 3 \<and> \<not> cx_fails x 4 \<and> \<not> cx_fails x 5) AStore
        (Inr (add_audit ''farm.member_changed'' (Some (fr_tenant f)) ''farm'' (FormatInt farm) (Some actor)
           (put_farm_member \<lparr>fm_tenant = fr_tenant f, fm_farm = farm, fm_user = user, fm_role = role, fm_active = active,
              fm_expires = map_option (ce_time (lx_core (ae_setup w))) expires\<rparr> db))))))))))))"

text \<open>The owner of a farm; \<open>None\<close> takes it away. The farm read at the start is the one that is written.\<close>

definition owner_member ::
  "admin_env \<Rightarrow> actor_ctx \<Rightarrow> core_tx \<Rightarrow> int \<Rightarrow> int option \<Rightarrow> admin_db \<Rightarrow> (admin_error, core_db) result" where
  "owner_member w c x tenant owner db =
     (case owner of
        None \<Rightarrow> after (authorizeTenantWrite w c x ''farms'' db) (\<lambda>_. Inr (ab_core db))
      | Some user \<Rightarrow>
          require (\<not> cx_fails x 1) AStore
          (require (wechat_user (ab_core db) user \<and>
             (case TenantID c of None \<Rightarrow> True | Some t \<Rightarrow> list_ex (membership_live (cx_now x) t user) (cb_members (ab_core db))))
             ANotFound
          (after (authorizeTenantWrite w c x ''farms'' db) (\<lambda>_.
           require (\<not> cx_fails x 2) AStore
           (let live = list_ex (membership_live (cx_now x) tenant user) (cb_members (ab_core db));
                known = list_ex (\<lambda>m. mb_tenant m = tenant \<and> mb_user m = user) (cb_members (ab_core db)) in
            require (\<not> (\<not> live \<and> known)) AConflict
            (if live then Inr (ab_core db)
             else require (\<not> cx_fails x 3) AStore
               (Inr (ab_core db\<lparr>cb_members := cb_members (ab_core db) @ [new_member tenant user]\<rparr>))))))))"

definition SetFarmOwnerByActor ::
  "admin_env \<Rightarrow> actor_ctx \<Rightarrow> core_tx \<Rightarrow> int \<Rightarrow> int option \<Rightarrow> int \<Rightarrow> admin_db \<Rightarrow> (admin_error, admin_db) result" where
  "SetFarmOwnerByActor w c x farm owner actor db =
     require (\<not> cx_fails x 49 \<and> \<not> cx_fails x 0) AStore
     (take_or (find (\<lambda>f. fr_id f = farm \<and> own_farm c f) (cb_farms (ab_core db))) ANotFound (\<lambda>f.
      after (owner_member w c x (fr_tenant f) owner db) (\<lambda>core.
      require (\<not> cx_fails x 4 \<and> \<not> cx_fails x 5 \<and> \<not> cx_fails x 6 \<and> \<not> cx_fails x 7 \<and> \<not> cx_fails x 8) AStore
      (let db = db\<lparr>ab_core := core\<lparr>cb_farms := map (\<lambda>g. if fr_id g = farm \<and> own_farm c g then g\<lparr>fr_owner := owner\<rparr> else g)
             (cb_farms core)\<rparr>\<rparr>;
           db = (case fr_owner f of
               Some previous \<Rightarrow>
                 if owner \<noteq> Some previous
                 then db\<lparr>ab_farm_members := map (\<lambda>m. if fm_farm m = farm \<and> fm_user m = previous \<and> fm_tenant m = fr_tenant f
                   then m\<lparr>fm_active := False\<rparr> else m) (ab_farm_members db)\<rparr>
                 else db
             | None \<Rightarrow> db);
           db = (case owner of
               Some user \<Rightarrow> put_farm_member \<lparr>fm_tenant = fr_tenant f, fm_farm = farm, fm_user = user, fm_role = ''owner'',
                 fm_active = True, fm_expires = None\<rparr> db
             | None \<Rightarrow> db) in
       Inr (add_audit ''farm.owner_changed'' (Some (fr_tenant f)) ''farm'' (FormatInt farm)
         (if actor > 0 then Some actor else None) db)))))"

subsection \<open>Ponds\<close>

definition ListPonds :: "actor_ctx \<Rightarrow> core_tx \<Rightarrow> admin_db \<Rightarrow> (admin_error, core_pond list) result" where
  "ListPonds c x db =
     require (\<not> cx_fails x 0) AStore
     (Inr (sort_key po_id [p. p \<leftarrow> cb_ponds (ab_core db), f \<leftarrow> cb_farms (ab_core db),
        fr_id f = po_farm p \<and> tenantFilter c (cx_now x) db f]))"

definition CreatePond ::
  "admin_env \<Rightarrow> actor_ctx \<Rightarrow> core_tx \<Rightarrow> int \<Rightarrow> int \<Rightarrow> string \<Rightarrow> float64 \<Rightarrow> admin_db \<Rightarrow> (admin_error, core_pond \<times> admin_db) result" where
  "CreatePond w c x newid farm name area db =
     after (beginTenantWrite w c x ''ponds'' db) (\<lambda>_.
     require (\<not> cx_fails x 0) AStore
     (require (list_ex (\<lambda>f. fr_id f = farm \<and> own_farm c f) (cb_farms (ab_core db))) ANotFound
     (require (\<not> cx_fails x 1 \<and> \<not> cx_fails x 2) AStore
     (let p = \<lparr>po_id = newid, po_farm = farm, po_name = name, po_area = Some area\<rparr> in
      Inr (p, map_core (\<lambda>core. core\<lparr>cb_ponds := cb_ponds core @ [p]\<rparr>) db)))))"

definition updatePond ::
  "admin_env \<Rightarrow> actor_ctx \<Rightarrow> core_tx \<Rightarrow> int \<Rightarrow> int option \<Rightarrow> string \<Rightarrow> float64 \<Rightarrow> admin_db \<Rightarrow> (admin_error, admin_db) result" where
  "updatePond w c x pond expectedFarm name area db =
     after (beginTenantWrite w c x ''ponds'' db) (\<lambda>_.
     let own = (\<lambda>p. po_id p = pond \<and> list_ex (\<lambda>f. fr_id f = po_farm p \<and> own_farm c f) (cb_farms (ab_core db))) in
     after (case expectedFarm of
         None \<Rightarrow> Inr ()
       | Some farm \<Rightarrow> require (\<not> cx_fails x 0) AStore
           (take_or (find own (cb_ponds (ab_core db))) ANotFound (\<lambda>p. require (po_farm p = farm) AInvalidRange (Inr ())))) (\<lambda>_.
     require (\<not> cx_fails x 1) AStore
     (require (list_ex own (cb_ponds (ab_core db))) ANotFound
     (require (\<not> cx_fails x 2) AStore
     (Inr (map_core (\<lambda>core. core\<lparr>cb_ponds := map (\<lambda>p. if own p then p\<lparr>po_name := name, po_area := Some area\<rparr> else p)
        (cb_ponds core)\<rparr>) db))))))"

definition pond_in_use :: "core_db \<Rightarrow> int \<Rightarrow> bool" where
  "pond_in_use db pond \<longleftrightarrow> list_ex (\<lambda>d. de_pond d = pond) (cb_devices db) \<or> list_ex (\<lambda>s. sd_pond s = pond) (cb_sensor db) \<or>
     list_ex (\<lambda>a. al_PondID a = pond) (cb_alarms db) \<or> list_ex (\<lambda>r. ru_PondID r = pond) (cb_rules db)"

definition pond_referenced :: "admin_env \<Rightarrow> core_db \<Rightarrow> int \<Rightarrow> bool" where
  "pond_referenced w db pond \<longleftrightarrow> list_ex (\<lambda>s. sh_pond s = Some pond) (cb_shadows db) \<or>
     list_ex (\<lambda>r. tl_pond r = pond) (cb_telemetry db) \<or> ae_media_pond w pond"

definition DeletePond :: "admin_env \<Rightarrow> actor_ctx \<Rightarrow> core_tx \<Rightarrow> int \<Rightarrow> admin_db \<Rightarrow> (admin_error, admin_db) result" where
  "DeletePond w c x pond db =
     after (beginTenantWrite w c x ''ponds'' db) (\<lambda>_.
     let core = ab_core db;
         own = (\<lambda>p. po_id p = pond \<and> list_ex (\<lambda>f. fr_id f = po_farm p \<and> own_farm c f) (cb_farms core)) in
     require (\<not> cx_fails x 0) AStore
     (require (\<not> (list_ex own (cb_ponds core) \<and> pond_in_use core pond)) APondHasDevices
     (require (\<not> cx_fails x 1) AStore
     (require (list_ex own (cb_ponds core)) ANotFound
     (require (\<not> pond_referenced w core pond) AConflict
     (require (\<not> cx_fails x 2) AStore
     (Inr (map_core (\<lambda>core. core\<lparr>cb_ponds := filter (\<lambda>p. \<not> own p) (cb_ponds core)\<rparr>) db))))))))"

end
