(* ===== verification/Admin_Devices.thy ===== *)
theory Admin_Devices
  imports Admin_Farms Core_Alarm
begin

text \<open>
  \<open>core/admin_store.go\<close>, devices, alarm rules, alarms and statistics, and \<open>ConfirmByUser\<close> of
  \<open>core/repos.go\<close>. The random bytes of a registration are arguments: the secret, up to five drafts of
  the number of the device and up to five of the suffix of its user name.
\<close>

record Device =
  dv_ID :: int
  dv_PondID :: int
  dv_DeviceNo :: string
  dv_MqttUsername :: string
  dv_Name :: string
  dv_Model :: string
  dv_Status :: string
  dv_LastSeenAt :: "time option"
  dv_Disabled :: bool
  dv_ReportInterval :: int

definition device_view :: "admin_env \<Rightarrow> core_device \<Rightarrow> Device" where
  "device_view w d = \<lparr>dv_ID = de_id d, dv_PondID = de_pond d, dv_DeviceNo = de_no d, dv_MqttUsername = de_username d,
     dv_Name = de_name d, dv_Model = de_model d, dv_Status = de_status d, dv_LastSeenAt = de_seen d,
     dv_Disabled = de_disabled d,
     dv_ReportInterval = (case de_interval d of None \<Rightarrow> ae_defaultInterval w | Some n \<Rightarrow> n)\<rparr>"

text \<open>The pond a device is put into: with a tenant, one of its farms.\<close>

definition pond_exists :: "actor_ctx \<Rightarrow> core_db \<Rightarrow> int \<Rightarrow> bool" where
  "pond_exists c db pond \<longleftrightarrow> (case TenantID c of
     None \<Rightarrow> list_ex (\<lambda>p. po_id p = pond) (cb_ponds db)
   | Some t \<Rightarrow> list_ex (\<lambda>f. fr_tenant f = t) (farm_of_pond db pond))"

subsection \<open>Registration and restoration\<close>

text \<open>
  A call that admits a device: the clock is observed in a transaction of its own (\<open>xo\<close>), the body is one
  transaction, and a clock error of the body is observed again (\<open>xe\<close>).
\<close>

definition license_tx ::
  "license_setup \<Rightarrow> core_tx \<Rightarrow> time \<Rightarrow> core_tx \<Rightarrow> time \<Rightarrow> (admin_db \<Rightarrow> (admin_error, 'a \<times> admin_db) result) \<Rightarrow> admin_db \<Rightarrow>
   (admin_error, 'a) result \<times> admin_db" where
  "license_tx w xo seen xe ended body db =
     (case observeLicenseClock w xo seen db of
        (Some err, db) \<Rightarrow> (Inl err, db)
      | (None, db) \<Rightarrow>
          (case body db of
             Inr (r, db') \<Rightarrow> (Inr r, db')
           | Inl err \<Rightarrow> (Inl err, snd (finishLicenseTransaction w xe ended (Some err) db))))"

definition default_product :: "core_db \<Rightarrow> int option" where
  "default_product db = map_option pd_id (find (\<lambda>p. pd_name p = water_product \<and>
     list_ex (\<lambda>t. te_id t = pd_tenant p \<and> te_name t = system_tenant) (cb_tenants db)) (cb_products db))"

fun first_untaken :: "(string \<Rightarrow> bool) \<Rightarrow> (string \<Rightarrow> string) \<Rightarrow> string list \<Rightarrow> string option" where
  "first_untaken taken mk [] = None"
| "first_untaken taken mk (cand # cands) = (if taken (mk cand) then first_untaken taken mk cands else Some (mk cand))"

record registration =
  rg_secret :: string
  rg_nos :: "string list"
  rg_suffixes :: "string list"
  rg_id :: int

definition register_body ::
  "admin_env \<Rightarrow> actor_ctx \<Rightarrow> core_tx \<Rightarrow> time \<Rightarrow> time \<Rightarrow> registration \<Rightarrow> int \<Rightarrow> string \<Rightarrow> string \<Rightarrow> int \<Rightarrow> admin_db \<Rightarrow>
   (admin_error, (Device \<times> string) \<times> admin_db) result" where
  "register_body w c x checked now rg pond name model interval db =
     require (\<not> cx_fails x 49) AStore
     (after (lockLicenseState x) (\<lambda>_.
      after (authorizeTenantWrite w c x ''devices'' db) (\<lambda>_.
      after (checkDeviceAdmission (ae_setup w) x checked now db) (\<lambda>_.
      require (interval = 0 \<or> interval = 60 \<or> interval = 300) AInvalidRange
      (let interval = (if interval = 0 then ae_defaultInterval w else interval); core = ab_core db in
       require (\<not> cx_fails x 0) AStore
       (require (pond_exists c core pond) ANotFound
       (let secHex = hexEncode (rg_secret rg); hash = HashDeviceSecret (lx_core (ae_setup w)) secHex in
        require (\<not> cx_fails x 1) AStore
        (take_or (first_untaken (\<lambda>no. list_ex (\<lambda>d. de_no d = no) (cb_devices core)) (\<lambda>cand. ''dev-'' @ hexEncode cand)
           (take 5 (rg_nos rg))) AStore (\<lambda>no.
         require (\<not> cx_fails x 2) AStore
         (take_or (first_untaken (\<lambda>u. list_ex (\<lambda>d. de_username d = u) (cb_devices core))
            (\<lambda>cand. ''iolink-'' @ no @ ''-'' @ hexEncode cand) (take 5 (rg_suffixes rg))) AStore (\<lambda>username.
          take_or (default_product core) AStore (\<lambda>product.
          require ((interval = 60 \<or> interval = 300) \<and> \<not> cx_fails x 3 \<and> \<not> cx_fails x 4) AStore
          (let d = \<lparr>de_id = rg_id rg, de_no = no, de_name = name, de_model = model, de_pond = pond, de_product = product,
                 de_version = 1, de_disabled = False, de_status = ''offline'', de_seen = None, de_session_version = 0,
                 de_username = username, de_secret_hash = hash, de_interval = Some interval\<rparr> in
           Inr ((device_view w d, secHex), map_core (\<lambda>core. core\<lparr>cb_devices := cb_devices core @ [d]\<rparr>) db))))))))))))))"

definition RegisterDevice ::
  "admin_env \<Rightarrow> actor_ctx \<Rightarrow> core_tx \<Rightarrow> core_tx \<Rightarrow> core_tx \<Rightarrow> time \<Rightarrow> time \<Rightarrow> time \<Rightarrow> time \<Rightarrow> registration \<Rightarrow>
   int \<Rightarrow> string \<Rightarrow> string \<Rightarrow> int \<Rightarrow> admin_db \<Rightarrow> (admin_error, Device \<times> string) result \<times> admin_db" where
  "RegisterDevice w c xo x xe seen checked now ended rg pond name model interval db =
     license_tx (ae_setup w) xo seen xe ended (register_body w c x checked now rg pond name model interval) db"

definition own_devices :: "actor_ctx \<Rightarrow> core_db \<Rightarrow> string \<Rightarrow> core_device list" where
  "own_devices c db no = [d. d \<leftarrow> cb_devices db, de_no d = no, f \<leftarrow> farm_of_pond db (de_pond d), own_farm c f]"

definition restore_body ::
  "admin_env \<Rightarrow> actor_ctx \<Rightarrow> core_tx \<Rightarrow> time \<Rightarrow> time \<Rightarrow> string \<Rightarrow> admin_db \<Rightarrow> (admin_error, unit \<times> admin_db) result" where
  "restore_body w c x checked now no db =
     require (\<not> cx_fails x 49) AStore
     (after (lockLicenseState x) (\<lambda>_.
      after (authorizeTenantWrite w c x ''devices'' db) (\<lambda>_.
      require (\<not> cx_fails x 0) AStore
      (case own_devices c (ab_core db) no of
         [] \<Rightarrow> Inl ANotFound
       | d # _ \<Rightarrow>
           if \<not> de_disabled d then Inr ((), db)
           else require (de_status d = ''offline'') AConflict
             (after (checkDeviceAdmission (ae_setup w) x checked now db) (\<lambda>_.
              require (\<not> cx_fails x 1 \<and> \<not> cx_fails x 2 \<and> \<not> cx_fails x 3) AStore
              (Inr ((), map_core (\<lambda>core. core\<lparr>cb_devices := map (\<lambda>e. if de_id e = de_id d
                   then e\<lparr>de_disabled := False, de_status := ''offline'', de_seen := None,
                          de_session_version := de_session_version e + 1\<rparr> else e) (cb_devices core),
                 cb_shadows := filter (\<lambda>s. sh_device s \<noteq> no) (cb_shadows core)\<rparr>) db))))))))"

definition RestoreDevice ::
  "admin_env \<Rightarrow> actor_ctx \<Rightarrow> core_tx \<Rightarrow> core_tx \<Rightarrow> core_tx \<Rightarrow> time \<Rightarrow> time \<Rightarrow> time \<Rightarrow> time \<Rightarrow> string \<Rightarrow> admin_db \<Rightarrow>
   (admin_error, unit) result \<times> admin_db" where
  "RestoreDevice w c xo x xe seen checked now ended no db =
     license_tx (ae_setup w) xo seen xe ended (restore_body w c x checked now no) db"

subsection \<open>Move, delete and read\<close>

definition MoveDevice ::
  "admin_env \<Rightarrow> actor_ctx \<Rightarrow> core_tx \<Rightarrow> string \<Rightarrow> int \<Rightarrow> admin_db \<Rightarrow> (admin_error, admin_db) result" where
  "MoveDevice w c x no pond db =
     require (\<not> cx_fails x 49) AStore
     (after (authorizeTenantWrite w c x ''devices'' db) (\<lambda>_.
      require (\<not> cx_fails x 0) AStore
      (case own_devices c (ab_core db) no of
         [] \<Rightarrow> Inl ANotFound
       | d # _ \<Rightarrow>
           require (\<not> de_disabled d) AConflict
           (require (\<not> cx_fails x 1) AStore
           (require (pond_exists c (ab_core db) pond) ANotFound
           (require (\<not> cx_fails x 2 \<and> \<not> cx_fails x 3 \<and> \<not> cx_fails x 4) AStore
           (Inr (map_core (\<lambda>core. core\<lparr>cb_devices := map (\<lambda>e. if de_id e = de_id d
                then e\<lparr>de_pond := pond, de_status := ''offline'', de_seen := None,
                       de_session_version := de_session_version e + 1\<rparr> else e) (cb_devices core),
              cb_shadows := filter (\<lambda>s. sh_device s \<noteq> no) (cb_shadows core)\<rparr>) db))))))))"

definition DeleteDevice :: "admin_env \<Rightarrow> actor_ctx \<Rightarrow> core_tx \<Rightarrow> string \<Rightarrow> admin_db \<Rightarrow> (admin_error, admin_db) result" where
  "DeleteDevice w c x no db =
     after (beginTenantWrite w c x ''devices'' db) (\<lambda>_.
     require (\<not> cx_fails x 0) AStore
     (require (own_devices c (ab_core db) no \<noteq> []) ANotFound
     (require (\<not> cx_fails x 1) AStore
     (Inr (map_core (\<lambda>core. core\<lparr>cb_devices := map (\<lambda>e. if de_no e = no \<and> own_pond c core (de_pond e)
          then e\<lparr>de_disabled := True, de_status := ''offline'', de_session_version := de_session_version e + 1\<rparr> else e)
          (cb_devices core)\<rparr>) db)))))"

definition seen_devices :: "actor_ctx \<Rightarrow> core_tx \<Rightarrow> (core_device \<Rightarrow> core_pond \<Rightarrow> bool) \<Rightarrow> admin_db \<Rightarrow> core_device list" where
  "seen_devices c x P db = sort_key de_id
     [d. d \<leftarrow> cb_devices (ab_core db), p \<leftarrow> cb_ponds (ab_core db), po_id p = de_pond d,
        f \<leftarrow> cb_farms (ab_core db), fr_id f = po_farm p \<and> P d p \<and> tenantFilter c (cx_now x) db f]"

definition GetDevice :: "admin_env \<Rightarrow> actor_ctx \<Rightarrow> core_tx \<Rightarrow> string \<Rightarrow> admin_db \<Rightarrow> (admin_error, Device) result" where
  "GetDevice w c x no db =
     require (\<not> cx_fails x 0) AStore
     (case seen_devices c x (\<lambda>d p. de_no d = no) db of
        [] \<Rightarrow> Inl ANotFound
      | d # _ \<Rightarrow> Inr (device_view w d))"

definition ListDevices ::
  "admin_env \<Rightarrow> actor_ctx \<Rightarrow> core_tx \<Rightarrow> bool \<Rightarrow> int \<Rightarrow> int \<Rightarrow> int \<Rightarrow> admin_db \<Rightarrow> (admin_error, Device list) result" where
  "ListDevices w c x includeDisabled pond limit offset db =
     (let limit = (if limit \<le> 0 \<or> limit > 200 then 50 else limit); offset = (if offset < 0 then 0 else offset) in
      require (\<not> cx_fails x 0) AStore
      (Inr (map (\<lambda>d. (device_view w d)\<lparr>dv_MqttUsername := []\<rparr>) (take (nat limit) (drop (nat offset)
        (seen_devices c x (\<lambda>d p. (includeDisabled \<or> \<not> de_disabled d) \<and> (pond = 0 \<or> de_pond d = pond)) db))))))"

record DeviceListQuery =
  dq_IncludeDisabled :: bool
  dq_PondID :: int
  dq_Status :: string
  dq_Search :: string
  dq_Limit :: int
  dq_Offset :: int

definition device_listed :: "admin_env \<Rightarrow> DeviceListQuery \<Rightarrow> core_device \<Rightarrow> core_pond \<Rightarrow> bool" where
  "device_listed w q d p \<longleftrightarrow>
     (let status = trimSpace (dq_Status q); search = trimSpace (dq_Search q); pat = ''%'' @ search @ ''%'' in
      (dq_IncludeDisabled q \<or> \<not> de_disabled d) \<and> (dq_PondID q = 0 \<or> de_pond d = dq_PondID q) \<and>
      (if status = ''disabled'' then de_disabled d
       else if status = ''active'' then \<not> de_disabled d
       else if status = ''online'' \<or> status = ''offline'' then de_status d = status \<and> \<not> de_disabled d
       else True) \<and>
      (search = [] \<or> ae_ilike w (de_no d) pat \<or> ae_ilike w (de_name d) pat \<or> ae_ilike w (de_model d) pat \<or>
        ae_ilike w (po_name p) pat))"

definition ListDevicesPage ::
  "admin_env \<Rightarrow> actor_ctx \<Rightarrow> core_tx \<Rightarrow> DeviceListQuery \<Rightarrow> admin_db \<Rightarrow> (admin_error, Device list \<times> nat) result" where
  "ListDevicesPage w c x q db =
     (let limit = (if dq_Limit q \<le> 0 \<or> dq_Limit q > 200 then 20 else dq_Limit q);
          offset = (if dq_Offset q < 0 then 0 else dq_Offset q);
          found = seen_devices c x (device_listed w q) db;
          items = take (nat limit) (drop (nat offset) found) in
      require (\<not> cx_fails x 0 \<and> \<not> (items = [] \<and> cx_fails x 1)) AStore
      (Inr (map (device_view w) items, length found)))"

subsection \<open>Alarm rules\<close>

definition seen_pond :: "actor_ctx \<Rightarrow> core_tx \<Rightarrow> admin_db \<Rightarrow> int \<Rightarrow> bool" where
  "seen_pond c x db pond \<longleftrightarrow> list_ex (tenantFilter c (cx_now x) db) (farm_of_pond (ab_core db) pond)"

definition ListRules :: "actor_ctx \<Rightarrow> core_tx \<Rightarrow> admin_db \<Rightarrow> (admin_error, AlarmRule list) result" where
  "ListRules c x db =
     require (\<not> cx_fails x 0) AStore
     (Inr (sort_key ru_ID (filter (\<lambda>r. seen_pond c x db (ru_PondID r)) (cb_rules (ab_core db)))))"

text \<open>What the table takes: the width of the metric, one rule for a metric of a pond, a pond that exists.\<close>

definition storable_rule :: "AlarmRule \<Rightarrow> (AlarmRule \<Rightarrow> bool) \<Rightarrow> core_db \<Rightarrow> (admin_error, unit) result" where
  "storable_rule r others db =
     require (length (ru_Metric r) \<le> 32) AStore
     (require (\<not> list_ex (\<lambda>q. others q \<and> ru_PondID q = ru_PondID r \<and> ru_Metric q = ru_Metric r) (cb_rules db)) AConflict
     (require (list_ex (\<lambda>p. po_id p = ru_PondID r) (cb_ponds db)) ANotFound (Inr ())))"

definition CreateRule ::
  "admin_env \<Rightarrow> actor_ctx \<Rightarrow> core_tx \<Rightarrow> int \<Rightarrow> AlarmRule \<Rightarrow> admin_db \<Rightarrow> (admin_error, AlarmRule \<times> admin_db) result" where
  "CreateRule w c x newid rule db =
     after (beginTenantWrite w c x ''alarm_rules'' db) (\<lambda>_.
     require (validateRule rule) AInvalidRule
     (require (\<not> cx_fails x 0) AStore
     (require (case TenantID c of None \<Rightarrow> True | Some t \<Rightarrow> pond_exists c (ab_core db) (ru_PondID rule)) ANotFound
     (after (storable_rule rule (\<lambda>_. True) (ab_core db)) (\<lambda>_.
      require (\<not> cx_fails x 1) AStore
      (let r = rule\<lparr>ru_ID := newid\<rparr> in
       Inr (r, map_core (\<lambda>core. core\<lparr>cb_rules := cb_rules core @ [r]\<rparr>) db)))))))"

definition UpdateRule ::
  "admin_env \<Rightarrow> actor_ctx \<Rightarrow> core_tx \<Rightarrow> AlarmRule \<Rightarrow> admin_db \<Rightarrow> (admin_error, admin_db) result" where
  "UpdateRule w c x rule db =
     after (beginTenantWrite w c x ''alarm_rules'' db) (\<lambda>_.
     let core = ab_core db; hit = (\<lambda>r. ru_ID r = ru_ID rule \<and> own_pond c core (ru_PondID r) \<and>
           (case TenantID c of None \<Rightarrow> True | Some t \<Rightarrow> pond_exists c core (ru_PondID rule))) in
     require (validateRule rule) AInvalidRule
     (require (\<not> cx_fails x 0) AStore
     (require (list_ex hit (cb_rules core)) ANotFound
     (after (storable_rule rule (\<lambda>q. ru_ID q \<noteq> ru_ID rule) core) (\<lambda>_.
      require (\<not> cx_fails x 1) AStore
      (Inr (map_core (\<lambda>core. core\<lparr>cb_rules := map (\<lambda>r. if hit r then rule else r) (cb_rules core)\<rparr>) db)))))))"

definition DeleteRule :: "admin_env \<Rightarrow> actor_ctx \<Rightarrow> core_tx \<Rightarrow> int \<Rightarrow> admin_db \<Rightarrow> (admin_error, admin_db) result" where
  "DeleteRule w c x rule db =
     after (beginTenantWrite w c x ''alarm_rules'' db) (\<lambda>_.
     let hit = (\<lambda>r. ru_ID r = rule \<and> own_pond c (ab_core db) (ru_PondID r)) in
     require (\<not> cx_fails x 0) AStore
     (require (list_ex hit (cb_rules (ab_core db))) ANotFound
     (require (\<not> cx_fails x 1) AStore
     (Inr (map_core (\<lambda>core. core\<lparr>cb_rules := filter (\<lambda>r. \<not> hit r) (cb_rules core)\<rparr>) db)))))"

subsection \<open>Alarms\<close>

definition ListAllAlarms :: "actor_ctx \<Rightarrow> core_tx \<Rightarrow> int \<Rightarrow> admin_db \<Rightarrow> (admin_error, Alarm list) result" where
  "ListAllAlarms c x limit db =
     require (\<not> cx_fails x 0) AStore
     (let found = sort_key (\<lambda>a. - al_CreatedAt a) (sort_key (\<lambda>a. - al_ID a)
            (filter (\<lambda>a. seen_pond c x db (al_PondID a)) (cb_alarms (ab_core db)))) in
      Inr (if limit > 0 then take (nat limit) found else found))"

text \<open>The confirmation of the alarms that satisfy \<open>P\<close>, at the start of the transaction.\<close>

definition confirm_alarms :: "core_tx \<Rightarrow> (Alarm \<Rightarrow> bool) \<Rightarrow> admin_db \<Rightarrow> admin_db" where
  "confirm_alarms x P db = map_core (\<lambda>core. core\<lparr>cb_alarms := map (\<lambda>a. if P a \<and> al_ConfirmedAt a = None
     then a\<lparr>al_ConfirmedAt := Some (cx_now x)\<rparr> else a) (cb_alarms core)\<rparr>) db"

definition confirm_one :: "core_tx \<Rightarrow> (Alarm \<Rightarrow> bool) \<Rightarrow> admin_db \<Rightarrow> (admin_error, admin_db) result" where
  "confirm_one x P db =
     require (\<not> cx_fails x 0) AStore
     (if list_ex (\<lambda>a. P a \<and> al_ConfirmedAt a = None) (cb_alarms (ab_core db)) then Inr (confirm_alarms x P db)
      else require (\<not> cx_fails x 1) AStore
        (require (list_ex (\<lambda>a. P a \<and> al_ConfirmedAt a \<noteq> None) (cb_alarms (ab_core db))) ANotFound (Inr db)))"

definition ConfirmByUser :: "actor_ctx \<Rightarrow> core_tx \<Rightarrow> int \<Rightarrow> int \<Rightarrow> admin_db \<Rightarrow> (admin_error, admin_db) result" where
  "ConfirmByUser c x alarm user db =
     confirm_one x (\<lambda>a. al_ID a = alarm \<and> list_ex (\<lambda>f. appFarmConfirmScope c (cx_now x) db user f \<and> own_farm c f)
       (farm_of_pond (ab_core db) (al_PondID a))) db"

definition ConfirmAlarmByActor :: "actor_ctx \<Rightarrow> core_tx \<Rightarrow> int \<Rightarrow> int \<Rightarrow> admin_db \<Rightarrow> (admin_error, admin_db) result" where
  "ConfirmAlarmByActor c x alarm actor db =
     (if TenantID c = None \<or> TenantUserID c = None \<or> actor \<le> 0 \<or> TenantUserID c \<noteq> Some actor \<or> TenantRole c = []
      then Inl AForbidden
      else ConfirmByUser c x alarm actor db)"

definition ConfirmAlarm_admin :: "actor_ctx \<Rightarrow> core_tx \<Rightarrow> int \<Rightarrow> admin_db \<Rightarrow> (admin_error, admin_db) result" where
  "ConfirmAlarm_admin c x alarm db =
     (if HasTenantScope c
      then ConfirmAlarmByActor c x alarm (case TenantUserID c of None \<Rightarrow> 0 | Some u \<Rightarrow> u) db
      else confirm_one x (\<lambda>a. al_ID a = alarm \<and> own_pond c (ab_core db) (al_PondID a)) db)"

definition batchConfirm ::
  "actor_ctx \<Rightarrow> core_tx \<Rightarrow> int list \<Rightarrow> int \<Rightarrow> admin_db \<Rightarrow> (admin_error, nat \<times> admin_db) result" where
  "batchConfirm c x ids actor db =
     require (ids \<noteq> [] \<and> length ids \<le> 200 \<and> list_all (\<lambda>i. i > 0) ids \<and> distinct ids) AInvalidRange
     (let P = (\<lambda>a. al_ID a \<in> set ids \<and> list_ex (\<lambda>f. own_farm c f \<and> (actor \<le> 0 \<or> appFarmConfirmScope c (cx_now x) db actor f))
            (farm_of_pond (ab_core db) (al_PondID a)));
          rows = filter P (cb_alarms (ab_core db));
          unconfirmed = length (filter (\<lambda>a. al_ConfirmedAt a = None) rows) in
      require (\<not> cx_fails x 49 \<and> \<not> cx_fails x 0) AStore
      (require (length rows = length ids) ANotFound
      (require (\<not> cx_fails x 1) AStore
      (let affected = length (filter (\<lambda>a. P a \<and> al_ConfirmedAt a = None) (cb_alarms (ab_core db))) in
       require (\<not> (actor > 0 \<and> affected \<noteq> unconfirmed)) AConflict
       (require (\<not> cx_fails x 2) AStore (Inr (affected, confirm_alarms x P db)))))))"

definition BatchConfirmByActor ::
  "admin_env \<Rightarrow> actor_ctx \<Rightarrow> core_tx \<Rightarrow> int list \<Rightarrow> int \<Rightarrow> admin_db \<Rightarrow> (admin_error, nat \<times> admin_db) result" where
  "BatchConfirmByActor w c x ids actor db =
     (case (TenantID c, TenantUserID c, ae_policy w) of
        (Some tenant, Some user, Some allow) \<Rightarrow>
          require (user = actor \<and> tenant > 0) AForbidden
          (after (allow (TenantRole c) ''alarms'' ''confirm'') (\<lambda>allowed. require allowed AForbidden (batchConfirm c x ids actor db)))
      | _ \<Rightarrow> Inl AForbidden)"

definition BatchConfirm :: "admin_env \<Rightarrow> actor_ctx \<Rightarrow> core_tx \<Rightarrow> int list \<Rightarrow> admin_db \<Rightarrow> (admin_error, nat \<times> admin_db) result" where
  "BatchConfirm w c x ids db =
     (if HasTenantScope c
      then BatchConfirmByActor w c x ids (case TenantUserID c of None \<Rightarrow> 0 | Some u \<Rightarrow> u) db
      else batchConfirm c x ids 0 db)"

subsection \<open>Statistics\<close>

record Stats =
  st_DevicesTotal :: nat
  st_Online :: nat
  st_Offline :: nat
  st_OpenAlarms :: nat

definition Stats_of :: "actor_ctx \<Rightarrow> core_tx \<Rightarrow> admin_db \<Rightarrow> (admin_error, Stats) result" where
  "Stats_of c x db =
     require (\<not> cx_fails x 0) AStore
     (let ds = filter (\<lambda>d. \<not> de_disabled d) (seen_devices c x (\<lambda>d p. True) db) in
      Inr \<lparr>st_DevicesTotal = length ds, st_Online = length (filter (\<lambda>d. de_status d = ''online'') ds),
           st_Offline = length (filter (\<lambda>d. de_status d = ''offline'') ds),
           st_OpenAlarms = length (filter (\<lambda>a. al_ConfirmedAt a = None \<and> seen_pond c x db (al_PondID a)) (cb_alarms (ab_core db)))\<rparr>)"

end
