(* ===== verification/Admin_Calls.thy ===== *)
theory Admin_Calls
  imports Admin_Devices
begin

text \<open>
  The writes of the administration as one step function, the keys and references its tables keep, and the
  lemmas on each write that the properties of \<open>Admin_Safety\<close> put together.
\<close>

datatype admin_call =
    ACreateFarm core_tx int "int option" string string
  | AUpdateFarm core_tx int string string
  | ADeleteFarm core_tx int
  | ASetFarmMember core_tx time int int string bool "time option" int
  | ASetFarmOwner core_tx int "int option" int
  | ACreatePond core_tx int int string float64
  | AUpdatePond core_tx int "int option" string float64
  | ADeletePond core_tx int
  | ARegister core_tx core_tx core_tx time time time time registration int string string int
  | ARestore core_tx core_tx core_tx time time time time string
  | AMove core_tx string int
  | ADelete core_tx string
  | ACreateRule core_tx int AlarmRule
  | AUpdateRule core_tx AlarmRule
  | ADeleteRule core_tx int
  | AConfirm core_tx int
  | ABatchConfirm core_tx "int list"

definition committed :: "admin_db \<Rightarrow> (admin_error, admin_db) result \<Rightarrow> admin_db" where
  "committed db r = (case r of Inl _ \<Rightarrow> db | Inr db' \<Rightarrow> db')"

definition committed_with :: "admin_db \<Rightarrow> (admin_error, 'a \<times> admin_db) result \<Rightarrow> admin_db" where
  "committed_with db r = (case r of Inl _ \<Rightarrow> db | Inr (_, db') \<Rightarrow> db')"

fun admin_step :: "admin_env \<Rightarrow> actor_ctx \<Rightarrow> admin_call \<Rightarrow> admin_db \<Rightarrow> admin_db" where
  "admin_step w c (ACreateFarm x newid owner name loc) db = committed_with db (CreateFarm w c x newid owner name loc db)"
| "admin_step w c (AUpdateFarm x farm name loc) db = committed db (UpdateFarm w c x farm name loc db)"
| "admin_step w c (ADeleteFarm x farm) db = committed db (DeleteFarm w c x farm db)"
| "admin_step w c (ASetFarmMember x now farm user role active expires actor) db =
     committed db (SetFarmMember w c x now farm user role active expires actor db)"
| "admin_step w c (ASetFarmOwner x farm owner actor) db = committed db (SetFarmOwnerByActor w c x farm owner actor db)"
| "admin_step w c (ACreatePond x newid farm name area) db = committed_with db (CreatePond w c x newid farm name area db)"
| "admin_step w c (AUpdatePond x pond farm name area) db = committed db (updatePond w c x pond farm name area db)"
| "admin_step w c (ADeletePond x pond) db = committed db (DeletePond w c x pond db)"
| "admin_step w c (ARegister xo x xe seen checked now ended rg pond name model interval) db =
     snd (RegisterDevice w c xo x xe seen checked now ended rg pond name model interval db)"
| "admin_step w c (ARestore xo x xe seen checked now ended no) db =
     snd (RestoreDevice w c xo x xe seen checked now ended no db)"
| "admin_step w c (AMove x no pond) db = committed db (MoveDevice w c x no pond db)"
| "admin_step w c (ADelete x no) db = committed db (DeleteDevice w c x no db)"
| "admin_step w c (ACreateRule x newid rule) db = committed_with db (CreateRule w c x newid rule db)"
| "admin_step w c (AUpdateRule x rule) db = committed db (UpdateRule w c x rule db)"
| "admin_step w c (ADeleteRule x rule) db = committed db (DeleteRule w c x rule db)"
| "admin_step w c (AConfirm x alarm) db = committed db (ConfirmAlarm_admin c x alarm db)"
| "admin_step w c (ABatchConfirm x ids) db = committed_with db (BatchConfirm w c x ids db)"

lemma committed_ok: "ok P r \<Longrightarrow> P db \<Longrightarrow> P (committed db r)"
  by (cases r) (simp_all add: committed_def)

lemma committed_with_ok: "ok (\<lambda>(_, db'). P db') r \<Longrightarrow> P db \<Longrightarrow> P (committed_with db r)"
  by (cases r) (auto simp: committed_with_def)

text \<open>A call that admits a device changes the tables of the core by its body only.\<close>

lemma observe_core: "ab_core (snd (observeLicenseClock w x now db)) = ab_core db \<and>
    ab_farm_members (snd (observeLicenseClock w x now db)) = ab_farm_members db"
  by (simp add: observeLicenseClock_def)

lemma license_tx_split:
  "(\<exists>db1. observeLicenseClock w xo seen db = (None, db1) \<and> (\<exists>r. body db1 = Inr (r, snd (license_tx w xo seen xe ended body db)))) \<or>
   ab_core (snd (license_tx w xo seen xe ended body db)) = ab_core db \<and>
   ab_farm_members (snd (license_tx w xo seen xe ended body db)) = ab_farm_members db \<and>
   ab_audit (snd (license_tx w xo seen xe ended body db)) = ab_audit db"
proof (cases "observeLicenseClock w xo seen db")
  case (Pair err db1)
  have k: "ab_core db1 = ab_core db" "ab_farm_members db1 = ab_farm_members db" "ab_audit db1 = ab_audit db"
    using observe_core[of w xo seen db] observe_keeps[of w xo seen db] by (simp_all add: Pair)
  show ?thesis
    using k observe_core[of w xe ended db1] observe_keeps[of w xe ended db1]
    by (cases err; cases "body db1") (auto simp: license_tx_def Pair finishLicenseTransaction_def)
qed

text \<open>A property of the tables that only \<open>ab_core\<close>, the memberships of farms and the audit decide.\<close>

lemma license_tx_ok:
  assumes "\<And>db1. ab_core db1 = ab_core db \<Longrightarrow> ab_farm_members db1 = ab_farm_members db \<Longrightarrow> ab_audit db1 = ab_audit db \<Longrightarrow>
      ok (\<lambda>(_, db'). P db') (body db1)"
    and "\<And>db1. ab_core db1 = ab_core db \<Longrightarrow> ab_farm_members db1 = ab_farm_members db \<Longrightarrow> ab_audit db1 = ab_audit db \<Longrightarrow> P db1"
  shows "P (snd (license_tx w xo seen xe ended body db))"
proof -
  have k: "ab_core db1 = ab_core db \<and> ab_farm_members db1 = ab_farm_members db \<and> ab_audit db1 = ab_audit db"
    if "observeLicenseClock w xo seen db = (None, db1)" for db1
    using observe_core[of w xo seen db] observe_keeps[of w xo seen db] by (simp add: that)
  from license_tx_split[of w xo seen db body xe ended] show ?thesis
  proof (elim disjE exE conjE)
    fix db1 r
    assume "observeLicenseClock w xo seen db = (None, db1)" "body db1 = Inr (r, snd (license_tx w xo seen xe ended body db))"
    then show ?thesis using assms(1)[of db1] k[of db1] by simp
  qed (use assms(2) in blast)
qed

subsection \<open>Keys and references\<close>

definition keyed :: "core_db \<Rightarrow> bool" where
  "keyed db \<longleftrightarrow> distinct (map fr_id (cb_farms db)) \<and> distinct (map po_id (cb_ponds db)) \<and>
     distinct (map de_id (cb_devices db)) \<and> distinct (map de_no (cb_devices db)) \<and>
     distinct (map de_username (cb_devices db)) \<and> distinct (map ru_ID (cb_rules db)) \<and>
     distinct (map (\<lambda>r. (ru_PondID r, ru_Metric r)) (cb_rules db))"

definition linked :: "core_db \<Rightarrow> bool" where
  "linked db \<longleftrightarrow> po_farm ` set (cb_ponds db) \<subseteq> fr_id ` set (cb_farms db) \<and>
     de_pond ` set (cb_devices db) \<subseteq> po_id ` set (cb_ponds db) \<and>
     ru_PondID ` set (cb_rules db) \<subseteq> po_id ` set (cb_ponds db) \<and>
     al_PondID ` set (cb_alarms db) \<subseteq> po_id ` set (cb_ponds db)"

definition members_linked :: "admin_db \<Rightarrow> bool" where
  "members_linked db \<longleftrightarrow> (\<forall>m \<in> set (ab_farm_members db). \<exists>f \<in> set (cb_farms (ab_core db)).
     fr_id f = fm_farm m \<and> fr_tenant f = fm_tenant m)"

text \<open>The number a sequence gives is in no row.\<close>

fun fresh_call :: "admin_call \<Rightarrow> core_db \<Rightarrow> bool" where
  "fresh_call (ACreateFarm x newid owner name loc) db \<longleftrightarrow> newid \<notin> fr_id ` set (cb_farms db)"
| "fresh_call (ACreatePond x newid farm name area) db \<longleftrightarrow> newid \<notin> po_id ` set (cb_ponds db)"
| "fresh_call (ARegister xo x xe seen checked now ended rg pond name model interval) db \<longleftrightarrow> rg_id rg \<notin> de_id ` set (cb_devices db)"
| "fresh_call (ACreateRule x newid rule) db \<longleftrightarrow> newid \<notin> ru_ID ` set (cb_rules db)"
| "fresh_call _ db \<longleftrightarrow> True"

definition sound :: "admin_db \<Rightarrow> bool" where
  "sound db \<longleftrightarrow> keyed (ab_core db) \<and> linked (ab_core db) \<and> members_linked db"

lemmas sound_defs = sound_def keyed_def linked_def members_linked_def

lemma members_linkedD:
  assumes "members_linked db" and "m \<in> set (ab_farm_members db)"
  obtains f where "f \<in> set (cb_farms (ab_core db))" "fr_id f = fm_farm m" "fr_tenant f = fm_tenant m"
  using assms unfolding members_linked_def by blast

lemma members_linked_image: "members_linked db \<longleftrightarrow> (\<forall>m \<in> set (ab_farm_members db).
    (fm_farm m, fm_tenant m) \<in> (\<lambda>f. (fr_id f, fr_tenant f)) ` set (cb_farms (ab_core db)))"
  unfolding members_linked_def image_iff by (metis prod.inject)

lemma farm_of_pond_in: "f \<in> set (farm_of_pond db pond) \<longleftrightarrow>
    f \<in> set (cb_farms db) \<and> (\<exists>p \<in> set (cb_ponds db). po_id p = pond \<and> po_farm p = fr_id f)"
  by (auto simp: farm_of_pond_def) force

lemma pond_exists_id: "pond_exists c db pond \<Longrightarrow> pond \<in> po_id ` set (cb_ponds db)"
  by (auto simp: pond_exists_def list_ex_iff farm_of_pond_in split: option.split_asm)

lemma own_devices_in: "d \<in> set (own_devices c db no) \<longleftrightarrow>
    d \<in> set (cb_devices db) \<and> de_no d = no \<and> own_pond c db (de_pond d)"
  by (auto simp: own_devices_def own_pond_def list_ex_iff)

lemma first_untaken_not_taken: "first_untaken taken mk cands = Some v \<Longrightarrow> \<not> taken v"
  by (induction cands) (auto split: if_split_asm)

lemma distinct_map_id: "(\<And>e. key (g e) = key e) \<Longrightarrow> map key (map g xs) = map key xs"
  by simp

lemma keep_member_core: "ok (\<lambda>db'. cb_farms db' = cb_farms db \<and> cb_ponds db' = cb_ponds db \<and> cb_devices db' = cb_devices db \<and>
    cb_rules db' = cb_rules db \<and> cb_alarms db' = cb_alarms db \<and> cb_shadows db' = cb_shadows db \<and> cb_users db' = cb_users db \<and>
    cb_tenants db' = cb_tenants db) (keep_member now tenant user db)"
  by (simp add: keep_member_def)

lemma farm_tenant_core: "ok (\<lambda>(t, db'). cb_farms db' = cb_farms db \<and> cb_ponds db' = cb_ponds db \<and> cb_devices db' = cb_devices db \<and>
    cb_rules db' = cb_rules db \<and> cb_alarms db' = cb_alarms db \<and> cb_shadows db' = cb_shadows db \<and> cb_users db' = cb_users db \<and>
    cb_tenants db' = cb_tenants db) (farm_tenant c x owner db)"
  unfolding farm_tenant_def
  by (cases owner; cases "TenantID c") (auto intro!: ok_rules simp: Let_def dest!: okD[OF keep_member_core])

lemma owner_member_core: "ok (\<lambda>db'. cb_farms db' = cb_farms (ab_core db) \<and> cb_ponds db' = cb_ponds (ab_core db) \<and>
    cb_devices db' = cb_devices (ab_core db) \<and> cb_rules db' = cb_rules (ab_core db) \<and> cb_alarms db' = cb_alarms (ab_core db) \<and>
    cb_shadows db' = cb_shadows (ab_core db) \<and> cb_users db' = cb_users (ab_core db) \<and>
    cb_tenants db' = cb_tenants (ab_core db)) (owner_member w c x tenant owner db)"
  unfolding owner_member_def
  by (cases owner) (auto intro!: ok_rules simp: Let_def)

subsection \<open>The rows of the other tenants\<close>

definition foreign_pond :: "int \<Rightarrow> core_db \<Rightarrow> int \<Rightarrow> bool" where
  "foreign_pond t db pond \<longleftrightarrow> \<not> list_ex (\<lambda>f. fr_tenant f = t) (farm_of_pond db pond)"

definition foreign_places :: "int \<Rightarrow> core_db \<Rightarrow> core_farm list \<times> core_pond list \<times> core_member list" where
  "foreign_places t db = (filter (\<lambda>f. fr_tenant f \<noteq> t) (cb_farms db), filter (\<lambda>p. foreign_pond t db (po_id p)) (cb_ponds db),
     filter (\<lambda>m. mb_tenant m \<noteq> t) (cb_members db))"

definition foreign_rows :: "int \<Rightarrow> core_db \<Rightarrow> core_device list \<times> AlarmRule list \<times> Alarm list \<times> shadow_row list" where
  "foreign_rows t db = (filter (\<lambda>d. foreign_pond t db (de_pond d)) (cb_devices db),
     filter (\<lambda>r. foreign_pond t db (ru_PondID r)) (cb_rules db), filter (\<lambda>a. foreign_pond t db (al_PondID a)) (cb_alarms db),
     filter (\<lambda>s. list_ex (\<lambda>d. de_no d = sh_device s \<and> foreign_pond t db (de_pond d)) (cb_devices db)) (cb_shadows db))"

text \<open>What a call of an actor of tenant \<open>t\<close> keeps.\<close>

definition keeps_foreign :: "int \<Rightarrow> admin_db \<Rightarrow> admin_db \<Rightarrow> bool" where
  "keeps_foreign t db db' \<longleftrightarrow> foreign_places t (ab_core db') = foreign_places t (ab_core db) \<and>
     foreign_rows t (ab_core db') = foreign_rows t (ab_core db) \<and>
     filter (\<lambda>m. fm_tenant m \<noteq> t) (ab_farm_members db') = filter (\<lambda>m. fm_tenant m \<noteq> t) (ab_farm_members db)"

definition kept :: "actor_ctx \<Rightarrow> admin_db \<Rightarrow> admin_db \<Rightarrow> bool" where
  "kept c db db' \<longleftrightarrow> sound db' \<and> (\<forall>t. TenantID c = Some t \<longrightarrow> keeps_foreign t db db')"

lemma keeps_foreign_refl: "keeps_foreign t db db"
  by (simp add: keeps_foreign_def)

lemma foreign_pond_iff: "foreign_pond t db pond \<longleftrightarrow>
    (\<forall>p \<in> set (cb_ponds db). po_id p = pond \<longrightarrow> (\<forall>f \<in> set (cb_farms db). fr_id f = po_farm p \<longrightarrow> fr_tenant f \<noteq> t))"
  unfolding foreign_pond_def list_ex_iff by (metis farm_of_pond_in)

lemma own_pond_foreign: "TenantID c = Some t \<Longrightarrow> own_pond c db pond \<longleftrightarrow> \<not> foreign_pond t db pond"
  by (simp add: own_pond_def own_farm_def foreign_pond_def list_ex_iff)

lemma pond_exists_foreign: "TenantID c = Some t \<Longrightarrow> pond_exists c db pond \<longleftrightarrow> \<not> foreign_pond t db pond"
  by (simp add: pond_exists_def foreign_pond_def)

lemma foreign_pond_cong:
  "cb_ponds db' = cb_ponds db \<Longrightarrow> cb_farms db' = cb_farms db \<Longrightarrow> foreign_pond t db' pond = foreign_pond t db pond"
  by (simp add: foreign_pond_iff)

lemma filter_update:
  "(\<And>x. x \<in> set xs \<Longrightarrow> P x \<Longrightarrow> \<not> Q x \<and> \<not> Q (g x)) \<Longrightarrow> filter Q (map (\<lambda>x. if P x then g x else x) xs) = filter Q xs"
  by (induction xs) auto

lemma filter_drop: "(\<And>x. x \<in> set xs \<Longrightarrow> \<not> P x \<Longrightarrow> \<not> Q x) \<Longrightarrow> filter Q (filter P xs) = filter Q xs"
  by (induction xs) auto

lemma map_update_key: "(\<And>x. P x \<Longrightarrow> key (g x) = key x) \<Longrightarrow> map key (map (\<lambda>x. if P x then g x else x) xs) = map key xs"
  by simp

lemma same_key: "distinct (map key xs) \<Longrightarrow> x \<in> set xs \<Longrightarrow> y \<in> set xs \<Longrightarrow> key x = key y \<Longrightarrow> x = y"
  by (metis distinct_map inj_onD)

lemma list_ex_filter: "list_ex (\<lambda>x. P x \<and> Q x) xs = list_ex P (filter Q xs)"
  by (induction xs) auto

lemma keeps_foreignI:
  assumes fp: "\<And>pond. pond \<in> S \<Longrightarrow> foreign_pond t (ab_core db') pond = foreign_pond t (ab_core db) pond"
    and "de_pond ` set (cb_devices (ab_core db')) \<subseteq> S" "ru_PondID ` set (cb_rules (ab_core db')) \<subseteq> S"
      "al_PondID ` set (cb_alarms (ab_core db')) \<subseteq> S"
    and "filter (\<lambda>f. fr_tenant f \<noteq> t) (cb_farms (ab_core db')) = filter (\<lambda>f. fr_tenant f \<noteq> t) (cb_farms (ab_core db))"
    and "filter (\<lambda>p. foreign_pond t (ab_core db') (po_id p)) (cb_ponds (ab_core db')) =
      filter (\<lambda>p. foreign_pond t (ab_core db) (po_id p)) (cb_ponds (ab_core db))"
    and "filter (\<lambda>m. mb_tenant m \<noteq> t) (cb_members (ab_core db')) = filter (\<lambda>m. mb_tenant m \<noteq> t) (cb_members (ab_core db))"
    and devs: "filter (\<lambda>d. foreign_pond t (ab_core db) (de_pond d)) (cb_devices (ab_core db')) =
      filter (\<lambda>d. foreign_pond t (ab_core db) (de_pond d)) (cb_devices (ab_core db))"
    and "filter (\<lambda>r. foreign_pond t (ab_core db) (ru_PondID r)) (cb_rules (ab_core db')) =
      filter (\<lambda>r. foreign_pond t (ab_core db) (ru_PondID r)) (cb_rules (ab_core db))"
    and "filter (\<lambda>a. foreign_pond t (ab_core db) (al_PondID a)) (cb_alarms (ab_core db')) =
      filter (\<lambda>a. foreign_pond t (ab_core db) (al_PondID a)) (cb_alarms (ab_core db))"
    and "filter (\<lambda>s. list_ex (\<lambda>d. de_no d = sh_device s \<and> foreign_pond t (ab_core db) (de_pond d)) (cb_devices (ab_core db)))
        (cb_shadows (ab_core db')) =
      filter (\<lambda>s. list_ex (\<lambda>d. de_no d = sh_device s \<and> foreign_pond t (ab_core db) (de_pond d)) (cb_devices (ab_core db)))
        (cb_shadows (ab_core db))"
    and "filter (\<lambda>m. fm_tenant m \<noteq> t) (ab_farm_members db') = filter (\<lambda>m. fm_tenant m \<noteq> t) (ab_farm_members db)"
  shows "keeps_foreign t db db'"
proof -
  have d: "filter (\<lambda>d. foreign_pond t (ab_core db') (de_pond d)) (cb_devices (ab_core db')) =
      filter (\<lambda>d. foreign_pond t (ab_core db) (de_pond d)) (cb_devices (ab_core db'))"
    using assms(2) fp by (intro filter_cong) auto
  have r: "filter (\<lambda>r. foreign_pond t (ab_core db') (ru_PondID r)) (cb_rules (ab_core db')) =
      filter (\<lambda>r. foreign_pond t (ab_core db) (ru_PondID r)) (cb_rules (ab_core db'))"
    using assms(3) fp by (intro filter_cong) auto
  have a: "filter (\<lambda>a. foreign_pond t (ab_core db') (al_PondID a)) (cb_alarms (ab_core db')) =
      filter (\<lambda>a. foreign_pond t (ab_core db) (al_PondID a)) (cb_alarms (ab_core db'))"
    using assms(4) fp by (intro filter_cong) auto
  show ?thesis
    unfolding keeps_foreign_def foreign_places_def foreign_rows_def list_ex_filter
    using assms(5-) unfolding list_ex_filter d r a by simp
qed

end
