(* ===== verification/Admin_Kept.thy ===== *)
theory Admin_Kept
  imports Admin_Calls
begin

text \<open>
  Every write of the administration keeps the keys and references of its tables, and one of an actor with a
  tenant keeps the rows of the other tenants.
\<close>

subsection \<open>Farms\<close>

lemma new_farm_keeps:
  assumes "sound db" and "fr_id f \<notin> fr_id ` set (cb_farms (ab_core db))"
    and f: "cb_farms core' = cb_farms (ab_core db) @ [f]"
    and u: "cb_ponds core' = cb_ponds (ab_core db)" "cb_devices core' = cb_devices (ab_core db)"
      "cb_rules core' = cb_rules (ab_core db)" "cb_alarms core' = cb_alarms (ab_core db)" "cb_shadows core' = cb_shadows (ab_core db)"
    and m: "\<And>t. TenantID c = Some t \<Longrightarrow> fr_tenant f = t \<and>
      filter (\<lambda>m. mb_tenant m \<noteq> t) (cb_members core') = filter (\<lambda>m. mb_tenant m \<noteq> t) (cb_members (ab_core db))"
  shows "kept c db (db\<lparr>ab_core := core'\<rparr>)"
proof -
  have fp: "foreign_pond t core' pond = foreign_pond t (ab_core db) pond" for t pond
    using assms(1,2) by (auto simp: foreign_pond_iff u f sound_defs)
  have "sound (db\<lparr>ab_core := core'\<rparr>)"
    using assms(1,2) by (auto simp: sound_defs u f)
  moreover have "keeps_foreign t db (db\<lparr>ab_core := core'\<rparr>)" if "TenantID c = Some t" for t
    by (rule keeps_foreignI[where S = UNIV]) (use m[OF that] in \<open>simp_all add: fp u f\<close>)
  ultimately show ?thesis by (simp add: kept_def)
qed

lemma keep_member_members: "ok (\<lambda>db'. filter (\<lambda>m. mb_tenant m \<noteq> t) (cb_members db') = filter (\<lambda>m. mb_tenant m \<noteq> t) (cb_members db))
    (keep_member now t user db)"
  unfolding keep_member_def by (auto simp: filter_update new_member_def membership_live_def[abs_def] intro!: filter_update)

lemma farm_tenant_members: "TenantID c = Some t \<Longrightarrow> ok (\<lambda>(tenant, db'). tenant = t \<and>
    filter (\<lambda>m. mb_tenant m \<noteq> t) (cb_members db') = filter (\<lambda>m. mb_tenant m \<noteq> t) (cb_members db)) (farm_tenant c x owner db)"
  unfolding farm_tenant_def
  by (cases owner) (auto intro!: ok_rules simp: Let_def iolink_simps dest!: okD[OF keep_member_members])

lemma CreateFarm_kept:
  assumes "sound db" and "newid \<notin> fr_id ` set (cb_farms (ab_core db))"
  shows "ok (\<lambda>(_, db'). kept c db db') (CreateFarm w c x newid owner name loc db)"
proof -
  have main: "kept c db (db\<lparr>ab_core := core\<lparr>cb_farms := cb_farms core @
      [\<lparr>fr_id = newid, fr_tenant = tenant, fr_owner = owner, fr_name = name, fr_location = loc\<rparr>]\<rparr>\<rparr>)"
    if t: "farm_tenant c x owner (ab_core db) = Inr (tenant, core)" for tenant core
  proof -
    note k = okD[OF farm_tenant_core t, unfolded prod.case]
    have m: "tenant = t' \<and> filter (\<lambda>m. mb_tenant m \<noteq> t') (cb_members core) = filter (\<lambda>m. mb_tenant m \<noteq> t') (cb_members (ab_core db))"
      if "TenantID c = Some t'" for t'
      using okD[OF farm_tenant_members[OF that] t] by simp
    show ?thesis
      by (rule new_farm_keeps[OF assms(1),
          where f = "\<lparr>fr_id = newid, fr_tenant = tenant, fr_owner = owner, fr_name = name, fr_location = loc\<rparr>"])
        (use k m assms(2) in simp_all)
  qed
  show ?thesis
    unfolding CreateFarm_def by (intro ok_rules) (auto intro!: ok_rules main simp: Let_def)
qed

text \<open>A write that changes no place and no key of a row.\<close>

definition same_places :: "core_db \<Rightarrow> core_db \<Rightarrow> bool" where
  "same_places db db' \<longleftrightarrow> map (\<lambda>f. (fr_id f, fr_tenant f)) (cb_farms db') = map (\<lambda>f. (fr_id f, fr_tenant f)) (cb_farms db) \<and>
     map (\<lambda>p. (po_id p, po_farm p)) (cb_ponds db') = map (\<lambda>p. (po_id p, po_farm p)) (cb_ponds db)"

lemma same_places_foreign:
  assumes "same_places db db'"
  shows "foreign_pond t db' pond = foreign_pond t db pond"
proof -
  have f: "set (map (\<lambda>f. (fr_id f, fr_tenant f)) (cb_farms db')) = set (map (\<lambda>f. (fr_id f, fr_tenant f)) (cb_farms db))"
    and p: "set (map (\<lambda>p. (po_id p, po_farm p)) (cb_ponds db')) = set (map (\<lambda>p. (po_id p, po_farm p)) (cb_ponds db))"
    using assms unfolding same_places_def by simp_all
  have r: "foreign_pond t d pond \<longleftrightarrow> (\<forall>p \<in> set (map (\<lambda>p. (po_id p, po_farm p)) (cb_ponds d)). fst p = pond \<longrightarrow>
      (\<forall>f \<in> set (map (\<lambda>f. (fr_id f, fr_tenant f)) (cb_farms d)). fst f = snd p \<longrightarrow> snd f \<noteq> t))" for d
    by (simp add: foreign_pond_iff)
  show ?thesis unfolding r f p ..
qed

lemma map_pairs:
  assumes "map (\<lambda>x. (g x, h x)) xs = map (\<lambda>x. (g x, h x)) ys"
  shows "map g xs = map g ys" "map h xs = map h ys" "g ` set xs = g ` set ys" "h ` set xs = h ` set ys"
    "(\<lambda>x. (g x, h x)) ` set xs = (\<lambda>x. (g x, h x)) ` set ys"
proof -
  have "map fst (map (\<lambda>x. (g x, h x)) xs) = map fst (map (\<lambda>x. (g x, h x)) ys)"
      "map snd (map (\<lambda>x. (g x, h x)) xs) = map snd (map (\<lambda>x. (g x, h x)) ys)" using assms by simp_all
  then show "map g xs = map g ys" "map h xs = map h ys" by (simp_all add: comp_def)
  then show "g ` set xs = g ` set ys" "h ` set xs = h ` set ys" by (metis image_set)+
  show "(\<lambda>x. (g x, h x)) ` set xs = (\<lambda>x. (g x, h x)) ` set ys" using assms by (metis image_set)
qed

lemma same_places_keys:
  assumes "same_places db db'"
  shows "map fr_id (cb_farms db') = map fr_id (cb_farms db)" "map po_id (cb_ponds db') = map po_id (cb_ponds db)"
    "fr_id ` set (cb_farms db') = fr_id ` set (cb_farms db)" "po_id ` set (cb_ponds db') = po_id ` set (cb_ponds db)"
    "po_farm ` set (cb_ponds db') = po_farm ` set (cb_ponds db)"
    "(\<lambda>f. (fr_id f, fr_tenant f)) ` set (cb_farms db') = (\<lambda>f. (fr_id f, fr_tenant f)) ` set (cb_farms db)"
proof -
  note f = map_pairs[OF conjunct1[OF assms[unfolded same_places_def]]]
  note p = map_pairs[OF conjunct2[OF assms[unfolded same_places_def]]]
  show "map fr_id (cb_farms db') = map fr_id (cb_farms db)" "map po_id (cb_ponds db') = map po_id (cb_ponds db)"
    "fr_id ` set (cb_farms db') = fr_id ` set (cb_farms db)" "po_id ` set (cb_ponds db') = po_id ` set (cb_ponds db)"
    "po_farm ` set (cb_ponds db') = po_farm ` set (cb_ponds db)"
    "(\<lambda>f. (fr_id f, fr_tenant f)) ` set (cb_farms db') = (\<lambda>f. (fr_id f, fr_tenant f)) ` set (cb_farms db)"
    by (rule f(1) p(1) f(3) p(3) p(4) f(5))+
qed

lemma same_places_kept:
  assumes "sound db" and "same_places (ab_core db) (ab_core db')"
    and "cb_devices (ab_core db') = cb_devices (ab_core db)" "cb_rules (ab_core db') = cb_rules (ab_core db)"
      "cb_alarms (ab_core db') = cb_alarms (ab_core db)" "cb_shadows (ab_core db') = cb_shadows (ab_core db)"
    and "members_linked db'"
    and "\<And>t. TenantID c = Some t \<Longrightarrow>
      filter (\<lambda>f. fr_tenant f \<noteq> t) (cb_farms (ab_core db')) = filter (\<lambda>f. fr_tenant f \<noteq> t) (cb_farms (ab_core db)) \<and>
      filter (\<lambda>p. foreign_pond t (ab_core db) (po_id p)) (cb_ponds (ab_core db')) =
        filter (\<lambda>p. foreign_pond t (ab_core db) (po_id p)) (cb_ponds (ab_core db)) \<and>
      filter (\<lambda>m. mb_tenant m \<noteq> t) (cb_members (ab_core db')) = filter (\<lambda>m. mb_tenant m \<noteq> t) (cb_members (ab_core db)) \<and>
      filter (\<lambda>m. fm_tenant m \<noteq> t) (ab_farm_members db') = filter (\<lambda>m. fm_tenant m \<noteq> t) (ab_farm_members db)"
  shows "kept c db db'"
proof -
  have "sound db'"
    using assms(1,7) unfolding sound_def keyed_def linked_def same_places_keys[OF assms(2)] assms(3-6) by simp
  then show ?thesis
    using assms(8) by (simp add: kept_def keeps_foreign_def foreign_places_def foreign_rows_def
        same_places_foreign[OF assms(2)] assms(3-6))
qed

lemma UpdateFarm_kept:
  assumes "sound db"
  shows "ok (kept c db) (UpdateFarm w c x farm name loc db)"
proof -
  have "kept c db (db\<lparr>ab_core := core\<rparr>)" if core: "core = (ab_core db)\<lparr>cb_farms := map (\<lambda>f. if fr_id f = farm \<and> own_farm c f
      then f\<lparr>fr_name := name, fr_location := loc\<rparr> else f) (cb_farms (ab_core db))\<rparr>" for core
  proof -
    have p: "same_places (ab_core db) core" by (simp add: same_places_def core)
    have m: "members_linked (db\<lparr>ab_core := core\<rparr>)"
      using assms by (simp add: sound_def members_linked_image same_places_keys[OF p])
    show ?thesis
      by (rule same_places_kept[OF assms]) (use p m in simp_all, auto simp: core own_farm_def intro!: filter_update)
  qed
  then show ?thesis unfolding UpdateFarm_def map_core_def by (intro ok_rules) simp
qed

text \<open>A farm without ponds that the actor may write.\<close>

lemma DeleteFarm_kept:
  assumes "sound db"
  shows "ok (kept c db) (DeleteFarm w c x farm db)"
proof -
  have main: "kept c db (db\<lparr>ab_farm_members := ms, ab_core := core\<rparr>)"
    if core: "core = (ab_core db)\<lparr>cb_farms := filter (\<lambda>f. \<not> (fr_id f = farm \<and> own_farm c f)) (cb_farms (ab_core db))\<rparr>"
      and ms: "ms = filter (\<lambda>m. fm_farm m \<noteq> farm) (ab_farm_members db)"
      and own: "list_ex (\<lambda>f. fr_id f = farm \<and> own_farm c f) (cb_farms (ab_core db))"
      and free: "\<not> list_ex (\<lambda>p. po_farm p = farm \<and> list_ex (\<lambda>f. fr_id f = farm \<and> own_farm c f) (cb_farms (ab_core db)))
        (cb_ponds (ab_core db))" for core ms
  proof -
    obtain f where f: "f \<in> set (cb_farms (ab_core db))" "fr_id f = farm" "own_farm c f" using own by (auto simp: list_ex_iff)
    have np: "po_farm p \<noteq> farm" if "p \<in> set (cb_ponds (ab_core db))" for p using free own that by (auto simp: list_ex_iff)
    have only: "g = f" if "g \<in> set (cb_farms (ab_core db))" "fr_id g = farm" for g
      using same_key[of fr_id "cb_farms (ab_core db)" g f] assms f that by (simp add: sound_defs)
    have fs: "fr_id ` set (cb_farms core) = fr_id ` set (cb_farms (ab_core db)) - {farm}"
      using only f(3) by (auto simp: core)
    have in_core: "g \<in> set (cb_farms core) \<longleftrightarrow> g \<in> set (cb_farms (ab_core db))" if "fr_id g \<noteq> farm" for g
      using that by (simp add: core)
    have fp: "foreign_pond t core pond = foreign_pond t (ab_core db) pond" for t pond
      using np in_core unfolding foreign_pond_iff by (simp add: core) metis
    have "members_linked (db\<lparr>ab_farm_members := ms, ab_core := core\<rparr>)"
      unfolding members_linked_def
    proof
      fix m assume "m \<in> set (ab_farm_members (db\<lparr>ab_farm_members := ms, ab_core := core\<rparr>))"
      then have m: "m \<in> set (ab_farm_members db)" "fm_farm m \<noteq> farm" by (simp_all add: ms)
      obtain g where g: "g \<in> set (cb_farms (ab_core db))" "fr_id g = fm_farm m" "fr_tenant g = fm_tenant m"
        using assms m(1) unfolding sound_def by (blast elim: members_linkedD)
      then show "\<exists>f \<in> set (cb_farms (ab_core (db\<lparr>ab_farm_members := ms, ab_core := core\<rparr>))).
          fr_id f = fm_farm m \<and> fr_tenant f = fm_tenant m"
        using in_core[of g] m(2) by auto
    qed
    moreover have "keyed core" using assms by (simp add: sound_defs core distinct_map_filter)
    moreover have "linked core"
      unfolding linked_def fs using assms np by (auto simp: sound_defs core)
    ultimately have "sound (db\<lparr>ab_farm_members := ms, ab_core := core\<rparr>)" by (simp add: sound_def)
    moreover have "keeps_foreign t db (db\<lparr>ab_farm_members := ms, ab_core := core\<rparr>)" if t: "TenantID c = Some t" for t
    proof -
      have own_t: "fr_tenant g = t" if "g \<in> set (cb_farms (ab_core db))" "fr_id g = farm" for g
        using only[OF that] f(3) t by (simp add: own_farm_def)
      then have mt: "fm_tenant m = t" if "m \<in> set (ab_farm_members db)" "fm_farm m = farm" for m
        using assms that unfolding sound_def by (metis members_linkedD)
      show ?thesis
        by (rule keeps_foreignI[where S = UNIV])
          (use own_t mt in \<open>simp_all add: fp, simp_all add: core ms own_farm_def t, auto intro!: filter_cong\<close>)
    qed
    ultimately show ?thesis by (simp add: kept_def)
  qed
  show ?thesis
    unfolding DeleteFarm_def map_core_def
    by (intro ok_rules) (use main in simp)
qed

lemma put_farm_member_linked:
  assumes "sound db" and "f \<in> set (cb_farms (ab_core db))" "fm_farm m = fr_id f" "fm_tenant m = fr_tenant f"
  shows "members_linked (put_farm_member m db)"
    and "\<And>t. TenantID c = Some t \<Longrightarrow> own_farm c f \<Longrightarrow>
      filter (\<lambda>m. fm_tenant m \<noteq> t) (ab_farm_members (put_farm_member m db)) = filter (\<lambda>m. fm_tenant m \<noteq> t) (ab_farm_members db)"
proof -
  show "members_linked (put_farm_member m db)"
    using assms by (auto simp: sound_def members_linked_def put_farm_member_def)
  fix t assume t: "TenantID c = Some t" "own_farm c f"
  have "fm_tenant r = fr_tenant f" if r: "r \<in> set (ab_farm_members db)" "fm_farm r = fr_id f" for r
  proof -
    obtain g where "g \<in> set (cb_farms (ab_core db))" "fr_id g = fm_farm r" "fr_tenant g = fm_tenant r"
      using r(1) assms(1) unfolding sound_def by (blast elim: members_linkedD)
    then show ?thesis using same_key[of fr_id "cb_farms (ab_core db)" g f] assms(1,2) r(2) by (simp add: sound_defs)
  qed
  then show "filter (\<lambda>m. fm_tenant m \<noteq> t) (ab_farm_members (put_farm_member m db)) = filter (\<lambda>m. fm_tenant m \<noteq> t) (ab_farm_members db)"
    using t assms(3,4) by (auto simp: put_farm_member_def own_farm_def intro!: filter_update)
qed

lemma SetFarmMember_kept:
  assumes "sound db"
  shows "ok (kept c db) (SetFarmMember w c x now farm user role active expires actor db)"
proof -
  have main: "kept c db (add_audit a tn ty r u (put_farm_member m db))"
    if f: "find (\<lambda>f. fr_id f = farm \<and> own_farm c f) (cb_farms (ab_core db)) = Some f"
      and m: "fm_farm m = farm" "fm_tenant m = fr_tenant f" for f m a tn ty r u
  proof -
    have f: "f \<in> set (cb_farms (ab_core db))" "fr_id f = farm" "own_farm c f"
      using f by (auto simp: find_Some_iff)
    note l = put_farm_member_linked[OF assms f(1) m(1)[folded f(2)] m(2)]
    have c: "ab_core (put_farm_member m db) = ab_core db" by (simp add: put_farm_member_def)
    show ?thesis
      by (rule same_places_kept[OF assms])
        (use l(1) l(2)[OF _ f(3)] in \<open>simp_all add: c same_places_def add_audit_def members_linked_def\<close>)
  qed
  show ?thesis
    unfolding SetFarmMember_def Let_def
    by (intro ok_rules ok_take_or) (rule main, auto)
qed

lemma kept_trans: "kept c a b \<Longrightarrow> kept c b d \<Longrightarrow> kept c a d"
  by (simp add: kept_def keeps_foreign_def)

lemma kept_refl: "sound db \<Longrightarrow> kept c db db"
  by (simp add: kept_def keeps_foreign_refl)

lemma kept_sound: "kept c db db' \<Longrightarrow> sound db'"
  by (simp add: kept_def)

text \<open>A write of the memberships of farms alone.\<close>

lemma farm_members_kept:
  assumes "sound db" and "ab_core db' = ab_core db" and "members_linked db'"
    and "\<And>t. TenantID c = Some t \<Longrightarrow>
      filter (\<lambda>m. fm_tenant m \<noteq> t) (ab_farm_members db') = filter (\<lambda>m. fm_tenant m \<noteq> t) (ab_farm_members db)"
  shows "kept c db db'"
  by (rule same_places_kept[OF assms(1)]) (use assms(2-) in \<open>simp_all add: same_places_def\<close>)

lemma add_audit_kept: "sound db \<Longrightarrow> kept c db (add_audit a t ty r u db)"
  by (rule farm_members_kept) (simp_all add: add_audit_def sound_def members_linked_def)

lemma put_farm_member_kept:
  assumes "sound db" and "f \<in> set (cb_farms (ab_core db))" "own_farm c f" "fm_farm m = fr_id f" "fm_tenant m = fr_tenant f"
  shows "kept c db (put_farm_member m db)"
  by (rule farm_members_kept[OF assms(1)])
    (use put_farm_member_linked[OF assms(1,2,4,5)] assms(3) in \<open>auto simp: put_farm_member_def\<close>)

lemma members_linked_map:
  assumes "members_linked db" and "ab_core db' = ab_core db" and "ab_farm_members db' = map g (ab_farm_members db)"
    and "\<And>m. fm_farm (g m) = fm_farm m" "\<And>m. fm_tenant (g m) = fm_tenant m"
  shows "members_linked db'"
  using assms(1) by (simp add: members_linked_def assms(2-))

lemma deactivated_kept:
  assumes "sound db" and "own_farm c f"
  shows "kept c db (db\<lparr>ab_farm_members := map (\<lambda>m. if fm_farm m = farm \<and> fm_user m = previous \<and> fm_tenant m = fr_tenant f
    then m\<lparr>fm_active := False\<rparr> else m) (ab_farm_members db)\<rparr>)"
proof (rule farm_members_kept[OF assms(1)])
  have "members_linked db" using assms(1) by (simp add: sound_def)
  then show "members_linked (db\<lparr>ab_farm_members := map (\<lambda>m. if fm_farm m = farm \<and> fm_user m = previous \<and> fm_tenant m = fr_tenant f
      then m\<lparr>fm_active := False\<rparr> else m) (ab_farm_members db)\<rparr>)"
    by (rule members_linked_map[where g = "\<lambda>m. if fm_farm m = farm \<and> fm_user m = previous \<and> fm_tenant m = fr_tenant f
      then m\<lparr>fm_active := False\<rparr> else m"]) simp_all
qed (use assms(2) in \<open>auto simp: own_farm_def intro!: filter_update\<close>)

lemma owner_member_members:
  assumes "TenantID c = Some t"
  shows "ok (\<lambda>core. filter (\<lambda>m. mb_tenant m \<noteq> t) (cb_members core) = filter (\<lambda>m. mb_tenant m \<noteq> t) (cb_members (ab_core db)))
    (owner_member w c x t owner db)"
  unfolding owner_member_def
  by (cases owner) (auto intro!: ok_rules simp: Let_def new_member_def)

lemma SetFarmOwner_kept:
  assumes "sound db"
  shows "ok (kept c db) (SetFarmOwnerByActor w c x farm owner actor db)"
proof -
  have main: "kept c db (add_audit a tn ty rs u db3)"
    if f: "find (\<lambda>f. fr_id f = farm \<and> own_farm c f) (cb_farms (ab_core db)) = Some f"
      and core: "owner_member w c x (fr_tenant f) owner db = Inr core"
      and db1: "db1 = db\<lparr>ab_core := core\<lparr>cb_farms := map (\<lambda>g. if fr_id g = farm \<and> own_farm c g then g\<lparr>fr_owner := owner\<rparr> else g)
             (cb_farms core)\<rparr>\<rparr>"
      and db2: "db2 = (case fr_owner f of
               Some previous \<Rightarrow>
                 if owner \<noteq> Some previous
                 then db1\<lparr>ab_farm_members := map (\<lambda>m. if fm_farm m = farm \<and> fm_user m = previous \<and> fm_tenant m = fr_tenant f
                   then m\<lparr>fm_active := False\<rparr> else m) (ab_farm_members db1)\<rparr>
                 else db1
             | None \<Rightarrow> db1)"
      and db3: "db3 = (case owner of
               Some user \<Rightarrow> put_farm_member \<lparr>fm_tenant = fr_tenant f, fm_farm = farm, fm_user = user, fm_role = ''owner'',
                 fm_active = True, fm_expires = None\<rparr> db2
             | None \<Rightarrow> db2)" for f core db1 db2 db3 a tn ty rs u
  proof -
    have f: "f \<in> set (cb_farms (ab_core db))" "fr_id f = farm" "own_farm c f" using f by (auto simp: find_Some_iff)
    note k = okD[OF owner_member_core core]
    have k1: "kept c db db1"
    proof (rule same_places_kept[OF assms])
      have p: "same_places (ab_core db) (ab_core db1)" using k by (simp add: db1 same_places_def)
      then show "same_places (ab_core db) (ab_core db1)" .
      show "members_linked db1" using assms by (simp add: sound_def members_linked_image same_places_keys[OF p]) (simp add: db1)
      fix t assume t: "TenantID c = Some t"
      then have "fr_tenant f = t" using f(3) by (simp add: own_farm_def)
      then have "filter (\<lambda>m. mb_tenant m \<noteq> t) (cb_members core) = filter (\<lambda>m. mb_tenant m \<noteq> t) (cb_members (ab_core db))"
        using okD[OF owner_member_members[OF t] core[unfolded \<open>fr_tenant f = t\<close>]] by simp
      then show "filter (\<lambda>f. fr_tenant f \<noteq> t) (cb_farms (ab_core db1)) = filter (\<lambda>f. fr_tenant f \<noteq> t) (cb_farms (ab_core db)) \<and>
          filter (\<lambda>p. foreign_pond t (ab_core db) (po_id p)) (cb_ponds (ab_core db1)) =
            filter (\<lambda>p. foreign_pond t (ab_core db) (po_id p)) (cb_ponds (ab_core db)) \<and>
          filter (\<lambda>m. mb_tenant m \<noteq> t) (cb_members (ab_core db1)) = filter (\<lambda>m. mb_tenant m \<noteq> t) (cb_members (ab_core db)) \<and>
          filter (\<lambda>m. fm_tenant m \<noteq> t) (ab_farm_members db1) = filter (\<lambda>m. fm_tenant m \<noteq> t) (ab_farm_members db)"
        using k t by (auto simp: db1 own_farm_def intro!: filter_update)
    qed (use k in \<open>simp_all add: db1\<close>)
    have k2: "kept c db1 db2"
      unfolding db2 using kept_sound[OF k1] f(3) by (auto intro: kept_refl deactivated_kept split: option.split)
    have f2: "\<exists>g \<in> set (cb_farms (ab_core db2)). own_farm c g \<and> fr_id g = farm \<and> fr_tenant g = fr_tenant f"
    proof (rule bexI)
      show "own_farm c (f\<lparr>fr_owner := owner\<rparr>) \<and> fr_id (f\<lparr>fr_owner := owner\<rparr>) = farm \<and> fr_tenant (f\<lparr>fr_owner := owner\<rparr>) = fr_tenant f"
        using f by (auto simp: own_farm_def split: option.splits)
      have "f\<lparr>fr_owner := owner\<rparr> \<in> set (cb_farms (ab_core db1))" using f k by (auto simp: db1 image_iff intro!: bexI[of _ f])
      then show "f\<lparr>fr_owner := owner\<rparr> \<in> set (cb_farms (ab_core db2))" by (auto simp: db2 split: option.split)
    qed
    have k3: "kept c db2 db3"
      unfolding db3 using kept_sound[OF k2] f2 by (auto intro: kept_refl put_farm_member_kept split: option.split)
    show ?thesis
      by (rule kept_trans[OF kept_trans[OF kept_trans[OF k1 k2] k3] add_audit_kept[OF kept_sound[OF k3]]])
  qed
  show ?thesis
    unfolding SetFarmOwnerByActor_def Let_def
    by (intro ok_rules) (rule main[OF _ _ HOL.refl HOL.refl HOL.refl], assumption+)
qed

subsection \<open>Ponds\<close>

lemma CreatePond_kept:
  assumes "sound db" and "newid \<notin> po_id ` set (cb_ponds (ab_core db))"
  shows "ok (\<lambda>(_, db'). kept c db db') (CreatePond w c x newid farm name area db)"
proof -
  have main: "kept c db (db\<lparr>ab_core := core\<rparr>)"
    if core: "core = (ab_core db)\<lparr>cb_ponds := cb_ponds (ab_core db) @ [p]\<rparr>" and p: "po_id p = newid" "po_farm p = farm"
      and own: "list_ex (\<lambda>f. fr_id f = farm \<and> own_farm c f) (cb_farms (ab_core db))" for core p
  proof -
    obtain f where f: "f \<in> set (cb_farms (ab_core db))" "fr_id f = farm" "own_farm c f" using own by (auto simp: list_ex_iff)
    have fp: "foreign_pond t core pond = foreign_pond t (ab_core db) pond" if "pond \<in> - {newid}" for t pond
      using that p by (auto simp: foreign_pond_iff core)
    have in_ids: "pond \<in> po_id ` set (cb_ponds (ab_core db)) \<Longrightarrow> pond \<in> - {newid}" for pond using assms(2) by auto
    have "po_farm p \<in> fr_id ` set (cb_farms (ab_core db))" using f p by (metis imageI)
    then have "sound (db\<lparr>ab_core := core\<rparr>)"
      using assms p by (auto simp: sound_defs core)
    moreover have "keeps_foreign t db (db\<lparr>ab_core := core\<rparr>)" if t: "TenantID c = Some t" for t
    proof (rule keeps_foreignI[where S = "- {newid}"])
      have "\<not> foreign_pond t core newid"
        using f p t by (auto simp: foreign_pond_iff core own_farm_def)
      then show "filter (\<lambda>p. foreign_pond t (ab_core (db\<lparr>ab_core := core\<rparr>)) (po_id p)) (cb_ponds (ab_core (db\<lparr>ab_core := core\<rparr>))) =
          filter (\<lambda>p. foreign_pond t (ab_core db) (po_id p)) (cb_ponds (ab_core db))"
        using fp in_ids p by (auto simp: core intro!: filter_cong)
    qed (use assms in_ids fp in \<open>simp_all add: sound_defs core, auto simp: core\<close>)
    ultimately show ?thesis by (simp add: kept_def)
  qed
  show ?thesis
    unfolding CreatePond_def Let_def map_core_def
    by (intro ok_rules) (unfold prod.case, rule main[OF HOL.refl], simp_all)
qed

lemma updatePond_kept:
  assumes "sound db"
  shows "ok (kept c db) (updatePond w c x pond expected name area db)"
proof -
  let ?own = "\<lambda>p. po_id p = pond \<and> list_ex (\<lambda>f. fr_id f = po_farm p \<and> own_farm c f) (cb_farms (ab_core db))"
  have main: "kept c db (db\<lparr>ab_core := core\<rparr>)"
    if core: "core = (ab_core db)\<lparr>cb_ponds := map (\<lambda>p. if ?own p then p\<lparr>po_name := name, po_area := Some area\<rparr> else p)
      (cb_ponds (ab_core db))\<rparr>" for core
  proof -
    have p: "same_places (ab_core db) core" by (simp add: same_places_def core)
    have m: "members_linked (db\<lparr>ab_core := core\<rparr>)"
      using assms by (simp add: sound_def members_linked_image same_places_keys[OF p])
    have "\<not> foreign_pond t (ab_core db) (po_id p)" if "TenantID c = Some t" "p \<in> set (cb_ponds (ab_core db))" "?own p" for t p
      using that by (auto simp: foreign_pond_iff list_ex_iff own_farm_def)
    then show ?thesis
      by (intro same_places_kept[OF assms]) (use p m in simp_all, auto simp: core intro!: filter_update)
  qed
  show ?thesis unfolding updatePond_def Let_def map_core_def by (intro ok_rules) (rule main[OF HOL.refl])
qed

text \<open>A pond that no device, rule or alarm is in.\<close>

lemma DeletePond_kept:
  assumes "sound db"
  shows "ok (kept c db) (DeletePond w c x pond db)"
proof -
  let ?own = "\<lambda>p. po_id p = pond \<and> list_ex (\<lambda>f. fr_id f = po_farm p \<and> own_farm c f) (cb_farms (ab_core db))"
  have main: "kept c db (db\<lparr>ab_core := core\<rparr>)"
    if core: "core = (ab_core db)\<lparr>cb_ponds := filter (\<lambda>p. \<not> ?own p) (cb_ponds (ab_core db))\<rparr>"
      and own: "list_ex ?own (cb_ponds (ab_core db))"
      and free: "\<not> (list_ex ?own (cb_ponds (ab_core db)) \<and> pond_in_use (ab_core db) pond)" for core
  proof -
    have unused: "\<forall>d \<in> set (cb_devices (ab_core db)). de_pond d \<noteq> pond"
        "\<forall>r \<in> set (cb_rules (ab_core db)). ru_PondID r \<noteq> pond" "\<forall>a \<in> set (cb_alarms (ab_core db)). al_PondID a \<noteq> pond"
      using free own by (auto simp: pond_in_use_def list_ex_iff)
    obtain p where p: "p \<in> set (cb_ponds (ab_core db))" "?own p" using own by (auto simp: list_ex_iff)
    have ids: "pond' \<in> po_id ` set (cb_ponds core)" if "pond' \<in> po_id ` set (cb_ponds (ab_core db))" "pond' \<noteq> pond" for pond'
      using that by (auto simp: core)
    have fp: "foreign_pond t core pond' = foreign_pond t (ab_core db) pond'" if "pond' \<in> - {pond}" for t pond'
      using that by (auto simp: foreign_pond_iff core)
    have "keyed core" using assms by (simp add: sound_defs core distinct_map_filter)
    moreover have "linked core"
    proof -
      have l: "linked (ab_core db)" using assms by (simp add: sound_def)
      have "po_farm ` set (cb_ponds core) \<subseteq> po_farm ` set (cb_ponds (ab_core db))" by (auto simp: core)
      then have "po_farm ` set (cb_ponds core) \<subseteq> fr_id ` set (cb_farms core)" using l by (auto simp: linked_def core)
      moreover have "cb_devices core = cb_devices (ab_core db)" "cb_rules core = cb_rules (ab_core db)"
          "cb_alarms core = cb_alarms (ab_core db)" by (simp_all add: core)
      ultimately show ?thesis
        unfolding linked_def using l[unfolded linked_def image_subset_iff] unused ids by (metis image_subsetI)
    qed
    ultimately have "sound (db\<lparr>ab_core := core\<rparr>)" using assms by (simp add: sound_def members_linked_def core)
    moreover have "keeps_foreign t db (db\<lparr>ab_core := core\<rparr>)" if t: "TenantID c = Some t" for t
    proof (rule keeps_foreignI[where S = "- {pond}"])
      have nf: "\<not> foreign_pond t (ab_core db) pond"
        using p t by (auto simp: foreign_pond_iff list_ex_iff own_farm_def)
      have only: "q = p" if "q \<in> set (cb_ponds (ab_core db))" "po_id q = pond" for q
        using same_key[of po_id "cb_ponds (ab_core db)" q p] assms p that by (simp add: sound_defs)
      then have "set (cb_ponds core) = {q \<in> set (cb_ponds (ab_core db)). po_id q \<noteq> pond}"
        using p by (auto simp: core)
      then have "filter (\<lambda>p. foreign_pond t core (po_id p)) (cb_ponds core) =
          filter (\<lambda>p. foreign_pond t (ab_core db) (po_id p)) (cb_ponds core)"
        using fp by (intro filter_cong) auto
      also have "\<dots> = filter (\<lambda>p. foreign_pond t (ab_core db) (po_id p)) (cb_ponds (ab_core db))"
        unfolding core using nf by (simp, intro filter_cong) auto
      finally show "filter (\<lambda>p. foreign_pond t (ab_core (db\<lparr>ab_core := core\<rparr>)) (po_id p)) (cb_ponds (ab_core (db\<lparr>ab_core := core\<rparr>))) =
          filter (\<lambda>p. foreign_pond t (ab_core db) (po_id p)) (cb_ponds (ab_core db))" by simp
    qed (use unused fp in \<open>simp_all, auto simp: core\<close>)
    ultimately show ?thesis by (simp add: kept_def)
  qed
  show ?thesis
    unfolding DeletePond_def Let_def map_core_def
    by (intro ok_rules) (rule main[OF HOL.refl], assumption+)
qed

end
