(* ===== verification/Admin_Rows.thy ===== *)
theory Admin_Rows
  imports Admin_Kept
begin

text \<open>
  The writes of devices, rules and alarms keep the keys and references of the tables and the rows of other
  tenants; together with \<open>Admin_Kept\<close>: every write does.
\<close>

lemma rows_kept:
  assumes "sound db" and u: "cb_farms core = cb_farms (ab_core db)" "cb_ponds core = cb_ponds (ab_core db)"
      "cb_members core = cb_members (ab_core db)"
    and "keyed core" "linked core"
    and t: "\<And>t. TenantID c = Some t \<Longrightarrow>
      filter (\<lambda>d. foreign_pond t (ab_core db) (de_pond d)) (cb_devices core) =
        filter (\<lambda>d. foreign_pond t (ab_core db) (de_pond d)) (cb_devices (ab_core db)) \<and>
      filter (\<lambda>r. foreign_pond t (ab_core db) (ru_PondID r)) (cb_rules core) =
        filter (\<lambda>r. foreign_pond t (ab_core db) (ru_PondID r)) (cb_rules (ab_core db)) \<and>
      filter (\<lambda>a. foreign_pond t (ab_core db) (al_PondID a)) (cb_alarms core) =
        filter (\<lambda>a. foreign_pond t (ab_core db) (al_PondID a)) (cb_alarms (ab_core db)) \<and>
      filter (\<lambda>s. list_ex (\<lambda>d. de_no d = sh_device s \<and> foreign_pond t (ab_core db) (de_pond d)) (cb_devices (ab_core db)))
          (cb_shadows core) =
        filter (\<lambda>s. list_ex (\<lambda>d. de_no d = sh_device s \<and> foreign_pond t (ab_core db) (de_pond d)) (cb_devices (ab_core db)))
          (cb_shadows (ab_core db))"
  shows "kept c db (db\<lparr>ab_core := core\<rparr>)"
proof -
  have fp: "foreign_pond t core pond = foreign_pond t (ab_core db) pond" for t pond
    by (rule foreign_pond_cong) (simp_all add: u)
  have "sound (db\<lparr>ab_core := core\<rparr>)"
    using assms(1,5,6) by (simp add: sound_def members_linked_def u)
  moreover have "keeps_foreign t db (db\<lparr>ab_core := core\<rparr>)" if "TenantID c = Some t" for t
    by (rule keeps_foreignI[where S = UNIV]) (use t[OF that] in \<open>simp_all add: fp u\<close>)
  ultimately show ?thesis by (simp add: kept_def)
qed

lemma set_update:
  "(\<And>x. x \<in> set xs \<Longrightarrow> P x \<Longrightarrow> R (g x)) \<Longrightarrow> (\<And>x. x \<in> set xs \<Longrightarrow> R x) \<Longrightarrow>
   (\<forall>y \<in> set (map (\<lambda>x. if P x then g x else x) xs). R y)"
  by auto

text \<open>A row replaced by one with the same number, whose key no other row has.\<close>

lemma distinct_replace:
  assumes "\<And>q. H q \<Longrightarrow> rid q = rid rule"
  shows "distinct (map key rs) \<Longrightarrow> distinct (map rid rs) \<Longrightarrow> (\<And>q. q \<in> set rs \<Longrightarrow> rid q \<noteq> rid rule \<Longrightarrow> key q \<noteq> key rule) \<Longrightarrow>
    distinct (map key (map (\<lambda>r. if H r then rule else r) rs))"
proof (induction rs)
  case (Cons r rs)
  have ne: "key q \<noteq> key r \<and> rid q \<noteq> rid r" if "q \<in> set rs" for q
    using Cons(2,3) that by (auto simp: image_iff)
  have "key (if H r then rule else r) \<noteq> key z" if z: "z \<in> set (map (\<lambda>r. if H r then rule else r) rs)" for z
  proof -
    obtain q where q: "q \<in> set rs" "z = (if H q then rule else q)" using z by auto
    show ?thesis
    proof (cases "H r")
      case True
      then have "\<not> H q" "rid q \<noteq> rid rule" using ne[OF q(1)] assms[of r] assms[of q] by auto
      then show ?thesis using True q Cons(4)[of q] by simp
    next
      case False
      show ?thesis
      proof (cases "H q")
        case True
        then have "rid r \<noteq> rid rule" using ne[OF q(1)] assms[of q] by auto
        then show ?thesis using False True q Cons(4)[of r] by simp
      next
        case hq: False
        then show ?thesis using False q ne[OF q(1)] by metis
      qed
    qed
  qed
  then have "key (if H r then rule else r) \<notin> set (map key (map (\<lambda>r. if H r then rule else r) rs))"
    unfolding set_map image_iff by blast
  moreover have "distinct (map key (map (\<lambda>r. if H r then rule else r) rs))" using Cons by simp
  ultimately show ?case by simp
qed simp

lemma linked_same:
  assumes "linked db" and "cb_farms core = cb_farms db" "cb_ponds core = cb_ponds db" "cb_alarms core = cb_alarms db"
    and "\<forall>d \<in> set (cb_devices core). de_pond d \<in> po_id ` set (cb_ponds db)"
    and "\<forall>r \<in> set (cb_rules core). ru_PondID r \<in> po_id ` set (cb_ponds db)"
  shows "linked core"
  using assms(1,5,6) unfolding linked_def assms(2-4) image_subset_iff by blast

lemma keyed_same:
  assumes "keyed db" and "cb_farms core = cb_farms db" "cb_ponds core = cb_ponds db" "cb_rules core = cb_rules db"
    and "map de_id (cb_devices core) = map de_id (cb_devices db)" "map de_no (cb_devices core) = map de_no (cb_devices db)"
      "map de_username (cb_devices core) = map de_username (cb_devices db)"
  shows "keyed core"
  using assms(1) by (simp add: keyed_def assms(2-))

subsection \<open>Devices\<close>

text \<open>The write of one device \<open>d\<close>: it stays where it is or goes to a pond that exists.\<close>

lemma device_written:
  assumes "sound db" and d: "d \<in> set (own_devices c (ab_core db) no)"
    and core: "core = (ab_core db)\<lparr>cb_devices := map (\<lambda>e. if de_id e = de_id d then g e else e) (cb_devices (ab_core db)),
      cb_shadows := filter (\<lambda>s. sh_device s \<noteq> no) (cb_shadows (ab_core db))\<rparr>"
    and g: "\<And>e. de_id (g e) = de_id e" "\<And>e. de_no (g e) = de_no e" "\<And>e. de_username (g e) = de_username e"
      "\<And>e. de_pond (g e) = pond e"
    and pond: "pond d = de_pond d \<or> pond_exists c (ab_core db) (pond d)"
  shows "kept c db (db\<lparr>ab_core := core\<rparr>)"
proof -
  have d: "d \<in> set (cb_devices (ab_core db))" "de_no d = no" "own_pond c (ab_core db) (de_pond d)"
    using d by (simp_all add: own_devices_in)
  have only: "e = d" if "e \<in> set (cb_devices (ab_core db))" "de_id e = de_id d" for e
    using same_key[of de_id "cb_devices (ab_core db)" e d] assms(1) d that by (simp add: sound_defs)
  have only_no: "e = d" if "e \<in> set (cb_devices (ab_core db))" "de_no e = no" for e
    using same_key[of de_no "cb_devices (ab_core db)" e d] assms(1) d that by (simp add: sound_defs)
  show ?thesis
  proof (rule rows_kept[OF assms(1)])
    have "keyed (ab_core db)" using assms(1) by (simp add: sound_def)
    then show "keyed core" by (rule keyed_same) (auto simp: core g)
    have "pond d \<in> po_id ` set (cb_ponds (ab_core db))"
      using pond d(1) assms(1) by (auto simp: sound_defs dest: pond_exists_id)
    then have moved: "de_pond (g e) \<in> po_id ` set (cb_ponds (ab_core db))"
      if "e \<in> set (cb_devices (ab_core db))" "de_id e = de_id d" for e
      using only[OF that] g(4)[of e] by simp
    have l: "linked (ab_core db)" using assms(1) by (simp add: sound_def)
    then have stay: "de_pond e \<in> po_id ` set (cb_ponds (ab_core db))" if "e \<in> set (cb_devices (ab_core db))" for e
      using that by (simp add: linked_def image_subset_iff)
    have cd: "cb_devices core = map (\<lambda>e. if de_id e = de_id d then g e else e) (cb_devices (ab_core db))" by (simp add: core)
    have "\<forall>e \<in> set (cb_devices core). de_pond e \<in> po_id ` set (cb_ponds (ab_core db))"
      unfolding cd by (rule set_update) (rule moved, assumption+, rule stay)
    moreover have "\<forall>r \<in> set (cb_rules core). ru_PondID r \<in> po_id ` set (cb_ponds (ab_core db))"
      using l by (auto simp: linked_def core)
    ultimately show "linked core" by (intro linked_same[OF l]) (simp_all add: core)
    fix t assume t: "TenantID c = Some t"
    have own: "\<not> foreign_pond t (ab_core db) (de_pond d)" using d(3) own_pond_foreign[OF t] by simp
    then have new: "\<not> foreign_pond t (ab_core db) (pond d)" using pond pond_exists_foreign[OF t] by auto
    have "filter (\<lambda>d. foreign_pond t (ab_core db) (de_pond d)) (cb_devices core) =
        filter (\<lambda>d. foreign_pond t (ab_core db) (de_pond d)) (cb_devices (ab_core db))"
      unfolding cd
    proof (rule filter_update)
      fix e assume "e \<in> set (cb_devices (ab_core db))" "de_id e = de_id d"
      then have "e = d" by (rule only)
      then show "\<not> foreign_pond t (ab_core db) (de_pond e) \<and> \<not> foreign_pond t (ab_core db) (de_pond (g e))"
        using own new by (simp add: g(4))
    qed
    moreover have "filter (\<lambda>s. list_ex (\<lambda>d. de_no d = sh_device s \<and> foreign_pond t (ab_core db) (de_pond d)) (cb_devices (ab_core db)))
          (cb_shadows core) =
        filter (\<lambda>s. list_ex (\<lambda>d. de_no d = sh_device s \<and> foreign_pond t (ab_core db) (de_pond d)) (cb_devices (ab_core db)))
          (cb_shadows (ab_core db))"
    proof -
      have "cb_shadows core = filter (\<lambda>s. sh_device s \<noteq> no) (cb_shadows (ab_core db))" by (simp add: core)
      then show ?thesis using only_no own by (simp only:, intro filter_drop) (auto simp: list_ex_iff)
    qed
    ultimately show "filter (\<lambda>d. foreign_pond t (ab_core db) (de_pond d)) (cb_devices core) =
        filter (\<lambda>d. foreign_pond t (ab_core db) (de_pond d)) (cb_devices (ab_core db)) \<and>
      filter (\<lambda>r. foreign_pond t (ab_core db) (ru_PondID r)) (cb_rules core) =
        filter (\<lambda>r. foreign_pond t (ab_core db) (ru_PondID r)) (cb_rules (ab_core db)) \<and>
      filter (\<lambda>a. foreign_pond t (ab_core db) (al_PondID a)) (cb_alarms core) =
        filter (\<lambda>a. foreign_pond t (ab_core db) (al_PondID a)) (cb_alarms (ab_core db)) \<and>
      filter (\<lambda>s. list_ex (\<lambda>d. de_no d = sh_device s \<and> foreign_pond t (ab_core db) (de_pond d)) (cb_devices (ab_core db)))
          (cb_shadows core) =
        filter (\<lambda>s. list_ex (\<lambda>d. de_no d = sh_device s \<and> foreign_pond t (ab_core db) (de_pond d)) (cb_devices (ab_core db)))
          (cb_shadows (ab_core db))" by (simp add: core)
  qed (simp_all add: core)
qed

lemma MoveDevice_kept:
  assumes "sound db"
  shows "ok (kept c db) (MoveDevice w c x no pond db)"
proof (cases "own_devices c (ab_core db) no")
  case (Cons d ds)
  then have d: "d \<in> set (own_devices c (ab_core db) no)" by simp
  show ?thesis
    unfolding MoveDevice_def Cons list.case map_core_def
    by (intro ok_rules) (rule device_written[OF assms d HOL.refl, where pond = "\<lambda>_. pond"], simp_all)
next
  case Nil
  then show ?thesis unfolding MoveDevice_def Nil list.case by (intro ok_rules)
qed

lemma restore_kept:
  assumes "sound db"
  shows "ok (\<lambda>(_, db'). kept c db db') (restore_body w c x checked now no db)"
proof (cases "own_devices c (ab_core db) no")
  case (Cons d ds)
  then have d: "d \<in> set (own_devices c (ab_core db) no)" by simp
  have "kept c db (db\<lparr>ab_core := (ab_core db)\<lparr>cb_devices := map (\<lambda>e. if de_id e = de_id d
         then e\<lparr>de_disabled := False, de_status := ''offline'', de_seen := None,
                de_session_version := de_session_version e + 1\<rparr> else e) (cb_devices (ab_core db)),
       cb_shadows := filter (\<lambda>s. sh_device s \<noteq> no) (cb_shadows (ab_core db))\<rparr>\<rparr>)"
    by (rule device_written[OF assms d HOL.refl, where pond = de_pond]) simp_all
  then show ?thesis
    unfolding restore_body_def Cons list.case map_core_def
    by (auto intro!: ok_rules kept_refl[OF assms])
next
  case Nil
  then show ?thesis unfolding restore_body_def Nil list.case by (intro ok_rules)
qed

lemma DeleteDevice_kept:
  assumes "sound db"
  shows "ok (kept c db) (DeleteDevice w c x no db)"
proof -
  have main: "kept c db (db\<lparr>ab_core := core\<rparr>)"
    if core: "core = (ab_core db)\<lparr>cb_devices := map (\<lambda>e. if de_no e = no \<and> own_pond c (ab_core db) (de_pond e)
          then e\<lparr>de_disabled := True, de_status := ''offline'', de_session_version := de_session_version e + 1\<rparr> else e)
          (cb_devices (ab_core db))\<rparr>" for core
  proof (rule rows_kept[OF assms])
    have "keyed (ab_core db)" using assms(1) by (simp add: sound_def)
    then show "keyed core" by (rule keyed_same) (auto simp: core)
    have "map de_pond (cb_devices core) = map de_pond (cb_devices (ab_core db))" by (auto simp: core)
    then have "de_pond ` set (cb_devices core) = de_pond ` set (cb_devices (ab_core db))" by (metis image_set)
    then show "linked core" using assms by (simp add: sound_defs core)
    fix t assume t: "TenantID c = Some t"
    have "filter (\<lambda>d. foreign_pond t (ab_core db) (de_pond d)) (cb_devices core) =
        filter (\<lambda>d. foreign_pond t (ab_core db) (de_pond d)) (cb_devices (ab_core db))"
      unfolding core by simp (rule filter_update, simp add: own_pond_foreign[OF t])
    then show "filter (\<lambda>d. foreign_pond t (ab_core db) (de_pond d)) (cb_devices core) =
        filter (\<lambda>d. foreign_pond t (ab_core db) (de_pond d)) (cb_devices (ab_core db)) \<and>
      filter (\<lambda>r. foreign_pond t (ab_core db) (ru_PondID r)) (cb_rules core) =
        filter (\<lambda>r. foreign_pond t (ab_core db) (ru_PondID r)) (cb_rules (ab_core db)) \<and>
      filter (\<lambda>a. foreign_pond t (ab_core db) (al_PondID a)) (cb_alarms core) =
        filter (\<lambda>a. foreign_pond t (ab_core db) (al_PondID a)) (cb_alarms (ab_core db)) \<and>
      filter (\<lambda>s. list_ex (\<lambda>d. de_no d = sh_device s \<and> foreign_pond t (ab_core db) (de_pond d)) (cb_devices (ab_core db)))
          (cb_shadows core) =
        filter (\<lambda>s. list_ex (\<lambda>d. de_no d = sh_device s \<and> foreign_pond t (ab_core db) (de_pond d)) (cb_devices (ab_core db)))
          (cb_shadows (ab_core db))" by (simp add: core)
  qed (simp_all add: core)
  show ?thesis unfolding DeleteDevice_def map_core_def by (intro ok_rules) (rule main[OF HOL.refl])
qed

lemma register_kept:
  assumes "sound db" and "rg_id rg \<notin> de_id ` set (cb_devices (ab_core db))"
  shows "ok (\<lambda>(_, db'). kept c db db') (register_body w c x checked now rg pond name model interval db)"
proof -
  have main: "kept c db (db\<lparr>ab_core := core\<rparr>)"
    if core: "core = (ab_core db)\<lparr>cb_devices := cb_devices (ab_core db) @ [d]\<rparr>"
      and d: "de_id d = rg_id rg" "de_no d = no" "de_username d = user" "de_pond d = pond"
      and no: "\<not> list_ex (\<lambda>d. de_no d = no) (cb_devices (ab_core db))"
      and user: "\<not> list_ex (\<lambda>d. de_username d = user) (cb_devices (ab_core db))"
      and pond: "pond_exists c (ab_core db) pond" for core d no user
  proof (rule rows_kept[OF assms(1)])
    have n: "no \<notin> de_no ` set (cb_devices (ab_core db))" "user \<notin> de_username ` set (cb_devices (ab_core db))"
      using no user by (auto simp: list_ex_iff)
    then show "keyed core" using assms by (auto simp: sound_defs core d)
    show "linked core" using assms(1) pond_exists_id[OF pond] by (auto simp: sound_defs core d)
    fix t assume t: "TenantID c = Some t"
    then have "\<not> foreign_pond t (ab_core db) pond" using pond pond_exists_foreign by blast
    then show "filter (\<lambda>d. foreign_pond t (ab_core db) (de_pond d)) (cb_devices core) =
        filter (\<lambda>d. foreign_pond t (ab_core db) (de_pond d)) (cb_devices (ab_core db)) \<and>
      filter (\<lambda>r. foreign_pond t (ab_core db) (ru_PondID r)) (cb_rules core) =
        filter (\<lambda>r. foreign_pond t (ab_core db) (ru_PondID r)) (cb_rules (ab_core db)) \<and>
      filter (\<lambda>a. foreign_pond t (ab_core db) (al_PondID a)) (cb_alarms core) =
        filter (\<lambda>a. foreign_pond t (ab_core db) (al_PondID a)) (cb_alarms (ab_core db)) \<and>
      filter (\<lambda>s. list_ex (\<lambda>d. de_no d = sh_device s \<and> foreign_pond t (ab_core db) (de_pond d)) (cb_devices (ab_core db)))
          (cb_shadows core) =
        filter (\<lambda>s. list_ex (\<lambda>d. de_no d = sh_device s \<and> foreign_pond t (ab_core db) (de_pond d)) (cb_devices (ab_core db)))
          (cb_shadows (ab_core db))" by (simp add: core d)
  qed (simp_all add: core)
  show ?thesis
    unfolding register_body_def Let_def map_core_def
    by (intro ok_rules) (unfold prod.case, rule main[OF HOL.refl], auto dest: first_untaken_not_taken)
qed

subsection \<open>Rules and alarms\<close>

lemma storable_rule_Inr: "storable_rule r others db = Inr u \<Longrightarrow> ru_PondID r \<in> po_id ` set (cb_ponds db) \<and>
    (\<forall>q \<in> set (cb_rules db). others q \<longrightarrow> (ru_PondID q, ru_Metric q) \<noteq> (ru_PondID r, ru_Metric r))"
  by (auto simp: storable_rule_def iolink_simps list_ex_iff image_iff) metis

lemma CreateRule_kept:
  assumes "sound db" and "newid \<notin> ru_ID ` set (cb_rules (ab_core db))"
  shows "ok (\<lambda>(_, db'). kept c db db') (CreateRule w c x newid rule db)"
proof -
  have main: "kept c db (db\<lparr>ab_core := core\<rparr>)"
    if core: "core = (ab_core db)\<lparr>cb_rules := cb_rules (ab_core db) @ [rule\<lparr>ru_ID := newid\<rparr>]\<rparr>"
      and pond: "case TenantID c of None \<Rightarrow> True | Some t \<Rightarrow> pond_exists c (ab_core db) (ru_PondID rule)"
      and st: "storable_rule rule (\<lambda>_. True) (ab_core db) = Inr u" for core u
  proof (rule rows_kept[OF assms(1)])
    show "keyed core" using assms storable_rule_Inr[OF st] by (auto simp: sound_defs core)
    show "linked core" using assms(1) storable_rule_Inr[OF st] by (simp add: sound_def linked_def core)
  qed (use pond pond_exists_foreign in \<open>simp_all add: core\<close>)
  show ?thesis
    unfolding CreateRule_def Let_def map_core_def
    by (intro ok_rules) (unfold prod.case, rule main[OF HOL.refl], assumption+)
qed

lemma UpdateRule_kept:
  assumes "sound db"
  shows "ok (kept c db) (UpdateRule w c x rule db)"
proof -
  let ?hit = "\<lambda>r. ru_ID r = ru_ID rule \<and> own_pond c (ab_core db) (ru_PondID r) \<and>
    (case TenantID c of None \<Rightarrow> True | Some t \<Rightarrow> pond_exists c (ab_core db) (ru_PondID rule))"
  have main: "kept c db (db\<lparr>ab_core := core\<rparr>)"
    if core: "core = (ab_core db)\<lparr>cb_rules := map (\<lambda>r. if ?hit r then rule else r) (cb_rules (ab_core db))\<rparr>"
      and st: "storable_rule rule (\<lambda>q. ru_ID q \<noteq> ru_ID rule) (ab_core db) = Inr u" for core u
  proof (rule rows_kept[OF assms])
    have cr: "cb_rules core = map (\<lambda>r. if ?hit r then rule else r) (cb_rules (ab_core db))" by (simp add: core)
    have "map ru_ID (cb_rules core) = map ru_ID (cb_rules (ab_core db))" by (auto simp: cr)
    moreover have "distinct (map (\<lambda>r. (ru_PondID r, ru_Metric r)) (map (\<lambda>r. if ?hit r then rule else r) (cb_rules (ab_core db))))"
      by (rule distinct_replace[where rid = ru_ID]) (use storable_rule_Inr[OF st] assms in \<open>simp_all add: sound_defs\<close>)
    then have "distinct (map (\<lambda>r. (ru_PondID r, ru_Metric r)) (cb_rules core))" unfolding cr .
    ultimately show "keyed core" using assms by (simp add: sound_def keyed_def) (simp add: core)
    have l: "linked (ab_core db)" using assms by (simp add: sound_def)
    have "\<forall>r \<in> set (map (\<lambda>r. if ?hit r then rule else r) (cb_rules (ab_core db))). ru_PondID r \<in> po_id ` set (cb_ponds (ab_core db))"
      by (rule set_update) (use storable_rule_Inr[OF st] l in \<open>auto simp: linked_def\<close>)
    then have "\<forall>r \<in> set (cb_rules core). ru_PondID r \<in> po_id ` set (cb_ponds (ab_core db))" unfolding cr .
    then show "linked core" using l by (intro linked_same[OF l]) (simp_all add: core linked_def image_subset_iff)
    fix t assume t: "TenantID c = Some t"
    have "filter (\<lambda>r. foreign_pond t (ab_core db) (ru_PondID r)) (cb_rules core) =
        filter (\<lambda>r. foreign_pond t (ab_core db) (ru_PondID r)) (cb_rules (ab_core db))"
      unfolding core by simp (rule filter_update, simp add: own_pond_foreign[OF t] pond_exists_foreign[OF t] t)
    then show "filter (\<lambda>d. foreign_pond t (ab_core db) (de_pond d)) (cb_devices core) =
        filter (\<lambda>d. foreign_pond t (ab_core db) (de_pond d)) (cb_devices (ab_core db)) \<and>
      filter (\<lambda>r. foreign_pond t (ab_core db) (ru_PondID r)) (cb_rules core) =
        filter (\<lambda>r. foreign_pond t (ab_core db) (ru_PondID r)) (cb_rules (ab_core db)) \<and>
      filter (\<lambda>a. foreign_pond t (ab_core db) (al_PondID a)) (cb_alarms core) =
        filter (\<lambda>a. foreign_pond t (ab_core db) (al_PondID a)) (cb_alarms (ab_core db)) \<and>
      filter (\<lambda>s. list_ex (\<lambda>d. de_no d = sh_device s \<and> foreign_pond t (ab_core db) (de_pond d)) (cb_devices (ab_core db)))
          (cb_shadows core) =
        filter (\<lambda>s. list_ex (\<lambda>d. de_no d = sh_device s \<and> foreign_pond t (ab_core db) (de_pond d)) (cb_devices (ab_core db)))
          (cb_shadows (ab_core db))" by (simp add: core)
  qed (simp_all add: core)
  show ?thesis
    unfolding UpdateRule_def Let_def map_core_def
    by (intro ok_rules) (rule main[OF HOL.refl], assumption)
qed

lemma DeleteRule_kept:
  assumes "sound db"
  shows "ok (kept c db) (DeleteRule w c x rule db)"
proof -
  have main: "kept c db (db\<lparr>ab_core := core\<rparr>)"
    if core: "core = (ab_core db)\<lparr>cb_rules := filter (\<lambda>r. \<not> (ru_ID r = rule \<and> own_pond c (ab_core db) (ru_PondID r)))
      (cb_rules (ab_core db))\<rparr>" for core
  proof (rule rows_kept[OF assms])
    show "keyed core" using assms by (simp add: sound_defs core distinct_map_filter)
    show "linked core" using assms by (auto simp: sound_def linked_def core)
  qed (simp_all add: core own_pond_foreign, auto intro!: filter_cong)
  show ?thesis
    unfolding DeleteRule_def Let_def map_core_def by (intro ok_rules) (rule main[OF HOL.refl])
qed

lemma confirm_alarms_kept:
  assumes "sound db" and "\<And>a t. TenantID c = Some t \<Longrightarrow> P a \<Longrightarrow> \<not> foreign_pond t (ab_core db) (al_PondID a)"
  shows "kept c db (confirm_alarms x P db)"
proof -
  have main: "kept c db (db\<lparr>ab_core := core\<rparr>)"
    if core: "core = (ab_core db)\<lparr>cb_alarms := map (\<lambda>a. if P a \<and> al_ConfirmedAt a = None
     then a\<lparr>al_ConfirmedAt := Some (cx_now x)\<rparr> else a) (cb_alarms (ab_core db))\<rparr>" for core
  proof (rule rows_kept[OF assms(1)])
    show "keyed core" using assms(1) by (simp add: sound_defs core)
    have "map al_PondID (cb_alarms core) = map al_PondID (cb_alarms (ab_core db))" by (auto simp: core)
    then have "al_PondID ` set (cb_alarms core) = al_PondID ` set (cb_alarms (ab_core db))" by (metis image_set)
    then show "linked core" using assms(1) by (simp add: sound_defs core)
  qed (use assms(2) in \<open>simp_all add: core, auto intro!: filter_update\<close>)
  show ?thesis unfolding confirm_alarms_def map_core_def by (rule main[OF HOL.refl])
qed

lemma confirm_one_kept:
  assumes "sound db" and "\<And>a t. TenantID c = Some t \<Longrightarrow> P a \<Longrightarrow> \<not> foreign_pond t (ab_core db) (al_PondID a)"
  shows "ok (kept c db) (confirm_one x P db)"
  unfolding confirm_one_def
  by (auto intro!: ok_rules confirm_alarms_kept[OF assms] kept_refl[OF assms(1)])

lemma own_farm_alarm: "TenantID c = Some t \<Longrightarrow> list_ex (\<lambda>f. Q f \<and> own_farm c f) (farm_of_pond db pond) \<Longrightarrow> \<not> foreign_pond t db pond"
  by (auto simp: foreign_pond_def list_ex_iff own_farm_def)

lemma ConfirmAlarm_kept:
  assumes "sound db"
  shows "ok (kept c db) (ConfirmAlarm_admin c x alarm db)"
  unfolding ConfirmAlarm_admin_def ConfirmAlarmByActor_def ConfirmByUser_def
  by (auto intro!: ok_rules confirm_one_kept[OF assms] dest: own_farm_alarm simp: own_pond_foreign)

lemma batchConfirm_kept:
  assumes "sound db"
  shows "ok (\<lambda>(_, db'). kept c db db') (batchConfirm c x ids actor db)"
  unfolding batchConfirm_def Let_def
  by (intro ok_rules) (unfold prod.case, rule confirm_alarms_kept[OF assms],
    auto simp: foreign_pond_def list_ex_iff own_farm_def)

lemma BatchConfirm_kept:
  assumes "sound db"
  shows "ok (\<lambda>(_, db'). kept c db db') (BatchConfirm w c x ids db)"
  unfolding BatchConfirm_def BatchConfirmByActor_def
  by (auto intro!: ok_rules batchConfirm_kept[OF assms] split: option.split)

subsection \<open>Every write\<close>

lemma sound_cong: "ab_core db1 = ab_core db \<Longrightarrow> ab_farm_members db1 = ab_farm_members db \<Longrightarrow> sound db1 = sound db"
  by (simp add: sound_def members_linked_def)

lemma kept_cong: "ab_core db1 = ab_core db \<Longrightarrow> ab_farm_members db1 = ab_farm_members db \<Longrightarrow> kept c db1 db' = kept c db db'"
  by (simp add: kept_def keeps_foreign_def)

lemma license_tx_kept:
  assumes "sound db" and "\<And>db1. ab_core db1 = ab_core db \<Longrightarrow> sound db1 \<Longrightarrow> ok (\<lambda>(_, db'). kept c db1 db') (body db1)"
  shows "kept c db (snd (license_tx w xo seen xe ended body db))"
proof (rule license_tx_ok)
  fix db1 :: admin_db assume a: "ab_core db1 = ab_core db" "ab_farm_members db1 = ab_farm_members db"
  then have s: "sound db1" using assms(1) sound_cong by blast
  show "ok (\<lambda>(_, db'). kept c db db') (body db1)"
    using assms(2)[OF a(1) s] unfolding kept_cong[OF a] .
  show "kept c db db1" using kept_refl[OF s] unfolding kept_cong[OF a] .
qed

lemma admin_step_kept:
  assumes "sound db" and "fresh_call call (ab_core db)"
  shows "kept c db (admin_step w c call db)"
proof (cases call)
  case (ARegister xo x xe seen checked now ended rg pond name model interval)
  then show ?thesis
    unfolding ARegister admin_step.simps RegisterDevice_def
    by (intro license_tx_kept[OF assms(1)]) (rule register_kept, simp, use assms(2) in \<open>simp add: ARegister\<close>)
next
  case (ARestore xo x xe seen checked now ended no)
  then show ?thesis
    unfolding ARestore admin_step.simps RestoreDevice_def
    by (intro license_tx_kept[OF assms(1)] restore_kept)
qed (use assms kept_refl[OF assms(1)] in \<open>simp_all add: committed_with_ok[OF CreateFarm_kept] committed_ok[OF UpdateFarm_kept]
    committed_ok[OF DeleteFarm_kept] committed_ok[OF SetFarmMember_kept] committed_ok[OF SetFarmOwner_kept] committed_with_ok[OF CreatePond_kept]
    committed_ok[OF updatePond_kept] committed_ok[OF DeletePond_kept] committed_ok[OF MoveDevice_kept] committed_ok[OF DeleteDevice_kept]
    committed_with_ok[OF CreateRule_kept] committed_ok[OF UpdateRule_kept] committed_ok[OF DeleteRule_kept] committed_ok[OF ConfirmAlarm_kept]
    committed_with_ok[OF BatchConfirm_kept]\<close>)

end
