(* ===== verification/Admin_Safety.thy ===== *)
theory Admin_Safety
  imports Admin_Rows
begin

text \<open>
  What the administration promises: its tables keep their keys and references, a tenant does not touch the
  rows of another and writes only through its owners and administrators, devices grow only under a license,
  a device that is taken away loses its access, and a batch of alarms is confirmed as a whole or not at all.
\<close>

subsection \<open>Runs of calls\<close>

fun admin_run :: "admin_env \<Rightarrow> (actor_ctx \<times> admin_call) list \<Rightarrow> admin_db \<Rightarrow> admin_db" where
  "admin_run w [] db = db"
| "admin_run w ((c, call) # calls) db = admin_run w calls (admin_step w c call db)"

fun fresh_run :: "admin_env \<Rightarrow> (actor_ctx \<times> admin_call) list \<Rightarrow> admin_db \<Rightarrow> bool" where
  "fresh_run w [] db = True"
| "fresh_run w ((c, call) # calls) db \<longleftrightarrow> fresh_call call (ab_core db) \<and> fresh_run w calls (admin_step w c call db)"

text \<open>
  C36: Every sequence of calls of the administration, by whatever actors and whichever statements fail, keeps the
  keys of farms, ponds, devices and rules distinct, and every pond in a farm, every device, rule and alarm
  in a pond and every membership in a farm of its tenant.
\<close>

theorem admin_run_sound:
  assumes "sound db" and "fresh_run w calls db"
  shows "sound (admin_run w calls db)"
  using assms
proof (induction calls arbitrary: db)
  case (Cons call calls)
  obtain c a where "call = (c, a)" by (cases call)
  with Cons show ?case using kept_sound[OF admin_step_kept] by simp
qed simp

text \<open>
  C29: Whatever calls the actors of one tenant make, the farms, ponds, memberships, devices, rules, alarms,
  shadows and farm memberships of every other tenant are the same rows afterwards.
\<close>

theorem tenant_writes_isolated:
  assumes "sound db" and "fresh_run w calls db" and "list_all (\<lambda>(c, call). TenantID c = Some t) calls"
  shows "keeps_foreign t db (admin_run w calls db)"
  using assms
proof (induction calls arbitrary: db)
  case (Cons call calls)
  obtain c a where call: "call = (c, a)" by (cases call)
  have k: "kept c db (admin_step w c a db)" using admin_step_kept Cons(2,3) call by simp
  have t: "TenantID c = Some t" using Cons(4) call by simp
  then have "keeps_foreign t db (admin_step w c a db)" using k by (simp add: kept_def)
  moreover have "keeps_foreign t (admin_step w c a db) (admin_run w calls (admin_step w c a db))"
    using Cons(1)[OF kept_sound[OF k]] Cons(3,4) call by simp
  ultimately show ?case by (simp add: call keeps_foreign_def)
qed (simp add: keeps_foreign_refl)

subsection \<open>Who may write\<close>

fun call_time :: "admin_call \<Rightarrow> time" where
  "call_time (ACreateFarm x newid owner name loc) = cx_now x"
| "call_time (AUpdateFarm x farm name loc) = cx_now x"
| "call_time (ADeleteFarm x farm) = cx_now x"
| "call_time (ASetFarmMember x now farm user role active expires actor) = cx_now x"
| "call_time (ASetFarmOwner x farm owner actor) = cx_now x"
| "call_time (ACreatePond x newid farm name area) = cx_now x"
| "call_time (AUpdatePond x pond farm name area) = cx_now x"
| "call_time (ADeletePond x pond) = cx_now x"
| "call_time (ARegister xo x xe seen checked now ended rg pond name model interval) = cx_now x"
| "call_time (ARestore xo x xe seen checked now ended no) = cx_now x"
| "call_time (AMove x no pond) = cx_now x"
| "call_time (ADelete x no) = cx_now x"
| "call_time (ACreateRule x newid rule) = cx_now x"
| "call_time (AUpdateRule x rule) = cx_now x"
| "call_time (ADeleteRule x rule) = cx_now x"
| "call_time (AConfirm x alarm) = cx_now x"
| "call_time (ABatchConfirm x ids) = cx_now x"

fun confirms :: "admin_call \<Rightarrow> bool" where
  "confirms (AConfirm x alarm) \<longleftrightarrow> True"
| "confirms (ABatchConfirm x ids) \<longleftrightarrow> True"
| "confirms _ \<longleftrightarrow> False"

text \<open>Every table is the same, but for the high-water mark and the latch of the license clock.\<close>

definition same_tables :: "admin_db \<Rightarrow> admin_db \<Rightarrow> bool" where
  "same_tables db db' \<longleftrightarrow> db' = db\<lparr>ab_max_seen := ab_max_seen db', ab_clock_error := ab_clock_error db'\<rparr>"

lemma same_tables_refl: "same_tables db db"
  by (simp add: same_tables_def)

lemma same_tables_trans: "same_tables db db1 \<Longrightarrow> same_tables db1 db2 \<Longrightarrow> same_tables db db2"
  by (cases db, cases db1, cases db2) (simp add: same_tables_def)

lemma observe_same_tables: "same_tables db (snd (observeLicenseClock w x now db))"
  by (simp add: same_tables_def observeLicenseClock_def)

lemma ok_const: "A \<Longrightarrow> ok (\<lambda>_. A) r"
  by (cases r) simp_all


text \<open>Each write succeeds for an actor that may write only.\<close>

lemma authorize_Inr: "ae_policy w = Some Allow \<Longrightarrow> HasTenantScope c \<Longrightarrow> authorizeTenantWrite w c x res db = Inr r \<Longrightarrow>
    write_authorized c (cx_now x) (ab_core db)"
  unfolding authorizeTenantWrite_def by (auto intro: AuthorizeTenantWrite_Inr)

lemma begin_Inr: "ae_policy w = Some Allow \<Longrightarrow> HasTenantScope c \<Longrightarrow> beginTenantWrite w c x res db = Inr r \<Longrightarrow>
    write_authorized c (cx_now x) (ab_core db)"
  unfolding beginTenantWrite_def by (auto simp: iolink_simps intro: AuthorizeTenantWrite_Inr)

lemma ok_begin: "ae_policy w = Some Allow \<Longrightarrow> HasTenantScope c \<Longrightarrow>
    ok (\<lambda>_. write_authorized c (cx_now x) (ab_core db)) (after (beginTenantWrite w c x res db) k)"
  by (rule ok_after, rule ok_const, rule begin_Inr)

lemma ok_authorize: "ae_policy w = Some Allow \<Longrightarrow> HasTenantScope c \<Longrightarrow>
    ok (\<lambda>_. write_authorized c (cx_now x) (ab_core db)) (after (authorizeTenantWrite w c x res db) k)"
  by (rule ok_after, rule ok_const, rule authorize_Inr)

lemma owner_member_authorized:
  assumes "ae_policy w = Some Allow" "HasTenantScope c"
  shows "ok (\<lambda>_. write_authorized c (cx_now x) (ab_core db)) (owner_member w c x t owner db)"
  unfolding owner_member_def
  by (cases owner; simp) (intro ok_require ok_authorize[OF assms] | (rule ok_authorize[OF assms]))+

lemma SetFarmOwner_authorized:
  assumes "ae_policy w = Some Allow" "HasTenantScope c"
  shows "ok (\<lambda>_. write_authorized c (cx_now x) (ab_core db)) (SetFarmOwnerByActor w c x farm owner actor db)"
  unfolding SetFarmOwnerByActor_def
  by (intro ok_require ok_take_or ok_after) (rule ok_const, rule okD[OF owner_member_authorized[OF assms]], assumption)

lemma SetFarmMember_authorized:
  assumes "ae_policy w = Some Allow" "HasTenantScope c"
  shows "ok (\<lambda>_. write_authorized c (cx_now x) (ab_core db)) (SetFarmMember w c x now farm user role active expires actor db)"
  unfolding SetFarmMember_def Let_def
  by (intro ok_require ok_take_or ok_authorize[OF assms])

lemma register_authorized:
  assumes "ae_policy w = Some Allow" "HasTenantScope c"
  shows "ok (\<lambda>_. write_authorized c (cx_now x) (ab_core db)) (register_body w c x checked now rg pond name model interval db)"
  unfolding register_body_def
  by (rule ok_require, rule ok_after, rule ok_authorize[OF assms])

lemma restore_authorized:
  assumes "ae_policy w = Some Allow" "HasTenantScope c"
  shows "ok (\<lambda>_. write_authorized c (cx_now x) (ab_core db)) (restore_body w c x checked now no db)"
  unfolding restore_body_def
  by (rule ok_require, rule ok_after, rule ok_authorize[OF assms])

lemma MoveDevice_authorized:
  assumes "ae_policy w = Some Allow" "HasTenantScope c"
  shows "ok (\<lambda>_. write_authorized c (cx_now x) (ab_core db)) (MoveDevice w c x no pond db)"
  unfolding MoveDevice_def by (rule ok_require, rule ok_authorize[OF assms])

lemma committed_authorized: "ok (\<lambda>_. A) r \<Longrightarrow> \<not> A \<Longrightarrow> committed db r = db"
  by (cases r) (simp_all add: committed_def)

lemma committed_with_authorized: "ok (\<lambda>_. A) r \<Longrightarrow> \<not> A \<Longrightarrow> committed_with db r = db"
  by (cases r) (simp_all add: committed_with_def)

lemma license_tx_authorized:
  assumes "\<And>db1. ab_core db1 = ab_core db \<Longrightarrow> ok (\<lambda>_. A) (body db1)" and "\<not> A"
  shows "same_tables db (snd (license_tx w xo seen xe ended body db))"
proof (cases "observeLicenseClock w xo seen db")
  case (Pair err db1)
  have o: "same_tables db db1" using observe_same_tables[of db w xo seen] by (simp add: Pair)
  have "ok (\<lambda>_. A) (body db1)" using assms(1)[of db1] observe_core[of w xo seen db] by (simp add: Pair)
  then obtain e where b: "body db1 = Inl e" using assms(2) by (cases "body db1") simp_all
  have "same_tables db (snd (observeLicenseClock w xe ended db1))" using same_tables_trans[OF o observe_same_tables] .
  then show ?thesis using o b by (cases err) (simp_all add: license_tx_def Pair finishLicenseTransaction_def)
qed

text \<open>
  C31: A call other than the confirmation of alarms by an actor of a tenant leaves every table as it
  was, but for the high-water mark and the latch of the license clock, unless the actor is, when the call's transaction starts, a live owner or administrator of an
  active tenant with the role its token names, and the permissions it had then.
\<close>

theorem only_managers_write:
  assumes "ae_policy w = Some Allow" and "HasTenantScope c" and "\<not> confirms call"
    and "\<not> write_authorized c (call_time call) (ab_core db)"
  shows "same_tables db (admin_step w c call db)"
proof (cases call)
  case (ARegister xo x xe seen checked now ended rg pond name model interval)
  then show ?thesis
    unfolding ARegister admin_step.simps RegisterDevice_def
    by (intro license_tx_authorized[where A = "write_authorized c (cx_now x) (ab_core db)"])
      (metis register_authorized[OF assms(1,2)], use assms(4) ARegister in simp)
next
  case (ARestore xo x xe seen checked now ended no)
  then show ?thesis
    unfolding ARestore admin_step.simps RestoreDevice_def
    by (intro license_tx_authorized[where A = "write_authorized c (cx_now x) (ab_core db)"])
      (metis restore_authorized[OF assms(1,2)], use assms(4) ARestore in simp)
qed (use assms(3,4) in \<open>simp_all add: same_tables_refl committed_authorized[OF MoveDevice_authorized[OF assms(1,2)]]
    committed_authorized[OF SetFarmMember_authorized[OF assms(1,2)]] committed_authorized[OF SetFarmOwner_authorized[OF assms(1,2)]]
    committed_with_authorized[OF ok_begin[OF assms(1,2)]] committed_authorized[OF ok_begin[OF assms(1,2)]]
    CreateFarm_def UpdateFarm_def DeleteFarm_def CreatePond_def updatePond_def DeletePond_def DeleteDevice_def
    CreateRule_def UpdateRule_def DeleteRule_def\<close>)

subsection \<open>The number of devices\<close>

lemma live_count_map: "(\<And>d. de_disabled d \<Longrightarrow> de_disabled (g d)) \<Longrightarrow>
    int (length (filter (\<lambda>d. \<not> de_disabled d) (map g ds))) \<le> int (length (filter (\<lambda>d. \<not> de_disabled d) ds))"
  by (induction ds) auto

text \<open>A list in which one element, found by a key no other has, goes from not counted to counted.\<close>

lemma count_one_more:
  assumes "distinct (map key ds)"
  shows "length (filter Q (map (\<lambda>e. if key e = k then g e else e) ds)) \<le> Suc (length (filter Q ds))"
  using assms
proof (induction ds)
  case (Cons e ds)
  show ?case
  proof (cases "key e = k")
    case True
    then have "map (\<lambda>e. if key e = k then g e else e) ds = ds"
      using Cons(2) by (intro map_idI) (auto simp: image_iff)
    then show ?thesis using True by simp
  next
    case False
    then show ?thesis using Cons by simp
  qed
qed simp

lemma int_le_Suc: "a \<le> Suc b \<Longrightarrow> int a \<le> int b + 1"
  by simp

definition same_devices :: "admin_db \<Rightarrow> admin_db \<Rightarrow> bool" where
  "same_devices db db' \<longleftrightarrow> live_count (ab_core db') \<le> live_count (ab_core db)"

lemma same_devices_core: "cb_devices (ab_core db') = cb_devices (ab_core db) \<Longrightarrow> same_devices db db'"
  by (simp add: same_devices_def live_count_def)

lemma put_farm_member_core [simp]: "ab_core (put_farm_member m db) = ab_core db"
  by (simp add: put_farm_member_def)

lemma SetFarmOwner_devices: "ok (same_devices db) (SetFarmOwnerByActor w c x farm owner actor db)"
  unfolding SetFarmOwnerByActor_def Let_def
  by (auto intro!: ok_rules same_devices_core dest!: okD[OF owner_member_core] split: option.split)

lemma CreateFarm_devices: "ok (\<lambda>(_, db'). same_devices db db') (CreateFarm w c x newid owner name loc db)"
  unfolding CreateFarm_def Let_def
  by (auto intro!: ok_rules same_devices_core dest!: okD[OF farm_tenant_core])

lemma SetFarmMember_devices: "ok (same_devices db) (SetFarmMember w c x now farm user role active expires actor db)"
  unfolding SetFarmMember_def Let_def by (intro ok_rules same_devices_core) simp

lemma ponds_devices: "ok (\<lambda>(_, db'). same_devices db db') (CreatePond w c x newid farm name area db)"
    "ok (same_devices db) (updatePond w c x pond expected name area db)" "ok (same_devices db) (DeletePond w c x pond db)"
    "ok (same_devices db) (UpdateFarm w c x farm name loc db)" "ok (same_devices db) (DeleteFarm w c x farm db)"
  unfolding CreatePond_def updatePond_def DeletePond_def UpdateFarm_def DeleteFarm_def Let_def map_core_def
  by (intro ok_rules, (unfold prod.case)?, rule same_devices_core, simp)+

lemma rules_devices: "ok (\<lambda>(_, db'). same_devices db db') (CreateRule w c x newid rule db)"
    "ok (same_devices db) (UpdateRule w c x rule db)" "ok (same_devices db) (DeleteRule w c x ruleno db)"
  unfolding CreateRule_def UpdateRule_def DeleteRule_def Let_def map_core_def
  by (intro ok_rules, (unfold prod.case)?, rule same_devices_core, simp)+

lemma confirm_alarms_devices: "same_devices db (confirm_alarms x P db)"
  by (rule same_devices_core) (simp add: confirm_alarms_def map_core_def)

lemma alarms_devices: "ok (same_devices db) (ConfirmAlarm_admin c x alarm db)"
    "ok (\<lambda>(_, db'). same_devices db db') (BatchConfirm w c x ids db)"
  unfolding ConfirmAlarm_admin_def ConfirmAlarmByActor_def ConfirmByUser_def confirm_one_def BatchConfirm_def BatchConfirmByActor_def
    batchConfirm_def Let_def
  by (auto intro!: ok_rules confirm_alarms_devices same_devices_core split: option.split)

lemma moved_devices: "ok (same_devices db) (MoveDevice w c x no pond db)" "ok (same_devices db) (DeleteDevice w c x no db)"
  unfolding MoveDevice_def DeleteDevice_def map_core_def same_devices_def live_count_def
  by (cases "own_devices c (ab_core db) no"; simp only: list.case; intro ok_rules;
      simp del: length_filter_map of_nat_le_iff; rule live_count_map; simp)+

text \<open>What an admission adds, and under which license.\<close>

definition admitted :: "license_setup \<Rightarrow> time \<Rightarrow> time \<Rightarrow> admin_db \<Rightarrow> admin_db \<Rightarrow> bool" where
  "admitted w checked now db db' \<longleftrightarrow> live_count (ab_core db') \<le> live_count (ab_core db) \<or>
     (\<exists>p. license_admits w checked now (db'\<lparr>ab_core := ab_core db\<rparr>) p \<and>
        live_count (ab_core db') \<le> lp_MaxDevices p)"

lemma license_admits_cong:
  "license_admits w checked now db1 p \<Longrightarrow> ab_license db2 = ab_license db1 \<Longrightarrow> ab_deployment db2 = ab_deployment db1 \<Longrightarrow>
   ab_clock_error db2 = ab_clock_error db1 \<Longrightarrow> ab_max_seen db2 = ab_max_seen db1 \<Longrightarrow> ab_core db2 = ab_core db1 \<Longrightarrow>
   license_admits w checked now db2 p"
  by (simp add: license_admits_def stored_license_def)

lemma admittedI:
  assumes "license_admits w checked now db p" and "live_count core \<le> live_count (ab_core db) + 1"
  shows "admitted w checked now db (db\<lparr>ab_core := core\<rparr>)"
proof -
  have "license_admits w checked now (db\<lparr>ab_core := core\<rparr>\<lparr>ab_core := ab_core db\<rparr>) p"
    by (rule license_admits_cong[OF assms(1)]) simp_all
  moreover have "live_count core \<le> lp_MaxDevices p" using assms by (auto simp: license_admits_def)
  ultimately show ?thesis unfolding admitted_def by auto
qed

lemma register_admitted: "ok (\<lambda>(_, db'). admitted (ae_setup w) checked now db db') (register_body w c x checked now rg pond name model interval db)"
proof -
  have main: "admitted (ae_setup w) checked now db (db\<lparr>ab_core := (ab_core db)\<lparr>cb_devices := cb_devices (ab_core db) @ [d]\<rparr>\<rparr>)"
    if adm: "checkDeviceAdmission (ae_setup w) x checked now db = Inr u" for u d
  proof -
    obtain p where "license_admits (ae_setup w) checked now db p" using admission_rests_on_license[OF adm] by blast
    then show ?thesis by (rule admittedI) (simp add: live_count_def)
  qed
  show ?thesis
    unfolding register_body_def Let_def map_core_def by (intro ok_rules) (unfold prod.case, rule main)
qed

lemma restore_admitted:
  assumes "distinct (map de_id (cb_devices (ab_core db)))"
  shows "ok (\<lambda>(_, db'). admitted (ae_setup w) checked now db db') (restore_body w c x checked now no db)"
proof (cases "own_devices c (ab_core db) no")
  case (Cons d ds)
  have main: "admitted (ae_setup w) checked now db (db\<lparr>ab_core := (ab_core db)\<lparr>cb_devices := map (\<lambda>e. if de_id e = de_id d
         then e\<lparr>de_disabled := False, de_status := ''offline'', de_seen := None,
                de_session_version := de_session_version e + 1\<rparr> else e) (cb_devices (ab_core db)),
       cb_shadows := filter (\<lambda>s. sh_device s \<noteq> no) (cb_shadows (ab_core db))\<rparr>\<rparr>)"
    if adm: "checkDeviceAdmission (ae_setup w) x checked now db = Inr u" for u
  proof -
    obtain p where "license_admits (ae_setup w) checked now db p" using admission_rests_on_license[OF adm] by blast
    moreover have "live_count ((ab_core db)\<lparr>cb_devices := map (\<lambda>e. if de_id e = de_id d
         then e\<lparr>de_disabled := False, de_status := ''offline'', de_seen := None,
                de_session_version := de_session_version e + 1\<rparr> else e) (cb_devices (ab_core db)),
       cb_shadows := filter (\<lambda>s. sh_device s \<noteq> no) (cb_shadows (ab_core db))\<rparr>) \<le> live_count (ab_core db) + 1"
      unfolding live_count_def
      by (simp del: length_filter_map) (rule int_le_Suc[OF count_one_more[OF assms]])
    ultimately show ?thesis by (rule admittedI)
  qed
  have same: "admitted (ae_setup w) checked now db db" by (simp add: admitted_def)
  show ?thesis
    unfolding restore_body_def Cons list.case map_core_def
    by (auto intro!: ok_rules main same)
next
  case Nil
  then show ?thesis unfolding restore_body_def Nil list.case by (intro ok_rules)
qed

lemma license_tx_admitted:
  assumes "\<And>db1. ab_core db1 = ab_core db \<Longrightarrow> ok (\<lambda>(_, db'). admitted (ae_setup w) checked now db1 db') (body db1)"
  shows "admitted (ae_setup w) checked now db (snd (license_tx (ae_setup w) xo seen xe ended body db))"
proof (rule license_tx_ok)
  fix db1 :: admin_db assume a: "ab_core db1 = ab_core db"
  show "admitted (ae_setup w) checked now db db1" by (simp add: admitted_def a)
  show "ok (\<lambda>(_, db'). admitted (ae_setup w) checked now db db') (body db1)"
    using assms[OF a] unfolding admitted_def a .
qed

lemma same_devices_refl: "same_devices db db"
  by (simp add: same_devices_def)

text \<open>The two clocks of a call that admits a device: of the check of the license clock, and of the license.\<close>

fun admission_clocks :: "admin_call \<Rightarrow> (time \<times> time) option" where
  "admission_clocks (ARegister xo x xe seen checked now ended rg pond name model interval) = Some (checked, now)"
| "admission_clocks (ARestore xo x xe seen checked now ended no) = Some (checked, now)"
| "admission_clocks _ = None"

text \<open>
  C30: No call of the administration raises the number of live devices, except a registration or a restoration under a
  license that is signed for the deployment, in its period of validity at the clock of the call, with the license
  clock neither latched nor more than five minutes ahead of the clock of the call, and that allows the number after the call.
\<close>

theorem devices_within_license:
  assumes "sound db"
  shows "live_count (ab_core (admin_step w c call db)) \<le> live_count (ab_core db) \<or>
    (\<exists>p checked now. admission_clocks call = Some (checked, now) \<and>
      license_admits (ae_setup w) checked now ((admin_step w c call db)\<lparr>ab_core := ab_core db\<rparr>) p \<and>
      live_count (ab_core (admin_step w c call db)) \<le> lp_MaxDevices p)"
proof (cases "admission_clocks call")
  case None
  then have "same_devices db (admin_step w c call db)"
    by (cases call) (use same_devices_refl in \<open>simp_all add: committed_with_ok[OF CreateFarm_devices] committed_ok[OF ponds_devices(4)]
      committed_ok[OF ponds_devices(5)] committed_ok[OF SetFarmMember_devices] committed_ok[OF SetFarmOwner_devices]
      committed_with_ok[OF ponds_devices(1)] committed_ok[OF ponds_devices(2)] committed_ok[OF ponds_devices(3)]
      committed_ok[OF moved_devices(1)] committed_ok[OF moved_devices(2)] committed_with_ok[OF rules_devices(1)]
      committed_ok[OF rules_devices(2)] committed_ok[OF rules_devices(3)] committed_ok[OF alarms_devices(1)]
      committed_with_ok[OF alarms_devices(2)]\<close>)
  then show ?thesis by (simp add: same_devices_def)
next
  case (Some clocks)
  then obtain checked now where clocks: "admission_clocks call = Some (checked, now)" by (cases clocks) simp
  have "admitted (ae_setup w) checked now db (admin_step w c call db)"
  proof (cases call)
    case (ARegister xo x xe seen checked' now' ended rg pond name model interval)
    then have "checked' = checked" "now' = now" using clocks by simp_all
    then show ?thesis
      unfolding ARegister admin_step.simps RegisterDevice_def by (simp only:) (intro license_tx_admitted register_admitted)
  next
    case (ARestore xo x xe seen checked' now' ended no)
    then have "checked' = checked" "now' = now" using clocks by simp_all
    then show ?thesis
      unfolding ARestore admin_step.simps RestoreDevice_def
      by (simp only:) (intro license_tx_admitted restore_admitted, use assms in \<open>simp add: sound_defs\<close>)
  qed (use clocks in simp_all)
  then show ?thesis using clocks by (auto simp: admitted_def)
qed

subsection \<open>A device that is taken away\<close>

lemma deleted_row:
  assumes "sound db" and "DeleteDevice w c x no db = Inr db'" and "e \<in> set (cb_devices (ab_core db'))"
    and "de_no e = no"
  shows "de_disabled e"
proof -
  let ?g = "\<lambda>e. if de_no e = no \<and> own_pond c (ab_core db) (de_pond e)
          then e\<lparr>de_disabled := True, de_status := ''offline'', de_session_version := de_session_version e + 1\<rparr> else e"
  have d: "own_devices c (ab_core db) no \<noteq> []" and core: "cb_devices (ab_core db') = map ?g (cb_devices (ab_core db))"
    using assms(2) by (auto simp: DeleteDevice_def iolink_simps map_core_def)
  obtain f where f: "f \<in> set (own_devices c (ab_core db) no)" using d by (cases "own_devices c (ab_core db) no") auto
  obtain g where g: "g \<in> set (cb_devices (ab_core db))" "e = ?g g" using assms(3) unfolding core by auto
  have "g = f"
    using same_key[of de_no "cb_devices (ab_core db)" g f] assms(1,4) f g by (simp add: sound_defs own_devices_in split: if_split_asm)
  then show ?thesis using f g(2) by (simp add: own_devices_in)
qed

text \<open>
  C37: A device that is deleted is at once in no scope of the core: its MQTT credentials are accepted no more,
  and the revision its sessions are checked against is that of no device.
\<close>

theorem deleted_device_locked_out:
  assumes "sound db" and "DeleteDevice w c x no db = Inr db'"
    and "d \<in> set (cb_devices (ab_core db))" and "de_no d = no"
  shows "live_devices (ab_core db') no = [] \<and> device_scope (ab_core db') no = [] \<and>
    core_DeviceRevision y (ab_core db') no = -1 \<and> core_Resolve env z (ab_core db') (de_username d) password = None"
proof -
  have live: "live_where P (ab_core db') = []" if "\<And>e. e \<in> set (cb_devices (ab_core db')) \<Longrightarrow> P e \<Longrightarrow> de_no e = no" for P
    using deleted_row[OF assms(1,2)] that by (auto simp: live_where_def)
  have core: "map de_no (cb_devices (ab_core db')) = map de_no (cb_devices (ab_core db))"
      "map de_username (cb_devices (ab_core db')) = map de_username (cb_devices (ab_core db))"
    using assms(2) by (auto simp: DeleteDevice_def iolink_simps map_core_def)
  have "de_no e = no" if e: "e \<in> set (cb_devices (ab_core db'))" "de_username e = de_username d" for e
  proof -
    obtain i where i: "i < length (cb_devices (ab_core db'))" "e = cb_devices (ab_core db') ! i"
      using e(1) by (auto simp: in_set_conv_nth)
    obtain j where j: "j < length (cb_devices (ab_core db))" "d = cb_devices (ab_core db) ! j"
      using assms(3) by (auto simp: in_set_conv_nth)
    have len: "length (cb_devices (ab_core db')) = length (cb_devices (ab_core db))" using core(1) by (metis length_map)
    have "map de_username (cb_devices (ab_core db)) ! i = map de_username (cb_devices (ab_core db)) ! j"
      using e(2) i j len core(2) by (metis nth_map)
    then have "i = j" using assms(1) i j len by (simp add: sound_defs nth_eq_iff_index_eq del: nth_map)
    then show ?thesis using i j len core(1) assms(4) by (metis nth_map)
  qed
  then have u: "live_where (\<lambda>e. de_username e = de_username d) (ab_core db') = []" by (rule live) 
  have n: "live_devices (ab_core db') no = []" unfolding live_devices_def by (rule live)
  then show ?thesis
    using u by (simp add: device_scope_def core_DeviceRevision_def core_Resolve_def Let_def)
qed

subsection \<open>Alarms\<close>

definition may_confirm :: "actor_ctx \<Rightarrow> core_tx \<Rightarrow> admin_db \<Rightarrow> int \<Rightarrow> Alarm \<Rightarrow> bool" where
  "may_confirm c x db actor a \<longleftrightarrow> list_ex (\<lambda>f. own_farm c f \<and> (actor \<le> 0 \<or> appFarmConfirmScope c (cx_now x) db actor f))
     (farm_of_pond (ab_core db) (al_PondID a))"

text \<open>
  C38: A batch that is confirmed names alarms that all exist and that the actor may confirm; it confirms exactly
  those of them that were open, at the time of the call, changes no other alarm and returns their number.
\<close>

theorem batch_confirmed_whole:
  assumes "distinct (map al_ID (cb_alarms (ab_core db)))" and "batchConfirm c x ids actor db = Inr (n, db')"
  shows "set ids \<subseteq> al_ID ` set (filter (may_confirm c x db actor) (cb_alarms (ab_core db))) \<and>
    cb_alarms (ab_core db') = map (\<lambda>a. if al_ID a \<in> set ids \<and> al_ConfirmedAt a = None
      then a\<lparr>al_ConfirmedAt := Some (cx_now x)\<rparr> else a) (cb_alarms (ab_core db)) \<and>
    n = length (filter (\<lambda>a. al_ID a \<in> set ids \<and> al_ConfirmedAt a = None) (cb_alarms (ab_core db)))"
proof -
  let ?as = "cb_alarms (ab_core db)" and ?P = "\<lambda>a. al_ID a \<in> set ids \<and> may_confirm c x db actor a"
  have r: "distinct ids" "length (filter ?P ?as) = length ids" "n = length (filter (\<lambda>a. ?P a \<and> al_ConfirmedAt a = None) ?as)"
      "db' = confirm_alarms x ?P db"
    using assms(2) unfolding batchConfirm_def may_confirm_def by (auto simp: iolink_simps Let_def)
  have "distinct (map al_ID (filter ?P ?as))" using assms(1) by (simp add: distinct_map_filter)
  then have "card (al_ID ` set (filter ?P ?as)) = length ids"
    using r(2) by (metis distinct_card length_map set_map)
  moreover have "card (set ids) = length ids" using r(1) by (rule distinct_card)
  moreover have "al_ID ` set (filter ?P ?as) \<subseteq> set ids" by auto
  ultimately have ids: "al_ID ` set (filter ?P ?as) = set ids" by (intro card_subset_eq) simp_all
  have P: "?P a \<longleftrightarrow> al_ID a \<in> set ids" if "a \<in> set ?as" for a
  proof
    assume "al_ID a \<in> set ids"
    then have "al_ID a \<in> al_ID ` set (filter ?P ?as)" unfolding ids .
    then obtain b where "b \<in> set ?as" "?P b" "al_ID a = al_ID b" by auto
    then show "?P a" using same_key[OF assms(1) that, of b] by simp
  qed simp
  have "cb_alarms (ab_core db') = map (\<lambda>a. if al_ID a \<in> set ids \<and> al_ConfirmedAt a = None
      then a\<lparr>al_ConfirmedAt := Some (cx_now x)\<rparr> else a) ?as"
    unfolding r(4) confirm_alarms_def map_core_def using P by auto
  moreover have "n = length (filter (\<lambda>a. al_ID a \<in> set ids \<and> al_ConfirmedAt a = None) ?as)"
    unfolding r(3) by (rule arg_cong[where f = length], rule filter_cong) (use P in auto)
  moreover have "set ids \<subseteq> al_ID ` set (filter (may_confirm c x db actor) ?as)"
  proof
    fix i assume "i \<in> set ids"
    then have "i \<in> al_ID ` set (filter ?P ?as)" unfolding ids .
    then show "i \<in> al_ID ` set (filter (may_confirm c x db actor) ?as)" by auto
  qed
  ultimately show ?thesis by blast
qed

text \<open>
  The page of devices an actor of a tenant is shown has devices of its tenant only, and, unless the actor
  is an owner or administrator, of the farms it is a live member of; the total counts those alone.
\<close>

theorem page_within_scope:
  assumes "ListDevicesPage w c x q db = Inr (items, found)" and "TenantID c = Some t"
  shows "set (map dv_ID items) \<subseteq> de_id ` set (filter (\<lambda>d. list_ex (\<lambda>f. fr_tenant f = t \<and> tenantFilter c (cx_now x) db f)
      (farm_of_pond (ab_core db) (de_pond d))) (cb_devices (ab_core db))) \<and>
    length items \<le> found \<and> length items \<le> 200"
proof -
  let ?found = "seen_devices c x (device_listed w q) db"
  have r: "items = map (device_view w) (take (nat (if dq_Limit q \<le> 0 \<or> dq_Limit q > 200 then 20 else dq_Limit q))
        (drop (nat (if dq_Offset q < 0 then 0 else dq_Offset q)) ?found))" "found = length ?found"
    using assms(1) by (auto simp: ListDevicesPage_def iolink_simps Let_def)
  have "list_ex (\<lambda>f. fr_tenant f = t \<and> tenantFilter c (cx_now x) db f) (farm_of_pond (ab_core db) (de_pond d)) \<and>
      d \<in> set (cb_devices (ab_core db))" if d: "d \<in> set ?found" for d
  proof -
    obtain p f where pf: "d \<in> set (cb_devices (ab_core db))" "p \<in> set (cb_ponds (ab_core db))" "po_id p = de_pond d"
        "f \<in> set (cb_farms (ab_core db))" "fr_id f = po_farm p" "tenantFilter c (cx_now x) db f"
      using d by (auto simp: seen_devices_def)
    then have "f \<in> set (farm_of_pond (ab_core db) (de_pond d))" "fr_tenant f = t"
      using assms(2) by (auto simp: farm_of_pond_in tenantFilter_def)
    then show ?thesis using pf by (auto simp: list_ex_iff)
  qed
  then have "de_id ` set ?found \<subseteq> de_id ` set (filter (\<lambda>d. list_ex (\<lambda>f. fr_tenant f = t \<and> tenantFilter c (cx_now x) db f)
      (farm_of_pond (ab_core db) (de_pond d))) (cb_devices (ab_core db)))" by auto
  moreover have "set (map dv_ID items) \<subseteq> de_id ` set ?found"
    unfolding r(1) by (auto simp: device_view_def dest!: in_set_takeD in_set_dropD)
  moreover have "length items \<le> found" "length items \<le> 200" unfolding r by (auto split: if_split)
  ultimately show ?thesis by blast
qed

end
