(* ===== verification/Admin_Examples.thy ===== *)
theory Admin_Examples
  imports Admin_Safety "HOL-Library.Code_Target_Nat" "HOL-Library.Code_Target_Int"
begin

text \<open>
  Two tenants, each with a farm, a pond and a device: the properties of the license and of the
  administration applied to calls on them.
\<close>

definition exa_core_env :: core_env where
  "exa_core_env = \<lparr>ce_json = (\<lambda>_. None), ce_float = (\<lambda>_. None), ce_marshal = (\<lambda>_. []), ce_stored = (\<lambda>s. s),
     ce_time = (\<lambda>t. t), ce_message = (\<lambda>_ _ _. []), ce_sha256 = (\<lambda>s. s)\<rparr>"

definition exa_license_env :: license_env where
  "exa_license_env = \<lparr>le_valid = (\<lambda>_. True), le_tokens = (\<lambda>_. []), le_object = (\<lambda>_. None), le_string = (\<lambda>_. None),
     le_envelope = (\<lambda>_. None), le_payload = (\<lambda>_. None), le_instant = (\<lambda>_. True), le_sha256 = (\<lambda>s. s),
     le_verify = (\<lambda>_ _ _. True)\<rparr>"

definition exa_setup :: license_setup where
  "exa_setup = \<lparr>lx_env = exa_license_env, lx_core = exa_core_env,
     lx_runtime = Some \<lparr>lr_PublicKey = Some ''key'', lr_KeyID = ''k1''\<rparr>\<rparr>"

definition exa_env :: admin_env where
  "exa_env = \<lparr>ae_setup = exa_setup, ae_policy = Some Allow, ae_defaultInterval = 60, ae_media_farm = (\<lambda>_. False),
     ae_media_pond = (\<lambda>_. False), ae_ilike = (\<lambda>_ _. False)\<rparr>"

definition exa_tx :: "time \<Rightarrow> core_tx" where
  "exa_tx now = \<lparr>cx_fails = (\<lambda>_. False), cx_now = now\<rparr>"

definition exa_device :: "int \<Rightarrow> string \<Rightarrow> int \<Rightarrow> core_device" where
  "exa_device i no pond = \<lparr>de_id = i, de_no = no, de_name = [], de_model = [], de_pond = pond, de_product = 1, de_version = 1,
     de_disabled = False, de_status = ''online'', de_seen = None, de_session_version = 1, de_username = no, de_secret_hash = ''00'',
     de_interval = None\<rparr>"

definition exa_alarm :: Alarm where
  "exa_alarm = \<lparr>al_ID = 1, al_DeviceNo = ''d1'', al_PondID = 1, al_ProductID = 1, al_Metric = ''ph'', al_CurrentValue = Fin 9,
     al_Threshold = Fin 8, al_Level = ''warning'', al_Message = [], al_ConfirmedAt = None, al_CreatedAt = 12\<rparr>"

definition exa_core :: core_db where
  "exa_core = \<lparr>cb_devices = [exa_device 1 ''d1'' 1, exa_device 2 ''d2'' 2],
     cb_ponds = [\<lparr>po_id = 1, po_farm = 1, po_name = ''p'', po_area = None\<rparr>, \<lparr>po_id = 2, po_farm = 2, po_name = ''q'', po_area = None\<rparr>],
     cb_farms = [\<lparr>fr_id = 1, fr_tenant = 2, fr_owner = Some 5, fr_name = ''f'', fr_location = []\<rparr>,
       \<lparr>fr_id = 2, fr_tenant = 3, fr_owner = None, fr_name = ''g'', fr_location = []\<rparr>],
     cb_tenants = [\<lparr>te_id = 2, te_name = ''t'', te_active = True\<rparr>, \<lparr>te_id = 3, te_name = ''u'', te_active = True\<rparr>],
     cb_members = [\<lparr>mb_tenant = 2, mb_user = 5, mb_role = ''owner'', mb_permission_version = 0, mb_active = True, mb_expires = None\<rparr>],
     cb_users = [\<lparr>ur_id = 5, ur_open_id = ''wx5'', ur_authority = ''USER'', ur_subscribed = True, ur_token_version = 0\<rparr>],
     cb_products = [], cb_models = [], cb_rules = [], cb_messages = [], cb_sensor = [], cb_telemetry = [], cb_shadows = [],
     cb_alarms = [exa_alarm], cb_outbox = []\<rparr>"

definition exa_db :: admin_db where
  "exa_db = \<lparr>ab_core = exa_core,
     ab_farm_members = [\<lparr>fm_tenant = 2, fm_farm = 1, fm_user = 5, fm_role = ''owner'', fm_active = True, fm_expires = None\<rparr>],
     ab_audit = [], ab_deployment = ''dep'', ab_license = None, ab_max_seen = None, ab_clock_error = False, ab_keys = [],
     ab_nonces = []\<rparr>"

definition exa_nobody :: actor_ctx where
  "exa_nobody = \<lparr>ax_Tenant = None, ax_Role = None, ax_User = None, ax_Version = None, ax_Platform = None\<rparr>"

definition exa_owner :: actor_ctx where
  "exa_owner = \<lparr>ax_Tenant = Some 2, ax_Role = Some ''owner'', ax_User = Some 5, ax_Version = Some 0, ax_Platform = None\<rparr>"

lemmas exa_defs = exa_core_env_def exa_setup_def exa_env_def exa_tx_def exa_device_def exa_alarm_def exa_core_def exa_db_def

lemma exa_sound: "sound exa_db"
  by (simp add: sound_defs exa_defs)

subsection \<open>License\<close>

theorem latched_clock_denies_all_witness:
  "clock_part (license_run exa_setup [ObserveClock (exa_tx 9) 9, Reconcile (exa_tx 8) 8 1]
      (exa_db\<lparr>ab_clock_error := True, ab_max_seen := Some 10\<rparr>)) = (Some 10, True, None) \<and>
   \<not> is_ok (checkDeviceAdmission exa_setup (exa_tx 9) 9 9 (license_run exa_setup
      [ObserveClock (exa_tx 9) 9, Reconcile (exa_tx 8) 8 1] (exa_db\<lparr>ab_clock_error := True, ab_max_seen := Some 10\<rparr>)))"
  using latched_clock_denies_all[of "exa_db\<lparr>ab_clock_error := True, ab_max_seen := Some 10\<rparr>"
      "[ObserveClock (exa_tx 9) 9, Reconcile (exa_tx 8) 8 1]" exa_setup "exa_tx 9" 9 9 exa_nobody 9 "[]"]
  by (simp add: clock_part_def exa_db_def)

lemma exa_observed: "observeLicenseClock exa_setup (exa_tx 7) (10 * minute) exa_db =
    (None, exa_db\<lparr>ab_max_seen := Some (10 * minute)\<rparr>)"
  by (simp add: observeLicenseClock_def behind_def exa_defs)

theorem rolled_back_clock_denied_witness:
  "\<not> is_ok (checkDeviceAdmission exa_setup (exa_tx 9) minute minute (license_run exa_setup
      [Reconcile (exa_tx 9) (10 * minute) 1] (exa_db\<lparr>ab_max_seen := Some (10 * minute)\<rparr>)))"
proof -
  have "rounds_time (lx_core exa_setup)" by (simp add: rounds_time_def exa_defs mono_def)
  moreover have "minute < ce_time (lx_core exa_setup) (10 * minute) - 5 * minute" by (simp add: exa_defs duration_defs)
  ultimately show ?thesis
    using rolled_back_clock_denied[OF _ _ exa_observed, of minute "exa_tx 9" minute "[Reconcile (exa_tx 9) (10 * minute) 1]"]
    by (simp add: exa_db_def)
qed

subsection \<open>Administration\<close>

lemma exa_fresh: "fresh_run exa_env [(exa_owner, ADelete (exa_tx 20) ''d1''), (exa_owner, ACreatePond (exa_tx 21) 3 1 ''r'' (Fin 2))] exa_db"
proof -
  have "ab_core (admin_step exa_env exa_owner (ADelete (exa_tx 20) ''d1'') exa_db) = exa_core\<lparr>cb_devices := cb_devices
      (ab_core (admin_step exa_env exa_owner (ADelete (exa_tx 20) ''d1'') exa_db))\<rparr>"
  proof (cases "DeleteDevice exa_env exa_owner (exa_tx 20) ''d1'' exa_db")
    case (Inl e)
    then show ?thesis by (simp add: committed_def exa_db_def exa_core_def)
  next
    case (Inr db')
    then show ?thesis by (auto simp: committed_def DeleteDevice_def iolink_simps map_core_def exa_db_def)
  qed
  then have "cb_ponds (ab_core (admin_step exa_env exa_owner (ADelete (exa_tx 20) ''d1'') exa_db)) = cb_ponds exa_core"
    by (metis core_db.select_convs(2) core_db.surjective core_db.update_convs(1))
  then show ?thesis by (simp add: exa_core_def)
qed

theorem admin_run_sound_witness:
  "sound (admin_run exa_env [(exa_owner, ADelete (exa_tx 20) ''d1''), (exa_owner, ACreatePond (exa_tx 21) 3 1 ''r'' (Fin 2))] exa_db)"
  by (rule admin_run_sound[OF exa_sound exa_fresh])

theorem tenant_writes_isolated_witness:
  "keeps_foreign 2 exa_db
     (admin_run exa_env [(exa_owner, ADelete (exa_tx 20) ''d1''), (exa_owner, ACreatePond (exa_tx 21) 3 1 ''r'' (Fin 2))] exa_db)"
  by (rule tenant_writes_isolated[OF exa_sound exa_fresh]) (simp add: exa_owner_def TenantID_def)

theorem only_managers_write_witness:
  "same_tables exa_db (admin_step exa_env (exa_owner\<lparr>ax_Version := Some 1\<rparr>) (ADelete (exa_tx 20) ''d1'') exa_db)"
  by (rule only_managers_write)
    (simp_all add: exa_env_def exa_owner_def HasTenantScope_def write_authorized_def exa_db_def exa_core_def)

text \<open>A license for three devices; one more device is registered under it.\<close>

definition exa_payload :: Payload where
  "exa_payload = \<lparr>lp_LicenseID = ''lic'', lp_DeploymentID = ''dep'', lp_IssuedAt = 1, lp_NotBefore = 2, lp_ExpiresAt = Some 100,
     lp_MaxDevices = 3, lp_Features = [''video''], lp_KeyID = ''k1''\<rparr>"

definition exa_members :: "(string \<times> string) list" where
  "exa_members = map (\<lambda>name. (name, if name = ''max_devices'' then ''3'' else ''x'')) payload_members"

definition exa_licensed :: license_setup where
  "exa_licensed = exa_setup\<lparr>lx_env := exa_license_env\<lparr>le_object := (\<lambda>_. Some exa_members), le_payload := (\<lambda>_. Some exa_payload),
     le_string := (\<lambda>_. Some ''2026Z'')\<rparr>\<rparr>"

definition exa_licensed_db :: admin_db where
  "exa_licensed_db = exa_db\<lparr>ab_license := Some (''L'', ''S'', hexEncode ''L''),
     ab_core := exa_core\<lparr>cb_products := [\<lparr>pd_id = 1, pd_name = ''water-quality'', pd_tenant = 1\<rparr>],
       cb_tenants := \<lparr>te_id = 1, te_name = ''__iolink_system__'', te_active = True\<rparr> # cb_tenants exa_core\<rparr>\<rparr>"

definition exa_registration :: admin_call where
  "exa_registration = ARegister (exa_tx 20) (exa_tx 20) (exa_tx 20) 20 20 20 20
     \<lparr>rg_secret = ''s'', rg_nos = [''a''], rg_suffixes = [''b''], rg_id = 3\<rparr> 1 ''n'' ''m'' 60"

lemma exa_admission: "checkDeviceAdmission exa_licensed (exa_tx 20) 20 20 exa_licensed_db = Inr ()"
  by code_simp

lemma exa_registered: "live_count (ab_core (admin_step (exa_env\<lparr>ae_setup := exa_licensed\<rparr>) exa_owner exa_registration exa_licensed_db)) = 3"
  by code_simp

theorem devices_within_license_witness:
  "\<exists>p. license_admits exa_licensed 20 20
    ((admin_step (exa_env\<lparr>ae_setup := exa_licensed\<rparr>) exa_owner exa_registration exa_licensed_db)\<lparr>ab_core := ab_core exa_licensed_db\<rparr>) p \<and>
    3 \<le> lp_MaxDevices p"
proof -
  have s: "sound exa_licensed_db" by (simp add: sound_defs exa_licensed_db_def exa_defs)
  have "live_count (ab_core exa_licensed_db) = 2" by (simp add: live_count_def exa_licensed_db_def exa_defs)
  then show ?thesis
    using devices_within_license[OF s, of "exa_env\<lparr>ae_setup := exa_licensed\<rparr>" exa_owner exa_registration]
    by (simp add: exa_registered) (simp add: exa_registration_def)
qed

lemma exa_deleted: "DeleteDevice exa_env exa_nobody (exa_tx 20) ''d1'' exa_db = Inr (map_core (\<lambda>core. core\<lparr>cb_devices :=
    [(exa_device 1 ''d1'' 1)\<lparr>de_disabled := True, de_status := ''offline'', de_session_version := 2\<rparr>, exa_device 2 ''d2'' 2]\<rparr>) exa_db)"
  by (simp add: DeleteDevice_def beginTenantWrite_def AuthorizeTenantWrite_def HasTenantScope_def exa_nobody_def require_def after_def
      own_devices_def own_pond_def own_farm_def TenantID_def farm_of_pond_def map_core_def exa_defs)

theorem deleted_device_locked_out_witness:
  "core_DeviceRevision (exa_tx 21) (ab_core (map_core (\<lambda>core. core\<lparr>cb_devices :=
      [(exa_device 1 ''d1'' 1)\<lparr>de_disabled := True, de_status := ''offline'', de_session_version := 2\<rparr>, exa_device 2 ''d2'' 2]\<rparr>)
      exa_db)) ''d1'' = -1"
  using deleted_device_locked_out[OF exa_sound exa_deleted, of "exa_device 1 ''d1'' 1" "exa_tx 21" exa_core_env "exa_tx 21" "[]"]
  by (simp add: exa_db_def exa_core_def exa_device_def)

lemma exa_batch: "batchConfirm exa_nobody (exa_tx 20) [1] 0 exa_db = Inr (1, map_core (\<lambda>core. core\<lparr>cb_alarms :=
    [exa_alarm\<lparr>al_ConfirmedAt := Some 20\<rparr>]\<rparr>) exa_db)"
  by (simp add: batchConfirm_def require_def Let_def farm_of_pond_def own_farm_def TenantID_def exa_nobody_def confirm_alarms_def
      map_core_def exa_defs)

theorem batch_confirmed_whole_witness:
  "set [1] \<subseteq> al_ID ` set (filter (may_confirm exa_nobody (exa_tx 20) exa_db 0) (cb_alarms (ab_core exa_db)))"
  using batch_confirmed_whole[OF _ exa_batch] by (simp add: exa_db_def exa_core_def)

end
