(* ===== verification/Open_Request.thy ===== *)
theory Open_Request
  imports License_Runtime "HOL-Library.Product_Lexorder" "HOL-Library.Multiset"
begin

text \<open>
  \<open>core/open_auth.go\<close> and \<open>core/open_rate.go\<close>: the signed requests of the open API. HMAC, AES-GCM and
  SHA-256 are parameters; the seal of AES-GCM takes its key, its nonce and the text. The rate of a key is
  computed over rationals (the code's \<open>float64\<close> without its rounding). The resources of a key are kept decoded.
  The method of a request is an HTTP token, so that its upper case is the ASCII one. Statements of a request:
  90 begins it, 91 the key, 92 the tenant, 93 and 94 the nonces, 95 and 96 the rate, 97 commits.
\<close>

record open_env =
  oe_setup :: license_setup
  oe_hmac :: "string \<Rightarrow> string \<Rightarrow> string"
  oe_seal :: "string \<Rightarrow> string \<Rightarrow> string \<Rightarrow> string"
  oe_unseal :: "string \<Rightarrow> string \<Rightarrow> string \<Rightarrow> string option"
  oe_root :: string
  oe_perMinute :: int
  oe_burst :: int

text \<open>The timestamp is an \<open>int64\<close>, here the word that has its bits.\<close>

record OpenRequest =
  oq_KeyID :: string
  oq_Timestamp :: "64 word"
  oq_Nonce :: string
  oq_Signature :: string
  oq_Method :: string
  oq_Path :: string
  oq_Query :: string
  oq_Body :: string

record ResourceScope =
  rs_FarmIDs :: "int list"
  rs_PondIDs :: "int list"
  rs_DeviceNos :: "string list"

record OpenPrincipal =
  op_KeyID :: string
  op_TenantID :: int
  op_Scopes :: "string list"
  op_Resources :: ResourceScope

abbreviation oe_sha256 :: "open_env \<Rightarrow> string \<Rightarrow> string" where
  "oe_sha256 e \<equiv> le_sha256 (lx_env (oe_setup e))"

definition key_scope :: "api_key \<Rightarrow> ResourceScope" where
  "key_scope k = \<lparr>rs_FarmIDs = ak_Farms k, rs_PondIDs = ak_Ponds k, rs_DeviceNos = ak_Devices k\<rparr>"

subsection \<open>Canonical requests\<close>

definition keepUnreserved :: "char \<Rightarrow> bool" where
  "keepUnreserved c \<longleftrightarrow> isLowerAZ c \<or> isUpperAZ c \<or> isDigit c \<or> c \<in> set ''-._~''"

definition rfc3986 :: "string \<Rightarrow> string" where
  "rfc3986 s = escapeWith keepUnreserved s"

definition query_pair :: "string \<Rightarrow> (string \<times> string) option" where
  "query_pair item =
     (case splitN2 CHR ''='' item of (k, v) \<Rightarrow>
      case pathUnescape k of
        None \<Rightarrow> None
      | Some key \<Rightarrow>
          if \<not> validString key then None
          else (case v of
            None \<Rightarrow> Some (key, [])
          | Some v \<Rightarrow> (case pathUnescape v of
              None \<Rightarrow> None
            | Some val \<Rightarrow> if \<not> validString val then None else Some (key, val))))"

definition query_pairs :: "string \<Rightarrow> (string \<times> string) list option" where
  "query_pairs raw = (if raw = [] then Some [] else those (map query_pair (splitOn CHR ''&'' raw)))"

definition pair_text :: "string \<times> string \<Rightarrow> string" where
  "pair_text p = fst p @ CHR ''='' # snd p"

definition CanonicalOpenQuery :: "string \<Rightarrow> string option" where
  "CanonicalOpenQuery raw =
     map_option (\<lambda>ps. joinWith ''&'' (map pair_text (sort (map (\<lambda>(k, v). (rfc3986 k, rfc3986 v)) ps)))) (query_pairs raw)"

definition CanonicalOpenPath :: "string \<Rightarrow> string option" where
  "CanonicalOpenPath path =
     (if path = [] \<or> \<not> hasPrefix ''/'' path \<or> CHR 0x5C \<in> set path then None
      else if strContains ''%2e'' (toLower path) \<or> strContains ''%2f'' (toLower path) \<or> strContains ''%5c'' (toLower path)
      then None
      else (case pathUnescape path of
        None \<Rightarrow> None
      | Some decoded \<Rightarrow>
          if \<not> validString decoded then None
          else if list_ex (\<lambda>segment. segment = ''.'' \<or> segment = ''..'') (splitOn CHR ''/'' decoded) then None
          else Some path))"

definition signed_text :: "open_env \<Rightarrow> OpenRequest \<Rightarrow> string \<Rightarrow> string \<Rightarrow> string" where
  "signed_text e q path query = joinWith [CHR 0x0A]
     [toUpper (oq_Method q), path, query, FormatInt (sint (oq_Timestamp q)), oq_Nonce q, hexEncode (oe_sha256 e (oq_Body q))]"

subsection \<open>Clock, secret and rate\<close>

text \<open>\<open>Time.Unix\<close>: an instant counts from the zero instant of the year 1.\<close>

definition unixSeconds :: "time \<Rightarrow> 64 word" where
  "unixSeconds now = word_of_int (now div second - 62135596800)"

definition clock_delta :: "64 word \<Rightarrow> time \<Rightarrow> 64 word" where
  "clock_delta timestamp now =
     (if sint timestamp < sint (unixSeconds now) then unixSeconds now - timestamp else timestamp - unixSeconds now)"

definition secret_key :: "open_env \<Rightarrow> string" where
  "secret_key e = oe_sha256 e (oe_root e @ '':api-key'')"

definition decryptAPISecret :: "open_env \<Rightarrow> string \<Rightarrow> string \<Rightarrow> string option" where
  "decryptAPISecret e ciphertext nonce =
     (if length (oe_root e) < 32 then None else oe_unseal e (secret_key e) nonce ciphertext)"

definition consumeOpenRate :: "rat \<Rightarrow> time \<Rightarrow> time \<Rightarrow> int \<Rightarrow> int \<Rightarrow> rat \<times> int" where
  "consumeOpenRate tokens last' now perMinute burst =
     (let rate = of_int perMinute / 60;
          elapsed = max 0 (of_int (time_sub now last') / of_int second);
          tokens = min (of_int burst) (tokens + elapsed * rate)
      in if tokens < 1 then (tokens, \<lceil>(1 - tokens) / rate\<rceil>) else (tokens - 1, 0))"

subsection \<open>Authentication\<close>

text \<open>What is checked before the transaction: the canonical path and query, and the bytes of the signature.\<close>

definition open_shape :: "open_env \<Rightarrow> OpenRequest \<Rightarrow> time \<Rightarrow> (admin_error, string \<times> string \<times> string) result" where
  "open_shape e q now =
     require (\<not> length (oe_root e) < 32) AOpenUnavailable
     (require (\<not> (oq_KeyID q = [] \<or> oq_Timestamp q = 0 \<or> length (oq_Nonce q) < 16 \<or> oq_Signature q = [])) AOpenUnauthorized
     (take_or (CanonicalOpenPath (oq_Path q)) AOpenUnauthorized (\<lambda>path.
      take_or (CanonicalOpenQuery (oq_Query q)) AOpenUnauthorized (\<lambda>query.
      require (\<not> clock_delta (oq_Timestamp q) now > 300) AOpenUnauthorized
      (take_or (hexDecode (oq_Signature q)) AOpenUnauthorized (\<lambda>sig.
       require (\<not> (length sig \<noteq> 32 \<or> toLower (oq_Signature q) \<noteq> oq_Signature q)) AOpenUnauthorized
       (Inr (path, query, sig))))))))"

definition remember_nonce :: "open_env \<Rightarrow> core_tx \<Rightarrow> string \<Rightarrow> string \<Rightarrow> admin_db \<Rightarrow> (admin_error, admin_db) result" where
  "remember_nonce e x keyID nonce db =
     require (\<not> cx_fails x 93) AStore
     (let db = db\<lparr>ab_nonces := filter (\<lambda>r. \<not> nr_expires r < cx_now x) (ab_nonces db)\<rparr>; hash = oe_sha256 e nonce in
      require (\<not> cx_fails x 94) AStore
      (require (\<not> list_ex (\<lambda>r. nr_key r = keyID \<and> nr_hash r = hash) (ab_nonces db)) AOpenReplay
       (Inr (db\<lparr>ab_nonces := ab_nonces db @
          [\<lparr>nr_key = keyID, nr_hash = hash, nr_expires = cx_now x + 10 * minute\<rparr>]\<rparr>))))"

definition put_rate :: "string \<Rightarrow> rat \<Rightarrow> time \<Rightarrow> admin_db \<Rightarrow> admin_db" where
  "put_rate keyID tokens now db = db\<lparr>ab_keys := map (\<lambda>k. if ak_KeyID k = keyID
     then k\<lparr>ak_Tokens := tokens, ak_Refill := now\<rparr> else k) (ab_keys db)\<rparr>"

text \<open>
  The transaction. \<open>Inl\<close> is a rollback; a request that is throttled commits its nonce and answers with an error.
\<close>

definition open_tx ::
  "open_env \<Rightarrow> core_tx \<Rightarrow> OpenRequest \<Rightarrow> time \<Rightarrow> string \<Rightarrow> string \<Rightarrow> string \<Rightarrow> admin_db \<Rightarrow>
   (admin_error, (admin_error, OpenPrincipal) result \<times> admin_db) result" where
  "open_tx e x q now path query sig db =
     require (\<not> cx_fails x 90 \<and> \<not> cx_fails x 91) AStore
     (take_or (find (\<lambda>k. ak_KeyID k = oq_KeyID q \<and> ak_Revoked k = None) (ab_keys db)) AOpenUnauthorized (\<lambda>k.
      require (\<not> cx_fails x 92) AStore
      (require (tenant_active (ab_core db) (ak_Tenant k)) AOpenUnauthorized
      (take_or (decryptAPISecret e (ak_Encrypted k) (ak_SecretNonce k)) AOpenUnauthorized (\<lambda>secret.
       require (oe_hmac e secret (signed_text e q path query) = sig) AOpenUnauthorized
       (after (remember_nonce e x (oq_KeyID q) (oq_Nonce q) db) (\<lambda>db.
        require (\<not> cx_fails x 95) AStore
        (case consumeOpenRate (ak_Tokens k) (ak_Refill k) now (oe_perMinute e) (oe_burst e) of (remaining, retryAfter) \<Rightarrow>
         if retryAfter > 0
         then require (\<not> cx_fails x 97) AStore (Inr (Inl (ARateLimited (nat retryAfter)), db))
         else require (\<not> cx_fails x 96 \<and> \<not> cx_fails x 97) AStore
           (Inr (Inr \<lparr>op_KeyID = oq_KeyID q, op_TenantID = ak_Tenant k, op_Scopes = ak_Scopes k,
                   op_Resources = key_scope k\<rparr>, put_rate (oq_KeyID q) remaining (ce_time (lx_core (oe_setup e)) now) db))))))))))"

definition no_actor :: actor_ctx where
  "no_actor = \<lparr>ax_Tenant = None, ax_Role = None, ax_User = None, ax_Version = None, ax_Platform = None\<rparr>"

text \<open>The contexts of its caller carry no actor. \<open>xo\<close> is the transaction of the license, \<open>seen\<close> and \<open>checked\<close> are its clocks; \<open>now\<close> is the clock of the caller.\<close>

definition AuthenticateOpen ::
  "open_env \<Rightarrow> core_tx \<Rightarrow> time \<Rightarrow> time \<Rightarrow> core_tx \<Rightarrow> OpenRequest \<Rightarrow> time \<Rightarrow> admin_db \<Rightarrow>
   (admin_error, OpenPrincipal) result \<times> admin_db" where
  "AuthenticateOpen e xo seen checked x q now db =
     (case RequireLicenseFeature (oe_setup e) no_actor xo seen checked ''openapi'' db of
        (Inl err, db) \<Rightarrow> (Inl err, db)
      | (Inr _, db) \<Rightarrow>
          (case after (open_shape e q now) (\<lambda>(path, query, sig). open_tx e x q now path query sig db) of
             Inl err \<Rightarrow> (Inl err, db)
           | Inr out \<Rightarrow> out))"

definition ConfigureOpenRateLimit :: "int \<Rightarrow> int \<Rightarrow> open_env \<Rightarrow> open_env option" where
  "ConfigureOpenRateLimit perMinute burst e =
     (if perMinute < 1 \<or> perMinute > 1000000 \<or> burst < 1 \<or> burst > 1000000 then None
      else Some (e\<lparr>oe_perMinute := perMinute, oe_burst := burst\<rparr>))"

end
