(* ===== verification/Open_Keys.thy ===== *)
theory Open_Keys
  imports Open_Request
begin

text \<open>
  \<open>core/api_keys.go\<close>, \<open>core/api_key_admin.go\<close>, \<open>core/api_key_crypto.go\<close>, \<open>core/api_key_resources.go\<close> and
  \<open>core/open_resources.go\<close>: the keys of the open API, who may manage them and what a key reads. The random
  bytes of an identifier, of a secret and of the nonce of a seal are arguments, \<open>None\<close> where reading them
  fails. Every call begins with \<open>RequireLicenseFeature\<close> in a transaction of its own. Statements: 90 begins,
  91 to 96 are the statements of the call in their order, 97 commits; 50 and 51 check the actor.
\<close>

record open_admin =
  oa_env :: open_env
  oa_policy :: "permission_policy option"

record APIKey =
  kv_KeyID :: string
  kv_TenantID :: int
  kv_Name :: string
  kv_Scopes :: "string list"
  kv_Resources :: ResourceScope

subsection \<open>Checks\<close>

definition validOpenScopes :: "string list" where
  "validOpenScopes = [''ponds:read'', ''devices:read'', ''alarms:read'']"

definition validateAPIKeyInput :: "string \<Rightarrow> string list \<Rightarrow> ResourceScope \<Rightarrow> bool" where
  "validateAPIKeyInput name scopes r \<longleftrightarrow>
     \<not> (trimSpace name = [] \<or> runeCount name > 128) \<and>
     \<not> (length scopes = 0 \<or> length scopes > 16) \<and>
     list_all (\<lambda>s. s \<in> set validOpenScopes) scopes \<and> distinct scopes \<and>
     \<not> (length (rs_FarmIDs r) > 100 \<or> length (rs_PondIDs r) > 100 \<or> length (rs_DeviceNos r) > 100) \<and>
     list_all (\<lambda>i. \<not> i \<le> 0) (rs_FarmIDs r) \<and> list_all (\<lambda>i. \<not> i \<le> 0) (rs_PondIDs r) \<and>
     list_all (\<lambda>d. trimSpace d \<noteq> []) (rs_DeviceNos r)"

definition authorizeAPIKeyAdmin :: "open_admin \<Rightarrow> actor_ctx \<Rightarrow> core_tx \<Rightarrow> int \<Rightarrow> int \<Rightarrow> admin_db \<Rightarrow> (admin_error, unit) result" where
  "authorizeAPIKeyAdmin a c x tenantID actorID db =
     (case ax_Platform c of
        Some (actor, _) \<Rightarrow>
          require (actor = actorID) AForbidden (AuthorizePlatformWrite c x actorID (ab_core db))
      | None \<Rightarrow>
          require (TenantID c = Some tenantID \<and> TenantUserID c = Some actorID) AForbidden
          (require (TenantRole c = ''owner'' \<or> TenantRole c = ''admin'') AForbidden
          (AuthorizeTenantWrite (oa_policy a) c x ''api-keys'' ''write'' (ab_core db))))"

definition farm_in_tenant :: "core_db \<Rightarrow> int \<Rightarrow> int \<Rightarrow> bool" where
  "farm_in_tenant db t i \<longleftrightarrow> list_ex (\<lambda>f. fr_id f = i \<and> fr_tenant f = t) (cb_farms db)"

definition pond_in_tenant :: "core_db \<Rightarrow> int \<Rightarrow> int \<Rightarrow> bool" where
  "pond_in_tenant db t i \<longleftrightarrow> list_ex (\<lambda>f. fr_tenant f = t) (farm_of_pond db i)"

definition device_in_tenant :: "core_db \<Rightarrow> int \<Rightarrow> string \<Rightarrow> bool" where
  "device_in_tenant db t no \<longleftrightarrow>
     list_ex (\<lambda>d. de_no d = no \<and> \<not> de_disabled d \<and> pond_in_tenant db t (de_pond d)) (cb_devices db)"

definition validateAPIKeyResourceOwnership :: "core_tx \<Rightarrow> nat \<Rightarrow> int \<Rightarrow> ResourceScope \<Rightarrow> core_db \<Rightarrow> (admin_error, unit) result" where
  "validateAPIKeyResourceOwnership x n t r db =
     require (\<not> cx_fails x n) AStore
     (require (list_all (farm_in_tenant db t) (rs_FarmIDs r) \<and> list_all (pond_in_tenant db t) (rs_PondIDs r) \<and>
        list_all (device_in_tenant db t) (rs_DeviceNos r)) ANotFound (Inr ()))"

subsection \<open>Keys\<close>

definition randomKeyID :: "string option \<Rightarrow> string option" where
  "randomKeyID raw = map_option (\<lambda>bytes. ''ik_'' @ b64url (codes bytes)) raw"

definition encryptAPISecret :: "open_env \<Rightarrow> string option \<Rightarrow> string \<Rightarrow> (admin_error, string \<times> string) result" where
  "encryptAPISecret e nonce secret =
     require (\<not> length (oe_root e) < 32) AOpenUnavailable
     (take_or nonce AStore (\<lambda>nonce. Inr (oe_seal e (secret_key e) nonce secret, nonce)))"

text \<open>What a new key is made of: the bytes of its identifier, its secret and the nonce of the seal.\<close>

record key_random =
  kr_id :: "string option"
  kr_secret :: "string option"
  kr_nonce :: "string option"

definition key_view :: "api_key \<Rightarrow> APIKey" where
  "key_view k = \<lparr>kv_KeyID = ak_KeyID k, kv_TenantID = ak_Tenant k, kv_Name = ak_Name k, kv_Scopes = ak_Scopes k,
     kv_Resources = key_scope k\<rparr>"

text \<open>The insertion of a key, refused when its identifier is taken, with the audit row and the commit.\<close>

definition insert_key ::
  "core_tx \<Rightarrow> nat \<Rightarrow> string \<Rightarrow> int \<Rightarrow> api_key \<Rightarrow> admin_db \<Rightarrow> (admin_error, admin_db) result" where
  "insert_key x n act actorID k db =
     require (\<not> cx_fails x n \<and> \<not> list_ex (\<lambda>o1. ak_KeyID o1 = ak_KeyID k) (ab_keys db)) AStore
     (require (\<not> cx_fails x (n + 1) \<and> \<not> cx_fails x 97) AStore
      (Inr (add_audit act (Some (ak_Tenant k)) ''api_key'' (ak_KeyID k) (Some actorID) (db\<lparr>ab_keys := ab_keys db @ [k]\<rparr>))))"

definition new_key ::
  "open_env \<Rightarrow> core_tx \<Rightarrow> key_random \<Rightarrow> int \<Rightarrow> string \<Rightarrow> string list \<Rightarrow> ResourceScope \<Rightarrow> int \<Rightarrow> string option \<Rightarrow>
   (admin_error, api_key \<times> string) result" where
  "new_key e x rnd tenantID name scopes r actorID from =
     take_or (randomKeyID (kr_id rnd)) AStore (\<lambda>keyID.
     take_or (kr_secret rnd) AStore (\<lambda>secret.
     after (encryptAPISecret e (kr_nonce rnd) secret) (\<lambda>(ciphertext, nonce).
     Inr (\<lparr>ak_KeyID = keyID, ak_Tenant = tenantID, ak_Name = name, ak_Scopes = scopes, ak_Farms = rs_FarmIDs r,
        ak_Ponds = rs_PondIDs r, ak_Devices = rs_DeviceNos r, ak_Encrypted = ciphertext, ak_SecretNonce = nonce,
        ak_CreatedBy = actorID, ak_Created = cx_now x, ak_Revoked = None, ak_RotatedFrom = from,
        ak_Tokens = of_int (oe_burst e), ak_Refill = cx_now x\<rparr>, secret))))"

definition issue_tx ::
  "open_admin \<Rightarrow> actor_ctx \<Rightarrow> core_tx \<Rightarrow> key_random \<Rightarrow> int \<Rightarrow> string \<Rightarrow> string list \<Rightarrow> ResourceScope \<Rightarrow> int \<Rightarrow> admin_db \<Rightarrow>
   (admin_error, (APIKey \<times> string) \<times> admin_db) result" where
  "issue_tx a c x rnd tenantID name scopes r actorID db =
     require (validateAPIKeyInput name scopes r) AInvalidAPIKey
     (require (\<not> cx_fails x 90) AStore
     (after (authorizeAPIKeyAdmin a c x tenantID actorID db) (\<lambda>_.
      after (validateAPIKeyResourceOwnership x 91 tenantID r (ab_core db)) (\<lambda>_.
      after (new_key (oa_env a) x rnd tenantID (trimSpace name) scopes r actorID None) (\<lambda>(k, secret).
      after (insert_key x 92 ''api_key.issued'' actorID k db) (\<lambda>db. Inr ((key_view k, b64url (codes secret)), db)))))))"

text \<open>A call behind the license: its transaction starts when the license allows the open API.\<close>

definition licensed ::
  "open_admin \<Rightarrow> actor_ctx \<Rightarrow> core_tx \<Rightarrow> time \<Rightarrow> time \<Rightarrow> (admin_db \<Rightarrow> (admin_error, 'a \<times> admin_db) result) \<Rightarrow> admin_db \<Rightarrow>
   (admin_error, 'a) result \<times> admin_db" where
  "licensed a c xo seen checked body db =
     (case RequireLicenseFeature (oe_setup (oa_env a)) c xo seen checked ''openapi'' db of
        (Inl err, db) \<Rightarrow> (Inl err, db)
      | (Inr _, db) \<Rightarrow> (case body db of Inl err \<Rightarrow> (Inl err, db) | Inr (r, db') \<Rightarrow> (Inr r, db')))"

definition IssueAPIKey ::
  "open_admin \<Rightarrow> actor_ctx \<Rightarrow> core_tx \<Rightarrow> time \<Rightarrow> time \<Rightarrow> core_tx \<Rightarrow> key_random \<Rightarrow> int \<Rightarrow> string \<Rightarrow> string list \<Rightarrow> ResourceScope \<Rightarrow>
   int \<Rightarrow> admin_db \<Rightarrow> (admin_error, APIKey \<times> string) result \<times> admin_db" where
  "IssueAPIKey a c xo seen checked x rnd tenantID name scopes r actorID db =
     licensed a c xo seen checked (issue_tx a c x rnd tenantID name scopes r actorID) db"

text \<open>\<open>authorizeAPIKeyRead\<close>: the check of a writer in a transaction of its own, \<open>xr\<close>.\<close>

definition authorizeAPIKeyRead :: "open_admin \<Rightarrow> actor_ctx \<Rightarrow> core_tx \<Rightarrow> int \<Rightarrow> int \<Rightarrow> admin_db \<Rightarrow> (admin_error, unit) result" where
  "authorizeAPIKeyRead a c xr tenantID actorID db =
     require (\<not> cx_fails xr 90) AStore
     (after (authorizeAPIKeyAdmin a c xr tenantID actorID db) (\<lambda>_. require (\<not> cx_fails xr 97) AStore (Inr ())))"

definition ListAPIKeys ::
  "open_admin \<Rightarrow> actor_ctx \<Rightarrow> core_tx \<Rightarrow> time \<Rightarrow> time \<Rightarrow> core_tx \<Rightarrow> core_tx \<Rightarrow> int \<Rightarrow> int \<Rightarrow> admin_db \<Rightarrow>
   (admin_error, APIKey list) result \<times> admin_db" where
  "ListAPIKeys a c xo seen checked xr x tenantID actorID db =
     licensed a c xo seen checked (\<lambda>db.
       require (\<not> tenantID \<le> 0) AStore
       (after (authorizeAPIKeyRead a c xr tenantID actorID db) (\<lambda>_.
        require (\<not> cx_fails x 91) AStore
        (Inr (map key_view (sort_key (\<lambda>k. - ak_Created k) (filter (\<lambda>k. ak_Tenant k = tenantID) (ab_keys db))), db))))) db"

definition revoke_where :: "(api_key \<Rightarrow> bool) \<Rightarrow> time \<Rightarrow> admin_db \<Rightarrow> admin_db" where
  "revoke_where P now db = db\<lparr>ab_keys := map (\<lambda>k. if P k
     then k\<lparr>ak_Revoked := Some (case ak_Revoked k of None \<Rightarrow> now | Some t \<Rightarrow> t)\<rparr> else k) (ab_keys db)\<rparr>"

definition revokeAPIKey :: "open_admin \<Rightarrow> actor_ctx \<Rightarrow> core_tx \<Rightarrow> int \<Rightarrow> int \<Rightarrow> string \<Rightarrow> admin_db \<Rightarrow> (admin_error, unit \<times> admin_db) result" where
  "revokeAPIKey a c x tenantID actorID keyID db =
     require (\<not> cx_fails x 90) AStore
     (after (authorizeAPIKeyAdmin a c x tenantID actorID db) (\<lambda>_.
      require (\<not> cx_fails x 91) AStore
      (let P = (\<lambda>k. ak_KeyID k = keyID \<and> ak_Tenant k = tenantID) in
       require (length (filter P (ab_keys db)) = 1) ANotFound
       (require (\<not> cx_fails x 92 \<and> \<not> cx_fails x 97) AStore
        (Inr ((), add_audit ''api_key.revoked'' (Some tenantID) ''api_key'' keyID (Some actorID) (revoke_where P (cx_now x) db)))))))"

definition RevokeAPIKey ::
  "open_admin \<Rightarrow> actor_ctx \<Rightarrow> core_tx \<Rightarrow> time \<Rightarrow> time \<Rightarrow> core_tx \<Rightarrow> int \<Rightarrow> int \<Rightarrow> string \<Rightarrow> admin_db \<Rightarrow>
   (admin_error, unit) result \<times> admin_db" where
  "RevokeAPIKey a c xo seen checked x tenantID actorID keyID db =
     licensed a c xo seen checked (revokeAPIKey a c x tenantID actorID keyID) db"

text \<open>The \<open>UPDATE\<close> of a rotation names the key alone, which its \<open>SELECT\<close> has found unrevoked in the tenant.\<close>

definition mark_revoked :: "string \<Rightarrow> time \<Rightarrow> admin_db \<Rightarrow> admin_db" where
  "mark_revoked keyID now db = db\<lparr>ab_keys := map (\<lambda>k. if ak_KeyID k = keyID
     then k\<lparr>ak_Revoked := Some now\<rparr> else k) (ab_keys db)\<rparr>"

definition rotate_tx ::
  "open_admin \<Rightarrow> actor_ctx \<Rightarrow> core_tx \<Rightarrow> key_random \<Rightarrow> int \<Rightarrow> int \<Rightarrow> string \<Rightarrow> admin_db \<Rightarrow>
   (admin_error, (APIKey \<times> string) \<times> admin_db) result" where
  "rotate_tx a c x rnd tenantID actorID keyID db =
     require (\<not> cx_fails x 90) AStore
     (after (authorizeAPIKeyAdmin a c x tenantID actorID db) (\<lambda>_.
      require (\<not> cx_fails x 91) AStore
      (take_or (find (\<lambda>k. ak_KeyID k = keyID \<and> ak_Tenant k = tenantID \<and> ak_Revoked k = None) (ab_keys db)) ANotFound (\<lambda>old.
       after (validateAPIKeyResourceOwnership x 92 tenantID (key_scope old) (ab_core db)) (\<lambda>_.
       after (new_key (oa_env a) x rnd tenantID (ak_Name old) (ak_Scopes old) (key_scope old) actorID (Some keyID)) (\<lambda>(k, secret).
       require (\<not> cx_fails x 93) AStore
       (after (insert_key x 94 ''api_key.rotated'' actorID k
           (mark_revoked keyID (cx_now x) db))
         (\<lambda>db. Inr ((key_view k, b64url (codes secret)), db)))))))))"

definition RotateAPIKey ::
  "open_admin \<Rightarrow> actor_ctx \<Rightarrow> core_tx \<Rightarrow> time \<Rightarrow> time \<Rightarrow> core_tx \<Rightarrow> core_tx \<Rightarrow> key_random \<Rightarrow> int \<Rightarrow> int \<Rightarrow> string \<Rightarrow> admin_db \<Rightarrow>
   (admin_error, APIKey \<times> string) result \<times> admin_db" where
  "RotateAPIKey a c xo seen checked xr x rnd tenantID actorID keyID db =
     licensed a c xo seen checked (\<lambda>db. after (authorizeAPIKeyRead a c xr tenantID actorID db) (\<lambda>_.
       rotate_tx a c x rnd tenantID actorID keyID db)) db"

subsection \<open>What a key reads\<close>

text \<open>The farms of a pond that are of the tenant and, where the scope names farms, among them.\<close>

definition open_pond :: "core_db \<Rightarrow> int \<Rightarrow> ResourceScope \<Rightarrow> int \<Rightarrow> core_farm list" where
  "open_pond db t r pond = filter (\<lambda>f. fr_tenant f = t \<and> (length (rs_FarmIDs r) > 0 \<longrightarrow> fr_id f \<in> set (rs_FarmIDs r)))
     (if length (rs_PondIDs r) > 0 \<and> pond \<notin> set (rs_PondIDs r) then [] else farm_of_pond db pond)"

definition ListOpenPonds :: "core_tx \<Rightarrow> int \<Rightarrow> ResourceScope \<Rightarrow> admin_db \<Rightarrow> (admin_error, core_pond list) result" where
  "ListOpenPonds x t r db =
     require (\<not> cx_fails x 0) AStore
     (Inr (sort_key po_id (filter (\<lambda>p. open_pond (ab_core db) t r (po_id p) \<noteq> [] \<and>
        (length (rs_DeviceNos r) > 0 \<longrightarrow> list_ex (\<lambda>d. de_pond d = po_id p \<and> de_no d \<in> set (rs_DeviceNos r) \<and> \<not> de_disabled d)
           (cb_devices (ab_core db)))) (cb_ponds (ab_core db)))))"

definition ListOpenDevices :: "core_tx \<Rightarrow> int \<Rightarrow> ResourceScope \<Rightarrow> admin_db \<Rightarrow> (admin_error, core_device list) result" where
  "ListOpenDevices x t r db =
     require (\<not> cx_fails x 0) AStore
     (Inr (sort_key de_id (filter (\<lambda>d. \<not> de_disabled d \<and> open_pond (ab_core db) t r (de_pond d) \<noteq> [] \<and>
        (length (rs_DeviceNos r) > 0 \<longrightarrow> de_no d \<in> set (rs_DeviceNos r))) (cb_devices (ab_core db)))))"

definition ListOpenAlarms :: "core_tx \<Rightarrow> int \<Rightarrow> ResourceScope \<Rightarrow> admin_db \<Rightarrow> (admin_error, Alarm list) result" where
  "ListOpenAlarms x t r db =
     require (\<not> cx_fails x 0) AStore
     (Inr (take 200 (sort_key (\<lambda>a. - al_CreatedAt a) (sort_key (\<lambda>a. - al_ID a)
        (filter (\<lambda>a. open_pond (ab_core db) t r (al_PondID a) \<noteq> [] \<and>
          (length (rs_DeviceNos r) > 0 \<longrightarrow> al_DeviceNo a \<in> set (rs_DeviceNos r))) (cb_alarms (ab_core db)))))))"

end
