(* ===== verification/Open_Http.thy ===== *)
theory Open_Http
  imports Open_Keys
begin

text \<open>
  \<open>internal/openapi\<close>: the handlers of the open API over an authenticator and a resource store (\<open>None\<close> for a nil
  one), and the contract of the two as a locale. The router is library code: a request comes with its
  route and the parameter of its path. A body is what reading at most 4 MiB of it gives. An answer is an
  error with its status, the request to come back later, or the rows that are written as JSON.
\<close>

datatype open_body = OpenBody string | OpenTooLarge | OpenBodyFailed

record open_http =
  ho_KeyID :: string
  ho_Timestamp :: string
  ho_Nonce :: string
  ho_Signature :: string
  ho_Method :: string
  ho_Path :: string
  ho_Query :: string
  ho_Body :: open_body

datatype open_route = RoutePonds | RoutePond string | RouteDevices | RouteDevice string | RouteAlarms

datatype open_answer =
    OpenError nat string | OpenRetry nat | OpenPonds "core_pond list" | OpenPond core_pond
  | OpenDevices "core_device list" | OpenDevice core_device | OpenAlarms "Alarm list"

record 's open_resources =
  or_ponds :: "int \<Rightarrow> ResourceScope \<Rightarrow> 's \<Rightarrow> (admin_error, core_pond list) result"
  or_devices :: "int \<Rightarrow> ResourceScope \<Rightarrow> 's \<Rightarrow> (admin_error, core_device list) result"
  or_alarms :: "int \<Rightarrow> ResourceScope \<Rightarrow> 's \<Rightarrow> (admin_error, Alarm list) result"

record 's open_deps =
  od_Auth :: "(OpenRequest \<Rightarrow> time \<Rightarrow> 's \<Rightarrow> (admin_error, OpenPrincipal) result \<times> 's) option"
  od_Resources :: "'s open_resources option"

definition open_request_of :: "open_http \<Rightarrow> string \<Rightarrow> OpenRequest" where
  "open_request_of h body = \<lparr>oq_KeyID = ho_KeyID h, oq_Timestamp = word_of_int (fst (ParseInt64 (ho_Timestamp h))),
     oq_Nonce = ho_Nonce h, oq_Signature = ho_Signature h, oq_Method = ho_Method h, oq_Path = ho_Path h,
     oq_Query = ho_Query h, oq_Body = body\<rparr>"

definition open_failure :: "admin_error \<Rightarrow> open_answer" where
  "open_failure err =
     (if err = AOpenUnavailable then OpenError 503 ''unavailable''
      else (case err of
        ARateLimited n \<Rightarrow> OpenRetry n
      | _ \<Rightarrow>
          if err \<in> {ALicense LicenseUnavailable, ALicense LicenseRequired, ALicense FeatureDenied, ALicense ClockError}
          then OpenError 403 ''feature_unavailable''
          else if err = AOpenUnauthorized \<or> err = AOpenReplay then OpenError 401 ''unauthorized''
          else OpenError 500 ''internal_error''))"

definition open_authenticate ::
  "'s open_deps \<Rightarrow> open_http \<Rightarrow> time \<Rightarrow> 's \<Rightarrow> (open_answer, OpenPrincipal \<times> 's open_resources) result \<times> 's" where
  "open_authenticate deps h now s =
     (case (od_Auth deps, od_Resources deps) of
        (Some auth, Some resources) \<Rightarrow>
          (case ho_Body h of
             OpenTooLarge \<Rightarrow> (Inl (OpenError 413 ''body_too_large''), s)
           | OpenBodyFailed \<Rightarrow> (Inl (OpenError 400 ''invalid_request''), s)
           | OpenBody body \<Rightarrow>
               (case auth (open_request_of h body) now s of
                  (Inl err, s) \<Rightarrow> (Inl (open_failure err), s)
                | (Inr p, s) \<Rightarrow> (Inr (p, resources), s)))
      | _ \<Rightarrow> (Inl (OpenError 503 ''unavailable''), s))"

definition hasScope :: "OpenPrincipal \<Rightarrow> string \<Rightarrow> bool" where
  "hasScope p name \<longleftrightarrow> name \<in> set (op_Scopes p)"

definition need_scope :: "OpenPrincipal \<Rightarrow> string \<Rightarrow> open_answer \<Rightarrow> open_answer" where
  "need_scope p name answer = (if \<not> hasScope p name then OpenError 403 ''scope_required'' else answer)"

definition or_failure :: "(admin_error, 'a) result \<Rightarrow> ('a \<Rightarrow> open_answer) \<Rightarrow> open_answer" where
  "or_failure r k = (case r of Inl _ \<Rightarrow> OpenError 500 ''internal_error'' | Inr x \<Rightarrow> k x)"

definition listPonds :: "OpenPrincipal \<Rightarrow> 's open_resources \<Rightarrow> 's \<Rightarrow> open_answer" where
  "listPonds p r s = need_scope p ''ponds:read'' (or_failure (or_ponds r (op_TenantID p) (op_Resources p) s) OpenPonds)"

definition getPond :: "OpenPrincipal \<Rightarrow> 's open_resources \<Rightarrow> string \<Rightarrow> 's \<Rightarrow> open_answer" where
  "getPond p r param s = need_scope p ''ponds:read''
     (case ParseInt64 param of (i, fine) \<Rightarrow>
      if \<not> fine \<or> i < 1 then OpenError 400 ''invalid_request''
      else or_failure (or_ponds r (op_TenantID p) (op_Resources p) s) (\<lambda>items.
        case find (\<lambda>item. po_id item = i) items of
          None \<Rightarrow> OpenError 404 ''not_found''
        | Some item \<Rightarrow> OpenPond item))"

definition listDevices :: "OpenPrincipal \<Rightarrow> 's open_resources \<Rightarrow> 's \<Rightarrow> open_answer" where
  "listDevices p r s = need_scope p ''devices:read'' (or_failure (or_devices r (op_TenantID p) (op_Resources p) s) OpenDevices)"

definition getDevice :: "OpenPrincipal \<Rightarrow> 's open_resources \<Rightarrow> string \<Rightarrow> 's \<Rightarrow> open_answer" where
  "getDevice p r param s = need_scope p ''devices:read''
     (or_failure (or_devices r (op_TenantID p) (op_Resources p) s) (\<lambda>items.
        case find (\<lambda>item. de_no item = param) items of
          None \<Rightarrow> OpenError 404 ''not_found''
        | Some item \<Rightarrow> OpenDevice item))"

definition listAlarms :: "OpenPrincipal \<Rightarrow> 's open_resources \<Rightarrow> 's \<Rightarrow> open_answer" where
  "listAlarms p r s = need_scope p ''alarms:read'' (or_failure (or_alarms r (op_TenantID p) (op_Resources p) s) OpenAlarms)"

definition serve_open :: "'s open_deps \<Rightarrow> open_route \<Rightarrow> open_http \<Rightarrow> time \<Rightarrow> 's \<Rightarrow> open_answer \<times> 's" where
  "serve_open deps route h now s =
     (case open_authenticate deps h now s of
        (Inl answer, s) \<Rightarrow> (answer, s)
      | (Inr (p, r), s) \<Rightarrow>
          ((case route of
              RoutePonds \<Rightarrow> listPonds p r s
            | RoutePond param \<Rightarrow> getPond p r param s
            | RouteDevices \<Rightarrow> listDevices p r s
            | RouteDevice param \<Rightarrow> getDevice p r param s
            | RouteAlarms \<Rightarrow> listAlarms p r s), s))"

text \<open>What an answer shows satisfies the three predicates; the scope it needs.\<close>

fun shows_only :: "(core_pond \<Rightarrow> bool) \<Rightarrow> (core_device \<Rightarrow> bool) \<Rightarrow> (Alarm \<Rightarrow> bool) \<Rightarrow> open_answer \<Rightarrow> bool" where
  "shows_only P D A (OpenPonds ps) = list_all P ps"
| "shows_only P D A (OpenPond p) = P p"
| "shows_only P D A (OpenDevices ds) = list_all D ds"
| "shows_only P D A (OpenDevice d) = D d"
| "shows_only P D A (OpenAlarms alarms) = list_all A alarms"
| "shows_only P D A _ = True"

fun answer_scope :: "open_answer \<Rightarrow> string option" where
  "answer_scope (OpenPonds _) = Some ''ponds:read''"
| "answer_scope (OpenPond _) = Some ''ponds:read''"
| "answer_scope (OpenDevices _) = Some ''devices:read''"
| "answer_scope (OpenDevice _) = Some ''devices:read''"
| "answer_scope (OpenAlarms _) = Some ''alarms:read''"
| "answer_scope _ = None"

lemma find_allowed: "list_all P xs \<Longrightarrow> find Q xs = Some x \<Longrightarrow> P x"
  by (auto simp: find_Some_iff list_all_length)

lemma need_scope_only: "shows_only P D A a \<Longrightarrow> shows_only P D A (need_scope p n a)"
  by (simp add: need_scope_def)

lemma or_failure_only: "(\<And>x. r = Inr x \<Longrightarrow> shows_only P D A (k x)) \<Longrightarrow> shows_only P D A (or_failure r k)"
  by (cases r) (simp_all add: or_failure_def)

lemma split_only:
  "(\<And>i. shows_only P D A (k i)) \<Longrightarrow>
    shows_only P D A (case ParseInt64 v of (i, fine) \<Rightarrow> if \<not> fine \<or> i < 1 then OpenError 400 e else k i)"
  by (simp split: prod.split)

lemma need_scope_granted:
  "answer_scope (need_scope p n a) = Some sc \<Longrightarrow> (\<And>sc. answer_scope a = Some sc \<Longrightarrow> sc = n) \<Longrightarrow> hasScope p sc"
  by (auto simp: need_scope_def split: if_split_asm)

lemma granted:
  "answer_scope (listPonds p r s) = Some sc \<Longrightarrow> hasScope p sc"
  "answer_scope (getPond p r param s) = Some sc \<Longrightarrow> hasScope p sc"
  "answer_scope (listDevices p r s) = Some sc \<Longrightarrow> hasScope p sc"
  "answer_scope (getDevice p r param s) = Some sc \<Longrightarrow> hasScope p sc"
  "answer_scope (listAlarms p r s) = Some sc \<Longrightarrow> hasScope p sc"
  unfolding listPonds_def getPond_def listDevices_def getDevice_def listAlarms_def
  by (erule need_scope_granted; simp add: or_failure_def split: sum.split_asm prod.split_asm option.split_asm if_split_asm)+

subsection \<open>Contract\<close>

locale open_provider =
  fixes auth :: "OpenRequest \<Rightarrow> time \<Rightarrow> 's \<Rightarrow> (admin_error, OpenPrincipal) result \<times> 's"
    and res :: "'s open_resources"
    and genuine :: "OpenRequest \<Rightarrow> time \<Rightarrow> 's \<Rightarrow> OpenPrincipal \<Rightarrow> bool"
    and may_pond :: "OpenPrincipal \<Rightarrow> 's \<Rightarrow> core_pond \<Rightarrow> bool"
    and may_device :: "OpenPrincipal \<Rightarrow> 's \<Rightarrow> core_device \<Rightarrow> bool"
    and may_alarm :: "OpenPrincipal \<Rightarrow> 's \<Rightarrow> Alarm \<Rightarrow> bool"
  assumes auth_genuine: "auth q now s = (Inr p, s') \<Longrightarrow> genuine q now s p"
    and ponds_allowed: "or_ponds res (op_TenantID p) (op_Resources p) s = Inr ps \<Longrightarrow> list_all (may_pond p s) ps"
    and devices_allowed: "or_devices res (op_TenantID p) (op_Resources p) s = Inr ds \<Longrightarrow> list_all (may_device p s) ds"
    and alarms_allowed: "or_alarms res (op_TenantID p) (op_Resources p) s = Inr als \<Longrightarrow> list_all (may_alarm p s) als"
begin

lemma shown_only [simp]:
  "shows_only (may_pond p s) (may_device p s) (may_alarm p s) (listPonds p res s)"
  "shows_only (may_pond p s) (may_device p s) (may_alarm p s) (getPond p res param s)"
  "shows_only (may_pond p s) (may_device p s) (may_alarm p s) (listDevices p res s)"
  "shows_only (may_pond p s) (may_device p s) (may_alarm p s) (getDevice p res param s)"
  "shows_only (may_pond p s) (may_device p s) (may_alarm p s) (listAlarms p res s)"
  unfolding listPonds_def getPond_def listDevices_def getDevice_def listAlarms_def
  by (rule need_scope_only, (rule split_only)?, (rule or_failure_only)?,
      (auto simp: find_allowed dest: ponds_allowed devices_allowed alarms_allowed split: option.split)[1])+

lemma served_sound:
  assumes "serve_open \<lparr>od_Auth = Some auth, od_Resources = Some res\<rparr> route h now s = (answer, s')"
    and "answer_scope answer = Some sc"
  shows "\<exists>body p. ho_Body h = OpenBody body \<and> genuine (open_request_of h body) now s p \<and> hasScope p sc \<and>
    shows_only (may_pond p s') (may_device p s') (may_alarm p s') answer"
proof -
  have no: "answer_scope (open_failure err) \<noteq> Some sc" for err
    by (auto simp: open_failure_def split: admin_error.split)
  obtain body p where b: "ho_Body h = OpenBody body" "auth (open_request_of h body) now s = (Inr p, s')"
    and a: "answer = (case route of
              RoutePonds \<Rightarrow> listPonds p res s'
            | RoutePond param \<Rightarrow> getPond p res param s'
            | RouteDevices \<Rightarrow> listDevices p res s'
            | RouteDevice param \<Rightarrow> getDevice p res param s'
            | RouteAlarms \<Rightarrow> listAlarms p res s')"
    using assms no
    by (auto simp: serve_open_def open_authenticate_def split: open_body.split_asm prod.split_asm sum.split_asm)
  have "shows_only (may_pond p s') (may_device p s') (may_alarm p s') answer"
    unfolding a by (cases route) simp_all
  moreover have "hasScope p sc"
    using assms(2) unfolding a by (cases route) (simp_all add: granted)
  ultimately show ?thesis using b auth_genuine[OF b(2)] by blast
qed

end

end
