(* ===== verification/Open_Facts.thy ===== *)
theory Open_Facts
  imports Open_Http
begin

text \<open>
  The canonical form and the signature of an open request, what an accepted request rests on, and the
  interpretation of the contract of \<open>Open_Http\<close> on the core.
\<close>

subsection \<open>Canonical queries\<close>

lemma keepUnreserved_plain: "\<not> keepUnreserved CHR ''%''" "\<not> keepUnreserved CHR ''&''" "\<not> keepUnreserved CHR ''=''" "\<not> keepUnreserved CHR 0x0A"
  by (simp_all add: keepUnreserved_def isLowerAZ_def isUpperAZ_def isDigit_def isDigitByte_def)

lemma rfc3986_inverse: "pathUnescape (rfc3986 s) = Some s"
  by (simp add: rfc3986_def pathUnescape_escapeWith keepUnreserved_plain)

lemma rfc3986_chars: "c \<in> set (rfc3986 s) \<Longrightarrow> keepUnreserved c \<or> c = CHR ''%''"
proof -
  have h: "keepUnreserved (hexUpper n)" if "n < 16" for n
  proof -
    have "\<forall>n \<in> set [0..<16]. keepUnreserved (hexUpper n)" by code_simp
    then show ?thesis using that by simp
  qed
  have "(of_char d :: nat) div 16 < 16" "(of_char d :: nat) mod 16 < 16" for d :: char
    using nat_of_char_less_256[of d] by linarith+
  then show "c \<in> set (rfc3986 s) \<Longrightarrow> keepUnreserved c \<or> c = CHR ''%''"
    by (auto simp: rfc3986_def escapeWith_def percentByte_def h split: if_split_asm)
qed

lemma rfc3986_free [simp]: "CHR ''&'' \<notin> set (rfc3986 s)" "CHR ''='' \<notin> set (rfc3986 s)" "CHR 0x0A \<notin> set (rfc3986 s)"
  using rfc3986_chars keepUnreserved_plain by fastforce+

lemma rfc3986_inj: "rfc3986 s = rfc3986 t \<longleftrightarrow> s = t"
  using rfc3986_inverse by (metis option.inject)

lemma pair_text_inj:
  assumes "CHR ''='' \<notin> set (fst p)" and "CHR ''='' \<notin> set (fst q)"
  shows "pair_text p = pair_text q \<longleftrightarrow> p = q"
  using assms splitN2_append[of "CHR ''=''" "fst p" "snd p"] splitN2_append[of "CHR ''=''" "fst q" "snd q"]
  by (metis Pair_inject option.inject pair_text_def prod.collapse)

definition escaped :: "string \<times> string \<Rightarrow> string \<times> string" where
  "escaped p = (rfc3986 (fst p), rfc3986 (snd p))"

lemma escaped_alt: "(\<lambda>(k, v). (rfc3986 k, rfc3986 v)) = escaped"
  by (auto simp: escaped_def fun_eq_iff)

lemma map_pair_text_inj:
  assumes "map pair_text ps = map pair_text qs" and "\<forall>p \<in> set ps. CHR ''='' \<notin> set (fst p)" and "\<forall>p \<in> set qs. CHR ''='' \<notin> set (fst p)"
  shows "ps = qs"
  using assms by (induction ps arbitrary: qs) (auto simp: pair_text_inj)

lemma joined_inj:
  assumes j: "joinWith [c] xs = joinWith [c] ys" and "\<forall>x \<in> set xs. c \<notin> set x \<and> x \<noteq> []" "\<forall>y \<in> set ys. c \<notin> set y \<and> y \<noteq> []"
  shows "xs = ys"
proof -
  have ne: "joinWith [c] zs \<noteq> []" if "zs \<noteq> []" "\<forall>z \<in> set zs. z \<noteq> []" for zs
    using that by (cases zs; cases "tl zs") (auto simp: joinWith_cons)
  show ?thesis
  proof (cases "xs = [] \<or> ys = []")
    case True
    then show ?thesis using j ne[of xs] ne[of ys] assms(2,3) by (metis joinWith.simps(1))
  next
    case False
    then show ?thesis using split_join[of xs c] split_join[of ys c] assms by metis
  qed
qed

lemma sort_escaped: "sort (map escaped ps) = sort (map escaped qs) \<longleftrightarrow> mset ps = mset qs"
proof
  assume "sort (map escaped ps) = sort (map escaped qs)"
  then have "mset (sort (map escaped ps)) = mset (sort (map escaped qs))" by simp
  then have "image_mset escaped (mset ps) = image_mset escaped (mset qs)" by simp
  moreover have "inj escaped" by (rule injI) (auto simp: escaped_def rfc3986_inj prod_eq_iff)
  ultimately show "mset ps = mset qs" by (metis multiset.inj_map injD)
next
  assume "mset ps = mset qs"
  then have "mset (map escaped ps) = mset (map escaped qs)" by simp
  then show "sort (map escaped ps) = sort (map escaped qs)"
    by (intro properties_for_sort) simp_all
qed

lemma same_parameters:
  assumes "CanonicalOpenQuery raw = Some c" and "CanonicalOpenQuery raw' = Some c'"
    and "query_pairs raw = Some ps" and "query_pairs raw' = Some qs"
  shows "c = c' \<longleftrightarrow> mset ps = mset qs"
proof -
  have c: "c = joinWith ''&'' (map pair_text (sort (map escaped ps)))" "c' = joinWith ''&'' (map pair_text (sort (map escaped qs)))"
    using assms by (auto simp: CanonicalOpenQuery_def escaped_alt)
  have plain: "\<forall>x \<in> set (map pair_text (sort (map escaped rs))). CHR ''&'' \<notin> set x \<and> x \<noteq> []"
    "\<forall>p \<in> set (sort (map escaped rs)). CHR ''='' \<notin> set (fst p)" for rs
    by (auto simp: pair_text_def escaped_def)
  have "c = c' \<longleftrightarrow> sort (map escaped ps) = sort (map escaped qs)"
  proof
    assume "c = c'"
    then have "map pair_text (sort (map escaped ps)) = map pair_text (sort (map escaped qs))"
      unfolding c by (rule joined_inj[OF _ plain(1) plain(1)])
    then show "sort (map escaped ps) = sort (map escaped qs)" by (rule map_pair_text_inj[OF _ plain(2) plain(2)])
  qed (simp add: c)
  then show ?thesis unfolding sort_escaped .
qed

text \<open>
  Two queries have the same canonical form exactly when they have the same decoded parameters, each as
  often, in whatever order and with whatever percent-encoding they were written.
\<close>

theorem canonical_query_iff:
  assumes "CanonicalOpenQuery raw = Some c" and "CanonicalOpenQuery raw' = Some c'"
    and "query_pairs raw = Some ps" and "query_pairs raw' = Some qs"
  shows "c = c' \<longleftrightarrow> mset ps = mset qs"
  using assms by (rule same_parameters)

subsection \<open>Signatures\<close>

lemma joinWith_Cons2: "joinWith s (x # y # zs) = x @ s @ joinWith s (y # zs)"
  by (simp add: joinWith_cons)

lemma canonical_query_one_line: "CanonicalOpenQuery raw = Some c \<Longrightarrow> CHR 0x0A \<notin> set c"
proof -
  have "CHR 0x0A \<notin> set (joinWith ''&'' xs)" if "\<forall>x \<in> set xs. CHR 0x0A \<notin> set x" for xs
    using that by (induction xs rule: induct_list012) (auto simp: joinWith_Cons2)
  moreover have "\<forall>x \<in> set (map pair_text (sort (map escaped ps))). CHR 0x0A \<notin> set x" for ps
    by (auto simp: pair_text_def escaped_def)
  ultimately show "CanonicalOpenQuery raw = Some c \<Longrightarrow> CHR 0x0A \<notin> set c"
    unfolding CanonicalOpenQuery_def escaped_alt by auto
qed

lemma toUpper_line: "CHR 0x0A \<in> set (toUpper s) \<longleftrightarrow> CHR 0x0A \<in> set s"
proof -
  have up: "upperChar c \<noteq> CHR 0x0A" if "isLowerAZ c" for c
  proof
    assume "upperChar c = CHR 0x0A"
    then have "(of_char (upperChar c) :: nat) = 10" by simp
    moreover have "(of_char (upperChar c) :: nat) = of_char c - 32"
      using that le_less_trans[OF diff_le_self nat_of_char_less_256[of c], of 32] by (simp add: upperChar_def)
    ultimately show False using that unfolding isLowerAZ_def Let_def by linarith
  qed
  have "upperChar c = CHR 0x0A \<longleftrightarrow> c = CHR 0x0A" for c
    using up[of c] by (cases "isLowerAZ c") (auto simp: upperChar_def isLowerAZ_def)
  then show ?thesis unfolding toUpper_def by (metis (no_types, opaque_lifting) image_iff list.set_map)
qed

lemma hexEncode_length: "length (hexEncode s) = 2 * length s"
  by (induction s) (simp_all add: hexEncode_def)

lemma line_split:
  assumes "a @ CHR 0x0A # r = b @ CHR 0x0A # t" and "CHR 0x0A \<notin> set a" "CHR 0x0A \<notin> set b"
  shows "a = b \<and> r = t"
  using splitN2_append[OF assms(2), of r] splitN2_append[OF assms(3), of t] assms(1) by (metis Pair_inject option.inject)

text \<open>The numbers the code formats have no newline.\<close>

lemma FormatInt_line: "CHR 0x0A \<notin> set (FormatInt n)"
proof -
  have "list_all isDigit (natText k)" for k
    using natText_digits[of k] by (simp add: is_digits_def)
  moreover have "\<not> isDigit CHR 0x0A" by (simp add: isDigit_def)
  ultimately have "CHR 0x0A \<notin> set (natText k)" for k
    unfolding list_all_iff by metis
  then show ?thesis by (simp add: FormatInt_def)
qed

text \<open>
  The text that is signed determines the request: two requests with the same signed text have the same
  method (in upper case), path, query parameters, timestamp and nonce, and bodies with the same hash.
\<close>

theorem signature_binds_request:
  assumes "signed_text e q (oq_Path q) c = signed_text e q' (oq_Path q') c'"
    and "CanonicalOpenQuery (oq_Query q) = Some c" and "CanonicalOpenQuery (oq_Query q') = Some c'"
    and "CHR 0x0A \<notin> set (oq_Method q @ oq_Path q)" and "CHR 0x0A \<notin> set (oq_Method q' @ oq_Path q')"
    and "length (oe_sha256 e (oq_Body q)) = length (oe_sha256 e (oq_Body q'))"
  shows "toUpper (oq_Method q) = toUpper (oq_Method q') \<and> oq_Path q = oq_Path q' \<and>
    map_option mset (query_pairs (oq_Query q)) = map_option mset (query_pairs (oq_Query q')) \<and>
    oq_Timestamp q = oq_Timestamp q' \<and> oq_Nonce q = oq_Nonce q' \<and>
    oe_sha256 e (oq_Body q) = oe_sha256 e (oq_Body q')"
proof -
  have l: "CHR 0x0A \<notin> set c" "CHR 0x0A \<notin> set c'" using assms canonical_query_one_line by auto
  have t: "toUpper (oq_Method q) = toUpper (oq_Method q')" "oq_Path q = oq_Path q'" "c = c'"
      "FormatInt (sint (oq_Timestamp q)) = FormatInt (sint (oq_Timestamp q'))"
      "oq_Nonce q @ CHR 0x0A # hexEncode (oe_sha256 e (oq_Body q)) = oq_Nonce q' @ CHR 0x0A # hexEncode (oe_sha256 e (oq_Body q'))"
    using assms(1,4,5) l by (auto simp: signed_text_def toUpper_line FormatInt_line dest!: line_split)
  have "oq_Nonce q = oq_Nonce q'" "hexEncode (oe_sha256 e (oq_Body q)) = hexEncode (oe_sha256 e (oq_Body q'))"
    using t(5) assms(6) by (simp_all add: append_eq_append_conv hexEncode_length)
  moreover have "oq_Timestamp q = oq_Timestamp q'" 
    using FormatInt_inj[OF t(4)] sint_ge[of "oq_Timestamp q"] sint_lt[of "oq_Timestamp q"]
      sint_ge[of "oq_Timestamp q'"] sint_lt[of "oq_Timestamp q'"] by (simp add: signed_word_eqI)
  moreover have "map_option mset (query_pairs (oq_Query q)) = map_option mset (query_pairs (oq_Query q'))"
  proof -
    obtain ps qs where "query_pairs (oq_Query q) = Some ps" "query_pairs (oq_Query q') = Some qs"
      using assms(2,3) by (auto simp: CanonicalOpenQuery_def)
    then show ?thesis using same_parameters[OF assms(2,3)] t(3) by simp
  qed
  ultimately show ?thesis using t hexDecode_hexEncode by (metis option.inject)
qed

subsection \<open>What an accepted request rests on\<close>

lemma signed_distance:
  fixes a b :: "64 word"
  assumes "sint b \<le> sint a"
  shows "int (unat (a - b)) = sint a - sint b"
proof -
  have "a - b = word_of_int (sint a - sint b)" by simp
  then have "uint (a - b) = (sint a - sint b) mod 2 ^ 64" using uint_word_of_int[of "sint a - sint b", where 'a=64] by simp
  moreover have "sint a - sint b < 2 ^ 64" using sint_lt[of a] sint_ge[of b] by simp
  ultimately show ?thesis using assms by simp
qed

lemma clock_delta_le:
  "\<not> clock_delta ts now > 300 \<longleftrightarrow> \<bar>sint ts - sint (unixSeconds now)\<bar> \<le> 300"
proof -
  have w: "\<not> d > 300 \<longleftrightarrow> int (unat d) \<le> 300" for d :: "64 word"
  proof -
    have "unat (300 :: 64 word) = 300" by simp
    then show ?thesis unfolding word_less_nat_alt by linarith
  qed
  show ?thesis
    unfolding w clock_delta_def using signed_distance[of ts "unixSeconds now"] signed_distance[of "unixSeconds now" ts]
    by auto
qed

lemma unixSeconds_sint:
  assumes "\<bar>now\<bar> < 2 ^ 62 * second"
  shows "sint (unixSeconds now) = now div second - 62135596800"
proof -
  have "- (2 ^ 62) \<le> now div second" "now div second < 2 ^ 62"
    using assms by (simp_all add: second_def)
  then have "signed_take_bit 63 (now div second - 62135596800) = now div second - 62135596800"
    by (intro signed_take_bit_int_eq_self) simp_all
  then show ?thesis using sint_sbintrunc'[of "now div second - 62135596800", where 'a = 64] unfolding unixSeconds_def by simp
qed

lemma upper_not_lower: "isUpperAZ c \<Longrightarrow> lowerChar c \<noteq> c"
proof
  assume u: "isUpperAZ c" and "lowerChar c = c"
  then have "(of_char c :: nat) = of_char (lowerChar c)" by simp
  also have "\<dots> = of_char c + 32" using u by (simp add: lowerChar_def isUpperAZ_def Let_def)
  finally show False by simp
qed

lemma lower_hex: "hexVal c = Some n \<Longrightarrow> lowerChar c = c \<Longrightarrow> c = hexDigit n \<and> n < 16"
  using upper_not_lower[of c] by (auto simp: hexVal_def hexDigit_def Let_def isUpperAZ_def split: if_split_asm)

lemma lower_hexDecode: "hexDecode s = Some b \<Longrightarrow> toLower s = s \<Longrightarrow> s = hexEncode b"
proof (induction s arbitrary: b rule: hexDecode.induct)
  case (3 x y s)
  then obtain m n r where d: "hexVal x = Some m" "hexVal y = Some n" "hexDecode s = Some r" "b = char_of (16 * m + n) # r"
    by (auto split: option.split_asm)
  have l: "lowerChar x = x" "lowerChar y = y" "toLower s = s" using "3.prems"(2) by (simp_all add: toLower_def)
  have "s = hexEncode r" using 3 d l by blast
  moreover have "(of_char (char_of (16 * m + n) :: char) :: nat) = 16 * m + n"
    using lower_hex[OF d(1) l(1)] lower_hex[OF d(2) l(2)] by simp
  ultimately show ?case using lower_hex[OF d(1) l(1)] lower_hex[OF d(2) l(2)] by (simp add: hexEncode_def d(4))
qed (simp_all add: hexEncode_def)

lemma observe_open_tables: "observeLicenseClock w x now db = (r, db') \<Longrightarrow>
    ab_keys db' = ab_keys db \<and> ab_nonces db' = ab_nonces db \<and> ab_core db' = ab_core db"
  by (auto simp: observeLicenseClock_def split: if_split_asm)

lemma RequireLicenseFeature_keeps: "RequireLicenseFeature w c x seen now f db = (r, db') \<Longrightarrow>
    ab_keys db' = ab_keys db \<and> ab_nonces db' = ab_nonces db \<and> ab_core db' = ab_core db"
  by (auto simp: RequireLicenseFeature_def LicenseStatus_def dest!: observe_open_tables
      split: if_split_asm prod.split_asm sum.split_asm option.split_asm)

text \<open>The key that admits a request, and the whole of what a request needs.\<close>

definition admits :: "open_env \<Rightarrow> core_tx \<Rightarrow> OpenRequest \<Rightarrow> time \<Rightarrow> admin_db \<Rightarrow> api_key \<Rightarrow> bool" where
  "admits e x q now db k \<longleftrightarrow> k \<in> set (ab_keys db) \<and> ak_KeyID k = oq_KeyID q \<and> ak_Revoked k = None \<and>
     tenant_active (ab_core db) (ak_Tenant k) \<and>
     \<bar>sint (oq_Timestamp q) - sint (unixSeconds now)\<bar> \<le> 300 \<and>
     CanonicalOpenPath (oq_Path q) = Some (oq_Path q) \<and>
     (\<exists>secret query. decryptAPISecret e (ak_Encrypted k) (ak_SecretNonce k) = Some secret \<and>
        CanonicalOpenQuery (oq_Query q) = Some query \<and>
        oq_Signature q = hexEncode (oe_hmac e secret (signed_text e q (oq_Path q) query))) \<and>
     (\<forall>r \<in> set (ab_nonces db). nr_key r = oq_KeyID q \<and> nr_hash r = oe_sha256 e (oq_Nonce q) \<longrightarrow> nr_expires r < cx_now x)"

definition open_genuine :: "open_env \<Rightarrow> core_tx \<Rightarrow> time \<Rightarrow> time \<Rightarrow> core_tx \<Rightarrow> OpenRequest \<Rightarrow> time \<Rightarrow> admin_db \<Rightarrow> OpenPrincipal \<Rightarrow> bool" where
  "open_genuine e xo seen checked x q now db p \<longleftrightarrow>
     fst (RequireLicenseFeature (oe_setup e) no_actor xo seen checked ''openapi'' db) = Inr () \<and>
     (\<exists>k. admits e x q now db k \<and> op_KeyID p = ak_KeyID k \<and> op_TenantID p = ak_Tenant k \<and> op_Scopes p = ak_Scopes k \<and>
        op_Resources p = key_scope k)"

lemma CanonicalOpenPath_same: "CanonicalOpenPath path = Some p \<Longrightarrow> p = path"
  by (auto simp: CanonicalOpenPath_def split: if_split_asm option.split_asm)

lemma open_shape_Inr:
  assumes "open_shape e q now = Inr (path, query, sig)"
  shows "path = oq_Path q \<and> CanonicalOpenPath (oq_Path q) = Some (oq_Path q) \<and> CanonicalOpenQuery (oq_Query q) = Some query \<and>
    \<bar>sint (oq_Timestamp q) - sint (unixSeconds now)\<bar> \<le> 300 \<and> oq_Signature q = hexEncode sig"
  using assms CanonicalOpenPath_same lower_hexDecode
  unfolding open_shape_def clock_delta_le by (auto simp: iolink_simps)

lemma remember_nonce_Inr:
  assumes "remember_nonce e x keyID nonce db = Inr db'"
  shows "db' = db\<lparr>ab_nonces := filter (\<lambda>r. \<not> nr_expires r < cx_now x) (ab_nonces db) @
      [\<lparr>nr_key = keyID, nr_hash = oe_sha256 e nonce, nr_expires = cx_now x + 10 * minute\<rparr>]\<rparr> \<and>
    (\<forall>r \<in> set (ab_nonces db). nr_key r = keyID \<and> nr_hash r = oe_sha256 e nonce \<longrightarrow> nr_expires r < cx_now x)"
  using assms by (auto simp: remember_nonce_def iolink_simps Let_def list_ex_iff)

lemma open_tx_Inr:
  assumes "open_tx e x q now path query sig db = Inr (Inr p, db')"
  shows "\<exists>k secret db1. k \<in> set (ab_keys db) \<and> ak_KeyID k = oq_KeyID q \<and> ak_Revoked k = None \<and>
    tenant_active (ab_core db) (ak_Tenant k) \<and> decryptAPISecret e (ak_Encrypted k) (ak_SecretNonce k) = Some secret \<and>
    oe_hmac e secret (signed_text e q path query) = sig \<and> remember_nonce e x (oq_KeyID q) (oq_Nonce q) db = Inr db1 \<and>
    p = \<lparr>op_KeyID = oq_KeyID q, op_TenantID = ak_Tenant k, op_Scopes = ak_Scopes k, op_Resources = key_scope k\<rparr> \<and>
    (\<exists>tokens. db' = put_rate (oq_KeyID q) tokens (ce_time (lx_core (oe_setup e)) now) db1)"
proof -
  obtain k secret db1 where k: "find (\<lambda>k. ak_KeyID k = oq_KeyID q \<and> ak_Revoked k = None) (ab_keys db) = Some k"
      "tenant_active (ab_core db) (ak_Tenant k)" "decryptAPISecret e (ak_Encrypted k) (ak_SecretNonce k) = Some secret"
      "oe_hmac e secret (signed_text e q path query) = sig" "remember_nonce e x (oq_KeyID q) (oq_Nonce q) db = Inr db1"
    and r: "(case consumeOpenRate (ak_Tokens k) (ak_Refill k) now (oe_perMinute e) (oe_burst e) of (remaining, retryAfter) \<Rightarrow>
         if retryAfter > 0
         then require (\<not> cx_fails x 97) AStore (Inr (Inl (ARateLimited (nat retryAfter)), db1))
         else require (\<not> cx_fails x 96 \<and> \<not> cx_fails x 97) AStore
           (Inr (Inr \<lparr>op_KeyID = oq_KeyID q, op_TenantID = ak_Tenant k, op_Scopes = ak_Scopes k,
                   op_Resources = key_scope k\<rparr>, put_rate (oq_KeyID q) remaining (ce_time (lx_core (oe_setup e)) now) db1)))
       = Inr (Inr p, db')"
    using assms unfolding open_tx_def iolink_simps by blast
  moreover have "k \<in> set (ab_keys db) \<and> ak_KeyID k = oq_KeyID q \<and> ak_Revoked k = None"
    using k(1) by (metis (mono_tags, lifting) find_Some_iff nth_mem)
  moreover obtain remaining retryAfter where "consumeOpenRate (ak_Tokens k) (ak_Refill k) now (oe_perMinute e) (oe_burst e) = (remaining, retryAfter)"
    by (rule prod.exhaust)
  ultimately show ?thesis by (auto simp: iolink_simps split: if_split_asm)
qed

lemma AuthenticateOpen_Inr:
  assumes "AuthenticateOpen e xo seen checked x q now db = (Inr p, db')"
  shows "open_genuine e xo seen checked x q now db p"
proof -
  obtain db1 path query sig where l: "RequireLicenseFeature (oe_setup e) no_actor xo seen checked ''openapi'' db = (Inr (), db1)"
    and s: "open_shape e q now = Inr (path, query, sig)" and t: "open_tx e x q now path query sig db1 = Inr (Inr p, db')"
    using assms by (auto simp: AuthenticateOpen_def iolink_simps split: prod.split_asm sum.split_asm)
  have k: "ab_keys db1 = ab_keys db" "ab_nonces db1 = ab_nonces db" "ab_core db1 = ab_core db"
    using RequireLicenseFeature_keeps[OF l] by simp_all
  show ?thesis
    using open_tx_Inr[OF t] open_shape_Inr[OF s] remember_nonce_Inr l k
    unfolding open_genuine_def admits_def by fastforce
qed

subsection \<open>What is shown\<close>

text \<open>A row is shown when it is of the tenant of the key and within its resources.\<close>

definition pond_in_scope :: "int \<Rightarrow> ResourceScope \<Rightarrow> core_db \<Rightarrow> int \<Rightarrow> bool" where
  "pond_in_scope t r db pond \<longleftrightarrow> (rs_PondIDs r = [] \<or> pond \<in> set (rs_PondIDs r)) \<and>
     (\<exists>f \<in> set (farm_of_pond db pond). fr_tenant f = t \<and> (rs_FarmIDs r = [] \<or> fr_id f \<in> set (rs_FarmIDs r)))"

definition shown_pond :: "OpenPrincipal \<Rightarrow> admin_db \<Rightarrow> core_pond \<Rightarrow> bool" where
  "shown_pond p db row \<longleftrightarrow> row \<in> set (cb_ponds (ab_core db)) \<and>
     pond_in_scope (op_TenantID p) (op_Resources p) (ab_core db) (po_id row) \<and>
     (rs_DeviceNos (op_Resources p) = [] \<or> (\<exists>d \<in> set (cb_devices (ab_core db)). de_pond d = po_id row \<and>
        de_no d \<in> set (rs_DeviceNos (op_Resources p)) \<and> \<not> de_disabled d))"

definition shown_device :: "OpenPrincipal \<Rightarrow> admin_db \<Rightarrow> core_device \<Rightarrow> bool" where
  "shown_device p db row \<longleftrightarrow> row \<in> set (cb_devices (ab_core db)) \<and> \<not> de_disabled row \<and>
     pond_in_scope (op_TenantID p) (op_Resources p) (ab_core db) (de_pond row) \<and>
     (rs_DeviceNos (op_Resources p) = [] \<or> de_no row \<in> set (rs_DeviceNos (op_Resources p)))"

definition shown_alarm :: "OpenPrincipal \<Rightarrow> admin_db \<Rightarrow> Alarm \<Rightarrow> bool" where
  "shown_alarm p db row \<longleftrightarrow> row \<in> set (cb_alarms (ab_core db)) \<and>
     pond_in_scope (op_TenantID p) (op_Resources p) (ab_core db) (al_PondID row) \<and>
     (rs_DeviceNos (op_Resources p) = [] \<or> al_DeviceNo row \<in> set (rs_DeviceNos (op_Resources p)))"

lemma open_pond_scope: "open_pond db t r pond \<noteq> [] \<Longrightarrow> pond_in_scope t r db pond"
  by (auto simp: open_pond_def pond_in_scope_def filter_empty_conv split: if_split_asm)

definition core_resources :: "core_tx \<Rightarrow> admin_db open_resources" where
  "core_resources x = \<lparr>or_ponds = ListOpenPonds x, or_devices = ListOpenDevices x, or_alarms = ListOpenAlarms x\<rparr>"

interpretation core: open_provider "AuthenticateOpen e xo seen checked x" "core_resources xr"
  "open_genuine e xo seen checked x" shown_pond shown_device shown_alarm for e xo seen checked x xr
proof unfold_locales
  show "open_genuine e xo seen checked x q now s p" if "AuthenticateOpen e xo seen checked x q now s = (Inr p, s')" for q now s p s'
    by (rule AuthenticateOpen_Inr[OF that])
  show "list_all (shown_pond p s) ps" if "or_ponds (core_resources xr) (op_TenantID p) (op_Resources p) s = Inr ps" for p s ps
    using that by (auto simp: core_resources_def ListOpenPonds_def iolink_simps list_all_iff shown_pond_def open_pond_scope list_ex_iff)
  show "list_all (shown_device p s) ds" if "or_devices (core_resources xr) (op_TenantID p) (op_Resources p) s = Inr ds" for p s ds
    using that by (auto simp: core_resources_def ListOpenDevices_def iolink_simps list_all_iff shown_device_def open_pond_scope)
  show "list_all (shown_alarm p s) als" if "or_alarms (core_resources xr) (op_TenantID p) (op_Resources p) s = Inr als" for p s als
    using that by (auto simp: core_resources_def ListOpenAlarms_def iolink_simps list_all_iff shown_alarm_def open_pond_scope dest!: in_set_takeD)
qed

text \<open>
  C39: An answer of the open API with rows is given to a request that is signed by a live key of an active
  tenant, within five minutes of the clock, with a nonce that is not in use, under a license with the open API; the key
  has the scope the rows need, and the rows are of its tenant and within its resources.
\<close>

theorem open_answer_sound:
  assumes "serve_open \<lparr>od_Auth = Some (AuthenticateOpen e xo seen checked x), od_Resources = Some (core_resources xr)\<rparr>
      route h now db = (answer, db')"
    and "answer_scope answer = Some sc"
  shows "\<exists>body p. ho_Body h = OpenBody body \<and> open_genuine e xo seen checked x (open_request_of h body) now db p \<and>
    hasScope p sc \<and> shows_only (shown_pond p db') (shown_device p db') (shown_alarm p db') answer"
  using assms by (rule core.served_sound)

end
