(* ===== verification/Open_Safety.thy ===== *)
theory Open_Safety
  imports Open_Facts
begin

text \<open>
  The open API over its life: requests and the management of keys in any order, between calls that touch
  neither keys nor nonces. A request is accepted again only at the edge of its window, and a key that is
  revoked or rotated stays out.
\<close>

datatype open_call =
    OCRequest core_tx time time core_tx OpenRequest time
  | OCIssue actor_ctx core_tx time time core_tx key_random int string "string list" ResourceScope int
  | OCRevoke actor_ctx core_tx time time core_tx int int string
  | OCRotate actor_ctx core_tx time time core_tx core_tx key_random int int string
  | OCElsewhere "admin_db \<Rightarrow> admin_db"

fun open_step :: "open_admin \<Rightarrow> open_call \<Rightarrow> admin_db \<Rightarrow> admin_db" where
  "open_step a (OCRequest xo seen checked x q now) db = snd (AuthenticateOpen (oa_env a) xo seen checked x q now db)"
| "open_step a (OCIssue c xo seen checked x rnd t name scopes r actor) db =
     snd (IssueAPIKey a c xo seen checked x rnd t name scopes r actor db)"
| "open_step a (OCRevoke c xo seen checked x t actor keyID) db = snd (RevokeAPIKey a c xo seen checked x t actor keyID db)"
| "open_step a (OCRotate c xo seen checked xr x rnd t actor keyID) db =
     snd (RotateAPIKey a c xo seen checked xr x rnd t actor keyID db)"
| "open_step a (OCElsewhere f) db = (f db)\<lparr>ab_keys := ab_keys db, ab_nonces := ab_nonces db\<rparr>"

definition open_run :: "open_admin \<Rightarrow> open_call list \<Rightarrow> admin_db \<Rightarrow> admin_db" where
  "open_run a cs db = fold (open_step a) cs db"

text \<open>The database clocks of the requests of a run.\<close>

definition request_clocks :: "open_call list \<Rightarrow> time list" where
  "request_clocks cs = concat (map (\<lambda>c. case c of OCRequest xo seen checked x q now \<Rightarrow> [cx_now x] | _ \<Rightarrow> []) cs)"

lemma open_run_simps [simp]: "open_run a [] db = db" "open_run a (c # cs) db = open_run a cs (open_step a c db)"
  by (simp_all add: open_run_def)

subsection \<open>What a call does to keys and nonces\<close>

text \<open>A call that ends with an error or a value in the tables after its license check.\<close>

lemma licensed_cases:
  assumes "licensed a c xo seen checked body db = (r, db')"
  obtains db1 where "ab_keys db1 = ab_keys db" "ab_nonces db1 = ab_nonces db" "ab_core db1 = ab_core db"
    "(\<exists>err. r = Inl err) \<and> db' = db1 \<or> (\<exists>v. r = Inr v \<and> body db1 = Inr (v, db'))"
proof -
  obtain lic db1 where l: "RequireLicenseFeature (oe_setup (oa_env a)) c xo seen checked ''openapi'' db = (lic, db1)"
    by (rule prod.exhaust)
  show ?thesis
    using assms l RequireLicenseFeature_keeps[OF l]
    by (intro that[of db1]) (auto simp: licensed_def split: sum.split_asm)
qed

lemma AuthenticateOpen_cases:
  assumes "AuthenticateOpen e xo seen checked x q now db = (r, db')"
  obtains db1 where "ab_keys db1 = ab_keys db" "ab_nonces db1 = ab_nonces db" "ab_core db1 = ab_core db"
    "(\<exists>err. r = Inl err) \<and> db' = db1 \<or>
     (\<exists>path query sig. open_shape e q now = Inr (path, query, sig) \<and> open_tx e x q now path query sig db1 = Inr (r, db'))"
proof -
  obtain lic db1 where l: "RequireLicenseFeature (oe_setup e) no_actor xo seen checked ''openapi'' db = (lic, db1)"
    by (rule prod.exhaust)
  show ?thesis
  proof (cases "after (open_shape e q now) (\<lambda>(path, query, sig). open_tx e x q now path query sig db1)")
    case (Inl err)
    then show ?thesis using assms l RequireLicenseFeature_keeps[OF l]
      by (intro that[of db1]) (auto simp: AuthenticateOpen_def split: sum.split_asm)
  next
    case (Inr out)
    then obtain path query sig where "open_shape e q now = Inr (path, query, sig)" "open_tx e x q now path query sig db1 = Inr out"
      by (auto simp: iolink_simps)
    then show ?thesis using assms l RequireLicenseFeature_keeps[OF l] Inr
      by (intro that[of db1]) (auto simp: AuthenticateOpen_def split: sum.split_asm)
  qed
qed

lemma open_tx_tables:
  assumes "open_tx e x q now path query sig db = Inr (r, db')"
  shows "ab_nonces db' = filter (\<lambda>n. \<not> nr_expires n < cx_now x) (ab_nonces db) @
      [\<lparr>nr_key = oq_KeyID q, nr_hash = oe_sha256 e (oq_Nonce q), nr_expires = cx_now x + 10 * minute\<rparr>]"
    and "map (\<lambda>k. (ak_KeyID k, ak_Revoked k)) (ab_keys db') = map (\<lambda>k. (ak_KeyID k, ak_Revoked k)) (ab_keys db)"
proof -
  obtain k db1 where n: "remember_nonce e x (oq_KeyID q) (oq_Nonce q) db = Inr db1"
    and d: "db' = db1 \<or> (\<exists>tokens. db' = put_rate (oq_KeyID q) tokens (ce_time (lx_core (oe_setup e)) now) db1)"
    using assms unfolding open_tx_def iolink_simps case_prod_beta
    by (auto simp: iolink_simps split: if_split_asm)
  show "ab_nonces db' = filter (\<lambda>n. \<not> nr_expires n < cx_now x) (ab_nonces db) @
      [\<lparr>nr_key = oq_KeyID q, nr_hash = oe_sha256 e (oq_Nonce q), nr_expires = cx_now x + 10 * minute\<rparr>]"
    using remember_nonce_Inr[OF n] d by (auto simp: put_rate_def)
  show "map (\<lambda>k. (ak_KeyID k, ak_Revoked k)) (ab_keys db') = map (\<lambda>k. (ak_KeyID k, ak_Revoked k)) (ab_keys db)"
    using remember_nonce_Inr[OF n] d by (auto simp: put_rate_def)
qed

lemma request_tables:
  assumes "AuthenticateOpen e xo seen checked x q now db = (r, db')"
  shows "ab_nonces db' = ab_nonces db \<or>
      ab_nonces db' = filter (\<lambda>n. \<not> nr_expires n < cx_now x) (ab_nonces db) @
        [\<lparr>nr_key = oq_KeyID q, nr_hash = oe_sha256 e (oq_Nonce q), nr_expires = cx_now x + 10 * minute\<rparr>]"
    and "map (\<lambda>k. (ak_KeyID k, ak_Revoked k)) (ab_keys db') = map (\<lambda>k. (ak_KeyID k, ak_Revoked k)) (ab_keys db)"
proof -
  obtain db1 where d: "ab_keys db1 = ab_keys db" "ab_nonces db1 = ab_nonces db"
    and c: "db' = db1 \<or> (\<exists>path query sig. open_tx e x q now path query sig db1 = Inr (r, db'))"
    by (rule AuthenticateOpen_cases[OF assms]) blast
  show "ab_nonces db' = ab_nonces db \<or>
      ab_nonces db' = filter (\<lambda>n. \<not> nr_expires n < cx_now x) (ab_nonces db) @
        [\<lparr>nr_key = oq_KeyID q, nr_hash = oe_sha256 e (oq_Nonce q), nr_expires = cx_now x + 10 * minute\<rparr>]"
    using c open_tx_tables(1) unfolding d(2)[symmetric] by blast
  show "map (\<lambda>k. (ak_KeyID k, ak_Revoked k)) (ab_keys db') = map (\<lambda>k. (ak_KeyID k, ak_Revoked k)) (ab_keys db)"
    using c open_tx_tables(2) unfolding d(1)[symmetric] by blast
qed

lemma accepted_leaves_nonce:
  assumes "AuthenticateOpen e xo seen checked x q now db = (Inr p, db')"
  shows "\<lparr>nr_key = oq_KeyID q, nr_hash = oe_sha256 e (oq_Nonce q), nr_expires = cx_now x + 10 * minute\<rparr> \<in> set (ab_nonces db')"
  using AuthenticateOpen_cases[OF assms] open_tx_tables(1) by (metis Inl_Inr_False in_set_conv_decomp)

lemma revokeAPIKey_Inr:
  assumes "revokeAPIKey a c x t actor keyID db = Inr (u, db')"
  shows "ab_nonces db' = ab_nonces db"
    and "ab_keys db' = ab_keys (revoke_where (\<lambda>k. ak_KeyID k = keyID \<and> ak_Tenant k = t) (cx_now x) db)"
    and "\<exists>k \<in> set (ab_keys db). ak_KeyID k = keyID \<and> ak_Tenant k = t"
proof -
  have d: "db' = add_audit ''api_key.revoked'' (Some t) ''api_key'' keyID (Some actor)
      (revoke_where (\<lambda>k. ak_KeyID k = keyID \<and> ak_Tenant k = t) (cx_now x) db)"
    and l: "length (filter (\<lambda>k. ak_KeyID k = keyID \<and> ak_Tenant k = t) (ab_keys db)) = 1"
    using assms by (auto simp: revokeAPIKey_def iolink_simps Let_def)
  show "ab_nonces db' = ab_nonces db"
    and "ab_keys db' = ab_keys (revoke_where (\<lambda>k. ak_KeyID k = keyID \<and> ak_Tenant k = t) (cx_now x) db)"
    by (simp_all add: d add_audit_def revoke_where_def)
  show "\<exists>k \<in> set (ab_keys db). ak_KeyID k = keyID \<and> ak_Tenant k = t"
    using l by (metis (mono_tags, lifting) One_nat_def filter_empty_conv list.size(3) nat.distinct(1))
qed

lemma insert_key_Inr:
  assumes "insert_key x n act actor k db = Inr db'"
  shows "ab_nonces db' = ab_nonces db \<and> ab_keys db' = ab_keys db @ [k] \<and> ak_KeyID k \<notin> ak_KeyID ` set (ab_keys db) \<and>
    ab_core db' = ab_core db"
  using assms by (auto simp: insert_key_def iolink_simps add_audit_def list_ex_iff)

lemma new_key_Inr:
  assumes "new_key e x rnd t name scopes r actor from = Inr (k, secret)"
  shows "ak_Revoked k = None \<and> ak_Tenant k = t \<and> ak_Name k = name \<and> ak_Scopes k = scopes \<and> key_scope k = r \<and>
    ak_Tokens k = of_int (oe_burst e) \<and> kr_secret rnd = Some secret \<and> 32 \<le> length (oe_root e) \<and>
    ak_Encrypted k = oe_seal e (secret_key e) (ak_SecretNonce k) secret"
  using assms by (auto simp: new_key_def encryptAPISecret_def iolink_simps key_scope_def)

lemma issue_tx_Inr:
  assumes "issue_tx a c x rnd t name scopes r actor db = Inr ((kv, code), db')"
  shows "\<exists>k secret. new_key (oa_env a) x rnd t (trimSpace name) scopes r actor None = Inr (k, secret) \<and>
    kv = key_view k \<and> code = b64url (codes secret) \<and> validateAPIKeyInput name scopes r \<and>
    authorizeAPIKeyAdmin a c x t actor db = Inr () \<and> validateAPIKeyResourceOwnership x 91 t r (ab_core db) = Inr () \<and>
    insert_key x 92 ''api_key.issued'' actor k db = Inr db'"
  using assms unfolding issue_tx_def iolink_simps case_prod_beta by auto

lemma marked_keys: "ak_KeyID ` set (ab_keys (mark_revoked keyID now db)) = ak_KeyID ` set (ab_keys db)"
proof -
  have "map ak_KeyID (ab_keys (mark_revoked keyID now db)) = map ak_KeyID (ab_keys db)" by (simp add: mark_revoked_def)
  then show ?thesis by (metis list.set_map)
qed

lemma rotate_tx_Inr:
  assumes "rotate_tx a c x rnd t actor keyID db = Inr (out, db')"
  shows "\<exists>k. ab_nonces db' = ab_nonces db \<and> ak_KeyID k \<notin> ak_KeyID ` set (ab_keys db) \<and>
    ab_keys db' = ab_keys (mark_revoked keyID (cx_now x) db) @ [k] \<and> (\<exists>old \<in> set (ab_keys db). ak_KeyID old = keyID)"
proof -
  obtain old k secret where f: "find (\<lambda>k. ak_KeyID k = keyID \<and> ak_Tenant k = t \<and> ak_Revoked k = None) (ab_keys db) = Some old"
    and i: "insert_key x 94 ''api_key.rotated'' actor k (mark_revoked keyID (cx_now x) db) = Inr db'"
    using assms unfolding rotate_tx_def iolink_simps case_prod_beta by auto
  have "old \<in> set (ab_keys db) \<and> ak_KeyID old = keyID"
    using f by (metis (mono_tags, lifting) find_Some_iff nth_mem)
  moreover have "ab_nonces (mark_revoked keyID (cx_now x) db) = ab_nonces db" by (simp add: mark_revoked_def)
  ultimately show ?thesis using insert_key_Inr[OF i] unfolding marked_keys by (intro exI[of _ k] conjI bexI[of _ old]) simp_all
qed

subsection \<open>Replay\<close>

lemma issue_tables:
  assumes "IssueAPIKey a c xo seen checked x rnd t name scopes rs actor db = (res, db')"
  shows "ab_nonces db' = ab_nonces db \<and> (ab_keys db' = ab_keys db \<or>
    (\<exists>k. ab_keys db' = ab_keys db @ [k] \<and> ak_KeyID k \<notin> ak_KeyID ` set (ab_keys db)))"
  using assms unfolding IssueAPIKey_def
proof (rule licensed_cases)
  fix db1 assume e: "ab_keys db1 = ab_keys db" "ab_nonces db1 = ab_nonces db"
    and "(\<exists>err. res = Inl err) \<and> db' = db1 \<or> (\<exists>v. res = Inr v \<and> issue_tx a c x rnd t name scopes rs actor db1 = Inr (v, db'))"
  then consider "db' = db1" | kv code where "issue_tx a c x rnd t name scopes rs actor db1 = Inr ((kv, code), db')" by auto
  then show ?thesis
  proof cases
    case 2
    then obtain k where "insert_key x 92 ''api_key.issued'' actor k db1 = Inr db'" using issue_tx_Inr by blast
    then show ?thesis using insert_key_Inr e by metis
  qed (use e in simp)
qed

lemma revoke_tables:
  assumes "RevokeAPIKey a c xo seen checked x t actor keyID db = (res, db')"
  shows "ab_nonces db' = ab_nonces db \<and> (ab_keys db' = ab_keys db \<or>
    ab_keys db' = ab_keys (revoke_where (\<lambda>k. ak_KeyID k = keyID \<and> ak_Tenant k = t) (cx_now x) db))"
    and "res = Inr () \<Longrightarrow> (\<exists>k \<in> set (ab_keys db). ak_KeyID k = keyID \<and> ak_Tenant k = t) \<and>
      ab_keys db' = ab_keys (revoke_where (\<lambda>k. ak_KeyID k = keyID \<and> ak_Tenant k = t) (cx_now x) db)"
proof -
  obtain db1 where e: "ab_keys db1 = ab_keys db" "ab_nonces db1 = ab_nonces db"
    and o: "(\<exists>err. res = Inl err) \<and> db' = db1 \<or> (\<exists>v. res = Inr v \<and> revokeAPIKey a c x t actor keyID db1 = Inr (v, db'))"
    by (rule licensed_cases[OF assms[unfolded RevokeAPIKey_def]]) blast
  have k: "ab_keys (revoke_where P now db1) = ab_keys (revoke_where P now db)" for P now
    by (simp add: revoke_where_def e)
  consider "\<exists>err. res = Inl err" "db' = db1" | v where "revokeAPIKey a c x t actor keyID db1 = Inr (v, db')"
    using o by blast
  note cases = this
  show "ab_nonces db' = ab_nonces db \<and> (ab_keys db' = ab_keys db \<or>
    ab_keys db' = ab_keys (revoke_where (\<lambda>k. ak_KeyID k = keyID \<and> ak_Tenant k = t) (cx_now x) db))"
    using cases
  proof cases
    case 2
    then show ?thesis using revokeAPIKey_Inr(1,2)[OF 2] unfolding e k by simp
  qed (use e in simp)
  show "res = Inr () \<Longrightarrow> (\<exists>k \<in> set (ab_keys db). ak_KeyID k = keyID \<and> ak_Tenant k = t) \<and>
      ab_keys db' = ab_keys (revoke_where (\<lambda>k. ak_KeyID k = keyID \<and> ak_Tenant k = t) (cx_now x) db)"
    using cases
  proof cases
    case 2
    then show ?thesis using revokeAPIKey_Inr(2,3)[OF 2] unfolding e k by simp
  qed simp
qed

lemma rotate_tables:
  assumes "RotateAPIKey a c xo seen checked xr x rnd t actor keyID db = (res, db')"
  shows "ab_nonces db' = ab_nonces db \<and> (ab_keys db' = ab_keys db \<and> (\<exists>err. res = Inl err) \<or>
    (\<exists>k. ab_keys db' = ab_keys (mark_revoked keyID (cx_now x) db) @ [k] \<and> ak_KeyID k \<notin> ak_KeyID ` set (ab_keys db) \<and>
      (\<exists>old \<in> set (ab_keys db). ak_KeyID old = keyID)))"
proof -
  obtain db1 where e: "ab_keys db1 = ab_keys db" "ab_nonces db1 = ab_nonces db"
    and o: "(\<exists>err. res = Inl err) \<and> db' = db1 \<or> (\<exists>v. res = Inr v \<and> after (authorizeAPIKeyRead a c xr t actor db1)
        (\<lambda>_. rotate_tx a c x rnd t actor keyID db1) = Inr (v, db'))"
    by (rule licensed_cases[OF assms[unfolded RotateAPIKey_def]]) blast
  have k: "ab_keys (mark_revoked keyID now db1) = ab_keys (mark_revoked keyID now db)" for now
    by (simp add: mark_revoked_def e)
  consider "\<exists>err. res = Inl err" "db' = db1" | v where "rotate_tx a c x rnd t actor keyID db1 = Inr (v, db')"
    using o by (auto simp: after_Inr)
  then show ?thesis
  proof cases
    case 2
    then show ?thesis using rotate_tx_Inr[OF 2] unfolding e k by blast
  qed (use e in simp)
qed

lemma nonce_stays:
  assumes "r \<in> set (ab_nonces db)" and "\<forall>t \<in> set (request_clocks [c]). \<not> nr_expires r < t"
  shows "r \<in> set (ab_nonces (open_step a c db))"
proof (cases c)
  case (OCRequest xo seen checked x q now)
  obtain res db' where d: "AuthenticateOpen (oa_env a) xo seen checked x q now db = (res, db')" by (rule prod.exhaust)
  show ?thesis using request_tables(1)[OF d] d assms by (auto simp: OCRequest request_clocks_def)
next
  case (OCIssue ac xo seen checked x rnd t name scopes rs actor)
  then show ?thesis using assms(1) issue_tables[OF prod.collapse[symmetric]] by simp
next
  case (OCRevoke ac xo seen checked x t actor keyID)
  then show ?thesis using assms(1) revoke_tables(1)[OF prod.collapse[symmetric]] by simp
next
  case (OCRotate ac xo seen checked xr x rnd t actor keyID)
  then show ?thesis using assms(1) rotate_tables[OF prod.collapse[symmetric]] by simp
qed (use assms in simp)

lemma request_clocks_Cons: "request_clocks (c # cs) = request_clocks [c] @ request_clocks cs"
  by (simp add: request_clocks_def)

lemma nonce_stays_run:
  "r \<in> set (ab_nonces db) \<Longrightarrow> \<forall>t \<in> set (request_clocks cs). t \<le> nr_expires r \<Longrightarrow> r \<in> set (ab_nonces (open_run a cs db))"
proof (induction cs arbitrary: db)
  case (Cons c cs)
  have "\<forall>t \<in> set (request_clocks [c]). \<not> nr_expires r < t" "\<forall>t \<in> set (request_clocks cs). t \<le> nr_expires r"
    using Cons.prems(2) unfolding request_clocks_Cons[of c cs] by (auto simp: not_less)
  then show ?case using Cons.IH[OF nonce_stays[OF Cons.prems(1)]] by simp
qed simp

lemma seconds_apart: "n + 600 * second < n' \<Longrightarrow> n div second + 600 \<le> n' div second"
proof -
  assume a: "n + 600 * second < n'"
  have "(n + 600 * second) div second \<le> n' div second" by (rule zdiv_mono1) (use a in \<open>simp_all add: second_def\<close>)
  moreover have "(n + 600 * second) div second = n div second + 600" by (simp add: second_def)
  ultimately show "n div second + 600 \<le> n' div second" by simp
qed

text \<open>
  C40: A request that was accepted is accepted again with the same key and nonce only when the clock of the database
  has passed the ten minutes for which its nonce is kept, whatever calls come in between. When the server and
  the database have one clock, the replay has the same timestamp only in one case: the timestamp was exactly 300 seconds
  ahead of the first use, and is exactly 300 seconds behind at the second, in the second after the nonce has expired.
\<close>

theorem open_replay_at_the_edge:
  assumes "AuthenticateOpen (oa_env a) xo seen checked x q now db = (Inr p, db1)"
    and "AuthenticateOpen (oa_env a) xo' seen' checked' x' q' now' (open_run a cs db1) = (Inr p', db2)"
    and "oq_KeyID q' = oq_KeyID q" and "oq_Nonce q' = oq_Nonce q" and "\<forall>t \<in> set (request_clocks cs). t \<le> cx_now x'"
  shows "cx_now x + 10 * minute < cx_now x' \<and>
    (oq_Timestamp q' = oq_Timestamp q \<and> now = cx_now x \<and> now' = cx_now x' \<and> \<bar>now\<bar> < 2 ^ 62 * second \<and> \<bar>now'\<bar> < 2 ^ 62 * second \<longrightarrow>
      sint (oq_Timestamp q) = sint (unixSeconds now) + 300 \<and> sint (unixSeconds now') = sint (oq_Timestamp q) + 300)"
proof -
  let ?row = "\<lparr>nr_key = oq_KeyID q, nr_hash = oe_sha256 (oa_env a) (oq_Nonce q), nr_expires = cx_now x + 10 * minute\<rparr>"
  have "open_genuine (oa_env a) xo seen checked x q now db p" by (rule AuthenticateOpen_Inr[OF assms(1)])
  then have first: "\<bar>sint (oq_Timestamp q) - sint (unixSeconds now)\<bar> \<le> 300" by (auto simp: open_genuine_def admits_def)
  have "open_genuine (oa_env a) xo' seen' checked' x' q' now' (open_run a cs db1) p'" by (rule AuthenticateOpen_Inr[OF assms(2)])
  then have again: "\<bar>sint (oq_Timestamp q') - sint (unixSeconds now')\<bar> \<le> 300"
    and fresh: "\<forall>r \<in> set (ab_nonces (open_run a cs db1)). nr_key r = oq_KeyID q' \<and>
      nr_hash r = oe_sha256 (oa_env a) (oq_Nonce q') \<longrightarrow> nr_expires r < cx_now x'"
    by (auto simp: open_genuine_def admits_def)
  have late: "cx_now x + 10 * minute < cx_now x'"
  proof (rule ccontr)
    assume early: "\<not> cx_now x + 10 * minute < cx_now x'"
    then have "\<forall>t \<in> set (request_clocks cs). t \<le> nr_expires ?row" using assms(5) by fastforce
    then have "?row \<in> set (ab_nonces (open_run a cs db1))" by (rule nonce_stays_run[OF accepted_leaves_nonce[OF assms(1)]])
    then show False using fresh early assms(3,4) by fastforce
  qed
  have "sint (oq_Timestamp q) = sint (unixSeconds now) + 300 \<and> sint (unixSeconds now') = sint (oq_Timestamp q) + 300"
    if c: "oq_Timestamp q' = oq_Timestamp q" "now = cx_now x" "now' = cx_now x'" "\<bar>now\<bar> < 2 ^ 62 * second" "\<bar>now'\<bar> < 2 ^ 62 * second"
  proof -
    have "now div second + 600 \<le> now' div second" using late c(2,3) by (intro seconds_apart) (simp add: minute_def)
    then show ?thesis using first again[unfolded c(1)] unixSeconds_sint[OF c(4)] unixSeconds_sint[OF c(5)]
      by (intro conjI; linarith)
  qed
  then show ?thesis using late by blast
qed

subsection \<open>Revocation\<close>

text \<open>A key that is taken away: its identifier is in use, and by revoked keys only.\<close>

definition key_gone :: "string \<Rightarrow> api_key list \<Rightarrow> bool" where
  "key_gone keyID ks \<longleftrightarrow> keyID \<in> ak_KeyID ` set ks \<and> (\<forall>k \<in> set ks. ak_KeyID k = keyID \<longrightarrow> ak_Revoked k \<noteq> None)"

lemma key_gone_alt: "key_gone keyID ks \<longleftrightarrow>
    (let l = map (\<lambda>k. (ak_KeyID k, ak_Revoked k)) ks in keyID \<in> fst ` set l \<and> (\<forall>p \<in> set l. fst p = keyID \<longrightarrow> snd p \<noteq> None))"
  by (auto simp: key_gone_def image_image)

lemma revoked_keys: "ak_KeyID ` set (ab_keys (revoke_where P now db)) = ak_KeyID ` set (ab_keys db)"
proof -
  have "map ak_KeyID (ab_keys (revoke_where P now db)) = map ak_KeyID (ab_keys db)" by (simp add: revoke_where_def)
  then show ?thesis by (metis list.set_map)
qed

lemma revoke_where_row: "o1 \<in> set (ab_keys (revoke_where P now db)) \<Longrightarrow>
    \<exists>k \<in> set (ab_keys db). ak_KeyID k = ak_KeyID o1 \<and> (P k \<longrightarrow> ak_Revoked o1 \<noteq> None)"
  unfolding revoke_where_def by (auto split: if_split_asm)

lemma key_gone_append: "key_gone keyID ks \<Longrightarrow> ak_KeyID k \<notin> ak_KeyID ` set ks \<Longrightarrow> key_gone keyID (ks @ [k])"
  by (auto simp: key_gone_def)

lemma key_gone_revoke: "key_gone keyID (ab_keys db) \<Longrightarrow> key_gone keyID (ab_keys (revoke_where P now db))"
  unfolding key_gone_def revoked_keys by (auto simp: revoke_where_def)

lemma key_gone_mark: "key_gone keyID (ab_keys db) \<Longrightarrow> key_gone keyID (ab_keys (mark_revoked other now db))"
  unfolding key_gone_def marked_keys by (auto simp: mark_revoked_def)

lemma key_gone_marked: "k \<in> set (ab_keys db) \<Longrightarrow> ak_KeyID k = keyID \<Longrightarrow> key_gone keyID (ab_keys (mark_revoked keyID now db))"
  unfolding key_gone_def marked_keys by (auto simp: mark_revoked_def)

lemma key_stays_gone:
  assumes "key_gone keyID (ab_keys db)"
  shows "key_gone keyID (ab_keys (open_step a c db))"
proof (cases c)
  case (OCRequest xo seen checked x q now)
  obtain res db' where d: "AuthenticateOpen (oa_env a) xo seen checked x q now db = (res, db')" by (rule prod.exhaust)
  show ?thesis using assms d unfolding OCRequest key_gone_alt by (simp add: request_tables(2)[OF d])
next
  case (OCIssue ac xo seen checked x rnd t name scopes rs actor)
  then show ?thesis using assms issue_tables[OF prod.collapse[symmetric]] key_gone_append[OF assms] by (metis open_step.simps(2))
next
  case (OCRevoke ac xo seen checked x t actor other)
  then show ?thesis using revoke_tables(1)[OF prod.collapse[symmetric]] assms key_gone_revoke[OF assms] by (metis open_step.simps(3))
next
  case (OCRotate ac xo seen checked xr x rnd t actor other)
  then show ?thesis
    using rotate_tables[OF prod.collapse[symmetric]] assms key_gone_append[OF key_gone_mark[OF assms]]
    unfolding marked_keys by (metis open_step.simps(4))
qed (use assms in simp)

lemma run_stays_gone: "key_gone keyID (ab_keys db) \<Longrightarrow> key_gone keyID (ab_keys (open_run a cs db))"
  by (induction cs arbitrary: db) (simp_all add: key_stays_gone)

lemma gone_refused: "key_gone (oq_KeyID q) (ab_keys db) \<Longrightarrow> fst (AuthenticateOpen e xo seen checked x q now db) \<noteq> Inr p"
proof
  assume g: "key_gone (oq_KeyID q) (ab_keys db)" and "fst (AuthenticateOpen e xo seen checked x q now db) = Inr p"
  then have "AuthenticateOpen e xo seen checked x q now db = (Inr p, snd (AuthenticateOpen e xo seen checked x q now db))"
    by (metis prod.collapse)
  from AuthenticateOpen_Inr[OF this] g show False by (auto simp: open_genuine_def admits_def key_gone_def)
qed

text \<open>
  After a key was revoked or rotated no request with it is accepted any more, whatever calls follow: keys
  are issued, rotated and revoked, and requests are served.
\<close>

theorem revoked_key_stays_out:
  assumes "distinct (map ak_KeyID (ab_keys db))"
    and "RevokeAPIKey a c xo seen checked x t actor keyID db = (Inr (), db1) \<or>
      RotateAPIKey a c xo seen checked xr x rnd t actor keyID db = (Inr out, db1)"
    and "oq_KeyID q = keyID"
  shows "fst (AuthenticateOpen (oa_env a) xo' seen' checked' x' q now (open_run a cs db1)) \<noteq> Inr p"
proof -
  have "key_gone keyID (ab_keys db1)"
    using assms(2)
  proof
    assume r: "RevokeAPIKey a c xo seen checked x t actor keyID db = (Inr (), db1)"
    from revoke_tables(2)[OF r] obtain k where k: "k \<in> set (ab_keys db)" "ak_KeyID k = keyID" "ak_Tenant k = t"
      and keys: "ab_keys db1 = ab_keys (revoke_where (\<lambda>k. ak_KeyID k = keyID \<and> ak_Tenant k = t) (cx_now x) db)" by auto
    have tenant: "ak_Tenant o1 = t" if "o1 \<in> set (ab_keys db)" "ak_KeyID o1 = keyID" for o1
    proof -
      have "o1 = k" using assms(1) that k(1,2) by (simp add: distinct_map inj_on_def)
      then show ?thesis using k(3) by simp
    qed
    have "ak_Revoked o1 \<noteq> None" if o: "o1 \<in> set (ab_keys db1)" "ak_KeyID o1 = keyID" for o1
    proof -
      obtain o2 where "o2 \<in> set (ab_keys db)" "ak_KeyID o2 = keyID" "ak_KeyID o2 = keyID \<and> ak_Tenant o2 = t \<longrightarrow> ak_Revoked o1 \<noteq> None"
        using revoke_where_row[OF o(1)[unfolded keys]] o(2) by auto
      then show ?thesis using tenant by blast
    qed
    then have "\<forall>o1 \<in> set (ab_keys db1). ak_KeyID o1 = keyID \<longrightarrow> ak_Revoked o1 \<noteq> None" by blast
    moreover have "keyID \<in> ak_KeyID ` set (ab_keys db1)" using k(1,2) unfolding keys revoked_keys by (metis imageI)
    ultimately show ?thesis by (simp add: key_gone_def)
  next
    assume "RotateAPIKey a c xo seen checked xr x rnd t actor keyID db = (Inr out, db1)"
    from rotate_tables[OF this] obtain k old where k: "ab_keys db1 = ab_keys (mark_revoked keyID (cx_now x) db) @ [k]"
      "ak_KeyID k \<notin> ak_KeyID ` set (ab_keys db)" "old \<in> set (ab_keys db)" "ak_KeyID old = keyID" by (elim conjE disjE exE bexE) simp_all
    show ?thesis unfolding k(1) by (rule key_gone_append[OF key_gone_marked[OF k(3,4)]]) (simp add: marked_keys k(2))
  qed
  then show ?thesis using gone_refused run_stays_gone assms(3) by blast
qed

end
