(* ===== verification/Open_Examples.thy ===== *)
theory Open_Examples
  imports Admin_Examples Open_Safety
begin

text \<open>A key of the first tenant and two requests with it, ten minutes and a second apart: the properties of the open API applied to them.\<close>

definition exo_setup :: license_setup where
  "exo_setup = exa_setup\<lparr>lx_env := exa_license_env\<lparr>le_object := (\<lambda>_. Some exa_members),
     le_payload := (\<lambda>_. Some (exa_payload\<lparr>lp_Features := [''openapi''], lp_ExpiresAt := None\<rparr>)),
     le_string := (\<lambda>_. Some ''2026Z'')\<rparr>\<rparr>"

definition exo_env :: open_env where
  "exo_env = \<lparr>oe_setup = exo_setup, oe_hmac = (\<lambda>_ _. replicate 32 CHR ''x''), oe_seal = (\<lambda>_ _ c. c),
     oe_unseal = (\<lambda>_ _ c. Some c), oe_root = replicate 32 CHR ''r'', oe_perMinute = 60, oe_burst = 10\<rparr>"

definition exo_admin :: open_admin where
  "exo_admin = \<lparr>oa_env = exo_env, oa_policy = None\<rparr>"

definition exo_key :: api_key where
  "exo_key = \<lparr>ak_KeyID = ''ik_1'', ak_Tenant = 2, ak_Name = ''n'', ak_Scopes = [''ponds:read''], ak_Farms = [], ak_Ponds = [1],
     ak_Devices = [], ak_Encrypted = ''s'', ak_SecretNonce = ''o'', ak_CreatedBy = 5, ak_Created = 3, ak_Revoked = None,
     ak_RotatedFrom = None, ak_Tokens = 10, ak_Refill = 3\<rparr>"

definition exo_db :: admin_db where
  "exo_db = exa_licensed_db\<lparr>ab_keys := [exo_key]\<rparr>"

definition exo_http :: open_http where
  "exo_http = \<lparr>ho_KeyID = ''ik_1'', ho_Timestamp = ''1300'', ho_Nonce = ''0123456789abcdef'',
     ho_Signature = hexEncode (replicate 32 CHR ''x''), ho_Method = ''GET'', ho_Path = ''/open/v1/ponds'', ho_Query = [],
     ho_Body = OpenBody []\<rparr>"

definition exo_request :: OpenRequest where
  "exo_request = open_request_of exo_http []"

text \<open>The clock of the first use, 300 seconds behind the timestamp, and of the second, 300 seconds ahead of it.\<close>

definition exo_first :: time where
  "exo_first = (62135596800 + 1000) * second + 5"

definition exo_second :: time where
  "exo_second = (62135596800 + 1600) * second + 6"

text \<open>A request that passes every check is accepted.\<close>

lemma open_accepted:
  assumes "RequireLicenseFeature (oe_setup e) no_actor xo seen checked ''openapi'' db = (Inr (), db1)"
    and "open_shape e q now = Inr (path, query, sig)"
    and "find (\<lambda>k. ak_KeyID k = oq_KeyID q \<and> ak_Revoked k = None) (ab_keys db1) = Some k"
    and "tenant_active (ab_core db1) (ak_Tenant k)"
    and "decryptAPISecret e (ak_Encrypted k) (ak_SecretNonce k) = Some secret"
    and "oe_hmac e secret (signed_text e q path query) = sig"
    and "remember_nonce e x (oq_KeyID q) (oq_Nonce q) db1 = Inr db2"
    and "consumeOpenRate (ak_Tokens k) (ak_Refill k) now (oe_perMinute e) (oe_burst e) = (tokens, 0)"
    and "cx_fails x = (\<lambda>_. False)"
  shows "AuthenticateOpen e xo seen checked x q now db =
    (Inr \<lparr>op_KeyID = oq_KeyID q, op_TenantID = ak_Tenant k, op_Scopes = ak_Scopes k, op_Resources = key_scope k\<rparr>,
     put_rate (oq_KeyID q) tokens (ce_time (lx_core (oe_setup e)) now) db2)"
  using assms by (simp add: AuthenticateOpen_def open_tx_def iolink_simps)

definition exo_observed :: admin_db where
  "exo_observed = exo_db\<lparr>ab_max_seen := Some exo_first\<rparr>"

definition exo_after :: admin_db where
  "exo_after = exo_observed\<lparr>ab_nonces := [\<lparr>nr_key = ''ik_1'', nr_hash = ''0123456789abcdef'', nr_expires = exo_first + 10 * minute\<rparr>],
     ab_keys := [exo_key\<lparr>ak_Tokens := 9, ak_Refill := exo_first\<rparr>]\<rparr>"

definition exo_principal :: OpenPrincipal where
  "exo_principal = \<lparr>op_KeyID = ''ik_1'', op_TenantID = 2, op_Scopes = [''ponds:read''], op_Resources = key_scope exo_key\<rparr>"

lemma exo_license: "fst (RequireLicenseFeature exo_setup no_actor (exa_tx exo_first) exo_first exo_first ''openapi'' exo_db) = Inr ()"
  by code_simp

lemma exo_license_seen: "snd (RequireLicenseFeature exo_setup no_actor (exa_tx exo_first) exo_first exo_first ''openapi'' exo_db) = exo_observed"
  by code_simp

lemma exo_license_again: "fst (RequireLicenseFeature exo_setup no_actor (exa_tx exo_second) exo_second exo_second ''openapi'' exo_after) = Inr ()"
  by code_simp

lemma exo_shape: "open_shape exo_env exo_request exo_first = Inr (''/open/v1/ponds'', [], replicate 32 CHR ''x'')"
  by code_simp

lemma exo_shape_again: "open_shape exo_env exo_request exo_second = Inr (''/open/v1/ponds'', [], replicate 32 CHR ''x'')"
  by code_simp

lemma exo_rate: "consumeOpenRate 10 3 exo_first 60 10 = (9, 0)"
  by code_simp

lemma exo_rate_again: "consumeOpenRate 9 exo_first exo_second 60 10 = (9, 0)"
  by code_simp

lemma exo_remember: "remember_nonce exo_env (exa_tx exo_first) ''ik_1'' ''0123456789abcdef'' exo_observed =
    Inr (exo_observed\<lparr>ab_nonces := [\<lparr>nr_key = ''ik_1'', nr_hash = ''0123456789abcdef'', nr_expires = exo_first + 10 * minute\<rparr>]\<rparr>)"
  by (simp add: remember_nonce_def iolink_simps exa_defs exo_env_def exo_setup_def exa_license_env_def exo_observed_def exo_db_def exa_licensed_db_def)

lemma exo_parts [simp]:
  "oe_setup exo_env = exo_setup" "oe_perMinute exo_env = 60" "oe_burst exo_env = 10" "oe_hmac exo_env = (\<lambda>_ _. replicate 32 CHR ''x'')"
  "cx_fails (exa_tx t) = (\<lambda>_. False)" "cx_now (exa_tx t) = t" "oa_env exo_admin = exo_env" "ce_time (lx_core exo_setup) = (\<lambda>t. t)"
  by (simp_all add: exo_env_def exo_admin_def exo_setup_def exa_defs)

lemma exo_request_parts: "oq_KeyID exo_request = ''ik_1''" "oq_Nonce exo_request = ''0123456789abcdef''"
  by (simp_all add: exo_request_def open_request_of_def exo_http_def)

lemma exo_secret: "decryptAPISecret exo_env ''s'' ''o'' = Some ''s''"
  by (simp add: decryptAPISecret_def exo_env_def)

lemma exo_tenant: "tenant_active (ab_core exo_observed) (ak_Tenant exo_key)" "tenant_active (ab_core exo_after) 2"
  by code_simp+

lemma exo_used: "AuthenticateOpen exo_env (exa_tx exo_first) exo_first exo_first (exa_tx exo_first) exo_request exo_first exo_db =
    (Inr exo_principal, exo_after)"
proof -
  have l: "RequireLicenseFeature (oe_setup exo_env) no_actor (exa_tx exo_first) exo_first exo_first ''openapi'' exo_db = (Inr (), exo_observed)"
    using exo_license exo_license_seen by (simp add: prod_eq_iff)
  have f: "find (\<lambda>k. ak_KeyID k = oq_KeyID exo_request \<and> ak_Revoked k = None) (ab_keys exo_observed) = Some exo_key"
    by (simp add: exo_request_parts exo_observed_def exo_db_def exo_key_def)
  have k: "decryptAPISecret exo_env (ak_Encrypted exo_key) (ak_SecretNonce exo_key) = Some ''s''"
    "oe_hmac exo_env ''s'' (signed_text exo_env exo_request ''/open/v1/ponds'' []) = replicate 32 CHR ''x''"
    "consumeOpenRate (ak_Tokens exo_key) (ak_Refill exo_key) exo_first (oe_perMinute exo_env) (oe_burst exo_env) = (9, 0)"
    by (simp_all add: exo_secret exo_rate exo_key_def)
  show ?thesis
    by (subst open_accepted[OF l exo_shape f exo_tenant(1) k(1,2) exo_remember[folded exo_request_parts] k(3)])
      (simp_all add: exo_request_parts exo_principal_def exo_after_def exo_observed_def exo_db_def put_rate_def exo_key_def)
qed

lemma exo_license_seen_again:
  "snd (RequireLicenseFeature exo_setup no_actor (exa_tx exo_second) exo_second exo_second ''openapi'' exo_after) =
    exo_after\<lparr>ab_max_seen := Some exo_second\<rparr>"
  by code_simp

lemma exo_used_again: "fst (AuthenticateOpen exo_env (exa_tx exo_second) exo_second exo_second (exa_tx exo_second) exo_request exo_second exo_after) =
    Inr exo_principal"
proof -
  let ?db = "exo_after\<lparr>ab_max_seen := Some exo_second\<rparr>"
  have l: "RequireLicenseFeature (oe_setup exo_env) no_actor (exa_tx exo_second) exo_second exo_second ''openapi'' exo_after = (Inr (), ?db)"
    using exo_license_again exo_license_seen_again by (simp add: prod_eq_iff)
  have f: "find (\<lambda>k. ak_KeyID k = oq_KeyID exo_request \<and> ak_Revoked k = None) (ab_keys ?db) =
      Some (exo_key\<lparr>ak_Tokens := 9, ak_Refill := exo_first\<rparr>)"
    by (simp add: exo_request_parts exo_after_def exo_key_def)
  have k: "tenant_active (ab_core ?db) (ak_Tenant (exo_key\<lparr>ak_Tokens := 9, ak_Refill := exo_first\<rparr>))"
    "decryptAPISecret exo_env (ak_Encrypted (exo_key\<lparr>ak_Tokens := 9, ak_Refill := exo_first\<rparr>))
      (ak_SecretNonce (exo_key\<lparr>ak_Tokens := 9, ak_Refill := exo_first\<rparr>)) = Some ''s''"
    "oe_hmac exo_env ''s'' (signed_text exo_env exo_request ''/open/v1/ponds'' []) = replicate 32 CHR ''x''"
    "consumeOpenRate (ak_Tokens (exo_key\<lparr>ak_Tokens := 9, ak_Refill := exo_first\<rparr>))
      (ak_Refill (exo_key\<lparr>ak_Tokens := 9, ak_Refill := exo_first\<rparr>)) exo_second (oe_perMinute exo_env) (oe_burst exo_env) = (9, 0)"
    using exo_tenant(2) by (simp_all add: exo_secret exo_rate_again exo_key_def)
  have "exo_first + 10 * minute < exo_second" by (simp add: exo_first_def exo_second_def duration_defs)
  then have "\<exists>db2. remember_nonce exo_env (exa_tx exo_second) (oq_KeyID exo_request) (oq_Nonce exo_request) ?db = Inr db2"
    by (simp add: remember_nonce_def iolink_simps exo_after_def)
  then obtain db2 where r: "remember_nonce exo_env (exa_tx exo_second) (oq_KeyID exo_request) (oq_Nonce exo_request) ?db = Inr db2" ..
  show ?thesis
    by (subst open_accepted[OF l exo_shape_again f k(1-3) r k(4)])
      (simp_all add: exo_request_parts exo_principal_def key_scope_def exo_key_def)
qed

theorem open_replay_at_the_edge_witness:
  "AuthenticateOpen exo_env (exa_tx exo_first) exo_first exo_first (exa_tx exo_first) exo_request exo_first exo_db =
      (Inr exo_principal, exo_after) \<and>
    fst (AuthenticateOpen exo_env (exa_tx exo_second) exo_second exo_second (exa_tx exo_second) exo_request exo_second exo_after) =
      Inr exo_principal \<and>
    exo_first + 10 * minute < exo_second \<and> sint (oq_Timestamp exo_request) = sint (unixSeconds exo_first) + 300 \<and>
    sint (unixSeconds exo_second) = sint (oq_Timestamp exo_request) + 300"
proof -
  have "fst (AuthenticateOpen (oa_env exo_admin) (exa_tx exo_second) exo_second exo_second (exa_tx exo_second) exo_request exo_second
      (open_run exo_admin [] exo_after)) = Inr exo_principal"
    by (simp add: exo_used_again)
  then obtain db2 where "AuthenticateOpen (oa_env exo_admin) (exa_tx exo_second) exo_second exo_second (exa_tx exo_second) exo_request exo_second
      (open_run exo_admin [] exo_after) = (Inr exo_principal, db2)" by (metis prod.collapse)
  from open_replay_at_the_edge[OF _ this HOL.refl HOL.refl, of "exa_tx exo_first" exo_first exo_first "exa_tx exo_first" exo_first exo_db exo_principal]
  show ?thesis by (simp add: exo_used exo_used_again) (simp add: request_clocks_def exo_first_def exo_second_def duration_defs)
qed

theorem open_answer_sound_witness:
  "\<exists>p. open_genuine exo_env (exa_tx exo_first) exo_first exo_first (exa_tx exo_first) exo_request exo_first exo_db p \<and>
    hasScope p ''ponds:read'' \<and> shows_only (shown_pond p exo_after) (shown_device p exo_after) (shown_alarm p exo_after)
      (OpenPonds [\<lparr>po_id = 1, po_farm = 1, po_name = ''p'', po_area = None\<rparr>])"
proof -
  let ?deps = "\<lparr>od_Auth = Some (AuthenticateOpen exo_env (exa_tx exo_first) exo_first exo_first (exa_tx exo_first)),
    od_Resources = Some (core_resources (exa_tx exo_first))\<rparr>"
  have "listPonds exo_principal (core_resources (exa_tx exo_first)) exo_after =
      OpenPonds [\<lparr>po_id = 1, po_farm = 1, po_name = ''p'', po_area = None\<rparr>]" by code_simp
  then have "serve_open ?deps RoutePonds exo_http exo_first exo_db =
      (OpenPonds [\<lparr>po_id = 1, po_farm = 1, po_name = ''p'', po_area = None\<rparr>], exo_after)"
    using exo_used by (simp add: serve_open_def open_authenticate_def exo_request_def exo_http_def)
  from open_answer_sound[OF this] show ?thesis by (simp add: exo_request_def exo_http_def)
qed

end
