(* ===== verification/Spec2Isabelle.thy ===== *)
theory Spec2Isabelle
  imports GB_Service Catalog_Store Rtp_Ports Rtsp_Admission Zlm_Gate
    Playback_Examples Mqtt_Examples Core_Examples Open_Examples
begin

text \<open>
  IoLink: a verification library for the Go server of an aquaculture monitoring platform
  (\<open>src/internal\<close>). One process (\<open>cmd/iolinkd\<close>) is an MQTT broker for the sensors of the ponds, the
  core that stores their reports and raises alarms, the workers that send the alarms to the
  keepers, the administration of farms, ponds, devices and licenses of several tenants, and the video
  part: cameras that register over GB28181 or are reached over RTSP, and playbacks of their streams.
  Every theory translates the Go code it names; the theorems are about those translations.

  How the parts interact. A sensor connects to the broker (\<open>access\<close>), which asks the core who it is, keeps one
  session for it and hands its reports to \<open>HandleEvent\<close> of the core. That call stores the report, updates the
  shadow of the device, evaluates the rules of its pond and writes an outbox row for every alarm, all in one
  transaction. A notification worker leases outbox rows and sends them. The administration writes the
  tables the core reads; a device it adds is admitted by the license. A viewer asks the playback service for a
  stream: the service writes a session and a job in one transaction of the media store, the media
  worker leases the job, asks the license and the store again and starts the stream at the provider.
  The media requests of the viewer are checked against the session rows each time. A camera
  registers by digest with a nonce of one use, sends keepalives and its catalog, which the
  coordinator collects page by page and replaces in one transaction. A partner reads ponds, devices and alarms
  with requests signed by a key of its tenant.

  \<^bold>\<open>Shared vocabulary.\<close>
  \<^item> \<open>Iolink_Prelude\<close>: results (\<open>Inl\<close> an error, \<open>Inr\<close> a value), instants and durations as \<open>int\<close> in nanoseconds with
    the zero instant, association lists, the chains \<open>require\<close>, \<open>take_or\<close> and \<open>after\<close> in which calls with
    early returns are written, and the collections of facts the proofs use.
  \<^item> \<open>Go_Strings\<close>, \<open>Go_Strconv\<close>, \<open>Go_Base64\<close>, \<open>Netip\<close>: the parts of the standard library the code uses, on
    strings as bytes and addresses as words, with the round trips the components need.

  \<^bold>\<open>GB28181\<close> (\<open>gb\<close>, \<open>gbpg\<close>, \<open>gbcatalog\<close>, \<open>gbcatalogpg\<close>).
  \<^item> \<open>GB_Contracts\<close>: the data types, their validators, and the locales \<open>nonce_store\<close> and \<open>device_store\<close>, the
    contracts of the two interfaces. \<open>GB_Nonce\<close>: \<open>Issue\<close> and \<open>Consume\<close> of the store in memory, an
    interpretation of the first. \<open>GB_Store\<close>: the store over \<open>video_gb_devices\<close>, an interpretation of the second.
  \<^item> \<open>GB_Register\<close>: \<open>Challenge\<close> and \<open>HandleRegister\<close>; a success rests on an admitted device, a fresh nonce
    and the right digest. \<open>GB_Message\<close>: \<open>ParseMessageXML\<close> and \<open>HandleMessage\<close>. \<open>GB_Service\<close>: the locale
    \<open>gb_registration\<close> over both contracts, interpreted on the wired stores: single use of an
    authorization, and the way from a registration to a keepalive.
  \<^item> \<open>Catalog\<close>: the coordinator, each section under its mutex one function. \<open>Catalog_Interleaving\<close>: the
    sections of any number of calls as an inductive step relation, with the invariants by rule induction: a
    refresh replaces the catalog at most once; a refresh can also come back after it was given up.
    \<open>Catalog_Store\<close>: the tables and the contract \<open>catalog_store\<close>; a complete catalog shows exactly its channels.

  \<^bold>\<open>Media\<close> (\<open>media\<close>, \<open>mediajobs\<close>, \<open>mediapg\<close>, \<open>playback\<close>, \<open>mediahttp\<close>).
  \<^item> \<open>Rtp_Ports\<close>: the allocator, refined to the set of held pairs. \<open>Rtsp_Admission\<close>: what a pinned source
    satisfies. \<open>Zlm_Gate\<close>: the checks of the provider's build. \<open>Media\<close>: the shared contracts.
  \<^item> \<open>Media_Jobs\<close>: the queue in memory. \<open>Media_Store\<close> and \<open>Media_Queue\<close>: the media store and its queue in the
    database. \<open>Job_Lease\<close>: the locale \<open>leased_queue\<close>, what a holder of a lease may rely on, interpreted on both queues.
  \<^item> \<open>Media_Safety\<close>, \<open>Media_Run\<close>, \<open>Media_Revocation\<close>: who may see a stream, what a stop does, and what holds over
    any run of calls (\<open>media_run\<close>): closed sessions that stay closed, and a stop that is lost when the stream was
    stopped before and has no job left.
  \<^item> \<open>Playback\<close>, \<open>Playback_Manifest\<close>, \<open>Playback_Worker\<close>: the service over a record of operations; the rewriting of
    playlists and its round trip; the worker with the locale \<open>playback_worker\<close>. \<open>Playback_System\<close>: the
    service over the media store and a recording provider, the interpretation of that locale. \<open>Media_Http\<close>: the handler.

  \<^bold>\<open>Sensors\<close> (\<open>access\<close>, \<open>ingestion\<close>, \<open>event\<close>, \<open>core\<close>, \<open>notifications\<close>, \<open>persistence\<close>).
  \<^item> \<open>Mqtt_Topic\<close>: topics, ACL and the checks of an event. \<open>Mqtt_Sessions\<close>: the sessions as sections under their
    locks and their interleavings; the status the core has is the true one. \<open>Mqtt_Broker\<close>: the hooks.
  \<^item> \<open>Core_Tables\<close>: the tables as lists of rows and the questions about a device. \<open>Core_Ingest\<close>: \<open>HandleEvent\<close> of
    all three kinds of event. \<open>Core_Alarm\<close>: rules and alarms. \<open>Core_Facts\<close>: what a report stores and raises,
    deduplication, the order of reports. \<open>Core_Run\<close>: events, confirmations and workers in any order.
  \<^item> \<open>Notify_Worker\<close>: the worker over the locale \<open>delivery_store\<close>. \<open>Notify_Store\<close>: the queue in the database, its
    interpretation. \<open>Alarm_Delivery\<close>: the way of an alarm to the sender, and that a burst ends.

  \<^bold>\<open>Tenants, license and administration\<close> (\<open>license\<close>, \<open>authorization\<close>, \<open>core\<close>).
  \<^item> \<open>License\<close>: payloads, signatures and the evaluation of a license; the walk that finds duplicate keys.
    \<open>License_Runtime\<close>: the latch of the clock, the admission of a device and the import. \<open>License_Clock\<close>: what
    they keep over any run of calls.
  \<^item> \<open>Tenant_Access\<close>: the actor of a request, the policy and the check of a write inside its transaction.
    \<open>Admin_Farms\<close>, \<open>Admin_Devices\<close>: the operations of \<open>core/admin_store.go\<close>. \<open>Admin_Calls\<close>, \<open>Admin_Kept\<close>,
    \<open>Admin_Rows\<close>: all writes as one step function, and what each keeps. \<open>Admin_Safety\<close>: isolation of tenants, who
    may write, the license as a bound, and what a deletion and a batch do.

  \<^bold>\<open>Open API\<close> (\<open>core/open_*.go\<close>, \<open>core/api_key*.go\<close>, \<open>openapi\<close>).
  \<^item> \<open>Open_Request\<close>: the canonical form, the signature, the nonce and the rate of a request, and its transaction.
    \<open>Open_Keys\<close>: issue, list, rotation and revocation of keys, and the rows a key reads. \<open>Open_Http\<close>: the handlers
    over the locale \<open>open_provider\<close>, the contract of the authenticator and the resource store.
  \<^item> \<open>Open_Facts\<close>: what the canonical form and the signed text determine, what an accepted request rests on,
    and the interpretation of the contract on the core. \<open>Open_Safety\<close>: requests and the management of
    keys in any order; a replay succeeds at the edge of its window only, and a key that is gone stays out.

  The theories \<open>*_Examples\<close> apply the properties to concrete runs, in which every hypothesis holds.

  \<^bold>\<open>State and failure.\<close> A table is the list of its rows or an association list with distinct keys. A call
  of the database is one transaction: it returns its value with the new tables, or an error, and then the
  tables are as before. Which statements of a call fail is an argument (\<open>tx_fails\<close>, \<open>cx_fails\<close>, \<open>pg_fails\<close>,
  \<open>cg_fails\<close>), as is what the clock reads; a theorem that does not mention them holds for every failure. What a
  lock protects is one step, and theorems on concurrency quantify over all orders of steps. Two transactions
  are taken to be serialised where the code locks the rows it reads and writes; weaker interleavings of
  transactions are not modelled.

  \<^bold>\<open>Bounds and fuel.\<close> Counters, identifiers and instants are \<open>int\<close>: the code compares and adds them far inside
  64 bits; addresses, ports and the timestamp of an open request, whose distance to the clock wraps, are words. The only fuel is the depth of the walk over JSON tokens
  (\<open>walk_value\<close>), started at twice the number of tokens and one: every call takes a token or goes
  from a value to its members, and \<open>duplicates_found\<close> proves that it suffices. The eviction of nonces and the scanners of strings have their
  termination proofs. The burst of a worker is a \<open>partial_function\<close>; \<open>worker_burst_ends\<close> proves that it returns.

  \<^bold>\<open>Parameters.\<close> MD5, SHA-256, HMAC, AES-GCM, RSA-PSS, the JSON and XML decoders, \<open>url.Parse\<close>, \<open>uuid.Parse\<close>, \<open>strconv.ParseFloat\<close>,
  the resolver, the credential cipher, the random source, the precision of a stored instant, the provider
  and the sender of messages are arguments; the hypotheses on them are named in the theorems
  that use them, and their witnesses instantiate them.

  \<^bold>\<open>Not modelled.\<close> HTTP routing and decoding of bodies (\<open>adminapi\<close>, \<open>appapi\<close>, \<open>setupapi\<close>), the
  list of audit events of the keys, accounts and tenants, the editor of product models, the administration of cameras, the lists and histories
  for the app, migrations, logging, metrics and configuration: they are input and output around the parts above, or
  write rows those parts only read. Printing of log lines and the cancellation of contexts between
  statements are left out of the modelled calls; a cancelled statement is one that fails.
\<close>

end
